(* ===== verification/Prelude.thy ===== *)
theory Prelude
  imports Complex_Main "HOL-Library.Signed_Division"
begin

text \<open>
  Shared vocabulary of the development.

  \<^item> JavaScript values: numbers as exact rationals with the non-finite values apart,
    \<open>BigInt\<close> as \<open>int\<close> with the truncating division of the language, strings as lists of
    code units below 256.
  \<^item> The effect monad: a computation takes a state and returns either a thrown error or a
    result, and the new state. It carries \<open>try\<close>/\<open>catch\<close>, sequencing, loops over lists and
    the \<open>BEGIN IMMEDIATE\<close>/\<open>COMMIT\<close>/\<open>ROLLBACK\<close> bracket of the stores, with a weakest
    precondition calculus whose rules are simplification rules.
  \<^item> Tables of \<open>node:sqlite\<close> as lists of rows in insertion order: update, delete, count and
    sum over the rows a predicate selects.
\<close>

named_theorems wp_simps \<open>weakest preconditions of the operations of a store\<close>
named_theorems frame_simps \<open>what an operation leaves unchanged\<close>

section \<open>JavaScript values\<close>

text \<open>
  A JavaScript number is a double. Comparison, \<open>Number.isFinite\<close>, \<open>Math.floor\<close> and the
  conversions to and from \<open>BigInt\<close> are exact here, and a finite double is a rational.
  Sums of numbers are taken in the rationals: they agree with the doubles as long as the
  integers involved stay below \<open>2 ^ 53\<close>.
\<close>

datatype jsnum = JNum rat | JInf bool | JNaN

text \<open>\<open>JInf True\<close> is \<open>-Infinity\<close>.\<close>

fun js_lt :: "jsnum \<Rightarrow> jsnum \<Rightarrow> bool" where
  "js_lt (JNum a) (JNum b) = (a < b)"
| "js_lt (JNum a) (JInf neg) = (\<not> neg)"
| "js_lt (JInf neg) (JNum b) = neg"
| "js_lt (JInf neg) (JInf neg') = (neg \<and> \<not> neg')"
| "js_lt _ _ = False"

abbreviation js_gt :: "jsnum \<Rightarrow> jsnum \<Rightarrow> bool" where
  "js_gt a b \<equiv> js_lt b a"

fun js_isFinite :: "jsnum \<Rightarrow> bool" where
  "js_isFinite (JNum _) = True"
| "js_isFinite _ = False"

fun js_add :: "jsnum \<Rightarrow> jsnum \<Rightarrow> jsnum" where
  "js_add (JNum a) (JNum b) = JNum (a + b)"
| "js_add (JInf s) (JInf t) = (if s = t then JInf s else JNaN)"
| "js_add (JInf s) (JNum _) = JInf s"
| "js_add (JNum _) (JInf s) = JInf s"
| "js_add _ _ = JNaN"

fun js_floor :: "jsnum \<Rightarrow> jsnum" where
  "js_floor (JNum a) = JNum (of_int \<lfloor>a\<rfloor>)"
| "js_floor x = x"

text \<open>\<open>Math.round\<close> rounds halves up.\<close>

fun js_round :: "jsnum \<Rightarrow> jsnum" where
  "js_round (JNum a) = JNum (of_int \<lfloor>a + 1 / 2\<rfloor>)"
| "js_round x = x"

text \<open>\<open>Math.min\<close> and \<open>Math.max\<close> of two numbers.\<close>

definition js_min :: "jsnum \<Rightarrow> jsnum \<Rightarrow> jsnum" where
  "js_min a b = (if a = JNaN \<or> b = JNaN then JNaN else if js_lt b a then b else a)"

definition js_max :: "jsnum \<Rightarrow> jsnum \<Rightarrow> jsnum" where
  "js_max a b = (if a = JNaN \<or> b = JNaN then JNaN else if js_lt a b then b else a)"

text \<open>\<open>BigInt(x)\<close> of a number throws (here \<open>None\<close>) unless the number is an integer.\<close>

fun js_BigInt :: "jsnum \<Rightarrow> int option" where
  "js_BigInt (JNum a) = (if of_int \<lfloor>a\<rfloor> = a then Some \<lfloor>a\<rfloor> else None)"
| "js_BigInt _ = None"

definition max_safe_integer :: int where
  "max_safe_integer = 9007199254740991"

definition js_safe_integer :: "int \<Rightarrow> bool" where
  "js_safe_integer x \<longleftrightarrow> \<bar>x\<bar> \<le> max_safe_integer"

fun js_isSafeInteger :: "jsnum \<Rightarrow> bool" where
  "js_isSafeInteger (JNum a) = (of_int \<lfloor>a\<rfloor> = a \<and> js_safe_integer \<lfloor>a\<rfloor>)"
| "js_isSafeInteger _ = False"

text \<open>
  \<open>Number(n)\<close> of a \<open>BigInt\<close>: the nearest double, ties to even. \<open>excess_bits\<close> counts the
  bits beyond the 53 of a significand.
\<close>

fun excess_bits :: "nat \<Rightarrow> nat" where
  "excess_bits n = (if n < 9007199254740992 then 0 else Suc (excess_bits (n div 2)))"

declare excess_bits.simps [simp del]

definition round_half_even :: "nat \<Rightarrow> nat \<Rightarrow> nat" where
  "round_half_even n d =
     (if 2 * (n mod d) > d \<or> (2 * (n mod d) = d \<and> odd (n div d)) then Suc (n div d) else n div d)"

definition double_of_nat :: "nat \<Rightarrow> nat" where
  "double_of_nat n = (let d = 2 ^ excess_bits n in round_half_even n d * d)"

definition js_Number :: "int \<Rightarrow> jsnum" where
  "js_Number x =
     (let m = double_of_nat (nat \<bar>x\<bar>)
      in if 2 ^ 1024 \<le> m then JInf (x < 0) else JNum (of_int (sgn x * int m)))"

lemma double_of_nat_small: "n < 9007199254740992 \<Longrightarrow> double_of_nat n = n"
  by (simp add: double_of_nat_def excess_bits.simps round_half_even_def)

lemma js_Number_small:
  assumes "\<bar>x\<bar> < 9007199254740992"
  shows "js_Number x = JNum (of_int x)"
proof -
  have d: "double_of_nat (nat \<bar>x\<bar>) = nat \<bar>x\<bar>"
    using assms by (intro double_of_nat_small) simp
  have "nat \<bar>x\<bar> < 2 ^ 53" using assms by simp
  also have "(2::nat) ^ 53 \<le> 2 ^ 1024" by (rule power_increasing) simp_all
  finally have "\<not> 2 ^ 1024 \<le> nat \<bar>x\<bar>" by simp
  then show ?thesis by (simp add: js_Number_def Let_def d sgn_mult_abs)
qed

text \<open>A double is never on the other side of an integer of 53 bits than the \<open>BigInt\<close> it rounds.\<close>

lemma excess_bits_bound: "9007199254740992 \<le> n \<Longrightarrow> 2 ^ excess_bits n * 4503599627370496 \<le> n"
proof (induction n rule: excess_bits.induct)
  case (1 n)
  show ?case
  proof (cases "n div 2 < 9007199254740992")
    case True
    then have "excess_bits (n div 2) = 0" by (subst excess_bits.simps) simp
    with 1 show ?thesis by (subst excess_bits.simps) simp
  next
    case False
    with 1 have "2 ^ excess_bits (n div 2) * 4503599627370496 \<le> n div 2" by simp
    with 1 show ?thesis by (subst excess_bits.simps) simp
  qed
qed

lemma double_of_nat_large:
  assumes "9007199254740992 \<le> n"
  shows "9007199254740992 \<le> double_of_nat n"
proof -
  define d where "d = (2::nat) ^ excess_bits n"
  have "excess_bits n \<noteq> 0" using assms by (subst excess_bits.simps) simp
  then have d2: "2 \<le> d" unfolding d_def by (cases "excess_bits n") simp_all
  have "4503599627370496 * d \<le> n"
    using excess_bits_bound [OF assms] by (simp add: d_def mult.commute)
  then have "4503599627370496 \<le> n div d"
    using d2 by (simp add: less_eq_div_iff_mult_less_eq)
  then have "4503599627370496 \<le> round_half_even n d"
    by (simp add: round_half_even_def)
  then have "4503599627370496 * 2 \<le> round_half_even n d * d"
    using d2 by (rule mult_le_mono)
  then show ?thesis by (simp add: double_of_nat_def Let_def d_def)
qed

lemma js_Number_above:
  assumes "\<bar>k\<bar> < 9007199254740992"
  shows "js_lt (JNum (of_int k)) (js_Number x) \<longleftrightarrow> k < x"
proof (cases "\<bar>x\<bar> < 9007199254740992")
  case True
  then show ?thesis by (simp add: js_Number_small)
next
  case False
  then have "9007199254740992 \<le> nat \<bar>x\<bar>" by simp
  then have m: "9007199254740992 \<le> double_of_nat (nat \<bar>x\<bar>)" by (rule double_of_nat_large)
  then have "9007199254740992 \<le> int (double_of_nat (nat \<bar>x\<bar>))" by simp
  with False assms show ?thesis
    by (cases "0 < x") (auto simp: js_Number_def Let_def simp flip: of_int_minus)
qed

section \<open>BigInt division\<close>

text \<open>\<open>a / b\<close> on \<open>BigInt\<close> truncates toward zero and \<open>a % b\<close> has the sign of \<open>a\<close>.\<close>

abbreviation big_div :: "int \<Rightarrow> int \<Rightarrow> int" where
  "big_div a b \<equiv> a sdiv b"

lemma big_div_nonneg [simp]: "0 \<le> a \<Longrightarrow> 0 \<le> b \<Longrightarrow> a sdiv b = a div b" for a b :: int
  by (cases "a = 0"; cases "b = 0") (simp_all add: signed_divide_int_def)

lemma big_div_mono:
  fixes a b d :: int
  assumes "a \<le> b" and "0 < d"
  shows "a sdiv d \<le> b sdiv d"
proof (cases "0 \<le> a")
  case True
  with assms show ?thesis by (simp add: zdiv_mono1)
next
  case False
  then have na: "a sdiv d = - (- a div d)"
    using assms by (simp add: signed_divide_int_def)
  show ?thesis
  proof (cases "0 \<le> b")
    case True
    have "0 \<le> - a div d" using False assms by (simp add: pos_imp_zdiv_nonneg_iff)
    moreover have "0 \<le> b div d" using True assms by (simp add: pos_imp_zdiv_nonneg_iff)
    ultimately show ?thesis using na True assms by simp
  next
    case b: False
    then have "b sdiv d = - (- b div d)"
      using assms by (simp add: signed_divide_int_def)
    with na assms show ?thesis by (simp add: zdiv_mono1)
  qed
qed

lemma int_div_less_iff: "0 < d \<Longrightarrow> a div d < k \<longleftrightarrow> a < k * d" for a d k :: int
proof
  assume d: "0 < d" and l: "a div d < k"
  have "a = a div d * d + a mod d" by simp
  also have "a div d * d + a mod d < a div d * d + d" using d by (intro add_strict_left_mono) simp
  also have "\<dots> = (a div d + 1) * d" by (simp add: algebra_simps)
  also have "\<dots> \<le> k * d" using d l by (intro mult_right_mono) auto
  finally show "a < k * d" .
next
  assume d: "0 < d" and l: "a < k * d"
  show "a div d < k"
  proof (rule ccontr)
    assume "\<not> a div d < k"
    then have "k * d \<le> a div d * d" using d by (intro mult_right_mono) auto
    moreover have "a div d * d \<le> a" using d by (simp add: minus_mod_eq_div_mult [symmetric])
    ultimately show False using l by linarith
  qed
qed

lemma int_div_mult_le: "0 < d \<Longrightarrow> a div d * d \<le> a" for a d :: int
  by (simp add: minus_mod_eq_div_mult [symmetric])

section \<open>Effects: state, errors, transactions\<close>

type_synonym ('s, 'e, 'a) eff = "'s \<Rightarrow> ('e + 'a) \<times> 's"

definition returnE :: "'a \<Rightarrow> ('s, 'e, 'a) eff" where
  "returnE x = (\<lambda>s. (Inr x, s))"

definition throwE :: "'e \<Rightarrow> ('s, 'e, 'a) eff" where
  "throwE e = (\<lambda>s. (Inl e, s))"

definition bindE :: "('s, 'e, 'a) eff \<Rightarrow> ('a \<Rightarrow> ('s, 'e, 'b) eff) \<Rightarrow> ('s, 'e, 'b) eff" where
  "bindE m f = (\<lambda>s. case m s of (Inl e, t) \<Rightarrow> (Inl e, t) | (Inr x, t) \<Rightarrow> f x t)"

definition seqE :: "('s, 'e, 'a) eff \<Rightarrow> ('s, 'e, 'b) eff \<Rightarrow> ('s, 'e, 'b) eff" where
  "seqE m n = bindE m (\<lambda>_. n)"

text \<open>\<open>try { m } catch (e) { h(e) }\<close>: the state changes of \<open>m\<close> stay.\<close>

definition catchE :: "('s, 'e, 'a) eff \<Rightarrow> ('e \<Rightarrow> ('s, 'f, 'a) eff) \<Rightarrow> ('s, 'f, 'a) eff" where
  "catchE m h = (\<lambda>s. case m s of (Inl e, t) \<Rightarrow> h e t | (Inr x, t) \<Rightarrow> (Inr x, t))"

definition getE :: "('s \<Rightarrow> 'a) \<Rightarrow> ('s, 'e, 'a) eff" where
  "getE f = (\<lambda>s. (Inr (f s), s))"

definition modifyE :: "('s \<Rightarrow> 's) \<Rightarrow> ('s, 'e, unit) eff" where
  "modifyE f = (\<lambda>s. (Inr (), f s))"

definition guardE :: "bool \<Rightarrow> 'e \<Rightarrow> ('s, 'e, unit) eff" where
  "guardE b e = (if b then throwE e else returnE ())"

definition whenE :: "bool \<Rightarrow> ('s, 'e, unit) eff \<Rightarrow> ('s, 'e, unit) eff" where
  "whenE b m = (if b then m else returnE ())"

definition liftE :: "'e + 'a \<Rightarrow> ('s, 'e, 'a) eff" where
  "liftE r = (\<lambda>s. (r, s))"

text \<open>\<open>BEGIN IMMEDIATE; m; COMMIT\<close>, with \<open>ROLLBACK\<close> and the error passed on when \<open>m\<close> throws.\<close>

definition transactionE :: "('s, 'e, 'a) eff \<Rightarrow> ('s, 'e, 'a) eff" where
  "transactionE m = (\<lambda>s. case m s of (Inl e, _) \<Rightarrow> (Inl e, s) | (Inr x, t) \<Rightarrow> (Inr x, t))"

fun forE :: "'x list \<Rightarrow> ('x \<Rightarrow> ('s, 'e, unit) eff) \<Rightarrow> ('s, 'e, unit) eff" where
  "forE [] f = returnE ()"
| "forE (x # xs) f = seqE (f x) (forE xs f)"

text \<open>A computation on one component of a pair of states.\<close>

definition on_fst :: "('s, 'e, 'a) eff \<Rightarrow> ('s \<times> 'w, 'e, 'a) eff" where
  "on_fst m = (\<lambda>(s, w). case m s of (r, t) \<Rightarrow> (r, (t, w)))"

definition on_snd :: "('w, 'e, 'a) eff \<Rightarrow> ('s \<times> 'w, 'e, 'a) eff" where
  "on_snd m = (\<lambda>(s, w). case m w of (r, v) \<Rightarrow> (r, (s, v)))"

lemmas eff_defs = returnE_def throwE_def bindE_def seqE_def catchE_def getE_def modifyE_def
  guardE_def whenE_def liftE_def transactionE_def on_fst_def on_snd_def

subsection \<open>Weakest preconditions\<close>

definition wp :: "('s, 'e, 'a) eff \<Rightarrow> ('a \<Rightarrow> 's \<Rightarrow> bool) \<Rightarrow> ('e \<Rightarrow> 's \<Rightarrow> bool) \<Rightarrow> 's \<Rightarrow> bool" where
  "wp m Q E s = (case m s of (Inl e, t) \<Rightarrow> E e t | (Inr x, t) \<Rightarrow> Q x t)"

lemma wp_returnE [wp_simps]: "wp (returnE x) Q E s = Q x s"
  by (simp add: wp_def returnE_def)

lemma wp_throwE [wp_simps]: "wp (throwE e) Q E s = E e s"
  by (simp add: wp_def throwE_def)

lemma wp_bindE [wp_simps]: "wp (bindE m f) Q E s = wp m (\<lambda>x. wp (f x) Q E) E s"
  by (auto simp: wp_def bindE_def split: prod.split sum.split)

lemma wp_seqE [wp_simps]: "wp (seqE m n) Q E s = wp m (\<lambda>_. wp n Q E) E s"
  by (simp add: seqE_def wp_bindE)

lemma wp_catchE [wp_simps]: "wp (catchE m h) Q E s = wp m Q (\<lambda>e. wp (h e) Q E) s"
  by (auto simp: wp_def catchE_def split: prod.split sum.split)

lemma wp_getE [wp_simps]: "wp (getE f) Q E s = Q (f s) s"
  by (simp add: wp_def getE_def)

lemma wp_modifyE [wp_simps]: "wp (modifyE f) Q E s = Q () (f s)"
  by (simp add: wp_def modifyE_def)

lemma wp_guardE [wp_simps]: "wp (guardE b e) Q E s = (if b then E e s else Q () s)"
  by (simp add: guardE_def wp_simps)

lemma wp_whenE [wp_simps]: "wp (whenE b m) Q E s = (if b then wp m Q E s else Q () s)"
  by (simp add: whenE_def wp_simps)

lemma wp_liftE [wp_simps]: "wp (liftE r) Q E s = (case r of Inl e \<Rightarrow> E e s | Inr x \<Rightarrow> Q x s)"
  by (simp add: wp_def liftE_def)

lemma wp_transactionE [wp_simps]: "wp (transactionE m) Q E s = wp m Q (\<lambda>e _. E e s) s"
  by (auto simp: wp_def transactionE_def split: prod.split sum.split)

lemma wp_if [wp_simps]: "wp (if b then m else n) Q E s = (if b then wp m Q E s else wp n Q E s)"
  by simp

lemma wp_on_fst [wp_simps]:
  "wp (on_fst m) Q E (s, w) = wp m (\<lambda>x t. Q x (t, w)) (\<lambda>e t. E e (t, w)) s"
  by (auto simp: wp_def on_fst_def split: prod.split sum.split)

lemma wp_on_snd [wp_simps]:
  "wp (on_snd m) Q E (s, w) = wp m (\<lambda>x v. Q x (s, v)) (\<lambda>e v. E e (s, v)) w"
  by (auto simp: wp_def on_snd_def split: prod.split sum.split)

lemmas wp_bindI = wp_bindE [THEN iffD2]
lemmas wp_seqI = wp_seqE [THEN iffD2]
lemmas wp_catchI = wp_catchE [THEN iffD2]

lemma wp_mono:
  assumes "wp m Q E s"
    and "\<And>x t. Q x t \<Longrightarrow> Q' x t" and "\<And>e t. E e t \<Longrightarrow> E' e t"
  shows "wp m Q' E' s"
  using assms by (auto simp: wp_def split: prod.splits sum.splits)

lemma wp_conj: "wp m Q E s \<Longrightarrow> wp m Q' E' s \<Longrightarrow> wp m (\<lambda>x t. Q x t \<and> Q' x t) (\<lambda>e t. E e t \<and> E' e t) s"
  by (auto simp: wp_def split: prod.splits sum.splits)

lemma wp_True [simp]: "wp m (\<lambda>_ _. True) (\<lambda>_ _. True) s"
  by (auto simp: wp_def split: prod.splits sum.splits)

lemma wp_bind_any: "(\<And>x t. wp (f x) Q (\<lambda>_ _. True) t) \<Longrightarrow> wp (bindE m f) Q (\<lambda>_ _. True) s"
  by (auto simp: wp_bindE intro: wp_mono [OF wp_True])

lemma wp_seq_any: "(\<And>t. wp n Q (\<lambda>_ _. True) t) \<Longrightarrow> wp (seqE m n) Q (\<lambda>_ _. True) s"
  by (auto simp: wp_seqE intro: wp_mono [OF wp_True])

lemma wp_result:
  assumes "wp m Q E s" and "m s = (r, t)"
  shows "case r of Inl e \<Rightarrow> E e t | Inr x \<Rightarrow> Q x t"
  using assms by (simp add: wp_def split: sum.splits)

lemma wp_forE:
  assumes "\<And>x t. x \<in> set xs \<Longrightarrow> I t \<Longrightarrow> wp (f x) (\<lambda>_. I) E t" and "I s"
  shows "wp (forE xs f) (\<lambda>_. I) E s"
  using assms
proof (induction xs arbitrary: s)
  case Nil
  then show ?case by (simp add: wp_simps)
next
  case (Cons x xs)
  have "wp (f x) (\<lambda>_. I) E s" using Cons.prems by simp
  then have "wp (f x) (\<lambda>_ t. wp (forE xs f) (\<lambda>_. I) E t) E s"
    by (rule wp_mono) (use Cons in auto)
  then show ?case by (simp add: wp_simps)
qed

lemma sum_list_update_int: "i < length xs \<Longrightarrow> sum_list (xs[i := v]) = sum_list xs + v - xs ! i" for xs :: "int list"
  by (induction xs arbitrary: i) (auto split: nat.split)

lemma filter_update_length:
  assumes "i < length xs"
  shows "int (length (filter P (xs[i := y]))) = int (length (filter P xs)) - of_bool (P (xs ! i)) + of_bool (P y)"
proof -
  have len: "int (length (filter P zs)) = (\<Sum>z\<leftarrow>zs. of_bool (P z))" for zs by (induction zs) simp_all
  show ?thesis using assms by (simp add: len map_update sum_list_update_int)
qed

section \<open>Results without state\<close>

text \<open>Code that reads its arguments, throws or returns: a sum, \<open>Inl\<close> the thrown error.\<close>

definition bindR :: "'e + 'a \<Rightarrow> ('a \<Rightarrow> 'e + 'b) \<Rightarrow> 'e + 'b" where
  "bindR r f = (case r of Inl e \<Rightarrow> Inl e | Inr x \<Rightarrow> f x)"

text \<open>\<open>if (b) throw e\<close>.\<close>

definition throwIf :: "bool \<Rightarrow> 'e \<Rightarrow> 'e + 'b \<Rightarrow> 'e + 'b" where
  "throwIf b e r = (if b then Inl e else r)"

fun mapR :: "('a \<Rightarrow> 'e + 'b) \<Rightarrow> 'a list \<Rightarrow> 'e + 'b list" where
  "mapR f [] = Inr []"
| "mapR f (x # xs) = bindR (f x) (\<lambda>y. bindR (mapR f xs) (\<lambda>ys. Inr (y # ys)))"

fun foldR :: "('x \<Rightarrow> 'a \<Rightarrow> 'e + 'a) \<Rightarrow> 'x list \<Rightarrow> 'a \<Rightarrow> 'e + 'a" where
  "foldR f [] a = Inr a"
| "foldR f (x # xs) a = bindR (f x a) (foldR f xs)"

lemma bindR_simps [simp]: "bindR (Inl e) f = Inl e" "bindR (Inr x) f = f x"
  by (simp_all add: bindR_def)

lemma bindR_Inr: "bindR r f = Inr y \<longleftrightarrow> (\<exists>x. r = Inr x \<and> f x = Inr y)"
  by (cases r) simp_all

lemma throwIf_Inr [simp]: "throwIf b e r = Inr y \<longleftrightarrow> \<not> b \<and> r = Inr y"
  by (simp add: throwIf_def)

lemma throwIf_simps [simp]: "throwIf True e r = Inl e" "throwIf False e r = r"
  by (simp_all add: throwIf_def)

lemma mapR_Inr: "mapR f xs = Inr ys \<longleftrightarrow> list_all2 (\<lambda>x y. f x = Inr y) xs ys"
proof (induction xs arbitrary: ys)
  case Nil
  then show ?case by auto
next
  case (Cons x xs)
  then show ?case by (auto simp: bindR_Inr list_all2_Cons1)
qed

lemma mapR_list_all:
  assumes "mapR f xs = Inr ys" and "\<And>x y. f x = Inr y \<Longrightarrow> P y"
  shows "list_all P ys"
  using assms by (auto simp: mapR_Inr list_all_length list_all2_conv_all_nth)

lemma foldR_invariant:
  assumes "foldR f xs a = Inr b" and "P [] a"
    and "\<And>ys x a b. P ys a \<Longrightarrow> x \<in> set xs \<Longrightarrow> f x a = Inr b \<Longrightarrow> P (ys @ [x]) b"
  shows "P xs b"
proof -
  have "foldR f zs a = Inr b \<Longrightarrow> P ys a \<Longrightarrow> set zs \<subseteq> set xs \<Longrightarrow> P (ys @ zs) b" for ys zs a
  proof (induction zs arbitrary: ys a)
    case (Cons z zs)
    then obtain c where "f z a = Inr c" "foldR f zs c = Inr b" by (auto simp: bindR_Inr)
    then show ?case using Cons.IH [of c "ys @ [z]"] Cons.prems assms(3) by simp
  qed simp
  from this [of xs a "[]"] show ?thesis using assms(1,2) by simp
qed

section \<open>Tables\<close>

text \<open>\<open>UPDATE t SET f WHERE P\<close>, \<open>DELETE FROM t WHERE P\<close>, \<open>SELECT\<close> and the sums over it.\<close>

definition update_where :: "('r \<Rightarrow> bool) \<Rightarrow> ('r \<Rightarrow> 'r) \<Rightarrow> 'r list \<Rightarrow> 'r list" where
  "update_where P f t = map (\<lambda>r. if P r then f r else r) t"

definition delete_where :: "('r \<Rightarrow> bool) \<Rightarrow> 'r list \<Rightarrow> 'r list" where
  "delete_where P t = filter (\<lambda>r. \<not> P r) t"

definition exists_where :: "('r \<Rightarrow> bool) \<Rightarrow> 'r list \<Rightarrow> bool" where
  "exists_where P t = list_ex P t"

definition count_where :: "('r \<Rightarrow> bool) \<Rightarrow> 'r list \<Rightarrow> nat" where
  "count_where P t = length (filter P t)"

definition sum_where :: "('r \<Rightarrow> bool) \<Rightarrow> ('r \<Rightarrow> int) \<Rightarrow> 'r list \<Rightarrow> int" where
  "sum_where P f t = sum_list (map f (filter P t))"

lemma update_where_simps [simp]:
  "update_where P f [] = []"
  "update_where P f (r # t) = (if P r then f r else r) # update_where P f t"
  "update_where P f (t @ u) = update_where P f t @ update_where P f u"
  by (simp_all add: update_where_def)

lemma length_update_where [simp]: "length (update_where P f t) = length t"
  by (simp add: update_where_def)

lemma delete_where_simps [simp]:
  "delete_where P [] = []"
  "delete_where P (r # t) = (if P r then delete_where P t else r # delete_where P t)"
  "delete_where P (t @ u) = delete_where P t @ delete_where P u"
  by (simp_all add: delete_where_def)

lemma set_delete_where [simp]: "set (delete_where P t) = {r \<in> set t. \<not> P r}"
  by (simp add: delete_where_def)

lemma set_update_where: "set (update_where P f t) = (\<lambda>r. if P r then f r else r) ` set t"
  by (simp add: update_where_def)

lemma exists_where_simps [simp]:
  "exists_where P [] = False"
  "exists_where P (r # t) = (P r \<or> exists_where P t)"
  "exists_where P (t @ u) = (exists_where P t \<or> exists_where P u)"
  by (simp_all add: exists_where_def)

lemma exists_where_iff: "exists_where P t \<longleftrightarrow> (\<exists>r \<in> set t. P r)"
  by (simp add: exists_where_def list_ex_iff)

lemma sum_where_simps [simp]:
  "sum_where P f [] = 0"
  "sum_where P f (r # t) = (if P r then f r + sum_where P f t else sum_where P f t)"
  "sum_where P f (t @ u) = sum_where P f t + sum_where P f u"
  by (simp_all add: sum_where_def)

lemma count_where_simps [simp]:
  "count_where P [] = 0"
  "count_where P (r # t) = (if P r then Suc (count_where P t) else count_where P t)"
  "count_where P (t @ u) = count_where P t + count_where P u"
  by (simp_all add: count_where_def)

lemma map_update_where [simp]:
  "(\<And>r. P r \<Longrightarrow> g (f r) = g r) \<Longrightarrow> map g (update_where P f t) = map g t"
  by (simp add: update_where_def)

lemma sum_where_nonneg: "(\<And>r. r \<in> set t \<Longrightarrow> P r \<Longrightarrow> 0 \<le> f r) \<Longrightarrow> 0 \<le> sum_where P f t"
  by (induction t) auto

lemma sum_where_mono:
  assumes "\<And>r. r \<in> set t \<Longrightarrow> 0 \<le> f r" and "\<And>r. r \<in> set t \<Longrightarrow> P r \<Longrightarrow> Q r"
  shows "sum_where P f t \<le> sum_where Q f t"
  using assms by (induction t) (auto intro: add_increasing)

lemma sum_where_cong:
  assumes "\<And>r. r \<in> set t \<Longrightarrow> P r \<longleftrightarrow> Q r" and "\<And>r. r \<in> set t \<Longrightarrow> Q r \<Longrightarrow> f r = g r"
  shows "sum_where P f t = sum_where Q g t"
  using assms by (induction t) auto

lemma sum_where_member_le:
  "r \<in> set t \<Longrightarrow> P r \<Longrightarrow> (\<And>x. x \<in> set t \<Longrightarrow> 0 \<le> f x) \<Longrightarrow> f r \<le> sum_where P f t"
proof (induction t)
  case Nil
  then show ?case by simp
next
  case (Cons a t)
  have "0 \<le> sum_where P f t" by (rule sum_where_nonneg) (use Cons.prems in auto)
  moreover have "0 \<le> f a" using Cons.prems by simp
  ultimately show ?case using Cons by (auto intro: add_increasing)
qed

lemma update_where_none: "\<not> exists_where P t \<Longrightarrow> update_where P f t = t"
  by (induction t) auto

text \<open>An update that only takes rows out of a selection, or keeps their amount, lowers its sum.\<close>

lemma sum_where_update_le:
  assumes "\<And>r. r \<in> set t \<Longrightarrow> 0 \<le> f r"
    and "\<And>r. r \<in> set t \<Longrightarrow> U r \<Longrightarrow> P (g r) \<Longrightarrow> P r \<and> f (g r) = f r"
  shows "sum_where P f (update_where U g t) \<le> sum_where P f t"
  using assms by (induction t) (auto intro: add_increasing)

lemma sum_where_delete_le:
  "(\<And>r. r \<in> set t \<Longrightarrow> 0 \<le> f r) \<Longrightarrow> sum_where P f (delete_where D t) \<le> sum_where P f t"
  by (induction t) (auto intro: add_increasing)

text \<open>The first row a predicate selects: \<open>SELECT ... WHERE\<close> on a unique column.\<close>

abbreviation find_where :: "('r \<Rightarrow> bool) \<Rightarrow> 'r list \<Rightarrow> 'r option" where
  "find_where \<equiv> List.find"

lemma find_where_None: "find_where P t = None \<longleftrightarrow> \<not> exists_where P t"
  by (auto simp: find_None_iff exists_where_iff)

lemma find_where_Some: "find_where P t = Some r \<Longrightarrow> r \<in> set t \<and> P r"
  by (auto simp: find_Some_iff)

lemma find_where_unique:
  assumes "distinct (map k t)" and "r \<in> set t"
  shows "find_where (\<lambda>x. k x = k r) t = Some r"
  using assms by (induction t) force+

lemma find_where_update_other:
  assumes "\<And>r. P r \<Longrightarrow> \<not> U r" and "\<And>r. U r \<Longrightarrow> P (f r) = P r"
  shows "find_where P (update_where U f t) = find_where P t"
  using assms by (induction t) auto

lemma find_where_update:
  assumes "\<And>r. P (f r) = P r"
  shows "find_where P (update_where U f t) = map_option (\<lambda>r. if U r then f r else r) (find_where P t)"
  using assms by (induction t) auto

lemma find_where_append:
  "find_where P (t @ u) = (case find_where P t of None \<Rightarrow> find_where P u | Some r \<Rightarrow> Some r)"
  by (induction t) auto

section \<open>Operations over time\<close>

text \<open>
  A store whose operations carry the time at which they run; the clock never goes back.
\<close>

inductive timed_run :: "(int \<Rightarrow> 's \<Rightarrow> 's \<Rightarrow> bool) \<Rightarrow> 's \<Rightarrow> int \<Rightarrow> 's \<Rightarrow> bool" for step s0 where
  start: "timed_run step s0 t s0"
| tick: "timed_run step s0 t s \<Longrightarrow> t \<le> u \<Longrightarrow> step u s s' \<Longrightarrow> timed_run step s0 u s'"

text \<open>
  The interface of a ledger with a rolling cap: \<open>spent s v\<close> is what the window that ends at
  \<open>v\<close> holds. One operation at time \<open>u\<close> leaves every window that ends at \<open>u\<close> or later no fuller
  than it was, or within the cap.
\<close>

locale rolling_cap =
  fixes spent :: "'s \<Rightarrow> int \<Rightarrow> int"
    and wf :: "int \<Rightarrow> 's \<Rightarrow> bool"
    and step :: "int \<Rightarrow> 's \<Rightarrow> 's \<Rightarrow> bool"
    and init :: 's
    and cap :: int
  assumes wf_init: "wf t init"
    and spent_init: "spent init t \<le> 0"
    and wf_step: "wf t s \<Longrightarrow> t \<le> u \<Longrightarrow> step u s s' \<Longrightarrow> wf u s'"
    and spent_step: "wf t s \<Longrightarrow> t \<le> u \<Longrightarrow> step u s s' \<Longrightarrow> u \<le> v \<Longrightarrow> spent s' v \<le> max (spent s v) cap"
begin

lemma run_wf: "timed_run step init t s \<Longrightarrow> wf t s"
  by (induction rule: timed_run.induct) (auto intro: wf_init wf_step)

lemma run_capped:
  assumes "timed_run step init t s" and "t \<le> v"
  shows "spent s v \<le> max 0 cap"
  using assms
proof (induction rule: timed_run.induct)
  case (start t)
  show ?case using spent_init [of v] by simp
next
  case (tick t s u s')
  have "wf t s" using tick.hyps(1) by (rule run_wf)
  then have "spent s' v \<le> max (spent s v) cap" using tick by (intro spent_step)
  moreover have "spent s v \<le> max 0 cap" using tick by simp
  ultimately show ?case by linarith
qed

end

section \<open>Claims that succeed once\<close>

text \<open>
  A history of a store mixes claims (\<open>Inl a\<close>) with other operations (\<open>Inr f\<close>); it yields the
  outcome of every claim.
\<close>

fun run_claims :: "('a \<Rightarrow> 's \<Rightarrow> bool \<times> 's) \<Rightarrow> ('a + ('s \<Rightarrow> 's)) list \<Rightarrow> 's \<Rightarrow> ('a \<times> bool) list" where
  "run_claims claim [] s = []"
| "run_claims claim (Inl a # ops) s =
     (case claim a s of (won, t) \<Rightarrow> (a, won) # run_claims claim ops t)"
| "run_claims claim (Inr f # ops) s = run_claims claim ops (f s)"

definition wins :: "('a \<Rightarrow> 'k) \<Rightarrow> 'k \<Rightarrow> ('a \<times> bool) list \<Rightarrow> nat" where
  "wins key k rs = count_where (\<lambda>(a, won). won \<and> key a = k) rs"

text \<open>
  The interface of a one-time fence: a claim that wins found its key free and takes it for good.
\<close>

locale fence =
  fixes claim :: "'a \<Rightarrow> 's \<Rightarrow> bool \<times> 's"
    and key :: "'a \<Rightarrow> 'k"
    and taken :: "'s \<Rightarrow> 'k \<Rightarrow> bool"
  assumes win_free: "fst (claim a s) \<Longrightarrow> \<not> taken s (key a)"
    and win_takes: "fst (claim a s) \<Longrightarrow> taken (snd (claim a s)) (key a)"
    and taken_kept: "taken s k \<Longrightarrow> taken (snd (claim a s)) k"
begin

lemma wins_le:
  assumes "\<And>f s k. Inr f \<in> set ops \<Longrightarrow> taken s k \<Longrightarrow> taken (f s) k"
  shows "wins key k (run_claims claim ops s) \<le> (if taken s k then 0 else 1)"
  using assms
proof (induction ops arbitrary: s)
  case Nil
  then show ?case by (simp add: wins_def)
next
  case (Cons x ops)
  show ?case
  proof (cases x)
    case (Inl a)
    obtain won t where c: "claim a s = (won, t)" by fastforce
    have "wins key k (run_claims claim ops t) \<le> (if taken t k then 0 else 1)"
      using Cons by simp
    then show ?thesis
      using win_free [of a s] win_takes [of a s] taken_kept [of s k a] c
      by (auto simp: Inl wins_def split: if_splits)
  next
    case (Inr f)
    have "wins key k (run_claims claim ops (f s)) \<le> (if taken (f s) k then 0 else 1)"
      using Cons by simp
    then show ?thesis using Cons.prems [of f] by (auto simp: Inr split: if_splits)
  qed
qed

end

text \<open>A fence at which every acceptable claim of a free key wins.\<close>

locale claim_once = fence claim key taken
  for claim :: "'a \<Rightarrow> 's \<Rightarrow> bool \<times> 's" and key :: "'a \<Rightarrow> 'k" and taken :: "'s \<Rightarrow> 'k \<Rightarrow> bool" +
  fixes ok :: "'a \<Rightarrow> bool"
  assumes free_wins: "ok a \<Longrightarrow> \<not> taken s (key a) \<Longrightarrow> fst (claim a s)"
begin

lemma first_claim_wins:
  assumes "\<And>f s k. Inr f \<in> set ops \<Longrightarrow> taken s k \<Longrightarrow> taken (f s) k"
    and "ok a" and "\<not> taken s (key a)"
  shows "run_claims claim (Inl a # ops) s = (a, True) # run_claims claim ops (snd (claim a s)) \<and>
     wins key (key a) (run_claims claim (Inl a # ops) s) = 1"
proof -
  obtain t where c: "claim a s = (True, t)" using free_wins [OF assms(2,3)] by (cases "claim a s") auto
  then have "taken t (key a)" using win_takes [of a s] by simp
  then have "wins key (key a) (run_claims claim ops t) = 0"
    using wins_le [of ops "key a" t] assms(1) by (simp split: if_splits)
  then show ?thesis using c by (simp add: wins_def)
qed

end

end
