(* ===== verification/Money.thy ===== *)
theory Money
  imports Prelude
begin

text \<open>
  \<open>src/src/kernel/money.ts\<close>: the quote assets and their cap buckets, the parser from a UI
  amount to base units, and the slippage between an expected and a received amount.
  \<open>fromBaseUnits\<close> and \<open>formatAmount\<close> only format for display and are left out.
\<close>

section \<open>Quote assets\<close>

definition LAMPORTS_PER_SOL :: int where "LAMPORTS_PER_SOL = 1000000000"
definition SOL_DECIMALS :: nat where "SOL_DECIMALS = 9"
definition USDC_DECIMALS :: nat where "USDC_DECIMALS = 6"

definition WSOL_MINT :: string where
  "WSOL_MINT = ''So11111111111111111111111111111111111111112''"
definition USDC_MINT :: string where
  "USDC_MINT = ''EPjFWdd5AufqSSqeM2qN1xzybapC8G4wEGGkZwyTDt1v''"
definition USDT_MINT :: string where
  "USDT_MINT = ''Es9vMFrzaCERmJfrF4H2FYD4KCoNkY11McCe8BenwNYB''"

definition SOL_QUOTE_MINTS :: "string list" where "SOL_QUOTE_MINTS = [WSOL_MINT]"
definition USDC_QUOTE_MINTS :: "string list" where "USDC_QUOTE_MINTS = [USDC_MINT, USDT_MINT]"

datatype QuoteBucket = Bucket_sol | Bucket_usdc

definition quoteBucketFor :: "string \<Rightarrow> QuoteBucket option" where
  "quoteBucketFor mint =
     (if mint \<in> set SOL_QUOTE_MINTS then Some Bucket_sol
      else if mint \<in> set USDC_QUOTE_MINTS then Some Bucket_usdc
      else None)"

record TokenAmount =
  ta_mint :: string
  ta_amount :: int
  ta_decimals :: nat

section \<open>Decimal text\<close>

definition is_digit :: "char \<Rightarrow> bool" where
  "is_digit c \<longleftrightarrow> 48 \<le> (of_char c :: nat) \<and> (of_char c :: nat) \<le> 57"

definition digit_val :: "char \<Rightarrow> nat" where
  "digit_val c = of_char c - 48"

definition digit_char :: "nat \<Rightarrow> char" where
  "digit_char d = char_of (48 + d)"

definition parse_digits :: "string \<Rightarrow> nat" where
  "parse_digits s = foldl (\<lambda>a c. 10 * a + digit_val c) 0 s"

fun show_digits :: "nat \<Rightarrow> string" where
  "show_digits n = (if n < 10 then [digit_char n] else show_digits (n div 10) @ [digit_char (n mod 10)])"

declare show_digits.simps [simp del]

lemma digit_char_val [simp]: "d < 10 \<Longrightarrow> digit_val (digit_char d) = d"
  by (simp add: digit_val_def digit_char_def)

lemma digit_char_is_digit [simp]: "d < 10 \<Longrightarrow> is_digit (digit_char d)"
  by (simp add: is_digit_def digit_char_def)

lemma is_digit_dot [simp]: "\<not> is_digit CHR ''.''"
  by (simp add: is_digit_def)

lemma digit_val_less: "is_digit c \<Longrightarrow> digit_val c < 10"
  unfolding is_digit_def digit_val_def by linarith

lemma parse_digits_foldl:
  "foldl (\<lambda>a c. 10 * a + digit_val c) n s = n * 10 ^ length s + parse_digits s"
proof (induction s arbitrary: n)
  case Nil
  then show ?case by (simp add: parse_digits_def)
next
  case (Cons c s)
  show ?case
    using Cons [of "10 * n + digit_val c"] Cons [of "digit_val c"]
    by (simp add: parse_digits_def algebra_simps)
qed

lemma parse_digits_simps [simp]:
  "parse_digits [] = 0"
  "parse_digits (c # s) = digit_val c * 10 ^ length s + parse_digits s"
  using parse_digits_foldl [of "digit_val c" s] by (simp_all add: parse_digits_def)

lemma parse_digits_append [simp]:
  "parse_digits (s @ t) = parse_digits s * 10 ^ length t + parse_digits t"
  by (induction s) (simp_all add: power_add algebra_simps)

lemma parse_digits_zeros [simp]: "parse_digits (replicate n (CHR ''0'')) = 0"
  by (induction n) (simp_all add: digit_val_def)

lemma parse_digits_bound: "list_all is_digit s \<Longrightarrow> parse_digits s < 10 ^ length s"
proof (induction s)
  case Nil
  then show ?case by simp
next
  case (Cons c s)
  then have "digit_val c \<le> 9" using digit_val_less [of c] by simp
  then have "digit_val c * 10 ^ length s \<le> 9 * 10 ^ length s" by (rule mult_le_mono1)
  moreover have "parse_digits s < 10 ^ length s" using Cons by simp
  ultimately have "digit_val c * 10 ^ length s + parse_digits s < 10 * 10 ^ length s" by linarith
  then show ?case by simp
qed

lemma parse_show_digits [simp]: "parse_digits (show_digits n) = n"
  by (induction n rule: show_digits.induct) (subst show_digits.simps, auto)

lemma show_digits_digits: "list_all is_digit (show_digits n)"
  by (induction n rule: show_digits.induct) (subst show_digits.simps, auto)

lemma show_digits_nonempty [simp]: "show_digits n \<noteq> []"
  by (subst show_digits.simps) simp

text \<open>\<open>String.prototype.trim\<close> on code units below 256.\<close>

definition js_space :: "char \<Rightarrow> bool" where
  "js_space c \<longleftrightarrow> (of_char c :: nat) \<in> {9, 10, 11, 12, 13, 32, 160}"

definition js_trim :: "string \<Rightarrow> string" where
  "js_trim s = rev (dropWhile js_space (rev (dropWhile js_space s)))"

text \<open>
  \<open>Number.prototype.toFixed(f)\<close>: \<open>n\<close> is the integer nearest to \<open>x * 10 ^ f\<close>, the larger of
  two; from \<open>10 ^ 21\<close> on the number is printed in exponent notation, which here is any text
  that is not a decimal numeral.
\<close>

definition js_toFixed :: "jsnum \<Rightarrow> nat \<Rightarrow> string" where
  "js_toFixed x f =
     (case x of
        JNaN \<Rightarrow> ''NaN''
      | JInf neg \<Rightarrow> (if neg then ''-Infinity'' else ''Infinity'')
      | JNum q \<Rightarrow>
          (if 1000000000000000000000 \<le> \<bar>q\<bar> then ''1e+21''
           else
             (let m = show_digits (nat \<lfloor>\<bar>q\<bar> * 10 ^ f + 1 / 2\<rfloor>);
                  p = (if length m \<le> f then replicate (Suc f - length m) (CHR ''0'') @ m else m);
                  k = length p - f;
                  t = (if f = 0 then m else take k p @ CHR ''.'' # drop k p)
              in if q < 0 then CHR ''-'' # t else t)))"

section \<open>\<open>toBaseUnits\<close>\<close>

datatype ui_amount = Amt_number jsnum | Amt_string string

text \<open>The pattern \<open>/^\d+(\.\d+)?$/\<close>.\<close>

definition amount_format :: "string \<Rightarrow> bool" where
  "amount_format s =
     (let w = takeWhile is_digit s; r = dropWhile is_digit s
      in w \<noteq> [] \<and>
         (case r of [] \<Rightarrow> True
          | c # f \<Rightarrow> c = CHR ''.'' \<and> f \<noteq> [] \<and> list_all is_digit f))"

definition base_units_of :: "string \<Rightarrow> nat \<Rightarrow> int option" where
  "base_units_of s decimals =
     (if \<not> amount_format s then None
      else
        let whole = takeWhile (\<lambda>c. c \<noteq> CHR ''.'') s;
            frac = drop 1 (dropWhile (\<lambda>c. c \<noteq> CHR ''.'') s);
            fracPadded = take decimals (frac @ replicate decimals (CHR ''0''))
        in Some (int (parse_digits whole) * 10 ^ decimals + int (parse_digits fracPadded)))"

text \<open>\<open>None\<close> is the \<open>RangeError\<close>; \<open>toFixed\<close> itself throws one for more than 100 digits.\<close>

fun toBaseUnits :: "ui_amount \<Rightarrow> nat \<Rightarrow> int option" where
  "toBaseUnits (Amt_number x) decimals =
     (if 100 < decimals then None else base_units_of (js_toFixed x decimals) decimals)"
| "toBaseUnits (Amt_string s) decimals = base_units_of (js_trim s) decimals"

section \<open>Slippage\<close>

definition slippageBps :: "int \<Rightarrow> int \<Rightarrow> jsnum" where
  "slippageBps expected actual =
     (if expected \<le> 0 then JNum 0
      else js_Number (big_div ((expected - actual) * 10000) expected))"

section \<open>Lemmas\<close>

lemma takeWhile_digits_dot:
  assumes "list_all is_digit w"
  shows "takeWhile is_digit (w @ CHR ''.'' # f) = w"
    and "dropWhile is_digit (w @ CHR ''.'' # f) = CHR ''.'' # f"
    and "takeWhile (\<lambda>c. c \<noteq> CHR ''.'') (w @ CHR ''.'' # f) = w"
    and "dropWhile (\<lambda>c. c \<noteq> CHR ''.'') (w @ CHR ''.'' # f) = CHR ''.'' # f"
proof -
  have d: "\<forall>c \<in> set w. is_digit c" using assms by (simp add: list_all_iff)
  moreover from d have "\<forall>c \<in> set w. c \<noteq> CHR ''.''" by auto
  ultimately show "takeWhile is_digit (w @ CHR ''.'' # f) = w"
    and "dropWhile is_digit (w @ CHR ''.'' # f) = CHR ''.'' # f"
    and "takeWhile (\<lambda>c. c \<noteq> CHR ''.'') (w @ CHR ''.'' # f) = w"
    and "dropWhile (\<lambda>c. c \<noteq> CHR ''.'') (w @ CHR ''.'' # f) = CHR ''.'' # f"
    by (simp_all add: takeWhile_append dropWhile_append)
qed

lemma takeWhile_digits_all:
  assumes "list_all is_digit w"
  shows "takeWhile is_digit w = w" and "dropWhile is_digit w = []"
    and "takeWhile (\<lambda>c. c \<noteq> CHR ''.'') w = w" and "dropWhile (\<lambda>c. c \<noteq> CHR ''.'') w = []"
proof -
  have d: "\<forall>c \<in> set w. is_digit c" using assms by (simp add: list_all_iff)
  moreover from d have "\<forall>c \<in> set w. c \<noteq> CHR ''.''" by auto
  ultimately show "takeWhile is_digit w = w" and "dropWhile is_digit w = []"
    and "takeWhile (\<lambda>c. c \<noteq> CHR ''.'') w = w" and "dropWhile (\<lambda>c. c \<noteq> CHR ''.'') w = []"
    by simp_all
qed

lemma parse_digits_take:
  assumes "list_all is_digit f" and "k \<le> length f"
  shows "parse_digits (take k f) = parse_digits f div 10 ^ (length f - k)"
proof -
  have "parse_digits f = parse_digits (take k f @ drop k f)" by simp
  also have "\<dots> = parse_digits (take k f) * 10 ^ (length f - k) + parse_digits (drop k f)"
    by (simp del: append_take_drop_id)
  finally have e: "parse_digits f = parse_digits (take k f) * 10 ^ (length f - k) + parse_digits (drop k f)" .
  have "parse_digits (drop k f) < 10 ^ (length f - k)"
    using parse_digits_bound [of "drop k f"] assms by (simp add: list_all_iff in_set_dropD)
  then show ?thesis by (simp add: e)
qed

text \<open>The fractional digits past the asset's decimals are cut off, never rounded.\<close>

lemma base_units_of_decimal:
  assumes w: "list_all is_digit w" "w \<noteq> []" and f: "list_all is_digit f" "f \<noteq> []"
  shows "base_units_of (w @ CHR ''.'' # f) d =
    Some (int (parse_digits (w @ f) * 10 ^ d div 10 ^ length f))"
proof -
  have fmt: "amount_format (w @ CHR ''.'' # f)"
    using w f by (simp add: amount_format_def takeWhile_digits_dot)
  have "parse_digits w * 10 ^ d + parse_digits (take d (f @ replicate d (CHR ''0'')))
      = parse_digits (w @ f) * 10 ^ d div 10 ^ length f"
  proof (cases "d \<le> length f")
    case True
    define b where "b = (10::nat) ^ (length f - d)"
    have b: "0 < b" and e: "(10::nat) ^ length f = 10 ^ d * b"
      using True by (simp_all add: b_def flip: power_add)
    have "parse_digits (w @ f) * 10 ^ d div 10 ^ length f = parse_digits (w @ f) div b"
      by (simp add: e mult.commute del: parse_digits_append)
    also have "\<dots> = (parse_digits f + parse_digits w * 10 ^ d * b) div b"
      by (simp add: e algebra_simps)
    also have "\<dots> = parse_digits w * 10 ^ d + parse_digits f div b"
      using b by simp
    finally show ?thesis
      using True f by (simp add: parse_digits_take b_def)
  next
    case False
    then have "(10::nat) ^ d = 10 ^ length f * 10 ^ (d - length f)"
      by (simp flip: power_add)
    moreover have "take d (f @ replicate d (CHR ''0'')) = f @ replicate (d - length f) (CHR ''0'')"
      using False by (simp add: min_def)
    ultimately show ?thesis by (simp add: algebra_simps)
  qed
  moreover have "base_units_of (w @ CHR ''.'' # f) d =
      Some (int (parse_digits w * 10 ^ d + parse_digits (take d (f @ replicate d (CHR ''0'')))))"
    using fmt w by (simp add: base_units_of_def takeWhile_digits_dot)
  ultimately show ?thesis by (simp only:)
qed

lemma base_units_of_whole:
  assumes "list_all is_digit w" and "w \<noteq> []"
  shows "base_units_of w d = Some (int (parse_digits w * 10 ^ d))"
  using assms
  by (simp add: base_units_of_def amount_format_def takeWhile_digits_all)

lemma base_units_of_nonneg: "base_units_of s d = Some n \<Longrightarrow> 0 \<le> n"
  by (auto simp: base_units_of_def Let_def split: if_splits)

lemma toBaseUnits_nonneg: "toBaseUnits a d = Some n \<Longrightarrow> 0 \<le> n"
  by (cases a) (auto dest: base_units_of_nonneg split: if_splits)

lemma base_units_of_bad: "takeWhile is_digit s = [] \<Longrightarrow> base_units_of s d = None"
  by (simp add: base_units_of_def amount_format_def Let_def)

lemma js_toFixed_value:
  assumes q: "0 \<le> q" "q < 1000000000000000000000"
  shows "base_units_of (js_toFixed (JNum q) f) f = Some \<lfloor>q * 10 ^ f + 1 / 2\<rfloor>"
proof -
  define n where "n = nat \<lfloor>q * 10 ^ f + 1 / 2\<rfloor>"
  define m where "m = show_digits n"
  define p where "p = (if length m \<le> f then replicate (Suc f - length m) (CHR ''0'') @ m else m)"
  have n: "int n = \<lfloor>q * 10 ^ f + 1 / 2\<rfloor>" using q by (simp add: n_def)
  have pd: "list_all is_digit p"
    using show_digits_digits [of n] by (auto simp: p_def m_def list_all_iff is_digit_def)
  have pn: "parse_digits p = n" by (simp add: p_def m_def)
  have pl: "f < length p" by (auto simp: p_def)
  have val: "js_toFixed (JNum q) f =
      (if f = 0 then m else take (length p - f) p @ CHR ''.'' # drop (length p - f) p)"
    using q by (simp add: js_toFixed_def Let_def n_def m_def p_def abs_of_nonneg)
  show ?thesis
  proof (cases "f = 0")
    case True
    then have "js_toFixed (JNum q) f = m" using val by simp
    then have "base_units_of (js_toFixed (JNum q) f) f = Some (int (n * 10 ^ f))"
      by (simp add: m_def base_units_of_whole show_digits_digits)
    then show ?thesis using True n by simp
  next
    case False
    have "base_units_of (take (length p - f) p @ CHR ''.'' # drop (length p - f) p) f
        = Some (int (parse_digits p * 10 ^ f div 10 ^ length (drop (length p - f) p)))"
      using pd pl False
      by (subst base_units_of_decimal) (auto simp: list_all_iff dest: in_set_takeD in_set_dropD)
    then show ?thesis using False n pn pl by (simp add: val)
  qed
qed

lemma js_toFixed_negative:
  assumes "q < 0"
  shows "base_units_of (js_toFixed (JNum q) f) f = None"
proof (cases "1000000000000000000000 \<le> \<bar>q\<bar>")
  case True
  then have "js_toFixed (JNum q) f = ''1e+21''" by (simp add: js_toFixed_def)
  then show ?thesis by (simp add: base_units_of_def amount_format_def is_digit_def)
next
  case False
  with assms have "\<exists>t. js_toFixed (JNum q) f = CHR ''-'' # t"
    by (simp add: js_toFixed_def Let_def)
  then obtain t where "js_toFixed (JNum q) f = CHR ''-'' # t" ..
  then show ?thesis by (simp add: base_units_of_bad is_digit_def)
qed

lemma js_toFixed_large:
  "1000000000000000000000 \<le> q \<Longrightarrow> base_units_of (js_toFixed (JNum q) f) f = None"
  by (simp add: js_toFixed_def base_units_of_def amount_format_def is_digit_def)

text \<open>
  A UI amount given as a number becomes the nearest integer number of base units, halves
  up, whatever the number and the decimals of the asset: no double is ever scaled, so nothing
  drifts. Exactly the finite non-negative numbers below \<open>10 ^ 21\<close> are accepted, for at most
  100 decimals; every other number is a \<open>RangeError\<close>.
\<close>

theorem toBaseUnits_number:
  "toBaseUnits (Amt_number x) d = Some n \<longleftrightarrow>
     d \<le> 100 \<and> (\<exists>q. x = JNum q \<and> 0 \<le> q \<and> q < 1000000000000000000000 \<and>
                     n = \<lfloor>q * 10 ^ d + 1 / 2\<rfloor>)"
proof (cases x)
  case (JNum q)
  consider "q < 0" | "0 \<le> q" "q < 1000000000000000000000" | "1000000000000000000000 \<le> q"
    by linarith
  then show ?thesis
    by cases (auto simp: JNum js_toFixed_value js_toFixed_negative js_toFixed_large)
next
  case (JInf neg)
  then show ?thesis
    by (auto simp: js_toFixed_def base_units_of_bad is_digit_def)
next
  case JNaN
  then show ?thesis
    by (auto simp: js_toFixed_def base_units_of_bad is_digit_def)
qed

text \<open>
  A UI amount given as the decimal string \<open>w.f\<close> is read exactly: the value
  \<open>w.f * 10 ^ decimals\<close> with the digits past the asset's decimals cut off, never rounded up.
\<close>

theorem toBaseUnits_string:
  assumes "list_all is_digit w" and "w \<noteq> []" and "list_all is_digit f" and "f \<noteq> []"
  shows "toBaseUnits (Amt_string (w @ CHR ''.'' # f)) d =
    Some (int (parse_digits (w @ f) * 10 ^ d div 10 ^ length f))"
proof -
  have sp: "\<not> js_space c" if "is_digit c" for c
    using that by (auto simp: js_space_def is_digit_def)
  obtain c w' where w: "w = c # w'" using assms(2) by (cases w) auto
  obtain g f' where f: "f = f' @ [g]" using assms(4) by (cases f rule: rev_cases) auto
  have "js_trim (w @ CHR ''.'' # f) = w @ CHR ''.'' # f"
    using assms sp by (simp add: js_trim_def w f)
  then show ?thesis using assms by (simp add: base_units_of_decimal)
qed

theorem toBaseUnits_string_witness:
  "toBaseUnits (Amt_string (''1'' @ CHR ''.'' # ''2345'')) 3 = Some 1234"
  by (subst toBaseUnits_string) (simp_all add: is_digit_def digit_val_def)

end
