(* ===== verification/Contracts.thy ===== *)
theory Contracts
  imports Money
begin

text \<open>
  \<open>src/src/kernel/contracts.ts\<close> and \<open>src/src/kernel/errors.ts\<close>: the lifecycle enums, the
  policy, the trade intent, the results and the journal of the kernel. An intent's \<open>kind\<close>
  is untrusted text that \<open>isIntentKind\<close> re-validates, so it stays a string. Error and
  summary texts are not modelled: an error is its code.
\<close>

section \<open>Guard codes and errors\<close>

datatype GuardCode =
    EXECUTION_DISABLED | KILL_SWITCH | INVALID_INTENT | MINT_NOT_PINNED | MINT_DENIED
  | TOKEN2022_UNSUPPORTED | CAP_EXCEEDED | INSUFFICIENT_BALANCE | SLIPPAGE_EXCEEDED
  | PRIORITY_FEE_EXCEEDED | PRIORITY_FEE_INVALID | SIMULATION_FAILED | MIN_OUT_MISMATCH
  | DUPLICATE_INTENT | BROADCAST_FAILED | CONFIRM_TIMEOUT | SETTLE_SHORTFALL
  | SETTLE_UNVERIFIABLE | SETTLE_UNVERIFIED

text \<open>What the kernel code can throw: a \<open>GuardError\<close>, or any other exception.\<close>

datatype kexn = GuardErr GuardCode | OtherErr

fun isGuardError :: "kexn \<Rightarrow> bool" where
  "isGuardError (GuardErr _) = True"
| "isGuardError OtherErr = False"

section \<open>Lifecycle\<close>

datatype TradeState =
  TS_reserved | TS_sent | TS_confirmed | TS_expired | TS_errored | TS_rejected

definition PERP_INTENT_KINDS :: "string list" where
  "PERP_INTENT_KINDS = [''perp_open'', ''perp_increase'', ''perp_reduce'', ''perp_close'']"

definition POOL_INTENT_KINDS :: "string list" where
  "POOL_INTENT_KINDS =
     [''lp_open'', ''lp_add'', ''lp_remove'', ''lp_close'', ''lp_claim'', ''lp_rebalance'',
      ''curve_buy'', ''curve_sell'']"

definition INTENT_KINDS :: "string list" where
  "INTENT_KINDS = ''swap'' # PERP_INTENT_KINDS @ POOL_INTENT_KINDS"

definition isIntentKind :: "string \<Rightarrow> bool" where
  "isIntentKind k \<longleftrightarrow> k \<in> set INTENT_KINDS"

definition isPerpIntentKind :: "string \<Rightarrow> bool" where
  "isPerpIntentKind k \<longleftrightarrow> k \<in> set PERP_INTENT_KINDS"

definition postsZeroCollateral :: "string \<Rightarrow> bool" where
  "postsZeroCollateral k \<longleftrightarrow> k = ''perp_reduce'' \<or> k = ''perp_close''"

datatype SettleMode = Token_delta | Venue_position

definition settleModeFor :: "string \<Rightarrow> SettleMode" where
  "settleModeFor k = (if isPerpIntentKind k then Venue_position else Token_delta)"

datatype LandMode = Jupiter_ultra | Self_rpc

datatype MintProvenance = Prov_user | Prov_watchlist | Prov_untrusted

section \<open>Policy\<close>

record SpendCaps =
  perTrade :: int
  perHour :: int
  perDay :: int

record PolicyConfig =
  executionEnabled :: bool
  killSwitch :: bool
  maxSlippageBps :: jsnum
  capsSol :: SpendCaps
  capsUsdc :: SpendCaps
  mintAllowlist :: "string list option"
  mintDenylist :: "string list"
  allowToken2022 :: bool
  priorityFeeMaxLamports :: int
  priorityFeeMaxBps :: jsnum

section \<open>Intent\<close>

record QuoteSummary =
  q_inAmount :: int
  q_outAmount :: int
  q_minOutAmount :: int
  q_priceImpactPct :: jsnum
  q_routeLabel :: string
  q_slippageBps :: jsnum
  q_contextSlot :: "jsnum option"

datatype PerpSide = Side_long | Side_short

record PerpSettleLeg =
  pl_venue :: string
  pl_market :: string
  pl_accountSubId :: int
  pl_side :: PerpSide
  pl_baseDecimals :: int
  pl_expectedBaseAmount :: int
  pl_minBaseAmount :: int

record OutputLeg =
  ol_mint :: string
  ol_decimals :: nat

record TradeIntent =
  ti_kind :: string
  ti_source :: string
  ti_input :: TokenAmount
  ti_output :: OutputLeg
  ti_inputProvenance :: MintProvenance
  ti_outputProvenance :: MintProvenance
  ti_unsignedTxBase64 :: string
  ti_recentBlockhash :: string
  ti_lastValidBlockHeight :: int
  ti_landMode :: LandMode
  ti_landHandle :: "string option"
  ti_priorityFeeLamports :: jsnum
  ti_quote :: QuoteSummary
  ti_perp :: "PerpSettleLeg option"
  ti_summary :: string

section \<open>What the service ports carry\<close>

record SignedTx =
  stx_wireBase64 :: string
  stx_signature :: string

record MintInfo =
  mi_mint :: string
  mi_decimals :: int
  mi_programId :: string
  mi_isToken2022 :: bool
  mi_freezeAuthority :: "string option"
  mi_mintAuthority :: "string option"

record PerpPositionRef =
  pr_venue :: string
  pr_market :: string
  pr_owner :: string
  pr_subAccountId :: int

datatype ConfirmStatus = Conf_confirmed | Conf_expired | Conf_failed

section \<open>The public money path\<close>

record ExecuteOptions =
  eo_idempotencyKey :: string
  eo_dryRun :: bool
  eo_confirmedByUser :: bool

record FillReport =
  fr_inputDelta :: int
  fr_outputDelta :: int
  fr_effectiveSlippageBps :: jsnum
  fr_positionDelta :: "int option"

text \<open>The code of a result's error: a guard code or \<open>INTERNAL\<close>.\<close>

datatype ErrCode = Code GuardCode | INTERNAL

record ExecuteResult =
  er_tradeId :: string
  er_state :: TradeState
  er_signature :: "string option"
  er_simulated :: bool
  er_fill :: "FillReport option"
  er_error :: "ErrCode option"

section \<open>Journal\<close>

datatype JournalEvent =
    Intent_received string int string string
    \<comment> \<open>trade id, at, idempotency key, source\<close>
  | Guard_rejected string int GuardCode
  | Trade_reserved string int "QuoteBucket option" int
  | Trade_simulated string int bool
  | Trade_signed string int string
  | Trade_sent string int string
  | Trade_confirmed string int string int int jsnum "int option"
    \<comment> \<open>trade id, at, signature, input delta, output delta, effective slippage, position delta\<close>
  | Trade_failed string int GuardCode
  | Trade_dryrun string int string

fun je_tradeId :: "JournalEvent \<Rightarrow> string" where
  "je_tradeId (Intent_received t _ _ _) = t"
| "je_tradeId (Guard_rejected t _ _) = t"
| "je_tradeId (Trade_reserved t _ _ _) = t"
| "je_tradeId (Trade_simulated t _ _) = t"
| "je_tradeId (Trade_signed t _ _) = t"
| "je_tradeId (Trade_sent t _ _) = t"
| "je_tradeId (Trade_confirmed t _ _ _ _ _ _) = t"
| "je_tradeId (Trade_failed t _ _) = t"
| "je_tradeId (Trade_dryrun t _ _) = t"

fun je_at :: "JournalEvent \<Rightarrow> int" where
  "je_at (Intent_received _ a _ _) = a"
| "je_at (Guard_rejected _ a _) = a"
| "je_at (Trade_reserved _ a _ _) = a"
| "je_at (Trade_simulated _ a _) = a"
| "je_at (Trade_signed _ a _) = a"
| "je_at (Trade_sent _ a _) = a"
| "je_at (Trade_confirmed _ a _ _ _ _ _) = a"
| "je_at (Trade_failed _ a _) = a"
| "je_at (Trade_dryrun _ a _) = a"

section \<open>Tool capabilities\<close>

datatype ToolCapability = Cap_read | Cap_sign | Cap_spend | Cap_network | Cap_read_state | Cap_write_state

definition hasToolCapability :: "ToolCapability list \<Rightarrow> ToolCapability \<Rightarrow> bool" where
  "hasToolCapability caps c \<longleftrightarrow> c \<in> set caps"

definition movesValue :: "ToolCapability list \<Rightarrow> bool" where
  "movesValue caps \<longleftrightarrow> Cap_sign \<in> set caps \<or> Cap_spend \<in> set caps"

section \<open>Lemmas\<close>

lemma postsZeroCollateral_perp: "postsZeroCollateral k \<Longrightarrow> isPerpIntentKind k"
  by (auto simp: postsZeroCollateral_def isPerpIntentKind_def PERP_INTENT_KINDS_def)

lemma isPerpIntentKind_kind: "isPerpIntentKind k \<Longrightarrow> isIntentKind k"
  by (auto simp: isPerpIntentKind_def isIntentKind_def INTENT_KINDS_def)

lemma settleModeFor_simps [simp]:
  "settleModeFor k = Venue_position \<longleftrightarrow> isPerpIntentKind k"
  "settleModeFor k = Token_delta \<longleftrightarrow> \<not> isPerpIntentKind k"
  by (simp_all add: settleModeFor_def)

end
