(* ===== verification/PolicyEngine.thy ===== *)
theory PolicyEngine
  imports Contracts
begin

text \<open>
  \<open>src/src/kernel/policy-engine.ts\<close> and \<open>src/src/kernel/defaults.ts\<close>: the guards that need no
  network, the conservative default policy and the overrides an operator may apply to it.
  A guard that throws is \<open>Inl\<close> of the first failing guard's code, in the code's order.
\<close>

section \<open>The static guards\<close>

definition MIN_OUT_TOLERANCE_BPS :: rat where "MIN_OUT_TOLERANCE_BPS = 50"

record GuardOptions =
  go_dryRun :: bool
  go_confirmedByUser :: bool

definition leg_guards :: "TradeIntent \<Rightarrow> kexn + unit" where
  "leg_guards i =
     (if postsZeroCollateral (ti_kind i) \<and> ta_amount (ti_input i) < 0 then Inl (GuardErr INVALID_INTENT)
      else if \<not> postsZeroCollateral (ti_kind i) \<and> ta_amount (ti_input i) \<le> 0 then Inl (GuardErr INVALID_INTENT)
      else if isPerpIntentKind (ti_kind i) then
        (case ti_perp i of
           None \<Rightarrow> Inl (GuardErr INVALID_INTENT)
         | Some p \<Rightarrow>
             if pl_minBaseAmount p > pl_expectedBaseAmount p then Inl (GuardErr INVALID_INTENT)
             else if pl_expectedBaseAmount p \<le> 0 then Inl (GuardErr INVALID_INTENT)
             else Inr ())
      else if ti_perp i \<noteq> None then Inl (GuardErr INVALID_INTENT)
      else Inr ())"

text \<open>
  \<open>BigInt(policy.priorityFeeMaxBps)\<close> throws a plain \<open>RangeError\<close> for a number that is not an
  integer; \<open>BigInt(Math.floor(fee))\<close> cannot, the fee is finite there.
\<close>

definition fee_guards :: "PolicyConfig \<Rightarrow> TradeIntent \<Rightarrow> kexn + unit" where
  "fee_guards p i =
     (if js_lt (ti_priorityFeeLamports i) (JNum 0) \<or> \<not> js_isFinite (ti_priorityFeeLamports i)
      then Inl (GuardErr PRIORITY_FEE_INVALID)
      else
        (case js_BigInt (js_floor (ti_priorityFeeLamports i)) of
           None \<Rightarrow> Inl OtherErr
         | Some feeLamports \<Rightarrow>
             if feeLamports > priorityFeeMaxLamports p then Inl (GuardErr PRIORITY_FEE_EXCEEDED)
             else if quoteBucketFor (ta_mint (ti_input i)) \<noteq> None \<and> ta_amount (ti_input i) > 0 then
               (case js_BigInt (priorityFeeMaxBps p) of
                  None \<Rightarrow> Inl OtherErr
                | Some bps \<Rightarrow>
                    if feeLamports > big_div (ta_amount (ti_input i) * bps) 10000
                    then Inl (GuardErr PRIORITY_FEE_EXCEEDED) else Inr ())
             else Inr ()))"

definition slippage_guards :: "PolicyConfig \<Rightarrow> TradeIntent \<Rightarrow> kexn + unit" where
  "slippage_guards p i =
     (if js_gt (q_slippageBps (ti_quote i)) (maxSlippageBps p) then Inl (GuardErr SLIPPAGE_EXCEEDED)
      else if js_gt (slippageBps (q_outAmount (ti_quote i)) (q_minOutAmount (ti_quote i)))
                (js_add (maxSlippageBps p) (JNum MIN_OUT_TOLERANCE_BPS))
      then Inl (GuardErr MIN_OUT_MISMATCH)
      else Inr ())"

fun mint_guards :: "PolicyConfig \<Rightarrow> string list \<Rightarrow> kexn + unit" where
  "mint_guards p [] = Inr ()"
| "mint_guards p (mint # mints) =
     (if mint \<in> set (mintDenylist p) then Inl (GuardErr MINT_DENIED)
      else if (case mintAllowlist p of None \<Rightarrow> False | Some allow \<Rightarrow> mint \<notin> set allow)
      then Inl (GuardErr MINT_DENIED)
      else mint_guards p mints)"

definition and_then :: "'e + unit \<Rightarrow> 'e + unit \<Rightarrow> 'e + unit" where
  "and_then a b = (case a of Inl e \<Rightarrow> Inl e | Inr _ \<Rightarrow> b)"

definition staticGuards :: "PolicyConfig \<Rightarrow> TradeIntent \<Rightarrow> GuardOptions \<Rightarrow> kexn + unit" where
  "staticGuards p i opts =
     (if killSwitch p then Inl (GuardErr KILL_SWITCH)
      else if \<not> go_dryRun opts \<and> \<not> executionEnabled p then Inl (GuardErr EXECUTION_DISABLED)
      else if \<not> isIntentKind (ti_kind i) then Inl (GuardErr INVALID_INTENT)
      else and_then (leg_guards i)
        (if ti_unsignedTxBase64 i = [] then Inl (GuardErr INVALID_INTENT)
         else if (ti_inputProvenance i = Prov_untrusted \<or> ti_outputProvenance i = Prov_untrusted)
              \<and> \<not> go_confirmedByUser opts then Inl (GuardErr MINT_NOT_PINNED)
         else and_then (fee_guards p i)
                (and_then (slippage_guards p i)
                   (mint_guards p [ta_mint (ti_input i), ol_mint (ti_output i)]))))"

section \<open>Default policy and overrides\<close>

text \<open>
  \<open>toBaseUnits\<close> of a constant cannot fail; \<open>the\<close> is only ever applied to the constants below.
\<close>

definition defaultPolicy :: PolicyConfig where
  "defaultPolicy =
     (let sol = (\<lambda>q. the (toBaseUnits (Amt_number (JNum q)) SOL_DECIMALS));
          usdc = (\<lambda>q. the (toBaseUnits (Amt_number (JNum q)) USDC_DECIMALS))
      in \<lparr> executionEnabled = False, killSwitch = False, maxSlippageBps = JNum 100,
           capsSol = \<lparr> perTrade = sol 1, perHour = sol 5, perDay = sol 10 \<rparr>,
           capsUsdc = \<lparr> perTrade = usdc 200, perHour = usdc 1000, perDay = usdc 2000 \<rparr>,
           mintAllowlist = None, mintDenylist = [], allowToken2022 = False,
           priorityFeeMaxLamports = sol (5 / 1000), priorityFeeMaxBps = JNum 50 \<rparr>)"

text \<open>
  An absent override is \<open>None\<close>. \<open>mintAllowlist: null\<close> is an override to \<open>null\<close> and therefore
  \<open>Some None\<close>. A cap that \<open>toBaseUnits\<close> rejects throws: the whole call is \<open>None\<close>.
\<close>

record PolicyOverrides =
  o_executionEnabled :: "bool option"
  o_killSwitch :: "bool option"
  o_maxSlippageBps :: "jsnum option"
  o_capSolPerTrade :: "jsnum option"
  o_capSolPerHour :: "jsnum option"
  o_capSolPerDay :: "jsnum option"
  o_capUsdcPerTrade :: "jsnum option"
  o_capUsdcPerHour :: "jsnum option"
  o_capUsdcPerDay :: "jsnum option"
  o_mintAllowlist :: "string list option option"
  o_mintDenylist :: "string list option"
  o_allowToken2022 :: "bool option"

definition override_or :: "'a option \<Rightarrow> 'a \<Rightarrow> 'a" where
  "override_or x d = (case x of None \<Rightarrow> d | Some y \<Rightarrow> y)"

definition override_cap :: "jsnum option \<Rightarrow> int \<Rightarrow> nat \<Rightarrow> int option" where
  "override_cap x base decimals =
     (case x of None \<Rightarrow> Some base | Some q \<Rightarrow> toBaseUnits (Amt_number q) decimals)"

definition override_caps :: "jsnum option \<Rightarrow> jsnum option \<Rightarrow> jsnum option \<Rightarrow> nat \<Rightarrow> SpendCaps \<Rightarrow> SpendCaps option" where
  "override_caps t h d decimals base =
     Option.bind (override_cap t (perTrade base) decimals) (\<lambda>t'.
     Option.bind (override_cap h (perHour base) decimals) (\<lambda>h'.
     Option.bind (override_cap d (perDay base) decimals) (\<lambda>d'.
     Some \<lparr> perTrade = t', perHour = h', perDay = d' \<rparr>)))"

definition applyPolicyOverrides :: "PolicyConfig \<Rightarrow> PolicyOverrides \<Rightarrow> PolicyConfig option" where
  "applyPolicyOverrides base ov =
     Option.bind (override_caps (o_capSolPerTrade ov) (o_capSolPerHour ov) (o_capSolPerDay ov)
                    SOL_DECIMALS (capsSol base)) (\<lambda>cs.
     Option.bind (override_caps (o_capUsdcPerTrade ov) (o_capUsdcPerHour ov) (o_capUsdcPerDay ov)
                    USDC_DECIMALS (capsUsdc base)) (\<lambda>cu.
     Some \<lparr> executionEnabled = override_or (o_executionEnabled ov) (executionEnabled base),
            killSwitch = override_or (o_killSwitch ov) (killSwitch base),
            maxSlippageBps = override_or (o_maxSlippageBps ov) (maxSlippageBps base),
            capsSol = cs, capsUsdc = cu,
            mintAllowlist = override_or (o_mintAllowlist ov) (mintAllowlist base),
            mintDenylist = override_or (o_mintDenylist ov) (mintDenylist base),
            allowToken2022 = override_or (o_allowToken2022 ov) (allowToken2022 base),
            priorityFeeMaxLamports = priorityFeeMaxLamports base,
            priorityFeeMaxBps = priorityFeeMaxBps base \<rparr>))"

section \<open>What passing the guards means\<close>

text \<open>
  The contract of the guards, one predicate per concern. An exit (\<open>perp_reduce\<close>,
  \<open>perp_close\<close>) posts no collateral: its input leg may be zero.
\<close>

definition input_leg_ok :: "TradeIntent \<Rightarrow> bool" where
  "input_leg_ok i \<longleftrightarrow>
     (if postsZeroCollateral (ti_kind i) then 0 \<le> ta_amount (ti_input i) else 0 < ta_amount (ti_input i))"

definition perp_leg_ok :: "TradeIntent \<Rightarrow> bool" where
  "perp_leg_ok i \<longleftrightarrow>
     (case ti_perp i of
        None \<Rightarrow> \<not> isPerpIntentKind (ti_kind i)
      | Some l \<Rightarrow> isPerpIntentKind (ti_kind i) \<and> pl_minBaseAmount l \<le> pl_expectedBaseAmount l
          \<and> 0 < pl_expectedBaseAmount l)"

definition fee_ok :: "PolicyConfig \<Rightarrow> TradeIntent \<Rightarrow> bool" where
  "fee_ok p i \<longleftrightarrow>
     (case ti_priorityFeeLamports i of
        JNum f \<Rightarrow> 0 \<le> f \<and> \<lfloor>f\<rfloor> \<le> priorityFeeMaxLamports p \<and>
          (if quoteBucketFor (ta_mint (ti_input i)) \<noteq> None \<and> 0 < ta_amount (ti_input i)
           then (case js_BigInt (priorityFeeMaxBps p) of None \<Rightarrow> False
                 | Some b \<Rightarrow> \<lfloor>f\<rfloor> \<le> big_div (ta_amount (ti_input i) * b) 10000)
           else True)
      | _ \<Rightarrow> False)"

definition mint_admitted :: "PolicyConfig \<Rightarrow> string \<Rightarrow> bool" where
  "mint_admitted p m \<longleftrightarrow>
     m \<notin> set (mintDenylist p) \<and>
     (case mintAllowlist p of None \<Rightarrow> True | Some allow \<Rightarrow> m \<in> set allow)"

lemma and_then_Inr [simp]: "and_then a b = Inr () \<longleftrightarrow> a = Inr () \<and> b = Inr ()"
  by (auto simp: and_then_def split: sum.splits)

lemma mint_guards_Inr: "mint_guards p ms = Inr () \<longleftrightarrow> list_all (mint_admitted p) ms"
  by (induction ms) (auto simp: mint_admitted_def split: option.splits)

lemma leg_guards_Inr: "leg_guards i = Inr () \<longleftrightarrow> input_leg_ok i \<and> perp_leg_ok i"
  by (auto simp: leg_guards_def input_leg_ok_def perp_leg_ok_def split: option.splits)

lemma fee_guards_Inr: "fee_guards p i = Inr () \<longleftrightarrow> fee_ok p i"
  by (cases "ti_priorityFeeLamports i")
     (auto simp: fee_guards_def fee_ok_def not_less split: option.splits)

lemma slippage_guards_Inr:
  "slippage_guards p i = Inr () \<longleftrightarrow>
     \<not> js_gt (q_slippageBps (ti_quote i)) (maxSlippageBps p) \<and>
     \<not> js_gt (slippageBps (q_outAmount (ti_quote i)) (q_minOutAmount (ti_quote i)))
         (js_add (maxSlippageBps p) (JNum MIN_OUT_TOLERANCE_BPS))"
  by (auto simp: slippage_guards_def)

lemma staticGuards_Inr:
  "staticGuards p i opts = Inr () \<longleftrightarrow>
     \<not> killSwitch p \<and> (go_dryRun opts \<or> executionEnabled p) \<and> isIntentKind (ti_kind i) \<and>
     leg_guards i = Inr () \<and> ti_unsignedTxBase64 i \<noteq> [] \<and>
     (if go_confirmedByUser opts then True
      else ti_inputProvenance i \<noteq> Prov_untrusted \<and> ti_outputProvenance i \<noteq> Prov_untrusted) \<and>
     fee_guards p i = Inr () \<and> slippage_guards p i = Inr () \<and>
     mint_guards p [ta_mint (ti_input i), ol_mint (ti_output i)] = Inr ()"
  by (simp add: staticGuards_def del: mint_guards.simps)

lemmas guard_Inr_simps = staticGuards_Inr mint_guards_Inr leg_guards_Inr fee_guards_Inr

text \<open>
  The static guards accept an intent exactly when the kill switch is off, the kernel is
  armed (or the call is a dry run), the kind is known, the input leg is a real outflow (or,
  for the exits \<open>perp_reduce\<close> and \<open>perp_close\<close>, not negative), a perp leg is present exactly for
  a perp kind, the transaction is built, an untrusted mint was confirmed by the user, the
  priority fee is finite and below both ceilings, the slippage is within the clamp and both
  mints are admitted.
\<close>

theorem staticGuards_accepts:
  "staticGuards p i opts = Inr () \<longleftrightarrow>
     \<not> killSwitch p \<and> (go_dryRun opts \<or> executionEnabled p) \<and> isIntentKind (ti_kind i) \<and>
     input_leg_ok i \<and> perp_leg_ok i \<and> ti_unsignedTxBase64 i \<noteq> [] \<and>
     (if go_confirmedByUser opts then True
      else ti_inputProvenance i \<noteq> Prov_untrusted \<and> ti_outputProvenance i \<noteq> Prov_untrusted) \<and>
     fee_ok p i \<and> slippage_guards p i = Inr () \<and>
     mint_admitted p (ta_mint (ti_input i)) \<and> mint_admitted p (ol_mint (ti_output i))"
  by (simp add: guard_Inr_simps del: mint_guards.simps)

text \<open>A concrete swap under an armed default policy, for the witnesses.\<close>

definition demo_policy :: PolicyConfig where
  "demo_policy = \<lparr> executionEnabled = True, killSwitch = False, maxSlippageBps = JNum 100,
     capsSol = \<lparr> perTrade = 1000000000, perHour = 5000000000, perDay = 10000000000 \<rparr>,
     capsUsdc = \<lparr> perTrade = 200000000, perHour = 1000000000, perDay = 2000000000 \<rparr>,
     mintAllowlist = None, mintDenylist = [], allowToken2022 = False,
     priorityFeeMaxLamports = 5000000, priorityFeeMaxBps = JNum 50 \<rparr>"

definition demo_swap :: TradeIntent where
  "demo_swap = \<lparr> ti_kind = ''swap'', ti_source = ''swap_jupiter'',
     ti_input = \<lparr> ta_mint = WSOL_MINT, ta_amount = 400000000, ta_decimals = 9 \<rparr>,
     ti_output = \<lparr> ol_mint = ''MINT'', ol_decimals = 6 \<rparr>,
     ti_inputProvenance = Prov_user, ti_outputProvenance = Prov_watchlist,
     ti_unsignedTxBase64 = ''AQID'', ti_recentBlockhash = ''HASH'', ti_lastValidBlockHeight = 1000,
     ti_landMode = Self_rpc, ti_landHandle = None, ti_priorityFeeLamports = JNum 1000,
     ti_quote = \<lparr> q_inAmount = 400000000, q_outAmount = 1000, q_minOutAmount = 990,
        q_priceImpactPct = JNum 0, q_routeLabel = ''Orca'', q_slippageBps = JNum 100,
        q_contextSlot = None \<rparr>,
     ti_perp = None, ti_summary = ''buy'' \<rparr>"

lemma demo_guards: "staticGuards demo_policy demo_swap \<lparr> go_dryRun = False, go_confirmedByUser = False \<rparr> = Inr ()"
  by (simp add: guard_Inr_simps demo_policy_def demo_swap_def isIntentKind_def INTENT_KINDS_def
      input_leg_ok_def perp_leg_ok_def isPerpIntentKind_def PERP_INTENT_KINDS_def postsZeroCollateral_def
      fee_ok_def slippage_guards_def slippageBps_def js_Number_small mint_admitted_def
      MIN_OUT_TOLERANCE_BPS_def)

text \<open>
  Under an integral slippage clamp of \<open>m\<close> basis points, an accepted intent whose quote
  states a finite slippage states at most \<open>m\<close>, and its route's worst-case output is within
  \<open>m + 51\<close> basis points of the quoted one: the model cannot smuggle a looser \<open>minOut\<close> past
  the clamp.
\<close>

theorem staticGuards_min_out:
  assumes ok: "staticGuards p i opts = Inr ()"
    and clamp: "maxSlippageBps p = JNum (of_int m)" "0 \<le> m" "m < 4503599627370496"
    and slip: "q_slippageBps (ti_quote i) = JNum s"
    and out: "0 < q_outAmount (ti_quote i)"
  shows "s \<le> of_int m \<and>
    (q_outAmount (ti_quote i) - q_minOutAmount (ti_quote i)) * 10000 < (m + 51) * q_outAmount (ti_quote i)"
proof -
  let ?o = "q_outAmount (ti_quote i)" and ?n = "(q_outAmount (ti_quote i) - q_minOutAmount (ti_quote i)) * 10000"
  have g: "slippage_guards p i = Inr ()" using ok by (simp add: staticGuards_Inr)
  then have "s \<le> of_int m" using clamp slip by (simp add: slippage_guards_Inr)
  moreover have "\<not> js_lt (JNum (of_int (m + 50))) (js_Number (?n sdiv ?o))"
    using g clamp out by (simp add: slippage_guards_Inr slippageBps_def MIN_OUT_TOLERANCE_BPS_def)
  then have le: "?n sdiv ?o \<le> m + 50"
    using clamp by (subst (asm) js_Number_above) auto
  have "?n < (m + 51) * ?o"
  proof (cases "0 \<le> ?n")
    case True
    then have "?n div ?o < m + 51" using le out by simp
    then show ?thesis using out by (simp only: int_div_less_iff)
  next
    case False
    moreover have "0 < (m + 51) * ?o" using clamp out by simp
    ultimately show ?thesis by linarith
  qed
  ultimately show ?thesis by blast
qed

theorem staticGuards_min_out_witness:
  "(100::rat) \<le> of_int 100 \<and> (1000 - 990) * 10000 < (100 + 51) * (1000::int)"
proof -
  have "(100::rat) \<le> of_int 100 \<and>
     (q_outAmount (ti_quote demo_swap) - q_minOutAmount (ti_quote demo_swap)) * 10000
       < (100 + 51) * q_outAmount (ti_quote demo_swap)"
    by (rule staticGuards_min_out [OF demo_guards]) (simp_all add: demo_policy_def demo_swap_def)
  then show ?thesis by (simp add: demo_swap_def)
qed

end
