(* ===== verification/KernelStore.thy ===== *)
theory KernelStore
  imports PolicyEngine
begin

text \<open>
  \<open>src/src/kernel/store.ts\<close>: the single-writer store. Its four tables are lists of rows in
  insertion order; an operation is an effect on them, and a constraint violation of
  \<open>node:sqlite\<close> (a primary key or a \<open>UNIQUE\<close> column) is the thrown \<open>OtherErr\<close>. Integer columns
  are \<open>int\<close>, amounts (decimal text in the table) are the integers they denote, the intent and
  the journal payload (JSON text in the table) are the values they serialize. The random
  reservation id is an argument.
\<close>

section \<open>State\<close>

definition HOUR_MS :: int where "HOUR_MS = 3600000"
definition DAY_MS :: int where "DAY_MS = 86400000"

datatype ReserveDenyReason = Deny_perTrade | Deny_perHour | Deny_perDay

datatype ReserveOutcome =
    Reserve_ok (ro_reservationId: string) (ro_usedHour: int) (ro_usedDay: int)
  | Reserve_denied (ro_reason: ReserveDenyReason) (ro_cap: int) (ro_would: int)

record ReserveArgs =
  ra_bucket :: QuoteBucket
  ra_amount :: int
  ra_caps :: SpendCaps
  ra_tradeId :: string
  ra_now :: int

record NewTradeRow =
  nt_id :: string
  nt_idempotencyKey :: string
  nt_intent :: TradeIntent
  nt_inputMint :: string
  nt_outputMint :: string
  nt_inputAmount :: int
  nt_lastValidBlockHeight :: int
  nt_now :: int

text \<open>The text of the \<open>error\<close> column.\<close>

datatype FailCode = Fail_code ErrCode | RECONCILE_NO_SIGNATURE | RECONCILE_status ConfirmStatus

record TradeRow =
  tr_id :: string
  tr_idempotency_key :: string
  tr_state :: TradeState
  tr_intent :: TradeIntent
  tr_signature :: "string option"
  tr_input_mint :: string
  tr_output_mint :: string
  tr_input_amount :: int
  tr_last_valid_block_height :: int
  tr_signed_wire :: "string option"
  tr_error :: "FailCode option"
  tr_reservation_id :: "string option"
  tr_created_at :: int
  tr_updated_at :: int

datatype SpendState = Sp_reserved | Sp_consumed | Sp_released

record SpendRow =
  sp_id :: string
  sp_trade_id :: string
  sp_bucket :: QuoteBucket
  sp_amount :: int
  sp_state :: SpendState
  sp_created_at :: int

record IdempotencyRow =
  id_key :: string
  id_trade_id :: string
  id_created_at :: int

record JournalRow =
  jr_seq :: nat
  jr_event :: JournalEvent

text \<open>\<open>ks_next_seq\<close> is the next \<open>AUTOINCREMENT\<close> value of the journal.\<close>

record KStore =
  ks_trades :: "TradeRow list"
  ks_spends :: "SpendRow list"
  ks_idempotency :: "IdempotencyRow list"
  ks_journal :: "JournalRow list"
  ks_next_seq :: nat

definition empty_store :: KStore where
  "empty_store = \<lparr> ks_trades = [], ks_spends = [], ks_idempotency = [], ks_journal = [], ks_next_seq = 1 \<rparr>"

section \<open>Operations\<close>

definition sp_active :: "SpendRow \<Rightarrow> bool" where
  "sp_active r \<longleftrightarrow> sp_state r = Sp_reserved \<or> sp_state r = Sp_consumed"

definition sumActive :: "QuoteBucket \<Rightarrow> int \<Rightarrow> KStore \<Rightarrow> int" where
  "sumActive bucket since s =
     sum_where (\<lambda>r. sp_bucket r = bucket \<and> sp_active r \<and> since \<le> sp_created_at r) sp_amount (ks_spends s)"

definition usage :: "QuoteBucket \<Rightarrow> int \<Rightarrow> KStore \<Rightarrow> int \<times> int" where
  "usage bucket now s = (sumActive bucket (now - HOUR_MS) s, sumActive bucket (now - DAY_MS) s)"

text \<open>\<open>INSERT OR IGNORE\<close>; the result is whether a row was inserted.\<close>

definition claimIdempotency :: "string \<Rightarrow> string \<Rightarrow> int \<Rightarrow> (KStore, kexn, bool) eff" where
  "claimIdempotency key tradeId now = (\<lambda>s.
     if exists_where (\<lambda>r. id_key r = key) (ks_idempotency s) then (Inr False, s)
     else (Inr True, s\<lparr> ks_idempotency := ks_idempotency s @
             [\<lparr> id_key = key, id_trade_id = tradeId, id_created_at = now \<rparr>] \<rparr>))"

definition getTradeByIdempotency :: "string \<Rightarrow> KStore \<Rightarrow> TradeRow option" where
  "getTradeByIdempotency key s = find_where (\<lambda>r. tr_idempotency_key r = key) (ks_trades s)"

definition getTrade :: "string \<Rightarrow> KStore \<Rightarrow> TradeRow option" where
  "getTrade i s = find_where (\<lambda>r. tr_id r = i) (ks_trades s)"

definition insert_spend :: "SpendRow \<Rightarrow> (KStore, kexn, unit) eff" where
  "insert_spend r = (\<lambda>s.
     if exists_where (\<lambda>x. sp_id x = sp_id r) (ks_spends s) then (Inl OtherErr, s)
     else (Inr (), s\<lparr> ks_spends := ks_spends s @ [r] \<rparr>))"

definition reserve :: "ReserveArgs \<Rightarrow> string \<Rightarrow> (KStore, kexn, ReserveOutcome) eff" where
  "reserve args reservationId = transactionE
     (bindE (getE (sumActive (ra_bucket args) (ra_now args - HOUR_MS))) (\<lambda>usedHour.
      bindE (getE (sumActive (ra_bucket args) (ra_now args - DAY_MS))) (\<lambda>usedDay.
      if ra_amount args > perTrade (ra_caps args) then
        returnE (Reserve_denied Deny_perTrade (perTrade (ra_caps args)) (ra_amount args))
      else if usedHour + ra_amount args > perHour (ra_caps args) then
        returnE (Reserve_denied Deny_perHour (perHour (ra_caps args)) (usedHour + ra_amount args))
      else if usedDay + ra_amount args > perDay (ra_caps args) then
        returnE (Reserve_denied Deny_perDay (perDay (ra_caps args)) (usedDay + ra_amount args))
      else
        seqE (insert_spend \<lparr> sp_id = reservationId, sp_trade_id = ra_tradeId args,
                sp_bucket = ra_bucket args, sp_amount = ra_amount args,
                sp_state = Sp_reserved, sp_created_at = ra_now args \<rparr>)
             (returnE (Reserve_ok reservationId usedHour usedDay)))))"

definition releaseReservation :: "string \<Rightarrow> (KStore, kexn, unit) eff" where
  "releaseReservation rid = modifyE (\<lambda>s. s\<lparr> ks_spends :=
     update_where (\<lambda>r. sp_id r = rid \<and> sp_state r = Sp_reserved)
       (\<lambda>r. r\<lparr> sp_state := Sp_released \<rparr>) (ks_spends s) \<rparr>)"

definition consumeReservation :: "string \<Rightarrow> (KStore, kexn, unit) eff" where
  "consumeReservation rid = modifyE (\<lambda>s. s\<lparr> ks_spends :=
     update_where (\<lambda>r. sp_id r = rid) (\<lambda>r. r\<lparr> sp_state := Sp_consumed \<rparr>) (ks_spends s) \<rparr>)"

text \<open>\<open>id\<close> is the primary key and \<open>idempotency_key\<close> is \<open>UNIQUE\<close>.\<close>

definition trade_row :: "NewTradeRow \<Rightarrow> string option \<Rightarrow> TradeRow" where
  "trade_row row reservationId =
     \<lparr> tr_id = nt_id row, tr_idempotency_key = nt_idempotencyKey row, tr_state = TS_reserved,
       tr_intent = nt_intent row, tr_signature = None, tr_input_mint = nt_inputMint row,
       tr_output_mint = nt_outputMint row, tr_input_amount = nt_inputAmount row,
       tr_last_valid_block_height = nt_lastValidBlockHeight row, tr_signed_wire = None,
       tr_error = None, tr_reservation_id = reservationId,
       tr_created_at = nt_now row, tr_updated_at = nt_now row \<rparr>"

definition insertTrade :: "NewTradeRow \<Rightarrow> string option \<Rightarrow> (KStore, kexn, unit) eff" where
  "insertTrade row reservationId = (\<lambda>s.
     if exists_where (\<lambda>r. tr_id r = nt_id row \<or> tr_idempotency_key r = nt_idempotencyKey row) (ks_trades s)
     then (Inl OtherErr, s)
     else (Inr (), s\<lparr> ks_trades := ks_trades s @ [trade_row row reservationId] \<rparr>))"

definition update_trade :: "string \<Rightarrow> (TradeRow \<Rightarrow> TradeRow) \<Rightarrow> (KStore, kexn, unit) eff" where
  "update_trade i f = modifyE (\<lambda>s. s\<lparr> ks_trades := update_where (\<lambda>r. tr_id r = i) f (ks_trades s) \<rparr>)"

definition persistSigned :: "string \<Rightarrow> string \<Rightarrow> string \<Rightarrow> int \<Rightarrow> (KStore, kexn, unit) eff" where
  "persistSigned i signedWire signature now = update_trade i
     (\<lambda>r. r\<lparr> tr_signed_wire := Some signedWire, tr_signature := Some signature, tr_updated_at := now \<rparr>)"

definition setState :: "string \<Rightarrow> TradeState \<Rightarrow> int \<Rightarrow> (KStore, kexn, unit) eff" where
  "setState i st now = update_trade i (\<lambda>r. r\<lparr> tr_state := st, tr_updated_at := now \<rparr>)"

definition setSignature :: "string \<Rightarrow> string \<Rightarrow> int \<Rightarrow> (KStore, kexn, unit) eff" where
  "setSignature i signature now = update_trade i
     (\<lambda>r. r\<lparr> tr_signature := Some signature, tr_updated_at := now \<rparr>)"

definition failTrade :: "string \<Rightarrow> TradeState \<Rightarrow> FailCode \<Rightarrow> int \<Rightarrow> (KStore, kexn, unit) eff" where
  "failTrade i st err now = update_trade i
     (\<lambda>r. r\<lparr> tr_state := st, tr_error := Some err, tr_updated_at := now \<rparr>)"

definition pendingSent :: "KStore \<Rightarrow> TradeRow list" where
  "pendingSent s = filter (\<lambda>r. tr_state r = TS_sent) (ks_trades s)"

text \<open>
  \<open>ORDER BY created_at DESC LIMIT n\<close>; rows with the same time come in an order SQLite does not
  specify, here the order of insertion.
\<close>

definition recentTrades :: "int \<Rightarrow> KStore \<Rightarrow> TradeRow list" where
  "recentTrades limit s =
     take (nat (max 1 (min 100 limit))) (sort_key (\<lambda>r. - tr_created_at r) (ks_trades s))"

definition appendJournal :: "JournalEvent \<Rightarrow> (KStore, kexn, unit) eff" where
  "appendJournal ev = modifyE (\<lambda>s. s\<lparr>
     ks_journal := ks_journal s @ [\<lparr> jr_seq = ks_next_seq s, jr_event = ev \<rparr>],
     ks_next_seq := Suc (ks_next_seq s) \<rparr>)"

definition recentJournal :: "int \<Rightarrow> KStore \<Rightarrow> (nat \<times> JournalEvent) list" where
  "recentJournal limit s =
     take (nat (max 1 (min 1000 limit)))
       (map (\<lambda>r. (jr_seq r, jr_event r)) (rev (sort_key jr_seq (ks_journal s))))"

definition readJournal :: "string \<Rightarrow> KStore \<Rightarrow> JournalEvent list" where
  "readJournal tradeId s =
     map jr_event (sort_key jr_seq (filter (\<lambda>r. je_tradeId (jr_event r) = tradeId) (ks_journal s)))"

section \<open>Weakest preconditions of the operations\<close>

lemma wp_claimIdempotency [wp_simps]:
  "wp (claimIdempotency key tid now) Q E s =
     (if exists_where (\<lambda>r. id_key r = key) (ks_idempotency s) then Q False s
      else Q True (s\<lparr> ks_idempotency := ks_idempotency s @
             [\<lparr> id_key = key, id_trade_id = tid, id_created_at = now \<rparr>] \<rparr>))"
  by (simp add: wp_def claimIdempotency_def)

lemma wp_insert_spend [wp_simps]:
  "wp (insert_spend r) Q E s =
     (if exists_where (\<lambda>x. sp_id x = sp_id r) (ks_spends s) then E OtherErr s
      else Q () (s\<lparr> ks_spends := ks_spends s @ [r] \<rparr>))"
  by (simp add: wp_def insert_spend_def)

lemma wp_releaseReservation [wp_simps]:
  "wp (releaseReservation rid) Q E s =
     Q () (s\<lparr> ks_spends := update_where (\<lambda>r. sp_id r = rid \<and> sp_state r = Sp_reserved)
       (\<lambda>r. r\<lparr> sp_state := Sp_released \<rparr>) (ks_spends s) \<rparr>)"
  by (simp add: releaseReservation_def wp_simps)

lemma wp_consumeReservation [wp_simps]:
  "wp (consumeReservation rid) Q E s =
     Q () (s\<lparr> ks_spends := update_where (\<lambda>r. sp_id r = rid)
       (\<lambda>r. r\<lparr> sp_state := Sp_consumed \<rparr>) (ks_spends s) \<rparr>)"
  by (simp add: consumeReservation_def wp_simps)

lemma wp_insertTrade [wp_simps]:
  "wp (insertTrade row rid) Q E s =
     (if exists_where (\<lambda>r. tr_id r = nt_id row \<or> tr_idempotency_key r = nt_idempotencyKey row) (ks_trades s)
      then E OtherErr s else Q () (s\<lparr> ks_trades := ks_trades s @ [trade_row row rid] \<rparr>))"
  by (simp add: wp_def insertTrade_def)

lemma wp_update_trade:
  "wp (update_trade i f) Q E s =
     Q () (s\<lparr> ks_trades := update_where (\<lambda>r. tr_id r = i) f (ks_trades s) \<rparr>)"
  by (simp add: update_trade_def wp_simps)

lemmas trade_update_defs = persistSigned_def setState_def setSignature_def failTrade_def

lemma wp_appendJournal [wp_simps]:
  "wp (appendJournal ev) Q E s =
     Q () (s\<lparr> ks_journal := ks_journal s @ [\<lparr> jr_seq = ks_next_seq s, jr_event = ev \<rparr>],
             ks_next_seq := Suc (ks_next_seq s) \<rparr>)"
  by (simp add: appendJournal_def wp_simps)

text \<open>\<open>reserve\<close> either leaves the store as it was, or appends one reserved row within the caps.\<close>

lemma wp_reserve:
  "wp (reserve a rid) Q E s =
     (let h = sumActive (ra_bucket a) (ra_now a - HOUR_MS) s;
          d = sumActive (ra_bucket a) (ra_now a - DAY_MS) s;
          c = ra_caps a; n = ra_amount a
      in if n > perTrade c then Q (Reserve_denied Deny_perTrade (perTrade c) n) s
         else if h + n > perHour c then Q (Reserve_denied Deny_perHour (perHour c) (h + n)) s
         else if d + n > perDay c then Q (Reserve_denied Deny_perDay (perDay c) (d + n)) s
         else if exists_where (\<lambda>x. sp_id x = rid) (ks_spends s) then E OtherErr s
         else Q (Reserve_ok rid h d)
                (s\<lparr> ks_spends := ks_spends s @
                   [\<lparr> sp_id = rid, sp_trade_id = ra_tradeId a, sp_bucket = ra_bucket a, sp_amount = n,
                      sp_state = Sp_reserved, sp_created_at = ra_now a \<rparr>] \<rparr>))"
  by (simp add: reserve_def wp_simps Let_def)

section \<open>The rolling spend cap\<close>

text \<open>
  One operation of the store at time \<open>now\<close>, with the caps of the policy. A caller may have read
  its clock earlier than the call runs (\<open>#live\<close> reads it before it awaits the mint inspector), so
  a reservation is dated \<open>now\<close> or before. A reservation that is consumed was not released: the
  gateway and the reconciler consume or release, never both.
\<close>

inductive kstore_step :: "(QuoteBucket \<Rightarrow> SpendCaps) \<Rightarrow> int \<Rightarrow> KStore \<Rightarrow> KStore \<Rightarrow> bool" for caps where
  step_reserve: "ra_now a \<le> now \<Longrightarrow> ra_caps a = caps (ra_bucket a) \<Longrightarrow> 0 \<le> ra_amount a \<Longrightarrow>
    s' = snd (reserve a rid s) \<Longrightarrow> kstore_step caps now s s'"
| step_release: "s' = snd (releaseReservation rid s) \<Longrightarrow> kstore_step caps now s s'"
| step_consume: "\<not> exists_where (\<lambda>r. sp_id r = rid \<and> sp_state r = Sp_released) (ks_spends s) \<Longrightarrow>
    s' = snd (consumeReservation rid s) \<Longrightarrow> kstore_step caps now s s'"
| step_other: "ks_spends s' = ks_spends s \<Longrightarrow> kstore_step caps now s s'"

definition spends_wf :: "int \<Rightarrow> KStore \<Rightarrow> bool" where
  "spends_wf now s \<longleftrightarrow> (\<forall>r \<in> set (ks_spends s). sp_created_at r \<le> now \<and> 0 \<le> sp_amount r)"

definition reserve_row :: "ReserveArgs \<Rightarrow> string \<Rightarrow> SpendRow" where
  "reserve_row a rid = \<lparr> sp_id = rid, sp_trade_id = ra_tradeId a, sp_bucket = ra_bucket a,
     sp_amount = ra_amount a, sp_state = Sp_reserved, sp_created_at = ra_now a \<rparr>"

lemma reserve_eq:
  "reserve a rid s =
     (let h = sumActive (ra_bucket a) (ra_now a - HOUR_MS) s;
          d = sumActive (ra_bucket a) (ra_now a - DAY_MS) s;
          c = ra_caps a; n = ra_amount a
      in if n > perTrade c then (Inr (Reserve_denied Deny_perTrade (perTrade c) n), s)
         else if h + n > perHour c then (Inr (Reserve_denied Deny_perHour (perHour c) (h + n)), s)
         else if d + n > perDay c then (Inr (Reserve_denied Deny_perDay (perDay c) (d + n)), s)
         else if exists_where (\<lambda>x. sp_id x = rid) (ks_spends s) then (Inl OtherErr, s)
         else (Inr (Reserve_ok rid h d), s\<lparr> ks_spends := ks_spends s @ [reserve_row a rid] \<rparr>))"
  by (simp add: reserve_def eff_defs insert_spend_def reserve_row_def Let_def)

lemma reserve_cases:
  obtains (same) "snd (reserve a rid s) = s"
  | (granted) "snd (reserve a rid s) = s\<lparr> ks_spends := ks_spends s @ [reserve_row a rid] \<rparr>"
      "fst (reserve a rid s) = Inr (Reserve_ok rid (sumActive (ra_bucket a) (ra_now a - HOUR_MS) s)
         (sumActive (ra_bucket a) (ra_now a - DAY_MS) s))"
      "ra_amount a \<le> perTrade (ra_caps a)"
      "sumActive (ra_bucket a) (ra_now a - HOUR_MS) s + ra_amount a \<le> perHour (ra_caps a)"
      "sumActive (ra_bucket a) (ra_now a - DAY_MS) s + ra_amount a \<le> perDay (ra_caps a)"
  by (fastforce simp: reserve_eq Let_def not_less split: if_splits)

lemma spends_wf_step:
  assumes wf: "spends_wf t s" and le: "t \<le> u" and step: "kstore_step caps u s s'"
  shows "spends_wf u s'"
proof -
  have u: "spends_wf u s" using wf le by (fastforce simp: spends_wf_def)
  from step show ?thesis
  proof cases
    case (step_reserve a rid)
    with u show ?thesis
      by (cases rule: reserve_cases [of a rid s]) (auto simp: spends_wf_def reserve_row_def)
  next
    case step_release
    with u show ?thesis
      by (auto simp: spends_wf_def releaseReservation_def modifyE_def set_update_where)
  next
    case step_consume
    with u show ?thesis
      by (auto simp: spends_wf_def consumeReservation_def modifyE_def set_update_where)
  next
    case step_other
    with u show ?thesis by (simp add: spends_wf_def)
  qed
qed

lemma sumActive_append:
  "sumActive b c (s\<lparr> ks_spends := ks_spends s @ [r] \<rparr>) =
     sumActive b c s + (if sp_bucket r = b \<and> sp_active r \<and> c \<le> sp_created_at r then sp_amount r else 0)"
  by (simp add: sumActive_def)

lemma sumActive_later: "spends_wf t s \<Longrightarrow> c \<le> c' \<Longrightarrow> sumActive b c' s \<le> sumActive b c s"
  unfolding sumActive_def by (rule sum_where_mono) (auto simp: spends_wf_def)

lemma sumActive_release: "spends_wf t s \<Longrightarrow> sumActive b c (snd (releaseReservation rid s)) \<le> sumActive b c s"
  unfolding sumActive_def releaseReservation_def modifyE_def
  by (simp, rule sum_where_update_le) (auto simp: spends_wf_def sp_active_def)

lemma sumActive_consume:
  assumes "spends_wf t s"
    and "\<not> exists_where (\<lambda>r. sp_id r = rid \<and> sp_state r = Sp_released) (ks_spends s)"
  shows "sumActive b c (snd (consumeReservation rid s)) \<le> sumActive b c s"
  unfolding sumActive_def consumeReservation_def modifyE_def
proof (simp, rule sum_where_update_le)
  fix r assume "r \<in> set (ks_spends s)"
  then show "0 \<le> sp_amount r" using assms by (simp add: spends_wf_def)
next
  fix r assume r: "r \<in> set (ks_spends s)" "sp_id r = rid"
    "sp_bucket (r\<lparr> sp_state := Sp_consumed \<rparr>) = b \<and> sp_active (r\<lparr> sp_state := Sp_consumed \<rparr>)
       \<and> c \<le> sp_created_at (r\<lparr> sp_state := Sp_consumed \<rparr>)"
  then have "sp_state r \<noteq> Sp_released" using assms(2) by (auto simp: exists_where_iff)
  with r show "(sp_bucket r = b \<and> sp_active r \<and> c \<le> sp_created_at r) \<and>
      sp_amount (r\<lparr> sp_state := Sp_consumed \<rparr>) = sp_amount r"
    by (cases "sp_state r") (simp_all add: sp_active_def)
qed

text \<open>
  The window law for any width \<open>w\<close> and cap \<open>k\<close> such that a granted reservation is within \<open>k\<close>.
\<close>

lemma sumActive_step:
  assumes wf: "spends_wf t s" and step: "kstore_step caps u s s'" and v: "u \<le> v"
    and grant: "\<And>a rid. ra_bucket a = b \<Longrightarrow> ra_caps a = caps b \<Longrightarrow>
        snd (reserve a rid s) \<noteq> s \<Longrightarrow> sumActive b (ra_now a - w) s + ra_amount a \<le> k"
  shows "sumActive b (v - w) s' \<le> max (sumActive b (v - w) s) k"
  using step
proof cases
  case (step_reserve a rid)
  show ?thesis
  proof (cases rule: reserve_cases [of a rid s])
    case same
    then show ?thesis using step_reserve by simp
  next
    case granted
    then have "snd (reserve a rid s) \<noteq> s" by (metis KStore.ext_inject KStore.surjective
          KStore.update_convs(2) append_self_conv list.distinct(1))
    then have "ra_bucket a = b \<Longrightarrow> sumActive b (ra_now a - w) s + ra_amount a \<le> k"
      using grant step_reserve by blast
    moreover have "sumActive b (v - w) s \<le> sumActive b (ra_now a - w) s"
      using wf step_reserve v by (intro sumActive_later [of t]) auto
    ultimately show ?thesis
      using granted step_reserve by (auto simp: sumActive_append reserve_row_def)
  qed
next
  case step_release
  then show ?thesis using sumActive_release [OF wf] by (simp add: le_max_iff_disj)
next
  case step_consume
  then show ?thesis using sumActive_consume [OF wf] by (simp add: le_max_iff_disj)
next
  case step_other
  then show ?thesis by (simp add: sumActive_def)
qed

lemma reserve_changed:
  assumes "snd (reserve a rid s) \<noteq> s"
  shows "sumActive (ra_bucket a) (ra_now a - HOUR_MS) s + ra_amount a \<le> perHour (ra_caps a)"
    and "sumActive (ra_bucket a) (ra_now a - DAY_MS) s + ra_amount a \<le> perDay (ra_caps a)"
  using assms by (auto intro: reserve_cases [of a rid s])

lemma spends_wf_empty: "spends_wf t empty_store"
  by (simp add: spends_wf_def empty_store_def)

lemma sumActive_empty: "sumActive b c empty_store = 0"
  by (simp add: sumActive_def empty_store_def)

text \<open>The contract of the prelude, met by the hour and the day window of every bucket.\<close>

interpretation hour_cap: rolling_cap "\<lambda>s v. sumActive b (v - HOUR_MS) s" spends_wf
    "kstore_step caps" empty_store "perHour (caps b)" for b caps
proof
  fix t u v :: int and s s' :: KStore
  show "sumActive b (v - HOUR_MS) s' \<le> max (sumActive b (v - HOUR_MS) s) (perHour (caps b))"
    if "spends_wf t s" "t \<le> u" "kstore_step caps u s s'" "u \<le> v"
    using that(1,3,4) by (rule sumActive_step) (use reserve_changed in force)
qed (auto intro: spends_wf_empty spends_wf_step simp: sumActive_empty)

interpretation day_cap: rolling_cap "\<lambda>s v. sumActive b (v - DAY_MS) s" spends_wf
    "kstore_step caps" empty_store "perDay (caps b)" for b caps
proof
  fix t u v :: int and s s' :: KStore
  show "sumActive b (v - DAY_MS) s' \<le> max (sumActive b (v - DAY_MS) s) (perDay (caps b))"
    if "spends_wf t s" "t \<le> u" "kstore_step caps u s s'" "u \<le> v"
    using that(1,3,4) by (rule sumActive_step) (use reserve_changed in force)
qed (auto intro: spends_wf_empty spends_wf_step simp: sumActive_empty)

section \<open>Histories of the store\<close>

text \<open>Every mutating method as a state change; a thrown constraint violation changes nothing.\<close>

datatype StoreOp =
    Op_reserve ReserveArgs string
  | Op_release string
  | Op_consume string
  | Op_insertTrade NewTradeRow "string option"
  | Op_persistSigned string string string int
  | Op_setState string TradeState int
  | Op_setSignature string string int
  | Op_failTrade string TradeState FailCode int
  | Op_appendJournal JournalEvent

fun store_op :: "StoreOp \<Rightarrow> KStore \<Rightarrow> KStore" where
  "store_op (Op_reserve a rid) s = snd (reserve a rid s)"
| "store_op (Op_release rid) s = snd (releaseReservation rid s)"
| "store_op (Op_consume rid) s = snd (consumeReservation rid s)"
| "store_op (Op_insertTrade row rid) s = snd (insertTrade row rid s)"
| "store_op (Op_persistSigned i w sig now) s = snd (persistSigned i w sig now s)"
| "store_op (Op_setState i st now) s = snd (setState i st now s)"
| "store_op (Op_setSignature i sig now) s = snd (setSignature i sig now s)"
| "store_op (Op_failTrade i st e now) s = snd (failTrade i st e now s)"
| "store_op (Op_appendJournal ev) s = snd (appendJournal ev s)"

lemma store_op_reserve_frame:
  "ks_idempotency (snd (reserve a rid s)) = ks_idempotency s"
  "ks_journal (snd (reserve a rid s)) = ks_journal s"
  "ks_next_seq (snd (reserve a rid s)) = ks_next_seq s"
  "ks_trades (snd (reserve a rid s)) = ks_trades s"
  by (cases rule: reserve_cases [of a rid s]; simp)+

lemma store_op_idempotency: "ks_idempotency (store_op oper s) = ks_idempotency s"
  by (cases oper) (simp_all add: store_op_reserve_frame releaseReservation_def consumeReservation_def
      insertTrade_def trade_update_defs update_trade_def modifyE_def appendJournal_def)

subsection \<open>The idempotency fence\<close>

type_synonym IdempotencyClaim = "string \<times> string \<times> int"

definition claim_key :: "IdempotencyClaim \<Rightarrow> KStore \<Rightarrow> bool \<times> KStore" where
  "claim_key c s = (case c of (key, tid, now) \<Rightarrow>
     (case claimIdempotency key tid now s of (Inr won, t) \<Rightarrow> (won, t) | (Inl _, t) \<Rightarrow> (False, t)))"

definition key_taken :: "KStore \<Rightarrow> string \<Rightarrow> bool" where
  "key_taken s k \<longleftrightarrow> exists_where (\<lambda>r. id_key r = k) (ks_idempotency s)"

lemma claim_key_eq:
  "claim_key (key, tid, now) s =
     (if key_taken s key then (False, s)
      else (True, s\<lparr> ks_idempotency := ks_idempotency s @ [\<lparr> id_key = key, id_trade_id = tid, id_created_at = now \<rparr>] \<rparr>))"
  by (simp add: claim_key_def claimIdempotency_def key_taken_def)

interpretation idempotency: claim_once claim_key fst key_taken "\<lambda>_. True"
proof
  fix a :: IdempotencyClaim and s k
  obtain key tid now where a: "a = (key, tid, now)" by (cases a)
  show "fst (claim_key a s) \<Longrightarrow> \<not> key_taken s (fst a)"
    and "fst (claim_key a s) \<Longrightarrow> key_taken (snd (claim_key a s)) (fst a)"
    and "key_taken s k \<Longrightarrow> key_taken (snd (claim_key a s)) k"
    and "\<not> key_taken s (fst a) \<Longrightarrow> fst (claim_key a s)"
    by (simp_all add: a claim_key_eq split: if_splits) (simp_all add: key_taken_def)
qed

definition store_history :: "(IdempotencyClaim + StoreOp) list \<Rightarrow> (IdempotencyClaim + (KStore \<Rightarrow> KStore)) list" where
  "store_history = map (map_sum id store_op)"

text \<open>
  Over any history of the store, claims and other operations in any order, an idempotency key
  is claimed successfully at most once, and not at all when the table already holds it. This is
  the fence \<open>#live\<close> relies on to move money once per key.
\<close>

theorem idempotency_claimed_once:
  "wins fst k (run_claims claim_key (store_history ops) s) \<le> (if key_taken s k then 0 else 1)"
proof (rule idempotency.wins_le)
  fix f s' k'
  assume "Inr f \<in> set (store_history ops)" and taken: "key_taken s' k'"
  then obtain x :: "IdempotencyClaim + StoreOp" where "Inr f = map_sum id store_op x"
    unfolding store_history_def set_map by blast
  then obtain oper where "f = store_op oper" by (cases x) auto
  with taken show "key_taken (f s') k'" by (simp add: key_taken_def store_op_idempotency)
qed

subsection \<open>The journal\<close>

definition run_store :: "StoreOp list \<Rightarrow> KStore \<Rightarrow> KStore" where
  "run_store ops s = fold store_op ops s"

fun appended :: "StoreOp \<Rightarrow> JournalEvent list" where
  "appended (Op_appendJournal ev) = [ev]"
| "appended _ = []"

definition journal_is :: "JournalEvent list \<Rightarrow> KStore \<Rightarrow> bool" where
  "journal_is evs s \<longleftrightarrow> map jr_event (ks_journal s) = evs \<and> sorted_wrt (<) (map jr_seq (ks_journal s))
     \<and> (\<forall>r \<in> set (ks_journal s). jr_seq r < ks_next_seq s)"

lemma journal_is_step: "journal_is evs s \<Longrightarrow> journal_is (evs @ appended oper) (store_op oper s)"
  by (cases oper) (auto simp: journal_is_def store_op_reserve_frame releaseReservation_def
      consumeReservation_def insertTrade_def trade_update_defs update_trade_def modifyE_def
      appendJournal_def sorted_wrt_append)

lemma journal_is_run: "journal_is evs s \<Longrightarrow> journal_is (evs @ concat (map appended ops)) (run_store ops s)"
proof (induction ops arbitrary: evs s)
  case Nil
  then show ?case by (simp add: run_store_def)
next
  case (Cons oper ops)
  have "journal_is (evs @ appended oper) (store_op oper s)" using Cons.prems by (rule journal_is_step)
  then have "journal_is ((evs @ appended oper) @ concat (map appended ops)) (run_store ops (store_op oper s))"
    by (rule Cons.IH)
  then show ?case by (simp add: run_store_def)
qed

lemma sort_key_sorted: "sorted_wrt (<) (map f xs) \<Longrightarrow> sort_key f xs = xs" for f :: "'a \<Rightarrow> 'b::linorder"
  by (intro sort_key_id_if_sorted) (simp add: strict_sorted_iff)

lemma readJournal_is: "journal_is evs s \<Longrightarrow> readJournal t s = filter (\<lambda>e. je_tradeId e = t) evs"
proof -
  assume j: "journal_is evs s"
  have "sorted_wrt (<) (map jr_seq (filter P (ks_journal s)))" for P
    using j by (simp add: journal_is_def sorted_wrt_map sorted_wrt_filter)
  then show ?thesis
    using j by (auto simp: readJournal_def sort_key_sorted journal_is_def filter_map comp_def)
qed

text \<open>
  The journal is append-only and per-trade complete. After any sequence of store operations on
  a fresh store, \<open>readJournal\<close> of a trade yields exactly the events appended for it, in the order
  they were appended, and \<open>recentJournal\<close> yields the events of all trades newest first, at least
  one and at most a thousand, as its clamped limit says.
\<close>

theorem journal_append_only:
  "readJournal t (run_store ops empty_store) =
      filter (\<lambda>e. je_tradeId e = t) (concat (map appended ops)) \<and>
   map snd (recentJournal n (run_store ops empty_store)) =
      take (nat (max 1 (min 1000 n))) (rev (concat (map appended ops)))"
proof -
  have "journal_is [] empty_store" by (simp add: journal_is_def empty_store_def)
  from journal_is_run [OF this] have j: "journal_is (concat (map appended ops)) (run_store ops empty_store)"
    by simp
  have s: "sort_key jr_seq (ks_journal (run_store ops empty_store)) = ks_journal (run_store ops empty_store)"
    using j by (intro sort_key_sorted) (simp add: journal_is_def)
  show ?thesis
    using readJournal_is [OF j] j
    by (simp add: recentJournal_def s take_map [symmetric] rev_map [symmetric] comp_def journal_is_def)
qed

subsection \<open>The caps over time\<close>

text \<open>
  However reservations, releases, consumptions and other operations interleave, as long as the
  clock does not go back, the spends of a bucket that count (reserved or consumed) never exceed
  the hourly cap in any hour window and the daily cap in any day window that ends now or later.
\<close>

theorem spend_caps_hold:
  assumes "timed_run (kstore_step caps) empty_store t s" and "t \<le> v"
  shows "sumActive b (v - HOUR_MS) s \<le> max 0 (perHour (caps b)) \<and>
         sumActive b (v - DAY_MS) s \<le> max 0 (perDay (caps b))"
  using assms hour_cap.run_capped day_cap.run_capped by blast

definition demo_caps :: "QuoteBucket \<Rightarrow> SpendCaps" where
  "demo_caps b = \<lparr> perTrade = 60, perHour = 100, perDay = 150 \<rparr>"

definition demo_reserve :: "int \<Rightarrow> int \<Rightarrow> ReserveArgs" where
  "demo_reserve now n = \<lparr> ra_bucket = Bucket_sol, ra_amount = n, ra_caps = demo_caps Bucket_sol, ra_tradeId = ''t'', ra_now = now \<rparr>"

definition demo_spent :: KStore where
  "demo_spent = run_store [Op_reserve (demo_reserve 0 60) ''a'', Op_reserve (demo_reserve 0 60) ''b'',
     Op_reserve (demo_reserve 0 40) ''c''] empty_store"

lemma demo_spent_run: "timed_run (kstore_step demo_caps) empty_store 0 demo_spent"
proof -
  have step: "timed_run (kstore_step demo_caps) empty_store 0 (snd (reserve (demo_reserve 0 n) rid s))"
    if "timed_run (kstore_step demo_caps) empty_store 0 s" "0 \<le> n" for n rid s
    using that(1)
  proof (rule timed_run.tick)
    show "kstore_step demo_caps 0 s (snd (reserve (demo_reserve 0 n) rid s))"
      by (rule step_reserve [where a = "demo_reserve 0 n"])
        (use that in \<open>auto simp: demo_reserve_def demo_caps_def\<close>)
  qed simp
  show ?thesis
    unfolding demo_spent_def run_store_def by (simp add: step timed_run.start)
qed

theorem spend_caps_hold_witness:
  "sumActive Bucket_sol (0 - HOUR_MS) demo_spent \<le> 100 \<and> sumActive Bucket_sol (0 - DAY_MS) demo_spent \<le> 150 \<and>
   sumActive Bucket_sol (0 - HOUR_MS) demo_spent = 100"
proof -
  have "sumActive Bucket_sol (0 - HOUR_MS) demo_spent \<le> 100 \<and> sumActive Bucket_sol (0 - DAY_MS) demo_spent \<le> 150"
    using spend_caps_hold [OF demo_spent_run, of 0 Bucket_sol] by (simp add: demo_caps_def)
  moreover have "sumActive Bucket_sol (0 - HOUR_MS) demo_spent = 100"
    by (simp add: demo_spent_def run_store_def reserve_eq Let_def demo_reserve_def demo_caps_def
        sumActive_def empty_store_def reserve_row_def sp_active_def HOUR_MS_def DAY_MS_def)
  ultimately show ?thesis by blast
qed

end
