(* ===== verification/TradeGateway.thy ===== *)
theory TradeGateway
  imports KernelStore
begin

text \<open>
  \<open>src/src/kernel/trade-gateway.ts\<close>: the single money path. The gateway runs on the kernel store
  and on an outside world of any type \<open>'w\<close> that only the service ports touch. The ports (policy
  getter, mint inspector, balances, simulator, wallet, broadcasters, confirmer, position reader)
  are parameters: any effect on the world that returns or throws. The two locals of \<open>#live\<close> that
  its \<open>catch\<close> block reads, \<open>reservationId\<close> and \<open>inserted\<close>, are fields of the state. Summaries and
  error messages are not modelled.
\<close>

section \<open>Ports and state\<close>

definition FEE_BUFFER_LAMPORTS :: int where "FEE_BUFFER_LAMPORTS = 3000000"

record 'w GatewayDeps =
  gp_now :: "'w \<Rightarrow> int"
  gp_newTradeId :: "'w \<Rightarrow> string \<times> 'w"
  gp_newReservationId :: "'w \<Rightarrow> string \<times> 'w"
  gp_policy :: "('w, kexn, PolicyConfig) eff"
  gp_inspect :: "string \<Rightarrow> ('w, kexn, MintInfo) eff"
  gp_readBalance :: "string \<Rightarrow> string \<Rightarrow> ('w, kexn, int) eff"
  gp_simulate :: "string \<Rightarrow> ('w, kexn, bool) eff"
  gp_pubkey :: string
  gp_sign :: "string \<Rightarrow> ('w, kexn, SignedTx) eff"
  gp_broadcasters :: "LandMode \<Rightarrow> (SignedTx \<Rightarrow> string option \<Rightarrow> ('w, kexn, string) eff) option"
  gp_confirm :: "string \<Rightarrow> int \<Rightarrow> ('w, kexn, ConfirmStatus) eff"
  gp_positions :: "(PerpPositionRef \<Rightarrow> ('w, kexn, int) eff) option"

record 'w Gw =
  gw_store :: KStore
  gw_world :: 'w
  gw_reservationId :: "string option"
  gw_inserted :: bool

definition storeE :: "(KStore, kexn, 'a) eff \<Rightarrow> ('w Gw, kexn, 'a) eff" where
  "storeE m = (\<lambda>g. case m (gw_store g) of (r, t) \<Rightarrow> (r, g\<lparr> gw_store := t \<rparr>))"

definition portE :: "('w, kexn, 'a) eff \<Rightarrow> ('w Gw, kexn, 'a) eff" where
  "portE m = (\<lambda>g. case m (gw_world g) of (r, w) \<Rightarrow> (r, g\<lparr> gw_world := w \<rparr>))"

definition freshE :: "('w \<Rightarrow> 'a \<times> 'w) \<Rightarrow> ('w Gw, kexn, 'a) eff" where
  "freshE f = portE (\<lambda>w. case f w of (x, v) \<Rightarrow> (Inr x, v))"

definition nowE :: "'w GatewayDeps \<Rightarrow> ('w Gw, kexn, int) eff" where
  "nowE d = getE (\<lambda>g. gp_now d (gw_world g))"

text \<open>
  \<open>Promise.all([m, n])\<close> of two reads: both are started, and the first rejection in argument order
  is the error.
\<close>

definition bothE :: "('s, 'e, 'a) eff \<Rightarrow> ('s, 'e, 'b) eff \<Rightarrow> ('s, 'e, 'a \<times> 'b) eff" where
  "bothE m n = (\<lambda>s. case m s of (r, t) \<Rightarrow> (case n t of (q, u) \<Rightarrow>
     ((case r of Inl e \<Rightarrow> Inl e | Inr x \<Rightarrow> (case q of Inl e \<Rightarrow> Inl e | Inr y \<Rightarrow> Inr (x, y))), u)))"

lemma wp_storeE [wp_simps]:
  "wp (storeE m) Q E g = wp m (\<lambda>x t. Q x (g\<lparr> gw_store := t \<rparr>)) (\<lambda>e t. E e (g\<lparr> gw_store := t \<rparr>)) (gw_store g)"
  by (auto simp: wp_def storeE_def split: prod.split sum.split)

lemma wp_nowE [wp_simps]: "wp (nowE d) Q E g = Q (gp_now d (gw_world g)) g"
  by (simp add: nowE_def wp_simps)

lemma wp_portE:
  "(\<And>x w. Q x (g\<lparr> gw_world := w \<rparr>)) \<Longrightarrow> (\<And>e w. E e (g\<lparr> gw_world := w \<rparr>)) \<Longrightarrow> wp (portE m) Q E g"
  by (auto simp: wp_def portE_def split: prod.split sum.split)

lemma wp_freshE: "(\<And>x w. Q x (g\<lparr> gw_world := w \<rparr>)) \<Longrightarrow> wp (freshE f) Q E g"
  by (auto simp: wp_def freshE_def portE_def split: prod.split sum.split)

lemma wp_both_ports:
  "(\<And>x w. Q x (g\<lparr> gw_world := w \<rparr>)) \<Longrightarrow> (\<And>e w. E e (g\<lparr> gw_world := w \<rparr>)) \<Longrightarrow>
     wp (bothE (portE m) (portE n)) Q E g"
  by (auto simp: wp_def bothE_def portE_def split: prod.split sum.split)

lemmas wp_ports = wp_portE wp_freshE wp_both_ports

section \<open>Helpers\<close>

definition assertSettleable :: "'w GatewayDeps \<Rightarrow> TradeIntent \<Rightarrow> ('w Gw, kexn, unit) eff" where
  "assertSettleable d i =
     guardE (settleModeFor (ti_kind i) = Venue_position \<and> Option.is_none (gp_positions d))
       (GuardErr SETTLE_UNVERIFIABLE)"

definition positionRef :: "'w GatewayDeps \<Rightarrow> TradeIntent \<Rightarrow> PerpPositionRef option" where
  "positionRef d i =
     (case ti_perp i of
        None \<Rightarrow> None
      | Some p \<Rightarrow>
          if settleModeFor (ti_kind i) \<noteq> Venue_position then None
          else Some \<lparr> pr_venue = pl_venue p, pr_market = pl_market p, pr_owner = gp_pubkey d,
                      pr_subAccountId = pl_accountSubId p \<rparr>)"

text \<open>Calling \<open>readPosition\<close> of an absent reader is a \<open>TypeError\<close>.\<close>

definition call_positions :: "'w GatewayDeps \<Rightarrow> PerpPositionRef \<Rightarrow> ('w Gw, kexn, int) eff" where
  "call_positions d ref =
     portE (case gp_positions d of None \<Rightarrow> throwE OtherErr | Some read \<Rightarrow> read ref)"

definition readPosition :: "'w GatewayDeps \<Rightarrow> TradeIntent \<Rightarrow> ('w Gw, kexn, int option) eff" where
  "readPosition d i =
     (case positionRef d i of
        None \<Rightarrow> returnE None
      | Some ref \<Rightarrow> bindE (call_positions d ref) (\<lambda>p. returnE (Some p)))"

definition assertMintsSupported ::
  "'w GatewayDeps \<Rightarrow> PolicyConfig \<Rightarrow> TradeIntent \<Rightarrow> ('w Gw, kexn, unit) eff" where
  "assertMintsSupported d p i =
     bindE (bothE (portE (gp_inspect d (ta_mint (ti_input i)))) (portE (gp_inspect d (ol_mint (ti_output i)))))
       (\<lambda>(inInfo, outInfo).
          guardE (\<not> allowToken2022 p \<and> (mi_isToken2022 inInfo \<or> mi_isToken2022 outInfo))
            (GuardErr TOKEN2022_UNSUPPORTED))"

definition assertWithinCaps :: "int \<Rightarrow> SpendCaps \<Rightarrow> int \<times> int \<Rightarrow> ('w Gw, kexn, unit) eff" where
  "assertWithinCaps amount caps used =
     (if amount > perTrade caps then throwE (GuardErr CAP_EXCEEDED)
      else if fst used + amount > perHour caps then throwE (GuardErr CAP_EXCEEDED)
      else if snd used + amount > perDay caps then throwE (GuardErr CAP_EXCEEDED)
      else returnE ())"

definition readPair :: "'w GatewayDeps \<Rightarrow> TradeIntent \<Rightarrow> ('w Gw, kexn, int \<times> int) eff" where
  "readPair d i =
     bothE (portE (gp_readBalance d (gp_pubkey d) (ta_mint (ti_input i))))
           (portE (gp_readBalance d (gp_pubkey d) (ol_mint (ti_output i))))"

definition caps_for :: "PolicyConfig \<Rightarrow> QuoteBucket \<Rightarrow> SpendCaps" where
  "caps_for p b = (if b = Bucket_sol then capsSol p else capsUsdc p)"

fun err_code :: "kexn \<Rightarrow> ErrCode" where
  "err_code (GuardErr c) = Code c"
| "err_code OtherErr = INTERNAL"

fun journal_code :: "kexn \<Rightarrow> GuardCode" where
  "journal_code (GuardErr c) = c"
| "journal_code OtherErr = INVALID_INTENT"

definition errorResult :: "string \<Rightarrow> kexn \<Rightarrow> bool \<Rightarrow> ExecuteResult" where
  "errorResult tradeId err simulated =
     \<lparr> er_tradeId = tradeId, er_state = TS_rejected, er_signature = None, er_simulated = simulated,
       er_fill = None, er_error = Some (err_code err) \<rparr>"

section \<open>Preview\<close>

definition preview_body ::
  "'w GatewayDeps \<Rightarrow> TradeIntent \<Rightarrow> ExecuteOptions \<Rightarrow> string \<Rightarrow> ('w Gw, kexn, ExecuteResult) eff" where
  "preview_body d i opts tradeId =
     bindE (portE (gp_policy d)) (\<lambda>p.
     seqE (liftE (staticGuards p i \<lparr> go_dryRun = True, go_confirmedByUser = eo_confirmedByUser opts \<rparr>))
    (seqE (assertSettleable d i)
    (seqE (assertMintsSupported d p i)
    (seqE (case quoteBucketFor (ta_mint (ti_input i)) of
             None \<Rightarrow> returnE ()
           | Some b \<Rightarrow>
               bindE (nowE d) (\<lambda>now.
               bindE (storeE (getE (usage b now))) (\<lambda>used.
               assertWithinCaps (ta_amount (ti_input i)) (caps_for p b) used)))
    (bindE (portE (gp_simulate d (ti_unsignedTxBase64 i))) (\<lambda>ok.
     seqE (guardE (\<not> ok) (GuardErr SIMULATION_FAILED))
       (returnE \<lparr> er_tradeId = tradeId, er_state = TS_reserved, er_signature = None, er_simulated = True,
                  er_fill = None, er_error = None \<rparr>)))))))"

definition preview :: "'w GatewayDeps \<Rightarrow> TradeIntent \<Rightarrow> ExecuteOptions \<Rightarrow> ('w Gw, kexn, ExecuteResult) eff" where
  "preview d i opts =
     bindE (freshE (gp_newTradeId d)) (\<lambda>tradeId.
     catchE (preview_body d i opts tradeId) (\<lambda>err. returnE (errorResult tradeId err True)))"

section \<open>The live path\<close>

text \<open>Steps 1 (a duplicate) and 2: guards and the reservation of the input leg's cap.\<close>

definition live_duplicate :: "string \<Rightarrow> string \<Rightarrow> KStore \<Rightarrow> ExecuteResult" where
  "live_duplicate key tradeId s =
     (case getTradeByIdempotency key s of
        None \<Rightarrow> \<lparr> er_tradeId = tradeId, er_state = TS_rejected, er_signature = None, er_simulated = False,
                 er_fill = None, er_error = Some (Code DUPLICATE_INTENT) \<rparr>
      | Some prior \<Rightarrow> \<lparr> er_tradeId = tr_id prior, er_state = tr_state prior, er_signature = tr_signature prior,
                 er_simulated = False, er_fill = None, er_error = Some (Code DUPLICATE_INTENT) \<rparr>)"

definition live_guards ::
  "'w GatewayDeps \<Rightarrow> TradeIntent \<Rightarrow> ExecuteOptions \<Rightarrow> ('w Gw, kexn, PolicyConfig) eff" where
  "live_guards d i opts =
     bindE (portE (gp_policy d)) (\<lambda>p.
     seqE (liftE (staticGuards p i \<lparr> go_dryRun = False, go_confirmedByUser = eo_confirmedByUser opts \<rparr>))
    (seqE (assertSettleable d i)
    (seqE (assertMintsSupported d p i)
          (returnE p))))"

definition live_reserve ::
  "'w GatewayDeps \<Rightarrow> TradeIntent \<Rightarrow> PolicyConfig \<Rightarrow> string \<Rightarrow> int \<Rightarrow> ('w Gw, kexn, unit) eff" where
  "live_reserve d i p tradeId now =
     (case quoteBucketFor (ta_mint (ti_input i)) of
        None \<Rightarrow> returnE ()
      | Some b \<Rightarrow>
          bindE (freshE (gp_newReservationId d)) (\<lambda>rid.
          bindE (storeE (reserve \<lparr> ra_bucket = b, ra_amount = ta_amount (ti_input i), ra_caps = caps_for p b,
                                   ra_tradeId = tradeId, ra_now = now \<rparr> rid)) (\<lambda>outcome.
          case outcome of
            Reserve_denied _ _ _ \<Rightarrow> throwE (GuardErr CAP_EXCEEDED)
          | Reserve_ok r _ _ \<Rightarrow> modifyE (\<lambda>g. g\<lparr> gw_reservationId := Some r \<rparr>))))"

text \<open>Steps 3 and 4: balances, the baseline position, the trade row and the first journal entries.\<close>

definition live_balances ::
  "'w GatewayDeps \<Rightarrow> TradeIntent \<Rightarrow> ('w Gw, kexn, (int \<times> int) \<times> int option) eff" where
  "live_balances d i =
     bindE (readPair d i) (\<lambda>pre.
     bindE (readPosition d i) (\<lambda>prePosition.
     seqE (guardE (fst pre < ta_amount (ti_input i) +
             (if quoteBucketFor (ta_mint (ti_input i)) = Some Bucket_sol then FEE_BUFFER_LAMPORTS else 0))
             (GuardErr INSUFFICIENT_BALANCE))
          (returnE (pre, prePosition))))"

definition live_insert ::
  "TradeIntent \<Rightarrow> ExecuteOptions \<Rightarrow> string \<Rightarrow> int \<Rightarrow> ('w Gw, kexn, unit) eff" where
  "live_insert i opts tradeId now =
     bindE (getE gw_reservationId) (\<lambda>rid.
     seqE (storeE (insertTrade \<lparr> nt_id = tradeId, nt_idempotencyKey = eo_idempotencyKey opts, nt_intent = i,
             nt_inputMint = ta_mint (ti_input i), nt_outputMint = ol_mint (ti_output i),
             nt_inputAmount = ta_amount (ti_input i),
             nt_lastValidBlockHeight = ti_lastValidBlockHeight i, nt_now = now \<rparr> rid))
    (seqE (modifyE (\<lambda>g. g\<lparr> gw_inserted := True \<rparr>))
    (seqE (storeE (appendJournal (Intent_received tradeId now (eo_idempotencyKey opts) (ti_source i))))
          (whenE (rid \<noteq> None)
             (storeE (appendJournal (Trade_reserved tradeId now (quoteBucketFor (ta_mint (ti_input i)))
                (ta_amount (ti_input i)))))))))"

text \<open>Steps 5 and 6: preflight, signature, and the signed wire persisted.\<close>

definition live_simulate :: "'w GatewayDeps \<Rightarrow> TradeIntent \<Rightarrow> string \<Rightarrow> ('w Gw, kexn, unit) eff" where
  "live_simulate d i tradeId =
     bindE (portE (gp_simulate d (ti_unsignedTxBase64 i))) (\<lambda>ok.
     bindE (nowE d) (\<lambda>t.
     seqE (storeE (appendJournal (Trade_simulated tradeId t ok)))
          (guardE (\<not> ok) (GuardErr SIMULATION_FAILED))))"

definition live_sign :: "'w GatewayDeps \<Rightarrow> TradeIntent \<Rightarrow> string \<Rightarrow> ('w Gw, kexn, SignedTx) eff" where
  "live_sign d i tradeId =
     bindE (portE (gp_sign d (ti_unsignedTxBase64 i))) (\<lambda>signed.
     bindE (nowE d) (\<lambda>t.
     seqE (storeE (persistSigned tradeId (stx_wireBase64 signed) (stx_signature signed) t))
    (bindE (nowE d) (\<lambda>t'.
     seqE (storeE (appendJournal (Trade_signed tradeId t' (stx_signature signed))))
          (returnE signed)))))"

definition live_prepare ::
  "'w GatewayDeps \<Rightarrow> TradeIntent \<Rightarrow> ExecuteOptions \<Rightarrow> string \<Rightarrow> int
     \<Rightarrow> ('w Gw, kexn, SignedTx \<times> (int \<times> int) \<times> int option) eff" where
  "live_prepare d i opts tradeId now =
     bindE (live_guards d i opts) (\<lambda>p.
     seqE (live_reserve d i p tradeId now)
    (bindE (live_balances d i) (\<lambda>(pre, prePosition).
     seqE (live_insert i opts tradeId now)
    (seqE (live_simulate d i tradeId)
    (bindE (live_sign d i tradeId) (\<lambda>signed.
     returnE (signed, pre, prePosition)))))))"

text \<open>Step 7. A broadcaster's own exception becomes \<open>BROADCAST_FAILED\<close>.\<close>

definition live_broadcast ::
  "'w GatewayDeps \<Rightarrow> TradeIntent \<Rightarrow> string \<Rightarrow> SignedTx \<Rightarrow> ('w Gw, kexn, string) eff" where
  "live_broadcast d i tradeId signed =
     (case gp_broadcasters d (ti_landMode i) of
        None \<Rightarrow> throwE (GuardErr BROADCAST_FAILED)
      | Some broadcast \<Rightarrow>
          bindE (catchE (portE (broadcast signed (ti_landHandle i)))
                   (\<lambda>_. throwE (GuardErr BROADCAST_FAILED))) (\<lambda>signature.
          bindE (nowE d) (\<lambda>t.
          seqE (storeE (setSignature tradeId signature t))
         (bindE (nowE d) (\<lambda>t'.
          seqE (storeE (setState tradeId TS_sent t'))
         (bindE (nowE d) (\<lambda>t''.
          seqE (storeE (appendJournal (Trade_sent tradeId t'' signature)))
               (returnE signature))))))))"

definition releaseHeld :: "('w Gw, kexn, unit) eff" where
  "releaseHeld = bindE (getE gw_reservationId) (\<lambda>r.
     case r of None \<Rightarrow> returnE () | Some rid \<Rightarrow> storeE (releaseReservation rid))"

definition consumeHeld :: "('w Gw, kexn, unit) eff" where
  "consumeHeld = bindE (getE gw_reservationId) (\<lambda>r.
     case r of None \<Rightarrow> returnE () | Some rid \<Rightarrow> storeE (consumeReservation rid))"

text \<open>Step 8, the branch in which the transaction did not confirm.\<close>

definition live_unconfirmed ::
  "'w GatewayDeps \<Rightarrow> string \<Rightarrow> ConfirmStatus \<Rightarrow> ('w Gw, kexn, ExecuteResult) eff" where
  "live_unconfirmed d tradeId status =
     (let code = (if status = Conf_expired then CONFIRM_TIMEOUT else BROADCAST_FAILED)
      in seqE releaseHeld
        (bindE (nowE d) (\<lambda>t.
         seqE (storeE (failTrade tradeId (if status = Conf_expired then TS_expired else TS_errored)
                 (Fail_code (Code code)) t))
        (bindE (nowE d) (\<lambda>t'.
         seqE (storeE (appendJournal (Trade_failed tradeId t' code)))
              (returnE (errorResult tradeId (GuardErr code) False)))))))"

text \<open>Step 9: what the fill was.\<close>

record SettleOutcome =
  so_effectiveSlippageBps :: jsnum
  so_positionDelta :: "int option"
  so_problem :: "GuardCode option"

definition settle_token :: "TradeIntent \<Rightarrow> int \<Rightarrow> SettleOutcome" where
  "settle_token i outputDelta =
     \<lparr> so_effectiveSlippageBps = slippageBps (q_outAmount (ti_quote i)) (if outputDelta > 0 then outputDelta else 0),
       so_positionDelta = None,
       so_problem = (if outputDelta < q_minOutAmount (ti_quote i) then Some SETTLE_SHORTFALL else None) \<rparr>"

definition perp_filled :: "PerpSettleLeg \<Rightarrow> int \<Rightarrow> int" where
  "perp_filled p positionDelta = (case pl_side p of Side_long \<Rightarrow> positionDelta | Side_short \<Rightarrow> - positionDelta)"

definition settle_position :: "PerpSettleLeg \<Rightarrow> int \<Rightarrow> int \<Rightarrow> SettleOutcome" where
  "settle_position p prePosition postPosition =
     (let positionDelta = postPosition - prePosition;
          filled = perp_filled p positionDelta
      in \<lparr> so_effectiveSlippageBps = slippageBps (pl_expectedBaseAmount p) (if filled > 0 then filled else 0),
           so_positionDelta = Some positionDelta,
           so_problem = (if filled < pl_minBaseAmount p then Some SETTLE_SHORTFALL else None) \<rparr>)"

definition settle ::
  "'w GatewayDeps \<Rightarrow> TradeIntent \<Rightarrow> int \<Rightarrow> int option \<Rightarrow> ('w Gw, kexn, SettleOutcome) eff" where
  "settle d i outputDelta prePosition =
     (case (positionRef d i, ti_perp i, prePosition) of
        (Some ref, Some p, Some pre) \<Rightarrow>
          catchE (bindE (call_positions d ref) (\<lambda>post. returnE (settle_position p pre post)))
            (\<lambda>_. returnE \<lparr> so_effectiveSlippageBps = JNum 0, so_positionDelta = None,
                           so_problem = Some SETTLE_UNVERIFIED \<rparr>)
      | _ \<Rightarrow> returnE (settle_token i outputDelta))"

definition live_settle ::
  "'w GatewayDeps \<Rightarrow> TradeIntent \<Rightarrow> string \<Rightarrow> string \<Rightarrow> int \<times> int \<Rightarrow> int option
     \<Rightarrow> ('w Gw, kexn, ExecuteResult) eff" where
  "live_settle d i tradeId signature pre prePosition =
     bindE (readPair d i) (\<lambda>post.
     let inputDelta = fst post - fst pre; outputDelta = snd post - snd pre
     in bindE (settle d i outputDelta prePosition) (\<lambda>st.
        seqE consumeHeld
       (bindE (nowE d) (\<lambda>t.
        seqE (storeE (setState tradeId TS_confirmed t))
       (bindE (nowE d) (\<lambda>t'.
        seqE (storeE (appendJournal (Trade_confirmed tradeId t' signature inputDelta outputDelta
                (so_effectiveSlippageBps st) (so_positionDelta st))))
             (returnE \<lparr> er_tradeId = tradeId, er_state = TS_confirmed, er_signature = Some signature,
                er_simulated = False,
                er_fill = Some \<lparr> fr_inputDelta = inputDelta, fr_outputDelta = outputDelta,
                  fr_effectiveSlippageBps = so_effectiveSlippageBps st,
                  fr_positionDelta = so_positionDelta st \<rparr>,
                er_error = map_option Code (so_problem st) \<rparr>)))))))"

definition live_body ::
  "'w GatewayDeps \<Rightarrow> TradeIntent \<Rightarrow> ExecuteOptions \<Rightarrow> string \<Rightarrow> int \<Rightarrow> ('w Gw, kexn, ExecuteResult) eff" where
  "live_body d i opts tradeId now =
     bindE (live_prepare d i opts tradeId now) (\<lambda>(signed, pre, prePosition).
     bindE (live_broadcast d i tradeId signed) (\<lambda>signature.
     bindE (portE (gp_confirm d signature (ti_lastValidBlockHeight i))) (\<lambda>status.
     if status \<noteq> Conf_confirmed then live_unconfirmed d tradeId status
     else live_settle d i tradeId signature pre prePosition)))"

text \<open>The \<open>catch\<close> block.\<close>

definition live_catch :: "'w GatewayDeps \<Rightarrow> string \<Rightarrow> kexn \<Rightarrow> ('w Gw, kexn, ExecuteResult) eff" where
  "live_catch d tradeId err =
     seqE releaseHeld
    (bindE (getE gw_inserted) (\<lambda>ins.
     seqE (if ins then
             bindE (nowE d) (\<lambda>t.
             seqE (storeE (failTrade tradeId TS_errored (Fail_code (err_code err)) t))
            (bindE (nowE d) (\<lambda>t'.
             storeE (appendJournal (Trade_failed tradeId t' (journal_code err))))))
           else
             bindE (nowE d) (\<lambda>t. storeE (appendJournal (Guard_rejected tradeId t (journal_code err)))))
          (returnE (errorResult tradeId err False))))"

definition live :: "'w GatewayDeps \<Rightarrow> TradeIntent \<Rightarrow> ExecuteOptions \<Rightarrow> ('w Gw, kexn, ExecuteResult) eff" where
  "live d i opts =
     bindE (nowE d) (\<lambda>now.
     bindE (freshE (gp_newTradeId d)) (\<lambda>tradeId.
     bindE (storeE (claimIdempotency (eo_idempotencyKey opts) tradeId now)) (\<lambda>claimed.
     if \<not> claimed then storeE (getE (live_duplicate (eo_idempotencyKey opts) tradeId))
     else catchE (live_body d i opts tradeId now) (live_catch d tradeId))))"

definition execute ::
  "'w GatewayDeps \<Rightarrow> TradeIntent \<Rightarrow> ExecuteOptions \<Rightarrow> KStore \<times> 'w \<Rightarrow> (kexn + ExecuteResult) \<times> (KStore \<times> 'w)" where
  "execute d i opts = (\<lambda>(s, w).
     case (if eo_dryRun opts then preview d i opts else live d i opts)
            \<lparr> gw_store = s, gw_world = w, gw_reservationId = None, gw_inserted = False \<rparr> of
       (r, g) \<Rightarrow> (r, (gw_store g, gw_world g)))"

section \<open>What a live call owns\<close>

text \<open>
  Between its claim and its end, a live call has added at most one spend row and one trade row to
  the store \<open>s0\<close> it started from, and it knows which: the two locals say so.
\<close>

definition held_spend :: "SpendRow list \<Rightarrow> TradeIntent \<Rightarrow> int \<Rightarrow> string option \<Rightarrow> SpendRow list \<Rightarrow> bool" where
  "held_spend rows0 i now rid rows \<longleftrightarrow>
     (case rid of
        None \<Rightarrow> rows = rows0
      | Some rid \<Rightarrow> \<not> exists_where (\<lambda>x. sp_id x = rid) rows0 \<and>
          (\<exists>r. rows = rows0 @ [r] \<and> sp_id r = rid \<and> sp_state r = Sp_reserved \<and>
               quoteBucketFor (ta_mint (ti_input i)) = Some (sp_bucket r) \<and>
               sp_amount r = ta_amount (ti_input i) \<and> sp_created_at r = now))"

definition held_trade :: "TradeRow list \<Rightarrow> string \<Rightarrow> bool \<Rightarrow> string option \<Rightarrow> TradeRow list \<Rightarrow> bool" where
  "held_trade rows0 tid ins rid rows \<longleftrightarrow>
     (if ins then
        \<not> exists_where (\<lambda>x. tr_id x = tid) rows0 \<and> (\<exists>r. rows = rows0 @ [r] \<and> tr_id r = tid \<and> tr_reservation_id r = rid)
      else rows = rows0)"

text \<open>
  A reservation was checked against a policy the getter returned, and the guards had passed.
\<close>

definition offered :: "'w GatewayDeps \<Rightarrow> PolicyConfig \<Rightarrow> bool" where
  "offered d p \<longleftrightarrow> (\<exists>w w'. gp_policy d w = (Inr p, w'))"

definition within_caps :: "'w GatewayDeps \<Rightarrow> KStore \<Rightarrow> TradeIntent \<Rightarrow> int \<Rightarrow> bool" where
  "within_caps d s0 i now \<longleftrightarrow>
     (\<exists>p b. offered d p \<and> quoteBucketFor (ta_mint (ti_input i)) = Some b \<and> 0 \<le> ta_amount (ti_input i) \<and>
        ta_amount (ti_input i) \<le> perTrade (caps_for p b) \<and>
        sumActive b (now - HOUR_MS) s0 + ta_amount (ti_input i) \<le> perHour (caps_for p b) \<and>
        sumActive b (now - DAY_MS) s0 + ta_amount (ti_input i) \<le> perDay (caps_for p b))"

definition held :: "'w GatewayDeps \<Rightarrow> KStore \<Rightarrow> TradeIntent \<Rightarrow> int \<Rightarrow> string \<Rightarrow> 'w Gw \<Rightarrow> bool" where
  "held d s0 i now tid g \<longleftrightarrow>
     ks_idempotency (gw_store g) = ks_idempotency s0 \<and>
     (if gw_reservationId g = None then True else within_caps d s0 i now) \<and>
     held_spend (ks_spends s0) i now (gw_reservationId g) (ks_spends (gw_store g)) \<and>
     held_trade (ks_trades s0) tid (gw_inserted g) (gw_reservationId g) (ks_trades (gw_store g))"

text \<open>The operations of the store that a stage runs, seen through \<open>held\<close>.\<close>

lemma held_world [simp]: "held d s0 i now tid (g\<lparr> gw_world := w \<rparr>) = held d s0 i now tid g"
  by (simp add: held_def)

lemma held_journal [simp]:
  "held d s0 i now tid (g\<lparr> gw_store := gw_store g\<lparr> ks_journal := j, ks_next_seq := n \<rparr> \<rparr>) = held d s0 i now tid g"
  by (simp add: held_def)

lemma held_update_trade:
  assumes "held d s0 i now tid g" and "gw_inserted g" and "\<And>r. tr_id (f r) = tr_id r"
    and "\<And>r. tr_reservation_id (f r) = tr_reservation_id r"
  shows "held d s0 i now tid (g\<lparr> gw_store := gw_store g\<lparr> ks_trades :=
           update_where (\<lambda>r. tr_id r = tid) f (ks_trades (gw_store g)) \<rparr> \<rparr>)"
  using assms by (auto simp: held_def held_trade_def update_where_none)

definition cap_held :: "TradeIntent \<Rightarrow> 'w Gw \<Rightarrow> bool" where
  "cap_held i g \<longleftrightarrow> (gw_reservationId g = None \<longrightarrow> quoteBucketFor (ta_mint (ti_input i)) = None)"

definition owns :: "'w GatewayDeps \<Rightarrow> KStore \<Rightarrow> TradeIntent \<Rightarrow> int \<Rightarrow> string \<Rightarrow> 'w Gw \<Rightarrow> bool" where
  "owns d s0 i now tid g \<longleftrightarrow> held d s0 i now tid g \<and> gw_inserted g \<and> cap_held i g"

lemma owns_simps [simp]:
  "owns d s0 i now tid (g\<lparr> gw_world := w \<rparr>) = owns d s0 i now tid g"
  "owns d s0 i now tid (g\<lparr> gw_store := gw_store g\<lparr> ks_journal := j, ks_next_seq := n \<rparr> \<rparr>) = owns d s0 i now tid g"
  "cap_held i (g\<lparr> gw_world := w \<rparr>) = cap_held i g"
  by (simp_all add: owns_def cap_held_def)

lemma wp_own_update:
  assumes "owns d s0 i now tid g" and "\<And>r. tr_id (f r) = tr_id r"
    and "\<And>r. tr_reservation_id (f r) = tr_reservation_id r"
    and "\<And>g. owns d s0 i now tid g \<Longrightarrow> Q () g"
  shows "wp (storeE (update_trade tid f)) Q E g"
  using assms by (simp add: wp_storeE wp_update_trade owns_def held_update_trade cap_held_def)

lemma wp_own_journal:
  assumes "owns d s0 i now tid g" and "\<And>g. owns d s0 i now tid g \<Longrightarrow> Q () g"
  shows "wp (storeE (appendJournal ev)) Q E g"
  using assms by (simp add: wp_simps)

lemma wp_settle: "(\<And>x w. Q x (g\<lparr> gw_world := w \<rparr>)) \<Longrightarrow> Q (settle_token i od) g \<Longrightarrow> wp (settle d i od pp) Q E g"
  by (auto simp: settle_def call_positions_def wp_simps intro!: wp_ports split: option.split)

subsection \<open>The stages before the broadcast\<close>

lemma wp_live_guards:
  assumes "\<And>p w. offered d p \<Longrightarrow>
        staticGuards p i \<lparr> go_dryRun = False, go_confirmedByUser = eo_confirmedByUser opts \<rparr> = Inr () \<Longrightarrow>
        Q p (g\<lparr> gw_world := w \<rparr>)"
    and "\<And>e w. E e (g\<lparr> gw_world := w \<rparr>)"
  shows "wp (live_guards d i opts) Q E g"
proof -
  have "wp (portE (gp_policy d)) (\<lambda>p g'. offered d p \<and> (\<exists>w. g' = g\<lparr> gw_world := w \<rparr>))
      (\<lambda>e g'. \<exists>w. g' = g\<lparr> gw_world := w \<rparr>) g"
    by (auto simp: wp_def portE_def offered_def split: prod.split sum.split)
  then show ?thesis
    unfolding live_guards_def assertSettleable_def assertMintsSupported_def
    by (intro wp_bindI, elim wp_mono)
      (auto simp: wp_simps assms intro!: wp_ports split: sum.split)
qed

lemma wp_live_reserve:
  assumes "held d s0 i now tid g" "gw_reservationId g = None" "\<not> gw_inserted g"
    and "offered d p" "0 \<le> ta_amount (ti_input i)"
  shows "wp (live_reserve d i p tid now) (\<lambda>_ g. held d s0 i now tid g \<and> \<not> gw_inserted g \<and> cap_held i g)
           (\<lambda>_ g. held d s0 i now tid g) g"
proof -
  have same: "sumActive b c (gw_store g) = sumActive b c s0" for b c
    using assms by (simp add: held_def held_spend_def sumActive_def)
  show ?thesis
    using assms
    by (auto simp: live_reserve_def wp_simps wp_reserve Let_def held_def held_spend_def held_trade_def
        cap_held_def within_caps_def same not_less intro!: wp_ports exI [of _ p] split: option.split)
qed

lemma wp_live_balances:
  "(\<And>x w. Q x (g\<lparr> gw_world := w \<rparr>)) \<Longrightarrow> (\<And>e w. E e (g\<lparr> gw_world := w \<rparr>)) \<Longrightarrow> wp (live_balances d i) Q E g"
  by (auto simp: live_balances_def readPair_def readPosition_def call_positions_def wp_simps
      intro!: wp_ports split: option.split)

lemma wp_live_insert:
  assumes "held d s0 i now tid g" "\<not> gw_inserted g" "cap_held i g"
  shows "wp (live_insert i opts tid now) (\<lambda>_. owns d s0 i now tid) (\<lambda>_. held d s0 i now tid) g"
  using assms
  by (auto simp: live_insert_def wp_simps owns_def held_def held_trade_def trade_row_def
      exists_where_iff cap_held_def)

lemma wp_live_simulate:
  "owns d s0 i now tid g \<Longrightarrow> wp (live_simulate d i tid) (\<lambda>_. owns d s0 i now tid) (\<lambda>_. owns d s0 i now tid) g"
  by (auto simp: live_simulate_def wp_bindE wp_seqE wp_nowE wp_guardE intro!: wp_ports wp_own_journal)

lemma wp_live_sign:
  "owns d s0 i now tid g \<Longrightarrow> wp (live_sign d i tid) (\<lambda>_. owns d s0 i now tid) (\<lambda>_. owns d s0 i now tid) g"
  by (auto simp: live_sign_def wp_bindE wp_seqE wp_nowE wp_returnE persistSigned_def
      intro!: wp_ports wp_own_update wp_own_journal)

lemma wp_live_prepare:
  assumes "held d s0 i now tid g" "gw_reservationId g = None" "\<not> gw_inserted g"
  shows "wp (live_prepare d i opts tid now) (\<lambda>_. owns d s0 i now tid) (\<lambda>_. held d s0 i now tid) g"
proof -
  have rest: "wp (bindE (live_balances d i) (\<lambda>(pre, prePosition).
       seqE (live_insert i opts tid now)
      (seqE (live_simulate d i tid)
      (bindE (live_sign d i tid) (\<lambda>signed. returnE (signed, pre, prePosition))))))
     (\<lambda>_. owns d s0 i now tid) (\<lambda>_. held d s0 i now tid) g"
    if "held d s0 i now tid g" "\<not> gw_inserted g" "cap_held i g" for g
    using that
    by (auto simp: wp_bindE wp_seqE wp_returnE intro!: wp_live_balances wp_mono [OF wp_live_insert]
        wp_mono [OF wp_live_simulate] wp_mono [OF wp_live_sign] simp: owns_def cap_held_def)
  have reserve: "wp (live_reserve d i p tid now) (\<lambda>_ g. held d s0 i now tid g \<and> \<not> gw_inserted g \<and> cap_held i g)
      (\<lambda>_. held d s0 i now tid) (g\<lparr> gw_world := w \<rparr>)"
    if "offered d p" "staticGuards p i (GuardOptions.make False (eo_confirmedByUser opts)) = Inr ()" for p w
    using assms that by (intro wp_live_reserve) (auto simp: staticGuards_Inr leg_guards_Inr input_leg_ok_def
        split: if_splits)
  show ?thesis
    unfolding live_prepare_def using assms
    by (intro wp_bindI wp_live_guards wp_seqI wp_mono [OF reserve] rest) (simp_all add: GuardOptions.defs)
qed

subsection \<open>The stages after it\<close>

lemma wp_live_broadcast:
  "owns d s0 i now tid g \<Longrightarrow> wp (live_broadcast d i tid signed) (\<lambda>_. owns d s0 i now tid) (\<lambda>_. owns d s0 i now tid) g"
  by (auto simp: live_broadcast_def wp_bindE wp_seqE wp_nowE wp_returnE wp_throwE wp_catchE
      setSignature_def setState_def split: option.split
      intro!: wp_ports wp_own_update wp_own_journal)

text \<open>
  \<open>paid s0 i now spent s\<close>: the active spends of \<open>s\<close> are those of \<open>s0\<close> plus, when \<open>spent\<close>, the
  input leg of the intent in its own bucket, dated \<open>now\<close>; the idempotency table is that of \<open>s0\<close>.
\<close>

definition paid :: "KStore \<Rightarrow> TradeIntent \<Rightarrow> int \<Rightarrow> bool \<Rightarrow> KStore \<Rightarrow> bool" where
  "paid s0 i now spent s \<longleftrightarrow>
     ks_idempotency s = ks_idempotency s0 \<and> (\<forall>b c. sumActive b c s = sumActive b c s0 +
        (if spent \<and> quoteBucketFor (ta_mint (ti_input i)) = Some b \<and> c \<le> now
         then ta_amount (ti_input i) else 0))"

text \<open>A resolved call: its trade row, if any, is the last and in a terminal state.\<close>

definition resolved :: "KStore \<Rightarrow> string \<Rightarrow> KStore \<Rightarrow> bool" where
  "resolved s0 tid s \<longleftrightarrow>
     (\<exists>rows. ks_trades s = ks_trades s0 @ rows \<and> length rows \<le> 1 \<and>
        list_all (\<lambda>r. tr_id r = tid \<and> tr_state r \<in> {TS_confirmed, TS_expired, TS_errored}) rows)"

lemma resolved_pendingSent: "resolved s0 tid s \<Longrightarrow> pendingSent s = pendingSent s0"
  by (force simp: resolved_def pendingSent_def list_all_iff filter_empty_conv)

lemma wp_releaseHeld:
  assumes "held d s0 i now tid g"
    and "\<And>g'. paid s0 i now False (gw_store g') \<Longrightarrow> gw_inserted g' = gw_inserted g \<Longrightarrow>
          held_trade (ks_trades s0) tid (gw_inserted g) (gw_reservationId g) (ks_trades (gw_store g')) \<Longrightarrow> Q () g'"
  shows "wp releaseHeld Q E g"
proof (cases "gw_reservationId g")
  case None
  with assms show ?thesis
    by (auto simp: releaseHeld_def wp_simps held_def held_spend_def paid_def sumActive_def)
next
  case (Some rid)
  have no: "\<not> exists_where (\<lambda>r. sp_id r = rid \<and> sp_state r = Sp_reserved) (ks_spends s0)"
    using assms(1) Some by (auto simp: held_def held_spend_def exists_where_iff)
  with Some assms show ?thesis
    by (auto simp: releaseHeld_def wp_simps held_def held_spend_def paid_def sumActive_def
        update_where_none sp_active_def)
qed

lemma wp_consumeHeld:
  assumes "held d s0 i now tid g"
    and "cap_held i g"
    and "\<And>g'. paid s0 i now True (gw_store g') \<Longrightarrow> gw_inserted g' = gw_inserted g \<Longrightarrow>
          held_trade (ks_trades s0) tid (gw_inserted g) (gw_reservationId g) (ks_trades (gw_store g')) \<Longrightarrow> Q () g'"
  shows "wp consumeHeld Q E g"
proof (cases "gw_reservationId g")
  case None
  with assms show ?thesis
    by (auto simp: consumeHeld_def wp_simps held_def held_spend_def paid_def sumActive_def cap_held_def)
next
  case (Some rid)
  with assms show ?thesis
    by (auto simp: consumeHeld_def wp_simps held_def held_spend_def paid_def sumActive_def
        update_where_none sp_active_def)
qed

lemma wp_resolve:
  assumes "paid s0 i now spent (gw_store g)"
    and "held_trade (ks_trades s0) tid True rid (ks_trades (gw_store g))"
    and "\<And>r. tr_id (f r) = tr_id r" and "\<And>r. tr_state (f r) \<in> {TS_confirmed, TS_expired, TS_errored}"
    and "\<And>g. paid s0 i now spent (gw_store g) \<Longrightarrow> resolved s0 tid (gw_store g) \<Longrightarrow> Q () g"
  shows "wp (storeE (update_trade tid f)) Q E g"
  using assms by (auto simp: wp_storeE wp_update_trade held_trade_def update_where_none resolved_def paid_def
      sumActive_def)

lemma resolved_journal [simp]:
  "paid s0 i now spent (s\<lparr> ks_journal := j, ks_next_seq := n \<rparr>) = paid s0 i now spent s"
  "resolved s0 tid (s\<lparr> ks_journal := j, ks_next_seq := n \<rparr>) = resolved s0 tid s"
  "held_trade rows tid ins rid (ks_trades (s\<lparr> ks_journal := j, ks_next_seq := n \<rparr>)) =
     held_trade rows tid ins rid (ks_trades s)"
  by (simp_all add: paid_def sumActive_def resolved_def)

definition outcome :: "'w GatewayDeps \<Rightarrow> KStore \<Rightarrow> TradeIntent \<Rightarrow> int \<Rightarrow> string \<Rightarrow> ExecuteResult \<Rightarrow> KStore \<Rightarrow> bool" where
  "outcome d s0 i now tid r s \<longleftrightarrow>
     er_tradeId r = tid \<and> er_state r \<in> {TS_confirmed, TS_rejected} \<and>
     paid s0 i now (er_state r = TS_confirmed) s \<and> resolved s0 tid s \<and>
     (if er_state r = TS_confirmed \<and> quoteBucketFor (ta_mint (ti_input i)) \<noteq> None
      then within_caps d s0 i now else True)"

lemma wp_live_unconfirmed:
  assumes "owns d s0 i now tid g"
  shows "wp (live_unconfirmed d tid st) (\<lambda>r g. outcome d s0 i now tid r (gw_store g)) E g"
proof -
  have h: "held d s0 i now tid g" "gw_inserted g" using assms by (simp_all add: owns_def)
  show ?thesis
    unfolding live_unconfirmed_def Let_def failTrade_def
    by (intro wp_seqI wp_releaseHeld [OF h(1)] wp_bindI, unfold wp_nowE,
        intro wp_seqI wp_resolve [where spent = False and tid = tid])
      (auto simp: h wp_simps outcome_def errorResult_def split: if_splits)
qed

lemma wp_live_settle:
  assumes "owns d s0 i now tid g"
  shows "wp (live_settle d i tid sig pre pp) (\<lambda>r g. outcome d s0 i now tid r (gw_store g))
           (\<lambda>_. held d s0 i now tid) g"
proof -
  have tail: "wp (seqE consumeHeld
       (bindE (nowE d) (\<lambda>t.
        seqE (storeE (setState tid TS_confirmed t))
       (bindE (nowE d) (\<lambda>t'.
        seqE (storeE (appendJournal (Trade_confirmed tid t' sig x y (so_effectiveSlippageBps st) (so_positionDelta st))))
             (returnE \<lparr> er_tradeId = tid, er_state = TS_confirmed, er_signature = Some sig,
                er_simulated = False,
                er_fill = Some \<lparr> fr_inputDelta = x, fr_outputDelta = y,
                  fr_effectiveSlippageBps = so_effectiveSlippageBps st,
                  fr_positionDelta = so_positionDelta st \<rparr>,
                er_error = map_option Code (so_problem st) \<rparr>))))))
      (\<lambda>r g. outcome d s0 i now tid r (gw_store g)) (\<lambda>_. held d s0 i now tid) g'"
    if "owns d s0 i now tid g'" for st x y g'
  proof -
    have h: "held d s0 i now tid g'" "cap_held i g'" "gw_inserted g'" using that by (simp_all add: owns_def)
    have "within_caps d s0 i now" if "quoteBucketFor (ta_mint (ti_input i)) \<noteq> None"
      using h that by (auto simp: held_def cap_held_def split: if_splits)
    then show ?thesis
      unfolding setState_def
      by (intro wp_seqI wp_consumeHeld [OF h(1,2)] wp_bindI, unfold wp_nowE,
          intro wp_seqI wp_resolve [where spent = True and tid = tid])
        (auto simp: h wp_simps outcome_def)
  qed
  show ?thesis
    unfolding live_settle_def Let_def readPair_def
    by (intro wp_bindI wp_ports wp_settle tail) (use assms in \<open>simp_all add: owns_def\<close>)
qed

lemma wp_live_catch:
  assumes "held d s0 i now tid g"
  shows "wp (live_catch d tid e) (\<lambda>r g. outcome d s0 i now tid r (gw_store g)) E g"
proof -
  have not_inserted: "resolved s0 tid s" if "held_trade (ks_trades s0) tid False rid (ks_trades s)" for s rid
    using that by (simp add: held_trade_def resolved_def)
  show ?thesis
    unfolding live_catch_def failTrade_def
    by (intro wp_seqI wp_releaseHeld [OF assms] wp_bindI, unfold wp_getE)
      (auto simp: wp_bindE wp_seqE wp_nowE wp_returnE wp_storeE [of "appendJournal _"] wp_appendJournal
         errorResult_def outcome_def not_inserted intro!: wp_resolve [where spent = False and tid = tid])
qed

lemma wp_live_body:
  assumes "held d s0 i now tid g" "gw_reservationId g = None" "\<not> gw_inserted g"
  shows "wp (live_body d i opts tid now) (\<lambda>r g. outcome d s0 i now tid r (gw_store g)) (\<lambda>_. held d s0 i now tid) g"
proof -
  have confirm: "wp (bindE (portE (gp_confirm d sig (ti_lastValidBlockHeight i))) (\<lambda>status.
       if status \<noteq> Conf_confirmed then live_unconfirmed d tid status
       else live_settle d i tid sig pre pp)) (\<lambda>r g. outcome d s0 i now tid r (gw_store g)) (\<lambda>_. held d s0 i now tid) g'"
    if "owns d s0 i now tid g'" for sig pre pp g'
    using that by (intro wp_bindI wp_ports)
      (auto simp: owns_def [of d s0 i now tid g'] intro!: wp_live_unconfirmed wp_live_settle)
  have sent: "wp (bindE (live_broadcast d i tid signed) (\<lambda>sig.
       bindE (portE (gp_confirm d sig (ti_lastValidBlockHeight i))) (\<lambda>status.
       if status \<noteq> Conf_confirmed then live_unconfirmed d tid status
       else live_settle d i tid sig pre pp))) (\<lambda>r g. outcome d s0 i now tid r (gw_store g)) (\<lambda>_. held d s0 i now tid) g'"
    if "owns d s0 i now tid g'" for signed pre pp g'
    by (intro wp_bindI wp_mono [OF wp_live_broadcast [OF that]] confirm) (auto simp: owns_def)
  show ?thesis
    unfolding live_body_def
    by (intro wp_bindI wp_mono [OF wp_live_prepare [OF assms]]) (auto intro: sent)
qed

section \<open>Properties of \<open>execute\<close>\<close>

abbreviation gw_start :: "KStore \<Rightarrow> 'w \<Rightarrow> 'w Gw" where
  "gw_start s w \<equiv> \<lparr> gw_store = s, gw_world = w, gw_reservationId = None, gw_inserted = False \<rparr>"

lemma wp_preview:
  "wp (preview d i opts) (\<lambda>r g. gw_store g = s \<and> er_simulated r \<and> er_state r \<in> {TS_reserved, TS_rejected}
        \<and> er_fill r = None \<and> er_signature r = None) (\<lambda>_ _. False) (gw_start s w)"
  by (auto simp: preview_def preview_body_def assertSettleable_def assertMintsSupported_def assertWithinCaps_def
      errorResult_def wp_simps intro!: wp_ports split: option.split sum.split)

lemma nowE_ports:
  "nowE (d\<lparr> gp_sign := sg, gp_broadcasters := br, gp_confirm := cf, gp_readBalance := rb \<rparr>) = nowE d"
  by (simp add: nowE_def fun_eq_iff)

lemma preview_ports:
  "preview (d\<lparr> gp_sign := sg, gp_broadcasters := br, gp_confirm := cf, gp_readBalance := rb \<rparr>) i opts = preview d i opts"
  by (simp add: preview_def preview_body_def assertSettleable_def assertMintsSupported_def nowE_ports
      cong: option.case_cong)

lemma execute_wp:
  assumes "wp (if eo_dryRun opts then preview d i opts else live d i opts)
             (\<lambda>r g. Q r (gw_store g) (gw_world g)) (\<lambda>_ _. False) (gw_start s w)"
  shows "\<exists>r s' w'. execute d i opts (s, w) = (Inr r, (s', w')) \<and> Q r s' w'"
  using assms by (auto simp: execute_def wp_def split: prod.splits sum.splits if_splits)

text \<open>
  A preview never throws and never writes. It returns a simulated result that is either an
  admission or a rejection, the store is exactly the store it was given, and its answer does not
  depend on the wallet, the broadcasters, the confirmer or the balances: nothing is signed or
  sent.
\<close>

theorem preview_read_only:
  "\<exists>r w'. execute d i (opts\<lparr> eo_dryRun := True \<rparr>) (s, w) = (Inr r, (s, w')) \<and> er_simulated r \<and>
     er_state r \<in> {TS_reserved, TS_rejected} \<and> er_fill r = None \<and> er_signature r = None \<and>
     execute (d\<lparr> gp_sign := sg, gp_broadcasters := br, gp_confirm := cf, gp_readBalance := rb \<rparr>) i
        (opts\<lparr> eo_dryRun := True \<rparr>) (s, w) = execute d i (opts\<lparr> eo_dryRun := True \<rparr>) (s, w)"
proof -
  have "\<exists>r s' w'. execute d i (opts\<lparr> eo_dryRun := True \<rparr>) (s, w) = (Inr r, (s', w')) \<and>
     (s' = s \<and> er_simulated r \<and> er_state r \<in> {TS_reserved, TS_rejected} \<and> er_fill r = None \<and> er_signature r = None)"
    by (rule execute_wp) (use wp_preview [of d i "opts\<lparr> eo_dryRun := True \<rparr>" s w] in simp)
  moreover have "execute (d\<lparr> gp_sign := sg, gp_broadcasters := br, gp_confirm := cf, gp_readBalance := rb \<rparr>) i
        (opts\<lparr> eo_dryRun := True \<rparr>) (s, w) = execute d i (opts\<lparr> eo_dryRun := True \<rparr>) (s, w)"
    by (simp add: execute_def preview_ports)
  ultimately show ?thesis by blast
qed

lemma outcome_claim:
  "outcome d (s\<lparr> ks_idempotency := k \<rparr>) i now tid r s' \<longleftrightarrow>
     er_tradeId r = tid \<and> er_state r \<in> {TS_confirmed, TS_rejected} \<and> ks_idempotency s' = k \<and>
     paid s i now (er_state r = TS_confirmed) (s'\<lparr> ks_idempotency := ks_idempotency s \<rparr>) \<and> resolved s tid s' \<and>
     (if er_state r = TS_confirmed \<and> quoteBucketFor (ta_mint (ti_input i)) \<noteq> None
      then within_caps d s i now else True)"
  by (auto simp: outcome_def paid_def resolved_def within_caps_def sumActive_def)

lemma wp_live:
  "wp (live d i opts)
     (\<lambda>r g. if key_taken s (eo_idempotencyKey opts)
            then gw_store g = s \<and> er_error r = Some (Code DUPLICATE_INTENT) \<and> er_fill r = None
            else \<exists>tid. outcome d (s\<lparr> ks_idempotency := ks_idempotency s @ [\<lparr> id_key = eo_idempotencyKey opts,
                   id_trade_id = tid, id_created_at = gp_now d w \<rparr>] \<rparr>) i (gp_now d w) tid r (gw_store g))
     (\<lambda>_ _. False) (gw_start s w)"
proof -
  let ?s = "\<lambda>tid. s\<lparr> ks_idempotency := ks_idempotency s @ [\<lparr> id_key = eo_idempotencyKey opts,
                   id_trade_id = tid, id_created_at = gp_now d w \<rparr>] \<rparr>"
  have body: "wp (catchE (live_body d i opts tid (gp_now d w)) (live_catch d tid))
     (\<lambda>r g. \<exists>tid. outcome d (?s tid) i (gp_now d w) tid r (gw_store g)) (\<lambda>_ _. False) (gw_start (?s tid) w')"
    for tid w'
  proof (rule wp_catchI, rule wp_mono)
    show "wp (live_body d i opts tid (gp_now d w)) (\<lambda>r g. outcome d (?s tid) i (gp_now d w) tid r (gw_store g))
        (\<lambda>_. held d (?s tid) i (gp_now d w) tid) (gw_start (?s tid) w')"
      by (rule wp_live_body) (simp_all add: held_def held_spend_def held_trade_def)
    show "wp (live_catch d tid e) (\<lambda>r g. \<exists>tid. outcome d (?s tid) i (gp_now d w) tid r (gw_store g))
        (\<lambda>_ _. False) g" if "held d (?s tid) i (gp_now d w) tid g" for e g
      by (rule wp_mono [OF wp_live_catch [OF that, where E = "\<lambda>_ _. False"]]) auto
  qed blast
  show ?thesis
    unfolding live_def
    by (auto simp: wp_bindE wp_nowE wp_storeE wp_claimIdempotency wp_getE key_taken_def live_duplicate_def
        intro!: wp_ports body split: option.split)
qed

text \<open>
  C6: a live call never throws and accounts for what it did. When the idempotency key was used
  before it changes nothing and says so. Otherwise it answers \<open>confirmed\<close> or \<open>rejected\<close>, keeps
  the key, resolves its own trade (no new row is left in \<open>sent\<close>), and the spends that count
  against the caps grow by exactly the input leg, in its bucket and dated at the start of the
  call, when the answer is \<open>confirmed\<close>, and not at all when it is \<open>rejected\<close>.
\<close>

theorem live_accounts:
  "\<exists>r s' w'. execute d i (opts\<lparr> eo_dryRun := False \<rparr>) (s, w) = (Inr r, (s', w')) \<and>
     (if key_taken s (eo_idempotencyKey opts)
      then s' = s \<and> er_error r = Some (Code DUPLICATE_INTENT) \<and> er_fill r = None
      else er_state r \<in> {TS_confirmed, TS_rejected} \<and>
        (\<forall>k. key_taken s' k \<longleftrightarrow> key_taken s k \<or> k = eo_idempotencyKey opts) \<and>
        pendingSent s' = pendingSent s \<and>
        (\<forall>b c. sumActive b c s' = sumActive b c s +
           (if er_state r = TS_confirmed \<and> quoteBucketFor (ta_mint (ti_input i)) = Some b \<and> c \<le> gp_now d w
            then ta_amount (ti_input i) else 0)))"
  (is "\<exists>r s' w'. ?e = _ \<and> ?P r s'")
proof -
  have "wp (live d i (opts\<lparr> eo_dryRun := False \<rparr>)) (\<lambda>r g. ?P r (gw_store g)) (\<lambda>_ _. False) (gw_start s w)"
    by (rule wp_mono [OF wp_live])
      (auto simp: outcome_claim paid_def sumActive_def key_taken_def resolved_pendingSent split: if_splits)
  then have "\<exists>r s' w'. ?e = (Inr r, (s', w')) \<and> ?P r s'"
    by (intro execute_wp) simp
  then show ?thesis .
qed

subsection \<open>A clean confirmation is a verified fill\<close>

definition verified_fill :: "'w GatewayDeps \<Rightarrow> TradeIntent \<Rightarrow> FillReport \<Rightarrow> bool" where
  "verified_fill d i f \<longleftrightarrow>
     (case positionRef d i of
        None \<Rightarrow> q_minOutAmount (ti_quote i) \<le> fr_outputDelta f
      | Some _ \<Rightarrow> (case (ti_perp i, fr_positionDelta f) of
            (Some p, Some \<delta>) \<Rightarrow> pl_minBaseAmount p \<le> perp_filled p \<delta>
          | _ \<Rightarrow> False))"

definition fill_sound :: "'w GatewayDeps \<Rightarrow> TradeIntent \<Rightarrow> ExecuteResult \<Rightarrow> bool" where
  "fill_sound d i r \<longleftrightarrow>
     (if er_state r = TS_confirmed \<and> er_error r = None
      then (case er_fill r of None \<Rightarrow> False | Some f \<Rightarrow> verified_fill d i f) else True)"

lemma wp_settle_sound:
  assumes "positionRef d i \<noteq> None \<Longrightarrow> pp \<noteq> None"
    and "\<And>st g. so_problem st \<noteq> None \<or>
        (case positionRef d i of None \<Rightarrow> q_minOutAmount (ti_quote i) \<le> od
         | Some _ \<Rightarrow> (case (ti_perp i, so_positionDelta st) of
              (Some p, Some \<delta>) \<Rightarrow> pl_minBaseAmount p \<le> perp_filled p \<delta> | _ \<Rightarrow> False)) \<Longrightarrow> Q st g"
  shows "wp (settle d i od pp) Q E g"
proof (cases "positionRef d i")
  case None
  then show ?thesis by (auto simp: settle_def wp_simps settle_token_def intro!: assms(2))
next
  case (Some ref)
  then obtain p where p: "ti_perp i = Some p" by (auto simp: positionRef_def split: option.splits)
  obtain pre where pre: "pp = Some pre" using assms(1) Some by auto
  show ?thesis
    by (auto simp: settle_def Some p pre call_positions_def wp_simps settle_position_def Let_def
        intro!: wp_ports assms(2))
qed

lemma wp_consumeHeld_any: "(\<And>g. Q () g) \<Longrightarrow> wp consumeHeld Q E g"
  by (auto simp: consumeHeld_def wp_simps split: option.split)

lemma wp_live_settle_sound:
  assumes "positionRef d i \<noteq> None \<Longrightarrow> pp \<noteq> None"
  shows "wp (live_settle d i tid sig pre pp) (\<lambda>r _. fill_sound d i r) (\<lambda>_ _. True) g"
  unfolding live_settle_def Let_def readPair_def
  by (intro wp_bindI wp_ports wp_settle_sound wp_seqI wp_consumeHeld_any assms)
    (auto simp: wp_simps setState_def wp_update_trade fill_sound_def verified_fill_def split: option.splits)

lemma wp_live_prepare_position:
  "wp (live_prepare d i opts tid now) (\<lambda>(_, _, pp) _. if positionRef d i = None then True else pp \<noteq> None)
     (\<lambda>_ _. True) g"
proof -
  have tail: "wp (seqE (live_insert i opts tid now) (seqE (live_simulate d i tid)
      (bindE (live_sign d i tid) (\<lambda>signed. returnE (signed, pre, pp)))))
      (\<lambda>(_, _, pp) _. if positionRef d i = None then True else pp \<noteq> None) (\<lambda>_ _. True) g"
    if "positionRef d i \<noteq> None \<Longrightarrow> pp \<noteq> None" for pre pp g
    by (intro wp_seq_any wp_bind_any) (use that in \<open>auto simp: wp_returnE\<close>)
  have bal: "wp (live_balances d i) (\<lambda>(pre, pp) _. positionRef d i \<noteq> None \<longrightarrow> pp \<noteq> None) (\<lambda>_ _. True) g" for g
    by (auto simp: live_balances_def readPair_def readPosition_def call_positions_def wp_simps
        intro!: wp_ports split: option.split)
  show ?thesis
    unfolding live_prepare_def
    by (rule wp_bind_any, rule wp_seq_any, rule wp_bindI, rule wp_mono [OF bal]) (auto intro!: tail)
qed

lemma wp_live_sound:
  "wp (live d i opts) (\<lambda>r _. fill_sound d i r) (\<lambda>_ _. False) (gw_start s w)"
proof -
  have unconfirmed: "wp (live_unconfirmed d tid st) (\<lambda>r _. fill_sound d i r) E g" for tid st E g
    by (auto simp: live_unconfirmed_def releaseHeld_def Let_def wp_simps failTrade_def wp_update_trade
        errorResult_def fill_sound_def split: option.split)
  have caught: "wp (live_catch d tid e) (\<lambda>r _. fill_sound d i r) E g" for tid e E g
    by (auto simp: live_catch_def releaseHeld_def wp_simps failTrade_def wp_update_trade
        errorResult_def fill_sound_def split: option.split)
  have body: "wp (live_body d i opts tid now) (\<lambda>r _. fill_sound d i r) (\<lambda>_ _. True) g" for tid now g
    unfolding live_body_def
    by (intro wp_bindI wp_mono [OF wp_live_prepare_position])
      (auto intro!: wp_bind_any unconfirmed wp_live_settle_sound split: if_splits)
  have "wp (catchE (live_body d i opts tid now) (live_catch d tid)) (\<lambda>r _. fill_sound d i r) (\<lambda>_ _. False) g"
    for tid now g
    by (intro wp_catchI wp_mono [OF body]) (auto intro: caught)
  then show ?thesis
    unfolding live_def
    by (auto simp: wp_bindE wp_nowE wp_storeE wp_claimIdempotency wp_getE live_duplicate_def fill_sound_def
        intro!: wp_ports split: option.split)
qed

text \<open>
  A live call that answers \<open>confirmed\<close> without an error has verified its fill. For a token
  trade the wallet's balance of the output mint grew by at least the committed min-out; for a
  perp the venue position moved in the direction of the order by at least the committed minimum.
\<close>

theorem confirmed_fill_verified:
  assumes "execute d i (opts\<lparr> eo_dryRun := False \<rparr>) (s, w) = (Inr r, sw)"
    and "er_state r = TS_confirmed" and "er_error r = None"
  shows "case er_fill r of None \<Rightarrow> False | Some f \<Rightarrow> verified_fill d i f"
proof -
  have "\<exists>r s' w'. execute d i (opts\<lparr> eo_dryRun := False \<rparr>) (s, w) = (Inr r, (s', w')) \<and> fill_sound d i r"
    by (rule execute_wp) (use wp_live_sound in simp)
  then show ?thesis using assms by (simp add: fill_sound_def)
qed

text \<open>A concrete outside world: a count of balance reads, and the wires that were broadcast.\<close>

type_synonym DemoWorld = "nat \<times> string list"

definition demo_balance :: "(nat \<Rightarrow> bool) \<Rightarrow> string \<Rightarrow> (DemoWorld, kexn, int) eff" where
  "demo_balance fails mint = (\<lambda>(n, sent).
     (if fails n then Inl OtherErr
      else Inr (if mint = WSOL_MINT then (if sent = [] then 1000000000 else 599999000)
                else (if sent = [] then 0 else 995)), (Suc n, sent)))"

definition demo_deps :: "(nat \<Rightarrow> bool) \<Rightarrow> DemoWorld GatewayDeps" where
  "demo_deps fails =
     \<lparr> gp_now = (\<lambda>_. 1000), gp_newTradeId = (\<lambda>w. (''trd_1'', w)), gp_newReservationId = (\<lambda>w. (''rsv_1'', w)),
       gp_policy = returnE demo_policy,
       gp_inspect = (\<lambda>m. returnE \<lparr> mi_mint = m, mi_decimals = 9, mi_programId = ''Token'',
          mi_isToken2022 = False, mi_freezeAuthority = None, mi_mintAuthority = None \<rparr>),
       gp_readBalance = (\<lambda>_ mint. demo_balance fails mint),
       gp_simulate = (\<lambda>_. returnE True), gp_pubkey = ''OWNER'',
       gp_sign = (\<lambda>_. returnE \<lparr> stx_wireBase64 = ''WIRE'', stx_signature = ''SIG'' \<rparr>),
       gp_broadcasters = (\<lambda>_. Some (\<lambda>tx _ (n, sent). (Inr (stx_signature tx), (n, stx_wireBase64 tx # sent)))),
       gp_confirm = (\<lambda>_ _. returnE Conf_confirmed), gp_positions = None \<rparr>"

definition demo_opts :: ExecuteOptions where
  "demo_opts = \<lparr> eo_idempotencyKey = ''K'', eo_dryRun = False, eo_confirmedByUser = False \<rparr>"

definition demo_run :: "(nat \<Rightarrow> bool) \<Rightarrow> (kexn + ExecuteResult) \<times> (KStore \<times> DemoWorld)" where
  "demo_run fails = execute (demo_deps fails) demo_swap demo_opts (empty_store, (0, []))"

lemma demo_static: "staticGuards demo_policy demo_swap \<lparr> go_dryRun = False, go_confirmedByUser = eo_confirmedByUser demo_opts \<rparr> = Inr ()"
  using demo_guards by (simp add: demo_opts_def)

lemma demo_sel:
  "eo_idempotencyKey demo_opts = ''K''" "eo_dryRun demo_opts = False" "allowToken2022 demo_policy = False"
  "caps_for demo_policy Bucket_sol = \<lparr> perTrade = 1000000000, perHour = 5000000000, perDay = 10000000000 \<rparr>"
  "ta_mint (ti_input demo_swap) = WSOL_MINT" "ta_amount (ti_input demo_swap) = 400000000"
  "ol_mint (ti_output demo_swap) = ''MINT''" "ti_kind demo_swap = ''swap''" "ti_perp demo_swap = None"
  "q_minOutAmount (ti_quote demo_swap) = 990"
  by (simp_all add: demo_opts_def demo_policy_def caps_for_def demo_swap_def)

lemma demo_mints: "quoteBucketFor WSOL_MINT = Some Bucket_sol" "WSOL_MINT \<noteq> ''MINT''" "''MINT'' \<noteq> WSOL_MINT"
  "isPerpIntentKind ''swap'' = False"
  by (simp_all add: quoteBucketFor_def SOL_QUOTE_MINTS_def WSOL_MINT_def isPerpIntentKind_def PERP_INTENT_KINDS_def)

lemmas demo_eval = demo_run_def execute_def live_def live_body_def live_prepare_def live_guards_def live_reserve_def
  live_balances_def live_insert_def live_simulate_def live_sign_def live_broadcast_def live_settle_def
  assertSettleable_def assertMintsSupported_def readPair_def readPosition_def positionRef_def settle_def
  settle_token_def consumeHeld_def releaseHeld_def live_catch_def
  errorResult_def nowE_def storeE_def portE_def freshE_def bothE_def eff_defs
  claimIdempotency_def reserve_eq reserve_row_def insertTrade_def trade_row_def appendJournal_def
  trade_update_defs update_trade_def consumeReservation_def releaseReservation_def sumActive_def sp_active_def
  empty_store_def demo_deps_def demo_balance_def demo_sel demo_mints demo_static [simplified] HOUR_MS_def DAY_MS_def
  FEE_BUFFER_LAMPORTS_def

lemma demo_ok: "\<exists>r sw. demo_run (\<lambda>_. False) = (Inr r, sw) \<and> er_state r = TS_confirmed \<and> er_error r = None
    \<and> (\<exists>f. er_fill r = Some f \<and> fr_outputDelta f = 995)"
  by (simp add: demo_eval)

text \<open>The trade of the demonstration confirms with 995 units received for a min-out of 990.\<close>

theorem confirmed_fill_verified_witness:
  "\<exists>f r sw. demo_run (\<lambda>_. False) = (Inr r, sw) \<and> er_fill r = Some f \<and> verified_fill (demo_deps (\<lambda>_. False)) demo_swap f"
proof -
  obtain r sw f where r: "demo_run (\<lambda>_. False) = (Inr r, sw)" "er_state r = TS_confirmed" "er_error r = None"
    "er_fill r = Some f" using demo_ok by blast
  have "demo_opts\<lparr> eo_dryRun := False \<rparr> = demo_opts" by (simp add: demo_opts_def)
  then have "execute (demo_deps (\<lambda>_. False)) demo_swap (demo_opts\<lparr> eo_dryRun := False \<rparr>) (empty_store, (0, [])) = (Inr r, sw)"
    using r(1) by (simp add: demo_run_def)
  from confirmed_fill_verified [OF this r(2,3)] have "verified_fill (demo_deps (\<lambda>_. False)) demo_swap f"
    using r(4) by simp
  then show ?thesis using r by blast
qed

subsection \<open>The signed wire is in the store before anything is broadcast\<close>

lemma live_prepare_ports:
  "live_prepare (d\<lparr> gp_broadcasters := br, gp_confirm := cf \<rparr>) i opts tid now = live_prepare d i opts tid now"
proof -
  have now: "nowE (d\<lparr> gp_broadcasters := br, gp_confirm := cf \<rparr>) = nowE d"
    by (simp add: nowE_def fun_eq_iff)
  have pos: "readPosition (d\<lparr> gp_broadcasters := br, gp_confirm := cf \<rparr>) = readPosition d"
    by (intro ext) (auto simp: readPosition_def positionRef_def call_positions_def split: option.split)
  have guards: "live_guards (d\<lparr> gp_broadcasters := br, gp_confirm := cf \<rparr>) = live_guards d"
    by (intro ext) (simp add: live_guards_def assertSettleable_def assertMintsSupported_def)
  have res: "live_reserve (d\<lparr> gp_broadcasters := br, gp_confirm := cf \<rparr>) = live_reserve d"
    by (intro ext) (simp add: live_reserve_def cong: option.case_cong)
  have bal: "live_balances (d\<lparr> gp_broadcasters := br, gp_confirm := cf \<rparr>) = live_balances d"
    by (intro ext) (simp add: live_balances_def readPair_def pos)
  show ?thesis
    by (simp add: live_prepare_def guards res bal live_simulate_def live_sign_def now)
qed

definition wire_stored :: "KStore \<Rightarrow> string \<Rightarrow> SignedTx \<Rightarrow> KStore \<Rightarrow> bool" where
  "wire_stored s0 tid signed s \<longleftrightarrow>
     (case getTrade tid s of
        None \<Rightarrow> False
      | Some r \<Rightarrow> tr_signed_wire r = Some (stx_wireBase64 signed) \<and>
          tr_signature r = Some (stx_signature signed) \<and> getTrade tid s0 = None)"

lemma wp_live_sign_stored:
  assumes "owns d s0 i now tid g"
  shows "wp (live_sign d i tid) (\<lambda>signed g. wire_stored s0 tid signed (gw_store g)) (\<lambda>_ _. True) g"
proof -
  from assms obtain r where r: "ks_trades (gw_store g) = ks_trades s0 @ [r]" "tr_id r = tid"
    "\<not> exists_where (\<lambda>x. tr_id x = tid) (ks_trades s0)"
    by (auto simp: owns_def held_def held_trade_def)
  then have none: "find_where (\<lambda>x. tr_id x = tid) (ks_trades s0) = None"
    by (simp add: find_where_None)
  have last: "find_where P (xs @ [x]) = Some x" if "find_where P xs = None" "P x" for P and x :: TradeRow and xs
    using that by (induction xs) (auto split: if_splits)
  show ?thesis
    unfolding live_sign_def persistSigned_def
    by (auto simp: wp_bindE wp_seqE wp_nowE wp_returnE wp_storeE wp_update_trade wp_appendJournal wire_stored_def
        getTrade_def r none update_where_none last intro!: wp_ports)
qed

text \<open>
  When the stages before the broadcast succeed, the trade's row is already in the store with
  the signed wire and its signature, and those stages cannot have used a broadcaster or the
  confirmer: a crash after this point loses no signature.
\<close>

theorem signed_before_broadcast:
  "(case live_prepare d i opts tid now (gw_start s w) of
      (Inl _, g) \<Rightarrow> True
    | (Inr (signed, _), g) \<Rightarrow> wire_stored s tid signed (gw_store g)) \<and>
   live_prepare (d\<lparr> gp_broadcasters := br, gp_confirm := cf \<rparr>) i opts tid now (gw_start s w) =
     live_prepare d i opts tid now (gw_start s w)"
proof -
  have signed: "wp (bindE (live_sign d i tid) (\<lambda>signed. returnE (signed, pre, pp)))
      (\<lambda>(signed, _) g. wire_stored s tid signed (gw_store g)) (\<lambda>_ _. True) g"
    if "owns d s i now tid g" for pre pp g
    by (intro wp_bindI wp_mono [OF wp_live_sign_stored [OF that]]) (simp_all add: wp_returnE)
  have simulated: "wp (seqE (live_simulate d i tid) (bindE (live_sign d i tid) (\<lambda>signed. returnE (signed, pre, pp))))
      (\<lambda>(signed, _) g. wire_stored s tid signed (gw_store g)) (\<lambda>_ _. True) g"
    if "owns d s i now tid g" for pre pp g
    by (intro wp_seqI wp_mono [OF wp_live_simulate [OF that]] signed) simp_all
  have inserted: "wp (seqE (live_insert i opts tid now)
      (seqE (live_simulate d i tid) (bindE (live_sign d i tid) (\<lambda>signed. returnE (signed, pre, pp)))))
      (\<lambda>(signed, _) g. wire_stored s tid signed (gw_store g)) (\<lambda>_ _. True) g"
    if "held d s i now tid g" "\<not> gw_inserted g" "cap_held i g" for pre pp g
    by (intro wp_seqI wp_mono [OF wp_live_insert [OF that]] simulated [unfolded wp_seqE] simulated) simp_all
  have reserve: "wp (live_reserve d i p tid now) (\<lambda>_ g. held d s i now tid g \<and> \<not> gw_inserted g \<and> cap_held i g)
      (\<lambda>_. held d s i now tid) (gw_start s w')"
    if "offered d p" "staticGuards p i (GuardOptions.make False (eo_confirmedByUser opts)) = Inr ()" for p w'
    by (rule wp_live_reserve) (use that in \<open>auto simp: held_def held_spend_def held_trade_def staticGuards_Inr
          leg_guards_Inr input_leg_ok_def split: if_splits\<close>)
  have "wp (live_prepare d i opts tid now) (\<lambda>(signed, _) g. wire_stored s tid signed (gw_store g)) (\<lambda>_ _. True)
      (gw_start s w)"
    unfolding live_prepare_def
  proof (rule wp_bindI, rule wp_live_guards)
    fix p w'
    assume p: "offered d p" "staticGuards p i \<lparr> go_dryRun = False, go_confirmedByUser = eo_confirmedByUser opts \<rparr> = Inr ()"
    then have r: "wp (live_reserve d i p tid now) (\<lambda>_ g. held d s i now tid g \<and> \<not> gw_inserted g \<and> cap_held i g)
      (\<lambda>_. held d s i now tid) (gw_start s w')" by (intro reserve) (simp_all add: GuardOptions.defs)
    have "wp (seqE (live_reserve d i p tid now) (bindE (live_balances d i) (\<lambda>(pre, prePosition).
       seqE (live_insert i opts tid now) (seqE (live_simulate d i tid)
        (bindE (live_sign d i tid) (\<lambda>signed. returnE (signed, pre, prePosition)))))))
      (\<lambda>(signed, _) g. wire_stored s tid signed (gw_store g)) (\<lambda>_ _. True) (gw_start s w')"
      by (intro wp_seqI wp_mono [OF r] wp_bindI wp_live_balances) (auto intro!: inserted)
    then show "wp (seqE (live_reserve d i p tid now) (bindE (live_balances d i) (\<lambda>(pre, prePosition).
       seqE (live_insert i opts tid now) (seqE (live_simulate d i tid)
        (bindE (live_sign d i tid) (\<lambda>signed. returnE (signed, pre, prePosition)))))))
      (\<lambda>(signed, _) g. wire_stored s tid signed (gw_store g)) (\<lambda>_ _. True) ((gw_start s w)\<lparr> gw_world := w' \<rparr>)"
      by simp
  qed simp
  then show ?thesis
    by (auto simp: wp_def live_prepare_ports split: prod.splits sum.splits)
qed

section \<open>The caps over any history of the gateway\<close>

text \<open>
  One call of the gateway at time \<open>u\<close> or earlier, with a policy whose caps are \<open>caps\<close> whatever
  the rest of it is at the moment.
\<close>

definition gateway_step ::
  "'w GatewayDeps \<Rightarrow> (QuoteBucket \<Rightarrow> SpendCaps) \<Rightarrow> int \<Rightarrow> KStore \<Rightarrow> KStore \<Rightarrow> bool" where
  "gateway_step d caps u s s' \<longleftrightarrow>
     (\<forall>p. offered d p \<longrightarrow> caps_for p = caps) \<and>
     (\<exists>i opts w. gp_now d w \<le> u \<and> fst (snd (execute d i opts (s, w))) = s')"

definition window_mono :: "KStore \<Rightarrow> bool" where
  "window_mono s \<longleftrightarrow> (\<forall>b c c'. c \<le> c' \<longrightarrow> sumActive b c' s \<le> sumActive b c s)"

lemma gateway_step_cases:
  assumes "gateway_step d caps u s s'"
  obtains (same) "\<And>b c. sumActive b c s' = sumActive b c s"
  | (spent) b n now where "now \<le> u" "0 \<le> n"
      "\<And>b' c. sumActive b' c s' = sumActive b' c s + (if b' = b \<and> c \<le> now then n else 0)"
      "sumActive b (now - HOUR_MS) s + n \<le> perHour (caps b)"
      "sumActive b (now - DAY_MS) s + n \<le> perDay (caps b)"
proof -
  from assms obtain i opts w where now: "gp_now d w \<le> u" and ex: "fst (snd (execute d i opts (s, w))) = s'"
    and caps: "\<And>p. offered d p \<Longrightarrow> caps_for p = caps" by (auto simp: gateway_step_def)
  show ?thesis
  proof (cases "eo_dryRun opts")
    case True
    have "\<exists>r s'' w'. execute d i opts (s, w) = (Inr r, (s'', w')) \<and> (s'' = s)"
      by (rule execute_wp) (use True in \<open>auto intro: wp_mono [OF wp_preview]\<close>)
    with ex have "s' = s" by auto
    then show ?thesis by (intro same) simp
  next
    case False
    let ?now = "gp_now d w"
    have "\<exists>r s'' w'. execute d i opts (s, w) = (Inr r, (s'', w')) \<and>
       (s'' = s \<or> (\<forall>b c. sumActive b c s'' = sumActive b c s +
           (if er_state r = TS_confirmed \<and> quoteBucketFor (ta_mint (ti_input i)) = Some b \<and> c \<le> ?now
            then ta_amount (ti_input i) else 0)) \<and>
         (er_state r = TS_confirmed \<and> quoteBucketFor (ta_mint (ti_input i)) \<noteq> None \<longrightarrow> within_caps d s i ?now))"
      (is "\<exists>r s'' w'. _ \<and> ?Q r s''")
    proof (rule execute_wp)
      have "wp (live d i opts) (\<lambda>r g. ?Q r (gw_store g)) (\<lambda>_ _. False) (gw_start s w)"
        by (rule wp_mono [OF wp_live]) (auto simp: outcome_claim paid_def sumActive_def split: if_splits)
      then show "wp (if eo_dryRun opts then preview d i opts else live d i opts)
          (\<lambda>r g. ?Q r (gw_store g)) (\<lambda>_ _. False) (gw_start s w)" using False by simp
    qed
    then obtain r s'' w' where "execute d i opts (s, w) = (Inr r, (s'', w'))" "?Q r s''" by blast
    with ex have q: "?Q r s'" by simp
    show ?thesis
    proof (cases "er_state r = TS_confirmed \<and> quoteBucketFor (ta_mint (ti_input i)) \<noteq> None")
      case True
      then obtain b where b: "quoteBucketFor (ta_mint (ti_input i)) = Some b" by blast
      show ?thesis
      proof (cases "s' = s")
        case True
        then show ?thesis by (intro same) simp
      next
        case ne: False
        then have "within_caps d s i ?now" using q True by blast
        then have "0 \<le> ta_amount (ti_input i)"
          "sumActive b (?now - HOUR_MS) s + ta_amount (ti_input i) \<le> perHour (caps b)"
          "sumActive b (?now - DAY_MS) s + ta_amount (ti_input i) \<le> perDay (caps b)"
          using b caps by (auto simp: within_caps_def)
        moreover have "sumActive b' c s' = sumActive b' c s +
            (if b' = b \<and> c \<le> ?now then ta_amount (ti_input i) else 0)" for b' c
          using q ne True b by auto
        ultimately show ?thesis using now by (intro spent [of ?now "ta_amount (ti_input i)" b])
      qed
    next
      case False
      have "sumActive b c s' = sumActive b c s" for b c using q False by auto
      then show ?thesis by (rule same)
    qed
  qed
qed

lemma window_mono_step: "window_mono s \<Longrightarrow> gateway_step d caps u s s' \<Longrightarrow> window_mono s'"
  by (erule gateway_step_cases) (auto simp: window_mono_def intro: add_increasing2)

lemma window_mono_empty: "window_mono empty_store"
  by (simp add: window_mono_def sumActive_empty)

lemma gateway_spent_step:
  assumes m: "window_mono s" and step: "gateway_step d caps u s s'" and v: "u \<le> v"
    and k: "\<And>now n. sumActive b (now - HOUR_MS) s + n \<le> perHour (caps b) \<Longrightarrow>
        sumActive b (now - DAY_MS) s + n \<le> perDay (caps b) \<Longrightarrow> sumActive b (now - width) s + n \<le> k"
  shows "sumActive b (v - width) s' \<le> max (sumActive b (v - width) s) k"
  using step
proof (cases rule: gateway_step_cases)
  case same
  then show ?thesis by simp
next
  case (spent b' n now)
  show ?thesis
  proof (cases "b = b'")
    case True
    have "sumActive b (v - width) s \<le> sumActive b (now - width) s"
      using m v spent(1) by (simp add: window_mono_def)
    moreover have "sumActive b (now - width) s + n \<le> k" using k spent True by blast
    ultimately show ?thesis using spent(2,3) by auto
  next
    case False
    then show ?thesis using spent(3) by simp
  qed
qed

interpretation gateway_hour: rolling_cap "\<lambda>s v. sumActive b (v - HOUR_MS) s" "\<lambda>_. window_mono"
    "gateway_step d caps" empty_store "perHour (caps b)" for d caps b
  by unfold_locales (auto simp: sumActive_empty intro: window_mono_empty window_mono_step gateway_spent_step)

interpretation gateway_day: rolling_cap "\<lambda>s v. sumActive b (v - DAY_MS) s" "\<lambda>_. window_mono"
    "gateway_step d caps" empty_store "perDay (caps b)" for d caps b
  by unfold_locales (auto simp: sumActive_empty intro: window_mono_empty window_mono_step gateway_spent_step)

text \<open>
  C1: over any sequence of gateway calls, whatever the ports answer or throw and whatever the
  intents are, the spends that count in a bucket never exceed the policy's hourly cap in an hour
  window nor its daily cap in a day window that ends now or later.
\<close>

theorem gateway_caps_hold:
  assumes "timed_run (gateway_step d caps) empty_store t s" and "t \<le> v"
  shows "sumActive b (v - HOUR_MS) s \<le> max 0 (perHour (caps b)) \<and>
         sumActive b (v - DAY_MS) s \<le> max 0 (perDay (caps b))"
  using assms gateway_hour.run_capped gateway_day.run_capped by blast

theorem gateway_caps_hold_witness:
  "sumActive Bucket_sol (2000 - HOUR_MS) (fst (snd (demo_run (\<lambda>_. False)))) \<le> 5000000000 \<and>
   sumActive Bucket_sol (2000 - HOUR_MS) (fst (snd (demo_run (\<lambda>_. False)))) = 400000000"
proof -
  have "gateway_step (demo_deps (\<lambda>_. False)) (caps_for demo_policy) 1000 empty_store (fst (snd (demo_run (\<lambda>_. False))))"
    unfolding gateway_step_def demo_run_def
  proof (intro conjI allI impI exI)
    show "caps_for p = caps_for demo_policy" if "offered (demo_deps (\<lambda>_. False)) p" for p
      using that by (simp add: offered_def demo_deps_def returnE_def)
    show "gp_now (demo_deps (\<lambda>_. False)) (0, []) \<le> 1000" by (simp add: demo_deps_def)
  qed simp
  then have run: "timed_run (gateway_step (demo_deps (\<lambda>_. False)) (caps_for demo_policy)) empty_store 1000
      (fst (snd (demo_run (\<lambda>_. False))))"
    by (rule timed_run.tick [OF timed_run.start order.refl])
  have "sumActive Bucket_sol (2000 - HOUR_MS) (fst (snd (demo_run (\<lambda>_. False)))) \<le> 5000000000"
    using gateway_caps_hold [OF run, of 2000 Bucket_sol] by (simp add: demo_sel)
  moreover have "sumActive Bucket_sol (2000 - HOUR_MS) (fst (snd (demo_run (\<lambda>_. False)))) = 400000000"
    by (simp add: demo_eval)
  ultimately show ?thesis by blast
qed

section \<open>A confirmed spend the store forgets\<close>

text \<open>
  The comment on \<open>#settle\<close> says that a read that fails after the confirmation must not unwind the
  row, \<open>because the transaction is already confirmed on-chain\<close>. That holds for the position read,
  which is caught, but not for \<open>#readPair\<close>, which runs before it: its exception reaches the
  \<open>catch\<close> block of \<open>#live\<close>.
\<close>

text \<open>
  A balance read that fails after the confirmation loses the spend. With balances that fail
  from the third read on, the wire is broadcast and confirmed, yet the call answers
  \<open>rejected\<close>, the trade is \<open>errored\<close>, the reservation no longer counts against any cap, and the
  row is not among those the reconciler looks at.
\<close>

theorem settle_read_failure_forgets_spend:
  "(case demo_run (\<lambda>n. 2 \<le> n) of (r, (s, (_, sent))) \<Rightarrow>
      sent = [''WIRE''] \<and> gp_confirm (demo_deps (\<lambda>n. 2 \<le> n)) = (\<lambda>_ _. returnE Conf_confirmed) \<and>
      map_sum id er_state r = Inr TS_rejected \<and> map tr_state (ks_trades s) = [TS_errored] \<and>
      sumActive Bucket_sol (1000 - DAY_MS) s = 0 \<and> pendingSent s = [])"
  by (simp add: demo_eval pendingSent_def)

end
