(* ===== verification/Reconciler.thy ===== *)
theory Reconciler
  imports TradeGateway
begin

text \<open>
  \<open>src/src/kernel/reconciler.ts\<close>: crash recovery at boot. The confirmer is the only port, so a
  recovery can neither sign nor broadcast; it runs on the store and an outside world of any type.
\<close>

record 'w ReconcilerDeps =
  rd_now :: "'w \<Rightarrow> int"
  rd_confirm :: "string \<Rightarrow> int \<Rightarrow> ('w, kexn, ConfirmStatus) eff"

record ReconcileSummary =
  rs_checked :: nat
  rs_confirmed :: nat
  rs_failed :: nat

type_synonym 'w Rc = "KStore \<times> 'w"

definition rc_now :: "'w ReconcilerDeps \<Rightarrow> ('w Rc, kexn, int) eff" where
  "rc_now d = getE (\<lambda>(_, w). rd_now d w)"

text \<open>\<open>if (trade.reservation_id)\<close> is false for \<open>null\<close> and for the empty text.\<close>

definition truthy :: "string option \<Rightarrow> string option" where
  "truthy x = (case x of Some [] \<Rightarrow> None | y \<Rightarrow> y)"

definition release_of :: "TradeRow \<Rightarrow> ('w Rc, kexn, unit) eff" where
  "release_of t = (case truthy (tr_reservation_id t) of None \<Rightarrow> returnE () | Some r \<Rightarrow> on_fst (releaseReservation r))"

definition consume_of :: "TradeRow \<Rightarrow> ('w Rc, kexn, unit) eff" where
  "consume_of t = (case truthy (tr_reservation_id t) of None \<Rightarrow> returnE () | Some r \<Rightarrow> on_fst (consumeReservation r))"

definition recover_failed :: "'w ReconcilerDeps \<Rightarrow> TradeRow \<Rightarrow> TradeState \<Rightarrow> FailCode \<Rightarrow> ('w Rc, kexn, bool) eff" where
  "recover_failed d t st code =
     seqE (release_of t)
    (bindE (rc_now d) (\<lambda>now.
     seqE (on_fst (failTrade (tr_id t) st code now)) (returnE False)))"

text \<open>One turn of the loop; the result says whether the trade counts as confirmed.\<close>

definition recover_one :: "'w ReconcilerDeps \<Rightarrow> TradeRow \<Rightarrow> ('w Rc, kexn, bool) eff" where
  "recover_one d t =
     (case truthy (tr_signature t) of
        None \<Rightarrow> recover_failed d t TS_errored RECONCILE_NO_SIGNATURE
      | Some sig \<Rightarrow>
          bindE (on_snd (rd_confirm d sig (tr_last_valid_block_height t))) (\<lambda>status.
          if status = Conf_confirmed then
            seqE (consume_of t)
           (bindE (rc_now d) (\<lambda>now.
            seqE (on_fst (setState (tr_id t) TS_confirmed now)) (returnE True)))
          else
            recover_failed d t (if status = Conf_expired then TS_expired else TS_errored)
              (RECONCILE_status status)))"

fun recover_loop :: "'w ReconcilerDeps \<Rightarrow> TradeRow list \<Rightarrow> ('w Rc, kexn, nat \<times> nat) eff" where
  "recover_loop d [] = returnE (0, 0)"
| "recover_loop d (t # ts) =
     bindE (recover_one d t) (\<lambda>ok.
     bindE (recover_loop d ts) (\<lambda>(c, f).
     returnE (if ok then (Suc c, f) else (c, Suc f))))"

definition recover :: "'w ReconcilerDeps \<Rightarrow> ('w Rc, kexn, ReconcileSummary) eff" where
  "recover d =
     bindE (getE (\<lambda>(s, _). pendingSent s)) (\<lambda>pending.
     bindE (recover_loop d pending) (\<lambda>(c, f).
     returnE \<lparr> rs_checked = length pending, rs_confirmed = c, rs_failed = f \<rparr>))"

section \<open>What one turn does\<close>

lemma wp_on_snd_any:
  "(\<And>x v. Q x (s, v)) \<Longrightarrow> (\<And>e v. E e (s, v)) \<Longrightarrow> wp (on_snd m) Q E (s, v)"
  by (auto simp: wp_def on_snd_def split: prod.split sum.split)

text \<open>
  A turn sets the state of the rows with the trade's id to a terminal one; the other rows, the
  journal and the idempotency keys stay.
\<close>

definition turned :: "TradeRow \<Rightarrow> KStore \<Rightarrow> KStore \<Rightarrow> bool" where
  "turned t s s' \<longleftrightarrow>
     pendingSent s' = filter (\<lambda>r. tr_id r \<noteq> tr_id t) (pendingSent s) \<and>
     map tr_id (ks_trades s') = map tr_id (ks_trades s) \<and>
     filter (\<lambda>r. tr_id r \<noteq> tr_id t) (ks_trades s') = filter (\<lambda>r. tr_id r \<noteq> tr_id t) (ks_trades s) \<and>
     ks_journal s' = ks_journal s \<and> ks_idempotency s' = ks_idempotency s \<and>
     map sp_id (ks_spends s') = map sp_id (ks_spends s)"

lemma pending_update:
  assumes "\<And>r. tr_id (f r) = tr_id r" and "\<And>r. tr_state (f r) \<noteq> TS_sent"
  shows "filter (\<lambda>r. tr_state r = TS_sent) (update_where (\<lambda>r. tr_id r = i) f rows) =
           filter (\<lambda>r. tr_id r \<noteq> i) (filter (\<lambda>r. tr_state r = TS_sent) rows)"
    and "filter (\<lambda>r. tr_id r \<noteq> i) (update_where (\<lambda>r. tr_id r = i) f rows) = filter (\<lambda>r. tr_id r \<noteq> i) rows"
  by (induction rows) (auto simp: assms)

lemma wp_recover_one:
  "wp (recover_one d t) (\<lambda>_ (s', _). turned t s s') (\<lambda>_ (s', _). s' = s) (s, w)"
  by (auto simp: recover_one_def recover_failed_def release_of_def consume_of_def rc_now_def wp_simps
      failTrade_def setState_def wp_update_trade turned_def pendingSent_def pending_update
      intro!: wp_on_snd_any split: option.split)

text \<open>The same for a list of trades: \<open>c\<close> of them confirmed and \<open>f\<close> failed.\<close>

definition recovered :: "TradeRow list \<Rightarrow> KStore \<Rightarrow> nat \<times> nat \<Rightarrow> KStore \<Rightarrow> bool" where
  "recovered ts s cf s' \<longleftrightarrow>
     fst cf + snd cf = length ts \<and>
     pendingSent s' = filter (\<lambda>r. tr_id r \<notin> tr_id ` set ts) (pendingSent s) \<and>
     map tr_id (ks_trades s') = map tr_id (ks_trades s) \<and>
     filter (\<lambda>r. tr_id r \<notin> tr_id ` set ts) (ks_trades s') = filter (\<lambda>r. tr_id r \<notin> tr_id ` set ts) (ks_trades s) \<and>
     ks_journal s' = ks_journal s \<and> ks_idempotency s' = ks_idempotency s"

lemma filter_Cons_ids:
  "filter (\<lambda>r. tr_id r \<notin> tr_id ` set (t # ts)) rows =
     filter (\<lambda>r. tr_id r \<notin> tr_id ` set ts) (filter (\<lambda>r. tr_id r \<noteq> tr_id t) rows)"
  by (induction rows) auto

lemma filter_ids_commute:
  "filter (\<lambda>r. tr_id r \<notin> tr_id ` set ts) (filter (\<lambda>r. tr_id r \<noteq> tr_id t) rows) =
     filter (\<lambda>r. tr_id r \<noteq> tr_id t) (filter (\<lambda>r. tr_id r \<notin> tr_id ` set ts) rows)"
  by (induction rows) auto

lemma recovered_Cons:
  assumes "turned t s s1" and "recovered ts s1 (c, f) s2"
  shows "recovered (t # ts) s (if ok then (Suc c, f) else (c, Suc f)) s2"
proof -
  have "filter (\<lambda>r. tr_id r \<notin> tr_id ` set (t # ts)) (ks_trades s2) =
      filter (\<lambda>r. tr_id r \<noteq> tr_id t) (filter (\<lambda>r. tr_id r \<notin> tr_id ` set ts) (ks_trades s2))"
    by (simp only: filter_Cons_ids filter_ids_commute)
  also have "\<dots> = filter (\<lambda>r. tr_id r \<notin> tr_id ` set ts) (filter (\<lambda>r. tr_id r \<noteq> tr_id t) (ks_trades s1))"
    using assms(2) by (simp only: recovered_def filter_ids_commute)
  also have "\<dots> = filter (\<lambda>r. tr_id r \<notin> tr_id ` set (t # ts)) (ks_trades s)"
    using assms(1) by (simp only: turned_def filter_Cons_ids)
  finally show ?thesis
    using assms by (simp add: recovered_def turned_def filter_Cons_ids del: filter_filter set_simps image_insert)
qed

lemma wp_recover_loop:
  "wp (recover_loop d ts) (\<lambda>cf (s', _). recovered ts s cf s') (\<lambda>_ _. True) (s, w)"
proof (induction ts arbitrary: s w)
  case Nil
  then show ?case by (simp add: wp_simps recovered_def)
next
  case (Cons t ts)
  have rest: "wp (bindE (recover_loop d ts) (\<lambda>(c, f). returnE (if ok then (Suc c, f) else (c, Suc f))))
       (\<lambda>cf (s', _). recovered (t # ts) s cf s') (\<lambda>_ _. True) (s1, w1)" if "turned t s s1" for ok s1 w1
    by (rule wp_bindI, rule wp_mono [OF Cons.IH]) (use recovered_Cons [OF that, where ok = ok] in \<open>auto simp: wp_returnE split: if_splits\<close>)
  show ?case
    unfolding recover_loop.simps by (rule wp_bindI, rule wp_mono [OF wp_recover_one]) (auto intro: rest)
qed

text \<open>
  A recovery that returns has resolved every trade that was left in \<open>sent\<close>: none is left, each
  was counted once as confirmed or failed, every other trade row is untouched, and so are the
  journal and the idempotency keys.
\<close>

theorem recover_resolves:
  "(case recover d (s, w) of
      (Inl _, _) \<Rightarrow> True
    | (Inr r, (s', _)) \<Rightarrow>
        pendingSent s' = [] \<and> rs_checked r = length (pendingSent s) \<and>
        rs_confirmed r + rs_failed r = rs_checked r \<and>
        map tr_id (ks_trades s') = map tr_id (ks_trades s) \<and>
        filter (\<lambda>r. tr_id r \<notin> tr_id ` set (pendingSent s)) (ks_trades s') =
          filter (\<lambda>r. tr_id r \<notin> tr_id ` set (pendingSent s)) (ks_trades s) \<and>
        ks_journal s' = ks_journal s \<and> ks_idempotency s' = ks_idempotency s)"
proof -
  have "wp (recover d) (\<lambda>r (s', _). rs_checked r = length (pendingSent s) \<and>
          recovered (pendingSent s) s (rs_confirmed r, rs_failed r) s') (\<lambda>_ _. True) (s, w)"
    unfolding recover_def wp_bindE wp_getE split_beta
    by (simp, rule wp_mono [OF wp_recover_loop]) (auto simp: wp_returnE)
  then show ?thesis
    by (auto simp: wp_def recovered_def split: prod.splits sum.splits)
qed

section \<open>A crash between broadcast and confirmation\<close>











end
