(* ===== verification/ProcessLock.thy ===== *)
theory ProcessLock
  imports Prelude
begin

text \<open>
  \<open>src/src/kernel/lock.ts\<close>: the lock file that is to keep one engine per home directory. Every
  process runs \<open>acquire\<close> one system call at a time, so a schedule of processes is an interleaving
  of their calls. A file is an inode; its text is modelled by the pid \<open>#readPid\<close> parses from it
  (\<open>None\<close>: unreadable, empty or not a positive integer). Errors of the file system other than
  \<open>EEXIST\<close> and \<open>ENOENT\<close> are not modelled.
\<close>

section \<open>System calls\<close>

text \<open>Where a process is in its \<open>acquire\<close>; the flag of \<open>Ph_open\<close> says that it is the retry.\<close>

datatype LockPhase =
    Ph_idle | Ph_open bool | Ph_write nat | Ph_exists | Ph_remove | Ph_held nat
  | Ph_conflict int | Ph_eexist

record LockState =
  lk_inode :: "nat option"
  lk_text :: "nat \<Rightarrow> int option"
  lk_next :: nat
  lk_phase :: "int \<Rightarrow> LockPhase"
  lk_alive :: "int \<Rightarrow> bool"

definition set_phase :: "int \<Rightarrow> LockPhase \<Rightarrow> LockState \<Rightarrow> LockState" where
  "set_phase p ph s = s\<lparr> lk_phase := (lk_phase s)(p := ph) \<rparr>"

text \<open>\<open>openSync(path, "wx")\<close> and the \<open>writeSync\<close> that follows it.\<close>

definition lock_create :: "int \<Rightarrow> bool \<Rightarrow> LockState \<Rightarrow> LockState" where
  "lock_create p retry s =
     (case lk_inode s of
        None \<Rightarrow> set_phase p (Ph_write (lk_next s))
          (s\<lparr> lk_inode := Some (lk_next s), lk_text := (lk_text s)(lk_next s := None), lk_next := Suc (lk_next s) \<rparr>)
      | Some _ \<Rightarrow> set_phase p (if retry then Ph_eexist else Ph_exists) s)"

definition lock_readPid :: "LockState \<Rightarrow> int option" where
  "lock_readPid s = (case lk_inode s of None \<Rightarrow> None | Some n \<Rightarrow>
     (case lk_text s n of None \<Rightarrow> None | Some pid \<Rightarrow> if pid > 0 then Some pid else None))"

definition lock_inspect :: "int \<Rightarrow> LockState \<Rightarrow> LockState" where
  "lock_inspect p s =
     (case lock_readPid s of
        None \<Rightarrow> set_phase p Ph_remove s
      | Some holder \<Rightarrow> if lk_alive s holder then set_phase p (Ph_conflict holder) s else set_phase p Ph_remove s)"

definition lock_syscall :: "int \<Rightarrow> LockState \<Rightarrow> LockState" where
  "lock_syscall p s =
     (case lk_phase s p of
        Ph_open retry \<Rightarrow> lock_create p retry s
      | Ph_write n \<Rightarrow> set_phase p (Ph_held n) (s\<lparr> lk_text := (lk_text s)(n := Some p) \<rparr>)
      | Ph_exists \<Rightarrow> lock_inspect p s
      | Ph_remove \<Rightarrow> set_phase p (Ph_open True) (s\<lparr> lk_inode := None \<rparr>)
      | _ \<Rightarrow> s)"

definition lock_begin :: "int \<Rightarrow> LockState \<Rightarrow> LockState" where
  "lock_begin p s = set_phase p (Ph_open False) s"

text \<open>\<open>release\<close> closes the descriptor and removes the path, whoever created it.\<close>

definition lock_release :: "int \<Rightarrow> LockState \<Rightarrow> LockState" where
  "lock_release p s = set_phase p Ph_idle (s\<lparr> lk_inode := None \<rparr>)"

definition lock_crash :: "int \<Rightarrow> LockState \<Rightarrow> LockState" where
  "lock_crash p s = s\<lparr> lk_alive := (lk_alive s)(p := False) \<rparr>"

text \<open>\<open>acquire\<close> without interference takes at most five calls.\<close>

definition lock_acquire :: "int \<Rightarrow> LockState \<Rightarrow> LockState" where
  "lock_acquire p s = (lock_syscall p ^^ 5) (lock_begin p s)"

definition lock_holds :: "LockState \<Rightarrow> int \<Rightarrow> bool" where
  "lock_holds s p \<longleftrightarrow> lk_alive s p \<and> (case lk_phase s p of Ph_held _ \<Rightarrow> True | _ \<Rightarrow> False)"

section \<open>Histories without interleaving\<close>

text \<open>
  Whole calls by live processes with positive pids, one after the other: a process acquires, a
  holder releases, a process dies. A dead process does not come back under its pid.
\<close>

inductive lock_serial :: "LockState \<Rightarrow> LockState \<Rightarrow> bool" where
  serial_acquire: "lk_alive s p \<Longrightarrow> 0 < p \<Longrightarrow> \<not> lock_holds s p \<Longrightarrow> lock_serial s (lock_acquire p s)"
| serial_release: "lock_holds s p \<Longrightarrow> lock_serial s (lock_release p s)"
| serial_crash: "lock_serial s (lock_crash p s)"

text \<open>Every live holder's inode is the file, and its text is the holder's pid.\<close>

definition lock_inv :: "LockState \<Rightarrow> bool" where
  "lock_inv s \<longleftrightarrow> (\<forall>p n. lk_alive s p \<longrightarrow> lk_phase s p = Ph_held n \<longrightarrow>
     0 < p \<and> lk_inode s = Some n \<and> lk_text s n = Some p)"

lemmas lock_defs = lock_syscall_def lock_begin_def lock_create_def lock_inspect_def lock_readPid_def set_phase_def

lemma lock_inv_free: "lock_inv s \<Longrightarrow> lk_inode s = None \<Longrightarrow> lk_alive s q \<Longrightarrow> lk_phase s q \<noteq> Ph_held n"
  by (auto simp: lock_inv_def)

text \<open>The outcome of a whole \<open>acquire\<close>: the lock was free, stale, or held by a live process.\<close>

lemma lock_acquire_eq:
  "lock_acquire p s =
     (case lk_inode s of
        None \<Rightarrow> s\<lparr> lk_inode := Some (lk_next s), lk_text := (lk_text s)(lk_next s := Some p),
                  lk_next := Suc (lk_next s), lk_phase := (lk_phase s)(p := Ph_held (lk_next s)) \<rparr>
      | Some n \<Rightarrow>
          (case lock_readPid s of
             Some holder \<Rightarrow>
               if lk_alive s holder then s\<lparr> lk_phase := (lk_phase s)(p := Ph_conflict holder) \<rparr>
               else s\<lparr> lk_inode := Some (lk_next s), lk_text := (lk_text s)(lk_next s := Some p),
                  lk_next := Suc (lk_next s), lk_phase := (lk_phase s)(p := Ph_held (lk_next s)) \<rparr>
           | None \<Rightarrow> s\<lparr> lk_inode := Some (lk_next s), lk_text := (lk_text s)(lk_next s := Some p),
                  lk_next := Suc (lk_next s), lk_phase := (lk_phase s)(p := Ph_held (lk_next s)) \<rparr>))"
proof -
  have five: "(f ^^ 5) x = f (f (f (f (f x))))" for f :: "LockState \<Rightarrow> LockState" and x
    by (simp add: numeral_eq_Suc)
  show ?thesis
  proof (cases "lk_inode s")
    case None
    then show ?thesis by (simp add: lock_acquire_def five lock_defs)
  next
    case (Some n)
    show ?thesis
    proof (cases "lock_readPid s")
      case None
      with Some have "lk_text s n = None \<or> (\<exists>k. lk_text s n = Some k \<and> \<not> 0 < k)"
        by (auto simp: lock_readPid_def split: option.splits if_splits)
      with Some None show ?thesis
        by (elim disjE) (auto simp: lock_acquire_def five lock_defs)
    next
      case holder: (Some q)
      with Some have "lk_text s n = Some q" "0 < q"
        by (auto simp: lock_readPid_def split: option.splits if_splits)
      with Some holder show ?thesis by (simp add: lock_acquire_def five lock_defs)
    qed
  qed
qed

lemma lock_inv_holder_pid:
  "lock_inv s \<Longrightarrow> lk_alive s q \<Longrightarrow> lk_phase s q = Ph_held m \<Longrightarrow> lock_readPid s = Some q"
  by (simp add: lock_inv_def lock_readPid_def)

lemma lock_inv_acquire:
  assumes inv: "lock_inv s" and p: "0 < p" "\<not> lock_holds s p"
  shows "lock_inv (lock_acquire p s)"
proof (cases "\<exists>q m. lk_alive s q \<and> lk_phase s q = Ph_held m")
  case True
  then obtain q m where q: "lk_alive s q" "lk_phase s q = Ph_held m" by blast
  then have "lk_inode s = Some m" "lock_readPid s = Some q"
    using inv by (auto simp: lock_inv_def lock_readPid_def)
  then have "lock_acquire p s = s\<lparr> lk_phase := (lk_phase s)(p := Ph_conflict q) \<rparr>"
    using q by (simp add: lock_acquire_eq)
  then show ?thesis using inv by (simp add: lock_inv_def)
next
  case False
  then have "\<And>q m. lk_alive s q \<Longrightarrow> lk_phase s q \<noteq> Ph_held m" by blast
  then show ?thesis
    using p by (auto simp: lock_acquire_eq lock_inv_def split: option.split)
qed

lemma lock_inv_serial: "lock_serial s s' \<Longrightarrow> lock_inv s \<Longrightarrow> lock_inv s'"
proof (induction rule: lock_serial.induct)
  case (serial_acquire s p)
  then show ?case by (intro lock_inv_acquire) auto
next
  case (serial_release s p)
  then obtain n where p: "lk_alive s p" "lk_phase s p = Ph_held n"
    by (auto simp: lock_holds_def split: LockPhase.splits)
  have "q = p" if "lk_alive s q" "lk_phase s q = Ph_held m" for q m
    using p that serial_release.prems lock_inv_holder_pid by (metis option.inject)
  then show ?case
    by (auto simp: lock_inv_def lock_release_def set_phase_def)
next
  case (serial_crash s p)
  then show ?case by (auto simp: lock_inv_def lock_crash_def)
qed

text \<open>No file, or a file some earlier engine left behind, and no process in \<open>acquire\<close>.\<close>

definition lock_boot :: "int option option \<Rightarrow> (int \<Rightarrow> bool) \<Rightarrow> LockState" where
  "lock_boot file alive =
     \<lparr> lk_inode = (case file of None \<Rightarrow> None | Some _ \<Rightarrow> Some 0),
       lk_text = (\<lambda>_. case file of None \<Rightarrow> None | Some t \<Rightarrow> t),
       lk_next = 1, lk_phase = (\<lambda>_. Ph_idle), lk_alive = alive \<rparr>"

text \<open>
  Whatever file an earlier engine left, as long as calls of \<open>acquire\<close> do not interleave, only
  holders release and pids are not reused, at most one live process holds the lock at any time.
\<close>

theorem lock_exclusive_serial:
  assumes "lock_serial\<^sup>*\<^sup>* (lock_boot file alive) s" and "lock_holds s p" and "lock_holds s q"
  shows "p = q"
proof -
  have inv: "lock_inv s"
    using assms(1)
  proof (induction rule: rtranclp_induct)
    case base
    show ?case by (simp add: lock_inv_def lock_boot_def)
  next
    case (step s s')
    then show ?case by (blast intro: lock_inv_serial)
  qed
  obtain n m where "lk_alive s p" "lk_phase s p = Ph_held n" "lk_alive s q" "lk_phase s q = Ph_held m"
    using assms(2,3) by (auto simp: lock_holds_def split: LockPhase.splits)
  then show ?thesis using lock_inv_holder_pid [OF inv] by (metis option.inject)
qed

definition two_engines :: "int \<Rightarrow> bool" where
  "two_engines p \<longleftrightarrow> p = 2 \<or> p = 3"

definition stale_file :: LockState where
  "stale_file = lock_boot (Some (Some 1)) two_engines"

theorem lock_exclusive_serial_witness:
  "lock_holds (lock_acquire 3 (lock_acquire 2 stale_file)) 2 \<and>
   (lock_holds (lock_acquire 3 (lock_acquire 2 stale_file)) 3 \<longleftrightarrow> (3::int) = 2)"
proof -
  let ?s = "lock_acquire 3 (lock_acquire 2 stale_file)"
  have "lock_serial stale_file (lock_acquire 2 stale_file)"
    by (rule serial_acquire) (simp_all add: stale_file_def lock_boot_def two_engines_def lock_holds_def)
  moreover have "lock_serial (lock_acquire 2 stale_file) ?s"
    by (rule serial_acquire) (simp_all add: lock_acquire_eq stale_file_def lock_boot_def two_engines_def
        lock_holds_def lock_readPid_def)
  ultimately have run: "lock_serial\<^sup>*\<^sup>* (lock_boot (Some (Some 1)) two_engines) ?s"
    by (simp add: stale_file_def)
  have two: "lock_holds ?s 2"
    by (simp add: lock_acquire_eq stale_file_def lock_boot_def two_engines_def lock_holds_def lock_readPid_def)
  then show ?thesis using lock_exclusive_serial [OF run, of 3 2] by auto
qed

section \<open>The race of two boots\<close>

text \<open>
  With a stale file, two engines that boot at the same time can both take the lock: each reads
  the dead pid, the first removes the file and creates its own, and the second removes that one.
  The lock does not enforce the single writer its comment promises.
\<close>

theorem lock_race_two_holders:
  "(let s = fold lock_syscall [2, 3, 2, 3, 2, 2, 2, 3, 3, 3] (lock_begin 3 (lock_begin 2 stale_file))
    in lock_holds s 2 \<and> lock_holds s 3)"
  by (simp add: Let_def stale_file_def lock_boot_def two_engines_def lock_holds_def lock_defs)

text \<open>
  A lock object that lost the race deletes the winner's file when it is released: after the
  conflict of engine 3 and its \<open>release\<close>, engine 2 still holds the lock and engine 3 acquires it.
\<close>

theorem lock_loser_release_steals:
  "(let s = lock_acquire 3 (lock_release 3 (lock_acquire 3 (lock_acquire 2 stale_file)))
    in lk_phase (lock_acquire 3 (lock_acquire 2 stale_file)) 3 = Ph_conflict 2 \<and> lock_holds s 2 \<and> lock_holds s 3)"
  by (simp add: Let_def lock_acquire_eq lock_release_def set_phase_def stale_file_def lock_boot_def
      two_engines_def lock_holds_def lock_readPid_def)

end
