(* ===== verification/Json.thy ===== *)
theory Json
  imports Money "HOL-Library.Multiset" "HOL-Library.List_Lexorder" "HOL-Library.Char_ord"
begin

text \<open>
  JSON values and the canonical text the approval engine and the control policy hash:
  \<open>canonicalSerialize\<close> of \<open>src/src/execution/approvals/index.ts\<close> and \<open>canonical\<close> of
  \<open>src/src/execution/control/index.ts\<close>. Strings are lists of code units below 256. A number is an
  integer of the safe range, whose text is its decimal expansion; other doubles are not modelled.
  The value of an object is the list of its own properties; HOL values are finite trees, so the
  cycle check of the code never fires.
\<close>

section \<open>Quoted strings\<close>

definition hex_char :: "nat \<Rightarrow> char" where
  "hex_char n = (if n < 10 then char_of (48 + n) else char_of (87 + n))"

definition hex_val :: "char \<Rightarrow> nat" where
  "hex_val c = (if of_char c < (58::nat) then of_char c - 48 else of_char c - 87)"

lemma hex_val_char: "n < 16 \<Longrightarrow> hex_val (hex_char n) = n"
  by (simp add: hex_val_def hex_char_def)

text \<open>The escapes of \<open>JSON.stringify\<close>.\<close>

definition json_escape :: "char \<Rightarrow> string" where
  "json_escape c =
     (if c = CHR 0x22 then [CHR 0x5C, CHR 0x22]
      else if c = CHR 0x5C then [CHR 0x5C, CHR 0x5C]
      else if c = CHR 0x08 then [CHR 0x5C, CHR ''b'']
      else if c = CHR 0x0C then [CHR 0x5C, CHR ''f'']
      else if c = CHR 0x0A then [CHR 0x5C, CHR ''n'']
      else if c = CHR 0x0D then [CHR 0x5C, CHR ''r'']
      else if c = CHR 0x09 then [CHR 0x5C, CHR ''t'']
      else if (of_char c :: nat) < 32
      then [CHR 0x5C, CHR ''u'', CHR ''0'', CHR ''0'', hex_char (of_char c div 16), hex_char (of_char c mod 16)]
      else [c])"

definition json_quote :: "string \<Rightarrow> string" where
  "json_quote s = CHR 0x22 # concat (map json_escape s) @ [CHR 0x22]"

text \<open>The reader of one escaped character, which makes the escapes uniquely decodable.\<close>

fun json_unescape :: "string \<Rightarrow> (char \<times> string) option" where
  "json_unescape [] = None"
| "json_unescape (c # s) =
     (if c \<noteq> CHR 0x5C then Some (c, s)
      else case s of
        [] \<Rightarrow> None
      | e # t \<Rightarrow>
          if e = CHR ''b'' then Some (CHR 0x08, t)
          else if e = CHR ''f'' then Some (CHR 0x0C, t)
          else if e = CHR ''n'' then Some (CHR 0x0A, t)
          else if e = CHR ''r'' then Some (CHR 0x0D, t)
          else if e = CHR ''t'' then Some (CHR 0x09, t)
          else if e = CHR ''u'' then
            (case t of a # b # h # l # u \<Rightarrow> Some (char_of (16 * hex_val h + hex_val l), u) | _ \<Rightarrow> None)
          else Some (e, t))"

lemma json_unescape_escape: "json_unescape (json_escape c @ s) = Some (c, s)"
proof -
  have "char_of (16 * hex_val (hex_char (of_char c div 16)) + hex_val (hex_char (of_char c mod 16))) = c"
    if "(of_char c :: nat) < 32"
    using that by (simp add: hex_val_char)
  then show ?thesis by (simp add: json_escape_def)
qed

lemma json_escape_quote: "json_escape c @ s \<noteq> CHR 0x22 # t"
  by (simp add: json_escape_def)

lemma escaped_prefix:
  "concat (map json_escape s) @ CHR 0x22 # r = concat (map json_escape t) @ CHR 0x22 # r' \<Longrightarrow> s = t \<and> r = r'"
proof (induction s arbitrary: t)
  case Nil
  show ?case
  proof (cases t)
    case (Cons d u)
    with Nil have "json_escape d @ concat (map json_escape u) @ CHR 0x22 # r' = CHR 0x22 # r" by simp
    then show ?thesis by (simp add: json_escape_quote)
  qed (use Nil in simp)
next
  case (Cons c s)
  then obtain d u where t: "t = d # u" by (cases t) (auto simp: json_escape_quote)
  have "json_escape c @ concat (map json_escape s) @ CHR 0x22 # r =
        json_escape d @ concat (map json_escape u) @ CHR 0x22 # r'"
    using Cons.prems t by simp
  then have "Some (c, concat (map json_escape s) @ CHR 0x22 # r) =
        Some (d, concat (map json_escape u) @ CHR 0x22 # r')"
    by (metis json_unescape_escape)
  then have "c = d" "concat (map json_escape s) @ CHR 0x22 # r = concat (map json_escape u) @ CHR 0x22 # r'"
    by simp_all
  with Cons.IH t show ?case by blast
qed

lemma json_quote_prefix: "json_quote s @ r = json_quote t @ r' \<Longrightarrow> s = t \<and> r = r'"
  by (rule escaped_prefix) (simp add: json_quote_def)

section \<open>Numbers\<close>

definition show_int :: "int \<Rightarrow> string" where
  "show_int n = (if n < 0 then CHR ''-'' # show_digits (nat (- n)) else show_digits (nat n))"

lemma digits_prefix:
  assumes "list_all is_digit s" "list_all is_digit t" "s @ r = t @ r'"
    and "r = [] \<or> \<not> is_digit (hd r)" "r' = [] \<or> \<not> is_digit (hd r')"
  shows "s = t \<and> r = r'"
  using assms
proof (induction s arbitrary: t)
  case Nil
  then show ?case by (cases t) auto
next
  case (Cons c s)
  then show ?case by (cases t) auto
qed

lemma show_digits_inj: "show_digits m = show_digits n \<Longrightarrow> m = n"
  by (metis parse_show_digits)

lemma show_digits_hd: "is_digit (hd (show_digits n))"
  using show_digits_digits [of n] by (cases "show_digits n") auto

lemma not_digit_minus [simp]: "\<not> is_digit CHR ''-''"
  by (simp add: is_digit_def)

lemma show_int_prefix:
  assumes "show_int m @ r = show_int n @ r'"
    and "r = [] \<or> \<not> is_digit (hd r)" "r' = [] \<or> \<not> is_digit (hd r')"
  shows "m = n \<and> r = r'"
proof -
  have sign: "m < 0 \<longleftrightarrow> n < 0"
    using assms(1) show_digits_hd [of "nat m"] show_digits_hd [of "nat n"]
    by (auto simp: show_int_def split: if_splits)
      (metis append_Cons hd_append2 list.sel(1) not_digit_minus show_digits_nonempty)+
  then have "show_digits (nat \<bar>m\<bar>) @ r = show_digits (nat \<bar>n\<bar>) @ r'"
    using assms(1) by (auto simp: show_int_def split: if_splits)
  then have "show_digits (nat \<bar>m\<bar>) = show_digits (nat \<bar>n\<bar>) \<and> r = r'"
    using assms(2,3) show_digits_digits by (intro digits_prefix) auto
  then have "nat \<bar>m\<bar> = nat \<bar>n\<bar>" "r = r'" by (auto dest: show_digits_inj)
  with sign show ?thesis by (auto split: if_splits)
qed

lemma show_int_inj [simp]: "show_int m = show_int n \<longleftrightarrow> m = n"
  using show_int_prefix [of m "[]" n "[]"] by auto

lemma digit_escape: "is_digit c \<Longrightarrow> json_escape c = [c]"
proof -
  assume d: "is_digit c"
  then have "c \<notin> {CHR 0x22, CHR 0x5C, CHR 0x08, CHR 0x0C, CHR 0x0A, CHR 0x0D, CHR 0x09}"
    by (auto simp: is_digit_def)
  moreover have "\<not> (of_char c :: nat) < 32" using d by (simp add: is_digit_def)
  ultimately show ?thesis by (simp add: json_escape_def)
qed

lemma digits_escape: "list_all is_digit s \<Longrightarrow> concat (map json_escape s) = s"
  by (induction s) (simp_all add: digit_escape)

lemma json_quote_int: "json_quote (show_int n) = CHR 0x22 # show_int n @ [CHR 0x22]"
proof -
  have "json_escape CHR ''-'' = ''-''" by (simp add: json_escape_def)
  then show ?thesis using show_digits_digits by (simp add: json_quote_def show_int_def digits_escape)
qed

section \<open>Values and their text\<close>

datatype json =
    J_null | J_bool bool | J_num int | J_str string | J_arr "json list" | J_obj "(string \<times> json) list"

fun join :: "string list \<Rightarrow> string" where
  "join [] = []"
| "join [s] = s"
| "join (s # ss) = s @ CHR '','' # join ss"

lemma size_member_field [termination_simp]:
  "(k, v) \<in> set fs \<Longrightarrow> size v < Suc (size_list (size_prod (\<lambda>_. 0) size) fs)"
  by (induction fs) auto

fun json_text :: "json \<Rightarrow> string" where
  "json_text J_null = ''null''"
| "json_text (J_bool b) = (if b then ''true'' else ''false'')"
| "json_text (J_num n) = show_int n"
| "json_text (J_str s) = json_quote s"
| "json_text (J_arr xs) = CHR ''['' # join (map json_text xs) @ '']''"
| "json_text (J_obj fs) =
     CHR ''{'' # join (map (\<lambda>(k, v). json_quote k @ CHR '':'' # json_text v) fs) @ ''}''"

text \<open>The properties of every object in the order of \<open>Object.keys(v).sort()\<close>.\<close>

fun json_sort :: "json \<Rightarrow> json" where
  "json_sort (J_arr xs) = J_arr (map json_sort xs)"
| "json_sort (J_obj fs) = J_obj (sort_key fst (map (\<lambda>(k, v). (k, json_sort v)) fs))"
| "json_sort v = v"

definition canonicalSerialize :: "json \<Rightarrow> string" where
  "canonicalSerialize v = json_text (json_sort v)"

section \<open>The text determines the value\<close>

text \<open>What may follow a value inside a text: nothing, a comma or a closing bracket.\<close>

definition json_delim :: "string \<Rightarrow> bool" where
  "json_delim r \<longleftrightarrow> (case r of [] \<Rightarrow> True | c # _ \<Rightarrow> c = CHR '','' \<or> c = CHR '']'' \<or> c = CHR ''}'')"

lemma json_delim_digit: "json_delim r \<Longrightarrow> r = [] \<or> \<not> is_digit (hd r)"
  by (cases r) (auto simp: json_delim_def is_digit_def)

lemma json_delim_simps [simp]:
  "json_delim []" "json_delim (CHR '','' # r)" "json_delim (CHR '']'' # r)" "json_delim (CHR ''}'' # r)"
  by (simp_all add: json_delim_def)

text \<open>Joined texts can be split again when every element can and none starts with a delimiter.\<close>

lemma join_prefix:
  assumes split: "\<And>x y r r'. x \<in> set xs \<Longrightarrow> f x @ r = f y @ r' \<Longrightarrow> json_delim r \<Longrightarrow> json_delim r' \<Longrightarrow> x = y \<and> r = r'"
    and start: "\<And>x. f x \<noteq> [] \<and> \<not> json_delim (f x)"
    and eq: "join (map f xs) @ c # r = join (map f ys) @ c # r'"
    and c: "c = CHR '']'' \<or> c = CHR ''}''"
  shows "xs = ys \<and> r = r'"
  using split eq
proof (induction xs arbitrary: ys)
  case Nil
  show ?case
  proof (cases ys)
    case (Cons y ys')
    have "\<exists>t. join (map f (y # ys')) = f y @ t" by (cases ys') simp_all
    then obtain t where t: "join (map f (y # ys')) = f y @ t" by blast
    obtain h u where "f y = h # u" "h \<noteq> c" using start [of y] c by (cases "f y") (auto simp: json_delim_def)
    then show ?thesis using Nil.prems(2) Cons t by simp
  qed (use Nil in simp)
next
  case (Cons x xs)
  have tail: "\<exists>t. join (map f (z # zs)) @ c # q = f z @ t @ c # q \<and> json_delim (t @ c # q) \<and>
      (t = [] \<longleftrightarrow> zs = []) \<and> (zs \<noteq> [] \<longrightarrow> t = CHR '','' # join (map f zs))" for z zs q
    using c by (cases zs) auto
  obtain t where t: "join (map f (x # xs)) @ c # r = f x @ t @ c # r" "json_delim (t @ c # r)"
    "t = [] \<longleftrightarrow> xs = []" "xs \<noteq> [] \<longrightarrow> t = CHR '','' # join (map f xs)" using tail by blast
  obtain y ys' where ys: "ys = y # ys'"
  proof (cases ys)
    case Nil
    obtain h u where "f x = h # u" "h \<noteq> c" using start [of x] c by (cases "f x") (auto simp: json_delim_def)
    then show ?thesis using Cons.prems(2) Nil t(1) by simp
  qed
  obtain t' where t': "join (map f (y # ys')) @ c # r' = f y @ t' @ c # r'" "json_delim (t' @ c # r')"
    "t' = [] \<longleftrightarrow> ys' = []" "ys' \<noteq> [] \<longrightarrow> t' = CHR '','' # join (map f ys')" using tail by blast
  have "f x @ t @ c # r = f y @ t' @ c # r'" using Cons.prems(2) t(1) t'(1) ys by simp
  then have xy: "x = y" and rest: "t @ c # r = t' @ c # r'"
    using Cons.prems(1) [of x _ y] t(2) t'(2) by auto
  show ?case
  proof (cases "xs = []")
    case True
    then have "c # r = t' @ c # r'" using t(3) rest by simp
    then have "t' = []" using t'(3,4) c by (cases "ys' = []") auto
    then show ?thesis using True t(3) t'(3) rest xy ys by simp
  next
    case False
    then have "CHR '','' # join (map f xs) @ c # r = t' @ c # r'" using t(4) rest by simp
    then have "t' \<noteq> []" using c by (cases t') auto
    then have "join (map f xs) @ c # r = join (map f ys') @ c # r'"
      using t'(3,4) t(4) False rest by simp
    then show ?thesis using Cons.IH [of ys'] Cons.prems(1) xy ys by auto
  qed
qed

lemma show_int_start: "\<exists>h t. show_int n = h # t \<and> (is_digit h \<or> h = CHR ''-'')"
  using show_digits_hd [of "nat n"] by (cases "show_digits (nat n)") (auto simp: show_int_def)

text \<open>The first character of a text tells its constructor.\<close>

fun json_kind :: "char \<Rightarrow> nat" where
  "json_kind c = (if c = CHR ''n'' then 0 else if c = CHR ''t'' \<or> c = CHR ''f'' then 1 else if c = CHR 0x22 then 3
     else if c = CHR ''['' then 4 else if c = CHR ''{'' then 5 else 2)"

declare json_kind.simps [simp del]

fun json_tag :: "json \<Rightarrow> nat" where
  "json_tag J_null = 0"
| "json_tag (J_bool _) = 1"
| "json_tag (J_num _) = 2"
| "json_tag (J_str _) = 3"
| "json_tag (J_arr _) = 4"
| "json_tag (J_obj _) = 5"

lemma digit_kind: "is_digit h \<Longrightarrow> json_kind h = 2 \<and> \<not> json_delim [h]"
proof (rule ccontr)
  assume "is_digit h" and "\<not> (json_kind h = 2 \<and> \<not> json_delim [h])"
  then have "h \<in> {CHR ''n'', CHR ''t'', CHR ''f'', CHR 0x22, CHR ''['', CHR ''{'', CHR '','', CHR '']'', CHR ''}''}"
    by (auto simp only: json_kind.simps json_delim_def list.case insert_iff split: if_splits)
  with \<open>is_digit h\<close> show False by (auto simp: is_digit_def)
qed

lemma json_text_start: "\<exists>h t. json_text v = h # t \<and> json_kind h = json_tag v \<and> \<not> json_delim [h]"
proof (cases v)
  case (J_num n)
  obtain h t where h: "show_int n = h # t" "is_digit h \<or> h = CHR ''-''" using show_int_start by blast
  have "json_kind h = 2 \<and> \<not> json_delim [h]"
    using h(2)
  proof
    assume "h = CHR ''-''"
    then show ?thesis by (simp add: json_delim_def json_kind.simps)
  qed (rule digit_kind)
  then show ?thesis unfolding J_num json_text.simps json_tag.simps using h(1) by blast
qed (auto simp: json_quote_def json_delim_def json_kind.simps)

lemma json_text_prefix:
  "json_text x @ r = json_text y @ r' \<Longrightarrow> json_delim r \<Longrightarrow> json_delim r' \<Longrightarrow> x = y \<and> r = r'"
proof (induction x arbitrary: y r r')
  case (J_num n)
  then have "json_tag y = 2" by (metis append_Cons json_tag.simps(3) json_text_start list.inject)
  then obtain m where "y = J_num m" by (cases y) auto
  with J_num show ?case using show_int_prefix [of n r m r'] json_delim_digit by simp
next
  case (J_str t)
  then have "json_tag y = 3" by (metis append_Cons json_tag.simps(4) json_text_start list.inject)
  then obtain u where "y = J_str u" by (cases y) auto
  with J_str show ?case using json_quote_prefix [of t r u r'] by simp
next
  case (J_arr xs)
  then have "json_tag y = 4" by (metis append_Cons json_tag.simps(5) json_text_start list.inject)
  then obtain ys where y: "y = J_arr ys" by (cases y) auto
  have "xs = ys \<and> r = r'"
  proof (rule join_prefix [where f = json_text and c = "CHR '']''"])
    show "x = z \<and> q = q'" if "x \<in> set xs" "json_text x @ q = json_text z @ q'" "json_delim q" "json_delim q'" for x z q q'
      using J_arr.IH that by blast
    show "json_text x \<noteq> [] \<and> \<not> json_delim (json_text x)" for x
      using json_text_start [of x] by (auto simp: json_delim_def)
  qed (use J_arr.prems y in simp_all)
  with y show ?case by simp
next
  case (J_obj fs)
  then have "json_tag y = 5" by (metis append_Cons json_tag.simps(6) json_text_start list.inject)
  then obtain gs where y: "y = J_obj gs" by (cases y) auto
  let ?f = "\<lambda>(k, v). json_quote k @ CHR '':'' # json_text v"
  have "fs = gs \<and> r = r'"
  proof (rule join_prefix [where f = ?f and c = "CHR ''}''"])
    show "x = z \<and> q = q'" if x: "x \<in> set fs" and e: "?f x @ q = ?f z @ q'" and q: "json_delim q" "json_delim q'" for x z q q'
    proof -
      obtain k v l w where xz: "x = (k, v)" "z = (l, w)" by (cases x; cases z)
      then have "json_quote k @ CHR '':'' # json_text v @ q = json_quote l @ CHR '':'' # json_text w @ q'"
        using e by simp
      from json_quote_prefix [OF this] have "k = l" "json_text v @ q = json_text w @ q'" by simp_all
      then show ?thesis using J_obj.IH [of x v q w q'] x xz q by auto
    qed
    show "?f x \<noteq> [] \<and> \<not> json_delim (?f x)" for x
      by (cases x) (simp add: json_quote_def json_delim_def)
  qed (use J_obj.prems y in simp_all)
  with y show ?case by simp
next
  case J_null
  then have "json_tag y = 0" by (metis append_Cons json_tag.simps(1) json_text_start list.inject)
  then have "y = J_null" by (cases y) auto
  with J_null show ?case by simp
next
  case (J_bool b)
  then have "json_tag y = 1" by (metis append_Cons json_tag.simps(2) json_text_start list.inject)
  then obtain c where "y = J_bool c" by (cases y) auto
  with J_bool show ?case by (cases b; cases c) simp_all
qed

lemma json_text_inj: "json_text x = json_text y \<Longrightarrow> x = y"
  using json_text_prefix [of x "[]" y "[]"] by simp

lemma canonicalSerialize_eq: "canonicalSerialize x = canonicalSerialize y \<longleftrightarrow> json_sort x = json_sort y"
  by (auto simp: canonicalSerialize_def dest: json_text_inj)

lemma canonicalSerialize_atom [simp]:
  "canonicalSerialize (J_str s) = canonicalSerialize (J_str t) \<longleftrightarrow> s = t"
  "canonicalSerialize (J_num m) = canonicalSerialize (J_num n) \<longleftrightarrow> m = n"
  "canonicalSerialize (J_bool b) = canonicalSerialize (J_bool c) \<longleftrightarrow> b = c"
  by (simp_all add: canonicalSerialize_eq)

lemma canonicalSerialize_arr [simp]:
  "canonicalSerialize (J_arr xs) = canonicalSerialize (J_arr ys) \<longleftrightarrow>
     map canonicalSerialize xs = map canonicalSerialize ys"
proof -
  have "map json_sort xs = map json_sort ys \<longleftrightarrow> map canonicalSerialize xs = map canonicalSerialize ys"
  proof (induction xs arbitrary: ys)
    case (Cons x xs)
    then show ?case by (cases ys) (auto simp: canonicalSerialize_eq)
  qed auto
  then show ?thesis by (simp add: canonicalSerialize_eq)
qed

subsection \<open>Objects\<close>

lemma map_of_sort_key: "distinct (map fst fs) \<Longrightarrow> map_of (sort_key fst fs) = map_of fs"
  by (intro map_of_eqI) (auto simp: map_of_eq_Some_iff distinct_map dest!: map_of_SomeD)

lemma map_of_same_sort:
  fixes fs gs :: "(string \<times> 'v) list"
  assumes "distinct (map fst fs)" "distinct (map fst gs)"
  shows "sort_key fst fs = sort_key fst gs \<longleftrightarrow> map_of fs = map_of gs"
proof
  assume "sort_key fst fs = sort_key fst gs"
  then show "map_of fs = map_of gs" using assms map_of_sort_key by metis
next
  assume m: "map_of fs = map_of gs"
  have "set fs = set gs" using m assms by (metis map_of_inject_set)
  then have "mset fs = mset gs"
    using assms by (simp add: set_eq_iff_mset_eq_distinct distinct_map)
  moreover have "inj_on fst (set fs)" using assms(1) by (simp add: distinct_map)
  ultimately show "sort_key fst fs = sort_key fst gs"
    by (intro sort_key_inj_key_eq) simp_all
qed

abbreviation sorted_fields :: "(string \<times> json) list \<Rightarrow> (string \<times> json) list" where
  "sorted_fields fs \<equiv> map (\<lambda>(k, v). (k, json_sort v)) fs"

lemma map_of_sorted_fields: "map_of (sorted_fields fs) k = map_option json_sort (map_of fs k)"
  by (induction fs) auto

lemma canonicalSerialize_obj_iff:
  assumes "distinct (map fst fs)" "distinct (map fst gs)"
  shows "canonicalSerialize (J_obj fs) = canonicalSerialize (J_obj gs) \<longleftrightarrow>
     (\<forall>k. map_option canonicalSerialize (map_of fs k) = map_option canonicalSerialize (map_of gs k))"
proof -
  have d: "distinct (map fst (sorted_fields hs))" if "distinct (map fst hs)" for hs :: "(string \<times> json) list"
    using that by (simp add: comp_def case_prod_beta)
  have o: "map_option canonicalSerialize u = map_option canonicalSerialize v \<longleftrightarrow>
      map_option json_sort u = map_option json_sort v" for u v
    by (cases u; cases v) (simp_all add: canonicalSerialize_eq)
  have "canonicalSerialize (J_obj fs) = canonicalSerialize (J_obj gs) \<longleftrightarrow>
      map_of (sorted_fields fs) = map_of (sorted_fields gs)"
    by (simp add: canonicalSerialize_eq map_of_same_sort [OF d [OF assms(1)] d [OF assms(2)]])
  also have "\<dots> \<longleftrightarrow> (\<forall>k. map_option json_sort (map_of fs k) = map_option json_sort (map_of gs k))"
    by (simp add: fun_eq_iff map_of_sorted_fields)
  finally show ?thesis by (simp add: o)
qed

lemma canonicalSerialize_same_keys:
  assumes keys: "map fst fs = map fst gs" and d: "distinct (map fst fs)"
  shows "canonicalSerialize (J_obj fs) = canonicalSerialize (J_obj gs) \<longleftrightarrow>
     map (\<lambda>f. canonicalSerialize (snd f)) fs = map (\<lambda>f. canonicalSerialize (snd f)) gs"
proof -
  have "(\<forall>k. map_option canonicalSerialize (map_of fs k) = map_option canonicalSerialize (map_of gs k)) \<longleftrightarrow>
      map (\<lambda>f. canonicalSerialize (snd f)) fs = map (\<lambda>f. canonicalSerialize (snd f)) gs"
    using keys d
  proof (induction fs arbitrary: gs)
    case (Cons f fs)
    then obtain g gs' where gs: "gs = g # gs'" "fst f = fst g" "map fst fs = map fst gs'" by (cases gs) auto
    obtain k v w where fg: "f = (k, v)" "g = (k, w)" using gs(2) by (cases f; cases g) auto
    have "fst ` set fs = fst ` set gs'" using gs(3) by (metis list.set_map)
    then have no: "map_of fs k = None" "map_of gs' k = None"
      using Cons.prems gs fg by (simp_all add: map_of_eq_None_iff)
    have "(\<forall>l. map_option canonicalSerialize (map_of (f # fs) l) = map_option canonicalSerialize (map_of gs l)) \<longleftrightarrow>
        canonicalSerialize v = canonicalSerialize w \<and>
        (\<forall>l. map_option canonicalSerialize (map_of fs l) = map_option canonicalSerialize (map_of gs' l))"
    proof -
      let ?B = "\<lambda>l. map_option canonicalSerialize (map_of fs l) = map_option canonicalSerialize (map_of gs' l)"
      have "?B k" using no by simp
      moreover have "map_option canonicalSerialize (map_of (f # fs) l) = map_option canonicalSerialize (map_of gs l) \<longleftrightarrow>
          (if l = k then canonicalSerialize v = canonicalSerialize w else ?B l)" for l
        by (simp add: gs(1) fg)
      ultimately show ?thesis by metis
    qed
    then show ?case using Cons.IH [OF gs(3)] Cons.prems by (simp add: gs(1) fg)
  qed simp
  then show ?thesis using canonicalSerialize_obj_iff [of fs gs] keys d by simp
qed

lemma insort_key_snd:
  "insort_key fst (k, f v) (map (\<lambda>(k, v). (k, f v)) xs) = map (\<lambda>(k, v). (k, f v)) (insort_key fst (k, v) xs)"
  for k :: "'k::linorder"
  by (induction xs) auto

lemma sort_key_snd:
  "sort_key fst (map (\<lambda>(k, v). (k, f v)) xs) = map (\<lambda>(k, v). (k, f v)) (sort_key fst xs)"
  for xs :: "('k::linorder \<times> 'v) list"
proof (induction xs)
  case (Cons x xs)
  then show ?case by (cases x) (simp add: insort_key_snd)
qed simp

text \<open>
  Two objects have the same canonical text exactly when every property of the one is a
  property of the other with the same canonical value: the order of the properties does not
  matter, and nothing else is lost, so a hash of the text binds every field.
\<close>

theorem canonicalSerialize_binds_fields:
  assumes "distinct (map fst fs)" and "distinct (map fst gs)"
  shows "canonicalSerialize (J_obj fs) = canonicalSerialize (J_obj gs) \<longleftrightarrow>
     (\<forall>k. map_option canonicalSerialize (map_of fs k) = map_option canonicalSerialize (map_of gs k))"
  using assms by (rule canonicalSerialize_obj_iff)

theorem canonicalSerialize_binds_fields_witness:
  "canonicalSerialize (J_obj [(''to'', J_str ''A''), (''value'', J_num 1)]) \<noteq>
   canonicalSerialize (J_obj [(''value'', J_num 10), (''to'', J_str ''A'')])"
proof
  assume "canonicalSerialize (J_obj [(''to'', J_str ''A''), (''value'', J_num 1)]) =
    canonicalSerialize (J_obj [(''value'', J_num 10), (''to'', J_str ''A'')])"
  then have "\<forall>k. map_option canonicalSerialize (map_of [(''to'', J_str ''A''), (''value'', J_num 1)] k) =
      map_option canonicalSerialize (map_of [(''value'', J_num 10), (''to'', J_str ''A'')] k)"
    by (subst (asm) canonicalSerialize_binds_fields) simp_all
  then have "canonicalSerialize (J_num 1) = canonicalSerialize (J_num 10)"
    by (auto dest!: spec [of _ "''value''"])
  then show False by simp
qed

end
