(* ===== verification/ControlLedger.thy ===== *)
theory ControlLedger
  imports Json
begin

text \<open>
  \<open>src/src/execution/control/index.ts\<close>: the production risk evaluator, the canonical policy and its
  validation, the reservation ledger and the trading control that reserves against the limits of a
  signed policy. \<open>sha256\<close> and the policy verifier are parameters. The ledger's table is a list of
  rows; \<open>run().changes\<close> of \<open>node:sqlite\<close> is a number, which is never \<open>=== 1n\<close>.
\<close>

section \<open>Production risk\<close>

record LedgerEntry =
  le_id :: string
  le_at :: int
  le_asset :: string
  le_strategy :: string
  le_amount :: int

record ProductionRiskLimits =
  rl_chains :: "int list"
  rl_accounts :: "string list"
  rl_routers :: "string list"
  rl_tokens :: "string list"
  rl_maxPerTrade :: "string \<rightharpoonup> int"
  rl_maxReservedPerToken :: "string \<rightharpoonup> int"
  rl_maxSlippageBps :: int
  rl_maxQuoteAge :: int
  rl_maxQuoteBlocks :: int
  rl_nativeGasReserve :: int
  rl_maxDailyNotional :: "int option"

record ProductionRiskInput =
  ri_now :: int
  ri_chain :: int
  ri_account :: string
  ri_router :: string
  ri_tokenIn :: string
  ri_tokenOut :: string
  ri_amountIn :: int
  ri_slippageBps :: int
  ri_quoteAt :: int
  ri_quoteBlock :: int
  ri_currentBlock :: int
  ri_quoteBlockHash :: string
  ri_canonicalBlockHash :: string
  ri_tokenBalance :: int
  ri_nativeBalance :: int
  ri_estimatedGasCost :: int
  ri_notional :: "int option"
  ri_dailyNotional :: "int option"

text \<open>The reasons collected by \<open>bad(condition, reason)\<close>, in order.\<close>

definition bads :: "(bool \<times> string) list \<Rightarrow> string list" where
  "bads cs = map snd (filter fst cs)"

lemma bads_Nil_iff: "bads cs = [] \<longleftrightarrow> list_all (\<lambda>c. \<not> fst c) cs"
  by (auto simp: bads_def filter_empty_conv list_all_iff)

lemma bads_simps [simp]: "bads [] = []" "bads ((b, s) # cs) = (if b then s # bads cs else bads cs)"
  "bads (cs @ ds) = bads cs @ bads ds"
  by (simp_all add: bads_def)

definition risk_access :: "ProductionRiskLimits \<Rightarrow> ProductionRiskInput \<Rightarrow> (bool \<times> string) list" where
  "risk_access l x =
     [(ri_chain x \<notin> set (rl_chains l), ''chain_not_allowed''),
      (ri_account x \<notin> set (rl_accounts l), ''account_not_allowed''),
      (ri_router x \<notin> set (rl_routers l), ''router_not_allowed''),
      (ri_tokenIn x \<notin> set (rl_tokens l) \<or> ri_tokenOut x \<notin> set (rl_tokens l), ''token_not_allowed''),
      (rl_maxPerTrade l (ri_tokenIn x) = None, ''per_trade_unit_unconfigured''),
      (rl_maxReservedPerToken l (ri_tokenIn x) = None, ''token_exposure_unit_unconfigured''),
      ((case rl_maxPerTrade l (ri_tokenIn x) of None \<Rightarrow> False | Some per \<Rightarrow> ri_amountIn x > per),
         ''per_trade_limit_exceeded'')]"

definition risk_quote :: "ProductionRiskLimits \<Rightarrow> ProductionRiskInput \<Rightarrow> (bool \<times> string) list" where
  "risk_quote l x =
     [(ri_amountIn x \<le> 0, ''invalid_amount''),
      (ri_slippageBps x > rl_maxSlippageBps l, ''slippage_exceeded''),
      (ri_quoteAt x > ri_now x \<or> ri_now x - ri_quoteAt x > rl_maxQuoteAge l, ''quote_stale''),
      (ri_quoteBlock x > ri_currentBlock x \<or> ri_currentBlock x - ri_quoteBlock x > rl_maxQuoteBlocks l,
         ''quote_block_stale''),
      (ri_quoteBlockHash x = [] \<or> ri_quoteBlockHash x \<noteq> ri_canonicalBlockHash x, ''quote_noncanonical''),
      (ri_tokenBalance x < ri_amountIn x, ''insufficient_token_balance''),
      (ri_nativeBalance x < ri_estimatedGasCost x + rl_nativeGasReserve l, ''insufficient_gas_reserve'')]"

definition risk_exposure ::
  "ProductionRiskLimits \<Rightarrow> ProductionRiskInput \<Rightarrow> LedgerEntry list \<Rightarrow> (bool \<times> string) list" where
  "risk_exposure l x entries =
     [((case rl_maxReservedPerToken l (ri_tokenIn x) of None \<Rightarrow> False
        | Some cap \<Rightarrow> sum_where (\<lambda>e. le_asset e = ri_tokenIn x) le_amount entries + ri_amountIn x > cap),
         ''token_reserved_exposure_exceeded''),
      (rl_maxDailyNotional l \<noteq> None \<and> (ri_notional x = None \<or> ri_dailyNotional x = None), ''notional_unavailable''),
      ((case (rl_maxDailyNotional l, ri_notional x, ri_dailyNotional x) of
          (Some cap, Some n, Some dn) \<Rightarrow> n + dn > cap | _ \<Rightarrow> False), ''daily_notional_exceeded'')]"

definition risk_evaluate :: "ProductionRiskLimits \<Rightarrow> ProductionRiskInput \<Rightarrow> LedgerEntry list \<Rightarrow> bool \<times> string list" where
  "risk_evaluate l x entries =
     (let r = bads (risk_access l x @ risk_quote l x @ risk_exposure l x entries) in (r = [], r))"

text \<open>
  The risk evaluator allows an input exactly when everything is on its allowlist, both unit
  limits are configured and kept (the entry's amount plus what the ledger holds of the token),
  the quote is fresh, canonical and not from the future, the balances cover the trade and the gas
  reserve, and a configured daily notional has evidence and is kept.
\<close>

theorem risk_evaluate_allows:
  "fst (risk_evaluate l x entries) \<longleftrightarrow>
     ri_chain x \<in> set (rl_chains l) \<and> ri_account x \<in> set (rl_accounts l) \<and> ri_router x \<in> set (rl_routers l) \<and>
     ri_tokenIn x \<in> set (rl_tokens l) \<and> ri_tokenOut x \<in> set (rl_tokens l) \<and>
     (case (rl_maxPerTrade l (ri_tokenIn x), rl_maxReservedPerToken l (ri_tokenIn x)) of
        (Some per, Some cap) \<Rightarrow> 0 < ri_amountIn x \<and> ri_amountIn x \<le> per \<and>
          sum_where (\<lambda>e. le_asset e = ri_tokenIn x) le_amount entries + ri_amountIn x \<le> cap
      | _ \<Rightarrow> False) \<and>
     ri_slippageBps x \<le> rl_maxSlippageBps l \<and>
     ri_quoteAt x \<le> ri_now x \<and> ri_now x \<le> ri_quoteAt x + rl_maxQuoteAge l \<and>
     ri_quoteBlock x \<le> ri_currentBlock x \<and> ri_currentBlock x \<le> ri_quoteBlock x + rl_maxQuoteBlocks l \<and>
     ri_quoteBlockHash x \<noteq> [] \<and> ri_quoteBlockHash x = ri_canonicalBlockHash x \<and>
     ri_amountIn x \<le> ri_tokenBalance x \<and>
     ri_estimatedGasCost x + rl_nativeGasReserve l \<le> ri_nativeBalance x \<and>
     (case rl_maxDailyNotional l of None \<Rightarrow> True
      | Some cap \<Rightarrow> (case (ri_notional x, ri_dailyNotional x) of
          (Some n, Some dn) \<Rightarrow> n + dn \<le> cap | _ \<Rightarrow> False))"
  by (auto simp: risk_evaluate_def Let_def risk_access_def risk_quote_def risk_exposure_def not_less not_le
      split: option.splits if_splits)

section \<open>The policy document\<close>

record AllowLists =
  al_chains :: "int list"
  al_accounts :: "string list"
  al_tokens :: "string list"
  al_routers :: "string list"
  al_targets :: "string list"
  al_selectors :: "string list"
  al_recipients :: "string list"

record PolicyLimits =
  lm_perTrade :: int
  lm_assetHourly :: int
  lm_assetDaily :: int
  lm_strategyHourly :: int
  lm_strategyDaily :: int
  lm_totalExposure :: int
  lm_assetExposure :: int
  lm_concentrationBps :: int
  lm_drawdown :: int
  lm_totalLoss :: int

record MarketLimits =
  mk_maxQuoteAge :: int
  mk_maxSlippageBps :: int
  mk_maxImpactBps :: int
  mk_maxGas :: int
  mk_maxFees :: int
  mk_minLiquidity :: int
  mk_maxTaxBps :: int
  mk_allowProxy :: bool
  mk_maxOracleAge :: int
  mk_requireSequencerUp :: bool

text \<open>\<open>approvalClass\<close> has the one value \<open>"exact"\<close>.\<close>

record PolicyDocument =
  pd_version :: string
  pd_effectiveAt :: int
  pd_expiresAt :: int
  pd_allow :: AllowLists
  pd_limits :: PolicyLimits
  pd_market :: MarketLimits
  pd_deadManAfter :: int
  pd_globalKill :: bool
  pd_strategyKills :: "string list"

text \<open>
  What \<open>canonical\<close> walks: a \<open>bigint\<close> is written as the text \<open>{"$bigint":"n"}\<close>, and a number
  throws.
\<close>

datatype cvalue = C_null | C_bool bool | C_number int | C_bigint int | C_str string | C_arr "cvalue list"
  | C_obj "(string \<times> cvalue) list"

lemma size_member_cfield [termination_simp]:
  "(k, v) \<in> set fs \<Longrightarrow> size v < Suc (size_list (size_prod (\<lambda>_. 0) size) fs)" for v :: cvalue
  by (induction fs) auto

fun option_all :: "'a option list \<Rightarrow> 'a list option" where
  "option_all [] = Some []"
| "option_all (None # xs) = None"
| "option_all (Some x # xs) = map_option ((#) x) (option_all xs)"

fun canonical :: "cvalue \<Rightarrow> string option" where
  "canonical (C_bigint n) = Some (''{\"$bigint\":\"'' @ show_int n @ ''\"}'')"
| "canonical (C_number _) = None"
| "canonical (C_arr xs) =
     map_option (\<lambda>ss. CHR ''['' # join ss @ '']'') (option_all (map canonical xs))"
| "canonical (C_obj fs) =
     map_option (\<lambda>ss. CHR ''{'' # join (map (\<lambda>(k, s). json_quote k @ CHR '':'' # s) (sort_key fst (zip (map fst fs) ss))) @ ''}'')
       (option_all (map (\<lambda>(k, v). canonical v) fs))"
| "canonical C_null = Some ''null''"
| "canonical (C_bool b) = Some (if b then ''true'' else ''false'')"
| "canonical (C_str s) = Some (json_quote s)"

subsection \<open>The canonical text binds the document\<close>

fun embed :: "cvalue \<Rightarrow> json" where
  "embed C_null = J_null"
| "embed (C_bool b) = J_bool b"
| "embed (C_number n) = J_num n"
| "embed (C_bigint n) = J_obj [(''$bigint'', J_str (show_int n))]"
| "embed (C_str s) = J_str s"
| "embed (C_arr xs) = J_arr (map embed xs)"
| "embed (C_obj fs) = J_obj (map (\<lambda>(k, v). (k, embed v)) fs)"

lemma option_all_Some: "option_all xs = Some ys \<longleftrightarrow> xs = map Some ys"
  by (induction xs arbitrary: ys rule: option_all.induct) (auto split: option.splits)

lemma zip_fst_map: "zip (map fst fs) (map (\<lambda>(k, v). f v) fs) = map (\<lambda>(k, v). (k, f v)) fs"
  by (induction fs) auto

lemma bigint_text: "canonicalSerialize (J_obj [(''$bigint'', J_str (show_int n))]) = ''{\"$bigint\":\"'' @ show_int n @ ''\"}''"
proof -
  have "json_quote ''$bigint'' = ''\"$bigint\"''" by (simp add: json_quote_def json_escape_def)
  then show ?thesis by (simp add: canonicalSerialize_def json_quote_int)
qed

lemma canonical_embed: "canonical v = Some s \<Longrightarrow> s = canonicalSerialize (embed v)"
proof (induction v arbitrary: s rule: canonical.induct)
  case (1 n)
  then show ?case by (simp add: bigint_text)
next
  case (3 xs)
  then obtain ss where ss: "map canonical xs = map Some ss" "s = CHR ''['' # join ss @ '']''"
    by (auto simp: option_all_Some)
  have "ss = map (\<lambda>x. canonicalSerialize (embed x)) xs"
    using ss(1) 3(1) by (intro nth_equalityI) (auto simp: list_eq_iff_nth_eq)
  then show ?case using ss(2) by (simp add: canonicalSerialize_def comp_def)
next
  case (4 fs)
  then obtain ss where ss: "map (\<lambda>(k, v). canonical v) fs = map Some ss"
    "s = CHR ''{'' # join (map (\<lambda>(k, s). json_quote k @ CHR '':'' # s) (sort_key fst (zip (map fst fs) ss))) @ ''}''"
    by (auto simp: option_all_Some)
  have "ss = map (\<lambda>(k, v). canonicalSerialize (embed v)) fs"
  proof (rule nth_equalityI)
    show "length ss = length (map (\<lambda>(k, v). canonicalSerialize (embed v)) fs)"
      using ss(1) by (metis length_map)
    fix i assume i: "i < length ss"
    then have l: "i < length fs" using ss(1) by (metis length_map)
    obtain k v where kv: "fs ! i = (k, v)" by fastforce
    have "map (\<lambda>(k, v). canonical v) fs ! i = map Some ss ! i" using ss(1) by simp
    then have "canonical v = Some (ss ! i)" using i l kv by simp
    then have "ss ! i = canonicalSerialize (embed v)"
      using 4(1) [of "(k, v)" k v] l kv by (metis nth_mem)
    then show "ss ! i = map (\<lambda>(k, v). canonicalSerialize (embed v)) fs ! i" using l kv by simp
  qed
  then have z: "zip (map fst fs) ss = map (\<lambda>(k, v). (k, canonicalSerialize (embed v))) fs"
    by (simp add: zip_fst_map)
  have e: "map (\<lambda>(k, v). (k, json_sort v)) (map (\<lambda>(k, v). (k, embed v)) fs) =
      map (\<lambda>(k, v). (k, json_sort (embed v))) fs" by (induction fs) auto
  show ?case
    unfolding ss(2) z canonicalSerialize_def embed.simps json_sort.simps json_text.simps e sort_key_snd
    by (simp add: comp_def case_prod_beta)
qed (simp_all add: canonicalSerialize_def)

text \<open>The documents as \<open>canonical\<close> sees them, and their validation.\<close>

definition allow_value :: "AllowLists \<Rightarrow> cvalue" where
  "allow_value a = C_obj
     [(''chains'', C_arr (map C_bigint (al_chains a))), (''accounts'', C_arr (map C_str (al_accounts a))),
      (''tokens'', C_arr (map C_str (al_tokens a))), (''routers'', C_arr (map C_str (al_routers a))),
      (''targets'', C_arr (map C_str (al_targets a))), (''selectors'', C_arr (map C_str (al_selectors a))),
      (''recipients'', C_arr (map C_str (al_recipients a)))]"

definition limits_value :: "PolicyLimits \<Rightarrow> cvalue" where
  "limits_value l = C_obj
     [(''perTrade'', C_bigint (lm_perTrade l)), (''assetHourly'', C_bigint (lm_assetHourly l)),
      (''assetDaily'', C_bigint (lm_assetDaily l)), (''strategyHourly'', C_bigint (lm_strategyHourly l)),
      (''strategyDaily'', C_bigint (lm_strategyDaily l)), (''totalExposure'', C_bigint (lm_totalExposure l)),
      (''assetExposure'', C_bigint (lm_assetExposure l)), (''concentrationBps'', C_bigint (lm_concentrationBps l)),
      (''drawdown'', C_bigint (lm_drawdown l)), (''totalLoss'', C_bigint (lm_totalLoss l))]"

definition market_value :: "MarketLimits \<Rightarrow> cvalue" where
  "market_value m = C_obj
     [(''maxQuoteAge'', C_bigint (mk_maxQuoteAge m)), (''maxSlippageBps'', C_bigint (mk_maxSlippageBps m)),
      (''maxImpactBps'', C_bigint (mk_maxImpactBps m)), (''maxGas'', C_bigint (mk_maxGas m)),
      (''maxFees'', C_bigint (mk_maxFees m)), (''minLiquidity'', C_bigint (mk_minLiquidity m)),
      (''maxTaxBps'', C_bigint (mk_maxTaxBps m)), (''allowProxy'', C_bool (mk_allowProxy m)),
      (''maxOracleAge'', C_bigint (mk_maxOracleAge m)), (''requireSequencerUp'', C_bool (mk_requireSequencerUp m))]"

definition policy_value :: "PolicyDocument \<Rightarrow> cvalue" where
  "policy_value p = C_obj
     [(''version'', C_str (pd_version p)), (''effectiveAt'', C_bigint (pd_effectiveAt p)),
      (''expiresAt'', C_bigint (pd_expiresAt p)), (''allow'', allow_value (pd_allow p)),
      (''limits'', limits_value (pd_limits p)), (''market'', market_value (pd_market p)),
      (''approvalClass'', C_str ''exact''), (''deadManAfter'', C_bigint (pd_deadManAfter p)),
      (''globalKill'', C_bool (pd_globalKill p)), (''strategyKills'', C_arr (map C_str (pd_strategyKills p)))]"

definition text_list_ok :: "string list \<Rightarrow> bool" where
  "text_list_ok xs \<longleftrightarrow> xs \<noteq> [] \<and> distinct xs \<and> [] \<notin> set xs"

definition policy_nums :: "PolicyDocument \<Rightarrow> int list" where
  "policy_nums p =
     (let l = pd_limits p; m = pd_market p
      in [lm_perTrade l, lm_assetHourly l, lm_assetDaily l, lm_strategyHourly l, lm_strategyDaily l,
          lm_totalExposure l, lm_assetExposure l, lm_concentrationBps l, lm_drawdown l, lm_totalLoss l,
          mk_maxQuoteAge m, mk_maxSlippageBps m, mk_maxImpactBps m, mk_maxGas m, mk_maxFees m,
          mk_minLiquidity m, mk_maxTaxBps m, mk_maxOracleAge m, pd_deadManAfter p])"

definition validatePolicy :: "PolicyDocument \<Rightarrow> bool" where
  "validatePolicy p \<longleftrightarrow>
     \<not> (pd_version p \<noteq> ''1'' \<or> pd_effectiveAt p < 0 \<or> pd_expiresAt p \<le> pd_effectiveAt p) \<and>
     al_chains (pd_allow p) \<noteq> [] \<and> distinct (al_chains (pd_allow p)) \<and>
     list_all text_list_ok [al_accounts (pd_allow p), al_tokens (pd_allow p), al_routers (pd_allow p),
       al_targets (pd_allow p), al_selectors (pd_allow p), al_recipients (pd_allow p)] \<and>
     \<not> (list_ex (\<lambda>x. x < 0) (policy_nums p) \<or> lm_concentrationBps (pd_limits p) > 10000 \<or>
        mk_maxSlippageBps (pd_market p) > 10000 \<or> mk_maxImpactBps (pd_market p) > 10000 \<or>
        mk_maxTaxBps (pd_market p) > 10000)"

definition canonicalPolicy :: "PolicyDocument \<Rightarrow> string option" where
  "canonicalPolicy p =
     (if validatePolicy p then map_option (\<lambda>s. ''TRADING_POLICY_V1:'' @ s) (canonical (policy_value p)) else None)"

lemma embed_bigint [simp]:
  "canonicalSerialize (embed (C_bigint m)) = canonicalSerialize (embed (C_bigint n)) \<longleftrightarrow> m = n"
  by (simp add: canonicalSerialize_same_keys)

lemma embed_texts [simp]:
  "canonicalSerialize (embed (C_arr (map C_str xs))) = canonicalSerialize (embed (C_arr (map C_str ys))) \<longleftrightarrow> xs = ys"
proof -
  have "map (\<lambda>s. canonicalSerialize (J_str s)) xs = map (\<lambda>s. canonicalSerialize (J_str s)) ys \<longleftrightarrow> xs = ys"
    by (intro inj_map_eq_map injI) simp
  then show ?thesis by (simp add: comp_def)
qed

lemma embed_ints [simp]:
  "canonicalSerialize (embed (C_arr (map C_bigint xs))) = canonicalSerialize (embed (C_arr (map C_bigint ys))) \<longleftrightarrow> xs = ys"
proof -
  have "map (\<lambda>n. canonicalSerialize (embed (C_bigint n))) xs = map (\<lambda>n. canonicalSerialize (embed (C_bigint n))) ys \<longleftrightarrow> xs = ys"
    by (intro inj_map_eq_map injI) (simp del: embed.simps)
  then show ?thesis by (simp add: comp_def)
qed

lemma embed_obj_same_keys:
  assumes "map fst fs = map fst gs" "distinct (map fst fs)"
  shows "canonicalSerialize (embed (C_obj fs)) = canonicalSerialize (embed (C_obj gs)) \<longleftrightarrow>
     map (\<lambda>f. canonicalSerialize (embed (snd f))) fs = map (\<lambda>f. canonicalSerialize (embed (snd f))) gs"
proof -
  have k: "map fst (map (\<lambda>(k, v). (k, embed v)) hs) = map fst hs" for hs by (induction hs) auto
  have v: "map (\<lambda>f. canonicalSerialize (snd f)) (map (\<lambda>(k, v). (k, embed v)) hs) =
      map (\<lambda>f. canonicalSerialize (embed (snd f))) hs" for hs by (induction hs) auto
  show ?thesis
    unfolding embed.simps by (subst canonicalSerialize_same_keys) (use assms in \<open>simp_all only: k v\<close>)
qed

lemma allow_value_eq: "canonicalSerialize (embed (allow_value a)) = canonicalSerialize (embed (allow_value b)) \<longleftrightarrow> a = b"
  unfolding allow_value_def
  by (subst embed_obj_same_keys) (simp_all del: embed.simps, metis AllowLists.equality old.unit.exhaust)

lemma limits_value_eq: "canonicalSerialize (embed (limits_value a)) = canonicalSerialize (embed (limits_value b)) \<longleftrightarrow> a = b"
  unfolding limits_value_def
  by (subst embed_obj_same_keys) (simp_all del: embed.simps, metis PolicyLimits.equality old.unit.exhaust)

lemma embed_bool [simp]:
  "canonicalSerialize (embed (C_bool b)) = canonicalSerialize (embed (C_bool c)) \<longleftrightarrow> b = c"
  "canonicalSerialize (embed (C_str s)) = canonicalSerialize (embed (C_str t)) \<longleftrightarrow> s = t"
  by simp_all

lemma market_value_eq: "canonicalSerialize (embed (market_value a)) = canonicalSerialize (embed (market_value b)) \<longleftrightarrow> a = b"
  unfolding market_value_def
  by (subst embed_obj_same_keys) (simp_all del: embed.simps, metis MarketLimits.equality old.unit.exhaust)

lemma policy_value_eq: "canonicalSerialize (embed (policy_value a)) = canonicalSerialize (embed (policy_value b)) \<longleftrightarrow> a = b"
  unfolding policy_value_def
  by (subst embed_obj_same_keys)
    (simp_all del: embed.simps add: allow_value_eq limits_value_eq market_value_eq, metis PolicyDocument.equality old.unit.exhaust)

lemma option_all_map_Some: "(\<And>x. x \<in> set xs \<Longrightarrow> f x = Some (g x)) \<Longrightarrow> option_all (map f xs) = Some (map g xs)"
  by (induction xs) auto

lemma canonical_arr_texts [simp]:
  "canonical (C_arr (map C_str xs)) = Some (CHR ''['' # join (map json_quote xs) @ '']'')"
  "canonical (C_arr (map C_bigint ns)) =
     Some (CHR ''['' # join (map (\<lambda>n. ''{\"$bigint\":\"'' @ show_int n @ ''\"}'') ns) @ '']'')"
  by (simp_all add: option_all_map_Some [of _ _ json_quote] comp_def
      option_all_map_Some [of _ _ "\<lambda>n. ''{\"$bigint\":\"'' @ show_int n @ ''\"}''"])

lemma canonical_obj_Some:
  "list_all (\<lambda>f. canonical (snd f) \<noteq> None) fs \<Longrightarrow> canonical (C_obj fs) \<noteq> None"
proof -
  assume "list_all (\<lambda>f. canonical (snd f) \<noteq> None) fs"
  then have "option_all (map (\<lambda>(k, v). canonical v) fs) = Some (map (\<lambda>f. the (canonical (snd f))) fs)"
    by (intro option_all_map_Some) (auto simp: list_all_iff)
  then show ?thesis by simp
qed

lemma canonical_parts_Some:
  "canonical (allow_value a) \<noteq> None" "canonical (limits_value l) \<noteq> None" "canonical (market_value m) \<noteq> None"
  unfolding allow_value_def limits_value_def market_value_def
  by (rule canonical_obj_Some, simp del: canonical.simps(3))+

lemma canonical_policy_Some: "canonical (policy_value p) \<noteq> None"
  unfolding policy_value_def using canonical_parts_Some
  by (intro canonical_obj_Some) (simp del: canonical.simps(3))

text \<open>
  The canonical text of a policy exists exactly when the policy is valid, and two policies
  have the same one exactly when they are equal, field by field: a signature over its hash cannot
  be moved to another policy without a collision of the hash.
\<close>

theorem canonicalPolicy_binds:
  "(canonicalPolicy p \<noteq> None \<longleftrightarrow> validatePolicy p) \<and>
   (canonicalPolicy p = canonicalPolicy q \<longleftrightarrow>
      (if validatePolicy p then validatePolicy q \<and> p = q else \<not> validatePolicy q))"
proof -
  obtain s where s: "canonical (policy_value p) = Some s" using canonical_policy_Some by blast
  obtain t where t: "canonical (policy_value q) = Some t" using canonical_policy_Some by blast
  have "s = t \<longleftrightarrow> p = q"
    using canonical_embed [OF s] canonical_embed [OF t] policy_value_eq by simp
  then show ?thesis using s t by (simp add: canonicalPolicy_def)
qed

definition policyHash :: "(string \<Rightarrow> string) \<Rightarrow> PolicyDocument \<Rightarrow> string option" where
  "policyHash sha256 p = map_option sha256 (canonicalPolicy p)"

section \<open>The reservation ledger\<close>

datatype LedgerState = Ls_reserved | Ls_committed

record QuoteValue =
  qv_denomination :: string
  qv_decimals :: int
  qv_value :: int
  qv_evidence :: string

record LedgerRow =
  lr_id :: string
  lr_at :: int
  lr_asset :: string
  lr_strategy :: string
  lr_amount :: int
  lr_state :: LedgerState
  lr_expires_at :: int
  lr_quote :: "QuoteValue option"

datatype SnapshotStatus = Snap_ok | Snap_discrepancy

record Ledger =
  ld_rows :: "LedgerRow list"
  ld_status :: "SnapshotStatus option"

text \<open>Options of the constructor: the clock, the time to live and the aggregate denomination.\<close>

record LedgerOptions =
  lo_now :: int
  lo_ttl :: int
  lo_aggregateQuote :: "(string \<times> int) option"

definition empty_ledger :: Ledger where
  "empty_ledger = \<lparr> ld_rows = [], ld_status = None \<rparr>"

definition entry_of :: "LedgerRow \<Rightarrow> LedgerEntry" where
  "entry_of r = \<lparr> le_id = lr_id r, le_at = lr_at r, le_asset = lr_asset r, le_strategy = lr_strategy r,
     le_amount = lr_amount r \<rparr>"

definition ledger_expire :: "int \<Rightarrow> Ledger \<Rightarrow> Ledger" where
  "ledger_expire now s = s\<lparr> ld_rows := delete_where (\<lambda>r. lr_state r = Ls_reserved \<and> lr_expires_at r \<le> now) (ld_rows s) \<rparr>"

definition ledger_has :: "string \<Rightarrow> Ledger \<Rightarrow> bool" where
  "ledger_has i s = exists_where (\<lambda>r. lr_id r = i) (ld_rows s)"

text \<open>\<open>INSERT\<close> fails on a known id; the method returns \<open>false\<close> then.\<close>

definition ledger_insert :: "LedgerRow \<Rightarrow> Ledger \<Rightarrow> bool \<times> Ledger" where
  "ledger_insert r s =
     (if ledger_has (lr_id r) s then (False, s) else (True, s\<lparr> ld_rows := ld_rows s @ [r] \<rparr>))"

definition reserved_row :: "LedgerOptions \<Rightarrow> LedgerEntry \<Rightarrow> QuoteValue option \<Rightarrow> LedgerRow" where
  "reserved_row opts e q =
     \<lparr> lr_id = le_id e, lr_at = le_at e, lr_asset = le_asset e, lr_strategy = le_strategy e, lr_amount = le_amount e,
       lr_state = Ls_reserved, lr_expires_at = le_at e + lo_ttl opts, lr_quote = q \<rparr>"

definition ledger_reserve :: "LedgerOptions \<Rightarrow> LedgerEntry \<Rightarrow> Ledger \<Rightarrow> bool \<times> Ledger" where
  "ledger_reserve opts e s =
     (if le_id e = [] \<or> le_at e < 0 \<or> le_amount e \<le> 0 then (False, s)
      else ledger_insert (reserved_row opts e None) s)"

record QuoteAggregate =
  qa_denomination :: string
  qa_decimals :: int
  qa_max :: int
  qa_value :: int
  qa_evidence :: string

datatype Aggregate = Agg_none | Agg_amount int | Agg_quote QuoteAggregate

definition aggregate_shape_ok :: "LedgerOptions \<Rightarrow> Aggregate \<Rightarrow> bool" where
  "aggregate_shape_ok opts a =
     (case a of
        Agg_quote q \<Rightarrow>
          \<not> (qa_denomination q = [] \<or> qa_decimals q < 0 \<or> qa_decimals q > 30 \<or> qa_max q < 0 \<or> qa_value q \<le> 0
             \<or> qa_evidence q = []) \<and>
          (case lo_aggregateQuote opts of None \<Rightarrow> True
           | Some (denomination, decimals) \<Rightarrow> qa_denomination q = denomination \<and> qa_decimals q = decimals)
      | _ \<Rightarrow> True)"

text \<open>The rows of the aggregate: all carry a value in the same unit, and their sum leaves room.\<close>

definition aggregate_room :: "QuoteAggregate \<Rightarrow> LedgerRow list \<Rightarrow> bool" where
  "aggregate_room q rows =
     (\<not> list_ex (\<lambda>r. case lr_quote r of None \<Rightarrow> True
         | Some v \<Rightarrow> qv_evidence v = [] \<or> qv_denomination v \<noteq> qa_denomination q \<or> qv_decimals v \<noteq> qa_decimals q) rows \<and>
      \<not> (sum_where (\<lambda>_. True) (\<lambda>r. case lr_quote r of None \<Rightarrow> 0 | Some v \<Rightarrow> qv_value v) rows + qa_value q > qa_max q))"

definition quote_of :: "Aggregate \<Rightarrow> QuoteValue option" where
  "quote_of a = (case a of Agg_quote q \<Rightarrow>
     Some \<lparr> qv_denomination = qa_denomination q, qv_decimals = qa_decimals q, qv_value = qa_value q, qv_evidence = qa_evidence q \<rparr>
   | _ \<Rightarrow> None)"

text \<open>A refusal inside the transaction commits the expiry that came before it.\<close>

definition reserveWithin :: "LedgerOptions \<Rightarrow> LedgerEntry \<Rightarrow> int \<Rightarrow> Aggregate \<Rightarrow> Ledger \<Rightarrow> bool \<times> Ledger" where
  "reserveWithin opts e perAsset aggregate s =
     (if le_id e = [] \<or> le_at e < 0 \<or> le_amount e \<le> 0 \<or> perAsset < 0 then (False, s)
      else if \<not> aggregate_shape_ok opts aggregate then (False, s)
      else
        (let t = ledger_expire (le_at e) s;
             asset = sum_where (\<lambda>r. lr_asset r = le_asset e) lr_amount (ld_rows t)
         in if asset + le_amount e > perAsset then (False, t)
            else if (case aggregate of Agg_amount m \<Rightarrow> asset + le_amount e > m | _ \<Rightarrow> False) then (False, t)
            else if (case aggregate of Agg_quote q \<Rightarrow> \<not> aggregate_room q (ld_rows t) | _ \<Rightarrow> False) then (False, t)
            else if ledger_has (le_id e) t then (False, s)
            else ledger_insert (reserved_row opts e (quote_of aggregate)) t))"

text \<open>\<open>run().changes\<close> is a number; \<open>changes === 1n\<close> compares it with a \<open>bigint\<close>.\<close>

datatype js_prim = P_number nat | P_bigint nat

definition sql_changes :: "('r \<Rightarrow> bool) \<Rightarrow> 'r list \<Rightarrow> js_prim" where
  "sql_changes P rows = P_number (count_where P rows)"

definition ledger_release :: "string \<Rightarrow> Ledger \<Rightarrow> bool \<times> Ledger" where
  "ledger_release i s =
     (let P = (\<lambda>r. lr_id r = i \<and> lr_state r = Ls_reserved)
      in (sql_changes P (ld_rows s) = P_bigint 1, s\<lparr> ld_rows := delete_where P (ld_rows s) \<rparr>))"

definition ledger_commit :: "LedgerOptions \<Rightarrow> string \<Rightarrow> Ledger \<Rightarrow> bool \<times> Ledger" where
  "ledger_commit opts i s =
     (let P = (\<lambda>r. lr_id r = i \<and> lr_state r = Ls_reserved);
          now = lo_now opts;
          t = s\<lparr> ld_rows := update_where P (\<lambda>r. r\<lparr> lr_state := Ls_committed, lr_at := now, lr_expires_at := now \<rparr>) (ld_rows s) \<rparr>
      in (sql_changes P (ld_rows s) = P_bigint 1 \<or> exists_where (\<lambda>r. lr_id r = i \<and> lr_state r = Ls_committed) (ld_rows t), t))"

definition ledger_entries :: "int \<Rightarrow> Ledger \<Rightarrow> LedgerRow list \<times> Ledger" where
  "ledger_entries now s = (let t = ledger_expire now s in (ld_rows t, t))"

definition ledger_usage :: "int \<Rightarrow> int \<Rightarrow> (LedgerEntry \<Rightarrow> bool) \<Rightarrow> Ledger \<Rightarrow> int \<times> Ledger" where
  "ledger_usage now w p s =
     (case ledger_entries now s of (rows, t) \<Rightarrow>
        (sum_where (\<lambda>r. now - w < lr_at r \<and> lr_at r \<le> now \<and> p (entry_of r)) lr_amount rows, t))"

definition snapshot_ok :: "LedgerEntry list \<Rightarrow> int \<Rightarrow> bool" where
  "snapshot_ok es now \<longleftrightarrow>
     \<not> list_ex (\<lambda>e. le_id e = [] \<or> le_at e < 0 \<or> le_at e > now \<or> le_amount e \<le> 0) es \<and> distinct (map le_id es)"

text \<open>\<open>ON CONFLICT(id) DO NOTHING\<close>: an entry whose id is known is skipped.\<close>

fun insert_committed :: "LedgerEntry list \<Rightarrow> Ledger \<Rightarrow> Ledger" where
  "insert_committed [] s = s"
| "insert_committed (e # es) s =
     insert_committed es (snd (ledger_insert
       \<lparr> lr_id = le_id e, lr_at = le_at e, lr_asset = le_asset e, lr_strategy = le_strategy e, lr_amount = le_amount e,
         lr_state = Ls_committed, lr_expires_at = le_at e, lr_quote = None \<rparr> s))"

definition ledger_reconcile :: "LedgerEntry list \<Rightarrow> int \<Rightarrow> Ledger \<Rightarrow> SnapshotStatus option \<times> Ledger" where
  "ledger_reconcile es now s =
     (if \<not> snapshot_ok es now then (None, s)
      else case ledger_entries now s of (rows, t) \<Rightarrow>
        (let localRows = filter (\<lambda>r. lr_state r = Ls_committed) rows;
             discrepancy = list_ex (\<lambda>r. lr_id r \<notin> set (map le_id es)) localRows \<or>
               list_ex (\<lambda>e. \<not> list_ex (\<lambda>x. lr_id x = le_id e \<and> lr_amount x = le_amount e) localRows) es;
             st = (if discrepancy then Snap_discrepancy else Snap_ok)
         in (Some st, (insert_committed es t)\<lparr> ld_status := Some st \<rparr>)))"

definition ledger_status :: "Ledger \<Rightarrow> SnapshotStatus" where
  "ledger_status s = (case ld_status s of None \<Rightarrow> Snap_ok | Some st \<Rightarrow> st)"

section \<open>The trading control\<close>

record TradeRequest =
  tq_id :: string
  tq_now :: int
  tq_chain :: int
  tq_account :: string
  tq_tokenIn :: string
  tq_tokenOut :: string
  tq_router :: string
  tq_target :: string
  tq_selector :: string
  tq_recipient :: string
  tq_strategy :: string
  tq_amount :: int
  tq_approvalAmount :: int
  tq_quoteAt :: int
  tq_slippageBps :: int
  tq_impactBps :: int
  tq_gas :: int
  tq_fees :: int
  tq_liquidity :: int
  tq_taxBps :: int
  tq_isProxy :: bool
  tq_oracleAt :: int
  tq_sequencerUp :: bool
  tq_portfolioExposure :: int
  tq_assetExposure :: int
  tq_portfolioValue :: int
  tq_peakValue :: int
  tq_realizedLoss :: int
  tq_unrealizedLoss :: int
  tq_lastHeartbeat :: int

record SignedPolicyReference =
  ref_policyHash :: string
  ref_signature :: string
  ref_keyId :: "string option"

record Control =
  tc_policy :: PolicyDocument
  tc_ref :: SignedPolicyReference
  tc_verify :: "SignedPolicyReference \<Rightarrow> string \<Rightarrow> bool"
  tc_sha256 :: "string \<Rightarrow> string"
  tc_opts :: LedgerOptions

record Decision =
  dc_allowed :: bool
  dc_reasons :: "string list"
  dc_reservationId :: "string option"

definition policy_signed :: "Control \<Rightarrow> bool" where
  "policy_signed c \<longleftrightarrow>
     (case policyHash (tc_sha256 c) (tc_policy c) of
        None \<Rightarrow> False
      | Some h \<Rightarrow> h = ref_policyHash (tc_ref c) \<and> tc_verify c (tc_ref c) h)"

definition request_nums :: "TradeRequest \<Rightarrow> int list" where
  "request_nums t =
     [tq_now t, tq_chain t, tq_amount t, tq_approvalAmount t, tq_quoteAt t, tq_slippageBps t, tq_impactBps t, tq_gas t,
      tq_fees t, tq_liquidity t, tq_taxBps t, tq_oracleAt t, tq_portfolioExposure t, tq_assetExposure t,
      tq_portfolioValue t, tq_peakValue t, tq_realizedLoss t, tq_unrealizedLoss t, tq_lastHeartbeat t]"

definition check_request :: "PolicyDocument \<Rightarrow> TradeRequest \<Rightarrow> (bool \<times> string) list" where
  "check_request p t =
     [(list_ex (\<lambda>x. x < 0) (request_nums t) \<or> tq_amount t = 0, ''invalid_numeric_input''),
      (tq_amount t \<le> 0, ''invalid_amount''),
      (tq_quoteAt t > tq_now t, ''quote_future''),
      (tq_oracleAt t > tq_now t, ''oracle_future''),
      (tq_lastHeartbeat t > tq_now t, ''heartbeat_future''),
      (tq_now t < pd_effectiveAt p \<or> tq_now t \<ge> pd_expiresAt p, ''policy_inactive''),
      (pd_globalKill p, ''global_kill_switch''),
      (tq_strategy t \<in> set (pd_strategyKills p), ''strategy_kill_switch'')]"

definition check_allowed :: "AllowLists \<Rightarrow> TradeRequest \<Rightarrow> (bool \<times> string) list" where
  "check_allowed a t =
     [(tq_chain t \<notin> set (al_chains a), ''chain_not_allowed''),
      (tq_account t \<notin> set (al_accounts a), ''account_not_allowed''),
      (\<not> (tq_tokenIn t \<in> set (al_tokens a) \<and> tq_tokenOut t \<in> set (al_tokens a)), ''token_not_allowed''),
      (tq_router t \<notin> set (al_routers a), ''router_not_allowed''),
      (tq_target t \<notin> set (al_targets a), ''target_not_allowed''),
      (tq_selector t \<notin> set (al_selectors a), ''selector_not_allowed''),
      (tq_recipient t \<notin> set (al_recipients a), ''recipient_not_allowed'')]"

definition check_market :: "PolicyDocument \<Rightarrow> TradeRequest \<Rightarrow> (bool \<times> string) list" where
  "check_market p t =
     (let m = pd_market p in
     [(tq_approvalAmount t \<noteq> tq_amount t, ''approval_not_exact''),
      (tq_amount t > lm_perTrade (pd_limits p), ''per_trade_limit_exceeded''),
      (tq_now t - tq_quoteAt t > mk_maxQuoteAge m, ''quote_stale''),
      (tq_slippageBps t > mk_maxSlippageBps m, ''slippage_exceeded''),
      (tq_impactBps t > mk_maxImpactBps m, ''impact_exceeded''),
      (tq_gas t > mk_maxGas m, ''gas_exceeded''),
      (tq_fees t > mk_maxFees m, ''fees_exceeded''),
      (tq_liquidity t < mk_minLiquidity m, ''liquidity_too_low''),
      (tq_taxBps t > mk_maxTaxBps m, ''tax_exceeded''),
      (tq_isProxy t \<and> \<not> mk_allowProxy m, ''proxy_forbidden''),
      (tq_now t - tq_oracleAt t > mk_maxOracleAge m, ''oracle_stale''),
      (mk_requireSequencerUp m \<and> \<not> tq_sequencerUp t, ''sequencer_down'')])"

text \<open>The checks against the rows of the ledger, after their expiry.\<close>

definition check_exposure :: "PolicyDocument \<Rightarrow> TradeRequest \<Rightarrow> LedgerRow list \<Rightarrow> (bool \<times> string) list" where
  "check_exposure p t rows =
     (let l = pd_limits p;
          asset = sum_where (\<lambda>r. lr_asset r = tq_tokenIn t) lr_amount rows;
          total = sum_where (\<lambda>_. True) lr_amount rows
      in [(tq_portfolioExposure t + total + tq_amount t > lm_totalExposure l, ''total_exposure_exceeded''),
          (tq_assetExposure t + asset + tq_amount t > lm_assetExposure l, ''asset_exposure_exceeded''),
          (tq_portfolioValue t \<le> 0 \<or>
             (tq_assetExposure t + asset + tq_amount t) * 10000 > lm_concentrationBps l * tq_portfolioValue t,
             ''concentration_exceeded''),
          (tq_peakValue t > tq_portfolioValue t \<and> tq_peakValue t - tq_portfolioValue t > lm_drawdown l, ''drawdown_exceeded''),
          (tq_realizedLoss t + tq_unrealizedLoss t > lm_totalLoss l, ''loss_exceeded''),
          (tq_now t - tq_lastHeartbeat t > pd_deadManAfter p, ''dead_man_switch'')])"

definition check_windows :: "PolicyDocument \<Rightarrow> TradeRequest \<Rightarrow> Ledger \<Rightarrow> (bool \<times> string) list" where
  "check_windows p t s =
     (let l = pd_limits p;
          u = (\<lambda>w f. fst (ledger_usage (tq_now t) w f s) + tq_amount t);
          same_asset = (\<lambda>e. le_asset e = tq_tokenIn t);
          same_strategy = (\<lambda>e. le_strategy e = tq_strategy t)
      in [(u 3600 same_asset > lm_assetHourly l, ''asset_hourly_limit_exceeded''),
          (u 86400 same_asset > lm_assetDaily l, ''asset_daily_limit_exceeded''),
          (u 3600 same_strategy > lm_strategyHourly l, ''strategy_hourly_limit_exceeded''),
          (u 86400 same_strategy > lm_strategyDaily l, ''strategy_daily_limit_exceeded''),
          (ledger_has (tq_id t) s, ''duplicate_trade_id'')])"

text \<open>\<open>entries\<close> expires the ledger first; \<open>usage\<close> would expire it again, which changes nothing.\<close>

definition control_evaluate :: "Control \<Rightarrow> TradeRequest \<Rightarrow> Ledger \<Rightarrow> Decision \<times> Ledger" where
  "control_evaluate c t s0 =
     (let p = tc_policy c;
          s = snd (ledger_entries (tq_now t) s0);
          reasons = bads ([(\<not> policy_signed c, ''policy_signature_invalid'')] @ check_request p t @
             check_allowed (pd_allow p) t @ check_market p t @ check_exposure p t (ld_rows s) @ check_windows p t s)
      in if reasons \<noteq> [] then (\<lparr> dc_allowed = False, dc_reasons = reasons, dc_reservationId = None \<rparr>, s)
         else case ledger_reserve (tc_opts c)
                     \<lparr> le_id = tq_id t, le_at = tq_now t, le_asset = tq_tokenIn t, le_strategy = tq_strategy t,
                       le_amount = tq_amount t \<rparr> s of
             (True, s') \<Rightarrow> (\<lparr> dc_allowed = True, dc_reasons = [], dc_reservationId = Some (tq_id t) \<rparr>, s')
           | (False, s') \<Rightarrow> (\<lparr> dc_allowed = False, dc_reasons = [''duplicate_trade_id''], dc_reservationId = None \<rparr>, s'))"

section \<open>What the ledger promises\<close>

text \<open>
  The ledger's \<open>release\<close> deletes the reservation but always answers \<open>false\<close>, whether or not there was one:
  it compares the number of changed rows with a \<open>bigint\<close>. \<open>commit\<close> has a second disjunct and
  answers whether the row is committed afterwards.
\<close>

theorem release_answers_false:
  "fst (ledger_release i s) = False \<and>
   ld_rows (snd (ledger_release i s)) = delete_where (\<lambda>r. lr_id r = i \<and> lr_state r = Ls_reserved) (ld_rows s) \<and>
   (fst (ledger_commit opts i s) \<longleftrightarrow>
      exists_where (\<lambda>r. lr_id r = i \<and> lr_state r = Ls_committed) (ld_rows (snd (ledger_commit opts i s))))"
  by (simp add: ledger_release_def ledger_commit_def sql_changes_def Let_def)

subsection \<open>Reservations within a cap\<close>

definition asset_sum :: "string \<Rightarrow> Ledger \<Rightarrow> int" where
  "asset_sum a s = sum_where (\<lambda>r. lr_asset r = a) lr_amount (ld_rows s)"

definition amounts_ok :: "Ledger \<Rightarrow> bool" where
  "amounts_ok s \<longleftrightarrow> (\<forall>r \<in> set (ld_rows s). 0 \<le> lr_amount r)"

text \<open>The callers of the composition root: reservations with the configured cap of their asset.\<close>

inductive within_step :: "(string \<Rightarrow> int) \<Rightarrow> int \<Rightarrow> Ledger \<Rightarrow> Ledger \<Rightarrow> bool" for caps where
  within_reserve: "s' = snd (reserveWithin opts e (caps (le_asset e)) aggregate s) \<Longrightarrow> within_step caps u s s'"
| within_release: "s' = snd (ledger_release i s) \<Longrightarrow> within_step caps u s s'"
| within_commit: "s' = snd (ledger_commit opts i s) \<Longrightarrow> within_step caps u s s'"
| within_entries: "s' = snd (ledger_entries now s) \<Longrightarrow> within_step caps u s s'"

inductive_cases within_stepE: "within_step caps u s s'"

lemma amounts_expire: "amounts_ok s \<Longrightarrow> amounts_ok (ledger_expire now s)"
  by (simp add: amounts_ok_def ledger_expire_def)

lemma asset_sum_expire: "amounts_ok s \<Longrightarrow> asset_sum a (ledger_expire now s) \<le> asset_sum a s"
  unfolding asset_sum_def ledger_expire_def by (simp, rule sum_where_delete_le) (simp add: amounts_ok_def)

lemma ledger_insert_cases:
  obtains (known) "ledger_insert r s = (False, s)" | (new) "ledger_insert r s = (True, s\<lparr> ld_rows := ld_rows s @ [r] \<rparr>)"
  by (cases "ledger_has (lr_id r) s") (simp_all add: ledger_insert_def)

lemma reserveWithin_cases:
  obtains (refused) "fst (reserveWithin opts e m a s) = False" "snd (reserveWithin opts e m a s) \<in> {s, ledger_expire (le_at e) s}"
  | (granted) "reserveWithin opts e m a s = (True, (ledger_expire (le_at e) s)\<lparr> ld_rows :=
        ld_rows (ledger_expire (le_at e) s) @ [reserved_row opts e (quote_of a)] \<rparr>)"
      "asset_sum (le_asset e) (ledger_expire (le_at e) s) + le_amount e \<le> m" "0 < le_amount e"
proof (cases "fst (reserveWithin opts e m a s)")
  case False
  then have "snd (reserveWithin opts e m a s) \<in> {s, ledger_expire (le_at e) s}"
    unfolding reserveWithin_def Let_def by (auto simp: ledger_insert_def reserved_row_def split: if_splits)
  then show thesis using False by (intro refused) simp_all
next
  case True
  then have "reserveWithin opts e m a s = (True, (ledger_expire (le_at e) s)\<lparr> ld_rows :=
        ld_rows (ledger_expire (le_at e) s) @ [reserved_row opts e (quote_of a)] \<rparr>) \<and>
      asset_sum (le_asset e) (ledger_expire (le_at e) s) + le_amount e \<le> m \<and> 0 < le_amount e"
    unfolding reserveWithin_def Let_def asset_sum_def
    by (auto simp: ledger_insert_def reserved_row_def not_less not_le split: if_splits)
  then show thesis by (intro granted) simp_all
qed

lemma amounts_step: "amounts_ok s \<Longrightarrow> within_step caps u s s' \<Longrightarrow> amounts_ok s'"
proof (erule within_stepE)
  fix opts e aggregate
  assume ok: "amounts_ok s" and s': "s' = snd (reserveWithin opts e (caps (le_asset e)) aggregate s)"
  show "amounts_ok s'"
    by (cases rule: reserveWithin_cases [of opts e "caps (le_asset e)" aggregate s])
      (use ok amounts_expire [OF ok, of "le_at e"] s' in \<open>auto simp: amounts_ok_def reserved_row_def\<close>)
qed (auto simp: amounts_ok_def ledger_release_def ledger_commit_def ledger_entries_def ledger_expire_def Let_def set_update_where)

lemma asset_sum_step:
  assumes ok: "amounts_ok s" and step: "within_step caps u s s'"
  shows "asset_sum a s' \<le> max (asset_sum a s) (caps a)"
  using step
proof cases
  case (within_reserve opts e aggregate)
  show ?thesis
  proof (cases rule: reserveWithin_cases [of opts e "caps (le_asset e)" aggregate s])
    case refused
    then show ?thesis using within_reserve asset_sum_expire [OF ok, of a "le_at e"] by auto
  next
    case granted
    then have "asset_sum a s' = asset_sum a (ledger_expire (le_at e) s) + (if le_asset e = a then le_amount e else 0)"
      using within_reserve by (simp add: asset_sum_def reserved_row_def)
    then show ?thesis using granted(2) asset_sum_expire [OF ok, of a "le_at e"] by auto
  qed
next
  case (within_release i)
  have "asset_sum a s' \<le> asset_sum a s"
    unfolding asset_sum_def within_release ledger_release_def Let_def
    by (simp, rule sum_where_delete_le) (use ok in \<open>simp add: amounts_ok_def\<close>)
  then show ?thesis by simp
next
  case (within_commit opts i)
  have "asset_sum a s' \<le> asset_sum a s"
    unfolding asset_sum_def within_commit ledger_commit_def Let_def
    by (simp, rule sum_where_update_le) (use ok in \<open>auto simp: amounts_ok_def\<close>)
  then show ?thesis by simp
next
  case (within_entries now)
  then show ?thesis using asset_sum_expire [OF ok] by (simp add: ledger_entries_def Let_def max.coboundedI1)
qed

lemma ledger_empty [simp]: "amounts_ok empty_ledger" "asset_sum a empty_ledger = 0"
  by (simp_all add: amounts_ok_def asset_sum_def empty_ledger_def)

interpretation asset_cap: rolling_cap "\<lambda>s _. asset_sum a s" "\<lambda>_. amounts_ok" "within_step caps" empty_ledger "caps a"
  for a caps
  by unfold_locales (auto intro: amounts_step asset_sum_step)

text \<open>
  Over any sequence of reservations within the configured caps, releases, commits and reads,
  what the ledger holds of an asset, reserved or committed, never exceeds the asset's cap.
\<close>

theorem reserved_within_cap:
  assumes "timed_run (within_step caps) empty_ledger t s"
  shows "asset_sum a s \<le> max 0 (caps a)"
  using asset_cap.run_capped [OF assms order.refl] .

definition demo_entry :: "string \<Rightarrow> int \<Rightarrow> int \<Rightarrow> LedgerEntry" where
  "demo_entry i now n = \<lparr> le_id = i, le_at = now, le_asset = ''SOL'', le_strategy = ''S'', le_amount = n \<rparr>"

definition demo_lopts :: LedgerOptions where
  "demo_lopts = \<lparr> lo_now = 10, lo_ttl = 3600, lo_aggregateQuote = None \<rparr>"

definition demo_within :: Ledger where
  "demo_within = snd (reserveWithin demo_lopts (demo_entry ''b'' 5 50) 100 Agg_none
     (snd (reserveWithin demo_lopts (demo_entry ''a'' 0 60) 100 Agg_none empty_ledger)))"

theorem reserved_within_cap_witness: "asset_sum ''SOL'' demo_within \<le> max 0 100 \<and> asset_sum ''SOL'' demo_within = 60"
proof -
  have "timed_run (within_step (\<lambda>_. 100)) empty_ledger 0
      (snd (reserveWithin demo_lopts (demo_entry ''a'' 0 60) 100 Agg_none empty_ledger))"
    by (rule timed_run.tick [OF timed_run.start order.refl], rule within_reserve [where opts = demo_lopts]) simp
  then have "timed_run (within_step (\<lambda>_. 100)) empty_ledger 0 demo_within"
    unfolding demo_within_def
    by (rule timed_run.tick [OF _ order.refl]) (rule within_reserve [where opts = demo_lopts], simp)
  from reserved_within_cap [OF this] have "asset_sum ''SOL'' demo_within \<le> max 0 100" .
  moreover have "asset_sum ''SOL'' demo_within = 60"
    by (simp add: demo_within_def reserveWithin_def demo_entry_def demo_lopts_def aggregate_shape_ok_def Let_def
        ledger_expire_def empty_ledger_def ledger_has_def ledger_insert_def reserved_row_def quote_of_def asset_sum_def)
  ultimately show ?thesis by blast
qed

subsection \<open>The windows of the trading control\<close>

text \<open>
  One operation of the control at time \<open>u\<close>: a request dated \<open>u\<close>, a commit with the clock at \<open>u\<close>,
  a release or a read.
\<close>

inductive control_step :: "Control \<Rightarrow> int \<Rightarrow> Ledger \<Rightarrow> Ledger \<Rightarrow> bool" for c where
  control_request: "tq_now t = u \<Longrightarrow> s' = snd (control_evaluate c t s) \<Longrightarrow> control_step c u s s'"
| control_release: "s' = snd (ledger_release i s) \<Longrightarrow> control_step c u s s'"
| control_commit: "s' = snd (ledger_commit ((tc_opts c)\<lparr> lo_now := u \<rparr>) i s) \<Longrightarrow> control_step c u s s'"
| control_read: "now \<le> u \<Longrightarrow> s' = snd (ledger_entries now s) \<Longrightarrow> control_step c u s s'"

inductive_cases control_stepE: "control_step c u s s'"

definition ledger_wf :: "int \<Rightarrow> int \<Rightarrow> Ledger \<Rightarrow> bool" where
  "ledger_wf ttl now s \<longleftrightarrow>
     (\<forall>r \<in> set (ld_rows s). 0 \<le> lr_amount r \<and> lr_at r \<le> now \<and>
        (lr_state r = Ls_reserved \<longrightarrow> lr_expires_at r = lr_at r + ttl))"

text \<open>
  What a window of width \<open>w\<close> that ends at \<open>v\<close> must be charged: its committed rows, and every
  reserved row, which may still be committed at a later time.
\<close>

definition charged :: "(LedgerEntry \<Rightarrow> bool) \<Rightarrow> int \<Rightarrow> Ledger \<Rightarrow> int \<Rightarrow> int" where
  "charged f w s v = sum_where (\<lambda>r. f (entry_of r) \<and> (lr_state r = Ls_reserved \<or> v - w < lr_at r)) lr_amount (ld_rows s)"

lemma ledger_wf_later: "ledger_wf ttl t s \<Longrightarrow> t \<le> u \<Longrightarrow> ledger_wf ttl u s"
  by (force simp: ledger_wf_def)

lemma ledger_wf_expire: "ledger_wf ttl t s \<Longrightarrow> ledger_wf ttl t (ledger_expire now s)"
  by (auto simp: ledger_wf_def ledger_expire_def)

lemma charged_expire: "ledger_wf ttl t s \<Longrightarrow> charged f w (ledger_expire now s) v \<le> charged f w s v"
  unfolding charged_def ledger_expire_def by (simp, rule sum_where_delete_le) (simp add: ledger_wf_def)

lemma charged_later: "ledger_wf ttl t s \<Longrightarrow> u \<le> v \<Longrightarrow> charged f w s v \<le> charged f w s u"
  unfolding charged_def by (rule sum_where_mono) (auto simp: ledger_wf_def)

text \<open>Right after the expiry at \<open>u\<close>, the usage the control reads is everything charged.\<close>

lemma usage_charged:
  assumes wf: "ledger_wf ttl t s" and t: "t \<le> u" and ttl: "ttl \<le> w"
  shows "fst (ledger_usage u w f (ledger_expire u s)) = charged f w (ledger_expire u s) u"
proof -
  have twice: "ledger_expire u (ledger_expire u s) = ledger_expire u s"
    by (simp add: ledger_expire_def delete_where_def)
  show ?thesis
    unfolding ledger_usage_def ledger_entries_def Let_def twice charged_def
    by (simp, rule sum_where_cong) (use wf t ttl in \<open>auto simp: ledger_wf_def ledger_expire_def\<close>)
qed

lemma usage_le_charged: "ledger_wf ttl t s \<Longrightarrow> fst (ledger_usage v w f s) \<le> charged f w s v"
proof -
  assume wf: "ledger_wf ttl t s"
  have "fst (ledger_usage v w f s) \<le> charged f w (ledger_expire v s) v"
    unfolding ledger_usage_def ledger_entries_def Let_def charged_def
    by (simp, rule sum_where_mono) (use ledger_wf_expire [OF wf] in \<open>auto simp: ledger_wf_def\<close>)
  also have "\<dots> \<le> charged f w s v" by (rule charged_expire [OF wf])
  finally show ?thesis .
qed

lemma control_evaluate_cases:
  obtains (refused) "snd (control_evaluate c t s) = ledger_expire (tq_now t) s"
  | (granted) e where "e = \<lparr> le_id = tq_id t, le_at = tq_now t, le_asset = tq_tokenIn t, le_strategy = tq_strategy t,
        le_amount = tq_amount t \<rparr>"
      "snd (control_evaluate c t s) = (ledger_expire (tq_now t) s)\<lparr> ld_rows :=
        ld_rows (ledger_expire (tq_now t) s) @ [reserved_row (tc_opts c) e None] \<rparr>"
      "0 < tq_amount t" "bads (check_windows (tc_policy c) t (ledger_expire (tq_now t) s)) = []"
proof -
  let ?s = "ledger_expire (tq_now t) s"
  let ?e = "\<lparr> le_id = tq_id t, le_at = tq_now t, le_asset = tq_tokenIn t, le_strategy = tq_strategy t, le_amount = tq_amount t \<rparr>"
  let ?r = "bads ([(\<not> policy_signed c, ''policy_signature_invalid'')] @ check_request (tc_policy c) t @
      check_allowed (pd_allow (tc_policy c)) t @ check_market (tc_policy c) t @
      check_exposure (tc_policy c) t (ld_rows ?s) @ check_windows (tc_policy c) t ?s)"
  have ev: "snd (control_evaluate c t s) = (if ?r \<noteq> [] then ?s else snd (ledger_reserve (tc_opts c) ?e ?s))"
    by (simp add: control_evaluate_def ledger_entries_def Let_def split: prod.split bool.split)
  show thesis
  proof (cases "?r = []")
    case False
    then show thesis using ev by (intro refused) simp
  next
    case True
    then have w: "bads (check_windows (tc_policy c) t ?s) = []" by (simp split: if_splits)
    show thesis
    proof (cases "snd (ledger_reserve (tc_opts c) ?e ?s) = ?s")
      case same: True
      show thesis by (rule refused) (simp only: ev True same simp_thms if_False)
    next
      case False
      then show thesis using ev True w
        by (intro granted) (auto simp: ledger_reserve_def ledger_insert_def split: if_splits)
    qed
  qed
qed

lemma ledger_wf_control:
  assumes wf: "ledger_wf (lo_ttl (tc_opts c)) t s" and le: "t \<le> u" and step: "control_step c u s s'"
  shows "ledger_wf (lo_ttl (tc_opts c)) u s'"
proof -
  have u: "ledger_wf (lo_ttl (tc_opts c)) u s" using wf le by (rule ledger_wf_later)
  from step show ?thesis
  proof cases
    case (control_request q)
    show ?thesis
      by (cases rule: control_evaluate_cases [of c q s])
        (use control_request ledger_wf_expire [OF u, of u] in \<open>auto simp: ledger_wf_def reserved_row_def\<close>)
  next
    case (control_release i)
    then show ?thesis using u by (auto simp: ledger_wf_def ledger_release_def Let_def)
  next
    case (control_commit i)
    then show ?thesis using u by (auto simp: ledger_wf_def ledger_commit_def Let_def set_update_where)
  next
    case (control_read now)
    then show ?thesis using ledger_wf_expire [OF u] by (simp add: ledger_entries_def Let_def)
  qed
qed

lemma charged_control:
  assumes wf: "ledger_wf (lo_ttl (tc_opts c)) t s" and le: "t \<le> u" and step: "control_step c u s s'" and v: "u \<le> v"
    and ttl: "lo_ttl (tc_opts c) \<le> w"
    and dated: "\<And>e n. f (e\<lparr> le_at := n \<rparr>) = f e"
    and limit: "\<And>q s e. bads (check_windows (tc_policy c) q s) = [] \<Longrightarrow>
      e = \<lparr> le_id = tq_id q, le_at = tq_now q, le_asset = tq_tokenIn q, le_strategy = tq_strategy q, le_amount = tq_amount q \<rparr> \<Longrightarrow>
      f e \<Longrightarrow> fst (ledger_usage (tq_now q) w f s) + tq_amount q \<le> k"
  shows "charged f w s' v \<le> max (charged f w s v) k"
  using step
proof cases
  case (control_request q)
  let ?x = "ledger_expire (tq_now q) s"
  have x: "charged f w ?x v \<le> charged f w s v" by (rule charged_expire [OF wf])
  show ?thesis
  proof (cases rule: control_evaluate_cases [of c q s])
    case refused
    then show ?thesis using control_request x by simp
  next
    case (granted e)
    have new: "charged f w s' v = charged f w ?x v + (if f e then tq_amount q else 0)"
      using granted control_request by (simp add: charged_def reserved_row_def entry_of_def)
    show ?thesis
    proof (cases "f e")
      case True
      then have "fst (ledger_usage u w f ?x) + tq_amount q \<le> k"
        using limit [OF granted(4) granted(1)] control_request by simp
      moreover have "fst (ledger_usage u w f ?x) = charged f w ?x u"
        using usage_charged [OF wf le ttl] control_request by simp
      moreover have "charged f w ?x v \<le> charged f w ?x u"
        using ledger_wf_expire [OF wf] v by (rule charged_later)
      ultimately show ?thesis using new True by simp
    next
      case False
      then show ?thesis using new x by simp
    qed
  qed
next
  case (control_release i)
  have "charged f w s' v \<le> charged f w s v"
    unfolding charged_def control_release ledger_release_def Let_def
    by (simp, rule sum_where_delete_le) (use wf in \<open>simp add: ledger_wf_def\<close>)
  then show ?thesis by simp
next
  case (control_commit i)
  have d: "f (entry_of (r\<lparr> lr_state := Ls_committed, lr_at := u, lr_expires_at := u \<rparr>)) = f (entry_of r)" for r
    using dated [of u "entry_of r"] by (simp add: entry_of_def)
  have "charged f w s' v \<le> charged f w s v"
    unfolding charged_def control_commit ledger_commit_def Let_def
    by (simp, rule sum_where_update_le) (use wf in \<open>auto simp: ledger_wf_def d\<close>)
  then show ?thesis by simp
next
  case (control_read now)
  then show ?thesis using charged_expire [OF wf] by (simp add: ledger_entries_def Let_def max.coboundedI1)
qed

abbreviation of_asset :: "string \<Rightarrow> LedgerEntry \<Rightarrow> bool" where
  "of_asset a \<equiv> \<lambda>e. le_asset e = a"

abbreviation of_strategy :: "string \<Rightarrow> LedgerEntry \<Rightarrow> bool" where
  "of_strategy st \<equiv> \<lambda>e. le_strategy e = st"

text \<open>
  The steps of a control whose reservations live no longer than the window \<open>w\<close>: a reservation that expires
  before its window ends could be committed, and dated anew, after another took its place.
\<close>

definition step_within :: "int \<Rightarrow> Control \<Rightarrow> int \<Rightarrow> Ledger \<Rightarrow> Ledger \<Rightarrow> bool" where
  "step_within w c u s s' \<longleftrightarrow> lo_ttl (tc_opts c) \<le> w \<and> control_step c u s s'"

lemma step_within_eq: "lo_ttl (tc_opts c) \<le> w \<Longrightarrow> step_within w c = control_step c"
  by (simp add: step_within_def fun_eq_iff)

lemma windows_limits:
  assumes "bads (check_windows p q s) = []"
  shows "fst (ledger_usage (tq_now q) 3600 (of_asset (tq_tokenIn q)) s) + tq_amount q \<le> lm_assetHourly (pd_limits p)"
    and "fst (ledger_usage (tq_now q) 86400 (of_asset (tq_tokenIn q)) s) + tq_amount q \<le> lm_assetDaily (pd_limits p)"
    and "fst (ledger_usage (tq_now q) 3600 (of_strategy (tq_strategy q)) s) + tq_amount q \<le> lm_strategyHourly (pd_limits p)"
    and "fst (ledger_usage (tq_now q) 86400 (of_strategy (tq_strategy q)) s) + tq_amount q \<le> lm_strategyDaily (pd_limits p)"
  using assms by (simp_all add: check_windows_def Let_def not_less split: if_splits)

lemma ledger_wf_empty: "ledger_wf ttl t empty_ledger" "charged f w empty_ledger v = 0"
  by (simp_all add: ledger_wf_def charged_def empty_ledger_def)

lemma charged_windows:
  assumes "ledger_wf (lo_ttl (tc_opts c)) t s" "t \<le> u" "control_step c u s s'" "u \<le> v"
  shows "lo_ttl (tc_opts c) \<le> 3600 \<Longrightarrow>
      charged (of_asset a) 3600 s' v \<le> max (charged (of_asset a) 3600 s v) (lm_assetHourly (pd_limits (tc_policy c)))"
    and "lo_ttl (tc_opts c) \<le> 86400 \<Longrightarrow>
      charged (of_asset a) 86400 s' v \<le> max (charged (of_asset a) 86400 s v) (lm_assetDaily (pd_limits (tc_policy c)))"
    and "lo_ttl (tc_opts c) \<le> 3600 \<Longrightarrow>
      charged (of_strategy a) 3600 s' v \<le> max (charged (of_strategy a) 3600 s v) (lm_strategyHourly (pd_limits (tc_policy c)))"
    and "lo_ttl (tc_opts c) \<le> 86400 \<Longrightarrow>
      charged (of_strategy a) 86400 s' v \<le> max (charged (of_strategy a) 86400 s v) (lm_strategyDaily (pd_limits (tc_policy c)))"
  by (rule charged_control [OF assms]; auto dest: windows_limits)+

interpretation asset_hour: rolling_cap "charged (of_asset a) 3600" "ledger_wf (lo_ttl (tc_opts c))"
    "step_within 3600 c" empty_ledger "lm_assetHourly (pd_limits (tc_policy c))" for c a
  by unfold_locales (auto simp: ledger_wf_empty step_within_def intro: ledger_wf_control charged_windows)

interpretation asset_day: rolling_cap "charged (of_asset a) 86400" "ledger_wf (lo_ttl (tc_opts c))"
    "step_within 86400 c" empty_ledger "lm_assetDaily (pd_limits (tc_policy c))" for c a
  by unfold_locales (auto simp: ledger_wf_empty step_within_def intro: ledger_wf_control charged_windows)

interpretation strategy_hour: rolling_cap "charged (of_strategy a) 3600" "ledger_wf (lo_ttl (tc_opts c))"
    "step_within 3600 c" empty_ledger "lm_strategyHourly (pd_limits (tc_policy c))" for c a
  by unfold_locales (auto simp: ledger_wf_empty step_within_def intro: ledger_wf_control charged_windows)

interpretation strategy_day: rolling_cap "charged (of_strategy a) 86400" "ledger_wf (lo_ttl (tc_opts c))"
    "step_within 86400 c" empty_ledger "lm_strategyDaily (pd_limits (tc_policy c))" for c a
  by unfold_locales (auto simp: ledger_wf_empty step_within_def intro: ledger_wf_control charged_windows)

lemma usage_within:
  assumes "rolling_cap (charged f w) (ledger_wf ttl) step empty_ledger k" and "timed_run step empty_ledger t s" and "t \<le> v"
  shows "fst (ledger_usage v w f s) \<le> max 0 k"
proof -
  have "ledger_wf ttl t s" using rolling_cap.run_wf [OF assms(1,2)] .
  then have "fst (ledger_usage v w f s) \<le> charged f w s v" by (rule usage_le_charged)
  also have "\<dots> \<le> max 0 k" using rolling_cap.run_capped [OF assms] .
  finally show ?thesis .
qed

text \<open>
  C30: over any sequence of requests, commits, releases and reads of one control, whose clock does not go
  back and whose requests carry the time of that clock, the usage of an asset and of a strategy stays, in
  any window that ends now or later, within the policy's hourly limits when reservations live an hour at
  most (the default), and within its daily limits when they live a day at most (a negative limit counts as zero): a commit, which dates its
  row anew, cannot then be used to escape a window. Longer reservations do escape it
  (\<open>long_reservations_exceed\<close>).
\<close>

theorem control_windows_hold:
  assumes "timed_run (control_step c) empty_ledger t s" and "t \<le> v"
  shows "(if lo_ttl (tc_opts c) \<le> 3600
          then fst (ledger_usage v 3600 (of_asset a) s) \<le> max 0 (lm_assetHourly (pd_limits (tc_policy c))) \<and>
               fst (ledger_usage v 3600 (of_strategy st) s) \<le> max 0 (lm_strategyHourly (pd_limits (tc_policy c))) else True) \<and>
         (if lo_ttl (tc_opts c) \<le> 86400
          then fst (ledger_usage v 86400 (of_asset a) s) \<le> max 0 (lm_assetDaily (pd_limits (tc_policy c))) \<and>
               fst (ledger_usage v 86400 (of_strategy st) s) \<le> max 0 (lm_strategyDaily (pd_limits (tc_policy c))) else True)"
proof -
  have run: "timed_run (step_within w c) empty_ledger t s" if "lo_ttl (tc_opts c) \<le> w" for w
    using assms(1) by (simp add: step_within_eq [OF that])
  show ?thesis
    using usage_within [OF asset_hour.rolling_cap_axioms run assms(2)] usage_within [OF asset_day.rolling_cap_axioms run assms(2)]
      usage_within [OF strategy_hour.rolling_cap_axioms run assms(2)] usage_within [OF strategy_day.rolling_cap_axioms run assms(2)]
    by simp
qed

text \<open>A small signed policy and one admitted request, for the witness.\<close>

definition demo_pd :: PolicyDocument where
  "demo_pd = \<lparr> pd_version = ''1'', pd_effectiveAt = 0, pd_expiresAt = 1000000,
     pd_allow = \<lparr> al_chains = [101], al_accounts = [''ACC''], al_tokens = [''SOL'', ''USDC''], al_routers = [''R''],
       al_targets = [''T''], al_selectors = [''SEL''], al_recipients = [''REC''] \<rparr>,
     pd_limits = \<lparr> lm_perTrade = 100, lm_assetHourly = 150, lm_assetDaily = 400, lm_strategyHourly = 150,
       lm_strategyDaily = 400, lm_totalExposure = 1000, lm_assetExposure = 1000, lm_concentrationBps = 10000,
       lm_drawdown = 100, lm_totalLoss = 100 \<rparr>,
     pd_market = \<lparr> mk_maxQuoteAge = 10, mk_maxSlippageBps = 50, mk_maxImpactBps = 50, mk_maxGas = 10, mk_maxFees = 10,
       mk_minLiquidity = 1, mk_maxTaxBps = 0, mk_allowProxy = False, mk_maxOracleAge = 10, mk_requireSequencerUp = False \<rparr>,
     pd_deadManAfter = 100, pd_globalKill = False, pd_strategyKills = [] \<rparr>"

definition demo_control :: Control where
  "demo_control = \<lparr> tc_policy = demo_pd, tc_ref = \<lparr> ref_policyHash = ''H'', ref_signature = ''S'', ref_keyId = None \<rparr>,
     tc_verify = (\<lambda>_ h. h = ''H''), tc_sha256 = (\<lambda>_. ''H''), tc_opts = demo_lopts \<rparr>"

definition demo_tq :: TradeRequest where
  "demo_tq = \<lparr> tq_id = ''t1'', tq_now = 1000, tq_chain = 101, tq_account = ''ACC'', tq_tokenIn = ''SOL'', tq_tokenOut = ''USDC'',
     tq_router = ''R'', tq_target = ''T'', tq_selector = ''SEL'', tq_recipient = ''REC'', tq_strategy = ''S'', tq_amount = 90,
     tq_approvalAmount = 90, tq_quoteAt = 995, tq_slippageBps = 10, tq_impactBps = 10, tq_gas = 1, tq_fees = 1,
     tq_liquidity = 100, tq_taxBps = 0, tq_isProxy = False, tq_oracleAt = 995, tq_sequencerUp = True,
     tq_portfolioExposure = 0, tq_assetExposure = 0, tq_portfolioValue = 1000, tq_peakValue = 1000, tq_realizedLoss = 0,
     tq_unrealizedLoss = 0, tq_lastHeartbeat = 990 \<rparr>"

lemma demo_signed: "policy_signed demo_control"
proof -
  have "validatePolicy demo_pd"
    by (simp add: validatePolicy_def demo_pd_def text_list_ok_def policy_nums_def Let_def)
  then have "canonicalPolicy demo_pd \<noteq> None" using canonical_policy_Some by (simp add: canonicalPolicy_def)
  then show ?thesis by (auto simp: policy_signed_def policyHash_def demo_control_def)
qed

lemma demo_control_sel: "tc_policy demo_control = demo_pd" "lo_ttl (tc_opts demo_control) = 3600"
  by (simp_all add: demo_control_def demo_lopts_def)

definition demo_charged :: Ledger where
  "demo_charged = snd (control_evaluate demo_control demo_tq empty_ledger)"

lemma demo_charged_rows: "map lr_amount (ld_rows demo_charged) = [90] \<and> map lr_at (ld_rows demo_charged) = [1000] \<and>
    map lr_asset (ld_rows demo_charged) = [''SOL''] \<and> map lr_state (ld_rows demo_charged) = [Ls_reserved] \<and>
    map lr_expires_at (ld_rows demo_charged) = [4600]"
  by (simp add: demo_charged_def control_evaluate_def demo_signed Let_def ledger_entries_def ledger_expire_def empty_ledger_def
      check_request_def check_allowed_def check_market_def check_exposure_def check_windows_def ledger_usage_def
      ledger_has_def ledger_reserve_def ledger_insert_def reserved_row_def request_nums_def demo_control_sel
      demo_pd_def demo_tq_def)

theorem control_windows_hold_witness:
  "fst (ledger_usage 2000 3600 (of_asset ''SOL'') demo_charged) \<le> 150 \<and>
   fst (ledger_usage 2000 3600 (of_asset ''SOL'') demo_charged) = 90"
proof -
  have "control_step demo_control 1000 empty_ledger demo_charged"
    by (rule control_request [where t = demo_tq]) (simp_all add: demo_tq_def demo_charged_def)
  then have "timed_run (control_step demo_control) empty_ledger 1000 demo_charged"
    by (rule timed_run.tick [OF timed_run.start order.refl])
  from control_windows_hold [OF this, of 2000 "''SOL''"]
  have "fst (ledger_usage 2000 3600 (of_asset ''SOL'') demo_charged) \<le> 150"
    by (simp add: demo_control_def demo_lopts_def demo_pd_def)
  moreover have "fst (ledger_usage 2000 3600 (of_asset ''SOL'') demo_charged) = 90"
    using demo_charged_rows by (auto simp: ledger_usage_def ledger_entries_def ledger_expire_def Let_def entry_of_def map_eq_Cons_conv)
  ultimately show ?thesis by blast
qed

text \<open>
  With reservations of two hours the hourly limit of 150 is passed: 90 are reserved at 1000 and, when that
  row has left the window, 90 at 4601; both are committed then.
\<close>

definition long_control :: Control where
  "long_control = demo_control\<lparr> tc_opts := demo_lopts\<lparr> lo_ttl := 7200 \<rparr> \<rparr>"

definition long_request :: TradeRequest where
  "long_request = demo_tq\<lparr> tq_id := ''t2'', tq_now := 4601, tq_quoteAt := 4600, tq_oracleAt := 4600, tq_lastHeartbeat := 4600 \<rparr>"

definition long_reserved :: Ledger where
  "long_reserved = snd (control_evaluate long_control long_request (snd (control_evaluate long_control demo_tq empty_ledger)))"

definition long_committed :: Ledger where
  "long_committed = snd (ledger_commit ((tc_opts long_control)\<lparr> lo_now := 4601 \<rparr>) ''t2''
     (snd (ledger_commit ((tc_opts long_control)\<lparr> lo_now := 4601 \<rparr>) ''t1'' long_reserved)))"

lemma long_signed: "policy_signed long_control"
  using demo_signed by (auto simp: policy_signed_def policyHash_def long_control_def demo_control_def split: option.splits)

lemma long_control_sel: "tc_policy long_control = demo_pd" "lo_ttl (tc_opts long_control) = 7200"
  by (simp_all add: long_control_def demo_control_def demo_lopts_def)

lemma long_first: "snd (control_evaluate long_control demo_tq empty_ledger) = empty_ledger\<lparr> ld_rows :=
    [reserved_row (tc_opts long_control) \<lparr> le_id = ''t1'', le_at = 1000, le_asset = ''SOL'', le_strategy = ''S'', le_amount = 90 \<rparr> None] \<rparr>"
  by (simp add: control_evaluate_def long_signed Let_def ledger_entries_def ledger_expire_def empty_ledger_def
      check_request_def check_allowed_def check_market_def check_exposure_def check_windows_def ledger_usage_def
      ledger_has_def ledger_reserve_def ledger_insert_def reserved_row_def request_nums_def long_control_sel
      demo_pd_def demo_tq_def)

lemma long_second: "long_reserved = empty_ledger\<lparr> ld_rows :=
    [reserved_row (tc_opts long_control) \<lparr> le_id = ''t1'', le_at = 1000, le_asset = ''SOL'', le_strategy = ''S'', le_amount = 90 \<rparr> None,
     reserved_row (tc_opts long_control) \<lparr> le_id = ''t2'', le_at = 4601, le_asset = ''SOL'', le_strategy = ''S'', le_amount = 90 \<rparr> None] \<rparr>"
  unfolding long_reserved_def long_first
  by (simp add: control_evaluate_def long_signed Let_def ledger_entries_def ledger_expire_def empty_ledger_def
      check_request_def check_allowed_def check_market_def check_exposure_def check_windows_def ledger_usage_def entry_of_def
      ledger_has_def ledger_reserve_def ledger_insert_def reserved_row_def request_nums_def long_control_sel
      demo_pd_def demo_tq_def long_request_def)

lemma long_reservations_exceed:
  "timed_run (control_step long_control) empty_ledger 4601 long_committed"
  "fst (ledger_usage 4601 3600 (of_asset ''SOL'') long_committed) = 180"
  "lm_assetHourly (pd_limits (tc_policy long_control)) = 150"
proof -
  have "timed_run (control_step long_control) empty_ledger 1000 (snd (control_evaluate long_control demo_tq empty_ledger))"
    by (rule timed_run.tick [OF timed_run.start order.refl]) (rule control_request [OF _ refl], simp add: demo_tq_def)
  then have "timed_run (control_step long_control) empty_ledger 4601 long_reserved"
    by (rule timed_run.tick) (simp, rule control_request [where t = long_request], simp_all add: long_request_def long_reserved_def)
  then have "timed_run (control_step long_control) empty_ledger 4601
      (snd (ledger_commit ((tc_opts long_control)\<lparr> lo_now := 4601 \<rparr>) ''t1'' long_reserved))"
    by (rule timed_run.tick [OF _ order.refl]) (rule control_commit [OF refl])
  then show "timed_run (control_step long_control) empty_ledger 4601 long_committed"
    unfolding long_committed_def by (rule timed_run.tick [OF _ order.refl]) (rule control_commit [OF refl])
  show "fst (ledger_usage 4601 3600 (of_asset ''SOL'') long_committed) = 180"
    by (simp add: long_committed_def long_second ledger_commit_def ledger_usage_def ledger_entries_def ledger_expire_def Let_def
        reserved_row_def entry_of_def empty_ledger_def)
  show "lm_assetHourly (pd_limits (tc_policy long_control)) = 150" by (simp add: long_control_sel demo_pd_def)
qed

end
