(* ===== verification/Approvals.thy ===== *)
theory Approvals
  imports Json
begin

text \<open>
  \<open>src/src/execution/approvals/index.ts\<close>: requests for human approval, bound to one exact
  transaction, decided by a quorum of operators and consumed once. The three tables are lists of
  rows; the SHA-256 of a text, the verifier of an operator's proof and the random challenge are
  parameters. A call reads its clock once, \<open>now\<close>. \<open>binding_json\<close> and \<open>tx_json\<close> are the canonical
  texts the code stores; the checks of \<open>map\<close> against a corrupted database file are not modelled.
\<close>

section \<open>Data\<close>

definition APPROVAL_TYPES :: "string list" where
  "APPROVAL_TYPES = [''sign'', ''broadcast'', ''allowance'', ''bridge'', ''withdraw'', ''policy-change'']"

datatype ApprovalStatus = Ap_pending | Ap_approved | Ap_denied | Ap_expired | Ap_revoked | Ap_consumed

record BoundTransaction =
  bt_chain :: string
  bt_serializedTransaction :: json
  bt_intentHash :: string
  bt_policyHash :: string
  bt_policyVersion :: string
  bt_simulationHash :: string
  bt_simulationBlock :: string
  bt_simulationState :: string
  bt_account :: string
  bt_nonce :: string
  bt_value :: string
  bt_calldata :: string
  bt_router :: string

record ApprovalRequestInput =
  ai_id :: string
  ai_type :: string
  ai_proposerId :: string
  ai_bound :: BoundTransaction
  ai_expiresAt :: int
  ai_displayImpact :: "string option"

record Operator =
  op_id :: string
  op_roles :: "string list"
  op_scopes :: "string list"

record DecisionInput =
  di_operatorId :: string
  di_decision :: string
  di_challenge :: string
  di_nonce :: string
  di_expectedRevision :: int
  di_timestamp :: "int option"
  di_proof :: "string option"
  di_reason :: "string option"

record DecisionProof =
  dp_input :: DecisionInput
  dp_requestId :: string
  dp_revision :: int
  dp_timestamp :: int
  dp_configVersion :: string
  dp_configHash :: string

record RequestRow =
  rq_id :: string
  rq_type :: string
  rq_proposer_id :: string
  rq_binding :: string
  rq_tx :: string
  rq_display_impact :: "string option"
  rq_expires_at :: int
  rq_quorum :: int
  rq_challenge :: string
  rq_status :: ApprovalStatus
  rq_revision :: int
  rq_created_at :: int
  rq_config_version :: string
  rq_config_hash :: string

record DecisionRow =
  dr_request_id :: string
  dr_operator_id :: string
  dr_decision :: string
  dr_challenge :: string
  dr_nonce :: string
  dr_reason :: "string option"
  dr_created_at :: int
  dr_proof :: "string option"

record EventRow =
  ev_request_id :: string
  ev_event :: string
  ev_operator_id :: "string option"
  ev_reason :: "string option"
  ev_binding_hash :: string
  ev_revision :: int
  ev_created_at :: int

record AState =
  as_requests :: "RequestRow list"
  as_decisions :: "DecisionRow list"
  as_events :: "EventRow list"

record Engine =
  en_operators :: "Operator list"
  en_configVersion :: string
  en_verify :: "DecisionProof \<Rightarrow> bool"
  en_sha256 :: "string \<Rightarrow> string"

datatype AErr = A_invalid | A_challenge_supplied | A_type | A_quorum | A_expired | A_unknown | A_status ApprovalStatus
  | A_revision | A_self | A_operator | A_challenge | A_timestamp | A_proof | A_distinct | A_replay | A_mismatch
  | A_conflict | A_sql

definition empty_approvals :: AState where
  "empty_approvals = \<lparr> as_requests = [], as_decisions = [], as_events = [] \<rparr>"

section \<open>Binding\<close>

definition canonicalHash :: "(string \<Rightarrow> string) \<Rightarrow> json \<Rightarrow> string" where
  "canonicalHash sha256 v = sha256 (''approval-v1'' @ [CHR 0x00] @ canonicalSerialize v)"

definition boundKeys :: "(string \<Rightarrow> string) \<Rightarrow> BoundTransaction \<Rightarrow> json" where
  "boundKeys sha256 i = J_obj
     [(''chain'', J_str (bt_chain i)), (''transactionHash'', J_str (canonicalHash sha256 (bt_serializedTransaction i))),
      (''intentHash'', J_str (bt_intentHash i)), (''policyHash'', J_str (bt_policyHash i)),
      (''policyVersion'', J_str (bt_policyVersion i)), (''simulationHash'', J_str (bt_simulationHash i)),
      (''simulationBlock'', J_str (bt_simulationBlock i)), (''simulationState'', J_str (bt_simulationState i)),
      (''account'', J_str (bt_account i)), (''nonce'', J_str (bt_nonce i)), (''value'', J_str (bt_value i)),
      (''calldata'', J_str (bt_calldata i)), (''router'', J_str (bt_router i))]"

definition text_ok :: "nat \<Rightarrow> string \<Rightarrow> bool" where
  "text_ok n s \<longleftrightarrow> js_trim s \<noteq> [] \<and> length s \<le> n"

text \<open>The constructor refuses malformed operators; the rows keep the hash of the configuration.\<close>

definition operators_ok :: "Operator list \<Rightarrow> bool" where
  "operators_ok ops \<longleftrightarrow>
     list_all (\<lambda>q. text_ok 128 (op_id q) \<and> distinct (op_roles q) \<and> distinct (op_scopes q)) ops \<and> distinct (map op_id ops)"

definition new_engine :: "Operator list \<Rightarrow> string option \<Rightarrow> (DecisionProof \<Rightarrow> bool) option \<Rightarrow> (string \<Rightarrow> string) \<Rightarrow> Engine option" where
  "new_engine ops version verify sha256 =
     (let v = (case version of None \<Rightarrow> ''legacy'' | Some x \<Rightarrow> x)
      in if text_ok 128 v \<and> operators_ok ops
         then Some \<lparr> en_operators = ops, en_configVersion = v,
                     en_verify = (case verify of None \<Rightarrow> (\<lambda>_. False) | Some f \<Rightarrow> f), en_sha256 = sha256 \<rparr>
         else None)"

definition operator_value :: "Operator \<Rightarrow> json" where
  "operator_value q = J_obj [(''id'', J_str (op_id q)), (''roles'', J_arr (map J_str (op_roles q))),
     (''scopes'', J_arr (map J_str (op_scopes q)))]"

text \<open>\<open>localeCompare\<close> on the ids; the order of the ids' code units stands for it.\<close>

definition en_configHash :: "Engine \<Rightarrow> string" where
  "en_configHash e = canonicalHash (en_sha256 e) (J_arr (map operator_value (sort_key op_id (en_operators e))))"

section \<open>Operations\<close>

definition approver_for :: "Operator \<Rightarrow> string \<Rightarrow> bool" where
  "approver_for q type \<longleftrightarrow> ''approver'' \<in> set (op_roles q) \<and> (''*'' \<in> set (op_scopes q) \<or> type \<in> set (op_scopes q))"

definition operator_ok :: "Engine \<Rightarrow> string \<Rightarrow> string \<Rightarrow> bool" where
  "operator_ok e i type \<longleftrightarrow>
     (case find_where (\<lambda>q. op_id q = i) (en_operators e) of None \<Rightarrow> False | Some q \<Rightarrow> approver_for q type)"

definition raw :: "string \<Rightarrow> AState \<Rightarrow> RequestRow option" where
  "raw i s = find_where (\<lambda>r. rq_id r = i) (as_requests s)"

definition has_field :: "string \<Rightarrow> json \<Rightarrow> bool" where
  "has_field k v \<longleftrightarrow> (case v of J_obj fs \<Rightarrow> k \<in> fst ` set fs | _ \<Rightarrow> False)"

definition validate :: "ApprovalRequestInput \<Rightarrow> bool" where
  "validate i \<longleftrightarrow>
     (let b = ai_bound i in
      text_ok 128 (ai_id i) \<and> text_ok 128 (ai_proposerId i) \<and> text_ok 128 (bt_chain b) \<and>
      list_all (text_ok 256) [bt_intentHash b, bt_policyHash b, bt_simulationHash b] \<and>
      list_all (text_ok 8192) [bt_policyVersion b, bt_simulationBlock b, bt_simulationState b, bt_account b, bt_nonce b,
        bt_value b, bt_calldata b, bt_router b] \<and>
      js_safe_integer (ai_expiresAt i) \<and>
      list_all (\<lambda>k. has_field k (bt_serializedTransaction b)) [''to'', ''data'', ''value'', ''nonce''])"

definition eligible_count :: "Engine \<Rightarrow> ApprovalRequestInput \<Rightarrow> nat" where
  "eligible_count e i = count_where (\<lambda>q. op_id q \<noteq> ai_proposerId i \<and> approver_for q (ai_type i)) (en_operators e)"

definition add_event :: "Engine \<Rightarrow> string \<Rightarrow> string \<Rightarrow> string option \<Rightarrow> string option \<Rightarrow> string \<Rightarrow> int \<Rightarrow> int \<Rightarrow> AState \<Rightarrow> AState" where
  "add_event e i event operator reason binding revision now s =
     s\<lparr> as_events := as_events s @ [\<lparr> ev_request_id = i, ev_event = event, ev_operator_id = operator, ev_reason = reason,
        ev_binding_hash = en_sha256 e (''approval-v1'' @ [CHR 0x00] @ binding), ev_revision = revision, ev_created_at = now \<rparr>] \<rparr>"

definition update_request :: "string \<Rightarrow> int \<Rightarrow> (RequestRow \<Rightarrow> bool) \<Rightarrow> ApprovalStatus \<Rightarrow> AState \<Rightarrow> AState" where
  "update_request i revision P st s =
     s\<lparr> as_requests := update_where (\<lambda>r. rq_id r = i \<and> rq_revision r = revision \<and> P r)
        (\<lambda>r. r\<lparr> rq_status := st, rq_revision := rq_revision r + 1 \<rparr>) (as_requests s) \<rparr>"

definition is_open :: "RequestRow \<Rightarrow> bool" where
  "is_open r \<longleftrightarrow> rq_status r = Ap_pending \<or> rq_status r = Ap_approved"

definition expire_request :: "Engine \<Rightarrow> RequestRow \<Rightarrow> int \<Rightarrow> AState \<Rightarrow> AState" where
  "expire_request e r now s =
     (if exists_where (\<lambda>x. rq_id x = rq_id r \<and> rq_revision x = rq_revision r \<and> is_open x) (as_requests s)
      then add_event e (rq_id r) ''expired'' None (Some ''deadline reached'') (rq_binding r) (rq_revision r + 1) now
             (update_request (rq_id r) (rq_revision r) is_open Ap_expired s)
      else s)"

definition get_request :: "Engine \<Rightarrow> string \<Rightarrow> int \<Rightarrow> AState \<Rightarrow> RequestRow option \<times> AState" where
  "get_request e i now s =
     (case raw i s of
        None \<Rightarrow> (None, s)
      | Some r \<Rightarrow>
          if is_open r \<and> rq_expires_at r \<le> now
          then (let t = expire_request e r now s in (raw i t, t))
          else (Some r, s))"

text \<open>\<open>id\<close> is the primary key and \<open>challenge\<close> is \<open>UNIQUE\<close>.\<close>

definition request :: "Engine \<Rightarrow> ApprovalRequestInput \<Rightarrow> int \<Rightarrow> bool \<Rightarrow> string \<Rightarrow> int \<Rightarrow> AState \<Rightarrow> (AErr + RequestRow option) \<times> AState" where
  "request e i quorum suppliesChallenge challenge now s =
     (if \<not> validate i then (Inl A_invalid, s)
      else if suppliesChallenge then (Inl A_challenge_supplied, s)
      else if ai_type i \<notin> set APPROVAL_TYPES then (Inl A_type, s)
      else if quorum < 1 \<or> quorum > int (eligible_count e i) then (Inl A_quorum, s)
      else if ai_expiresAt i \<le> now then (Inl A_expired, s)
      else if exists_where (\<lambda>r. rq_id r = ai_id i \<or> rq_challenge r = challenge) (as_requests s) then (Inl A_sql, s)
      else
        (let binding = canonicalSerialize (boundKeys (en_sha256 e) (ai_bound i));
             row = \<lparr> rq_id = ai_id i, rq_type = ai_type i, rq_proposer_id = ai_proposerId i, rq_binding = binding,
                     rq_tx = canonicalSerialize (bt_serializedTransaction (ai_bound i)),
                     rq_display_impact = ai_displayImpact i, rq_expires_at = ai_expiresAt i, rq_quorum = quorum,
                     rq_challenge = challenge, rq_status = Ap_pending, rq_revision = 0, rq_created_at = now,
                     rq_config_version = en_configVersion e, rq_config_hash = en_configHash e \<rparr>;
             t = add_event e (ai_id i) ''created'' None None binding 0 now (s\<lparr> as_requests := as_requests s @ [row] \<rparr>);
             (r, u) = get_request e (ai_id i) now t
         in (Inr r, u)))"

text \<open>The checks of \<open>decide\<close>, in order, up to the insertion of the decision.\<close>

definition proof_of :: "string \<Rightarrow> RequestRow \<Rightarrow> DecisionInput \<Rightarrow> int \<Rightarrow> DecisionProof" where
  "proof_of i r d now =
     \<lparr> dp_input = d, dp_requestId = i, dp_revision = di_expectedRevision d,
       dp_timestamp = (case di_timestamp d of None \<Rightarrow> now | Some t \<Rightarrow> t),
       dp_configVersion = rq_config_version r, dp_configHash = rq_config_hash r \<rparr>"

definition decide_guards :: "Engine \<Rightarrow> string \<Rightarrow> RequestRow \<Rightarrow> DecisionInput \<Rightarrow> int \<Rightarrow> AState \<Rightarrow> AErr option" where
  "decide_guards e i r d now s =
     (if rq_expires_at r \<le> now then Some A_expired
      else if rq_status r \<noteq> Ap_pending then Some (A_status (rq_status r))
      else if rq_revision r \<noteq> di_expectedRevision d then Some A_revision
      else if di_operatorId d = rq_proposer_id r then Some A_self
      else if \<not> operator_ok e (di_operatorId d) (rq_type r) then Some A_operator
      else if di_challenge d \<noteq> rq_challenge r then Some A_challenge
      else if (let t = dp_timestamp (proof_of i r d now) in \<not> js_safe_integer t \<or> \<bar>now - t\<bar> > 300000) then Some A_timestamp
      else if (case di_proof d of None \<Rightarrow> True | Some pr \<Rightarrow> pr = []) \<or> \<not> en_verify e (proof_of i r d now) then Some A_proof
      else if exists_where (\<lambda>x. dr_request_id x = i \<and> dr_operator_id x = di_operatorId d) (as_decisions s) then Some A_distinct
      else if exists_where (\<lambda>x. dr_nonce x = di_nonce d) (as_decisions s) then Some A_replay
      else None)"

definition decision_row :: "string \<Rightarrow> DecisionInput \<Rightarrow> int \<Rightarrow> DecisionRow" where
  "decision_row i d now =
     \<lparr> dr_request_id = i, dr_operator_id = di_operatorId d, dr_decision = di_decision d, dr_challenge = di_challenge d,
       dr_nonce = di_nonce d, dr_reason = di_reason d, dr_created_at = now, dr_proof = di_proof d \<rparr>"

definition approvals_of :: "string \<Rightarrow> AState \<Rightarrow> nat" where
  "approvals_of i s = count_where (\<lambda>x. dr_request_id x = i \<and> dr_decision x = ''approve'') (as_decisions s)"

definition decide_apply :: "Engine \<Rightarrow> string \<Rightarrow> RequestRow \<Rightarrow> DecisionInput \<Rightarrow> int \<Rightarrow> AState \<Rightarrow> AState" where
  "decide_apply e i r d now s =
     (let t = s\<lparr> as_decisions := as_decisions s @ [decision_row i d now] \<rparr>;
          status = (if di_decision d = ''deny'' then Ap_denied
                    else if int (approvals_of i t) \<ge> rq_quorum r then Ap_approved else Ap_pending);
          u = update_request i (di_expectedRevision d) (\<lambda>_. True) status t
      in if status \<noteq> Ap_pending
         then add_event e i (if status = Ap_denied then ''denied'' else ''approved'') (Some (di_operatorId d)) (di_reason d)
                (rq_binding r) (di_expectedRevision d + 1) now u
         else u)"

definition decide :: "Engine \<Rightarrow> string \<Rightarrow> DecisionInput \<Rightarrow> int \<Rightarrow> AState \<Rightarrow> (AErr + RequestRow option) \<times> AState" where
  "decide e i d now s =
     (if \<not> text_ok 256 (di_nonce d) then (Inl A_invalid, s)
      else if di_decision d \<noteq> ''approve'' \<and> di_decision d \<noteq> ''deny'' then (Inl A_invalid, s)
      else case raw i s of
        None \<Rightarrow> (Inl A_unknown, s)
      | Some r \<Rightarrow>
          (case decide_guards e i r d now s of
             Some err \<Rightarrow> (Inl err, s)
           | None \<Rightarrow> (case get_request e i now (decide_apply e i r d now s) of (x, t) \<Rightarrow> (Inr x, t))))"

definition revoke :: "Engine \<Rightarrow> string \<Rightarrow> string \<Rightarrow> string \<Rightarrow> int \<Rightarrow> int \<Rightarrow> AState \<Rightarrow> (AErr + RequestRow option) \<times> AState" where
  "revoke e i operatorId reason expectedRevision now s =
     (if \<not> text_ok 2048 reason then (Inl A_invalid, s)
      else case raw i s of
        None \<Rightarrow> (Inl A_unknown, s)
      | Some r \<Rightarrow>
          if \<not> operator_ok e operatorId (rq_type r) then (Inl A_operator, s)
          else if rq_revision r \<noteq> expectedRevision then (Inl A_revision, s)
          else if \<not> is_open r then (Inl (A_status (rq_status r)), s)
          else (case get_request e i now
                  (add_event e i ''revoked'' (Some operatorId) (Some reason) (rq_binding r) (expectedRevision + 1) now
                    (update_request i expectedRevision is_open Ap_revoked s)) of (x, t) \<Rightarrow> (Inr x, t)))"

text \<open>An expired request is marked so, and that is committed, before \<open>consume\<close> throws.\<close>

definition consume :: "Engine \<Rightarrow> string \<Rightarrow> BoundTransaction \<Rightarrow> int \<Rightarrow> AState \<Rightarrow> (AErr + RequestRow option) \<times> AState" where
  "consume e i b now s =
     (case raw i s of
        None \<Rightarrow> (Inl A_unknown, s)
      | Some r \<Rightarrow>
          if rq_expires_at r \<le> now then (Inl A_expired, expire_request e r now s)
          else if rq_status r \<noteq> Ap_approved then (Inl (A_status (rq_status r)), s)
          else if canonicalSerialize (boundKeys (en_sha256 e) b) \<noteq> rq_binding r then (Inl A_mismatch, s)
          else (case get_request e i now
                  (add_event e i ''consumed'' None None (rq_binding r) (rq_revision r + 1) now
                    (update_request i (rq_revision r) (\<lambda>x. rq_status x = Ap_approved) Ap_consumed s)) of (x, t) \<Rightarrow> (Inr x, t)))"

definition decisions_of :: "string \<Rightarrow> AState \<Rightarrow> DecisionRow list" where
  "decisions_of i s = filter (\<lambda>x. dr_request_id x = i) (as_decisions s)"

definition audit :: "string \<Rightarrow> AState \<Rightarrow> EventRow list" where
  "audit i s = filter (\<lambda>x. ev_request_id x = i) (as_events s)"

section \<open>The binding is exact\<close>

lemma boundKeys_eq:
  "canonicalSerialize (boundKeys h a) = canonicalSerialize (boundKeys h b) \<longleftrightarrow>
     a\<lparr> bt_serializedTransaction := J_null \<rparr> = b\<lparr> bt_serializedTransaction := J_null \<rparr> \<and>
     canonicalHash h (bt_serializedTransaction a) = canonicalHash h (bt_serializedTransaction b)"
  unfolding boundKeys_def
  by (subst canonicalSerialize_same_keys) (cases a; cases b; auto)+

section \<open>How a request evolves\<close>

datatype AOp =
    AO_request ApprovalRequestInput int bool string
  | AO_get string
  | AO_decide string DecisionInput
  | AO_revoke string string string int
  | AO_consume string BoundTransaction

fun approval_op :: "Engine \<Rightarrow> int \<times> AOp \<Rightarrow> AState \<Rightarrow> AState" where
  "approval_op e (now, AO_request i q sc ch) s = snd (request e i q sc ch now s)"
| "approval_op e (now, AO_get i) s = snd (get_request e i now s)"
| "approval_op e (now, AO_decide i d) s = snd (decide e i d now s)"
| "approval_op e (now, AO_revoke i q why rv) s = snd (revoke e i q why rv now s)"
| "approval_op e (now, AO_consume i b) s = snd (consume e i b now s)"

definition run_approvals :: "Engine \<Rightarrow> (int \<times> AOp) list \<Rightarrow> AState \<Rightarrow> AState" where
  "run_approvals e ops s = fold (approval_op e) ops s"

text \<open>
  The only change a row ever sees: from an open status, with a higher revision, and nothing but
  the status and the revision.
\<close>

definition row_le :: "RequestRow \<Rightarrow> RequestRow \<Rightarrow> bool" where
  "row_le r r' \<longleftrightarrow> r' = r \<or>
     (is_open r \<and> rq_revision r < rq_revision r' \<and> r'\<lparr> rq_status := rq_status r, rq_revision := rq_revision r \<rparr> = r)"

lemma row_le_refl [simp]: "row_le r r"
  by (simp add: row_le_def)

lemma row_le_trans: "row_le a b \<Longrightarrow> row_le b c \<Longrightarrow> row_le a c"
  by (cases a; cases b; cases c) (auto simp: row_le_def)

lemma row_le_fields:
  "row_le r r' \<Longrightarrow> rq_id r' = rq_id r \<and> rq_type r' = rq_type r \<and> rq_proposer_id r' = rq_proposer_id r \<and>
     rq_binding r' = rq_binding r \<and> rq_quorum r' = rq_quorum r \<and> rq_challenge r' = rq_challenge r \<and>
     rq_expires_at r' = rq_expires_at r \<and> rq_revision r \<le> rq_revision r' \<and>
     (if is_open r then True else r' = r)"
  by (cases r; cases r') (auto simp: row_le_def)

definition rows_le :: "AState \<Rightarrow> AState \<Rightarrow> bool" where
  "rows_le s s' \<longleftrightarrow> (\<forall>i r. raw i s = Some r \<longrightarrow> (\<exists>r'. raw i s' = Some r' \<and> row_le r r'))"

lemma rows_le_refl [simp]: "rows_le s s"
  by (auto simp: rows_le_def)

lemma rows_le_trans: "rows_le s t \<Longrightarrow> rows_le t u \<Longrightarrow> rows_le s u"
  unfolding rows_le_def by (meson row_le_trans)

lemma raw_add_event [simp]: "raw i (add_event e j ev oper why b rv now s) = raw i s"
  by (simp add: raw_def add_event_def)

lemma raw_decisions [simp]: "raw i (s\<lparr> as_decisions := d \<rparr>) = raw i s"
  by (simp add: raw_def)

lemma raw_update:
  "raw j (update_request i rv P st s) = map_option (\<lambda>r. if rq_id r = i \<and> rq_revision r = rv \<and> P r
      then r\<lparr> rq_status := st, rq_revision := rq_revision r + 1 \<rparr> else r) (raw j s)"
  by (simp add: raw_def update_request_def find_where_update)

lemma raw_id: "raw i s = Some r \<Longrightarrow> rq_id r = i"
  by (auto simp: raw_def dest: find_where_Some)

lemma rows_le_update:
  assumes "\<And>r. raw i s = Some r \<Longrightarrow> rq_revision r = rv \<Longrightarrow> P r \<Longrightarrow> is_open r"
  shows "rows_le s (update_request i rv P st s)"
  using assms by (auto simp: rows_le_def raw_update row_le_def dest: raw_id)

lemma rows_le_add_event [simp]: "rows_le s (add_event e j ev oper why b rv now t) = rows_le s t"
  by (simp add: rows_le_def)

lemma rows_le_expire: "rows_le s (expire_request e r now s)"
  by (simp add: expire_request_def rows_le_update)

lemma rows_le_get: "rows_le s (snd (get_request e i now s))"
  by (auto simp: get_request_def Let_def rows_le_expire split: option.split)

lemma rows_le_then_get: "rows_le s t \<Longrightarrow> rows_le s (snd (get_request e i now t))"
  using rows_le_get rows_le_trans by blast

lemma snd_then_get [simp]: "snd (case p of (x, t) \<Rightarrow> (Inr x, t)) = snd p"
  by (cases p) simp

lemma rows_le_request: "rows_le s (snd (request e i q sc ch now s))"
proof -
  have new: "rows_le s (s\<lparr> as_requests := as_requests s @ [row] \<rparr>)" for row
    by (auto simp: rows_le_def raw_def find_where_append)
  show ?thesis
    by (simp add: request_def Let_def rows_le_then_get new)
qed

lemma decide_guards_pending:
  "decide_guards e i r d now s = None \<Longrightarrow> rq_status r = Ap_pending \<and> rq_revision r = di_expectedRevision d"
  by (auto simp: decide_guards_def split: if_splits)

lemma rows_le_decide_apply:
  assumes "raw i s = Some r" "rq_status r = Ap_pending"
  shows "rows_le s (decide_apply e i r d now s)"
proof -
  have "rows_le s (update_request i rv (\<lambda>_. True) st (s\<lparr> as_decisions := ds \<rparr>))" for st rv ds
  proof -
    have "rows_le s (s\<lparr> as_decisions := ds \<rparr>)" by (auto simp: rows_le_def)
    moreover have "rows_le (s\<lparr> as_decisions := ds \<rparr>) (update_request i rv (\<lambda>_. True) st (s\<lparr> as_decisions := ds \<rparr>))"
      by (rule rows_le_update) (use assms in \<open>auto simp: is_open_def\<close>)
    ultimately show ?thesis by (rule rows_le_trans)
  qed
  then show ?thesis by (simp add: decide_apply_def Let_def)
qed

lemma rows_le_decide: "rows_le s (snd (decide e i d now s))"
  by (auto simp: decide_def decide_guards_pending intro!: rows_le_then_get rows_le_decide_apply split: option.split)

lemma rows_le_revoke: "rows_le s (snd (revoke e i q why rv now s))"
  by (auto simp: revoke_def intro!: rows_le_then_get rows_le_update split: option.split)

lemma rows_le_consume: "rows_le s (snd (consume e i b now s))"
proof -
  have "rows_le s (update_request i rv (\<lambda>x. rq_status x = Ap_approved) st s)" for rv st
    by (rule rows_le_update) (simp add: is_open_def)
  then show ?thesis
    by (auto simp: consume_def rows_le_expire intro!: rows_le_then_get split: option.split)
qed

lemma rows_le_op: "rows_le s (approval_op e x s)"
  by (cases "(e, x, s)" rule: approval_op.cases)
    (simp_all add: rows_le_request rows_le_get rows_le_decide rows_le_revoke rows_le_consume)

lemma rows_le_run: "rows_le s (run_approvals e ops s)"
  unfolding run_approvals_def
  by (induction ops arbitrary: s) (auto intro: rows_le_trans [OF rows_le_op])

text \<open>
  Whatever happens to the engine, a request's row keeps its type, proposer, binding and quorum,
  its revision never falls, and once it is denied, expired, revoked or consumed the row does not
  change any more.
\<close>

theorem approval_terminal:
  "case raw i s of
     None \<Rightarrow> True
   | Some r \<Rightarrow>
       (case raw i (run_approvals e ops s) of
          None \<Rightarrow> False
        | Some r' \<Rightarrow> rq_type r' = rq_type r \<and> rq_proposer_id r' = rq_proposer_id r \<and> rq_binding r' = rq_binding r \<and>
            rq_quorum r' = rq_quorum r \<and> rq_revision r \<le> rq_revision r' \<and> (if is_open r then True else r' = r))"
proof (cases "raw i s")
  case (Some r)
  then obtain r' where "raw i (run_approvals e ops s) = Some r'" "row_le r r'"
    using rows_le_run [of s e ops] by (auto simp: rows_le_def)
  then show ?thesis using Some row_le_fields by auto
qed simp

section \<open>Quorum\<close>

definition decisions_ok :: "Engine \<Rightarrow> AState \<Rightarrow> bool" where
  "decisions_ok e s \<longleftrightarrow>
     distinct (map (\<lambda>x. (dr_request_id x, dr_operator_id x)) (as_decisions s)) \<and> distinct (map dr_nonce (as_decisions s)) \<and>
     (\<forall>x \<in> set (as_decisions s). \<exists>r. raw (dr_request_id x) s = Some r \<and> dr_operator_id x \<noteq> rq_proposer_id r \<and>
        operator_ok e (dr_operator_id x) (rq_type r) \<and> dr_challenge x = rq_challenge r)"

definition granted :: "RequestRow \<Rightarrow> bool" where
  "granted r \<longleftrightarrow> rq_status r = Ap_approved \<or> rq_status r = Ap_consumed"

definition quorums_ok :: "AState \<Rightarrow> bool" where
  "quorums_ok s \<longleftrightarrow> (\<forall>i r. raw i s = Some r \<longrightarrow> 1 \<le> rq_quorum r \<and> (granted r \<longrightarrow> rq_quorum r \<le> int (approvals_of i s)))"

lemma decisions_ok_mono:
  assumes "decisions_ok e s" "rows_le s t" "as_decisions t = as_decisions s"
  shows "decisions_ok e t"
  unfolding decisions_ok_def
proof (intro conjI ballI)
  show "distinct (map (\<lambda>x. (dr_request_id x, dr_operator_id x)) (as_decisions t))" "distinct (map dr_nonce (as_decisions t))"
    using assms by (simp_all add: decisions_ok_def)
  fix x assume "x \<in> set (as_decisions t)"
  then obtain r where r: "raw (dr_request_id x) s = Some r" "dr_operator_id x \<noteq> rq_proposer_id r"
      "operator_ok e (dr_operator_id x) (rq_type r)" "dr_challenge x = rq_challenge r"
    using assms by (auto simp: decisions_ok_def)
  then obtain r' where "raw (dr_request_id x) t = Some r'" "row_le r r'"
    using assms by (auto simp: rows_le_def)
  then show "\<exists>r. raw (dr_request_id x) t = Some r \<and> dr_operator_id x \<noteq> rq_proposer_id r \<and>
        operator_ok e (dr_operator_id x) (rq_type r) \<and> dr_challenge x = rq_challenge r"
    using r by (auto dest: row_le_fields)
qed

lemma as_decisions_simps [simp]:
  "as_decisions (add_event e j ev oper why b rv now s) = as_decisions s"
  "as_decisions (update_request i rv P st s) = as_decisions s"
  "as_decisions (expire_request e r now s) = as_decisions s"
  "as_decisions (snd (get_request e i now s)) = as_decisions s"
  by (simp_all add: add_event_def update_request_def expire_request_def get_request_def Let_def split: option.split)

lemma approvals_of_cong: "as_decisions s = as_decisions t \<Longrightarrow> approvals_of i s = approvals_of i t"
  by (simp add: approvals_of_def)

lemma quorums_ok_add_event [simp]: "quorums_ok (add_event e j ev oper why b rv now s) = quorums_ok s"
  by (simp add: quorums_ok_def approvals_of_def)

lemma quorums_ok_update:
  assumes "quorums_ok s"
    and "\<And>r. raw i s = Some r \<Longrightarrow> rq_revision r = rv \<Longrightarrow> P r \<Longrightarrow> st = Ap_approved \<or> st = Ap_consumed
           \<Longrightarrow> rq_quorum r \<le> int (approvals_of i s)"
  shows "quorums_ok (update_request i rv P st s)"
  unfolding quorums_ok_def
proof (intro allI impI)
  fix j r' assume "raw j (update_request i rv P st s) = Some r'"
  then obtain r where r: "raw j s = Some r" and r': "r' = (if rq_id r = i \<and> rq_revision r = rv \<and> P r
      then r\<lparr> rq_status := st, rq_revision := rq_revision r + 1 \<rparr> else r)"
    by (auto simp: raw_update)
  have "approvals_of j (update_request i rv P st s) = approvals_of j s" by (simp add: approvals_of_def)
  then show "1 \<le> rq_quorum r' \<and> (granted r' \<longrightarrow> rq_quorum r' \<le> int (approvals_of j (update_request i rv P st s)))"
    using assms r r' raw_id [OF r] by (auto simp: quorums_ok_def granted_def split: if_splits)
qed

lemma quorums_ok_get: "quorums_ok s \<Longrightarrow> quorums_ok (snd (get_request e i now s))"
  by (auto simp: get_request_def expire_request_def Let_def intro!: quorums_ok_update split: option.split)

lemma quorums_ok_request: "quorums_ok s \<Longrightarrow> quorums_ok (snd (request e i q sc ch now s))"
proof -
  assume ok: "quorums_ok s"
  have "quorums_ok (s\<lparr> as_requests := as_requests s @ [row] \<rparr>)"
    if "rq_status row = Ap_pending" "1 \<le> rq_quorum row" for row
    using ok that by (auto simp: quorums_ok_def raw_def find_where_append granted_def approvals_of_def split: option.splits if_splits)
  then show ?thesis
    using ok by (simp add: request_def Let_def quorums_ok_get)
qed

lemma request_decisions [simp]: "as_decisions (snd (request e i q sc ch now s)) = as_decisions s"
  by (simp add: request_def Let_def)

lemma revoke_decisions [simp]: "as_decisions (snd (revoke e i q why rv now s)) = as_decisions s"
  by (simp add: revoke_def split: option.split)

lemma consume_decisions [simp]: "as_decisions (snd (consume e i b now s)) = as_decisions s"
  by (simp add: consume_def split: option.split)

lemma decide_apply_decisions:
  "as_decisions (decide_apply e i r d now s) = as_decisions s @ [decision_row i d now]"
  by (simp add: decide_apply_def Let_def)

lemma quorums_ok_revoke: "quorums_ok s \<Longrightarrow> quorums_ok (snd (revoke e i q why rv now s))"
  by (auto simp: revoke_def intro!: quorums_ok_get quorums_ok_update split: option.split)

lemma quorums_ok_consume: "quorums_ok s \<Longrightarrow> quorums_ok (snd (consume e i b now s))"
  by (auto simp: consume_def expire_request_def intro!: quorums_ok_get quorums_ok_update split: option.split)
    (auto simp: quorums_ok_def granted_def)

lemma quorums_ok_decide_apply:
  assumes "quorums_ok s" "raw i s = Some r"
  shows "quorums_ok (decide_apply e i r d now s)"
proof -
  let ?t = "s\<lparr> as_decisions := as_decisions s @ [decision_row i d now] \<rparr>"
  have "quorums_ok ?t"
    using assms by (fastforce simp: quorums_ok_def approvals_of_def)
  moreover have "raw i ?t = Some r" using assms by simp
  ultimately show ?thesis
    by (auto simp: decide_apply_def Let_def intro!: quorums_ok_update split: if_splits)
qed

lemma quorums_ok_decide: "quorums_ok s \<Longrightarrow> quorums_ok (snd (decide e i d now s))"
  by (auto simp: decide_def intro!: quorums_ok_get quorums_ok_decide_apply split: option.split)

lemma quorums_ok_run: "quorums_ok s \<Longrightarrow> quorums_ok (run_approvals e ops s)"
proof (induction ops arbitrary: s)
  case (Cons x ops)
  have "quorums_ok (approval_op e x s)"
    by (cases "(e, x, s)" rule: approval_op.cases)
      (simp_all add: Cons.prems quorums_ok_request quorums_ok_get quorums_ok_decide quorums_ok_revoke quorums_ok_consume)
  then show ?case using Cons.IH by (simp add: run_approvals_def)
qed (simp add: run_approvals_def)

lemma decisions_ok_decide:
  assumes ok: "decisions_ok e s"
  shows "decisions_ok e (snd (decide e i d now s))"
proof (cases "\<exists>r. raw i s = Some r \<and> decide_guards e i r d now s = None \<and>
    snd (decide e i d now s) = snd (get_request e i now (decide_apply e i r d now s))")
  case True
  then obtain r where r: "raw i s = Some r" and g: "decide_guards e i r d now s = None"
    and eq: "snd (decide e i d now s) = snd (get_request e i now (decide_apply e i r d now s))" by blast
  let ?t = "s\<lparr> as_decisions := as_decisions s @ [decision_row i d now] \<rparr>"
  have "decisions_ok e ?t"
    using ok r g by (auto simp: decisions_ok_def decide_guards_def decision_row_def exists_where_def list_ex_iff image_iff
        split: if_splits)
  moreover have "rows_le ?t (decide_apply e i r d now ?t)"
    using r g decide_guards_pending by (intro rows_le_decide_apply) auto
  moreover have "rows_le s (snd (decide e i d now s))" by (rule rows_le_decide)
  then have "rows_le ?t (snd (decide e i d now s))" by (simp add: rows_le_def)
  moreover have "as_decisions (snd (decide e i d now s)) = as_decisions ?t"
    by (simp add: eq decide_apply_decisions)
  ultimately show ?thesis using decisions_ok_mono by blast
next
  case False
  then have "snd (decide e i d now s) = s"
    by (auto simp: decide_def split: option.splits if_splits)
  then show ?thesis using ok by simp
qed

lemma decisions_ok_run: "decisions_ok e s \<Longrightarrow> decisions_ok e (run_approvals e ops s)"
proof (induction ops arbitrary: s)
  case (Cons x ops)
  have "decisions_ok e (approval_op e x s)"
    by (cases "(e, x, s)" rule: approval_op.cases)
      (simp_all add: decisions_ok_decide Cons.prems decisions_ok_mono [OF Cons.prems]
        rows_le_request rows_le_get rows_le_revoke rows_le_consume)
  then show ?case using Cons.IH by (simp add: run_approvals_def)
qed (simp add: run_approvals_def)

definition approvers :: "string \<Rightarrow> AState \<Rightarrow> string set" where
  "approvers i s = dr_operator_id ` {x \<in> set (as_decisions s). dr_request_id x = i \<and> dr_decision x = ''approve''}"

lemma approvals_of_card:
  assumes "decisions_ok e s"
  shows "approvals_of i s = card (approvers i s)"
proof -
  let ?xs = "filter (\<lambda>x. dr_request_id x = i \<and> dr_decision x = ''approve'') (as_decisions s)"
  have "distinct (map (\<lambda>x. (dr_request_id x, dr_operator_id x)) ?xs)"
    using assms by (simp add: decisions_ok_def distinct_map_filter)
  then have "distinct (map dr_operator_id ?xs)"
    by (auto simp: distinct_map inj_on_def)
  then have "card (set (map dr_operator_id ?xs)) = length (map dr_operator_id ?xs)"
    by (rule distinct_card)
  then show ?thesis by (simp add: approvals_of_def count_where_def approvers_def)
qed

lemma reachable_ok:
  "decisions_ok e (run_approvals e ops empty_approvals)" "quorums_ok (run_approvals e ops empty_approvals)"
  by (rule decisions_ok_run, simp add: decisions_ok_def empty_approvals_def)
    (rule quorums_ok_run, simp add: quorums_ok_def raw_def empty_approvals_def)

lemma approver_ok:
  assumes "decisions_ok e s" "raw i s = Some r" "q \<in> approvers i s"
  shows "q \<noteq> rq_proposer_id r \<and> operator_ok e q (rq_type r)"
  using assms by (auto simp: approvers_def decisions_ok_def)

text \<open>
  C12: in every state the engine can reach, a request that is approved or consumed was approved by at
  least its quorum of distinct operators, a quorum of one at the least, and each operator who
  approved holds the approver role and the scope of the request and is not its proposer.
\<close>

theorem approvals_quorum:
  "let s = run_approvals e ops empty_approvals in
   case raw i s of
     None \<Rightarrow> True
   | Some r \<Rightarrow> 1 \<le> rq_quorum r \<and> (if granted r then rq_quorum r \<le> int (card (approvers i s)) else True) \<and>
       approvers i s \<subseteq> {q. q \<noteq> rq_proposer_id r \<and> operator_ok e q (rq_type r)}"
proof -
  let ?s = "run_approvals e ops empty_approvals"
  have "1 \<le> rq_quorum r \<and> (if granted r then rq_quorum r \<le> int (card (approvers i ?s)) else True) \<and>
      approvers i ?s \<subseteq> {q. q \<noteq> rq_proposer_id r \<and> operator_ok e q (rq_type r)}" if "raw i ?s = Some r" for r
    using that reachable_ok [of e ops] approver_ok [OF reachable_ok(1) that] approvals_of_card [OF reachable_ok(1), of i e ops]
    unfolding quorums_ok_def by fastforce
  then show ?thesis by (auto simp: Let_def split: option.split)
qed

section \<open>Consumption\<close>

definition claim_approval :: "Engine \<Rightarrow> string \<times> BoundTransaction \<times> int \<Rightarrow> AState \<Rightarrow> bool \<times> AState" where
  "claim_approval e c s = (case c of (i, b, now) \<Rightarrow>
     (case consume e i b now s of (Inr x, t) \<Rightarrow> (True, t) | (Inl x, t) \<Rightarrow> (False, t)))"

definition is_consumed :: "AState \<Rightarrow> string \<Rightarrow> bool" where
  "is_consumed s i \<longleftrightarrow> (case raw i s of None \<Rightarrow> False | Some r \<Rightarrow> rq_status r = Ap_consumed)"

lemma claim_approval_snd: "snd (claim_approval e (i, b, now) s) = snd (consume e i b now s)"
  by (simp add: claim_approval_def split: prod.split sum.split)

lemma is_consumed_mono: "is_consumed s i \<Longrightarrow> rows_le s t \<Longrightarrow> is_consumed t i"
  by (fastforce simp: is_consumed_def rows_le_def row_le_def is_open_def split: option.splits)

lemma consume_won:
  assumes "fst (consume e i b now s) = Inr x"
  shows "\<exists>r. raw i s = Some r \<and> now < rq_expires_at r \<and> rq_status r = Ap_approved \<and>
     canonicalSerialize (boundKeys (en_sha256 e) b) = rq_binding r \<and> is_consumed (snd (consume e i b now s)) i"
  using assms
  by (auto simp: consume_def is_consumed_def get_request_def raw_update is_open_def dest: raw_id split: option.splits if_splits)

interpretation approvals: fence "claim_approval e" fst is_consumed for e
proof
  fix a :: "string \<times> BoundTransaction \<times> int" and s k
  obtain i b now where a: "a = (i, b, now)" by (cases a)
  have won: "fst (claim_approval e a s) \<Longrightarrow> \<exists>x. fst (consume e i b now s) = Inr x"
    by (auto simp: a claim_approval_def split: prod.splits sum.splits)
  show "fst (claim_approval e a s) \<Longrightarrow> \<not> is_consumed s (fst a)"
    using won consume_won by (fastforce simp: a is_consumed_def)
  show "fst (claim_approval e a s) \<Longrightarrow> is_consumed (snd (claim_approval e a s)) (fst a)"
    using won consume_won by (fastforce simp: a claim_approval_snd)
  show "is_consumed s k \<Longrightarrow> is_consumed (snd (claim_approval e a s)) k"
    using rows_le_consume is_consumed_mono by (simp add: a claim_approval_snd)
qed

text \<open>
  Over any history of one engine, \<open>consume\<close> calls mixed with any other calls, a request is
  consumed at most once, and never when its row already says so.
\<close>

theorem approval_consumed_once:
  "wins fst i (run_claims (claim_approval e) (map (map_sum id (approval_op e)) ops) s) \<le> (if is_consumed s i then 0 else 1)"
proof (rule approvals.wins_le)
  fix f s' k'
  assume "Inr f \<in> set (map (map_sum id (approval_op e)) ops)" and taken: "is_consumed s' k'"
  then obtain x :: "(string \<times> BoundTransaction \<times> int) + (int \<times> AOp)" where "Inr f = map_sum id (approval_op e) x"
    unfolding set_map by blast
  then obtain y where "f = approval_op e y" by (cases x) auto
  then show "is_consumed (f s') k'" using is_consumed_mono [OF taken rows_le_op] by simp
qed

lemma raw_append:
  "raw i (s\<lparr> as_requests := as_requests s @ [row] \<rparr>) =
     (case raw i s of Some r \<Rightarrow> Some r | None \<Rightarrow> if rq_id row = i then Some row else None)"
  by (simp add: raw_def find_where_append split: option.split)

lemma get_request_live: "raw i s = Some r \<Longrightarrow> now < rq_expires_at r \<Longrightarrow> get_request e i now s = (Some r, s)"
  by (simp add: get_request_def)

lemma request_row:
  assumes "fst (request e inp q sc ch t0 s) = Inr x"
  shows "\<exists>r. raw (ai_id inp) (snd (request e inp q sc ch t0 s)) = Some r \<and> rq_quorum r = q \<and>
     rq_expires_at r = ai_expiresAt inp \<and> rq_proposer_id r = ai_proposerId inp \<and> rq_type r = ai_type inp \<and>
     rq_binding r = canonicalSerialize (boundKeys (en_sha256 e) (ai_bound inp))"
proof -
  have "raw (ai_id inp) s = None" if "\<not> exists_where (\<lambda>r. rq_id r = ai_id inp \<or> rq_challenge r = ch) (as_requests s)"
    using that unfolding raw_def by (induction "as_requests s" arbitrary: s) (auto simp: exists_where_def list_ex_iff find_where_None)
  then show ?thesis
    using assms
    by (simp add: request_def Let_def raw_append get_request_live split: if_splits)
qed

text \<open>
  C10: a transaction is consumed under an approval only as it was requested. Let a request be
  accepted in any reachable state and anything happen after it: when \<open>consume\<close> then succeeds, its
  transaction agrees with the requested one in every bound field and in the hash of the
  transaction, the deadline has not passed, and operators of the requested quorum, none of them
  the proposer and each with the role and the scope, have approved.
\<close>

theorem consumed_as_requested:
  assumes "fst (request e inp q sc ch t0 (run_approvals e ops empty_approvals)) = Inr x"
    and "s = run_approvals e later (snd (request e inp q sc ch t0 (run_approvals e ops empty_approvals)))"
    and "fst (consume e (ai_id inp) b now s) = Inr y"
  shows "b\<lparr> bt_serializedTransaction := J_null \<rparr> = (ai_bound inp)\<lparr> bt_serializedTransaction := J_null \<rparr> \<and>
     canonicalHash (en_sha256 e) (bt_serializedTransaction b) =
       canonicalHash (en_sha256 e) (bt_serializedTransaction (ai_bound inp)) \<and>
     now < ai_expiresAt inp \<and> q \<le> int (card (approvers (ai_id inp) s)) \<and>
     approvers (ai_id inp) s \<subseteq> {p. p \<noteq> ai_proposerId inp \<and> operator_ok e p (ai_type inp)}"
proof -
  let ?all = "ops @ (t0, AO_request inp q sc ch) # later"
  have s: "s = run_approvals e ?all empty_approvals" using assms(2) by (simp add: run_approvals_def)
  obtain r where r: "raw (ai_id inp) (snd (request e inp q sc ch t0 (run_approvals e ops empty_approvals))) = Some r"
    "rq_quorum r = q" "rq_expires_at r = ai_expiresAt inp" "rq_proposer_id r = ai_proposerId inp" "rq_type r = ai_type inp"
    "rq_binding r = canonicalSerialize (boundKeys (en_sha256 e) (ai_bound inp))"
    using request_row [OF assms(1)] by blast
  obtain r' where r': "raw (ai_id inp) s = Some r'" and le: "row_le r r'"
    using rows_le_run r(1) unfolding assms(2) rows_le_def by blast
  have won: "now < rq_expires_at r'" "rq_status r' = Ap_approved"
    "canonicalSerialize (boundKeys (en_sha256 e) b) = rq_binding r'"
    using consume_won [OF assms(3)] r' by auto
  have same: "rq_quorum r' = q" "rq_proposer_id r' = ai_proposerId inp" "rq_type r' = ai_type inp"
    "rq_expires_at r' = ai_expiresAt inp" "rq_binding r' = canonicalSerialize (boundKeys (en_sha256 e) (ai_bound inp))"
    using r row_le_fields [OF le] by simp_all
  have ok: "decisions_ok e s" "quorums_ok s" by (simp_all only: s reachable_ok)
  have "q \<le> int (card (approvers (ai_id inp) s))"
    using ok r' won(2) same(1) by (auto simp: quorums_ok_def granted_def approvals_of_card)
  moreover have "approvers (ai_id inp) s \<subseteq> {p. p \<noteq> ai_proposerId inp \<and> operator_ok e p (ai_type inp)}"
    using approver_ok [OF ok(1) r'] same by auto
  moreover have "canonicalSerialize (boundKeys (en_sha256 e) b) = canonicalSerialize (boundKeys (en_sha256 e) (ai_bound inp))"
    using won same by simp
  ultimately show ?thesis
    using won(1) same unfolding boundKeys_eq by simp
qed

subsection \<open>An example\<close>

definition demo_tx :: json where
  "demo_tx = J_obj [(''to'', J_str ''a''), (''data'', J_str ''''), (''value'', J_num 5), (''nonce'', J_num 1)]"

definition demo_bound :: BoundTransaction where
  "demo_bound = \<lparr> bt_chain = ''solana'', bt_serializedTransaction = demo_tx, bt_intentHash = ''i'', bt_policyHash = ''p'',
     bt_policyVersion = ''1'', bt_simulationHash = ''h'', bt_simulationBlock = ''9'', bt_simulationState = ''s'',
     bt_account = ''a'', bt_nonce = ''1'', bt_value = ''5'', bt_calldata = ''x'', bt_router = ''r'' \<rparr>"

definition demo_engine :: Engine where
  "demo_engine = \<lparr> en_operators = [\<lparr> op_id = ''alice'', op_roles = [''approver''], op_scopes = [''*''] \<rparr>],
     en_configVersion = ''1'', en_verify = (\<lambda>_. True), en_sha256 = (\<lambda>x. x) \<rparr>"

definition demo_request :: ApprovalRequestInput where
  "demo_request = \<lparr> ai_id = ''q1'', ai_type = ''sign'', ai_proposerId = ''bob'', ai_bound = demo_bound,
     ai_expiresAt = 1000, ai_displayImpact = None \<rparr>"

definition demo_decision :: DecisionInput where
  "demo_decision = \<lparr> di_operatorId = ''alice'', di_decision = ''approve'', di_challenge = ''c'', di_nonce = ''n'',
     di_expectedRevision = 0, di_timestamp = None, di_proof = Some ''ok'', di_reason = None \<rparr>"

definition demo_later :: "(int \<times> AOp) list" where
  "demo_later = [(10, AO_decide ''q1'' demo_decision)]"

lemma demo_valid: "validate demo_request" "text_ok 256 (di_nonce demo_decision)"
  by code_simp+

lemmas demo_simps = demo_request_def demo_engine_def demo_decision_def demo_later_def empty_approvals_def run_approvals_def
  request_def decide_def decide_guards_def decide_apply_def decision_row_def proof_of_def operator_ok_def approver_for_def
  get_request_live raw_def add_event_def update_request_def consume_def
  APPROVAL_TYPES_def eligible_count_def js_safe_integer_def max_safe_integer_def exists_where_def approvals_of_def Let_def

lemma demo_request_ok:
  "fst (request demo_engine demo_request 1 False ''c'' 5 (run_approvals demo_engine [] empty_approvals)) = Inr
     (raw ''q1'' (snd (request demo_engine demo_request 1 False ''c'' 5 empty_approvals)))"
  using demo_valid by (simp add: demo_simps)

definition demo_ready :: AState where
  "demo_ready = run_approvals demo_engine demo_later
     (snd (request demo_engine demo_request 1 False ''c'' 5 (run_approvals demo_engine [] empty_approvals)))"

lemma demo_consume_ok:
  "fst (consume demo_engine (ai_id demo_request) demo_bound 20 demo_ready) =
     Inr (fst (get_request demo_engine ''q1'' 20 (snd (consume demo_engine ''q1'' demo_bound 20 demo_ready))))"
  using demo_valid by (simp add: demo_ready_def demo_simps)

theorem consumed_as_requested_witness:
  "canonicalHash (en_sha256 demo_engine) (bt_serializedTransaction demo_bound) =
     canonicalHash (en_sha256 demo_engine) (bt_serializedTransaction (ai_bound demo_request)) \<and>
   20 < ai_expiresAt demo_request \<and> 1 \<le> int (card (approvers (ai_id demo_request) demo_ready))"
  using consumed_as_requested [OF demo_request_ok demo_ready_def demo_consume_ok] by simp

end
