(* ===== verification/SignerTx.thy ===== *)
theory SignerTx
  imports Json "HOL-Library.Word"
begin

text \<open>
  \<open>src/src/signer/transaction.ts\<close>: the signer's own decoding of a wire transaction. The Solana
  library (\<open>VersionedTransaction\<close>, base58) and SHA-256 are parameters, collected in the record
  \<open>SolanaLib\<close>; \<open>Vtx\<close> is the transaction object the library returns, with base58 texts for its
  keys and the bytes of its message. Base64 and hex are Node's \<open>Buffer\<close> and are defined here.
\<close>

section \<open>Bytes\<close>

type_synonym bytes = "8 word list"

definition b64_char :: "nat \<Rightarrow> char" where
  "b64_char n =
     (if n < 26 then char_of (65 + n) else if n < 52 then char_of (71 + n) else if n < 62 then char_of (n - 4)
      else if n = 62 then CHR ''+'' else CHR ''/'')"

text \<open>\<open>Buffer.toString("base64")\<close>.\<close>

fun b64_encode :: "bytes \<Rightarrow> string" where
  "b64_encode [] = []"
| "b64_encode [a] = [b64_char (unat a div 4), b64_char (16 * (unat a mod 4)), CHR ''='', CHR ''='']"
| "b64_encode [a, b] =
     [b64_char (unat a div 4), b64_char (16 * (unat a mod 4) + unat b div 16), b64_char (4 * (unat b mod 16)), CHR ''='']"
| "b64_encode (a # b # c # bs) =
     b64_char (unat a div 4) # b64_char (16 * (unat a mod 4) + unat b div 16) #
     b64_char (4 * (unat b mod 16) + unat c div 64) # b64_char (unat c mod 64) # b64_encode bs"

text \<open>
  \<open>Buffer.from(s, "base64")\<close>: the text up to the first \<open>=\<close>, in either alphabet, every other
  character skipped, an incomplete last byte dropped. It never throws on a string.
\<close>

definition b64_value :: "char \<Rightarrow> nat option" where
  "b64_value c =
     (let n = of_char c :: nat in
      if 65 \<le> n \<and> n \<le> 90 then Some (n - 65)
      else if 97 \<le> n \<and> n \<le> 122 then Some (n - 71)
      else if 48 \<le> n \<and> n \<le> 57 then Some (n + 4)
      else if n = 43 \<or> n = 45 then Some 62
      else if n = 47 \<or> n = 95 then Some 63
      else None)"

fun b64_bytes :: "nat list \<Rightarrow> bytes" where
  "b64_bytes (p # q # r # s # vs) =
     word_of_nat (4 * p + q div 16) # word_of_nat (16 * (q mod 16) + r div 4) # word_of_nat (64 * (r mod 4) + s) # b64_bytes vs"
| "b64_bytes [p, q, r] = [word_of_nat (4 * p + q div 16), word_of_nat (16 * (q mod 16) + r div 4)]"
| "b64_bytes [p, q] = [word_of_nat (4 * p + q div 16)]"
| "b64_bytes _ = []"

definition b64_values :: "string \<Rightarrow> nat list" where
  "b64_values s = List.map_filter b64_value (takeWhile (\<lambda>c. c \<noteq> CHR ''='') s)"

definition b64_decode :: "string \<Rightarrow> bytes" where
  "b64_decode s = b64_bytes (b64_values s)"

definition hex_byte :: "8 word \<Rightarrow> string" where
  "hex_byte b = [hex_char (unat b div 16), hex_char (unat b mod 16)]"

definition hex :: "bytes \<Rightarrow> string" where
  "hex bs = concat (map hex_byte bs)"

lemma byte_less: "unat (b :: 8 word) < 256"
  using unsigned_less [of b] by simp

lemma b64_char_value: "n < 64 \<Longrightarrow> b64_value (b64_char n) = Some n"
proof -
  assume n: "n < 64"
  consider "n < 26" | "26 \<le> n" "n < 52" | "52 \<le> n" "n < 62" | "n = 62" | "n = 63" using n by linarith
  then show ?thesis
    by cases (simp add: b64_char_def b64_value_def Let_def, (simp add: b64_char_def b64_value_def Let_def; linarith)+)
qed

lemma b64_char_not_pad: "n < 64 \<Longrightarrow> b64_char n \<noteq> CHR ''=''"
  using b64_char_value [of n] by (auto simp: b64_value_def)

lemma b64_values_simps [simp]:
  "b64_values [] = []" "b64_values (CHR ''='' # s) = []"
  by (simp_all add: b64_values_def List.map_filter_def)

lemma b64_values_char [simp]: "n < 64 \<Longrightarrow> b64_values (b64_char n # s) = n # b64_values s"
  using b64_char_value [of n] b64_char_not_pad [of n] by (simp add: b64_values_def List.map_filter_def)

lemma split_bytes:
  fixes x y z :: nat
  shows "x < 256 \<Longrightarrow> x div 4 < 64" "16 * (x mod 4) < 64" "y < 256 \<Longrightarrow> 16 * (x mod 4) + y div 16 < 64"
    "4 * (y mod 16) < 64" "z < 256 \<Longrightarrow> 4 * (y mod 16) + z div 64 < 64" "z mod 64 < 64"
proof -
  have m: "x mod 4 < 4" "y mod 16 < 16" "z mod 64 < 64" by simp_all
  show "16 * (x mod 4) < 64" "4 * (y mod 16) < 64" "z mod 64 < 64" using m by linarith+
  show "x < 256 \<Longrightarrow> x div 4 < 64" by (rule less_mult_imp_div_less) simp
  assume "y < 256"
  then have "y div 16 < 16" by (intro less_mult_imp_div_less) simp
  then show "16 * (x mod 4) + y div 16 < 64" using m by linarith
next
  assume "z < 256"
  then have "z div 64 < 4" by (intro less_mult_imp_div_less) simp
  moreover have "y mod 16 < 16" by simp
  ultimately show "4 * (y mod 16) + z div 64 < 64" by linarith
qed

lemma join_bytes:
  fixes x y z :: nat
  shows "4 * (x div 4) + 16 * (x mod 4) div 16 = x"
    "y < 256 \<Longrightarrow> 4 * (x div 4) + (16 * (x mod 4) + y div 16) div 16 = x"
    "y < 256 \<Longrightarrow> 16 * ((16 * (x mod 4) + y div 16) mod 16) + 4 * (y mod 16) div 4 = y"
    "y < 256 \<Longrightarrow> z < 256 \<Longrightarrow> 16 * ((16 * (x mod 4) + y div 16) mod 16) + (4 * (y mod 16) + z div 64) div 4 = y"
    "z < 256 \<Longrightarrow> 64 * ((4 * (y mod 16) + z div 64) mod 4) + z mod 64 = z"
proof -
  show "4 * (x div 4) + 16 * (x mod 4) div 16 = x" by simp
next
  assume y: "y < 256"
  then have k: "y div 16 < 16" by (intro less_mult_imp_div_less) simp
  show "4 * (x div 4) + (16 * (x mod 4) + y div 16) div 16 = x" using k by simp
  show "16 * ((16 * (x mod 4) + y div 16) mod 16) + 4 * (y mod 16) div 4 = y" using k by simp
  assume "z < 256"
  then have l: "z div 64 < 4" by (intro less_mult_imp_div_less) simp
  show "16 * ((16 * (x mod 4) + y div 16) mod 16) + (4 * (y mod 16) + z div 64) div 4 = y" using k l by simp
next
  assume "z < 256"
  then have l: "z div 64 < 4" by (intro less_mult_imp_div_less) simp
  then show "64 * ((4 * (y mod 16) + z div 64) mod 4) + z mod 64 = z" by simp
qed

lemma byte_unat: "word_of_nat (unat b) = (b :: 8 word)"
  by simp

lemma b64_roundtrip: "b64_decode (b64_encode bs) = bs"
  unfolding b64_decode_def
  by (induction bs rule: b64_encode.induct)
    (simp_all only: b64_encode.simps b64_values_char b64_values_simps split_bytes byte_less b64_bytes.simps join_bytes
      byte_unat)

lemma b64_encode_inj: "b64_encode xs = b64_encode ys \<Longrightarrow> xs = ys"
  by (metis b64_roundtrip)

section \<open>The library's transaction\<close>

record AddressTableLookup =
  al_accountKey :: string
  al_writableIndexes :: "int list"
  al_readonlyIndexes :: "int list"

record CompiledInstruction =
  ci_programIdIndex :: int
  ci_accountKeyIndexes :: "int list"
  ci_data :: bytes

record Vtx =
  vt_version :: string
  vt_staticAccountKeys :: "string list"
  vt_numRequiredSignatures :: int
  vt_recentBlockhash :: string
  vt_compiledInstructions :: "CompiledInstruction list"
  vt_addressTableLookups :: "AddressTableLookup list"
  vt_signatures :: "bytes list"

record SolanaLib =
  sl_deserialize :: "bytes \<Rightarrow> Vtx option"
  sl_serialize :: "Vtx \<Rightarrow> bytes option"
  sl_message :: "Vtx \<Rightarrow> bytes"
  sl_bs58_encode :: "bytes \<Rightarrow> string"
  sl_bs58_decode :: "string \<Rightarrow> bytes option"
  sl_sha256 :: "bytes \<Rightarrow> bytes"

section \<open>Decoding\<close>

record DecodedInstruction =
  ix_programId :: string
  ix_programIdIndex :: int
  ix_accountIndexes :: "int list"
  ix_accounts :: "string option list"
  ix_data :: bytes
  ix_dataHex :: string

record DecodedTransaction =
  dt_version :: string
  dt_feePayer :: string
  dt_recentBlockhash :: string
  dt_numRequiredSignatures :: int
  dt_staticAccountKeys :: "string list"
  dt_signatures :: "string option list"
  dt_addressTableLookups :: "AddressTableLookup list"
  dt_instructions :: "DecodedInstruction list"
  dt_messageBytes :: bytes
  dt_messageBase64 :: string
  dt_messageHash :: string
  dt_wireBase64 :: string
  dt_transaction :: Vtx

definition sha256Hex :: "SolanaLib \<Rightarrow> bytes \<Rightarrow> string" where
  "sha256Hex L bs = ''0x'' @ hex (sl_sha256 L bs)"

definition empty_signature :: "bytes \<Rightarrow> bool" where
  "empty_signature sig \<longleftrightarrow> list_all (\<lambda>b. b = 0) sig"

definition total_keys :: "Vtx \<Rightarrow> int" where
  "total_keys v = int (length (vt_staticAccountKeys v)) +
     sum_list (map (\<lambda>l. int (length (al_writableIndexes l)) + int (length (al_readonlyIndexes l))) (vt_addressTableLookups v))"

definition decode_account :: "Vtx \<Rightarrow> int \<Rightarrow> string + string option" where
  "decode_account v i =
     throwIf (\<not> js_safe_integer i \<or> i < 0 \<or> i \<ge> total_keys v) ''transaction_accounts_invalid''
     (Inr (if i < int (length (vt_staticAccountKeys v)) then Some (vt_staticAccountKeys v ! nat i) else None))"

definition decode_instruction :: "Vtx \<Rightarrow> CompiledInstruction \<Rightarrow> string + DecodedInstruction" where
  "decode_instruction v c =
     throwIf (\<not> js_safe_integer (ci_programIdIndex c) \<or> ci_programIdIndex c < 0 \<or>
         ci_programIdIndex c \<ge> int (length (vt_staticAccountKeys v))) ''transaction_program_unresolvable''
     (bindR (mapR (decode_account v) (ci_accountKeyIndexes c)) (\<lambda>accounts.
      Inr \<lparr> ix_programId = vt_staticAccountKeys v ! nat (ci_programIdIndex c), ix_programIdIndex = ci_programIdIndex c,
            ix_accountIndexes = ci_accountKeyIndexes c, ix_accounts = accounts,
            ix_data = ci_data c, ix_dataHex = hex (ci_data c) \<rparr>))"

definition decoded_of :: "SolanaLib \<Rightarrow> Vtx \<Rightarrow> bytes \<Rightarrow> DecodedInstruction list \<Rightarrow> DecodedTransaction" where
  "decoded_of L v canonical ixs =
     \<lparr> dt_version = vt_version v, dt_feePayer = hd (vt_staticAccountKeys v), dt_recentBlockhash = vt_recentBlockhash v,
       dt_numRequiredSignatures = vt_numRequiredSignatures v, dt_staticAccountKeys = vt_staticAccountKeys v,
       dt_signatures = map (\<lambda>sig. if empty_signature sig then None else Some (sl_bs58_encode L sig)) (vt_signatures v),
       dt_addressTableLookups = vt_addressTableLookups v, dt_instructions = ixs,
       dt_messageBytes = sl_message L v, dt_messageBase64 = b64_encode (sl_message L v),
       dt_messageHash = sha256Hex L (sl_message L v), dt_wireBase64 = b64_encode canonical, dt_transaction = v \<rparr>"

definition decode_message :: "SolanaLib \<Rightarrow> Vtx \<Rightarrow> bytes \<Rightarrow> string + DecodedTransaction" where
  "decode_message L v canonical =
     throwIf (vt_staticAccountKeys v = []) ''transaction_accounts_invalid''
     (throwIf (\<not> js_safe_integer (vt_numRequiredSignatures v) \<or> vt_numRequiredSignatures v < 1 \<or>
         vt_numRequiredSignatures v > int (length (vt_staticAccountKeys v))) ''transaction_signers_invalid''
     (throwIf (int (length (vt_signatures v)) \<noteq> vt_numRequiredSignatures v) ''transaction_signers_invalid''
     (throwIf (vt_compiledInstructions v = []) ''transaction_instructions_empty''
     (bindR (mapR (decode_instruction v) (vt_compiledInstructions v)) (\<lambda>ixs. Inr (decoded_of L v canonical ixs))))))"

definition decodeTransaction :: "SolanaLib \<Rightarrow> string \<Rightarrow> string + DecodedTransaction" where
  "decodeTransaction L wire =
     (let rawb = b64_decode wire in
      throwIf (wire = []) ''transaction_invalid''
     (throwIf (rawb = [] \<or> b64_encode rawb \<noteq> wire) ''transaction_encoding_invalid''
     (case sl_deserialize L rawb of
        None \<Rightarrow> Inl ''transaction_invalid''
      | Some tx \<Rightarrow> (case sl_serialize L tx of
          None \<Rightarrow> Inl ''transaction_invalid''
        | Some canonical \<Rightarrow>
            throwIf (canonical \<noteq> rawb) ''transaction_encoding_invalid'' (decode_message L tx canonical)))))"

definition attachSignature :: "SolanaLib \<Rightarrow> DecodedTransaction \<Rightarrow> bytes \<Rightarrow> string + (string \<times> string)" where
  "attachSignature L d sig =
     throwIf (length sig \<noteq> 64) ''signature_invalid''
     (case sl_serialize L ((dt_transaction d)\<lparr> vt_signatures := (vt_signatures (dt_transaction d))[0 := sig] \<rparr>) of
        None \<Rightarrow> Inl ''serialize_failed''
      | Some wire \<Rightarrow> Inr (b64_encode wire, sl_bs58_encode L sig))"

definition signatureOf :: "SolanaLib \<Rightarrow> string \<Rightarrow> string + string" where
  "signatureOf L wire = bindR (decodeTransaction L wire) (\<lambda>d.
     case dt_signatures d of Some sig # _ \<Rightarrow> throwIf (sig = []) ''signature_missing'' (Inr sig) | _ \<Rightarrow> Inl ''signature_missing'')"

definition isPublicKey :: "SolanaLib \<Rightarrow> string \<Rightarrow> bool" where
  "isPublicKey L v \<longleftrightarrow> v \<noteq> [] \<and> (case sl_bs58_decode L v of None \<Rightarrow> False | Some bs \<Rightarrow> length bs = 32)"

section \<open>What a decoded transaction is\<close>

lemma decode_account_Inr:
  "decode_account v i = Inr a \<longleftrightarrow> js_safe_integer i \<and> 0 \<le> i \<and> i < total_keys v \<and>
     a = (if i < int (length (vt_staticAccountKeys v)) then Some (vt_staticAccountKeys v ! nat i) else None)"
  by (auto simp: decode_account_def)

definition instruction_of :: "Vtx \<Rightarrow> CompiledInstruction \<Rightarrow> DecodedInstruction \<Rightarrow> bool" where
  "instruction_of v c x \<longleftrightarrow>
     ix_programId x \<in> set (vt_staticAccountKeys v) \<and> ix_data x = ci_data c \<and> ix_dataHex x = hex (ci_data c) \<and>
     ix_accountIndexes x = ci_accountKeyIndexes c \<and> ix_programIdIndex x = ci_programIdIndex c \<and>
     ix_programId x = vt_staticAccountKeys v ! nat (ci_programIdIndex c) \<and>
     list_all2 (\<lambda>i a. 0 \<le> i \<and> i < total_keys v \<and>
       a = (if i < int (length (vt_staticAccountKeys v)) then Some (vt_staticAccountKeys v ! nat i) else None))
       (ci_accountKeyIndexes c) (ix_accounts x)"

lemma decode_instruction_Inr: "decode_instruction v c = Inr x \<Longrightarrow> instruction_of v c x"
  by (auto simp: decode_instruction_def bindR_Inr mapR_Inr decode_account_Inr instruction_of_def elim: list_all2_mono)

lemma decode_message_Inr:
  "decode_message L v canonical = Inr d \<Longrightarrow>
     vt_staticAccountKeys v \<noteq> [] \<and> 1 \<le> vt_numRequiredSignatures v \<and>
     int (length (vt_signatures v)) = vt_numRequiredSignatures v \<and>
     (\<exists>ixs. d = decoded_of L v canonical ixs \<and> ixs \<noteq> [] \<and> list_all2 (instruction_of v) (vt_compiledInstructions v) ixs)"
  by (auto simp: decode_message_def bindR_Inr mapR_Inr dest: decode_instruction_Inr elim!: list_all2_mono)

lemma decodeTransaction_Inr:
  "decodeTransaction L w = Inr d \<longleftrightarrow>
     (\<exists>bs v. w = b64_encode bs \<and> bs \<noteq> [] \<and> sl_deserialize L bs = Some v \<and> sl_serialize L v = Some bs \<and>
        decode_message L v bs = Inr d)"
proof
  assume "decodeTransaction L w = Inr d"
  then show "\<exists>bs v. w = b64_encode bs \<and> bs \<noteq> [] \<and> sl_deserialize L bs = Some v \<and> sl_serialize L v = Some bs \<and>
        decode_message L v bs = Inr d"
    by (auto simp: decodeTransaction_def Let_def intro!: exI [of _ "b64_decode w"] split: option.splits)
next
  assume "\<exists>bs v. w = b64_encode bs \<and> bs \<noteq> [] \<and> sl_deserialize L bs = Some v \<and> sl_serialize L v = Some bs \<and>
        decode_message L v bs = Inr d"
  then obtain bs v where w: "w = b64_encode bs" "bs \<noteq> []" "sl_deserialize L bs = Some v" "sl_serialize L v = Some bs"
    "decode_message L v bs = Inr d" by blast
  have "w \<noteq> []" using w(1,2) by (cases bs rule: b64_encode.cases) simp_all
  then show "decodeTransaction L w = Inr d" using w by (simp add: decodeTransaction_def b64_roundtrip)
qed

text \<open>
  The decoder reads exactly the canonical encodings: a text is decoded only when it is the base64
  of the one byte sequence the library both reads and writes back, the decoded transaction carries
  that text as its wire form and that transaction, every program id is one of the message's static
  keys, an account is unknown exactly when its index lies beyond the static keys, and the first
  static key is the fee payer.
\<close>

theorem decode_canonical:
  "case decodeTransaction L w of
     Inl _ \<Rightarrow> True
   | Inr d \<Rightarrow>
       dt_wireBase64 d = w \<and> sl_deserialize L (b64_decode w) = Some (dt_transaction d) \<and>
       sl_serialize L (dt_transaction d) = Some (b64_decode w) \<and>
       dt_messageHash d = sha256Hex L (sl_message L (dt_transaction d)) \<and>
       dt_messageBase64 d = b64_encode (sl_message L (dt_transaction d)) \<and>
       dt_staticAccountKeys d \<noteq> [] \<and> dt_feePayer d = dt_staticAccountKeys d ! 0 \<and> dt_instructions d \<noteq> [] \<and>
       list_all2 (instruction_of (dt_transaction d)) (vt_compiledInstructions (dt_transaction d)) (dt_instructions d)"
proof (cases "decodeTransaction L w")
  case (Inr d)
  then obtain bs v where b: "w = b64_encode bs" "sl_deserialize L bs = Some v" "sl_serialize L v = Some bs"
    "decode_message L v bs = Inr d" by (auto simp: decodeTransaction_Inr)
  obtain ixs where "d = decoded_of L v bs ixs" "ixs \<noteq> []" "vt_staticAccountKeys v \<noteq> []"
    "list_all2 (instruction_of v) (vt_compiledInstructions v) ixs"
    using decode_message_Inr [OF b(4)] by blast
  then show ?thesis using Inr b by (simp add: decoded_of_def b64_roundtrip hd_conv_nth)
qed simp

end
