(* ===== verification/SignerAuth.thy ===== *)
theory SignerAuth
  imports SignerTx
begin

text \<open>
  \<open>src/src/signer/authorization.ts\<close> and \<open>src/src/signer/replay.ts\<close>: the authorization envelope and
  its verification against the signer's own decode, and the two replay stores behind one
  interface. The Ed25519 check of an envelope is a parameter; a call reads its clock once. The data
  column of a store holds the JSON value whose text the code writes there.
\<close>

section \<open>The envelope\<close>

definition AUTHORIZATION_PROTOCOL :: string where
  "AUTHORIZATION_PROTOCOL = ''ari-solana-execution-authorization''"

record InstructionClaim =
  ic_programId :: string
  ic_accounts :: "string option list"
  ic_data :: string

record AuthorizationReferences =
  ar_quoteHash :: string
  ar_policyHash :: string
  ar_policyVersion :: int
  ar_riskHash :: string
  ar_reservationId :: string
  ar_approvalId :: string
  ar_audience :: string
  ar_signerKeyId :: "string option"

record AuthorizationClaims =
  ac_refs :: AuthorizationReferences
  ac_protocol :: string
  ac_version :: int
  ac_id :: string
  ac_cluster :: string
  ac_feePayer :: string
  ac_transaction :: string
  ac_message :: string
  ac_messageHash :: string
  ac_recentBlockhash :: string
  ac_lastValidBlockHeight :: int
  ac_programIds :: "string list"
  ac_accountKeys :: "string list"
  ac_instructions :: "InstructionClaim list"
  ac_addressTableLookups :: "string list"
  ac_simulationHash :: string
  ac_issuedAt :: int
  ac_expiresAt :: int

record AuthorizationEnvelope =
  ae_claims :: AuthorizationClaims
  ae_signature :: string

text \<open>
  \<open>normalize\<close> orders the properties of every object; on the property names that occur here
  \<open>localeCompare\<close> and the order of the code units agree.
\<close>

definition null_or :: "string option \<Rightarrow> json" where
  "null_or v = (case v of None \<Rightarrow> J_null | Some s \<Rightarrow> J_str s)"

definition instruction_value :: "InstructionClaim \<Rightarrow> json" where
  "instruction_value i = J_obj [(''programId'', J_str (ic_programId i)), (''accounts'', J_arr (map null_or (ic_accounts i))),
     (''data'', J_str (ic_data i))]"

definition claims_value :: "AuthorizationClaims \<Rightarrow> json" where
  "claims_value c = (let r = ac_refs c in J_obj
     ([(''quoteHash'', J_str (ar_quoteHash r)), (''policyHash'', J_str (ar_policyHash r)),
       (''policyVersion'', J_num (ar_policyVersion r)), (''riskHash'', J_str (ar_riskHash r)),
       (''reservationId'', J_str (ar_reservationId r)), (''approvalId'', J_str (ar_approvalId r)),
       (''audience'', J_str (ar_audience r))] @
      (case ar_signerKeyId r of None \<Rightarrow> [] | Some k \<Rightarrow> [(''signerKeyId'', J_str k)]) @
      [(''protocol'', J_str (ac_protocol c)), (''version'', J_num (ac_version c)), (''id'', J_str (ac_id c)),
       (''cluster'', J_str (ac_cluster c)), (''feePayer'', J_str (ac_feePayer c)),
       (''transaction'', J_str (ac_transaction c)), (''message'', J_str (ac_message c)),
       (''messageHash'', J_str (ac_messageHash c)), (''recentBlockhash'', J_str (ac_recentBlockhash c)),
       (''lastValidBlockHeight'', J_num (ac_lastValidBlockHeight c)),
       (''programIds'', J_arr (map J_str (ac_programIds c))), (''accountKeys'', J_arr (map J_str (ac_accountKeys c))),
       (''instructions'', J_arr (map instruction_value (ac_instructions c))),
       (''addressTableLookups'', J_arr (map J_str (ac_addressTableLookups c))),
       (''simulationHash'', J_str (ac_simulationHash c)), (''issuedAt'', J_num (ac_issuedAt c)),
       (''expiresAt'', J_num (ac_expiresAt c))]))"

definition canonicalClaims :: "AuthorizationClaims \<Rightarrow> string" where
  "canonicalClaims c = canonicalSerialize (claims_value c)"

definition json_eq :: "json \<Rightarrow> json \<Rightarrow> bool" where
  "json_eq a b \<longleftrightarrow> canonicalSerialize a = canonicalSerialize b"

section \<open>Verification\<close>

text \<open>\<open>toLowerCase\<close> on code units below 256.\<close>

definition js_lower_char :: "char \<Rightarrow> char" where
  "js_lower_char c =
     (let n = of_char c :: nat in
      if (65 \<le> n \<and> n \<le> 90) \<or> (192 \<le> n \<and> n \<le> 222 \<and> n \<noteq> 215) then char_of (n + 32) else c)"

definition js_lower :: "string \<Rightarrow> string" where
  "js_lower s = map js_lower_char s"

record WireDeps =
  wd_verify :: "string \<Rightarrow> string \<Rightarrow> string option \<Rightarrow> bool"
  wd_audience :: string
  wd_cluster :: "string option"
  wd_signerKeyId :: "string option"
  wd_authorizationKeyIds :: "string list option"
  wd_policyHash :: "string option"
  wd_policyVersion :: "int option"
  wd_maxTtlMs :: "int option"

text \<open>An optional text that is set and not empty.\<close>

definition set_text :: "string option \<Rightarrow> string option" where
  "set_text v = (case v of Some s \<Rightarrow> if s = [] then None else Some s | None \<Rightarrow> None)"

definition max_ttl :: "WireDeps \<Rightarrow> int" where
  "max_ttl w = (case wd_maxTtlMs w of None \<Rightarrow> 60000 | Some n \<Rightarrow> n)"

definition policy_mismatch :: "WireDeps \<Rightarrow> AuthorizationReferences \<Rightarrow> bool" where
  "policy_mismatch w r \<longleftrightarrow>
     (case set_text (wd_policyHash w) of None \<Rightarrow> False | Some h \<Rightarrow> js_lower (ar_policyHash r) \<noteq> js_lower h) \<or>
     (case wd_policyVersion w of None \<Rightarrow> False | Some v \<Rightarrow> ar_policyVersion r \<noteq> v)"

definition claim_of_instruction :: "DecodedInstruction \<Rightarrow> InstructionClaim" where
  "claim_of_instruction x = \<lparr> ic_programId = ix_programId x, ic_accounts = ix_accounts x, ic_data = ix_dataHex x \<rparr>"

definition program_ids :: "DecodedTransaction \<Rightarrow> string list" where
  "program_ids d = sort (remdups (map ix_programId (dt_instructions d)))"

definition transaction_mismatch :: "AuthorizationClaims \<Rightarrow> DecodedTransaction \<Rightarrow> bool" where
  "transaction_mismatch c d \<longleftrightarrow>
     ac_transaction c \<noteq> dt_wireBase64 d \<or> ac_message c \<noteq> dt_messageBase64 d \<or>
     js_lower (ac_messageHash c) \<noteq> js_lower (dt_messageHash d) \<or> ac_feePayer c \<noteq> dt_feePayer d \<or>
     ac_recentBlockhash c \<noteq> dt_recentBlockhash d \<or>
     \<not> json_eq (J_arr (map J_str (ac_accountKeys c))) (J_arr (map J_str (dt_staticAccountKeys d))) \<or>
     \<not> json_eq (J_arr (map J_str (ac_programIds c))) (J_arr (map J_str (program_ids d))) \<or>
     \<not> json_eq (J_arr (map J_str (ac_addressTableLookups c)))
         (J_arr (map J_str (map al_accountKey (dt_addressTableLookups d)))) \<or>
     \<not> json_eq (J_arr (map instruction_value (ac_instructions c)))
         (J_arr (map instruction_value (map claim_of_instruction (dt_instructions d))))"

definition wire_verify :: "WireDeps \<Rightarrow> DecodedTransaction \<Rightarrow> AuthorizationEnvelope \<Rightarrow> int \<Rightarrow> string + unit" where
  "wire_verify w d env now =
     (let c = ae_claims env; r = ac_refs c in
      throwIf (ac_protocol c \<noteq> AUTHORIZATION_PROTOCOL \<or> ac_version c \<noteq> 1) ''envelope_version_invalid''
     (throwIf (\<not> js_safe_integer (ac_issuedAt c) \<or> \<not> js_safe_integer (ac_expiresAt c)) ''envelope_version_invalid''
     (throwIf (ac_issuedAt c > now) ''envelope_issued_in_future''
     (throwIf (now \<ge> ac_expiresAt c \<or> ac_expiresAt c - ac_issuedAt c > max_ttl w) ''envelope_expired''
     (throwIf (ar_audience r \<noteq> wd_audience w) ''envelope_audience_mismatch''
     (throwIf (case set_text (wd_signerKeyId w) of None \<Rightarrow> False | Some k \<Rightarrow> ar_signerKeyId r \<noteq> Some k) ''envelope_signer_mismatch''
     (throwIf (policy_mismatch w r) ''envelope_policy_mismatch''
     (throwIf (case wd_authorizationKeyIds w of None \<Rightarrow> False
         | Some ks \<Rightarrow> (case set_text (ar_signerKeyId r) of None \<Rightarrow> True | Some k \<Rightarrow> k \<notin> set ks)) ''envelope_authorization_key_unknown''
     (throwIf (\<not> wd_verify w (canonicalClaims c) (ae_signature env) (ar_signerKeyId r)) ''envelope_signature_invalid''
     (throwIf (case wd_cluster w of None \<Rightarrow> False | Some cl \<Rightarrow> ac_cluster c \<noteq> cl) ''envelope_cluster_mismatch''
     (throwIf (\<not> js_safe_integer (ac_lastValidBlockHeight c) \<or> ac_lastValidBlockHeight c < 0) ''envelope_blockhash_invalid''
     (throwIf (transaction_mismatch c d) ''envelope_transaction_mismatch'' (Inr ())))))))))))))"

definition wire_verify_text :: "SolanaLib \<Rightarrow> WireDeps \<Rightarrow> string \<Rightarrow> AuthorizationEnvelope \<Rightarrow> int \<Rightarrow> string + DecodedTransaction" where
  "wire_verify_text L w text env now =
     bindR (decodeTransaction L text) (\<lambda>d. bindR (wire_verify w d env now) (\<lambda>_. Inr d))"

section \<open>Replay stores\<close>

datatype ExecutionState =
    Ex_issued | Ex_claimed | Ex_signing | Ex_signed | Ex_broadcast | Ex_reconciliation | Ex_confirmed | Ex_reverted
  | Ex_expired | Ex_dropped | Ex_failed

text \<open>\<open>InMemoryReplayStore\<close>: two maps.\<close>

record MemReplay =
  mr_states :: "string \<Rightarrow> ExecutionState option"
  mr_data :: "string \<Rightarrow> json option"

definition empty_mem :: MemReplay where
  "empty_mem = \<lparr> mr_states = (\<lambda>_. None), mr_data = (\<lambda>_. None) \<rparr>"

definition mem_consume :: "string \<Rightarrow> int \<Rightarrow> int \<Rightarrow> MemReplay \<Rightarrow> bool \<times> MemReplay" where
  "mem_consume i expiresAt now s =
     (if mr_states s i \<noteq> None then (False, s) else (True, s\<lparr> mr_states := (mr_states s)(i \<mapsto> Ex_claimed) \<rparr>))"

definition mem_transition :: "string \<Rightarrow> ExecutionState \<Rightarrow> ExecutionState \<Rightarrow> json option \<Rightarrow> int \<Rightarrow> MemReplay \<Rightarrow> bool \<times> MemReplay" where
  "mem_transition i src dst data now s =
     (if mr_states s i \<noteq> Some src then (False, s)
      else (True, s\<lparr> mr_states := (mr_states s)(i \<mapsto> dst),
                     mr_data := (case data of None \<Rightarrow> mr_data s | Some v \<Rightarrow> (mr_data s)(i \<mapsto> v)) \<rparr>))"

definition mem_get :: "string \<Rightarrow> MemReplay \<Rightarrow> (ExecutionState \<times> json option) option" where
  "mem_get i s = (case mr_states s i of None \<Rightarrow> None | Some st \<Rightarrow> Some (st, mr_data s i))"

text \<open>\<open>SqliteReplayStore\<close>: one table; \<open>id\<close> is its primary key, so at most one row has a given id.\<close>

record ReplayRow =
  rr_id :: string
  rr_expiresAt :: int
  rr_state :: ExecutionState
  rr_version :: int
  rr_data :: "json option"
  rr_updatedAt :: int
  rr_recovered :: int

type_synonym SqlReplay = "ReplayRow list"

definition sql_get :: "string \<Rightarrow> SqlReplay \<Rightarrow> ReplayRow option" where
  "sql_get i s = find_where (\<lambda>r. rr_id r = i) s"

definition sql_consume :: "string \<Rightarrow> int \<Rightarrow> int \<Rightarrow> SqlReplay \<Rightarrow> bool \<times> SqlReplay" where
  "sql_consume i expiresAt now s =
     (if i = [] \<or> \<not> js_safe_integer expiresAt then (False, s)
      else if exists_where (\<lambda>r. rr_id r = i) s then (False, s)
      else (True, s @ [\<lparr> rr_id = i, rr_expiresAt = expiresAt, rr_state = Ex_claimed, rr_version = 1, rr_data = None,
                         rr_updatedAt = now, rr_recovered = 0 \<rparr>]))"

definition sql_transition :: "string \<Rightarrow> ExecutionState \<Rightarrow> ExecutionState \<Rightarrow> json option \<Rightarrow> int \<Rightarrow> SqlReplay \<Rightarrow> bool \<times> SqlReplay" where
  "sql_transition i src dst data now s =
     (case sql_get i s of
        None \<Rightarrow> (False, s)
      | Some r \<Rightarrow>
          if rr_state r \<noteq> src then (False, s)
          else (True, update_where (\<lambda>r. rr_id r = i)
            (\<lambda>r. r\<lparr> rr_state := dst, rr_data := data, rr_version := rr_version r + 1, rr_updatedAt := now \<rparr>) s))"

definition recoverSigned :: "string \<Rightarrow> int \<Rightarrow> SqlReplay \<Rightarrow> json option option \<times> SqlReplay" where
  "recoverSigned i now s =
     (case sql_get i s of
        None \<Rightarrow> (None, s)
      | Some r \<Rightarrow>
          if rr_state r \<noteq> Ex_signed \<or> rr_recovered r \<noteq> 0 then (None, s)
          else (Some (rr_data r), update_where (\<lambda>r. rr_id r = i)
            (\<lambda>r. r\<lparr> rr_recovered := 1, rr_version := rr_version r + 1, rr_updatedAt := now \<rparr>) s))"

definition sql_list :: "ExecutionState list \<Rightarrow> SqlReplay \<Rightarrow> ReplayRow list" where
  "sql_list states s = filter (\<lambda>r. rr_state r \<in> set states) s"

section \<open>The interface of a replay store\<close>

text \<open>
  What \<open>ReplayStore\<close> promises: a claim takes an unknown id and nothing else; a transition is a
  compare-and-set on the state of one id.
\<close>

locale replay_store =
  fixes consume :: "string \<Rightarrow> int \<Rightarrow> int \<Rightarrow> 's \<Rightarrow> bool \<times> 's"
    and transition :: "string \<Rightarrow> ExecutionState \<Rightarrow> ExecutionState \<Rightarrow> json option \<Rightarrow> int \<Rightarrow> 's \<Rightarrow> bool \<times> 's"
    and state_of :: "'s \<Rightarrow> string \<Rightarrow> ExecutionState option"
  assumes consume_new: "fst (consume i x n s) \<Longrightarrow> state_of s i = None"
    and consume_state: "state_of (snd (consume i x n s)) j =
      (if fst (consume i x n s) \<and> j = i then Some Ex_claimed else state_of s j)"
    and transition_won: "fst (transition i src dst d n s) \<longleftrightarrow> state_of s i = Some src"
    and transition_state: "state_of (snd (transition i src dst d n s)) j =
      (if state_of s i = Some src \<and> j = i then Some dst else state_of s j)"
begin

definition claim :: "string \<times> int \<times> int \<Rightarrow> 's \<Rightarrow> bool \<times> 's" where
  "claim a s = (case a of (i, x, n) \<Rightarrow> consume i x n s)"

definition known :: "'s \<Rightarrow> string \<Rightarrow> bool" where
  "known s i \<longleftrightarrow> state_of s i \<noteq> None"

lemma known_transition: "known s j \<Longrightarrow> known (snd (transition i src dst d n s)) j"
  by (simp add: known_def transition_state)

lemma known_consume: "known s j \<Longrightarrow> known (snd (consume i x n s)) j"
  by (simp add: known_def consume_state)

text \<open>Of two transitions out of one state of an id at most one succeeds.\<close>

lemma transition_exclusive:
  assumes "fst (transition i src dst d n s)" and "dst \<noteq> src"
  shows "\<not> fst (transition i src dst' d' n' (snd (transition i src dst d n s)))"
  using assms by (simp add: transition_won transition_state)

end

sublocale replay_store \<subseteq> fence claim fst known
proof
  fix a :: "string \<times> int \<times> int" and s k
  obtain i x n where a: "a = (i, x, n)" by (cases a)
  show "fst (claim a s) \<Longrightarrow> \<not> known s (fst a)" by (simp add: a claim_def known_def consume_new)
  show "fst (claim a s) \<Longrightarrow> known (snd (claim a s)) (fst a)" by (simp add: a claim_def known_def consume_state)
  show "known s k \<Longrightarrow> known (snd (claim a s)) k" by (simp add: a claim_def known_consume)
qed

definition sql_state :: "SqlReplay \<Rightarrow> string \<Rightarrow> ExecutionState option" where
  "sql_state s i = map_option rr_state (sql_get i s)"

lemma sql_get_update:
  assumes "\<And>r. rr_id (f r) = rr_id r"
  shows "sql_get j (update_where (\<lambda>r. rr_id r = i) f s) = map_option (\<lambda>r. if i = j then f r else r) (sql_get j s)"
proof -
  have "sql_get j (update_where (\<lambda>r. rr_id r = i) f s) = map_option (\<lambda>r. if rr_id r = i then f r else r) (sql_get j s)"
    unfolding sql_get_def by (rule find_where_update) (simp add: assms)
  also have "\<dots> = map_option (\<lambda>r. if i = j then f r else r) (sql_get j s)"
    by (auto simp: sql_get_def dest: find_where_Some intro!: option.map_cong)
  finally show ?thesis .
qed

lemma sql_get_append: "sql_get j (s @ [r]) = (case sql_get j s of None \<Rightarrow> if rr_id r = j then Some r else None | Some x \<Rightarrow> Some x)"
  by (simp add: sql_get_def find_where_append split: option.split)

lemma sql_get_None: "sql_get j s = None \<longleftrightarrow> \<not> exists_where (\<lambda>r. rr_id r = j) s"
  by (simp add: sql_get_def find_where_None)

interpretation sqlite: replay_store sql_consume sql_transition sql_state
proof
  fix i j :: string and x n :: int and s src dst d
  show "fst (sql_consume i x n s) \<Longrightarrow> sql_state s i = None"
    by (auto simp: sql_consume_def sql_state_def sql_get_None split: if_splits)
  show "sql_state (snd (sql_consume i x n s)) j =
      (if fst (sql_consume i x n s) \<and> j = i then Some Ex_claimed else sql_state s j)"
    using sql_get_None [of j s]
    by (auto simp: sql_consume_def sql_state_def sql_get_append split: option.split if_splits)
  show "fst (sql_transition i src dst d n s) \<longleftrightarrow> sql_state s i = Some src"
    by (auto simp: sql_transition_def sql_state_def split: option.splits)
  show "sql_state (snd (sql_transition i src dst d n s)) j =
      (if sql_state s i = Some src \<and> j = i then Some dst else sql_state s j)"
    by (auto simp: sql_transition_def sql_state_def sql_get_update option.map_ident split: option.splits)
qed

interpretation memory: replay_store mem_consume mem_transition mr_states
  by unfold_locales (auto simp: mem_consume_def mem_transition_def split: if_splits)

section \<open>The two stores agree\<close>

datatype ReplayOp =
    RO_consume string int int
  | RO_transition string ExecutionState ExecutionState "json option" int

fun mem_op :: "ReplayOp \<Rightarrow> MemReplay \<Rightarrow> bool \<times> MemReplay" where
  "mem_op (RO_consume i x n) s = mem_consume i x n s"
| "mem_op (RO_transition i src dst d n) s = mem_transition i src dst d n s"

fun sql_op :: "ReplayOp \<Rightarrow> SqlReplay \<Rightarrow> bool \<times> SqlReplay" where
  "sql_op (RO_consume i x n) s = sql_consume i x n s"
| "sql_op (RO_transition i src dst d n) s = sql_transition i src dst d n s"

fun op_ok :: "ReplayOp \<Rightarrow> bool" where
  "op_ok (RO_consume i x n) = (i \<noteq> [] \<and> js_safe_integer x)"
| "op_ok _ = True"

fun answers :: "('o \<Rightarrow> 's \<Rightarrow> bool \<times> 's) \<Rightarrow> 'o list \<Rightarrow> 's \<Rightarrow> bool list \<times> 's" where
  "answers f [] s = ([], s)"
| "answers f (x # xs) s = (case f x s of (b, t) \<Rightarrow> case answers f xs t of (bs, u) \<Rightarrow> (b # bs, u))"

lemma stores_step:
  assumes "mr_states m = sql_state s" and "op_ok x"
  shows "fst (mem_op x m) = fst (sql_op x s) \<and> mr_states (snd (mem_op x m)) = sql_state (snd (sql_op x s))"
proof (cases x)
  case (RO_consume i e n)
  have "fst (mem_consume i e n m) = fst (sql_consume i e n s)"
    using assms RO_consume sql_get_None [of i s]
    by (auto simp: mem_consume_def sql_consume_def sql_state_def)
  then show ?thesis
    using assms(1) by (auto simp: RO_consume fun_eq_iff sqlite.consume_state memory.consume_state)
next
  case (RO_transition i src dst d n)
  then show ?thesis using assms(1)
    by (auto simp: fun_eq_iff sqlite.transition_state memory.transition_state sqlite.transition_won memory.transition_won)
qed

text \<open>
  The in-memory store and the SQLite store implement one abstract store, the map from ids to
  states: from empty stores, any sequence of claims with a non-empty id and a safe expiry and of
  transitions is answered alike, and leaves the same state of every id.
\<close>

theorem replay_stores_agree:
  assumes "list_all op_ok ops"
  shows "fst (answers mem_op ops empty_mem) = fst (answers sql_op ops []) \<and>
     mr_states (snd (answers mem_op ops empty_mem)) = sql_state (snd (answers sql_op ops []))"
proof -
  have "mr_states m = sql_state s \<Longrightarrow> list_all op_ok ops \<Longrightarrow>
      fst (answers mem_op ops m) = fst (answers sql_op ops s) \<and>
      mr_states (snd (answers mem_op ops m)) = sql_state (snd (answers sql_op ops s))" for m s
  proof (induction ops arbitrary: m s)
    case (Cons x ops)
    then show ?case using stores_step [of m s x] Cons.IH [of "snd (mem_op x m)" "snd (sql_op x s)"]
      by (simp add: split_beta)
  qed simp
  moreover have "mr_states empty_mem = sql_state []" by (simp add: empty_mem_def sql_state_def sql_get_def fun_eq_iff)
  ultimately show ?thesis using assms by blast
qed

theorem replay_stores_agree_witness:
  "fst (answers mem_op [RO_consume ''a'' 5 1, RO_consume ''a'' 5 2, RO_transition ''a'' Ex_claimed Ex_expired None 3] empty_mem) =
     [True, False, True]"
proof -
  have "list_all op_ok [RO_consume ''a'' 5 1, RO_consume ''a'' 5 2, RO_transition ''a'' Ex_claimed Ex_expired None 3]"
    by (simp add: js_safe_integer_def max_safe_integer_def)
  from replay_stores_agree [OF this] show ?thesis
    by (simp add: sql_consume_def sql_transition_def sql_get_def js_safe_integer_def max_safe_integer_def)
qed

section \<open>What a verified envelope says\<close>

lemma json_eq_strings: "json_eq (J_arr (map J_str xs)) (J_arr (map J_str ys)) \<longleftrightarrow> xs = ys"
proof -
  have "map (\<lambda>x. canonicalSerialize (J_str x)) xs = map (\<lambda>x. canonicalSerialize (J_str x)) ys \<longleftrightarrow> xs = ys"
    by (intro inj_map_eq_map injI) simp
  then show ?thesis by (simp add: json_eq_def comp_def)
qed

lemma null_or_inj: "canonicalSerialize (null_or a) = canonicalSerialize (null_or b) \<longleftrightarrow> a = b"
  by (auto simp: null_or_def canonicalSerialize_eq split: option.splits)

lemma instruction_value_inj: "canonicalSerialize (instruction_value a) = canonicalSerialize (instruction_value b) \<longleftrightarrow> a = b"
proof -
  have "map (canonicalSerialize \<circ> null_or) xs = map (canonicalSerialize \<circ> null_or) ys \<longleftrightarrow> xs = ys" for xs ys
    by (intro inj_map_eq_map injI) (simp add: null_or_inj)
  then show ?thesis
    unfolding instruction_value_def by (subst canonicalSerialize_same_keys) (cases a; cases b; auto)+
qed

lemma json_eq_instructions: "json_eq (J_arr (map instruction_value xs)) (J_arr (map instruction_value ys)) \<longleftrightarrow> xs = ys"
proof -
  have "map (canonicalSerialize \<circ> instruction_value) xs = map (canonicalSerialize \<circ> instruction_value) ys \<longleftrightarrow> xs = ys"
    by (intro inj_map_eq_map injI) (simp add: instruction_value_inj)
  then show ?thesis by (simp add: json_eq_def)
qed

definition claims_describe :: "AuthorizationClaims \<Rightarrow> DecodedTransaction \<Rightarrow> bool" where
  "claims_describe c d \<longleftrightarrow>
     ac_transaction c = dt_wireBase64 d \<and> ac_message c = dt_messageBase64 d \<and>
     js_lower (ac_messageHash c) = js_lower (dt_messageHash d) \<and> ac_feePayer c = dt_feePayer d \<and>
     ac_recentBlockhash c = dt_recentBlockhash d \<and> ac_accountKeys c = dt_staticAccountKeys d \<and>
     ac_programIds c = program_ids d \<and> ac_addressTableLookups c = map al_accountKey (dt_addressTableLookups d) \<and>
     ac_instructions c = map claim_of_instruction (dt_instructions d)"

lemma transaction_mismatch_iff: "transaction_mismatch c d \<longleftrightarrow> \<not> claims_describe c d"
  unfolding transaction_mismatch_def claims_describe_def json_eq_strings json_eq_instructions by blast

text \<open>
  C33: an envelope is accepted exactly when it has the protocol and version, is neither from the
  future nor past its expiry nor longer-lived than allowed, is addressed to this signer, names the
  configured key and policy, its signature over the canonical claims verifies, and its claims
  describe the decoded transaction field for field, every instruction's program, accounts and data
  included.
\<close>

theorem wire_verify_accepts:
  "(wire_verify w d env now = Inr ()) \<longleftrightarrow>
     (let c = ae_claims env; r = ac_refs c in
      ac_protocol c = AUTHORIZATION_PROTOCOL \<and> ac_version c = 1 \<and>
      js_safe_integer (ac_issuedAt c) \<and> js_safe_integer (ac_expiresAt c) \<and>
      ac_issuedAt c \<le> now \<and> now < ac_expiresAt c \<and> ac_expiresAt c - ac_issuedAt c \<le> max_ttl w \<and>
      ar_audience r = wd_audience w \<and>
      (case set_text (wd_signerKeyId w) of None \<Rightarrow> True | Some k \<Rightarrow> ar_signerKeyId r = Some k) \<and>
      (case set_text (wd_policyHash w) of None \<Rightarrow> True | Some h \<Rightarrow> js_lower (ar_policyHash r) = js_lower h) \<and>
      (case wd_policyVersion w of None \<Rightarrow> True | Some v \<Rightarrow> ar_policyVersion r = v) \<and>
      (case wd_authorizationKeyIds w of None \<Rightarrow> True
       | Some ks \<Rightarrow> (case set_text (ar_signerKeyId r) of None \<Rightarrow> False | Some k \<Rightarrow> k \<in> set ks)) \<and>
      wd_verify w (canonicalClaims c) (ae_signature env) (ar_signerKeyId r) \<and>
      (case wd_cluster w of None \<Rightarrow> True | Some cl \<Rightarrow> ac_cluster c = cl) \<and>
      js_safe_integer (ac_lastValidBlockHeight c) \<and> 0 \<le> ac_lastValidBlockHeight c \<and> claims_describe c d)"
  by (auto simp: wire_verify_def Let_def policy_mismatch_def transaction_mismatch_iff split: option.splits)

subsection \<open>The signed text\<close>

lemma strings_text_inj: "map (canonicalSerialize \<circ> J_str) xs = map (canonicalSerialize \<circ> J_str) ys \<longleftrightarrow> xs = ys"
  using json_eq_strings [of xs ys] by (simp add: json_eq_def)

lemma instructions_text_inj:
  "map (canonicalSerialize \<circ> instruction_value) xs = map (canonicalSerialize \<circ> instruction_value) ys \<longleftrightarrow> xs = ys"
  using json_eq_instructions [of xs ys] by (simp add: json_eq_def)

definition claim_fields :: "AuthorizationClaims \<Rightarrow> (string \<times> json) list" where
  "claim_fields c = (case claims_value c of J_obj fs \<Rightarrow> fs | _ \<Rightarrow> [])"

lemma claims_value_fields: "claims_value c = J_obj (claim_fields c)"
  by (simp add: claim_fields_def claims_value_def Let_def)

lemma claim_fields_distinct: "distinct (map fst (claim_fields c))"
  by (simp add: claim_fields_def claims_value_def Let_def split: option.split)

lemma signer_key_field: "map_of (claim_fields c) ''signerKeyId'' = map_option J_str (ar_signerKeyId (ac_refs c))"
  by (simp add: claim_fields_def claims_value_def Let_def split: option.split)

lemma claims_text_fields:
  assumes "canonicalClaims c = canonicalClaims c'"
  shows "ar_signerKeyId (ac_refs c) = ar_signerKeyId (ac_refs c') \<and>
    map (\<lambda>f. canonicalSerialize (snd f)) (claim_fields c) = map (\<lambda>f. canonicalSerialize (snd f)) (claim_fields c')"
proof -
  have eq: "canonicalSerialize (J_obj (claim_fields c)) = canonicalSerialize (J_obj (claim_fields c'))"
    using assms by (simp add: canonicalClaims_def claims_value_fields)
  then have "map_option canonicalSerialize (map_of (claim_fields c) ''signerKeyId'') =
      map_option canonicalSerialize (map_of (claim_fields c') ''signerKeyId'')"
    by (simp only: canonicalSerialize_obj_iff [OF claim_fields_distinct claim_fields_distinct])
  then have key: "ar_signerKeyId (ac_refs c) = ar_signerKeyId (ac_refs c')"
    by (cases "ar_signerKeyId (ac_refs c)"; cases "ar_signerKeyId (ac_refs c')") (simp_all add: signer_key_field)
  then have "map fst (claim_fields c) = map fst (claim_fields c')"
    by (simp add: claim_fields_def claims_value_def Let_def split: option.split)
  then show ?thesis using key eq by (simp add: canonicalSerialize_same_keys claim_fields_distinct)
qed

text \<open>
  The text an issuer signs determines the claims: two sets of claims with one canonical text are
  equal in every field.
\<close>

theorem canonicalClaims_binds: "canonicalClaims c = canonicalClaims c' \<longleftrightarrow> c = c'"
proof
  assume eq: "canonicalClaims c = canonicalClaims c'"
  have key: "ar_signerKeyId (ac_refs c) = ar_signerKeyId (ac_refs c')" using claims_text_fields [OF eq] by blast
  have "map (\<lambda>f. canonicalSerialize (snd f)) (claim_fields c) = map (\<lambda>f. canonicalSerialize (snd f)) (claim_fields c')"
    using claims_text_fields [OF eq] by blast
  then have "ac_refs c = ac_refs c' \<and> AuthorizationClaims.truncate c = AuthorizationClaims.truncate c'"
    using key
    by (cases "ac_refs c"; cases "ac_refs c'")
      (simp add: claim_fields_def claims_value_def Let_def strings_text_inj instructions_text_inj AuthorizationClaims.defs
        split: option.splits)
  then show "c = c'" by (simp add: AuthorizationClaims.defs)
qed simp

end
