(* ===== verification/SignerPolicy.thy ===== *)
theory SignerPolicy
  imports SignerTx
begin

text \<open>
  \<open>src/src/signer/policy.ts\<close>: the policy the signer applies to the transaction it decoded itself,
  and the check of the policy file's parsed content. A \<open>bigint\<close> is an \<open>int\<close>; an object used as a
  map is the list of its own properties.
\<close>

section \<open>The policy\<close>

definition COMPUTE_BUDGET_PROGRAM_ID :: string where
  "COMPUTE_BUDGET_PROGRAM_ID = ''ComputeBudget111111111111111111111111111111''"

definition DEFAULT_UNITS_PER_INSTRUCTION :: int where
  "DEFAULT_UNITS_PER_INSTRUCTION = 200000"

definition MAX_UNITS_PER_TRANSACTION :: int where
  "MAX_UNITS_PER_TRANSACTION = 1400000"

definition SET_UNIT_LIMIT :: string where
  "SET_UNIT_LIMIT = ''02''"

definition SET_UNIT_PRICE :: string where
  "SET_UNIT_PRICE = ''03''"

definition NATIVE_ASSET :: string where
  "NATIVE_ASSET = ''native''"

datatype AmountEncoding = U64le | U32le

record SignerSpendRule =
  sp_asset :: string
  sp_amountOffset :: int
  sp_amountEncoding :: AmountEncoding
  sp_mintAccountIndex :: "int option"

datatype RuleEffect = Eff_none | Eff_fee | Eff_spend SignerSpendRule

record SignerProgramRule =
  pr_programId :: string
  pr_discriminator :: string
  pr_effect :: RuleEffect

record SignPolicy =
  sg_version :: int
  sg_hash :: string
  sg_cluster :: string
  sg_feePayers :: "string list"
  sg_programs :: "SignerProgramRule list"
  sg_caps :: "(string \<times> int) list"
  sg_maxInstructions :: int
  sg_maxAccountKeys :: int
  sg_maxRequiredSignatures :: int
  sg_maxComputeUnitLimit :: int
  sg_maxComputeUnitPriceMicroLamports :: int
  sg_maxPriorityFeeLamports :: int
  sg_maxPriorityFeeBps :: "int option"
  sg_addressLookupTables :: "string list"

record PolicyEvaluation =
  pe_spend :: "(string \<times> int) list"
  pe_computeUnitLimit :: int
  pe_computeUnitPriceMicroLamports :: int
  pe_priorityFeeLamports :: int

section \<open>Evaluation\<close>

text \<open>\<open>readBigUInt64LE\<close> and \<open>readUInt32LE\<close>.\<close>

fun le_int :: "bytes \<Rightarrow> int" where
  "le_int [] = 0"
| "le_int (b # bs) = uint b + 256 * le_int bs"

definition readAmount :: "bytes \<Rightarrow> int \<Rightarrow> AmountEncoding \<Rightarrow> string + int" where
  "readAmount data offset encoding =
     (let width = (case encoding of U64le \<Rightarrow> 8 | U32le \<Rightarrow> 4) in
      throwIf (offset < 0 \<or> offset + width > int (length data)) ''policy_spend_unreadable''
      (Inr (le_int (take (nat width) (drop (nat offset) data)))))"

fun starts_with :: "string \<Rightarrow> string \<Rightarrow> bool" where
  "starts_with s [] = True"
| "starts_with [] (c # p) = False"
| "starts_with (d # s) (c # p) = (c = d \<and> starts_with s p)"

fun matchRule_loop :: "SignerProgramRule list \<Rightarrow> string \<Rightarrow> string \<Rightarrow> SignerProgramRule option \<Rightarrow> bool \<Rightarrow> SignerProgramRule option \<times> bool" where
  "matchRule_loop [] programId dataHex best allowed = (best, allowed)"
| "matchRule_loop (r # rs) programId dataHex best allowed =
     (if pr_programId r \<noteq> programId then matchRule_loop rs programId dataHex best allowed
      else if \<not> starts_with dataHex (pr_discriminator r) then matchRule_loop rs programId dataHex best True
      else matchRule_loop rs programId dataHex
             (case best of
                None \<Rightarrow> Some r
              | Some b \<Rightarrow> if length (pr_discriminator r) > length (pr_discriminator b) then Some r else Some b) True)"

definition matchRule :: "SignPolicy \<Rightarrow> string \<Rightarrow> string \<Rightarrow> SignerProgramRule option \<times> bool" where
  "matchRule policy programId dataHex = matchRule_loop (sg_programs policy) programId dataHex None False"

record EvalState =
  ev_spend :: "(string \<times> int) list"
  ev_explicitLimit :: "int option"
  ev_unitPrice :: "int option"

text \<open>\<open>spend.set(asset, (spend.get(asset) ?? 0n) + amount)\<close>: a \<open>Map\<close> keeps the order of first insertion.\<close>

definition spent_of :: "string \<Rightarrow> (string \<times> int) list \<Rightarrow> int" where
  "spent_of a m = (case map_of m a of None \<Rightarrow> 0 | Some n \<Rightarrow> n)"

definition add_spend :: "string \<Rightarrow> int \<Rightarrow> (string \<times> int) list \<Rightarrow> (string \<times> int) list" where
  "add_spend a n m =
     (if map_of m a = None then m @ [(a, n)] else map (\<lambda>(b, k). if b = a then (b, k + n) else (b, k)) m)"

definition check_mint :: "DecodedInstruction \<Rightarrow> SignerSpendRule \<Rightarrow> string + unit" where
  "check_mint x sp =
     (case sp_mintAccountIndex sp of
        None \<Rightarrow> Inr ()
      | Some i \<Rightarrow>
          throwIf (i < 0 \<or> i \<ge> int (length (ix_accounts x))) ''policy_spend_mint_missing''
          (throwIf (ix_accounts x ! nat i \<noteq> Some (sp_asset sp)) ''policy_spend_mint_mismatch'' (Inr ())))"

definition evaluate_instruction :: "SignPolicy \<Rightarrow> DecodedInstruction \<Rightarrow> EvalState \<Rightarrow> string + EvalState" where
  "evaluate_instruction policy x st =
     (case matchRule policy (ix_programId x) (ix_dataHex x) of (rule, programAllowed) \<Rightarrow>
        throwIf (\<not> programAllowed) ''policy_program''
        (case rule of
           None \<Rightarrow> Inl ''policy_instruction''
         | Some r \<Rightarrow> (case pr_effect r of
             Eff_none \<Rightarrow> Inr st
           | Eff_fee \<Rightarrow>
               (if pr_discriminator r = SET_UNIT_LIMIT then
                  throwIf (ev_explicitLimit st \<noteq> None) ''policy_compute_units''
                  (bindR (readAmount (ix_data x) 1 U32le) (\<lambda>n. Inr (st\<lparr> ev_explicitLimit := Some n \<rparr>)))
                else if pr_discriminator r = SET_UNIT_PRICE then
                  throwIf (ev_unitPrice st \<noteq> None) ''policy_compute_unit_price''
                  (bindR (readAmount (ix_data x) 1 U64le) (\<lambda>n. Inr (st\<lparr> ev_unitPrice := Some n \<rparr>)))
                else Inr st)
           | Eff_spend sp \<Rightarrow>
               bindR (check_mint x sp) (\<lambda>_.
               bindR (readAmount (ix_data x) (sp_amountOffset sp) (sp_amountEncoding sp)) (\<lambda>n.
               Inr (st\<lparr> ev_spend := add_spend (sp_asset sp) n (ev_spend st) \<rparr>))))))"

definition check_shape :: "DecodedTransaction \<Rightarrow> SignPolicy \<Rightarrow> string \<Rightarrow> string + unit" where
  "check_shape d policy payer =
     throwIf (dt_feePayer d \<noteq> payer \<or> dt_feePayer d \<notin> set (sg_feePayers policy)) ''policy_fee_payer''
     (throwIf (dt_numRequiredSignatures d > sg_maxRequiredSignatures policy) ''policy_signers''
     (throwIf (int (length (dt_staticAccountKeys d)) > sg_maxAccountKeys policy) ''policy_account_keys''
     (throwIf (int (length (dt_instructions d)) > sg_maxInstructions policy) ''policy_instruction_count''
     (throwIf (\<not> list_all (\<lambda>l. al_accountKey l \<in> set (sg_addressLookupTables policy)) (dt_addressTableLookups d))
        ''policy_address_table_lookup'' (Inr ())))))"

text \<open>The compute budget: the limit, the price, and the lamports at risk.\<close>

definition unit_limit :: "DecodedTransaction \<Rightarrow> EvalState \<Rightarrow> int" where
  "unit_limit d st =
     (case ev_explicitLimit st of
        Some n \<Rightarrow> n
      | None \<Rightarrow> min (DEFAULT_UNITS_PER_INSTRUCTION * int (length (dt_instructions d))) MAX_UNITS_PER_TRANSACTION)"

definition micro_lamports :: "EvalState \<Rightarrow> int" where
  "micro_lamports st = (case ev_unitPrice st of None \<Rightarrow> 0 | Some n \<Rightarrow> n)"

definition priority_fee :: "DecodedTransaction \<Rightarrow> EvalState \<Rightarrow> int" where
  "priority_fee d st = (unit_limit d st * micro_lamports st + 999999) sdiv 1000000"

definition check_fees :: "DecodedTransaction \<Rightarrow> SignPolicy \<Rightarrow> EvalState \<Rightarrow> string + unit" where
  "check_fees d policy st =
     throwIf (\<not> js_safe_integer (unit_limit d st) \<or> unit_limit d st < 0 \<or>
         unit_limit d st > sg_maxComputeUnitLimit policy) ''policy_compute_units''
     (throwIf (micro_lamports st > sg_maxComputeUnitPriceMicroLamports policy) ''policy_compute_unit_price''
     (throwIf (priority_fee d st > sg_maxPriorityFeeLamports policy) ''policy_priority_fee''
     (case (sg_maxPriorityFeeBps policy, map_of (ev_spend st) NATIVE_ASSET) of
        (Some bps, Some nativeLeg) \<Rightarrow>
          throwIf (nativeLeg > 0 \<and> priority_fee d st > (nativeLeg * bps) sdiv 10000) ''policy_priority_fee'' (Inr ())
      | _ \<Rightarrow> Inr ())))"

definition check_caps :: "SignPolicy \<Rightarrow> (string \<times> int) list \<Rightarrow> string + unit" where
  "check_caps policy m =
     foldR (\<lambda>(asset, total) _. case map_of (sg_caps policy) asset of
         None \<Rightarrow> Inl ''policy_cap_missing''
       | Some cap \<Rightarrow> throwIf (total > cap) ''policy_spend_cap'' (Inr ())) m ()"

definition evaluatePolicy :: "DecodedTransaction \<Rightarrow> SignPolicy \<Rightarrow> string \<Rightarrow> string + PolicyEvaluation" where
  "evaluatePolicy d policy payer =
     bindR (check_shape d policy payer) (\<lambda>_.
     bindR (foldR (evaluate_instruction policy) (dt_instructions d)
        \<lparr> ev_spend = [], ev_explicitLimit = None, ev_unitPrice = None \<rparr>) (\<lambda>st.
     bindR (check_fees d policy st) (\<lambda>_.
     bindR (check_caps policy (ev_spend st)) (\<lambda>_.
     Inr \<lparr> pe_spend = ev_spend st, pe_computeUnitLimit = unit_limit d st,
           pe_computeUnitPriceMicroLamports = micro_lamports st, pe_priorityFeeLamports = priority_fee d st \<rparr>))))"

section \<open>The policy file\<close>

definition prop_of :: "string \<Rightarrow> json \<Rightarrow> json option" where
  "prop_of k v = (case v of J_obj fs \<Rightarrow> map_of fs k | _ \<Rightarrow> None)"

definition is_object :: "json \<Rightarrow> bool" where
  "is_object v \<longleftrightarrow> (case v of J_obj _ \<Rightarrow> True | J_arr _ \<Rightarrow> True | _ \<Rightarrow> False)"

definition json_public_key :: "SolanaLib \<Rightarrow> json \<Rightarrow> bool" where
  "json_public_key L v \<longleftrightarrow> (case v of J_str s \<Rightarrow> isPublicKey L s | _ \<Rightarrow> False)"

text \<open>The expression \<open>0|[1-9][0-9]*\<close>.\<close>

definition unsigned_text :: "string \<Rightarrow> bool" where
  "unsigned_text s \<longleftrightarrow> s = ''0'' \<or> (s \<noteq> [] \<and> hd s \<noteq> CHR ''0'' \<and> list_all is_digit s)"

definition parseUnsigned :: "json option \<Rightarrow> string \<Rightarrow> string + int" where
  "parseUnsigned v label =
     (case v of
        Some (J_str s) \<Rightarrow> throwIf (\<not> unsigned_text s) (''policy_'' @ label @ ''_invalid'') (Inr (int (parse_digits s)))
      | _ \<Rightarrow> Inl (''policy_'' @ label @ ''_invalid''))"

definition parseCount :: "json option \<Rightarrow> string \<Rightarrow> int \<Rightarrow> string + int" where
  "parseCount v label limit =
     (case v of
        Some (J_num n) \<Rightarrow> throwIf (\<not> js_safe_integer n \<or> n < 0 \<or> n > limit) (''policy_'' @ label @ ''_invalid'') (Inr n)
      | _ \<Rightarrow> Inl (''policy_'' @ label @ ''_invalid''))"

definition hex_digit :: "char \<Rightarrow> bool" where
  "hex_digit c \<longleftrightarrow> is_digit c \<or> (CHR ''a'' \<le> c \<and> c \<le> CHR ''f'')"

definition hex_prefix :: "string \<Rightarrow> bool" where
  "hex_prefix s \<longleftrightarrow> s \<noteq> [] \<and> even (length s) \<and> list_all hex_digit s"

definition parse_spend :: "SolanaLib \<Rightarrow> json option \<Rightarrow> string + SignerSpendRule" where
  "parse_spend L v =
     (case v of
        None \<Rightarrow> Inl ''policy_spend_invalid''
      | Some sp \<Rightarrow>
          throwIf (\<not> is_object sp) ''policy_spend_invalid''
          (case prop_of ''asset'' sp of
             Some (J_str asset) \<Rightarrow>
               throwIf (asset \<noteq> NATIVE_ASSET \<and> \<not> isPublicKey L asset) ''policy_spend_invalid''
               (throwIf (prop_of ''amountEncoding'' sp \<notin> {Some (J_str ''u64le''), Some (J_str ''u32le'')}) ''policy_spend_invalid''
               (bindR (parseCount (prop_of ''amountOffset'' sp) ''spend'' 1024) (\<lambda>offset.
               bindR (case prop_of ''mintAccountIndex'' sp of
                   None \<Rightarrow> Inr None
                 | Some m \<Rightarrow> bindR (parseCount (Some m) ''spend'' 255) (\<lambda>n. Inr (Some n))) (\<lambda>mint.
               throwIf (mint \<noteq> None \<and> asset = NATIVE_ASSET) ''policy_spend_invalid''
               (Inr \<lparr> sp_asset = asset, sp_amountOffset = offset,
                      sp_amountEncoding = (if prop_of ''amountEncoding'' sp = Some (J_str ''u64le'') then U64le else U32le),
                      sp_mintAccountIndex = mint \<rparr>)))))
           | _ \<Rightarrow> Inl ''policy_spend_invalid''))"

definition parseProgramRule :: "SolanaLib \<Rightarrow> json \<Rightarrow> string + SignerProgramRule" where
  "parseProgramRule L x =
     throwIf (\<not> is_object x) ''policy_program_invalid''
     (case prop_of ''programId'' x of
        Some (J_str programId) \<Rightarrow>
          throwIf (\<not> isPublicKey L programId) ''policy_program_invalid''
          (case prop_of ''discriminator'' x of
             Some (J_str discriminator) \<Rightarrow>
               throwIf (\<not> hex_prefix discriminator \<or> length discriminator > 32) ''policy_discriminator_invalid''
               (if prop_of ''effect'' x = Some (J_str ''none'')
                then Inr \<lparr> pr_programId = programId, pr_discriminator = discriminator, pr_effect = Eff_none \<rparr>
                else if prop_of ''effect'' x = Some (J_str ''fee'')
                then throwIf (programId \<noteq> COMPUTE_BUDGET_PROGRAM_ID) ''policy_fee_effect_invalid''
                     (throwIf (discriminator \<noteq> SET_UNIT_LIMIT \<and> discriminator \<noteq> SET_UNIT_PRICE) ''policy_fee_effect_invalid''
                     (Inr \<lparr> pr_programId = programId, pr_discriminator = discriminator, pr_effect = Eff_fee \<rparr>))
                else throwIf (prop_of ''effect'' x \<noteq> Some (J_str ''spend'')) ''policy_effect_invalid''
                     (bindR (parse_spend L (prop_of ''spend'' x)) (\<lambda>sp.
                      Inr \<lparr> pr_programId = programId, pr_discriminator = discriminator, pr_effect = Eff_spend sp \<rparr>)))
           | _ \<Rightarrow> Inl ''policy_discriminator_invalid'')
      | _ \<Rightarrow> Inl ''policy_program_invalid'')"

definition rule_key :: "SignerProgramRule \<Rightarrow> string" where
  "rule_key r = pr_programId r @ CHR '':'' # pr_discriminator r"

definition strings_of :: "json list \<Rightarrow> string list" where
  "strings_of xs = concat (map (\<lambda>v. case v of J_str s \<Rightarrow> [s] | _ \<Rightarrow> []) xs)"

definition parse_cap :: "SolanaLib \<Rightarrow> string \<times> json \<Rightarrow> string + (string \<times> int)" where
  "parse_cap L kv = (case kv of (asset, v) \<Rightarrow>
     throwIf (asset \<noteq> NATIVE_ASSET \<and> \<not> isPublicKey L asset) ''policy_cap_invalid''
     (bindR (parseUnsigned (Some v) ''cap'') (\<lambda>n. Inr (asset, n))))"

definition parse_limits :: "json \<Rightarrow> SignPolicy \<Rightarrow> string + SignPolicy" where
  "parse_limits x p =
     bindR (parseCount (prop_of ''maxInstructions'' x) ''max_instructions'' 64) (\<lambda>a.
     bindR (parseCount (prop_of ''maxAccountKeys'' x) ''max_account_keys'' 256) (\<lambda>b.
     bindR (parseCount (prop_of ''maxRequiredSignatures'' x) ''max_required_signatures'' 8) (\<lambda>c.
     bindR (parseCount (prop_of ''maxComputeUnitLimit'' x) ''max_compute_unit_limit'' MAX_UNITS_PER_TRANSACTION) (\<lambda>d.
     bindR (parseUnsigned (prop_of ''maxComputeUnitPriceMicroLamports'' x) ''max_compute_unit_price'') (\<lambda>e.
     bindR (parseUnsigned (prop_of ''maxPriorityFeeLamports'' x) ''max_priority_fee'') (\<lambda>f.
     bindR (case prop_of ''maxPriorityFeeBps'' x of
         None \<Rightarrow> Inr None
       | Some v \<Rightarrow> bindR (parseCount (Some v) ''max_priority_fee_bps'' 10000) (\<lambda>n. Inr (Some n))) (\<lambda>g.
     Inr (p\<lparr> sg_maxInstructions := a, sg_maxAccountKeys := b, sg_maxRequiredSignatures := c, sg_maxComputeUnitLimit := d,
            sg_maxComputeUnitPriceMicroLamports := e, sg_maxPriorityFeeLamports := f, sg_maxPriorityFeeBps := g \<rparr>))))))))"

text \<open>
  \<open>loadSignPolicy\<close> after the checks of the file: \<open>x\<close> is what \<open>JSON.parse\<close> returned (\<open>None\<close> when it
  threw), \<open>sha\<close> the SHA-256 of the text.
\<close>

definition policy_format_ok :: "SolanaLib \<Rightarrow> json \<Rightarrow> bool" where
  "policy_format_ok L x \<longleftrightarrow>
     prop_of ''version'' x = Some (J_num 1) \<and>
     (case prop_of ''cluster'' x of Some (J_str s) \<Rightarrow> s \<noteq> [] | _ \<Rightarrow> False) \<and>
     (case prop_of ''feePayers'' x of Some (J_arr xs) \<Rightarrow> xs \<noteq> [] \<and> list_all (json_public_key L) xs | _ \<Rightarrow> False) \<and>
     (case prop_of ''programs'' x of Some (J_arr xs) \<Rightarrow> xs \<noteq> [] | _ \<Rightarrow> False) \<and>
     (case prop_of ''caps'' x of Some (J_obj _) \<Rightarrow> True | _ \<Rightarrow> False) \<and>
     (case prop_of ''addressLookupTables'' x of Some (J_arr xs) \<Rightarrow> list_all (json_public_key L) xs | _ \<Rightarrow> False)"

definition array_of :: "string \<Rightarrow> json \<Rightarrow> json list" where
  "array_of k x = (case prop_of k x of Some (J_arr xs) \<Rightarrow> xs | _ \<Rightarrow> [])"

definition loadSignPolicy :: "SolanaLib \<Rightarrow> string \<Rightarrow> json option \<Rightarrow> string + SignPolicy" where
  "loadSignPolicy L sha content =
     (case content of
        None \<Rightarrow> Inl ''policy_format_invalid''
      | Some x \<Rightarrow>
          throwIf (x = J_null) ''type_error''
          (throwIf (\<not> policy_format_ok L x) ''policy_format_invalid''
          (bindR (mapR (parseProgramRule L) (array_of ''programs'' x)) (\<lambda>programs.
          throwIf (\<not> distinct (map rule_key programs)) ''policy_program_duplicate''
          (bindR (mapR (parse_cap L) (case prop_of ''caps'' x of Some (J_obj fs) \<Rightarrow> fs | _ \<Rightarrow> [])) (\<lambda>caps.
          parse_limits x
            \<lparr> sg_version = 1, sg_hash = ''0x'' @ sha,
              sg_cluster = (case prop_of ''cluster'' x of Some (J_str s) \<Rightarrow> s | _ \<Rightarrow> []),
              sg_feePayers = strings_of (array_of ''feePayers'' x), sg_programs = programs, sg_caps = caps,
              sg_maxInstructions = 0, sg_maxAccountKeys = 0, sg_maxRequiredSignatures = 0, sg_maxComputeUnitLimit = 0,
              sg_maxComputeUnitPriceMicroLamports = 0, sg_maxPriorityFeeLamports = 0, sg_maxPriorityFeeBps = None,
              sg_addressLookupTables = strings_of (array_of ''addressLookupTables'' x) \<rparr>))))))"

section \<open>The rule of an instruction\<close>

definition rule_matches :: "string \<Rightarrow> string \<Rightarrow> SignerProgramRule \<Rightarrow> bool" where
  "rule_matches programId dataHex r \<longleftrightarrow> pr_programId r = programId \<and> starts_with dataHex (pr_discriminator r)"

definition disc_len :: "SignerProgramRule \<Rightarrow> nat" where
  "disc_len r = length (pr_discriminator r)"

definition best_so_far :: "string \<Rightarrow> string \<Rightarrow> SignerProgramRule list \<Rightarrow> SignerProgramRule option \<Rightarrow> bool" where
  "best_so_far programId h rs best \<longleftrightarrow>
     (case best of
        None \<Rightarrow> \<not> list_ex (rule_matches programId h) rs
      | Some b \<Rightarrow> b \<in> set rs \<and> rule_matches programId h b \<and>
          list_all (\<lambda>r. rule_matches programId h r \<longrightarrow> disc_len r \<le> disc_len b) rs)"

lemma matchRule_loop_spec:
  assumes "best_so_far p h seen best" and "allowed \<longleftrightarrow> list_ex (\<lambda>r. pr_programId r = p) seen"
  shows "case matchRule_loop rs p h best allowed of (b, ok) \<Rightarrow>
     best_so_far p h (seen @ rs) b \<and> ok = list_ex (\<lambda>r. pr_programId r = p) (seen @ rs)"
  using assms
proof (induction rs arbitrary: seen best allowed)
  case Nil
  then show ?case by simp
next
  case (Cons r rs)
  consider "pr_programId r \<noteq> p" | "pr_programId r = p" "\<not> starts_with h (pr_discriminator r)"
    | "pr_programId r = p" "starts_with h (pr_discriminator r)" by blast
  then show ?case
  proof cases
    case 1
    then have "best_so_far p h (seen @ [r]) best"
      using Cons.prems by (auto simp: best_so_far_def rule_matches_def split: option.splits)
    then show ?thesis using Cons.IH [of "seen @ [r]" best allowed] Cons.prems 1 by simp
  next
    case 2
    then have "best_so_far p h (seen @ [r]) best"
      using Cons.prems by (auto simp: best_so_far_def rule_matches_def split: option.splits)
    then show ?thesis using Cons.IH [of "seen @ [r]" best True] Cons.prems 2 by simp
  next
    case 3
    let ?b = "case best of None \<Rightarrow> Some r
      | Some b \<Rightarrow> if length (pr_discriminator r) > length (pr_discriminator b) then Some r else Some b"
    have "best_so_far p h (seen @ [r]) ?b"
      using Cons.prems 3 unfolding best_so_far_def rule_matches_def disc_len_def
      by (cases best) (fastforce simp: list_all_iff list_ex_iff)+
    then show ?thesis using Cons.IH [of "seen @ [r]" ?b True] Cons.prems 3 by simp
  qed
qed

text \<open>
  The rule of an instruction is the most specific one: a program is allowed exactly when some rule
  names it, there is no rule exactly when no discriminator of the program is a prefix of the data,
  and the rule found is one of the policy's, matches, and no matching rule has a longer
  discriminator.
\<close>

theorem matchRule_longest:
  "case matchRule policy programId dataHex of (rule, allowed) \<Rightarrow>
     best_so_far programId dataHex (sg_programs policy) rule \<and>
     allowed = list_ex (\<lambda>r. pr_programId r = programId) (sg_programs policy)"
  using matchRule_loop_spec [of programId dataHex "[]" None False "sg_programs policy"]
  by (simp add: matchRule_def best_so_far_def)

section \<open>Spend\<close>

text \<open>The leg an instruction moves under the policy, read off its data: the asset and the amount.\<close>

definition leg_of :: "SignPolicy \<Rightarrow> DecodedInstruction \<Rightarrow> (string \<times> int) option" where
  "leg_of policy x =
     (case fst (matchRule policy (ix_programId x) (ix_dataHex x)) of
        None \<Rightarrow> None
      | Some r \<Rightarrow> (case pr_effect r of
          Eff_spend sp \<Rightarrow>
            (case readAmount (ix_data x) (sp_amountOffset sp) (sp_amountEncoding sp) of
               Inl _ \<Rightarrow> None | Inr n \<Rightarrow> Some (sp_asset sp, n))
        | _ \<Rightarrow> None))"

text \<open>An instruction the policy classifies: its mint, when the rule names one, is a key of the message.\<close>

definition classified :: "SignPolicy \<Rightarrow> DecodedInstruction \<Rightarrow> bool" where
  "classified policy x \<longleftrightarrow>
     (case fst (matchRule policy (ix_programId x) (ix_dataHex x)) of
        None \<Rightarrow> False
      | Some r \<Rightarrow> (case pr_effect r of
          Eff_spend sp \<Rightarrow> leg_of policy x \<noteq> None \<and>
            (case sp_mintAccountIndex sp of None \<Rightarrow> True
             | Some i \<Rightarrow> 0 \<le> i \<and> i < int (length (ix_accounts x)) \<and> ix_accounts x ! nat i = Some (sp_asset sp))
        | _ \<Rightarrow> True))"

definition moved :: "SignPolicy \<Rightarrow> string \<Rightarrow> DecodedInstruction list \<Rightarrow> int" where
  "moved policy a xs = sum_list (map (\<lambda>x. case leg_of policy x of None \<Rightarrow> 0 | Some (b, n) \<Rightarrow> if b = a then n else 0) xs)"

lemma map_of_add_spend:
  "map_of (add_spend a n m) b = (if b = a then Some (spent_of a m + n) else map_of m b)"
proof -
  have upd: "map_of (map (\<lambda>(b, k). if b = a then (b, k + n) else (b, k)) m) b =
      map_option (\<lambda>k. if b = a then k + n else k) (map_of m b)"
    by (induction m) auto
  show ?thesis
    by (cases "map_of m a") (auto simp: add_spend_def spent_of_def upd map_add_def option.map_ident split: option.split)
qed

lemma spent_add_spend: "spent_of b (add_spend a n m) = (if b = a then spent_of b m + n else spent_of b m)"
  by (simp add: spent_of_def [of b "add_spend a n m"] map_of_add_spend) (simp add: spent_of_def)

lemma keys_add_spend: "map fst (add_spend a n m) = (if map_of m a = None then map fst m @ [a] else map fst m)"
proof -
  have "map fst (map (\<lambda>(b, k). if b = a then (b, k + n) else (b, k)) m) = map fst m" by (induction m) auto
  then show ?thesis by (simp add: add_spend_def del: map_map)
qed

lemma distinct_add_spend: "distinct (map fst m) \<Longrightarrow> distinct (map fst (add_spend a n m))"
  by (simp add: keys_add_spend map_of_eq_None_iff)

lemma keys_set_add_spend: "fst ` set (add_spend a n m) = insert a (fst ` set m)"
proof -
  have "a \<in> fst ` set m" if "map_of m a \<noteq> None" using that by (simp add: map_of_eq_None_iff)
  then have "set (map fst (add_spend a n m)) = insert a (set (map fst m))" by (auto simp: keys_add_spend)
  then show ?thesis by simp
qed

lemma evaluate_instruction_Inr:
  assumes "evaluate_instruction policy x st = Inr st'"
  shows "classified policy x \<and>
    ev_spend st' = (case leg_of policy x of None \<Rightarrow> ev_spend st | Some (a, n) \<Rightarrow> add_spend a n (ev_spend st))"
proof -
  obtain r where m: "matchRule policy (ix_programId x) (ix_dataHex x) = (Some r, True)"
    using assms by (auto simp: evaluate_instruction_def split: prod.splits option.splits)
  show ?thesis
  proof (cases "pr_effect r")
    case Eff_none
    then show ?thesis using assms m by (simp add: evaluate_instruction_def classified_def leg_of_def)
  next
    case Eff_fee
    then show ?thesis using assms m
      by (auto simp: evaluate_instruction_def classified_def leg_of_def bindR_Inr split: if_splits)
  next
    case (Eff_spend sp)
    then show ?thesis using assms m
      by (auto simp: evaluate_instruction_def classified_def leg_of_def bindR_Inr check_mint_def split: option.splits)
  qed
qed

definition spend_matches :: "SignPolicy \<Rightarrow> DecodedInstruction list \<Rightarrow> EvalState \<Rightarrow> bool" where
  "spend_matches policy xs st \<longleftrightarrow>
     distinct (map fst (ev_spend st)) \<and> list_all (classified policy) xs \<and>
     (\<forall>a. spent_of a (ev_spend st) = moved policy a xs) \<and>
     fst ` set (ev_spend st) = {a. \<exists>x \<in> set xs. \<exists>n. leg_of policy x = Some (a, n)}"

lemma spend_matches_step:
  assumes "spend_matches policy ys st" "evaluate_instruction policy x st = Inr st'"
  shows "spend_matches policy (ys @ [x]) st'"
proof (cases "leg_of policy x")
  case None
  then show ?thesis
    using assms(1) evaluate_instruction_Inr [OF assms(2)] by (auto simp: spend_matches_def moved_def)
next
  case (Some l)
  obtain a n where l: "l = (a, n)" by (cases l)
  show ?thesis
    using assms(1) evaluate_instruction_Inr [OF assms(2)] Some l
    by (auto simp: spend_matches_def moved_def spent_add_spend distinct_add_spend keys_set_add_spend)
qed

lemma spend_matches_fold:
  assumes "foldR (evaluate_instruction policy) xs \<lparr> ev_spend = [], ev_explicitLimit = None, ev_unitPrice = None \<rparr> = Inr st"
  shows "spend_matches policy xs st"
  using assms
proof (rule foldR_invariant)
  show "spend_matches policy [] \<lparr> ev_spend = [], ev_explicitLimit = None, ev_unitPrice = None \<rparr>"
    by (simp add: spend_matches_def moved_def spent_of_def)
qed (rule spend_matches_step)

lemma check_caps_Inr:
  "check_caps policy m = Inr u \<longleftrightarrow>
     (\<forall>(a, n) \<in> set m. case map_of (sg_caps policy) a of None \<Rightarrow> False | Some cap \<Rightarrow> n \<le> cap)"
proof (induction m)
  case Nil
  then show ?case by (simp add: check_caps_def)
next
  case (Cons x m)
  then show ?case by (cases x) (auto simp: check_caps_def bindR_Inr split: option.splits)
qed

text \<open>
  C13: whatever the signer accepts, it has classified every instruction, each declared mint is the
  account the message names, and for every asset the amounts its spending instructions carry in
  their data add up to what the evaluation reports, which never exceeds the cap the policy gives
  that asset. An asset without a cap is not spent at all.
\<close>

theorem evaluatePolicy_spend_capped:
  "case evaluatePolicy d policy payer of
     Inl _ \<Rightarrow> True
   | Inr e \<Rightarrow>
       list_all (classified policy) (dt_instructions d) \<and>
       (\<forall>a. spent_of a (pe_spend e) = moved policy a (dt_instructions d)) \<and>
       list_all (\<lambda>x. case leg_of policy x of
           None \<Rightarrow> True
         | Some (a, n) \<Rightarrow> (case map_of (sg_caps policy) a of
             None \<Rightarrow> False | Some cap \<Rightarrow> moved policy a (dt_instructions d) \<le> cap)) (dt_instructions d)"
proof (cases "evaluatePolicy d policy payer")
  case (Inr e)
  then obtain st where st: "foldR (evaluate_instruction policy) (dt_instructions d)
      \<lparr> ev_spend = [], ev_explicitLimit = None, ev_unitPrice = None \<rparr> = Inr st"
    and caps: "check_caps policy (ev_spend st) = Inr ()" and e: "pe_spend e = ev_spend st"
    by (auto simp: evaluatePolicy_def bindR_Inr)
  have sm: "spend_matches policy (dt_instructions d) st" using st by (rule spend_matches_fold)
  have "case map_of (sg_caps policy) a of None \<Rightarrow> False | Some cap \<Rightarrow> moved policy a (dt_instructions d) \<le> cap"
    if "x \<in> set (dt_instructions d)" "leg_of policy x = Some (a, n)" for x a n
  proof -
    have "a \<in> fst ` set (ev_spend st)" using sm that by (auto simp: spend_matches_def)
    then obtain k where k: "(a, k) \<in> set (ev_spend st)" by auto
    then have "spent_of a (ev_spend st) = k" using sm by (auto simp: spend_matches_def spent_of_def)
    then have "k = moved policy a (dt_instructions d)" using sm by (simp add: spend_matches_def)
    then show ?thesis using caps k by (auto simp: check_caps_Inr)
  qed
  then show ?thesis using Inr sm e by (auto simp: spend_matches_def list_all_iff split: option.split)
qed simp

section \<open>Fees\<close>

lemma le_int_bounds: "0 \<le> le_int bs \<and> le_int bs < 256 ^ length bs"
proof (induction bs)
  case (Cons b bs)
  have "0 \<le> uint b" "uint b < 256" using uint_bounded [of b] by simp_all
  moreover have "256 * le_int bs \<le> 256 * (256 ^ length bs - 1)" using Cons by simp
  ultimately show ?case using Cons by simp
qed simp

lemma readAmount_bounds:
  assumes "readAmount data offset encoding = Inr n"
  shows "0 \<le> n \<and> n < 256 ^ (case encoding of U64le \<Rightarrow> 8 | U32le \<Rightarrow> 4)"
proof -
  define w :: nat where "w = (case encoding of U64le \<Rightarrow> 8 | U32le \<Rightarrow> 4)"
  have w: "nat (case encoding of U64le \<Rightarrow> (8::int) | U32le \<Rightarrow> 4) = w" by (cases encoding) (simp_all add: w_def)
  have n: "n = le_int (take w (drop (nat offset) data))" using assms w by (simp add: readAmount_def Let_def)
  have "0 \<le> n \<and> n < 256 ^ length (take w (drop (nat offset) data))" unfolding n by (rule le_int_bounds)
  moreover have "(256::int) ^ length (take w (drop (nat offset) data)) \<le> 256 ^ w" by (rule power_increasing) simp_all
  ultimately have "0 \<le> n \<and> n < 256 ^ w" by (meson order_less_le_trans)
  then show ?thesis by (simp only: w_def)
qed

lemma read_u32: "readAmount data offset U32le = Inr n \<Longrightarrow> 0 \<le> n \<and> n < 2 ^ 32"
  using readAmount_bounds [of data offset U32le n] by simp

lemma read_u64: "readAmount data offset U64le = Inr n \<Longrightarrow> 0 \<le> n \<and> n < 2 ^ 64"
  using readAmount_bounds [of data offset U64le n] by simp

definition budget_ok :: "EvalState \<Rightarrow> bool" where
  "budget_ok st \<longleftrightarrow>
     (case ev_explicitLimit st of None \<Rightarrow> True | Some n \<Rightarrow> 0 \<le> n \<and> n < 2 ^ 32) \<and>
     (case ev_unitPrice st of None \<Rightarrow> True | Some n \<Rightarrow> 0 \<le> n \<and> n < 2 ^ 64)"

lemma budget_step:
  assumes "budget_ok st" "evaluate_instruction policy x st = Inr st'"
  shows "budget_ok st'"
  using assms
  by (auto simp: evaluate_instruction_def budget_ok_def bindR_Inr dest!: read_u32 read_u64
      split: prod.splits option.splits RuleEffect.splits if_splits)

lemma budget_fold:
  assumes "foldR (evaluate_instruction policy) xs \<lparr> ev_spend = [], ev_explicitLimit = None, ev_unitPrice = None \<rparr> = Inr st"
  shows "budget_ok st"
  using assms
proof (rule foldR_invariant [where P = "\<lambda>_. budget_ok"])
  show "budget_ok \<lparr> ev_spend = [], ev_explicitLimit = None, ev_unitPrice = None \<rparr>" by (simp add: budget_ok_def)
qed (rule budget_step)

lemma ceil_million:
  fixes n :: int
  assumes "0 \<le> n"
  shows "n \<le> 1000000 * ((n + 999999) sdiv 1000000)" "1000000 * ((n + 999999) sdiv 1000000) < n + 1000000"
proof -
  have eq: "(n + 999999) sdiv 1000000 = (n + 999999) div 1000000" using assms by simp
  have "n + 999999 = 1000000 * ((n + 999999) div 1000000) + (n + 999999) mod 1000000" by simp
  moreover have "0 \<le> (n + 999999) mod 1000000" "(n + 999999) mod 1000000 < 1000000" by simp_all
  ultimately show "n \<le> 1000000 * ((n + 999999) sdiv 1000000)" "1000000 * ((n + 999999) sdiv 1000000) < n + 1000000"
    unfolding eq by linarith+
qed

text \<open>
  The priority fee of an accepted transaction is the exact ceiling of limit times price in
  lamports, and it, the compute limit and the price are within the policy; where the policy bounds
  the fee against the native leg, ten thousand times the fee is at most the leg times the bound.
\<close>

theorem evaluatePolicy_fee_bounded:
  "case evaluatePolicy d policy payer of
     Inl _ \<Rightarrow> True
   | Inr e \<Rightarrow>
       (let limit = pe_computeUnitLimit e; price = pe_computeUnitPriceMicroLamports e; fee = pe_priorityFeeLamports e in
        0 \<le> limit \<and> limit \<le> sg_maxComputeUnitLimit policy \<and>
        0 \<le> price \<and> price < 2 ^ 64 \<and> price \<le> sg_maxComputeUnitPriceMicroLamports policy \<and>
        limit * price \<le> 1000000 * fee \<and> 1000000 * fee < limit * price + 1000000 \<and>
        fee \<le> sg_maxPriorityFeeLamports policy \<and>
        (case (sg_maxPriorityFeeBps policy, map_of (pe_spend e) NATIVE_ASSET) of
           (Some bps, Some leg) \<Rightarrow> (if 0 < leg \<and> 0 \<le> bps then 10000 * fee \<le> leg * bps else True)
         | _ \<Rightarrow> True))"
proof (cases "evaluatePolicy d policy payer")
  case (Inr e)
  then obtain st where st: "foldR (evaluate_instruction policy) (dt_instructions d)
      \<lparr> ev_spend = [], ev_explicitLimit = None, ev_unitPrice = None \<rparr> = Inr st"
    and fees: "check_fees d policy st = Inr ()"
    and e: "e = \<lparr> pe_spend = ev_spend st, pe_computeUnitLimit = unit_limit d st,
           pe_computeUnitPriceMicroLamports = micro_lamports st, pe_priorityFeeLamports = priority_fee d st \<rparr>"
    by (auto simp: evaluatePolicy_def bindR_Inr)
  have price: "0 \<le> micro_lamports st" "micro_lamports st < 2 ^ 64"
    using budget_fold [OF st] by (auto simp: budget_ok_def micro_lamports_def split: option.splits)
  have limit: "0 \<le> unit_limit d st" using fees by (auto simp: check_fees_def)
  have fee: "unit_limit d st * micro_lamports st \<le> 1000000 * priority_fee d st"
    "1000000 * priority_fee d st < unit_limit d st * micro_lamports st + 1000000"
    using ceil_million [of "unit_limit d st * micro_lamports st"] limit price by (simp_all add: priority_fee_def)
  have bps: "10000 * priority_fee d st \<le> leg * b"
    if "sg_maxPriorityFeeBps policy = Some b" "map_of (ev_spend st) NATIVE_ASSET = Some leg" "0 < leg" "0 \<le> b" for b leg
  proof -
    have "priority_fee d st \<le> (leg * b) div 10000" using fees that by (auto simp: check_fees_def)
    then show ?thesis using int_div_mult_le [of 10000 "leg * b"] by linarith
  qed
  show ?thesis
    using fees price limit fee bps unfolding Inr e by (auto simp: check_fees_def Let_def split: option.splits)
qed simp

section \<open>A loaded policy\<close>

definition rule_wf :: "SolanaLib \<Rightarrow> SignerProgramRule \<Rightarrow> bool" where
  "rule_wf L r \<longleftrightarrow>
     isPublicKey L (pr_programId r) \<and> hex_prefix (pr_discriminator r) \<and> length (pr_discriminator r) \<le> 32 \<and>
     (case pr_effect r of
        Eff_none \<Rightarrow> True
      | Eff_fee \<Rightarrow> pr_programId r = COMPUTE_BUDGET_PROGRAM_ID \<and>
          (pr_discriminator r = SET_UNIT_LIMIT \<or> pr_discriminator r = SET_UNIT_PRICE)
      | Eff_spend sp \<Rightarrow>
          (sp_asset sp = NATIVE_ASSET \<and> sp_mintAccountIndex sp = None \<or> isPublicKey L (sp_asset sp)) \<and>
          0 \<le> sp_amountOffset sp \<and> sp_amountOffset sp \<le> 1024)"

lemma parseCount_Inr: "parseCount v label limit = Inr n \<Longrightarrow> 0 \<le> n \<and> n \<le> limit"
  by (auto simp: parseCount_def split: option.splits json.splits)

lemma parseUnsigned_Inr: "parseUnsigned v label = Inr n \<Longrightarrow> 0 \<le> n"
  by (auto simp: parseUnsigned_def split: option.splits json.splits)

lemma parse_spend_Inr:
  "parse_spend L v = Inr sp \<Longrightarrow> (sp_asset sp = NATIVE_ASSET \<and> sp_mintAccountIndex sp = None \<or> isPublicKey L (sp_asset sp)) \<and>
     0 \<le> sp_amountOffset sp \<and> sp_amountOffset sp \<le> 1024"
  by (auto simp: parse_spend_def bindR_Inr dest!: parseCount_Inr split: option.splits json.splits if_splits)

lemma parseProgramRule_Inr: "parseProgramRule L x = Inr r \<Longrightarrow> rule_wf L r"
  by (auto simp: parseProgramRule_def rule_wf_def bindR_Inr dest!: parse_spend_Inr split: option.splits json.splits if_splits)

definition limits_wf :: "SignPolicy \<Rightarrow> bool" where
  "limits_wf p \<longleftrightarrow>
     0 \<le> sg_maxInstructions p \<and> sg_maxInstructions p \<le> 64 \<and> 0 \<le> sg_maxAccountKeys p \<and> sg_maxAccountKeys p \<le> 256 \<and>
     0 \<le> sg_maxRequiredSignatures p \<and> sg_maxRequiredSignatures p \<le> 8 \<and>
     0 \<le> sg_maxComputeUnitLimit p \<and> sg_maxComputeUnitLimit p \<le> MAX_UNITS_PER_TRANSACTION \<and>
     0 \<le> sg_maxComputeUnitPriceMicroLamports p \<and> 0 \<le> sg_maxPriorityFeeLamports p \<and>
     (case sg_maxPriorityFeeBps p of None \<Rightarrow> True | Some b \<Rightarrow> 0 \<le> b \<and> b \<le> 10000)"

lemma parse_limits_Inr:
  "parse_limits x p = Inr q \<Longrightarrow> limits_wf q \<and> sg_programs q = sg_programs p \<and> sg_caps q = sg_caps p"
  unfolding parse_limits_def bindR_Inr
  by (auto simp: limits_wf_def bindR_Inr dest!: parseCount_Inr parseUnsigned_Inr split: option.splits)

lemma parse_cap_Inr: "parse_cap L kv = Inr c \<Longrightarrow> (case c of (_, cap) \<Rightarrow> 0 \<le> cap)"
  by (auto simp: parse_cap_def bindR_Inr dest: parseUnsigned_Inr split: prod.splits)

lemma starts_with_take: "starts_with s p \<longleftrightarrow> take (length p) s = p"
  by (induction s p rule: starts_with.induct) auto

lemma same_length_match:
  "rule_matches programId h r \<Longrightarrow> rule_matches programId h r' \<Longrightarrow> disc_len r = disc_len r' \<Longrightarrow> rule_key r = rule_key r'"
  by (metis disc_len_def rule_key_def rule_matches_def starts_with_take)

lemma loadSignPolicy_Inr:
  assumes "loadSignPolicy L sha content = Inr p"
  shows "\<exists>x programs caps q. mapR (parseProgramRule L) (array_of ''programs'' x) = Inr programs \<and>
     distinct (map rule_key programs) \<and>
     mapR (parse_cap L) (case prop_of ''caps'' x of Some (J_obj fs) \<Rightarrow> fs | _ \<Rightarrow> []) = Inr caps \<and>
     parse_limits x q = Inr p \<and> sg_programs q = programs \<and> sg_caps q = caps"
proof -
  obtain x where x: "content = Some x" using assms by (cases content) (simp_all add: loadSignPolicy_def)
  obtain programs where p: "mapR (parseProgramRule L) (array_of ''programs'' x) = Inr programs" "distinct (map rule_key programs)"
    using assms x by (auto simp: loadSignPolicy_def bindR_Inr)
  obtain caps where c: "mapR (parse_cap L) (case prop_of ''caps'' x of Some (J_obj fs) \<Rightarrow> fs | _ \<Rightarrow> []) = Inr caps"
    using assms x p by (simp add: loadSignPolicy_def bindR_Inr) blast
  have "\<exists>q. parse_limits x q = Inr p \<and> sg_programs q = programs \<and> sg_caps q = caps"
    using assms x p c by (simp add: loadSignPolicy_def) (intro exI conjI, rule conjunct2, rule conjunct2, assumption, simp_all)
  with p c show ?thesis by blast
qed

text \<open>
  C38: a policy the signer loads is well formed: program rules name public keys and short hexadecimal
  prefixes, a fee rule belongs to the compute budget program, an asset pinned to a mint is not
  native; caps and limits are within their ranges; and for any instruction two matching rules with
  equally long discriminators are the same rule, so that the most specific rule is unique.
\<close>

theorem loadSignPolicy_wf:
  "case loadSignPolicy L sha content of
     Inl _ \<Rightarrow> True
   | Inr p \<Rightarrow>
       list_all (rule_wf L) (sg_programs p) \<and> limits_wf p \<and> list_all (\<lambda>(_, cap). 0 \<le> cap) (sg_caps p) \<and>
       list_all (\<lambda>r. list_all (\<lambda>r'. if rule_matches programId h r \<and> rule_matches programId h r' \<and> disc_len r = disc_len r'
         then r = r' else True) (sg_programs p)) (sg_programs p)"
proof (cases "loadSignPolicy L sha content")
  case (Inr p)
  then obtain x q programs caps where progs: "mapR (parseProgramRule L) (array_of ''programs'' x) = Inr programs"
    "distinct (map rule_key programs)"
    and caps: "mapR (parse_cap L) (case prop_of ''caps'' x of Some (J_obj fs) \<Rightarrow> fs | _ \<Rightarrow> []) = Inr caps"
    and q: "parse_limits x q = Inr p" "sg_programs q = programs" "sg_caps q = caps"
    using loadSignPolicy_Inr [OF Inr] by blast
  have p: "limits_wf p" "sg_programs p = programs" "sg_caps p = caps" using parse_limits_Inr [OF q(1)] q(2,3) by simp_all
  have "list_all (rule_wf L) programs"
    using progs(1) by (rule mapR_list_all) (rule parseProgramRule_Inr)
  moreover have "list_all (\<lambda>(_, cap). 0 \<le> cap) caps"
    using caps by (rule mapR_list_all) (rule parse_cap_Inr)
  moreover have "r = r'" if "r \<in> set programs" "r' \<in> set programs" "rule_matches programId h r"
      "rule_matches programId h r'" "disc_len r = disc_len r'" for r r'
    using same_length_match [OF that(3,4,5)] progs(2) that(1,2) by (auto simp: distinct_map inj_on_def)
  ultimately show ?thesis using Inr p by (auto simp: list_all_iff)
qed simp

end
