(* ===== verification/SignerExample.thy ===== *)
theory SignerExample
  imports SignerAuth SignerPolicy
begin

text \<open>
  A concrete library, transaction, policy and envelope, at which the properties of the signer and
  the issuer are applied. The library knows one transaction; signed and unsigned it has one byte.
\<close>

definition ex_vtx :: "bytes \<Rightarrow> Vtx" where
  "ex_vtx sig = \<lparr> vt_version = ''0'', vt_staticAccountKeys = [''P''], vt_numRequiredSignatures = 1, vt_recentBlockhash = ''h'',
     vt_compiledInstructions = [\<lparr> ci_programIdIndex = 0, ci_accountKeyIndexes = [0], ci_data = [] \<rparr>],
     vt_addressTableLookups = [], vt_signatures = [sig] \<rparr>"

definition ex_lib :: SolanaLib where
  "ex_lib = \<lparr> sl_deserialize = (\<lambda>bs. if bs = [1] then Some (ex_vtx [0]) else if bs = [2] then Some (ex_vtx (replicate 64 1)) else None),
     sl_serialize = (\<lambda>v. if vt_signatures v = [[0]] then Some [1] else Some [2]), sl_message = (\<lambda>_. [7]),
     sl_bs58_encode = (\<lambda>_. ''sig''), sl_bs58_decode = (\<lambda>_. None), sl_sha256 = (\<lambda>_. []) \<rparr>"

definition ex_wire :: string where
  "ex_wire = b64_encode [1]"

definition ex_instruction :: DecodedInstruction where
  "ex_instruction = \<lparr> ix_programId = ''P'', ix_programIdIndex = 0, ix_accountIndexes = [0], ix_accounts = [Some ''P''],
     ix_data = [], ix_dataHex = [] \<rparr>"

definition ex_decoded :: DecodedTransaction where
  "ex_decoded = decoded_of ex_lib (ex_vtx [0]) [1] [ex_instruction]"

lemma ex_decodes: "decodeTransaction ex_lib ex_wire = Inr ex_decoded"
proof -
  have m: "decode_message ex_lib (ex_vtx [0]) [1] = Inr ex_decoded"
    by (simp add: decode_message_def decode_instruction_def decode_account_def total_keys_def ex_vtx_def ex_decoded_def
        ex_instruction_def js_safe_integer_def max_safe_integer_def hex_def)
  show ?thesis
    unfolding decodeTransaction_Inr
    by (rule exI [of _ "[1]"], rule exI [of _ "ex_vtx [0]"]) (use m in \<open>simp add: ex_wire_def ex_lib_def ex_vtx_def\<close>)
qed

definition ex_policy :: SignPolicy where
  "ex_policy = \<lparr> sg_version = 1, sg_hash = ''0x'', sg_cluster = ''test'', sg_feePayers = [''P''],
     sg_programs = [\<lparr> pr_programId = ''P'', pr_discriminator = [], pr_effect = Eff_none \<rparr>], sg_caps = [],
     sg_maxInstructions = 4, sg_maxAccountKeys = 4, sg_maxRequiredSignatures = 1, sg_maxComputeUnitLimit = 1400000,
     sg_maxComputeUnitPriceMicroLamports = 0, sg_maxPriorityFeeLamports = 0, sg_maxPriorityFeeBps = None,
     sg_addressLookupTables = [] \<rparr>"

lemma ex_policy_accepts: "\<not> isl (evaluatePolicy ex_decoded ex_policy ''P'')"
  by (simp add: evaluatePolicy_def check_shape_def ex_decoded_def decoded_of_def ex_vtx_def ex_policy_def ex_instruction_def
      evaluate_instruction_def matchRule_def check_fees_def unit_limit_def micro_lamports_def priority_fee_def
      check_caps_def js_safe_integer_def max_safe_integer_def DEFAULT_UNITS_PER_INSTRUCTION_def MAX_UNITS_PER_TRANSACTION_def)

definition ex_refs :: AuthorizationReferences where
  "ex_refs = \<lparr> ar_quoteHash = ''q'', ar_policyHash = ''0x'', ar_policyVersion = 1, ar_riskHash = ''r'', ar_reservationId = ''v'',
     ar_approvalId = ''a'', ar_audience = ''me'', ar_signerKeyId = None \<rparr>"

definition ex_claims :: AuthorizationClaims where
  "ex_claims = \<lparr> ac_refs = ex_refs, ac_protocol = AUTHORIZATION_PROTOCOL, ac_version = 1, ac_id = ''id'', ac_cluster = ''test'',
     ac_feePayer = ''P'', ac_transaction = ex_wire, ac_message = b64_encode [7], ac_messageHash = ''0x'',
     ac_recentBlockhash = ''h'', ac_lastValidBlockHeight = 50, ac_programIds = [''P''], ac_accountKeys = [''P''],
     ac_instructions = [\<lparr> ic_programId = ''P'', ic_accounts = [Some ''P''], ic_data = [] \<rparr>], ac_addressTableLookups = [],
     ac_simulationHash = ''s'', ac_issuedAt = 10, ac_expiresAt = 1000 \<rparr>"

definition ex_envelope :: AuthorizationEnvelope where
  "ex_envelope = \<lparr> ae_claims = ex_claims, ae_signature = ''ok'' \<rparr>"

definition ex_deps :: WireDeps where
  "ex_deps = \<lparr> wd_verify = (\<lambda>_ sig _. sig = ''ok''), wd_audience = ''me'', wd_cluster = Some ''test'', wd_signerKeyId = None,
     wd_authorizationKeyIds = None, wd_policyHash = None, wd_policyVersion = None, wd_maxTtlMs = None \<rparr>"

lemma ex_describes: "claims_describe ex_claims ex_decoded"
  by (simp add: claims_describe_def ex_claims_def ex_decoded_def decoded_of_def ex_vtx_def ex_lib_def ex_instruction_def
      ex_wire_def sha256Hex_def hex_def program_ids_def claim_of_instruction_def)

lemma ex_verifies: "wire_verify ex_deps ex_decoded ex_envelope 20 = Inr ()"
  using ex_describes
  by (simp add: wire_verify_def Let_def ex_envelope_def ex_deps_def transaction_mismatch_iff set_text_def max_ttl_def
      policy_mismatch_def js_safe_integer_def max_safe_integer_def) (simp add: ex_claims_def ex_refs_def)

end
