(* ===== verification/SignerService.thy ===== *)
theory SignerService
  imports SignerExample
begin

text \<open>
  \<open>src/src/signer/index.ts\<close>: the signer. Its state is the SQLite replay store and, for the
  properties, the list of every signature it ever made (the id and the message bytes handed to
  \<open>signMessage\<close>). The account's Ed25519 signature, the cluster's block height, the answers of the
  RPC node and \<open>JSON.parse\<close> of a frame are parameters.
\<close>

section \<open>State and configuration\<close>

record SignerCfg =
  sc_lib :: SolanaLib
  sc_publicKey :: string
  sc_signMessage :: "bytes \<Rightarrow> bytes"
  sc_policy :: SignPolicy
  sc_wire :: "WireDeps option"

record SignerState =
  sn_store :: SqlReplay
  sn_signed :: "(string \<times> bytes) list"

type_synonym 'a signer = "(SignerState, string, 'a) eff"

record StoredSignature =
  ss_transaction :: string
  ss_signature :: string
  ss_lastValidBlockHeight :: "int option"

record SignResult =
  sr_transaction :: string
  sr_signature :: string

definition store_op :: "(SqlReplay \<Rightarrow> bool \<times> SqlReplay) \<Rightarrow> bool signer" where
  "store_op f = (\<lambda>s. case f (sn_store s) of (b, t) \<Rightarrow> (Inr b, s\<lparr> sn_store := t \<rparr>))"

section \<open>Looking up a signature\<close>

definition text_prop :: "string \<Rightarrow> json \<Rightarrow> string option" where
  "text_prop k v = (case prop_of k v of Some (J_str s) \<Rightarrow> Some s | _ \<Rightarrow> None)"

definition num_prop :: "string \<Rightarrow> json \<Rightarrow> int option" where
  "num_prop k v = (case prop_of k v of Some (J_num n) \<Rightarrow> Some n | _ \<Rightarrow> None)"

definition set_prop :: "string \<Rightarrow> json \<Rightarrow> string option" where
  "set_prop k v = set_text (text_prop k v)"

definition stored :: "string \<Rightarrow> string \<Rightarrow> SqlReplay \<Rightarrow> string + StoredSignature option" where
  "stored i requestHash st =
     throwIf (requestHash = []) ''request_hash_invalid''
     (case sql_get i st of
        None \<Rightarrow> Inr None
      | Some row \<Rightarrow>
          throwIf (rr_state row = Ex_expired) ''authorization_expired''
          (case rr_data row of
             None \<Rightarrow> Inr None
           | Some data \<Rightarrow>
               (if \<not> is_object data then Inr None
                else throwIf (map_option js_lower (text_prop ''requestHash'' data) \<noteq> Some (js_lower requestHash))
                       ''authorization_request_mismatch''
                 (case set_prop ''transaction'' data of
                    None \<Rightarrow> Inl ''authorization_in_progress''
                  | Some tx \<Rightarrow>
                      throwIf (rr_state row \<noteq> Ex_signed) ''authorization_in_progress''
                      (Inr (Some \<lparr> ss_transaction = tx,
                         ss_signature = (case text_prop ''signature'' data of None \<Rightarrow> [] | Some x \<Rightarrow> x),
                         ss_lastValidBlockHeight = num_prop ''lastValidBlockHeight'' data \<rparr>))))))"

section \<open>Signing\<close>

text \<open>\<open>height\<close> is \<open>None\<close> without a source of block heights, else what it answers.\<close>

definition fenceBlockhash :: "string \<Rightarrow> int option \<Rightarrow> (string + int) option \<Rightarrow> int \<Rightarrow> unit signer" where
  "fenceBlockhash i lastValid height now =
     (case (lastValid, height) of
        (Some lv, Some answer) \<Rightarrow>
          bindE (liftE answer) (\<lambda>h.
          seqE (guardE (\<not> js_safe_integer h \<or> h < 0) ''block_height_invalid'')
          (if h \<le> lv then returnE ()
           else seqE (store_op (sql_transition i Ex_claimed Ex_expired
                  (Some (J_obj [(''lastValidBlockHeight'', J_num lv), (''blockHeight'', J_num h)])) now))
                (throwE ''blockhash_expired'')))
      | _ \<Rightarrow> returnE ())"

definition signed_data :: "DecodedTransaction \<Rightarrow> string \<times> string \<Rightarrow> int option \<Rightarrow> json" where
  "signed_data d res lastValid = J_obj
     ([(''requestHash'', J_str (dt_messageHash d)), (''transaction'', J_str (fst res)), (''signature'', J_str (snd res))] @
      (case lastValid of None \<Rightarrow> [] | Some n \<Rightarrow> [(''lastValidBlockHeight'', J_num n)]))"

definition signMessage :: "SignerCfg \<Rightarrow> string \<Rightarrow> DecodedTransaction \<Rightarrow> bytes signer" where
  "signMessage cfg i d =
     (\<lambda>s. (Inr (sc_signMessage cfg (dt_messageBytes d)), s\<lparr> sn_signed := sn_signed s @ [(i, dt_messageBytes d)] \<rparr>))"

definition signClaimed :: "SignerCfg \<Rightarrow> string \<Rightarrow> DecodedTransaction \<Rightarrow> int option \<Rightarrow> int \<Rightarrow> SignResult signer" where
  "signClaimed cfg i d lastValid now =
     catchE
       (bindE (signMessage cfg i d) (\<lambda>sig.
        bindE (liftE (attachSignature (sc_lib cfg) d sig)) (\<lambda>res.
        bindE (store_op (sql_transition i Ex_claimed Ex_signed (Some (signed_data d res lastValid)) now)) (\<lambda>ok.
        seqE (guardE (\<not> ok) ''replay_fencing_lost'')
        (returnE \<lparr> sr_transaction = fst res, sr_signature = snd res \<rparr>)))))
       (\<lambda>e. seqE (store_op (sql_transition i Ex_claimed Ex_failed None now)) (throwE e))"

definition finish_signing :: "SignerCfg \<Rightarrow> string \<Rightarrow> DecodedTransaction \<Rightarrow> int option \<Rightarrow> (string + int) option \<Rightarrow> int \<Rightarrow> SignResult signer" where
  "finish_signing cfg i d lastValid height now =
     seqE (fenceBlockhash i lastValid height now) (signClaimed cfg i d lastValid now)"

definition prior_result :: "StoredSignature \<Rightarrow> SignResult" where
  "prior_result p = \<lparr> sr_transaction = ss_transaction p, sr_signature = ss_signature p \<rparr>"

text \<open>
  Both ways of signing run up to the claim of the id in one piece (\<open>begin_\<close>): they answer a prior
  signature, or the decoded transaction whose id is now claimed.
\<close>

definition begin_sign :: "SignerCfg \<Rightarrow> string \<Rightarrow> string \<Rightarrow> string \<Rightarrow> int \<Rightarrow> (SignResult + DecodedTransaction) signer" where
  "begin_sign cfg i wire claimedFeePayer now =
     bindE (liftE (decodeTransaction (sc_lib cfg) wire)) (\<lambda>d.
     bindE (liftE (evaluatePolicy d (sc_policy cfg) (sc_publicKey cfg))) (\<lambda>_.
     seqE (guardE (dt_feePayer d \<noteq> claimedFeePayer) ''policy_fee_payer'')
     (bindE (\<lambda>s. (stored i (dt_messageHash d) (sn_store s), s)) (\<lambda>prior.
      case prior of
        Some p \<Rightarrow> returnE (Inl (prior_result p))
      | None \<Rightarrow>
          bindE (store_op (sql_consume i (now + 60000) now)) (\<lambda>won.
          seqE (guardE (\<not> won) ''envelope_replayed'') (returnE (Inr d)))))))"

definition sign :: "SignerCfg \<Rightarrow> string \<Rightarrow> string \<Rightarrow> string \<Rightarrow> int option \<Rightarrow> (string + int) option \<Rightarrow> int \<Rightarrow> SignResult signer" where
  "sign cfg i wire claimedFeePayer lastValid height now =
     bindE (begin_sign cfg i wire claimedFeePayer now) (\<lambda>r.
     case r of Inl res \<Rightarrow> returnE res | Inr d \<Rightarrow> finish_signing cfg i d lastValid height now)"

definition begin_envelope :: "SignerCfg \<Rightarrow> string \<Rightarrow> AuthorizationEnvelope \<Rightarrow> int \<Rightarrow> (SignResult + DecodedTransaction) signer" where
  "begin_envelope cfg wire env now =
     (case sc_wire cfg of
        None \<Rightarrow> throwE ''wire_verifier_required''
      | Some w \<Rightarrow>
          bindE (liftE (decodeTransaction (sc_lib cfg) wire)) (\<lambda>d.
          (let i = ac_id (ae_claims env) in
           seqE (guardE (i = []) ''envelope_invalid'')
           (bindE (\<lambda>s. (stored i (dt_messageHash d) (sn_store s), s)) (\<lambda>prior.
            seqE (liftE (wire_verify w d env now))
            (bindE (liftE (evaluatePolicy d (sc_policy cfg) (sc_publicKey cfg))) (\<lambda>_.
             case prior of
               Some p \<Rightarrow> returnE (Inl (prior_result p))
             | None \<Rightarrow>
                 bindE (store_op (sql_consume i (ac_expiresAt (ae_claims env)) now)) (\<lambda>won.
                 seqE (guardE (\<not> won) ''envelope_replayed'') (returnE (Inr d)))))))))) "

definition signEnvelope :: "SignerCfg \<Rightarrow> string \<Rightarrow> AuthorizationEnvelope \<Rightarrow> (string + int) option \<Rightarrow> int \<Rightarrow> SignResult signer" where
  "signEnvelope cfg wire env height now =
     bindE (begin_envelope cfg wire env now) (\<lambda>r.
     case r of
       Inl res \<Rightarrow> returnE res
     | Inr d \<Rightarrow> finish_signing cfg (ac_id (ae_claims env)) d (Some (ac_lastValidBlockHeight (ae_claims env))) height now)"

section \<open>The result of an authorization\<close>

datatype SignerAnswer = SA_expired | SA_not_found | SA_signed string "string option"

definition signer_result :: "string \<Rightarrow> string \<Rightarrow> bool \<Rightarrow> int \<Rightarrow> SignerAnswer signer" where
  "signer_result i requestHash recoverRaw now s =
     (if sql_state (sn_store s) i = Some Ex_expired then (Inr SA_expired, s)
      else case stored i requestHash (sn_store s) of
        Inl e \<Rightarrow> (Inl e, s)
      | Inr None \<Rightarrow> (Inr SA_not_found, s)
      | Inr (Some p) \<Rightarrow>
          if \<not> recoverRaw then (Inr (SA_signed (ss_signature p) None), s)
          else (case recoverSigned i now (sn_store s) of (claimed, t) \<Rightarrow>
            (case claimed of
               None \<Rightarrow> Inr (SA_signed (ss_signature p) None)
             | Some None \<Rightarrow> Inl ''signed_result_invalid''
             | Some (Some data) \<Rightarrow>
                 (case set_prop ''transaction'' data of
                    None \<Rightarrow> Inl ''signed_result_invalid''
                  | Some tx \<Rightarrow> Inr (SA_signed (ss_signature p) (Some tx))), s\<lparr> sn_store := t \<rparr>)))"

section \<open>Broadcast and reconciliation\<close>

definition opt_field :: "string \<Rightarrow> json option \<Rightarrow> (string \<times> json) list" where
  "opt_field k v = (case v of None \<Rightarrow> [] | Some x \<Rightarrow> [(k, x)])"

text \<open>\<open>rpc\<close> is the answer of \<open>sendTransaction\<close>, or the error it throws.\<close>

definition broadcastSigned :: "SolanaLib \<Rightarrow> string \<Rightarrow> string \<Rightarrow> string + json \<Rightarrow> int \<Rightarrow> string signer" where
  "broadcastSigned L i wire rpc now =
     bindE (liftE (signatureOf L wire)) (\<lambda>expected.
     bindE (getE (\<lambda>s. case sql_get i (sn_store s) of None \<Rightarrow> None
         | Some row \<Rightarrow> (case rr_data row of None \<Rightarrow> None | Some v \<Rightarrow> prop_of ''lastValidBlockHeight'' v))) (\<lambda>lastValid.
     bindE (liftE rpc) (\<lambda>returned.
     (if returned \<noteq> J_str expected
      then seqE (store_op (sql_transition i Ex_signed Ex_reconciliation
             (Some (J_obj ([(''expected'', J_str expected), (''returned'', returned)] @ opt_field ''lastValidBlockHeight'' lastValid))) now))
           (throwE ''broadcast_signature_mismatch'')
      else bindE (store_op (sql_transition i Ex_signed Ex_broadcast
             (Some (J_obj ([(''signature'', returned), (''transaction'', J_str wire)] @ opt_field ''lastValidBlockHeight'' lastValid))) now)) (\<lambda>ok.
           seqE (guardE (\<not> ok) ''broadcast_state_invalid'') (returnE expected))))))"

definition js_truthy :: "json \<Rightarrow> bool" where
  "js_truthy v \<longleftrightarrow> (case v of J_null \<Rightarrow> False | J_bool b \<Rightarrow> b | J_num n \<Rightarrow> n \<noteq> 0 | J_str s \<Rightarrow> s \<noteq> [] | _ \<Rightarrow> True)"

text \<open>\<open>response?.value?.[0] ?? null\<close>.\<close>

definition first_status :: "json \<Rightarrow> json" where
  "first_status response =
     (case prop_of ''value'' response of
        Some (J_arr (v # _)) \<Rightarrow> v
      | Some (J_obj fs) \<Rightarrow> (case map_of fs ''0'' of None \<Rightarrow> J_null | Some v \<Rightarrow> v)
      | _ \<Rightarrow> J_null)"

definition settled_state :: "ExecutionState \<Rightarrow> json \<Rightarrow> ExecutionState option" where
  "settled_state st status =
     (if (case prop_of ''err'' status of None \<Rightarrow> False | Some e \<Rightarrow> js_truthy e) then Some Ex_reverted
      else if prop_of ''confirmationStatus'' status \<in> {Some (J_str ''finalized''), Some (J_str ''confirmed'')} then Some Ex_confirmed
      else if st = Ex_reconciliation then Some Ex_broadcast
      else None)"

record Rpc =
  rpc_status :: "string \<Rightarrow> string + json"
  rpc_height :: "string \<Rightarrow> string + json"

definition row_signature :: "json \<Rightarrow> string option" where
  "row_signature data = (case (case prop_of ''signature'' data of Some v \<Rightarrow> if v = J_null then prop_of ''expected'' data else Some v
       | None \<Rightarrow> prop_of ''expected'' data) of Some (J_str s) \<Rightarrow> set_text (Some s) | _ \<Rightarrow> None)"

text \<open>One row; each call of the RPC node is keyed by the row's id, so a row's answers are arbitrary.\<close>

definition reconcile_row :: "Rpc \<Rightarrow> int \<Rightarrow> ReplayRow \<Rightarrow> unit signer" where
  "reconcile_row rpc now row =
     (let data = (case rr_data row of None \<Rightarrow> J_obj [] | Some v \<Rightarrow> v) in
      case row_signature data of
        None \<Rightarrow> returnE ()
      | Some sig \<Rightarrow>
          bindE (liftE (rpc_status rpc (rr_id row))) (\<lambda>response.
          (let status = first_status response in
           if js_truthy status
           then (case settled_state (rr_state row) status of
                   None \<Rightarrow> returnE ()
                 | Some dst \<Rightarrow>
                     seqE (store_op (sql_transition (rr_id row) (rr_state row) dst
                       (Some (J_obj ([(''signature'', J_str sig), (''status'', status)] @
                          (case prop_of ''transaction'' data of Some v \<Rightarrow> if js_truthy v then [(''transaction'', v)] else [] | None \<Rightarrow> []) @
                          opt_field ''lastValidBlockHeight'' (prop_of ''lastValidBlockHeight'' data)))) now))
                     (returnE ()))
           else (case num_prop ''lastValidBlockHeight'' data of
                   None \<Rightarrow> returnE ()
                 | Some lv \<Rightarrow>
                     if \<not> js_safe_integer lv then returnE ()
                     else bindE (liftE (rpc_height rpc (rr_id row))) (\<lambda>answer.
                       (case answer of
                          J_num h \<Rightarrow>
                            if js_safe_integer h \<and> h > lv
                            then seqE (store_op (sql_transition (rr_id row) (rr_state row) Ex_dropped
                                   (Some (J_obj [(''signature'', J_str sig), (''lastValidBlockHeight'', J_num lv),
                                      (''blockHeight'', J_num h)])) now)) (returnE ())
                            else returnE ()
                        | _ \<Rightarrow> returnE ()))))))"

definition reconcileTransactions :: "Rpc \<Rightarrow> int \<Rightarrow> unit signer" where
  "reconcileTransactions rpc now =
     bindE (getE (\<lambda>s. sql_list [Ex_broadcast, Ex_reconciliation] (sn_store s))) (\<lambda>rows. forE rows (reconcile_row rpc now))"

section \<open>The lifecycle of an id\<close>

inductive exec_edge :: "ExecutionState option \<Rightarrow> ExecutionState option \<Rightarrow> bool" where
  claim: "exec_edge None (Some Ex_claimed)"
| burn: "exec_edge (Some Ex_claimed) (Some Ex_expired)"
| sign: "exec_edge (Some Ex_claimed) (Some Ex_signed)"
| fail: "exec_edge (Some Ex_claimed) (Some Ex_failed)"
| send: "exec_edge (Some Ex_signed) (Some Ex_broadcast)"
| unsure: "exec_edge (Some Ex_signed) (Some Ex_reconciliation)"
| found: "exec_edge (Some Ex_reconciliation) (Some Ex_broadcast)"
| confirm: "st = Ex_broadcast \<or> st = Ex_reconciliation \<Longrightarrow> exec_edge (Some st) (Some Ex_confirmed)"
| revert: "st = Ex_broadcast \<or> st = Ex_reconciliation \<Longrightarrow> exec_edge (Some st) (Some Ex_reverted)"
| drop: "st = Ex_broadcast \<or> st = Ex_reconciliation \<Longrightarrow> exec_edge (Some st) (Some Ex_dropped)"

inductive_cases exec_edgeE: "exec_edge (Some st) x"

definition terminal :: "ExecutionState \<Rightarrow> bool" where
  "terminal st \<longleftrightarrow> st \<in> {Ex_expired, Ex_confirmed, Ex_reverted, Ex_dropped, Ex_failed}"

lemma terminal_stays: "exec_edge\<^sup>*\<^sup>* a b \<Longrightarrow> a = Some st \<Longrightarrow> terminal st \<Longrightarrow> b = Some st"
  by (induction rule: converse_rtranclp_induct) (auto simp: terminal_def elim: exec_edgeE)

lemma known_stays: "exec_edge\<^sup>*\<^sup>* a b \<Longrightarrow> a \<noteq> None \<Longrightarrow> b \<noteq> None"
  by (induction rule: rtranclp_induct) (auto elim: exec_edge.cases)

definition recovered :: "SqlReplay \<Rightarrow> string \<Rightarrow> bool" where
  "recovered s i \<longleftrightarrow> (case sql_get i s of None \<Rightarrow> False | Some r \<Rightarrow> rr_recovered r \<noteq> 0)"

text \<open>How a store may evolve: every id along the edges, and a recovery is never forgotten.\<close>

definition store_le :: "SqlReplay \<Rightarrow> SqlReplay \<Rightarrow> bool" where
  "store_le s t \<longleftrightarrow> (\<forall>i. exec_edge\<^sup>*\<^sup>* (sql_state s i) (sql_state t i) \<and> (recovered s i \<longrightarrow> recovered t i))"

lemma store_le_refl [simp]: "store_le s s"
  by (simp add: store_le_def)

lemma store_le_trans: "store_le s t \<Longrightarrow> store_le t u \<Longrightarrow> store_le s u"
  unfolding store_le_def by (meson rtranclp_trans)

lemma store_le_consume: "store_le s (snd (sql_consume i x n s))"
proof -
  have "recovered s j \<Longrightarrow> recovered (snd (sql_consume i x n s)) j" for j
    by (auto simp: recovered_def sql_consume_def sql_get_append split: option.splits)
  then show ?thesis
    using sqlite.consume_new [of i x n s] by (auto simp: store_le_def sqlite.consume_state intro: exec_edge.claim)
qed

lemma store_le_transition:
  assumes "exec_edge (Some src) (Some dst)"
  shows "store_le s (snd (sql_transition i src dst d n s))"
proof -
  have "recovered s j \<Longrightarrow> recovered (snd (sql_transition i src dst d n s)) j" for j
    by (auto simp: recovered_def sql_transition_def sql_get_update split: option.splits)
  then show ?thesis using assms by (auto simp: store_le_def sqlite.transition_state)
qed

lemma recover_state [simp]: "sql_state (snd (recoverSigned i n s)) j = sql_state s j"
  by (cases "sql_get j s") (auto simp: recoverSigned_def sql_state_def sql_get_update split: option.splits)

lemma store_le_recover: "store_le s (snd (recoverSigned i n s))"
  by (auto simp: store_le_def) (auto simp: recovered_def recoverSigned_def sql_get_update split: option.splits)

section \<open>What each operation does to the state\<close>

lemma wp_store_op [wp_simps]:
  "wp (store_op f) Q E s = Q (fst (f (sn_store s))) (s\<lparr> sn_store := snd (f (sn_store s)) \<rparr>)"
  by (simp add: wp_def store_op_def split: prod.split)

lemma wp_read [wp_simps]: "wp (\<lambda>s. (f s, s)) Q E s = (case f s of Inl e \<Rightarrow> E e s | Inr x \<Rightarrow> Q x s)"
  by (simp add: wp_def)

lemma wp_signMessage [wp_simps]:
  "wp (signMessage cfg i d) Q E s =
     Q (sc_signMessage cfg (dt_messageBytes d)) (s\<lparr> sn_signed := sn_signed s @ [(i, dt_messageBytes d)] \<rparr>)"
  by (simp add: wp_def signMessage_def)

definition grows :: "SignerState \<Rightarrow> SignerState \<Rightarrow> bool" where
  "grows s t \<longleftrightarrow> store_le (sn_store s) (sn_store t)"

lemma grows_refl [simp]: "grows s s"
  by (simp add: grows_def)

lemma grows_trans: "grows s t \<Longrightarrow> grows t u \<Longrightarrow> grows s u"
  unfolding grows_def by (rule store_le_trans)

lemma grows_signed [simp]: "grows s (t\<lparr> sn_signed := l \<rparr>) = grows s t" "grows (t\<lparr> sn_signed := l \<rparr>) s = grows t s"
  by (simp_all add: grows_def)

lemma grows_transition:
  "exec_edge (Some src) (Some dst) \<Longrightarrow> grows s (s\<lparr> sn_store := snd (sql_transition i src dst d n (sn_store s)) \<rparr>)"
  by (simp add: grows_def store_le_transition)

lemma grows_consume: "grows s (s\<lparr> sn_store := snd (sql_consume i x n (sn_store s)) \<rparr>)"
  by (simp add: grows_def store_le_consume)

lemma grows_recover: "grows s (s\<lparr> sn_store := snd (recoverSigned i n (sn_store s)) \<rparr>)"
  by (simp add: grows_def store_le_recover)

lemmas grows_intros = grows_transition grows_consume grows_recover exec_edge.intros

lemma fence_grows:
  "wp (fenceBlockhash i lv h n) (\<lambda>_ t. t = s) (\<lambda>_ t. grows s t \<and> sn_signed t = sn_signed s) s"
  by (auto simp: fenceBlockhash_def wp_simps intro!: grows_intros split: option.splits sum.splits)

lemma signClaimed_grows:
  "wp (signClaimed cfg i d lv n)
     (\<lambda>_ t. grows s t \<and> sn_signed t = sn_signed s @ [(i, dt_messageBytes d)])
     (\<lambda>_ t. grows s t \<and> sn_signed t = sn_signed s @ [(i, dt_messageBytes d)]) s"
proof -
  have failed: "store_le u (snd (sql_transition i Ex_claimed Ex_failed None n u))" for u
    by (rule store_le_transition) (rule exec_edge.fail)
  have signed: "store_le u (snd (sql_transition i Ex_claimed Ex_signed data n u))" for u data
    by (rule store_le_transition) (rule exec_edge.sign)
  have both: "store_le u (snd (sql_transition i Ex_claimed Ex_failed None n (snd (sql_transition i Ex_claimed Ex_signed data n u))))"
    for u data using signed failed by (rule store_le_trans)
  show ?thesis by (simp add: signClaimed_def wp_simps grows_def failed signed both split: sum.split)
qed

lemma finish_grows:
  "wp (finish_signing cfg i d lv h n)
     (\<lambda>_ t. grows s t \<and> sn_signed t = sn_signed s @ [(i, dt_messageBytes d)])
     (\<lambda>_ t. grows s t \<and> (sn_signed t = sn_signed s \<or> sn_signed t = sn_signed s @ [(i, dt_messageBytes d)])) s"
  unfolding finish_signing_def
  by (rule wp_seqI, rule wp_mono [OF fence_grows]) (auto intro: wp_mono [OF signClaimed_grows])

lemma begin_sign_spec:
  "wp (begin_sign cfg i wire payer n)
     (\<lambda>r t. grows s t \<and> sn_signed t = sn_signed s \<and>
        (case r of Inl _ \<Rightarrow> True | Inr d \<Rightarrow> sql_state (sn_store s) i = None \<and> sql_state (sn_store t) i \<noteq> None \<and>
           decodeTransaction (sc_lib cfg) wire = Inr d \<and> \<not> isl (evaluatePolicy d (sc_policy cfg) (sc_publicKey cfg))))
     (\<lambda>_ t. grows s t \<and> sn_signed t = sn_signed s) s"
  unfolding begin_sign_def
  by (auto simp: wp_simps sqlite.consume_state intro!: grows_intros dest: sqlite.consume_new split: sum.splits option.splits)

lemma begin_envelope_spec:
  "wp (begin_envelope cfg wire env n)
     (\<lambda>r t. grows s t \<and> sn_signed t = sn_signed s \<and>
        (case r of Inl _ \<Rightarrow> True | Inr d \<Rightarrow> sql_state (sn_store s) (ac_id (ae_claims env)) = None \<and>
           sql_state (sn_store t) (ac_id (ae_claims env)) \<noteq> None \<and>
           decodeTransaction (sc_lib cfg) wire = Inr d \<and> \<not> isl (evaluatePolicy d (sc_policy cfg) (sc_publicKey cfg))))
     (\<lambda>_ t. grows s t \<and> sn_signed t = sn_signed s) s"
  unfolding begin_envelope_def
  by (auto simp: wp_simps Let_def sqlite.consume_state intro!: grows_intros dest: sqlite.consume_new
      split: sum.splits option.splits)

lemma signer_result_grows:
  "grows s (snd (signer_result i h rec n s)) \<and> sn_signed (snd (signer_result i h rec n s)) = sn_signed s"
proof -
  obtain c t where c: "recoverSigned i n (sn_store s) = (c, t)" by fastforce
  then have "store_le (sn_store s) t" using store_le_recover [of "sn_store s" i n] by simp
  then show ?thesis by (simp add: signer_result_def c grows_def split: sum.split option.split)
qed

lemma broadcast_grows:
  "wp (broadcastSigned L i wire rpc n) (\<lambda>_ t. grows s t \<and> sn_signed t = sn_signed s)
     (\<lambda>_ t. grows s t \<and> sn_signed t = sn_signed s) s"
  by (auto simp: broadcastSigned_def wp_simps intro!: grows_intros split: sum.split)

definition pending_state :: "ExecutionState \<Rightarrow> bool" where
  "pending_state st \<longleftrightarrow> st = Ex_broadcast \<or> st = Ex_reconciliation"

lemma settled_edge: "pending_state st \<Longrightarrow> settled_state st status = Some dst \<Longrightarrow> exec_edge (Some st) (Some dst)"
  by (auto simp: settled_state_def pending_state_def intro: exec_edge.intros split: if_splits)

lemma reconcile_row_grows:
  assumes "pending_state (rr_state row)"
  shows "wp (reconcile_row rpc n row) (\<lambda>_ t. grows s t \<and> sn_signed t = sn_signed s)
     (\<lambda>_ t. grows s t \<and> sn_signed t = sn_signed s) s"
proof -
  have drop: "exec_edge (Some (rr_state row)) (Some Ex_dropped)"
    using assms by (auto simp: pending_state_def intro: exec_edge.intros)
  have settle: "grows s (s\<lparr> sn_store := snd (sql_transition (rr_id row) (rr_state row) dst data n (sn_store s)) \<rparr>)"
    if "settled_state (rr_state row) status = Some dst" for status dst data
    using settled_edge [OF assms that] by (rule grows_transition)
  show ?thesis
    unfolding reconcile_row_def Let_def
    by (cases "row_signature (case rr_data row of None \<Rightarrow> J_obj [] | Some v \<Rightarrow> v)")
      (auto simp: wp_simps settle grows_transition [OF drop] split: sum.split option.split json.split)
qed

lemma reconcile_grows:
  "wp (reconcileTransactions rpc n) (\<lambda>_ t. grows s t \<and> sn_signed t = sn_signed s)
     (\<lambda>_ t. grows s t \<and> sn_signed t = sn_signed s) s"
  unfolding reconcileTransactions_def
proof (simp add: wp_simps, rule wp_forE)
  fix row t
  assume "row \<in> set (sql_list [Ex_broadcast, Ex_reconciliation] (sn_store s))" and t: "grows s t \<and> sn_signed t = sn_signed s"
  then have "pending_state (rr_state row)" by (auto simp: sql_list_def pending_state_def)
  then have "wp (reconcile_row rpc n row) (\<lambda>_ u. grows t u \<and> sn_signed u = sn_signed t) (\<lambda>_ u. grows t u \<and> sn_signed u = sn_signed t) t"
    by (rule reconcile_row_grows)
  then show "wp (reconcile_row rpc n row) (\<lambda>_ u. grows s u \<and> sn_signed u = sn_signed s) (\<lambda>_ u. grows s u \<and> sn_signed u = sn_signed s) t"
    by (rule wp_mono) (use t in \<open>auto intro: grows_trans\<close>)
qed simp

section \<open>Concurrent calls\<close>

text \<open>
  Calls of one daemon interleave at their awaits. A call that has claimed its id and not yet signed
  is a ticket; the fence and the signature of a ticket run later, in any order, and a crash loses
  all tickets. Between a claim and the end of its ticket no other call can move the id.
\<close>

record Ticket =
  tk_id :: string
  tk_tx :: DecodedTransaction
  tk_lastValid :: "int option"

record SignerWorld =
  wl_state :: SignerState
  wl_tickets :: "Ticket list"

datatype SignerOp =
    SO_sign string string string "int option" int
  | SO_envelope string AuthorizationEnvelope int
  | SO_finish nat "(string + int) option" int
  | SO_result string string bool int
  | SO_broadcast string string "string + json" int
  | SO_reconcile Rpc int
  | SO_crash

definition add_ticket :: "string \<Rightarrow> int option \<Rightarrow> (string + (SignResult + DecodedTransaction)) \<times> SignerState \<Rightarrow> SignerWorld \<Rightarrow> SignerWorld" where
  "add_ticket i lastValid out w =
     (case out of (r, s) \<Rightarrow> w\<lparr> wl_state := s, wl_tickets := wl_tickets w @
        (case r of Inr (Inr d) \<Rightarrow> [\<lparr> tk_id = i, tk_tx = d, tk_lastValid = lastValid \<rparr>] | _ \<Rightarrow> []) \<rparr>)"

fun signer_op :: "SignerCfg \<Rightarrow> SignerOp \<Rightarrow> SignerWorld \<Rightarrow> SignerWorld" where
  "signer_op cfg (SO_sign i wire payer lastValid n) w =
     add_ticket i lastValid (begin_sign cfg i wire payer n (wl_state w)) w"
| "signer_op cfg (SO_envelope wire env n) w =
     add_ticket (ac_id (ae_claims env)) (Some (ac_lastValidBlockHeight (ae_claims env)))
       (begin_envelope cfg wire env n (wl_state w)) w"
| "signer_op cfg (SO_finish k h n) w =
     (if k < length (wl_tickets w)
      then (let t = wl_tickets w ! k in
            w\<lparr> wl_state := snd (finish_signing cfg (tk_id t) (tk_tx t) (tk_lastValid t) h n (wl_state w)),
               wl_tickets := take k (wl_tickets w) @ drop (Suc k) (wl_tickets w) \<rparr>)
      else w)"
| "signer_op cfg (SO_result i h rec n) w = w\<lparr> wl_state := snd (signer_result i h rec n (wl_state w)) \<rparr>"
| "signer_op cfg (SO_broadcast i wire rpc n) w =
     w\<lparr> wl_state := snd (broadcastSigned (sc_lib cfg) i wire rpc n (wl_state w)) \<rparr>"
| "signer_op cfg (SO_reconcile rpc n) w = w\<lparr> wl_state := snd (reconcileTransactions rpc n (wl_state w)) \<rparr>"
| "signer_op cfg SO_crash w = w\<lparr> wl_tickets := [] \<rparr>"

definition run_signer :: "SignerCfg \<Rightarrow> SignerOp list \<Rightarrow> SignerWorld \<Rightarrow> SignerWorld" where
  "run_signer cfg ops w = fold (signer_op cfg) ops w"

definition empty_world :: SignerWorld where
  "empty_world = \<lparr> wl_state = \<lparr> sn_store = [], sn_signed = [] \<rparr>, wl_tickets = [] \<rparr>"

lemma wp_snd: "wp m (\<lambda>_ t. Q t) (\<lambda>_ t. Q t) s \<Longrightarrow> Q (snd (m s))"
  by (auto simp: wp_def split: prod.splits sum.splits)

lemma begin_spec_snd:
  assumes "wp m (\<lambda>r t. P t \<and> Q r t) (\<lambda>_ t. P t) s"
  shows "P (snd (m s))" and "fst (m s) = Inr r \<Longrightarrow> Q r (snd (m s))"
  using assms by (auto simp: wp_def split: prod.splits sum.splits)

lemma signer_op_grows: "grows (wl_state w) (wl_state (signer_op cfg x w))"
proof (cases "(cfg, x, w)" rule: signer_op.cases)
  case (1 cfg i wire payer lv n w)
  then show ?thesis
    using begin_sign_spec [of cfg i wire payer n "wl_state w"]
    by (auto simp: add_ticket_def wp_def split: prod.splits sum.splits)
next
  case (2 cfg wire env n w)
  then show ?thesis
    using begin_envelope_spec [of cfg wire env n "wl_state w"]
    by (auto simp: add_ticket_def wp_def split: prod.splits sum.splits)
next
  case (3 cfg k h n w)
  have "grows s (snd (finish_signing cfg i d lv h n s))" for i d lv s
    using finish_grows [of cfg i d lv h n s] by (auto simp: wp_def split: prod.splits sum.splits)
  then show ?thesis using 3 by (simp add: Let_def)
next
  case (4 cfg i h rec n w)
  then show ?thesis by (simp add: signer_result_grows)
next
  case (5 cfg i wire rpc n w)
  then show ?thesis using wp_snd [OF broadcast_grows] by simp
next
  case (6 cfg rpc n w)
  then show ?thesis using wp_snd [OF reconcile_grows] by simp
next
  case (7 cfg w)
  then show ?thesis by simp
qed

lemma run_signer_grows: "grows (wl_state w) (wl_state (run_signer cfg ops w))"
  unfolding run_signer_def
  by (induction ops arbitrary: w) (auto intro: grows_trans [OF signer_op_grows])

section \<open>One signature per authorization\<close>

definition checked :: "SignerCfg \<Rightarrow> DecodedTransaction \<Rightarrow> bool" where
  "checked cfg d \<longleftrightarrow> (\<exists>wire. decodeTransaction (sc_lib cfg) wire = Inr d) \<and>
     \<not> isl (evaluatePolicy d (sc_policy cfg) (sc_publicKey cfg))"

definition world_ids :: "SignerWorld \<Rightarrow> string list" where
  "world_ids w = map tk_id (wl_tickets w) @ map fst (sn_signed (wl_state w))"

definition world_ok :: "SignerCfg \<Rightarrow> SignerWorld \<Rightarrow> bool" where
  "world_ok cfg w \<longleftrightarrow>
     distinct (world_ids w) \<and> (\<forall>i \<in> set (world_ids w). sql_state (sn_store (wl_state w)) i \<noteq> None) \<and>
     (\<forall>t \<in> set (wl_tickets w). checked cfg (tk_tx t)) \<and>
     (\<forall>x \<in> set (sn_signed (wl_state w)). \<exists>d. checked cfg d \<and> dt_messageBytes d = snd x)"

lemma grows_known: "grows s t \<Longrightarrow> sql_state (sn_store s) i \<noteq> None \<Longrightarrow> sql_state (sn_store t) i \<noteq> None"
  unfolding grows_def store_le_def using known_stays by blast

lemma world_ok_same:
  assumes "world_ok cfg w" and "grows (wl_state w) (wl_state v)" and "wl_tickets v = wl_tickets w"
    and "sn_signed (wl_state v) = sn_signed (wl_state w)"
  shows "world_ok cfg v"
  using assms(1,3,4) grows_known [OF assms(2)] by (simp add: world_ok_def world_ids_def)

lemma world_ok_ticket:
  assumes ok: "world_ok cfg w"
    and spec: "wp m (\<lambda>r t. grows (wl_state w) t \<and> sn_signed t = sn_signed (wl_state w) \<and>
        (case r of Inl _ \<Rightarrow> True | Inr d \<Rightarrow> sql_state (sn_store (wl_state w)) i = None \<and> sql_state (sn_store t) i \<noteq> None \<and>
           decodeTransaction (sc_lib cfg) wire = Inr d \<and> \<not> isl (evaluatePolicy d (sc_policy cfg) (sc_publicKey cfg))))
     (\<lambda>_ t. grows (wl_state w) t \<and> sn_signed t = sn_signed (wl_state w)) (wl_state w)"
  shows "world_ok cfg (add_ticket i lv (m (wl_state w)) w)"
proof -
  obtain r t where m: "m (wl_state w) = (r, t)" by fastforce
  have t: "grows (wl_state w) t" "sn_signed t = sn_signed (wl_state w)"
    using spec by (auto simp: wp_def m split: sum.splits)
  show ?thesis
  proof (cases "\<exists>d. r = Inr (Inr d)")
    case True
    then obtain d where r: "r = Inr (Inr d)" by blast
    then have new: "sql_state (sn_store (wl_state w)) i = None" "sql_state (sn_store t) i \<noteq> None" "checked cfg d"
      using spec by (auto simp: wp_def m checked_def)
    then have "i \<notin> set (world_ids w)" using ok by (auto simp: world_ok_def)
    then show ?thesis
      using ok new(2,3) t(2) grows_known [OF t(1)]
      by (auto simp: add_ticket_def m r world_ok_def world_ids_def)
  next
    case False
    then have "wl_tickets (add_ticket i lv (m (wl_state w)) w) = wl_tickets w"
      by (auto simp: add_ticket_def m split: sum.splits)
    then show ?thesis using ok t by - (rule world_ok_same [OF ok], simp_all add: add_ticket_def m)
  qed
qed

lemma world_ok_finish:
  assumes ok: "world_ok cfg w" and k: "k < length (wl_tickets w)"
  shows "world_ok cfg (signer_op cfg (SO_finish k h n) w)"
proof -
  define t where "t = wl_tickets w ! k"
  define u where "u = snd (finish_signing cfg (tk_id t) (tk_tx t) (tk_lastValid t) h n (wl_state w))"
  define rest where "rest = take k (wl_tickets w) @ drop (Suc k) (wl_tickets w)"
  have split: "wl_tickets w = take k (wl_tickets w) @ t # drop (Suc k) (wl_tickets w)"
    using k by (simp add: t_def id_take_nth_drop)
  have g: "grows (wl_state w) u" and log: "sn_signed u = sn_signed (wl_state w) \<or>
      sn_signed u = sn_signed (wl_state w) @ [(tk_id t, dt_messageBytes (tk_tx t))]"
    using finish_grows [of cfg "tk_id t" "tk_tx t" "tk_lastValid t" h n "wl_state w"]
    by (auto simp: u_def wp_def split: prod.splits sum.splits)
  have "distinct (map tk_id (take k (wl_tickets w) @ t # drop (Suc k) (wl_tickets w)) @ map fst (sn_signed (wl_state w)))"
    using ok unfolding world_ok_def world_ids_def using split by metis
  then have d: "distinct (map tk_id rest @ tk_id t # map fst (sn_signed (wl_state w)))"
    by (auto simp: rest_def)
  have sub: "set rest \<subseteq> set (wl_tickets w)" "t \<in> set (wl_tickets w)"
    using k by (auto simp: rest_def t_def dest: in_set_takeD in_set_dropD)
  have w: "signer_op cfg (SO_finish k h n) w = w\<lparr> wl_state := u, wl_tickets := rest \<rparr>"
    using k by (simp add: t_def u_def rest_def Let_def)
  have known: "sql_state (sn_store u) i \<noteq> None"
    if "i \<in> set (map tk_id rest @ tk_id t # map fst (sn_signed (wl_state w)))" for i
  proof -
    have "i \<in> set (world_ids w)" using that sub by (auto simp: world_ids_def)
    then show ?thesis using ok grows_known [OF g] by (simp add: world_ok_def)
  qed
  have chk: "\<forall>x \<in> set rest. checked cfg (tk_tx x)" "checked cfg (tk_tx t)"
    using ok sub by (auto simp: world_ok_def)
  from log show ?thesis
  proof
    assume "sn_signed u = sn_signed (wl_state w)"
    then show ?thesis using ok d chk unfolding w world_ok_def world_ids_def by (simp add: known)
  next
    assume "sn_signed u = sn_signed (wl_state w) @ [(tk_id t, dt_messageBytes (tk_tx t))]"
    moreover have "distinct (map tk_id rest @ map fst (sn_signed (wl_state w) @ [(tk_id t, dt_messageBytes (tk_tx t))]))"
      using d by auto
    ultimately show ?thesis using ok chk known unfolding w world_ok_def world_ids_def by auto
  qed
qed

lemma world_ok_op: "world_ok cfg w \<Longrightarrow> world_ok cfg (signer_op cfg x w)"
proof (cases "(cfg, x, w)" rule: signer_op.cases)
  case (1 cfg' i wire payer lv n w')
  assume "world_ok cfg w"
  then show ?thesis using 1 world_ok_ticket [OF _ begin_sign_spec] by simp
next
  case (2 cfg' wire env n w')
  assume "world_ok cfg w"
  then show ?thesis using 2 world_ok_ticket [OF _ begin_envelope_spec] by simp
next
  case (3 cfg' k h n w')
  assume "world_ok cfg w"
  then show ?thesis using 3 world_ok_finish [of cfg w k h n] by (cases "k < length (wl_tickets w)") simp_all
next
  case (4 cfg' i h rec n w')
  assume "world_ok cfg w"
  then show ?thesis using 4 signer_result_grows [of "wl_state w" i h rec n]
    by - (rule world_ok_same [of cfg w], simp_all)
next
  case (5 cfg' i wire rpc n w')
  assume "world_ok cfg w"
  then show ?thesis using 5 wp_snd [OF broadcast_grows [of "sc_lib cfg" i wire rpc n "wl_state w"]]
    by - (rule world_ok_same [of cfg w], simp_all)
next
  case (6 cfg' rpc n w')
  assume "world_ok cfg w"
  then show ?thesis using 6 wp_snd [OF reconcile_grows [of rpc n "wl_state w"]]
    by - (rule world_ok_same [of cfg w], simp_all)
next
  case (7 cfg' w')
  assume "world_ok cfg w"
  then show ?thesis using 7 by (simp add: world_ok_def world_ids_def)
qed

lemma world_ok_run: "world_ok cfg (run_signer cfg ops empty_world)"
proof -
  have "world_ok cfg w \<Longrightarrow> world_ok cfg (fold (signer_op cfg) ops w)" for w
    by (induction ops arbitrary: w) (simp_all add: world_ok_op)
  moreover have "world_ok cfg empty_world" by (simp add: world_ok_def world_ids_def empty_world_def)
  ultimately show ?thesis by (simp add: run_signer_def)
qed

text \<open>
  C2: however calls of the signer interleave, crashes included, no authorization id is ever signed
  twice, and every message that was signed is the message of a transaction the signer decoded itself
  and its policy accepted.
\<close>

theorem signed_once:
  "let signed = sn_signed (wl_state (run_signer cfg ops empty_world)) in
   distinct (map fst signed) \<and> list_all (\<lambda>(_, m). \<exists>d. checked cfg d \<and> dt_messageBytes d = m) signed"
  using world_ok_run [of cfg ops] by (simp add: world_ok_def world_ids_def Let_def list_all_iff case_prod_beta)

text \<open>
  C15: over any sequence of calls the state of an id only moves along the lifecycle's edges, and a
  state that is expired, confirmed, reverted, dropped or failed is final: in particular an
  authorization whose blockhash died is never claimed or signed again.
\<close>

theorem lifecycle:
  "let before = sql_state (sn_store (wl_state w)) i; after = sql_state (sn_store (wl_state (run_signer cfg ops w))) i in
   exec_edge\<^sup>*\<^sup>* before after \<and>
   (case before of None \<Rightarrow> True | Some st \<Rightarrow> (if terminal st then after = before else after \<noteq> None))"
proof -
  let ?a = "sql_state (sn_store (wl_state w)) i" and ?b = "sql_state (sn_store (wl_state (run_signer cfg ops w))) i"
  have edge: "exec_edge\<^sup>*\<^sup>* ?a ?b" using run_signer_grows [of w cfg ops] by (auto simp: grows_def store_le_def)
  have "terminal st \<Longrightarrow> ?b = ?a" if "?a = Some st" for st using terminal_stays [OF edge that] that by simp
  then show ?thesis using edge known_stays [OF edge] by (simp add: Let_def split: option.split)
qed

section \<open>The blockhash fence\<close>

text \<open>
  Past the last valid block height nothing is signed: the call fails, no signature is made, and
  a claimed id whose height answer is a proper height ends as expired.
\<close>

theorem dead_blockhash_never_signed:
  "if lv < h
   then (case finish_signing cfg i d (Some lv) (Some (Inr h)) n s of (r, t) \<Rightarrow>
      isl r \<and> sn_signed t = sn_signed s \<and>
      (if js_safe_integer h \<and> 0 \<le> h \<and> sql_state (sn_store s) i = Some Ex_claimed
       then r = Inl ''blockhash_expired'' \<and> sql_state (sn_store t) i = Some Ex_expired else True))
   else True"
proof -
  have "wp (finish_signing cfg i d (Some lv) (Some (Inr h)) n) (\<lambda>_ _. False)
      (\<lambda>e t. sn_signed t = sn_signed s \<and>
         (js_safe_integer h \<and> 0 \<le> h \<and> sql_state (sn_store s) i = Some Ex_claimed \<longrightarrow>
            e = ''blockhash_expired'' \<and> sql_state (sn_store t) i = Some Ex_expired)) s" if "lv < h"
    using that by (auto simp: finish_signing_def fenceBlockhash_def wp_simps sqlite.transition_state)
  then show ?thesis by (auto simp: wp_def split: prod.splits sum.splits)
qed

section \<open>Retries\<close>

lemma transition_row:
  "fst (sql_transition i src dst data n s) \<Longrightarrow>
     \<exists>r. sql_get i (snd (sql_transition i src dst data n s)) = Some r \<and> rr_state r = dst \<and> rr_data r = data"
  by (auto simp: sql_transition_def sql_get_update split: option.splits if_splits)

text \<open>A serialized transaction is not empty.\<close>

definition serializes_nonempty :: "SolanaLib \<Rightarrow> bool" where
  "serializes_nonempty L \<longleftrightarrow> (\<forall>v. sl_serialize L v \<noteq> Some [])"

lemma b64_encode_Nil [simp]: "b64_encode bs = [] \<longleftrightarrow> bs = []"
  by (cases bs rule: b64_encode.cases) simp_all

lemma attach_text: "serializes_nonempty L \<Longrightarrow> attachSignature L d sig = Inr (tx, sg) \<Longrightarrow> tx \<noteq> []"
  by (auto simp: serializes_nonempty_def attachSignature_def split: option.splits)

definition holds_result :: "string \<Rightarrow> DecodedTransaction \<Rightarrow> int option \<Rightarrow> SignResult \<Rightarrow> SqlReplay \<Rightarrow> bool" where
  "holds_result i d lv res s \<longleftrightarrow> sr_transaction res \<noteq> [] \<and>
     (\<exists>r. sql_get i s = Some r \<and> rr_state r = Ex_signed \<and>
        rr_data r = Some (signed_data d (sr_transaction res, sr_signature res) lv))"

lemma finish_result:
  assumes "serializes_nonempty (sc_lib cfg)"
  shows "wp (finish_signing cfg i d lv h n) (\<lambda>res t. holds_result i d lv res (sn_store t)) (\<lambda>_ _. True) s"
proof -
  have "wp (signClaimed cfg i d lv n) (\<lambda>res t. holds_result i d lv res (sn_store t)) (\<lambda>_ _. True) s" for s
  proof (cases "attachSignature (sc_lib cfg) d (sc_signMessage cfg (dt_messageBytes d))")
    case (Inl e)
    then show ?thesis by (simp add: signClaimed_def wp_simps)
  next
    case (Inr x)
    then obtain tx sg where "attachSignature (sc_lib cfg) d (sc_signMessage cfg (dt_messageBytes d)) = Inr (tx, sg)" "tx \<noteq> []"
      using attach_text [OF assms] by (cases x) blast
    then show ?thesis
      by (simp add: signClaimed_def wp_simps holds_result_def transition_row)
  qed
  then show ?thesis
    by (auto simp: finish_signing_def wp_seqE intro: wp_mono [OF fence_grows])
qed

lemma signed_data_props:
  "prop_of ''requestHash'' (signed_data d (tx, sg) lv) = Some (J_str (dt_messageHash d))"
  "prop_of ''transaction'' (signed_data d (tx, sg) lv) = Some (J_str tx)"
  "prop_of ''signature'' (signed_data d (tx, sg) lv) = Some (J_str sg)"
  "prop_of ''lastValidBlockHeight'' (signed_data d (tx, sg) lv) = map_option J_num lv"
  "is_object (signed_data d (tx, sg) lv)"
  by (simp_all add: signed_data_def prop_of_def is_object_def split: option.split)

lemma holds_stored:
  assumes "holds_result i d lv res st" and "dt_messageHash d \<noteq> []"
  shows "stored i (dt_messageHash d) st =
     Inr (Some \<lparr> ss_transaction = sr_transaction res, ss_signature = sr_signature res, ss_lastValidBlockHeight = lv \<rparr>)"
proof -
  obtain r where "sql_get i st = Some r" "rr_state r = Ex_signed" "sr_transaction res \<noteq> []"
    "rr_data r = Some (signed_data d (sr_transaction res, sr_signature res) lv)"
    using assms(1) by (auto simp: holds_result_def)
  then show ?thesis using assms(2)
    by (simp add: stored_def signed_data_props text_prop_def num_prop_def set_prop_def set_text_def split: option.split)
qed

lemma stored_hash: "stored i h st = Inr x \<Longrightarrow> h \<noteq> []"
  by (auto simp: stored_def)

lemma begin_envelope_Inr:
  assumes "begin_envelope cfg wire env n s = (Inr r, t)"
  shows "\<exists>w d prior. sc_wire cfg = Some w \<and> decodeTransaction (sc_lib cfg) wire = Inr d \<and> ac_id (ae_claims env) \<noteq> [] \<and>
     stored (ac_id (ae_claims env)) (dt_messageHash d) (sn_store s) = Inr prior \<and> wire_verify w d env n = Inr () \<and>
     \<not> isl (evaluatePolicy d (sc_policy cfg) (sc_publicKey cfg)) \<and>
     (case prior of Some p \<Rightarrow> r = Inl (prior_result p) \<and> t = s | None \<Rightarrow> r = Inr d)"
  using assms
  by (auto simp: begin_envelope_def eff_defs store_op_def Let_def split: option.splits sum.splits prod.splits if_splits)

lemma begin_envelope_prior:
  assumes "sc_wire cfg = Some w" "decodeTransaction (sc_lib cfg) wire = Inr d" "ac_id (ae_claims env) \<noteq> []"
    "stored (ac_id (ae_claims env)) (dt_messageHash d) (sn_store s) = Inr (Some p)" "wire_verify w d env n = Inr ()"
    "\<not> isl (evaluatePolicy d (sc_policy cfg) (sc_publicKey cfg))"
  shows "begin_envelope cfg wire env n s = (Inr (Inl (prior_result p)), s)"
proof -
  obtain e where "evaluatePolicy d (sc_policy cfg) (sc_publicKey cfg) = Inr e"
    using assms(6) by (cases "evaluatePolicy d (sc_policy cfg) (sc_publicKey cfg)") simp_all
  then show ?thesis using assms by (simp add: begin_envelope_def eff_defs Let_def)
qed

text \<open>
  A signature leaves the signer only after it is durable, and asking again is harmless: when
  \<open>signEnvelope\<close> returns a result, the store answers it for that id and message, and the same
  request at the same time, whatever the block height then is, returns the same result, makes no
  second signature and changes nothing. It is assumed that a serialized transaction is not empty.
\<close>

theorem signEnvelope_idempotent:
  assumes "serializes_nonempty (sc_lib cfg)"
    and "signEnvelope cfg wire env height n s = (Inr res, t)"
  shows "signEnvelope cfg wire env height' n t = (Inr res, t) \<and>
     (\<exists>d p. decodeTransaction (sc_lib cfg) wire = Inr d \<and>
        stored (ac_id (ae_claims env)) (dt_messageHash d) (sn_store t) = Inr (Some p) \<and> prior_result p = res)"
proof -
  obtain r u where b: "begin_envelope cfg wire env n s = (Inr r, u)"
    using assms(2) by (auto simp: signEnvelope_def bindE_def split: prod.splits sum.splits)
  obtain w d prior where f: "sc_wire cfg = Some w" "decodeTransaction (sc_lib cfg) wire = Inr d" "ac_id (ae_claims env) \<noteq> []"
    "stored (ac_id (ae_claims env)) (dt_messageHash d) (sn_store s) = Inr prior" "wire_verify w d env n = Inr ()"
    "\<not> isl (evaluatePolicy d (sc_policy cfg) (sc_publicKey cfg))"
    "case prior of Some p \<Rightarrow> r = Inl (prior_result p) \<and> u = s | None \<Rightarrow> r = Inr d"
    using begin_envelope_Inr [OF b] by blast
  have "\<exists>p. stored (ac_id (ae_claims env)) (dt_messageHash d) (sn_store t) = Inr (Some p) \<and> prior_result p = res"
  proof (cases prior)
    case (Some p)
    then have "t = s" "res = prior_result p" using assms(2) b f(7) by (simp_all add: signEnvelope_def bindE_def returnE_def)
    then show ?thesis using f(4) Some by simp
  next
    case None
    then have "finish_signing cfg (ac_id (ae_claims env)) d (Some (ac_lastValidBlockHeight (ae_claims env))) height n u = (Inr res, t)"
      using assms(2) b f(7) by (simp add: signEnvelope_def bindE_def)
    then have "holds_result (ac_id (ae_claims env)) d (Some (ac_lastValidBlockHeight (ae_claims env))) res (sn_store t)"
      using wp_result [OF finish_result [OF assms(1)]] by fastforce
    then show ?thesis using holds_stored stored_hash [OF f(4)] by (fastforce simp: prior_result_def)
  qed
  then obtain p where p: "stored (ac_id (ae_claims env)) (dt_messageHash d) (sn_store t) = Inr (Some p)" "prior_result p = res"
    by blast
  then have "signEnvelope cfg wire env height' n t = (Inr res, t)"
    using begin_envelope_prior [OF f(1-3) p(1) f(5,6)] by (simp add: signEnvelope_def bindE_def returnE_def)
  then show ?thesis using f(2) p by blast
qed

subsection \<open>An example\<close>

definition ex_signer :: SignerCfg where
  "ex_signer = \<lparr> sc_lib = ex_lib, sc_publicKey = ''P'', sc_signMessage = (\<lambda>_. replicate 64 1), sc_policy = ex_policy,
     sc_wire = Some ex_deps \<rparr>"

definition ex_row :: ReplayRow where
  "ex_row = \<lparr> rr_id = ''id'', rr_expiresAt = 1000, rr_state = Ex_signed, rr_version = 2,
     rr_data = Some (signed_data ex_decoded (b64_encode [2], ''sig'') (Some 50)), rr_updatedAt = 20, rr_recovered = 0 \<rparr>"

lemma ex_claim:
  "ac_id (ae_claims ex_envelope) = ''id''" "ac_expiresAt (ae_claims ex_envelope) = 1000"
  "ac_lastValidBlockHeight (ae_claims ex_envelope) = 50"
  by (simp_all add: ex_envelope_def ex_claims_def)

lemma ex_signer_fields:
  "sc_lib ex_signer = ex_lib" "sc_publicKey ex_signer = ''P''" "sc_signMessage ex_signer = (\<lambda>_. replicate 64 1)"
  "sc_policy ex_signer = ex_policy" "sc_wire ex_signer = Some ex_deps"
  by (simp_all add: ex_signer_def)

lemma ex_attach: "attachSignature ex_lib ex_decoded (replicate 64 1) = Inr (b64_encode [2], ''sig'')"
proof -
  have ne: "replicate 64 (1 :: 8 word) \<noteq> [0]" by (auto dest: arg_cong [where f = length])
  show ?thesis using ne by (simp add: attachSignature_def ex_decoded_def decoded_of_def ex_vtx_def ex_lib_def)
qed

lemma ex_signs:
  "signEnvelope ex_signer ex_wire ex_envelope (Some (Inr 40)) 20 \<lparr> sn_store = [], sn_signed = [] \<rparr> =
     (Inr \<lparr> sr_transaction = b64_encode [2], sr_signature = ''sig'' \<rparr>,
      \<lparr> sn_store = [ex_row], sn_signed = [(''id'', [7])] \<rparr>)"
proof -
  obtain e where e: "evaluatePolicy ex_decoded ex_policy ''P'' = Inr e"
    using ex_policy_accepts by (cases "evaluatePolicy ex_decoded ex_policy ''P''") simp_all
  have h: "dt_messageHash ex_decoded = ''0x''" "dt_messageBytes ex_decoded = [7]"
    by (simp_all add: ex_decoded_def decoded_of_def sha256Hex_def ex_lib_def hex_def)
  have b: "begin_envelope ex_signer ex_wire ex_envelope 20 \<lparr> sn_store = [], sn_signed = [] \<rparr> =
      (Inr (Inr ex_decoded), \<lparr> sn_store = [ex_row\<lparr> rr_state := Ex_claimed, rr_version := 1, rr_data := None \<rparr>], sn_signed = [] \<rparr>)"
    using ex_decodes ex_verifies e h
    by (simp add: begin_envelope_def ex_signer_fields eff_defs Let_def stored_def sql_get_def store_op_def sql_consume_def
        ex_claim js_safe_integer_def max_safe_integer_def ex_row_def)
  show ?thesis
    using ex_attach h
    by (simp add: signEnvelope_def bindE_def b finish_signing_def fenceBlockhash_def signClaimed_def signMessage_def eff_defs
        ex_claim js_safe_integer_def max_safe_integer_def store_op_def sql_transition_def sql_get_def ex_row_def
        ex_signer_fields)
qed

theorem signEnvelope_idempotent_witness:
  "fst (signEnvelope ex_signer ex_wire ex_envelope (Some (Inr 99)) 20 \<lparr> sn_store = [ex_row], sn_signed = [(''id'', [7])] \<rparr>) =
     Inr \<lparr> sr_transaction = b64_encode [2], sr_signature = ''sig'' \<rparr>"
proof -
  have ne: "serializes_nonempty (sc_lib ex_signer)" by (simp add: serializes_nonempty_def ex_signer_def ex_lib_def)
  from signEnvelope_idempotent [OF ne ex_signs, of "Some (Inr 99)"] show ?thesis by simp
qed

section \<open>Releasing the signed bytes\<close>

definition claim_raw :: "string \<times> string \<times> int \<Rightarrow> SignerWorld \<Rightarrow> bool \<times> SignerWorld" where
  "claim_raw a w = (case a of (i, h, n) \<Rightarrow> (case signer_result i h True n (wl_state w) of (r, s) \<Rightarrow>
     ((case r of Inr (SA_signed _ (Some _)) \<Rightarrow> True | _ \<Rightarrow> False), w\<lparr> wl_state := s \<rparr>)))"

definition raw_taken :: "SignerWorld \<Rightarrow> string \<Rightarrow> bool" where
  "raw_taken w i \<longleftrightarrow> recovered (sn_store (wl_state w)) i"

lemma recover_marks:
  "fst (recoverSigned i n s) = Some x \<Longrightarrow> \<not> recovered s i \<and> recovered (snd (recoverSigned i n s)) i"
  by (auto simp: recoverSigned_def recovered_def sql_get_update split: option.splits if_splits)

lemma claim_raw_won:
  assumes "fst (claim_raw (i, h, n) w)"
  shows "\<not> raw_taken w i \<and> raw_taken (snd (claim_raw (i, h, n) w)) i"
proof -
  obtain c t where c: "recoverSigned i n (sn_store (wl_state w)) = (c, t)" by fastforce
  then have "c \<noteq> None" and "sn_store (snd (signer_result i h True n (wl_state w))) = t"
    using assms by (auto simp: claim_raw_def signer_result_def split: if_splits sum.splits option.splits)
  then show ?thesis using recover_marks [of i n "sn_store (wl_state w)"] c
    by (auto simp: raw_taken_def claim_raw_def split: prod.split)
qed

lemma raw_taken_grows: "raw_taken w i \<Longrightarrow> grows (wl_state w) (wl_state v) \<Longrightarrow> raw_taken v i"
  by (simp add: raw_taken_def grows_def store_le_def)

interpretation raw_release: fence claim_raw fst raw_taken
proof
  fix a :: "string \<times> string \<times> int" and w k
  obtain i h n where a: "a = (i, h, n)" by (cases a)
  show "fst (claim_raw a w) \<Longrightarrow> \<not> raw_taken w (fst a)"
    and "fst (claim_raw a w) \<Longrightarrow> raw_taken (snd (claim_raw a w)) (fst a)"
    using claim_raw_won by (simp_all add: a)
  have "grows (wl_state w) (wl_state (snd (claim_raw a w)))"
    using signer_result_grows [of "wl_state w" i h True n] by (auto simp: a claim_raw_def split: prod.split)
  then show "raw_taken w k \<Longrightarrow> raw_taken (snd (claim_raw a w)) k" by (rule raw_taken_grows [rotated])
qed

text \<open>
  Over any history of the signer, requests to recover the signed bytes of an id mixed with any
  other calls, the bytes are released to at most one caller.
\<close>

theorem raw_released_once:
  "wins fst i (run_claims claim_raw (map (map_sum id (signer_op cfg)) ops) w) \<le> (if raw_taken w i then 0 else 1)"
proof (rule raw_release.wins_le)
  fix f v k
  assume "Inr f \<in> set (map (map_sum id (signer_op cfg)) ops)" and taken: "raw_taken v k"
  then obtain x :: "(string \<times> string \<times> int) + SignerOp" where "Inr f = map_sum id (signer_op cfg) x"
    unfolding set_map by blast
  then obtain y where "f = signer_op cfg y" by (cases x) auto
  then show "raw_taken (f v) k" using raw_taken_grows [OF taken signer_op_grows] by simp
qed

definition unhashed :: "json option \<Rightarrow> bool" where
  "unhashed v \<longleftrightarrow> (case v of None \<Rightarrow> False | Some data \<Rightarrow> is_object data \<and> text_prop ''requestHash'' data = None)"

lemma unhashed_sent:
  "unhashed (Some (J_obj ((''signature'', a) # (''transaction'', b) # opt_field ''lastValidBlockHeight'' c)))"
  by (simp add: unhashed_def is_object_def text_prop_def prop_of_def opt_field_def split: option.split)

lemma transition_data:
  "fst (sql_transition i src dst data n s) \<Longrightarrow> unhashed data \<Longrightarrow>
     \<exists>r. sql_get i (snd (sql_transition i src dst data n s)) = Some r \<and> rr_state r = dst \<and> unhashed (rr_data r)"
  using transition_row by fastforce

text \<open>
  The broadcast hides the signature it recorded. After \<open>broadcastSigned\<close> has returned, the row's
  data no longer holds the request hash, so \<open>result\<close> for that id throws
  \<open>authorization_request_mismatch\<close> for every message hash, although its comment promises that a
  signature that exists always stays retrievable.
\<close>

theorem broadcast_hides_result:
  "case broadcastSigned L i wire rpc n s of
     (Inl _, _) \<Rightarrow> True
   | (Inr sig, t) \<Rightarrow>
       signer_result i h rec m t = (Inl (if h = [] then ''request_hash_invalid'' else ''authorization_request_mismatch''), t)"
proof -
  have "wp (broadcastSigned L i wire rpc n) (\<lambda>_ t. \<exists>r. sql_get i (sn_store t) = Some r \<and> rr_state r = Ex_broadcast \<and>
      unhashed (rr_data r)) (\<lambda>_ _. True) s"
    unfolding broadcastSigned_def
    by (simp only: wp_simps) (auto intro!: transition_data unhashed_sent split: sum.split)
  moreover have "signer_result i h rec m t =
      (Inl (if h = [] then ''request_hash_invalid'' else ''authorization_request_mismatch''), t)"
    if "sql_get i (sn_store t) = Some r" "rr_state r = Ex_broadcast" "unhashed (rr_data r)" for t r
    using that by (auto simp: signer_result_def sql_state_def stored_def throwIf_def unhashed_def split: option.splits)
  ultimately show ?thesis by (auto simp: wp_def split: prod.splits sum.splits)
qed

end
