(* ===== verification/AuthIssuer.thy ===== *)
theory AuthIssuer
  imports SignerService
begin

text \<open>
  \<open>src/src/execution/simulation.ts\<close>, \<open>src/src/execution/authorization/index.ts\<close> and
  \<open>src/src/execution/gateway.ts\<close>: the host's side of the custody boundary. A transaction becomes a
  simulation request, its simulation is checked and hashed into evidence, an envelope is issued for
  it, and the gateway verifies the envelope, burns its id in the host's store, and hands it to the
  signer. The node's simulation, the checks of the issuer, the envelope's signature, the signer, the
  broadcast and SHA-256 of a text are parameters.
\<close>

section \<open>Simulation\<close>

definition SIMULATION_EVIDENCE_DOMAIN :: string where
  "SIMULATION_EVIDENCE_DOMAIN = ''ari-solana-simulation-evidence/v1''"

record PreparedTransaction =
  pt_cluster :: string
  pt_transaction :: string
  pt_lastValidBlockHeight :: int

record SimulationRequest =
  sq_cluster :: string
  sq_transaction :: string
  sq_message :: string
  sq_messageHash :: string
  sq_feePayer :: string
  sq_recentBlockhash :: string
  sq_lastValidBlockHeight :: int
  sq_programIds :: "string list"
  sq_accountKeys :: "string list"
  sq_instructions :: "InstructionClaim list"
  sq_addressTableLookups :: "string list"
  sq_policyHash :: string

record AssetDelta =
  ad_asset :: string
  ad_owner :: string
  ad_amount :: int

record AccountState =
  as_address :: string
  as_lamports :: int
  as_owner :: string
  as_data :: "string option"

record SimulationCapabilities =
  cp_balances :: bool
  cp_logs :: bool
  cp_fee :: bool
  cp_addressTableLookups :: bool

record EvidenceBody =
  eb_messageHash :: string
  eb_slot :: int
  eb_blockhash :: string
  eb_unitsConsumed :: int
  eb_feeLamports :: int
  eb_logs :: "string list"
  eb_accountStates :: "AccountState list"
  eb_assetDeltas :: "AssetDelta list"
  eb_capabilities :: SimulationCapabilities

record SimulationResult =
  sl_success :: bool
  sl_body :: EvidenceBody
  sl_err :: "string option"

record SimulationEvidence =
  se_hash :: string
  se_body :: EvidenceBody

record SafetyContext =
  sx_expectedMessageHash :: string
  sx_maxSlotLag :: int
  sx_currentSlot :: int
  sx_allowedAssets :: "string list"
  sx_currentBlockHeight :: "int option"
  sx_lastValidBlockHeight :: "int option"

definition simulationRequestOf :: "DecodedTransaction \<Rightarrow> string \<Rightarrow> int \<Rightarrow> string \<Rightarrow> SimulationRequest" where
  "simulationRequestOf d cluster lastValid policyHash =
     \<lparr> sq_cluster = cluster, sq_transaction = dt_wireBase64 d, sq_message = dt_messageBase64 d,
       sq_messageHash = dt_messageHash d, sq_feePayer = dt_feePayer d, sq_recentBlockhash = dt_recentBlockhash d,
       sq_lastValidBlockHeight = lastValid, sq_programIds = program_ids d, sq_accountKeys = dt_staticAccountKeys d,
       sq_instructions = map claim_of_instruction (dt_instructions d),
       sq_addressTableLookups = map al_accountKey (dt_addressTableLookups d), sq_policyHash = policyHash \<rparr>"

definition buildSimulationRequest :: "SolanaLib \<Rightarrow> PreparedTransaction \<Rightarrow> string \<Rightarrow> string + SimulationRequest" where
  "buildSimulationRequest L t policyHash =
     throwIf (\<not> js_safe_integer (pt_lastValidBlockHeight t) \<or> pt_lastValidBlockHeight t < 0)
       ''prepared_last_valid_block_height_invalid''
     (throwIf (pt_cluster t = []) ''prepared_cluster_invalid''
     (bindR (decodeTransaction L (pt_transaction t)) (\<lambda>d.
      Inr (simulationRequestOf d (pt_cluster t) (pt_lastValidBlockHeight t) policyHash))))"

text \<open>
  The evidence's canonical text: a \<open>bigint\<close> becomes its decimal text, and the properties are sorted;
  on these names \<open>localeCompare\<close> and the order of the code units agree.
\<close>

definition big_text :: "int \<Rightarrow> json" where
  "big_text n = J_str (show_int n)"

definition account_value :: "AccountState \<Rightarrow> json" where
  "account_value a = J_obj [(''address'', J_str (as_address a)), (''lamports'', big_text (as_lamports a)),
     (''owner'', J_str (as_owner a)), (''data'', null_or (as_data a))]"

definition delta_value :: "AssetDelta \<Rightarrow> json" where
  "delta_value a = J_obj [(''asset'', J_str (ad_asset a)), (''owner'', J_str (ad_owner a)), (''amount'', big_text (ad_amount a))]"

definition capabilities_value :: "SimulationCapabilities \<Rightarrow> json" where
  "capabilities_value c = J_obj [(''balances'', J_bool (cp_balances c)), (''logs'', J_bool (cp_logs c)),
     (''fee'', J_bool (cp_fee c)), (''addressTableLookups'', J_bool (cp_addressTableLookups c))]"

definition evidence_value :: "EvidenceBody \<Rightarrow> json" where
  "evidence_value b = J_obj [(''domain'', J_str SIMULATION_EVIDENCE_DOMAIN), (''messageHash'', J_str (eb_messageHash b)),
     (''slot'', big_text (eb_slot b)), (''blockhash'', J_str (eb_blockhash b)), (''unitsConsumed'', big_text (eb_unitsConsumed b)),
     (''feeLamports'', big_text (eb_feeLamports b)), (''logs'', J_arr (map J_str (eb_logs b))),
     (''accountStates'', J_arr (map account_value (eb_accountStates b))),
     (''assetDeltas'', J_arr (map delta_value (eb_assetDeltas b))), (''capabilities'', capabilities_value (eb_capabilities b))]"

definition simulationEvidenceHash :: "(string \<Rightarrow> string) \<Rightarrow> EvidenceBody \<Rightarrow> string" where
  "simulationEvidenceHash sha256 b = sha256 (canonicalSerialize (evidence_value b))"

definition createSimulationEvidence :: "(string \<Rightarrow> string) \<Rightarrow> SimulationRequest \<Rightarrow> SimulationResult \<Rightarrow> string + SimulationEvidence" where
  "createSimulationEvidence sha256 q r =
     throwIf (js_lower (eb_messageHash (sl_body r)) \<noteq> js_lower (sq_messageHash q)) ''simulation_transaction_mismatch''
     (Inr \<lparr> se_hash = simulationEvidenceHash sha256 (sl_body r), se_body = sl_body r \<rparr>)"

definition delta_key :: "AssetDelta \<Rightarrow> string" where
  "delta_key d = ad_asset d @ CHR '':'' # ad_owner d"

fun check_deltas :: "string list \<Rightarrow> AssetDelta list \<Rightarrow> string list \<Rightarrow> string + unit" where
  "check_deltas allowed [] seen = Inr ()"
| "check_deltas allowed (d # ds) seen =
     throwIf (delta_key d \<in> set seen) ''simulation_duplicate_asset_delta''
     (throwIf (ad_asset d \<notin> set allowed) (''unexpected_asset_delta:'' @ ad_asset d)
     (check_deltas allowed ds (delta_key d # seen)))"

definition height_passed :: "SafetyContext \<Rightarrow> bool" where
  "height_passed x \<longleftrightarrow>
     (case (sx_currentBlockHeight x, sx_lastValidBlockHeight x) of (Some h, Some lv) \<Rightarrow> h > lv | _ \<Rightarrow> False)"

definition assertSimulationSafe :: "SolanaLib \<Rightarrow> SimulationResult \<Rightarrow> SafetyContext \<Rightarrow> string + unit" where
  "assertSimulationSafe L r x =
     (let b = sl_body r; c = eb_capabilities b in
      throwIf (\<not> sl_success r) (''simulation_failed'' @ (case set_text (sl_err r) of None \<Rightarrow> [] | Some e \<Rightarrow> CHR '':'' # e))
     (throwIf (\<not> cp_balances c) ''simulation_balances_unavailable''
     (throwIf (\<not> cp_fee c) ''simulation_fee_unavailable''
     (throwIf (\<not> cp_logs c) ''simulation_logs_unavailable''
     (throwIf (\<not> cp_addressTableLookups c) ''simulation_address_table_lookup_unresolved''
     (throwIf (\<not> isPublicKey L (eb_blockhash b)) ''simulation_blockhash_invalid''
     (throwIf (js_lower (eb_messageHash b) \<noteq> js_lower (sx_expectedMessageHash x)) ''simulation_transaction_mismatch''
     (throwIf (eb_slot b > sx_currentSlot x \<or> sx_currentSlot x - eb_slot b > sx_maxSlotLag x) ''simulation_stale_slot''
     (throwIf (height_passed x) ''simulation_blockhash_expired''
     (check_deltas (sx_allowedAssets x) (eb_assetDeltas b) []))))))))))"

section \<open>Issuing\<close>

datatype HeightAnswer = HA_bool bool | HA_height int

record AuthorizationChecks =
  ck_quote :: "string \<Rightarrow> string + bool"
  ck_policy :: "string \<Rightarrow> string + bool"
  ck_risk :: "string \<Rightarrow> string + bool"
  ck_reservation :: "string \<Rightarrow> string + bool"
  ck_approval :: "string \<Rightarrow> string + bool"
  ck_simulation :: "string \<Rightarrow> string + bool"
  ck_blockhash :: "string \<Rightarrow> string + HeightAnswer"
  ck_consume :: "(string \<Rightarrow> string \<Rightarrow> string \<Rightarrow> string + bool) option"
  ck_snapshot :: "(string \<times> string) option"

record Issuer =
  iss_checks :: AuthorizationChecks
  iss_sign :: "string \<Rightarrow> string + string"
  iss_signerKeyId :: "string option"
  iss_ttlMs :: "int option"
  iss_maxTtlMs :: "int option"
  iss_lib :: SolanaLib
  iss_sha256 :: "string \<Rightarrow> string"

definition issuer_ttl :: "Issuer \<Rightarrow> int" where
  "issuer_ttl s = (case iss_ttlMs s of None \<Rightarrow> 30000 | Some n \<Rightarrow> n)"

definition issuer_max_ttl :: "Issuer \<Rightarrow> int" where
  "issuer_max_ttl s = (case iss_maxTtlMs s of None \<Rightarrow> 60000 | Some n \<Rightarrow> n)"

text \<open>The JSON text of a request, in the order its properties are written.\<close>

definition request_value :: "SimulationRequest \<Rightarrow> json" where
  "request_value q = J_obj [(''cluster'', J_str (sq_cluster q)), (''transaction'', J_str (sq_transaction q)),
     (''message'', J_str (sq_message q)), (''messageHash'', J_str (sq_messageHash q)), (''feePayer'', J_str (sq_feePayer q)),
     (''recentBlockhash'', J_str (sq_recentBlockhash q)), (''lastValidBlockHeight'', J_num (sq_lastValidBlockHeight q)),
     (''programIds'', J_arr (map J_str (sq_programIds q))), (''accountKeys'', J_arr (map J_str (sq_accountKeys q))),
     (''instructions'', J_arr (map instruction_value (sq_instructions q))),
     (''addressTableLookups'', J_arr (map J_str (sq_addressTableLookups q))), (''policyHash'', J_str (sq_policyHash q))]"

definition blockhash_live :: "SimulationRequest \<Rightarrow> HeightAnswer \<Rightarrow> bool" where
  "blockhash_live q h \<longleftrightarrow>
     (case h of HA_bool b \<Rightarrow> b | HA_height n \<Rightarrow> js_safe_integer n \<and> n \<le> sq_lastValidBlockHeight q)"

definition require_check :: "string \<Rightarrow> string + bool \<Rightarrow> string + unit" where
  "require_check name r = bindR r (\<lambda>b. throwIf (\<not> b) (''authorization_'' @ name @ ''_invalid'') (Inr ()))"

definition run_checks :: "AuthorizationChecks \<Rightarrow> SimulationRequest \<Rightarrow> SimulationEvidence \<Rightarrow> AuthorizationReferences \<Rightarrow> string + unit" where
  "run_checks c q e refs =
     bindR (require_check ''quote'' (ck_quote c (ar_quoteHash refs))) (\<lambda>_.
     bindR (require_check ''policy'' (ck_policy c (ar_policyHash refs))) (\<lambda>_.
     bindR (require_check ''risk'' (ck_risk c (ar_riskHash refs))) (\<lambda>_.
     bindR (require_check ''reservation'' (ck_reservation c (ar_reservationId refs))) (\<lambda>_.
     bindR (require_check ''approval'' (ck_approval c (ar_approvalId refs))) (\<lambda>_.
     bindR (require_check ''simulation'' (ck_simulation c (se_hash e))) (\<lambda>_.
     require_check ''blockhash'' (bindR (ck_blockhash c (sq_cluster q)) (\<lambda>h. Inr (blockhash_live q h)))))))))"

definition issue_claims :: "Issuer \<Rightarrow> SimulationRequest \<Rightarrow> SimulationEvidence \<Rightarrow> AuthorizationReferences \<Rightarrow> string \<Rightarrow> int \<Rightarrow> AuthorizationClaims" where
  "issue_claims s q e refs i now =
     \<lparr> ac_refs = (case set_text (iss_signerKeyId s) of None \<Rightarrow> refs | Some k \<Rightarrow> refs\<lparr> ar_signerKeyId := Some k \<rparr>),
       ac_protocol = AUTHORIZATION_PROTOCOL, ac_version = 1, ac_id = i, ac_cluster = sq_cluster q,
       ac_feePayer = sq_feePayer q, ac_transaction = sq_transaction q, ac_message = sq_message q,
       ac_messageHash = sq_messageHash q, ac_recentBlockhash = sq_recentBlockhash q,
       ac_lastValidBlockHeight = sq_lastValidBlockHeight q, ac_programIds = sq_programIds q,
       ac_accountKeys = sq_accountKeys q, ac_instructions = sq_instructions q,
       ac_addressTableLookups = sq_addressTableLookups q, ac_simulationHash = se_hash e,
       ac_issuedAt = now, ac_expiresAt = now + issuer_ttl s \<rparr>"

text \<open>\<open>i\<close> is the random id; \<open>now\<close> the clock.\<close>

definition issue :: "Issuer \<Rightarrow> SimulationRequest \<Rightarrow> SimulationEvidence \<Rightarrow> AuthorizationReferences \<Rightarrow> string \<Rightarrow> int \<Rightarrow> string + AuthorizationEnvelope" where
  "issue s q e refs i now =
     throwIf (\<not> js_safe_integer (issuer_ttl s) \<or> issuer_ttl s \<le> 0 \<or> issuer_ttl s > issuer_max_ttl s) ''authorization_ttl_invalid''
     (throwIf (ar_policyHash refs \<noteq> sq_policyHash q) ''authorization_policy_invalid''
     (bindR (decodeTransaction (iss_lib s) (sq_transaction q)) (\<lambda>d.
      throwIf (json_text (request_value (simulationRequestOf d (sq_cluster q) (sq_lastValidBlockHeight q) (sq_policyHash q))) \<noteq>
          json_text (request_value q)) ''authorization_transaction_invalid''
     (throwIf (se_hash e \<noteq> simulationEvidenceHash (iss_sha256 s) (se_body e) \<or> eb_messageHash (se_body e) \<noteq> sq_messageHash q)
          ''authorization_simulation_invalid''
     (bindR (run_checks (iss_checks s) q e refs) (\<lambda>_.
      throwIf (case ck_snapshot (iss_checks s) of None \<Rightarrow> False | Some (before, after) \<Rightarrow> before \<noteq> after)
          ''authorization_snapshot_changed''
     (bindR (case ck_consume (iss_checks s) of None \<Rightarrow> Inr True | Some f \<Rightarrow> f (ar_approvalId refs) (ar_reservationId refs) i) (\<lambda>ok.
      throwIf (\<not> ok) ''authorization_consumption_invalid''
     (let c = issue_claims s q e refs i now in
      bindR (iss_sign s (canonicalClaims c)) (\<lambda>sig. Inr \<lparr> ae_claims = c, ae_signature = sig \<rparr>))))))))))"

section \<open>The execution gateway\<close>

text \<open>
  The host burns the id in its own replay store. \<open>ho_signs\<close> records every id handed to the signer and
  \<open>ho_sent\<close> every broadcast, with what the store said of the id at that moment; they serve the
  properties only.
\<close>

record HostState =
  ho_store :: MemReplay
  ho_signs :: "string list"
  ho_sent :: "(string \<times> string \<times> (ExecutionState \<times> json option) option) list"

type_synonym 'a host = "(HostState, string, 'a) eff"

record SignerSignResponse =
  ssr_transaction :: string
  ssr_signature :: string
  ssr_broadcast :: "string option"

record GatewayPorts =
  gd_lib :: SolanaLib
  gd_wireVerifier :: "WireDeps option"
  gd_blockHeight :: "(string + int) option"
  gd_sign :: "(string \<Rightarrow> AuthorizationEnvelope \<Rightarrow> string + SignerSignResponse) option"
  gd_broadcast :: "(string \<Rightarrow> string + string) option"

definition memE :: "(MemReplay \<Rightarrow> bool \<times> MemReplay) \<Rightarrow> bool host" where
  "memE f = (\<lambda>s. case f (ho_store s) of (b, t) \<Rightarrow> (Inr b, s\<lparr> ho_store := t \<rparr>))"

definition move :: "string \<Rightarrow> ExecutionState \<Rightarrow> ExecutionState \<Rightarrow> json \<Rightarrow> int \<Rightarrow> bool host" where
  "move i src dst data now = memE (mem_transition i src dst (Some data) now)"

text \<open>\<open>HostAuthorizationVerifier.verify\<close>.\<close>

definition host_verify :: "GatewayPorts \<Rightarrow> WireDeps \<Rightarrow> string \<Rightarrow> AuthorizationEnvelope \<Rightarrow> int \<Rightarrow> string host" where
  "host_verify p w wire env now =
     (let c = ae_claims env; i = ac_id c in
      bindE (liftE (wire_verify_text (gd_lib p) w wire env now)) (\<lambda>d.
      bindE (memE (mem_consume i (ac_expiresAt c) now)) (\<lambda>won.
      seqE (guardE (\<not> won) ''envelope_replayed'')
     (seqE (case gd_blockHeight p of
         None \<Rightarrow> returnE ()
       | Some answer \<Rightarrow>
           bindE (liftE answer) (\<lambda>h.
           seqE (guardE (\<not> js_safe_integer h \<or> h < 0) ''block_height_invalid'')
           (if h > ac_lastValidBlockHeight c
            then seqE (move i Ex_claimed Ex_expired
                   (J_obj [(''lastValidBlockHeight'', J_num (ac_lastValidBlockHeight c)), (''blockHeight'', J_num h)]) now)
                 (throwE ''envelope_blockhash_expired'')
            else returnE ())))
     (returnE (dt_wireBase64 d))))))"

definition call_sign :: "string \<Rightarrow> string + SignerSignResponse \<Rightarrow> SignerSignResponse host" where
  "call_sign i answer = (\<lambda>s. (answer, s\<lparr> ho_signs := ho_signs s @ [i] \<rparr>))"

definition call_broadcast :: "string \<Rightarrow> string \<Rightarrow> string + string \<Rightarrow> string host" where
  "call_broadcast i wire answer = (\<lambda>s. (answer, s\<lparr> ho_sent := ho_sent s @ [(i, wire, mem_get i (ho_store s))] \<rparr>))"

definition attached_ok :: "SolanaLib \<Rightarrow> SignerSignResponse \<Rightarrow> bool" where
  "attached_ok L r \<longleftrightarrow> (case signatureOf L (ssr_transaction r) of Inl _ \<Rightarrow> False | Inr a \<Rightarrow> a \<noteq> [] \<and> a = ssr_signature r)"

definition persist_signed :: "GatewayPorts \<Rightarrow> string \<Rightarrow> SignerSignResponse \<Rightarrow> int \<Rightarrow> unit host" where
  "persist_signed p i r now =
     (if attached_ok (gd_lib p) r
      then seqE (move i Ex_claimed Ex_signed
             (J_obj [(''signature'', J_str (ssr_signature r)), (''transaction'', J_str (ssr_transaction r))]) now) (returnE ())
      else seqE (move i Ex_claimed Ex_failed (J_str ''signer_signature_mismatch'') now) (throwE ''signer_signature_mismatch''))"

definition finish_broadcast :: "string \<Rightarrow> SignerSignResponse \<Rightarrow> string \<Rightarrow> int \<Rightarrow> string host" where
  "finish_broadcast i r signature now =
     (if signature \<noteq> ssr_signature r
      then seqE (move i Ex_signed Ex_reconciliation (J_str signature) now) (throwE ''broadcast_signature_mismatch'')
      else seqE (move i Ex_signed Ex_broadcast (J_str signature) now) (returnE signature))"

definition gateway_execute :: "GatewayPorts \<Rightarrow> string \<Rightarrow> AuthorizationEnvelope \<Rightarrow> int \<Rightarrow> (string \<times> string) host" where
  "gateway_execute p wire env now =
     seqE (guardE (wire = []) ''authorization_envelope_required'')
     (case (gd_wireVerifier p, gd_sign p, gd_broadcast p) of
        (Some w, Some ask, Some send) \<Rightarrow>
          (let i = ac_id (ae_claims env) in
           bindE (host_verify p w wire env now) (\<lambda>tx.
           bindE (catchE (call_sign i (ask tx env))
              (\<lambda>e. seqE (move i Ex_claimed Ex_failed (J_str e) now) (throwE e))) (\<lambda>r.
           seqE (persist_signed p i r now)
          (bindE (case ssr_broadcast r of
               Some sent \<Rightarrow> finish_broadcast i r sent now
             | None \<Rightarrow>
                 bindE (catchE (call_broadcast i (ssr_transaction r) (send (ssr_transaction r)))
                   (\<lambda>e. seqE (move i Ex_signed Ex_reconciliation (J_str e) now) (throwE e))) (\<lambda>signature.
                 finish_broadcast i r signature now)) (\<lambda>signature.
           returnE (ac_messageHash (ae_claims env), signature))))))
      | _ \<Rightarrow> throwE ''signing_disabled'')"

text \<open>\<open>ExecutionGateway.prepare\<close>: \<open>simulate\<close> is the node's answer.\<close>

record ExecutionContext =
  xc_policyHash :: string
  xc_currentSlot :: int
  xc_maxSlotLag :: int
  xc_allowedAssets :: "string list"
  xc_currentBlockHeight :: "int option"

definition prepare :: "SolanaLib \<Rightarrow> (SimulationRequest \<Rightarrow> string + SimulationResult) \<Rightarrow> PreparedTransaction \<Rightarrow> ExecutionContext \<Rightarrow>
    string + (SimulationRequest \<times> SimulationResult)" where
  "prepare L simulate t x =
     bindR (buildSimulationRequest L t (xc_policyHash x)) (\<lambda>q.
     bindR (simulate q) (\<lambda>r.
     bindR (assertSimulationSafe L r
        \<lparr> sx_expectedMessageHash = sq_messageHash q, sx_maxSlotLag = xc_maxSlotLag x, sx_currentSlot = xc_currentSlot x,
          sx_allowedAssets = xc_allowedAssets x, sx_currentBlockHeight = xc_currentBlockHeight x,
          sx_lastValidBlockHeight = map_option (\<lambda>_. sq_lastValidBlockHeight q) (xc_currentBlockHeight x) \<rparr>) (\<lambda>_.
     Inr (q, r))))"

section \<open>What the issuer issues the signer accepts\<close>

lemma request_value_inj: "json_text (request_value a) = json_text (request_value b) \<longleftrightarrow> a = b"
proof
  assume "json_text (request_value a) = json_text (request_value b)"
  then have eq: "request_value a = request_value b" by (rule json_text_inj)
  have strings: "map J_str xs = map J_str ys \<longleftrightarrow> xs = ys" for xs ys by (intro inj_map_eq_map injI) simp
  have ins: "map instruction_value xs = map instruction_value ys \<longleftrightarrow> xs = ys" for xs ys
    by (intro inj_map_eq_map injI) (metis instruction_value_inj)
  show "a = b" using eq by (cases a; cases b) (simp add: request_value_def strings ins)
qed simp

lemma request_describes:
  assumes "decodeTransaction L (sq_transaction q) = Inr d"
    and "simulationRequestOf d (sq_cluster q) (sq_lastValidBlockHeight q) (sq_policyHash q) = q"
  shows "claims_describe (issue_claims s q e refs i now) d"
proof -
  have "sq_transaction q = dt_wireBase64 d" "sq_message q = dt_messageBase64 d" "sq_messageHash q = dt_messageHash d"
    "sq_feePayer q = dt_feePayer d" "sq_recentBlockhash q = dt_recentBlockhash d" "sq_programIds q = program_ids d"
    "sq_accountKeys q = dt_staticAccountKeys d" "sq_instructions q = map claim_of_instruction (dt_instructions d)"
    "sq_addressTableLookups q = map al_accountKey (dt_addressTableLookups d)"
    by (subst assms(2) [symmetric], simp add: simulationRequestOf_def)+
  then show ?thesis by (simp add: claims_describe_def issue_claims_def)
qed

lemma issue_Inr:
  assumes "issue s q e refs i now = Inr env"
  shows "\<exists>d. decodeTransaction (iss_lib s) (sq_transaction q) = Inr d \<and>
     simulationRequestOf d (sq_cluster q) (sq_lastValidBlockHeight q) (sq_policyHash q) = q \<and>
     ae_claims env = issue_claims s q e refs i now \<and> iss_sign s (canonicalClaims (ae_claims env)) = Inr (ae_signature env) \<and>
     0 < issuer_ttl s \<and> ar_policyHash refs = sq_policyHash q \<and>
     se_hash e = simulationEvidenceHash (iss_sha256 s) (se_body e) \<and> eb_messageHash (se_body e) = sq_messageHash q"
  using assms
  by (auto simp: issue_def bindR_Inr request_value_inj Let_def)

text \<open>What the operator configures on both sides: audience, keys, policy and cluster.\<close>

definition config_agrees :: "Issuer \<Rightarrow> WireDeps \<Rightarrow> SimulationRequest \<Rightarrow> AuthorizationReferences \<Rightarrow> bool" where
  "config_agrees s w q refs \<longleftrightarrow>
     (let r = (case set_text (iss_signerKeyId s) of None \<Rightarrow> refs | Some k \<Rightarrow> refs\<lparr> ar_signerKeyId := Some k \<rparr>) in
      ar_audience refs = wd_audience w \<and> issuer_ttl s \<le> max_ttl w \<and> \<not> policy_mismatch w refs \<and>
      (case set_text (wd_signerKeyId w) of None \<Rightarrow> True | Some k \<Rightarrow> ar_signerKeyId r = Some k) \<and>
      (case wd_authorizationKeyIds w of None \<Rightarrow> True
       | Some ks \<Rightarrow> (case set_text (ar_signerKeyId r) of None \<Rightarrow> False | Some k \<Rightarrow> k \<in> set ks)) \<and>
      (case wd_cluster w of None \<Rightarrow> True | Some cl \<Rightarrow> sq_cluster q = cl))"

text \<open>
  C32: what the host issues the signer accepts: an envelope issued for a request, whose signature the
  signer's verifier recognises and whose configuration agrees, verifies against the signer's own
  decode of the request's transaction at any time from its issue until its time to live has passed.
\<close>

theorem issued_is_accepted:
  assumes "issue s q e refs i t0 = Inr env"
    and "wd_verify w (canonicalClaims (ae_claims env)) (ae_signature env) (ar_signerKeyId (ac_refs (ae_claims env)))"
    and "config_agrees s w q refs"
    and "js_safe_integer t0 \<and> js_safe_integer (t0 + issuer_ttl s)"
    and "js_safe_integer (sq_lastValidBlockHeight q) \<and> 0 \<le> sq_lastValidBlockHeight q"
    and "t0 \<le> now \<and> now < t0 + issuer_ttl s"
  shows "\<exists>d. wire_verify_text (iss_lib s) w (sq_transaction q) env now = Inr d \<and> dt_wireBase64 d = sq_transaction q"
proof -
  obtain d where d: "decodeTransaction (iss_lib s) (sq_transaction q) = Inr d"
    "simulationRequestOf d (sq_cluster q) (sq_lastValidBlockHeight q) (sq_policyHash q) = q"
    and env: "ae_claims env = issue_claims s q e refs i t0"
    using issue_Inr [OF assms(1)] by blast
  let ?r = "ac_refs (ae_claims env)"
  have r: "?r = (case set_text (iss_signerKeyId s) of None \<Rightarrow> refs | Some k \<Rightarrow> refs\<lparr> ar_signerKeyId := Some k \<rparr>)"
    by (simp add: env issue_claims_def)
  have same: "ar_audience ?r = ar_audience refs" "policy_mismatch w ?r = policy_mismatch w refs"
    by (simp_all add: r policy_mismatch_def split: option.split)
  have "\<not> transaction_mismatch (ae_claims env) d"
    using request_describes [OF d] by (simp add: env transaction_mismatch_iff)
  moreover have "ac_protocol (ae_claims env) = AUTHORIZATION_PROTOCOL" "ac_version (ae_claims env) = 1"
    "ac_issuedAt (ae_claims env) = t0" "ac_expiresAt (ae_claims env) = t0 + issuer_ttl s"
    "ac_cluster (ae_claims env) = sq_cluster q" "ac_lastValidBlockHeight (ae_claims env) = sq_lastValidBlockHeight q"
    by (simp_all add: env issue_claims_def)
  moreover have "ar_audience ?r = wd_audience w" "issuer_ttl s \<le> max_ttl w" "\<not> policy_mismatch w ?r"
    "case set_text (wd_signerKeyId w) of None \<Rightarrow> True | Some k \<Rightarrow> ar_signerKeyId ?r = Some k"
    "case wd_authorizationKeyIds w of None \<Rightarrow> True
       | Some ks \<Rightarrow> (case set_text (ar_signerKeyId ?r) of None \<Rightarrow> False | Some k \<Rightarrow> k \<in> set ks)"
    "case wd_cluster w of None \<Rightarrow> True | Some cl \<Rightarrow> sq_cluster q = cl"
    using assms(3) same by (simp_all add: config_agrees_def Let_def r [symmetric])
  ultimately have "wire_verify w d env now = Inr ()"
    using assms(2,4-6) by (auto simp: wire_verify_def Let_def split: option.splits)
  moreover have "dt_wireBase64 d = sq_transaction q"
    by (subst d(2) [symmetric]) (simp add: simulationRequestOf_def)
  ultimately show ?thesis using d(1) by (simp add: wire_verify_text_def)
qed

subsection \<open>An example\<close>

definition ex_issuer :: Issuer where
  "ex_issuer = \<lparr> iss_checks = \<lparr> ck_quote = (\<lambda>_. Inr True), ck_policy = (\<lambda>_. Inr True), ck_risk = (\<lambda>_. Inr True),
       ck_reservation = (\<lambda>_. Inr True), ck_approval = (\<lambda>_. Inr True), ck_simulation = (\<lambda>_. Inr True),
       ck_blockhash = (\<lambda>_. Inr (HA_height 40)), ck_consume = None, ck_snapshot = None \<rparr>,
     iss_sign = (\<lambda>_. Inr ''ok''), iss_signerKeyId = None, iss_ttlMs = None, iss_maxTtlMs = None, iss_lib = ex_lib,
     iss_sha256 = (\<lambda>x. x) \<rparr>"

definition ex_request :: SimulationRequest where
  "ex_request = simulationRequestOf ex_decoded ''test'' 50 ''0x''"

definition ex_evidence :: SimulationEvidence where
  "ex_evidence = (let b = \<lparr> eb_messageHash = ''0x'', eb_slot = 1, eb_blockhash = ''h'', eb_unitsConsumed = 1, eb_feeLamports = 1,
       eb_logs = [], eb_accountStates = [], eb_assetDeltas = [],
       eb_capabilities = \<lparr> cp_balances = True, cp_logs = True, cp_fee = True, cp_addressTableLookups = True \<rparr> \<rparr>
     in \<lparr> se_hash = simulationEvidenceHash (\<lambda>x. x) b, se_body = b \<rparr>)"

lemma ex_request_fields:
  "sq_transaction ex_request = ex_wire" "sq_messageHash ex_request = ''0x''" "sq_cluster ex_request = ''test''"
  "sq_lastValidBlockHeight ex_request = 50" "sq_policyHash ex_request = ''0x''"
  by (simp_all add: ex_request_def simulationRequestOf_def ex_decoded_def decoded_of_def ex_wire_def sha256Hex_def ex_lib_def hex_def)

lemma ex_issues:
  "issue ex_issuer ex_request ex_evidence ex_refs ''id'' 10 =
     Inr \<lparr> ae_claims = issue_claims ex_issuer ex_request ex_evidence ex_refs ''id'' 10, ae_signature = ''ok'' \<rparr>"
proof -
  have "simulationRequestOf ex_decoded ''test'' 50 ''0x'' = ex_request" by (simp add: ex_request_def)
  moreover have "se_hash ex_evidence = simulationEvidenceHash (\<lambda>x. x) (se_body ex_evidence)" "eb_messageHash (se_body ex_evidence) = ''0x''"
    by (simp_all add: ex_evidence_def Let_def)
  ultimately show ?thesis
    using ex_decodes
    by (simp add: issue_def ex_request_fields issuer_ttl_def issuer_max_ttl_def run_checks_def require_check_def
        blockhash_live_def Let_def ex_issuer_def ex_refs_def js_safe_integer_def max_safe_integer_def)
qed

theorem issued_is_accepted_witness:
  "\<exists>d. wire_verify_text ex_lib ex_deps ex_wire
     \<lparr> ae_claims = issue_claims ex_issuer ex_request ex_evidence ex_refs ''id'' 10, ae_signature = ''ok'' \<rparr> 5000 = Inr d"
proof -
  have "config_agrees ex_issuer ex_deps ex_request ex_refs"
    by (simp add: config_agrees_def ex_issuer_def ex_deps_def ex_refs_def ex_request_fields issuer_ttl_def max_ttl_def
        policy_mismatch_def set_text_def)
  then show ?thesis
    using issued_is_accepted [OF ex_issues, of ex_deps 5000]
    by (auto simp: ex_issuer_def ex_deps_def issuer_ttl_def js_safe_integer_def max_safe_integer_def ex_request_fields)
qed

section \<open>Evidence\<close>

lemma big_text_inj [simp]: "canonicalSerialize (big_text m) = canonicalSerialize (big_text n) \<longleftrightarrow> m = n"
  by (simp add: big_text_def)

lemma inj_text: "(\<And>a b. canonicalSerialize (f a) = canonicalSerialize (f b) \<longleftrightarrow> a = b) \<Longrightarrow>
    map (canonicalSerialize \<circ> f) xs = map (canonicalSerialize \<circ> f) ys \<longleftrightarrow> xs = ys"
  by (intro inj_map_eq_map injI) simp

lemma account_value_inj: "canonicalSerialize (account_value a) = canonicalSerialize (account_value b) \<longleftrightarrow> a = b"
  unfolding account_value_def by (subst canonicalSerialize_same_keys) (cases a; cases b; auto simp: null_or_inj)+

lemma delta_value_inj: "canonicalSerialize (delta_value a) = canonicalSerialize (delta_value b) \<longleftrightarrow> a = b"
  unfolding delta_value_def by (subst canonicalSerialize_same_keys) (cases a; cases b; auto)+

lemma capabilities_value_inj: "canonicalSerialize (capabilities_value a) = canonicalSerialize (capabilities_value b) \<longleftrightarrow> a = b"
  unfolding capabilities_value_def by (subst canonicalSerialize_same_keys) (cases a; cases b; auto)+

text \<open>
  The text that is hashed into simulation evidence determines everything that was observed: the
  message, the slot, fees, logs, account states, asset movements and what the node could tell.
\<close>

theorem evidence_binds:
  "canonicalSerialize (evidence_value a) = canonicalSerialize (evidence_value b) \<longleftrightarrow> a = b"
  unfolding evidence_value_def
  by (subst canonicalSerialize_same_keys)
    (cases a; cases b; simp add: capabilities_value_inj inj_text [OF account_value_inj] inj_text [OF delta_value_inj]
      strings_text_inj)+

section \<open>The gateway's order of effects\<close>

lemma wp_memE [wp_simps]: "wp (memE f) Q E s = Q (fst (f (ho_store s))) (s\<lparr> ho_store := snd (f (ho_store s)) \<rparr>)"
  by (simp add: wp_def memE_def split: prod.split)

lemma wp_call_sign [wp_simps]:
  "wp (call_sign i r) Q E s = (case r of Inl e \<Rightarrow> E e (s\<lparr> ho_signs := ho_signs s @ [i] \<rparr>) | Inr x \<Rightarrow> Q x (s\<lparr> ho_signs := ho_signs s @ [i] \<rparr>))"
  by (simp add: wp_def call_sign_def)

lemma wp_call_broadcast [wp_simps]:
  "wp (call_broadcast i w r) Q E s =
     (let t = s\<lparr> ho_sent := ho_sent s @ [(i, w, mem_get i (ho_store s))] \<rparr> in case r of Inl e \<Rightarrow> E e t | Inr x \<Rightarrow> Q x t)"
  by (simp add: wp_def call_broadcast_def Let_def)

lemma wp_move [wp_simps]:
  "wp (move i src dst data n) Q E s =
     Q (mr_states (ho_store s) i = Some src) (s\<lparr> ho_store := snd (mem_transition i src dst (Some data) n (ho_store s)) \<rparr>)"
  by (simp add: move_def wp_memE memory.transition_won)

definition keeps :: "HostState \<Rightarrow> HostState \<Rightarrow> bool" where
  "keeps s t \<longleftrightarrow> (\<forall>j. mr_states (ho_store s) j \<noteq> None \<longrightarrow> mr_states (ho_store t) j \<noteq> None)"

lemma keeps_refl [simp]: "keeps s s"
  by (simp add: keeps_def)

lemma keeps_trans: "keeps s t \<Longrightarrow> keeps t u \<Longrightarrow> keeps s u"
  by (simp add: keeps_def)

lemma keeps_logs [simp]:
  "keeps s (t\<lparr> ho_signs := l \<rparr>) = keeps s t" "keeps s (t\<lparr> ho_sent := m \<rparr>) = keeps s t"
  by (simp_all add: keeps_def)

lemma keeps_move: "keeps s t \<Longrightarrow> keeps s (t\<lparr> ho_store := snd (mem_transition i src dst d n (ho_store t)) \<rparr>)"
  by (simp add: keeps_def memory.transition_state)

lemma keeps_consume: "keeps s t \<Longrightarrow> keeps s (t\<lparr> ho_store := snd (mem_consume i x n (ho_store t)) \<rparr>)"
  by (simp add: keeps_def memory.consume_state)

definition same_logs :: "HostState \<Rightarrow> HostState \<Rightarrow> bool" where
  "same_logs s t \<longleftrightarrow> ho_signs t = ho_signs s \<and> ho_sent t = ho_sent s"

lemma keeps_consume_move:
  "keeps s (s\<lparr> ho_store := snd (mem_transition j src dst d n (snd (mem_consume i x m (ho_store s)))) \<rparr>)"
  using keeps_move [OF keeps_consume [OF keeps_refl], of s j src dst d n i x m] by simp

lemma host_verify_spec:
  "wp (host_verify p w wire env n)
     (\<lambda>_ t. mr_states (ho_store s) (ac_id (ae_claims env)) = None \<and> mr_states (ho_store t) (ac_id (ae_claims env)) = Some Ex_claimed \<and>
        keeps s t \<and> same_logs s t)
     (\<lambda>_ t. keeps s t \<and> same_logs s t) s"
  by (auto simp: host_verify_def Let_def wp_simps memory.consume_state same_logs_def keeps_consume_move keeps_consume
      dest: memory.consume_new split: sum.split option.split)

definition persisted_entry :: "string \<times> string \<times> (ExecutionState \<times> json option) option \<Rightarrow> bool" where
  "persisted_entry x \<longleftrightarrow> (case x of (i, wire, v) \<Rightarrow>
     (case v of Some (st, Some data) \<Rightarrow> st = Ex_signed \<and> text_prop ''transaction'' data = Some wire | _ \<Rightarrow> False))"

definition host_ok :: "HostState \<Rightarrow> bool" where
  "host_ok s \<longleftrightarrow> distinct (ho_signs s) \<and> (\<forall>i \<in> set (ho_signs s). mr_states (ho_store s) i \<noteq> None) \<and>
     list_all persisted_entry (ho_sent s)"

lemma mem_get_signed:
  "mr_states m i = Some src \<Longrightarrow> mem_get i (snd (mem_transition i src dst (Some d) n m)) = Some (dst, Some d)"
  by (simp add: mem_get_def mem_transition_def)

definition signing :: "string \<Rightarrow> HostState \<Rightarrow> HostState \<Rightarrow> bool" where
  "signing i s t \<longleftrightarrow> keeps s t \<and> ho_signs t = ho_signs s @ [i] \<and> mr_states (ho_store t) i \<noteq> None \<and>
     (ho_sent t = ho_sent s \<or> (\<exists>x. ho_sent t = ho_sent s @ [x] \<and> persisted_entry x))"

lemma host_ok_signing:
  assumes "host_ok s" "mr_states (ho_store s) i = None" "signing i s t"
  shows "host_ok t"
proof -
  have "i \<notin> set (ho_signs s)" using assms(1,2) by (auto simp: host_ok_def)
  then show ?thesis using assms by (auto simp: host_ok_def signing_def keeps_def)
qed

lemma signing_move: "signing i s t \<Longrightarrow> signing i s (t\<lparr> ho_store := snd (mem_transition j src dst d n (ho_store t)) \<rparr>)"
  by (auto simp: signing_def keeps_move memory.transition_state)

lemma finish_broadcast_spec:
  "signing i s t \<Longrightarrow> wp (finish_broadcast j r sig n) (\<lambda>_ u. signing i s u) (\<lambda>_ u. signing i s u) t"
  by (simp add: finish_broadcast_def wp_simps signing_move)

definition after_persist :: "string \<Rightarrow> string \<Rightarrow> HostState \<Rightarrow> HostState \<Rightarrow> bool" where
  "after_persist i wire s t \<longleftrightarrow> signing i s t \<and> ho_sent t = ho_sent s \<and>
     persisted_entry (i, wire, mem_get i (ho_store t))"

lemma persist_spec:
  assumes "signing i s t" "ho_sent t = ho_sent s" "mr_states (ho_store t) i = Some Ex_claimed"
  shows "wp (persist_signed p i r n) (\<lambda>_ u. after_persist i (ssr_transaction r) s u) (\<lambda>_ u. signing i s u) t"
  using assms
  by (simp add: persist_signed_def wp_simps after_persist_def signing_move mem_get_signed persisted_entry_def
      text_prop_def prop_of_def)

lemma call_broadcast_spec:
  assumes "after_persist i wire s t"
  shows "wp (catchE (call_broadcast i wire answer) (\<lambda>e. seqE (move i Ex_signed Ex_reconciliation (J_str e) n) (throwE e)))
     (\<lambda>_ u. signing i s u) (\<lambda>_ u. signing i s u) t"
proof -
  have "signing i s (t\<lparr> ho_sent := ho_sent t @ [(i, wire, mem_get i (ho_store t))] \<rparr>)"
    using assms by (auto simp: after_persist_def signing_def keeps_def)
  note sent = this signing_move [OF this]
  show ?thesis using sent(1) sent(2) [of i Ex_signed Ex_reconciliation] by (simp add: wp_simps Let_def split: sum.split)
qed


lemma host_ok_keeps: "host_ok s \<Longrightarrow> keeps s t \<Longrightarrow> same_logs s t \<Longrightarrow> host_ok t"
  by (auto simp: host_ok_def keeps_def same_logs_def)

lemma call_sign_spec:
  assumes "keeps s t" "same_logs s t" "mr_states (ho_store t) i = Some Ex_claimed"
  shows "wp (catchE (call_sign i answer) (\<lambda>e. seqE (move i Ex_claimed Ex_failed (J_str e) n) (throwE e)))
     (\<lambda>_ u. signing i s u \<and> ho_sent u = ho_sent s \<and> mr_states (ho_store u) i = Some Ex_claimed)
     (\<lambda>_ u. signing i s u) t"
proof -
  have signed: "signing i s (t\<lparr> ho_signs := ho_signs t @ [i] \<rparr>)"
    using assms by (simp add: signing_def same_logs_def keeps_def)
  show ?thesis
    using signed signing_move [OF signed, of i Ex_claimed Ex_failed] assms
    by (simp add: wp_simps same_logs_def split: sum.split)
qed

lemma release_spec:
  assumes "after_persist i (ssr_transaction r) s t"
  shows "wp (case ssr_broadcast r of
       Some sent \<Rightarrow> finish_broadcast i r sent n
     | None \<Rightarrow> bindE (catchE (call_broadcast i (ssr_transaction r) answer)
           (\<lambda>e. seqE (move i Ex_signed Ex_reconciliation (J_str e) n) (throwE e)))
         (\<lambda>signature. finish_broadcast i r signature n))
     (\<lambda>_ u. signing i s u) (\<lambda>_ u. signing i s u) t"
proof (cases "ssr_broadcast r")
  case None
  show ?thesis unfolding None option.case
    by (rule wp_bindI, rule wp_mono [OF call_broadcast_spec [OF assms]]) (auto intro: finish_broadcast_spec)
next
  case (Some sent)
  then show ?thesis using assms by (simp add: finish_broadcast_spec after_persist_def)
qed

lemma verified_execution_spec:
  assumes "host_ok s" "mr_states (ho_store s) i = None" "mr_states (ho_store t) i = Some Ex_claimed" "keeps s t" "same_logs s t"
  shows "wp (bindE (catchE (call_sign i asked)
              (\<lambda>e. seqE (move i Ex_claimed Ex_failed (J_str e) n) (throwE e))) (\<lambda>r.
           seqE (persist_signed p i r n)
          (bindE (case ssr_broadcast r of
               Some sent \<Rightarrow> finish_broadcast i r sent n
             | None \<Rightarrow>
                 bindE (catchE (call_broadcast i (ssr_transaction r) (send (ssr_transaction r)))
                   (\<lambda>e. seqE (move i Ex_signed Ex_reconciliation (J_str e) n) (throwE e))) (\<lambda>signature.
                 finish_broadcast i r signature n)) (\<lambda>signature. returnE (h, signature)))))
     (\<lambda>_. host_ok) (\<lambda>_. host_ok) t"
  by (rule wp_bindI, rule wp_mono [OF call_sign_spec [OF assms(4,5,3)]],
      rule wp_seqI, rule wp_mono [OF persist_spec], blast, blast, blast,
      rule wp_bindI, rule wp_mono [OF release_spec], assumption)
    (auto simp: wp_simps intro: host_ok_signing [OF assms(1,2)])

lemma gateway_execute_spec:
  assumes "host_ok s"
  shows "wp (gateway_execute p wire env n) (\<lambda>_. host_ok) (\<lambda>_. host_ok) s"
proof (cases "gd_wireVerifier p = None \<or> gd_sign p = None \<or> gd_broadcast p = None")
  case True
  then show ?thesis using assms by (auto simp: gateway_execute_def wp_simps split: option.split)
next
  case False
  then obtain w ask send where ports: "gd_wireVerifier p = Some w" "gd_sign p = Some ask" "gd_broadcast p = Some send"
    by auto
  have "wp (gateway_execute p wire env n) (\<lambda>_. host_ok) (\<lambda>_. host_ok) s" if "wire \<noteq> []"
    unfolding gateway_execute_def ports prod.case option.case Let_def
    by (rule wp_seqI, simp add: wp_guardE that, rule wp_bindI, rule wp_mono [OF host_verify_spec])
      (auto intro: verified_execution_spec [OF assms] host_ok_keeps [OF assms])
  then show ?thesis using assms by (cases "wire = []") (simp_all add: gateway_execute_def wp_simps)
qed

definition empty_host :: HostState where
  "empty_host = \<lparr> ho_store = empty_mem, ho_signs = [], ho_sent = [] \<rparr>"

fun run_gateway :: "(GatewayPorts \<times> string \<times> AuthorizationEnvelope \<times> int) list \<Rightarrow> HostState \<Rightarrow> HostState" where
  "run_gateway [] s = s"
| "run_gateway ((p, wire, env, n) # xs) s = run_gateway xs (snd (gateway_execute p wire env n s))"

lemma run_gateway_ok: "host_ok s \<Longrightarrow> host_ok (run_gateway xs s)"
proof (induction xs s rule: run_gateway.induct)
  case (2 p wire env n xs s)
  then show ?case using wp_result [OF gateway_execute_spec [OF 2(2)] prod.collapse [symmetric]]
    by (auto split: sum.splits)
qed simp

text \<open>
  C11: for every sequence of executions of the gateway from an empty replay store - any envelopes, any
  answers of the signer, the node and the clock, failures included - no authorization id is handed to the
  signer twice, and whenever bytes are broadcast the store already holds them as signed under that id.
\<close>

theorem gateway_signs_once:
  "distinct (ho_signs (run_gateway xs empty_host)) \<and> list_all persisted_entry (ho_sent (run_gateway xs empty_host))"
  using run_gateway_ok [of empty_host xs] by (simp add: host_ok_def empty_host_def)


section \<open>Safe simulations\<close>

lemma check_deltas_accepted:
  "check_deltas allowed ds seen = Inr () \<longleftrightarrow>
     distinct (map delta_key ds) \<and> set (map delta_key ds) \<inter> set seen = {} \<and> set (map ad_asset ds) \<subseteq> set allowed"
  by (induction ds arbitrary: seen) auto

text \<open>
  A simulation is accepted exactly when it succeeded on a node that could read balances, fees, logs and
  lookup tables, it is of the expected message, its slot is neither ahead of the current one nor more than
  the allowed lag behind, its blockhash is alive, and every asset movement is reported once and of an
  allowed asset.
\<close>

theorem simulation_accepted:
  "assertSimulationSafe L r x = Inr () \<longleftrightarrow>
     (let b = sl_body r; c = eb_capabilities b in
      sl_success r \<and> cp_balances c \<and> cp_fee c \<and> cp_logs c \<and> cp_addressTableLookups c \<and> isPublicKey L (eb_blockhash b) \<and>
      js_lower (eb_messageHash b) = js_lower (sx_expectedMessageHash x) \<and>
      eb_slot b \<in> {sx_currentSlot x - sx_maxSlotLag x .. sx_currentSlot x} \<and> \<not> height_passed x \<and>
      distinct (map delta_key (eb_assetDeltas b)) \<and> set (map ad_asset (eb_assetDeltas b)) \<subseteq> set (sx_allowedAssets x))"
  by (auto simp: assertSimulationSafe_def Let_def check_deltas_accepted)

end
