(* ===== verification/Frames.thy ===== *)
theory Frames
  imports SignerTx
begin

text \<open>
  \<open>JsonFrameDecoder\<close> of \<open>src/src/signer/index.ts\<close>: newline-delimited JSON on the signer's socket.
  Bytes arrive in chunks of any size; \<open>parse\<close> is \<open>JSON.parse\<close> of a line's UTF-8 text. The state is
  the pending bytes, which stay as they are at the moment a push throws.
\<close>

section \<open>The decoder\<close>

definition before_newline :: "bytes \<Rightarrow> bytes" where
  "before_newline bs = takeWhile (\<lambda>b. b \<noteq> 10) bs"

definition after_newline :: "bytes \<Rightarrow> bytes" where
  "after_newline bs = tl (dropWhile (\<lambda>b. b \<noteq> 10) bs)"

lemma after_newline_shorter [termination_simp]: "10 \<in> set bs \<Longrightarrow> length (after_newline bs) < length bs"
  by (induction bs) (auto simp: after_newline_def)

fun push_loop :: "(bytes \<Rightarrow> json option) \<Rightarrow> nat \<Rightarrow> bytes \<Rightarrow> json list \<Rightarrow> (string + json list) \<times> bytes" where
  "push_loop parse limit pending out =
     (if 10 \<notin> set pending then (Inr out, pending)
      else if length (before_newline pending) > limit then (Inl ''frame_too_large'', pending)
      else if before_newline pending = [] then push_loop parse limit (after_newline pending) out
      else case parse (before_newline pending) of
        None \<Rightarrow> (Inl ''frame_json_invalid'', after_newline pending)
      | Some v \<Rightarrow> push_loop parse limit (after_newline pending) (out @ [v]))"

declare push_loop.simps [simp del]

definition push :: "(bytes \<Rightarrow> json option) \<Rightarrow> nat \<Rightarrow> bytes \<Rightarrow> bytes \<Rightarrow> (string + json list) \<times> bytes" where
  "push parse limit chunk pending =
     (let p = pending @ chunk in
      if length p > limit \<and> 10 \<notin> set p then (Inl ''frame_too_large'', p) else push_loop parse limit p [])"

text \<open>A connection feeds its chunks until one push throws.\<close>

fun feed :: "(bytes \<Rightarrow> json option) \<Rightarrow> nat \<Rightarrow> bytes list \<Rightarrow> bytes \<Rightarrow> (json list \<times> bytes) option" where
  "feed parse limit [] pending = Some ([], pending)"
| "feed parse limit (c # cs) pending =
     (case push parse limit c pending of
        (Inl _, _) \<Rightarrow> None
      | (Inr out, rest) \<Rightarrow> (case feed parse limit cs rest of None \<Rightarrow> None | Some (outs, r) \<Rightarrow> Some (out @ outs, r)))"

section \<open>The stream as a whole\<close>

fun split_lines :: "bytes \<Rightarrow> bytes list \<times> bytes" where
  "split_lines [] = ([], [])"
| "split_lines (b # bs) =
     (case split_lines bs of (ls, r) \<Rightarrow>
        if b = 10 then ([] # ls, r)
        else (case ls of [] \<Rightarrow> ([], b # r) | l # ls' \<Rightarrow> ((b # l) # ls', r)))"

fun parse_lines :: "(bytes \<Rightarrow> json option) \<Rightarrow> nat \<Rightarrow> bytes list \<Rightarrow> json list option" where
  "parse_lines parse limit [] = Some []"
| "parse_lines parse limit (l # ls) =
     (if length l > limit then None
      else if l = [] then parse_lines parse limit ls
      else case parse l of
        None \<Rightarrow> None
      | Some v \<Rightarrow> map_option (\<lambda>vs. v # vs) (parse_lines parse limit ls))"

definition frames :: "(bytes \<Rightarrow> json option) \<Rightarrow> nat \<Rightarrow> bytes \<Rightarrow> (json list \<times> bytes) option" where
  "frames parse limit bs = (case split_lines bs of (ls, r) \<Rightarrow> map_option (\<lambda>vs. (vs, r)) (parse_lines parse limit ls))"

lemma split_lines_rest: "10 \<notin> set (snd (split_lines bs))"
  by (induction bs) (auto split: prod.split list.split)

lemma split_lines_none: "10 \<notin> set bs \<Longrightarrow> split_lines bs = ([], bs)"
  by (induction bs) auto

lemma split_lines_cons:
  "10 \<in> set bs \<Longrightarrow> split_lines bs = (case split_lines (after_newline bs) of (ls, r) \<Rightarrow> (before_newline bs # ls, r))"
proof (induction bs)
  case (Cons b bs)
  show ?case
  proof (cases "b = 10")
    case False
    then have n: "10 \<in> set bs" using Cons.prems by simp
    obtain ls r where "split_lines (after_newline bs) = (ls, r)" by fastforce
    then show ?thesis using False Cons.IH [OF n] by (simp add: before_newline_def after_newline_def)
  qed (simp add: before_newline_def after_newline_def)
qed simp

lemma split_lines_append:
  "split_lines (a @ b) = (case split_lines a of (la, ra) \<Rightarrow> case split_lines (ra @ b) of (lb, rb) \<Rightarrow> (la @ lb, rb))"
proof (induction a)
  case (Cons x a)
  obtain la ra where a: "split_lines a = (la, ra)" by fastforce
  obtain lb rb where b: "split_lines (ra @ b) = (lb, rb)" by fastforce
  show ?case
    by (cases la; cases lb) (use Cons.IH a b in auto)
qed simp

lemma parse_lines_append:
  "parse_lines parse limit (xs @ ys) =
     (case parse_lines parse limit xs of None \<Rightarrow> None
      | Some vs \<Rightarrow> (case parse_lines parse limit ys of None \<Rightarrow> None | Some ws \<Rightarrow> Some (vs @ ws)))"
  by (induction xs) (auto split: option.split)

lemma push_loop_frames:
  "(case push_loop parse limit bs out of (Inl _, _) \<Rightarrow> None | (Inr vs, r) \<Rightarrow> Some (vs, r)) =
     map_option (\<lambda>(vs, r). (out @ vs, r)) (frames parse limit bs)"
proof (induction parse limit bs out rule: push_loop.induct)
  case (1 parse limit bs out)
  show ?case
  proof (cases "10 \<in> set bs")
    case False
    then show ?thesis by (subst push_loop.simps) (simp add: frames_def split_lines_none)
  next
    case True
    obtain ls r where s: "split_lines (after_newline bs) = (ls, r)" by fastforce
    show ?thesis
      using 1 True
      by (subst push_loop.simps)
        (auto simp: frames_def split_lines_cons s option.map_comp comp_def split: option.split)
  qed
qed

lemma feed_frames:
  assumes "10 \<notin> set p" and "length (snd (split_lines (p @ concat cs))) \<le> limit"
  shows "feed parse limit cs p = frames parse limit (p @ concat cs)"
  using assms
proof (induction cs arbitrary: p)
  case Nil
  then show ?case by (simp add: frames_def split_lines_none)
next
  case (Cons c cs)
  let ?q = "p @ c"
  obtain ls r where q: "split_lines ?q = (ls, r)" by fastforce
  obtain ls' r' where t: "split_lines (r @ concat cs) = (ls', r')" by fastforce
  have whole: "split_lines (?q @ concat cs) = (ls @ ls', r')"
    using split_lines_append [of ?q "concat cs"] q t by simp
  have "10 \<notin> set r" using split_lines_rest [of ?q] q by simp
  then have IH: "feed parse limit cs r = frames parse limit (r @ concat cs)"
    using Cons.IH [of r] Cons.prems(2) whole t by simp
  show ?case
  proof (cases "length ?q > limit \<and> 10 \<notin> set ?q")
    case True
    then have "ls = []" "r = ?q" using q split_lines_none by auto
    moreover have "10 \<in> set (concat cs)"
    proof (rule ccontr)
      assume "10 \<notin> set (concat cs)"
      then have "split_lines (?q @ concat cs) = ([], ?q @ concat cs)" using True by (intro split_lines_none) auto
      then show False using Cons.prems(2) True by simp
    qed
    moreover have before: "before_newline (?q @ concat cs) = ?q @ before_newline (concat cs)"
      using True unfolding before_newline_def by (intro takeWhile_append2) auto
    ultimately have "ls' = before_newline (?q @ concat cs) # tl ls'" and "length (before_newline (?q @ concat cs)) > limit"
      using t \<open>r = ?q\<close> split_lines_cons [of "?q @ concat cs"] True before
      by (auto split: prod.splits)
    then have "parse_lines parse limit ls' = None" by (metis parse_lines.simps(2))
    then show ?thesis using True whole \<open>ls = []\<close> by (simp add: push_def frames_def)
  next
    case False
    then have pl: "push parse limit c p = push_loop parse limit ?q []" by (auto simp: push_def Let_def)
    have loop: "(case push_loop parse limit ?q [] of (Inl _, _) \<Rightarrow> None | (Inr vs, r) \<Rightarrow> Some (vs, r)) =
        map_option (\<lambda>vs. (vs, r)) (parse_lines parse limit ls)"
      using push_loop_frames [of parse limit ?q "[]"] q
      by (simp add: frames_def option.map_comp comp_def option.map_ident case_prod_beta)
    have rest: "feed parse limit cs r = map_option (\<lambda>vs. (vs, r')) (parse_lines parse limit ls')"
      using IH t by (simp add: frames_def)
    show ?thesis
    proof (cases "parse_lines parse limit ls")
      case None
      then obtain e u where "push_loop parse limit ?q [] = (Inl e, u)"
        using loop by (auto split: prod.splits sum.splits)
      then show ?thesis using None pl whole by (simp add: frames_def parse_lines_append)
    next
      case (Some vs)
      then have "push_loop parse limit ?q [] = (Inr vs, r)"
        using loop by (auto split: prod.splits sum.splits)
      then show ?thesis using Some pl whole rest
        by (simp add: frames_def parse_lines_append split: option.split)
    qed
  qed
qed

text \<open>
  How the socket cuts the stream does not matter: as long as the bytes after the last newline fit
  the limit, feeding any chunks gives what splitting the whole stream at its newlines gives, the
  messages of its non-empty lines in order and the unfinished rest, and it fails exactly when some
  line is longer than the limit or not JSON.
\<close>

theorem frames_chunking:
  assumes "length (snd (split_lines (concat chunks))) \<le> limit"
  shows "feed parse limit chunks [] = frames parse limit (concat chunks)"
  using feed_frames [of "[]" chunks limit parse] assms by simp

theorem frames_chunking_witness:
  "feed (\<lambda>_. Some J_null) 4 [[1, 2], [3, 10, 10, 5], [10, 6]] [] = Some ([J_null, J_null], [6])"
proof -
  have "length (snd (split_lines (concat [[1, 2], [3, 10, 10, 5], [10, 6]]))) \<le> 4" by simp
  from frames_chunking [OF this, of "\<lambda>_. Some J_null"] show ?thesis by (simp add: frames_def)
qed

end
