(* ===== verification/Doubles.thy ===== *)
theory Doubles
  imports Prelude "HOL-Library.Log_Nat"
begin

text \<open>
  The arithmetic of JavaScript numbers: the rounding of a rational to the nearest double, ties to even,
  with subnormal numbers and overflow to an infinity, and the four operations as the rounded exact ones.
  Rounding is monotone and exact on what a double represents; the proofs about the guards use nothing
  else of it. Zero has no sign here: \<open>1 / -0\<close> does not occur in the code modelled.
\<close>

section \<open>Rounding\<close>

definition exponent_of :: "rat \<Rightarrow> int" where
  "exponent_of q = (case quotient_of q of (n, d) \<Rightarrow>
     let e = bitlen n - bitlen d in if 2 powi e \<le> q then e else e - 1)"

definition round_even :: "rat \<Rightarrow> int" where
  "round_even q = (let f = \<lfloor>q\<rfloor>; r = q - of_int f in if r < 1 / 2 \<or> r = 1 / 2 \<and> even f then f else f + 1)"

definition ulp :: "rat \<Rightarrow> rat" where
  "ulp q = 2 powi (max (exponent_of q - 52) (- 1074))"

definition dbl_pos :: "rat \<Rightarrow> rat" where
  "dbl_pos q = of_int (round_even (q / ulp q)) * ulp q"

definition dbl :: "rat \<Rightarrow> jsnum" where
  "dbl q = (if q = 0 then JNum 0
     else let v = dbl_pos \<bar>q\<bar> in if 2 ^ 1024 \<le> v then JInf (q < 0) else JNum (sgn q * v))"

lemma exponent_bounds:
  assumes "0 < q"
  shows "2 powi exponent_of q \<le> q" and "q < 2 powi (exponent_of q + 1)"
proof -
  obtain n d where q: "quotient_of q = (n, d)" by (cases "quotient_of q")
  then have d: "0 < d" and eq: "q = of_int n / of_int d"
    by (simp_all add: quotient_of_denom_pos quotient_of_div)
  then have n: "0 < n" using assms by (simp add: zero_less_divide_iff)
  have pos: "1 \<le> bitlen n" "1 \<le> bitlen d" using n d bitlen_nonneg bitlen_eq_zero_iff
    by (metis less_le_not_le int_one_le_iff_zero_less order_le_less)+
  have powi: "(2::rat) powi k = of_int (2 ^ nat k)" if "0 \<le> k" for k :: int
    using that by (simp add: power_int_def)
  have lo: "(2::rat) powi (bitlen x - 1) \<le> of_int x" and hi: "of_int x < (2::rat) powi bitlen x" if "0 < x" "1 \<le> bitlen x" for x
    using bitlen_bounds [OF that(1)] that(2) by (simp_all only: powi of_int_le_iff of_int_less_iff)
  define e where "e = bitlen n - bitlen d"
  have split: "(2::rat) powi (bitlen n - 1 - bitlen d) = 2 powi (bitlen n - 1) / 2 powi bitlen d"
    "(2::rat) powi (e + 1) = 2 powi bitlen n / 2 powi (bitlen d - 1)"
    by (simp_all add: e_def power_int_diff power_int_add)
  have "2 powi (bitlen n - 1 - bitlen d) \<le> q"
    unfolding split eq using n d pos lo hi by (intro frac_le) (auto intro: less_imp_le)
  moreover have "q < 2 powi (e + 1)"
    unfolding split eq using n d pos lo hi by (intro frac_less) auto
  ultimately show "2 powi exponent_of q \<le> q" and "q < 2 powi (exponent_of q + 1)"
    by (auto simp: exponent_of_def q e_def Let_def algebra_simps not_le)
qed

lemma exponent_mono:
  assumes "0 < p" "p \<le> q"
  shows "exponent_of p \<le> exponent_of q"
proof (rule ccontr)
  assume "\<not> ?thesis"
  then have "(2::rat) powi (exponent_of q + 1) \<le> 2 powi exponent_of p" by (intro power_int_increasing) auto
  also have "\<dots> \<le> p" using exponent_bounds assms(1) by blast
  also have "\<dots> < 2 powi (exponent_of q + 1)" using exponent_bounds(2) [of q] assms by linarith
  finally show False by simp
qed

lemma round_even_int [simp]: "round_even (of_int n) = n"
  by (simp add: round_even_def)

lemma round_even_near: "\<lfloor>q\<rfloor> \<le> round_even q" "round_even q \<le> \<lfloor>q\<rfloor> + 1"
  by (simp_all add: round_even_def Let_def)

lemma round_even_mono:
  assumes "p \<le> q"
  shows "round_even p \<le> round_even q"
proof (cases "\<lfloor>p\<rfloor> = \<lfloor>q\<rfloor>")
  case True
  then show ?thesis using assms by (auto simp: round_even_def Let_def)
next
  case False
  then have "\<lfloor>p\<rfloor> + 1 \<le> \<lfloor>q\<rfloor>" using floor_mono [OF assms] by simp
  then show ?thesis using round_even_near [of p] round_even_near [of q] by linarith
qed

lemma ulp_pos [simp]: "0 < ulp q"
  by (simp add: ulp_def)

lemma ulp_mono: "0 < p \<Longrightarrow> p \<le> q \<Longrightarrow> ulp p \<le> ulp q"
  unfolding ulp_def using exponent_mono [of p q] by (intro power_int_increasing) auto

lemma powi_int: "0 \<le> k \<Longrightarrow> \<exists>m. (2::rat) powi k = of_int m"
  by (intro exI [of _ "2 ^ nat k"]) (simp add: power_int_def)

lemma dbl_pos_below: "q \<le> of_int m * ulp q \<Longrightarrow> dbl_pos q \<le> of_int m * ulp q"
  using round_even_mono [of "q / ulp q" "of_int m"] by (simp add: dbl_pos_def pos_divide_le_eq)

lemma dbl_pos_above: "of_int m * ulp q \<le> q \<Longrightarrow> of_int m * ulp q \<le> dbl_pos q"
  using round_even_mono [of "of_int m" "q / ulp q"] by (simp add: dbl_pos_def pos_le_divide_eq)

lemma dbl_pos_mono:
  assumes "0 < p" "p \<le> q"
  shows "dbl_pos p \<le> dbl_pos q"
proof (cases "ulp p = ulp q")
  case True
  have "round_even (p / ulp q) \<le> round_even (q / ulp q)" using assms by (intro round_even_mono divide_right_mono) (auto intro: less_imp_le)
  then show ?thesis using True by (simp add: dbl_pos_def)
next
  case False
  define e where "e = exponent_of q"
  have less: "exponent_of p < e" "- 1074 \<le> e - 52"
    using False exponent_mono [OF assms] by (cases "exponent_of p = exponent_of q"; auto simp: ulp_def e_def max_def split: if_splits)+
  have up: "\<exists>m. (2::rat) powi e = of_int m * ulp r" if "exponent_of r \<le> e" for r
  proof -
    have "0 \<le> e - max (exponent_of r - 52) (- 1074)" using that less by auto
    then obtain m where "(2::rat) powi (e - max (exponent_of r - 52) (- 1074)) = of_int m"
      using powi_int by blast
    then show ?thesis by (intro exI [of _ m]) (simp add: ulp_def power_int_diff field_simps)
  qed
  obtain m where m: "(2::rat) powi e = of_int m * ulp p" using up less by fastforce
  obtain n where n: "(2::rat) powi e = of_int n * ulp q" using up [of q] by (auto simp: e_def)
  have "p \<le> 2 powi e"
  proof -
    have "(2::rat) powi (exponent_of p + 1) \<le> 2 powi e" using less by (intro power_int_increasing) auto
    then show ?thesis using exponent_bounds(2) [OF assms(1)] by linarith
  qed
  then have "dbl_pos p \<le> 2 powi e" using dbl_pos_below [of p m] m by simp
  also have "\<dots> \<le> dbl_pos q" using exponent_bounds(1) [of q] assms dbl_pos_above [of n q] n by (simp add: e_def)
  finally show ?thesis .
qed

lemma dbl_pos_nonneg: "0 < q \<Longrightarrow> 0 \<le> dbl_pos q"
  using dbl_pos_above [of 0 q] by simp

lemma dbl_sign: "q = 0 \<or> (\<exists>v \<ge> 0. dbl q = JNum (sgn q * v)) \<or> dbl q = JInf (q < 0)"
  using dbl_pos_nonneg [of "\<bar>q\<bar>"] by (auto simp: dbl_def Let_def)

lemma dbl_mono:
  assumes "p \<le> q"
  shows "\<not> js_lt (dbl q) (dbl p)"
proof -
  consider "0 < p" | "q < 0" | "p \<le> 0" "0 \<le> q" by linarith
  then show ?thesis
  proof cases
    case 1
    then show ?thesis using assms dbl_pos_mono [of p q] by (auto simp: dbl_def Let_def)
  next
    case 2
    then show ?thesis using assms dbl_pos_mono [of "- q" "- p"] by (auto simp: dbl_def Let_def)
  next
    case 3
    then show ?thesis using dbl_sign [of p] dbl_sign [of q]
      by (auto simp: sgn_if mult_less_0_iff dbl_def [of 0] split: if_splits)
  qed
qed

lemma dbl_representable:
  assumes q: "q = of_int m * 2 powi k" and m: "\<bar>m\<bar> < 2 ^ 53" and k: "- 1074 \<le> k" and small: "\<bar>q\<bar> < 2 ^ 1024"
  shows "dbl q = JNum q"
proof (cases "q = 0")
  case False
  define a where "a = \<bar>q\<bar>"
  have a: "a = of_int \<bar>m\<bar> * 2 powi k" "0 < a" using False q by (simp_all add: a_def abs_mult)
  have "exponent_of a < 53 + k"
  proof (rule ccontr)
    assume "\<not> ?thesis"
    then have "(2::rat) powi (53 + k) \<le> 2 powi exponent_of a" by (intro power_int_increasing) auto
    also have "\<dots> \<le> of_int \<bar>m\<bar> * 2 powi k" using exponent_bounds(1) a by metis
    finally have "(2::rat) powi 53 \<le> of_int \<bar>m\<bar>" by (simp add: power_int_add)
    moreover have "(of_int \<bar>m\<bar> :: rat) < of_int (2 ^ 53)" using m by (simp only: of_int_less_iff)
    ultimately show False by (simp add: power_int_def)
  qed
  then have "0 \<le> k - max (exponent_of a - 52) (- 1074)" using k by auto
  then obtain j where "(2::rat) powi (k - max (exponent_of a - 52) (- 1074)) = of_int j"
    using powi_int by blast
  then have "(2::rat) powi k = of_int j * ulp a" by (simp add: ulp_def power_int_diff field_simps)
  then have "a = of_int (\<bar>m\<bar> * j) * ulp a" using a by simp
  then have "a / ulp a = of_int (\<bar>m\<bar> * j)" by (metis less_irrefl nonzero_mult_div_cancel_right ulp_pos)
  then have "dbl_pos a = of_int (\<bar>m\<bar> * j) * ulp a" by (simp only: dbl_pos_def round_even_int)
  then have "dbl_pos a = a" using \<open>a = of_int (\<bar>m\<bar> * j) * ulp a\<close> by simp
  then show ?thesis using small False by (simp add: dbl_def a_def [symmetric] Let_def) (simp add: a_def sgn_mult_abs)
qed (simp add: dbl_def)

lemma dbl_int: "\<bar>n\<bar> < 2 ^ 53 \<Longrightarrow> dbl (of_int n) = JNum (of_int n)"
proof -
  assume n: "\<bar>n\<bar> < 2 ^ 53"
  have "\<bar>of_int n :: rat\<bar> < of_int (2 ^ 53)" using n by (simp only: of_int_less_iff flip: of_int_abs)
  also have "of_int (2 ^ 53) < (2 ^ 1024 :: rat)" by simp
  finally show ?thesis using n by (intro dbl_representable [of _ n 0]) simp_all
qed

section \<open>Arithmetic\<close>

fun fl_neg :: "jsnum \<Rightarrow> jsnum" where
  "fl_neg (JNum a) = JNum (- a)"
| "fl_neg (JInf s) = JInf (\<not> s)"
| "fl_neg JNaN = JNaN"

fun fl_abs :: "jsnum \<Rightarrow> jsnum" where
  "fl_abs (JNum a) = JNum \<bar>a\<bar>"
| "fl_abs (JInf s) = JInf False"
| "fl_abs JNaN = JNaN"

fun fl_add :: "jsnum \<Rightarrow> jsnum \<Rightarrow> jsnum" where
  "fl_add (JNum a) (JNum b) = dbl (a + b)"
| "fl_add a b = js_add a b"

definition fl_sub :: "jsnum \<Rightarrow> jsnum \<Rightarrow> jsnum" where
  "fl_sub a b = fl_add a (fl_neg b)"

fun fl_mul :: "jsnum \<Rightarrow> jsnum \<Rightarrow> jsnum" where
  "fl_mul (JNum a) (JNum b) = dbl (a * b)"
| "fl_mul (JInf s) (JNum b) = (if b = 0 then JNaN else JInf (s \<noteq> (b < 0)))"
| "fl_mul (JNum a) (JInf s) = (if a = 0 then JNaN else JInf (s \<noteq> (a < 0)))"
| "fl_mul (JInf s) (JInf t) = JInf (s \<noteq> t)"
| "fl_mul _ _ = JNaN"

fun fl_div :: "jsnum \<Rightarrow> jsnum \<Rightarrow> jsnum" where
  "fl_div (JNum a) (JNum b) = (if b \<noteq> 0 then dbl (a / b) else if a = 0 then JNaN else JInf (a < 0))"
| "fl_div (JInf s) (JNum b) = JInf (s \<noteq> (b < 0))"
| "fl_div (JNum a) (JInf s) = JNum 0"
| "fl_div _ _ = JNaN"

definition js_le :: "jsnum \<Rightarrow> jsnum \<Rightarrow> bool" where
  "js_le a b \<longleftrightarrow> a \<noteq> JNaN \<and> b \<noteq> JNaN \<and> \<not> js_lt b a"

abbreviation js_ge :: "jsnum \<Rightarrow> jsnum \<Rightarrow> bool" where
  "js_ge a b \<equiv> js_le b a"

fun js_isInteger :: "jsnum \<Rightarrow> bool" where
  "js_isInteger (JNum a) = (of_int \<lfloor>a\<rfloor> = a)"
| "js_isInteger _ = False"

lemma js_le_JNum [simp]: "js_le (JNum a) (JNum b) \<longleftrightarrow> a \<le> b"
  by (simp add: js_le_def not_less)

lemma dbl_not_NaN [simp]: "dbl q \<noteq> JNaN"
  by (simp add: dbl_def Let_def)

lemma dbl_le: "p \<le> q \<Longrightarrow> js_le (dbl p) (dbl q)"
  by (simp add: js_le_def dbl_mono)

lemma js_isFinite_JNum: "js_isFinite x \<longleftrightarrow> (\<exists>q. x = JNum q)"
  by (cases x) simp_all

lemma dbl_finite_nonneg: "dbl q = JNum v \<Longrightarrow> 0 \<le> q \<Longrightarrow> 0 \<le> v"
  using dbl_le [of 0 q] by (simp add: dbl_def [of 0])

lemma dbl_numeral: "(numeral k :: int) < 2 ^ 53 \<Longrightarrow> dbl (numeral k) = JNum (numeral k)"
  using dbl_int [of "numeral k"] by simp

lemma dbl_half: "dbl (1 / 2) = JNum (1 / 2)"
  by (rule dbl_representable [of _ 1 "- 1"]) (simp_all add: power_int_def)

end
