(* ===== verification/Jobs.thy ===== *)
theory Jobs
  imports Doubles Json
begin

text \<open>
  \<open>src/src/autonomy/jobs/index.ts\<close>: the durable job queue. A job is claimed under a lease with a fencing
  token, kept alive by heartbeats, and completed, failed, cancelled or recovered when its lease runs out;
  every attempt is a row of an append-only table. The clock's reading is the argument \<open>now\<close>, the random
  number of the jitter \<open>rnd\<close>, \<open>JSON.parse\<close> the parameter \<open>P\<close>, and a registered schema a function from a
  payload to the parsed payload or the message of its error.
\<close>

section \<open>State\<close>

datatype JobStatus =
    Js_scheduled | Js_queued | Js_running | Js_succeeded | Js_failed | Js_cancelled | Js_dead_letter

datatype AttemptOutcome = Ao_succeeded | Ao_failed | Ao_cancelled

record JobRow =
  jr_id :: string
  jr_type :: string
  jr_payload :: string
  jr_status :: JobStatus
  jr_scheduledAt :: int
  jr_attempts :: int
  jr_max :: int
  jr_key :: "string option"
  jr_backoff :: int
  jr_jitter :: rat
  jr_worker :: "string option"
  jr_token :: int
  jr_lease :: "int option"
  jr_cancel :: bool
  jr_result :: "string option"
  jr_error :: "string option"
  jr_created :: int
  jr_updated :: int

record AttemptRow =
  at_job :: string
  at_number :: int
  at_worker :: string
  at_token :: int
  at_started :: int
  at_finished :: "int option"
  at_outcome :: "AttemptOutcome option"
  at_error :: "string option"
  at_result :: "string option"

record Job =
  jb_id :: string
  jb_type :: string
  jb_payload :: json
  jb_status :: JobStatus
  jb_scheduledAt :: int
  jb_attemptCount :: int
  jb_maxAttempts :: int
  jb_resultRef :: "string option"
  jb_error :: "string option"
  jb_cancelRequested :: bool

record Lease =
  le_job :: Job
  le_workerId :: string
  le_fencingToken :: int
  le_expiresAt :: int

type_synonym schema = "json \<Rightarrow> string + json"

record Queue =
  q_jobs :: "JobRow list"
  q_attempts :: "AttemptRow list"
  q_schemas :: "string \<Rightarrow> schema option"
  q_draining :: bool
  q_closed :: bool

type_synonym 'a qop = "(Queue, string, 'a) eff"

definition empty_queue :: Queue where
  "empty_queue = \<lparr> q_jobs = [], q_attempts = [], q_schemas = Map.empty, q_draining = False, q_closed = False \<rparr>"

section \<open>Helpers\<close>

definition MAX_TEXT :: nat where "MAX_TEXT = 1000000"

definition validText :: "string \<Rightarrow> string \<Rightarrow> bool \<Rightarrow> unit qop" where
  "validText v name allowEmpty =
     guardE ((\<not> allowEmpty \<and> v = []) \<or> MAX_TEXT < length v) (''Invalid or too large '' @ name)"

text \<open>\<open>Buffer.byteLength\<close>: the bytes of the UTF-8 encoding.\<close>

definition byte_length :: "string \<Rightarrow> nat" where
  "byte_length t = sum_list (map (\<lambda>c. if (of_char c :: nat) < 128 then 1 else 2) t)"

definition canonical_payload :: "json \<Rightarrow> string + string" where
  "canonical_payload v =
     (let text = canonicalSerialize v in throwIf (MAX_TEXT < byte_length text) ''Payload too large'' (Inr text))"

definition open_guard :: "unit qop" where
  "open_guard = bindE (getE q_closed) (\<lambda>c. guardE c ''JobQueue is closed'')"

definition clock_guard :: "int \<Rightarrow> unit qop" where
  "clock_guard now = guardE (\<not> js_safe_integer now \<or> now < 0) ''Invalid clock timestamp''"

definition lease_guard :: "int \<Rightarrow> unit qop" where
  "lease_guard n = guardE (\<not> js_safe_integer n) ''Invalid lease''"

text \<open>An \<open>UPDATE\<close>, which answers the number of rows it changed.\<close>

definition update_jobs :: "(JobRow \<Rightarrow> bool) \<Rightarrow> (JobRow \<Rightarrow> JobRow) \<Rightarrow> nat qop" where
  "update_jobs W f = (\<lambda>s. (Inr (count_where W (q_jobs s)), s\<lparr> q_jobs := update_where W f (q_jobs s) \<rparr>))"

definition open_attempt :: "string \<Rightarrow> int \<Rightarrow> AttemptRow \<Rightarrow> bool" where
  "open_attempt i tok a \<longleftrightarrow> at_job a = i \<and> at_token a = tok \<and> at_finished a = None"

definition finish_attempt :: "string \<Rightarrow> int \<Rightarrow> (AttemptRow \<Rightarrow> AttemptRow) \<Rightarrow> nat qop" where
  "finish_attempt i tok f = (\<lambda>s. (Inr (count_where (open_attempt i tok) (q_attempts s)),
     s\<lparr> q_attempts := update_where (open_attempt i tok) f (q_attempts s) \<rparr>))"

text \<open>\<open>ORDER BY scheduled_at, created_at LIMIT 1\<close>: ties in the order of insertion.\<close>

definition earlier :: "JobRow \<Rightarrow> JobRow \<Rightarrow> bool" where
  "earlier p r \<longleftrightarrow> jr_scheduledAt p < jr_scheduledAt r \<or> jr_scheduledAt p = jr_scheduledAt r \<and> jr_created p < jr_created r"

fun first_job :: "JobRow list \<Rightarrow> JobRow option" where
  "first_job [] = None"
| "first_job (r # rs) = (case first_job rs of None \<Rightarrow> Some r | Some p \<Rightarrow> if earlier p r then Some p else Some r)"

definition raw_job :: "string \<Rightarrow> Queue \<Rightarrow> JobRow option" where
  "raw_job i s = find_where (\<lambda>r. jr_id r = i) (q_jobs s)"

text \<open>\<open>map\<close>\<close>

definition map_job :: "(string \<Rightarrow> json option) \<Rightarrow> JobRow \<Rightarrow> string + Job" where
  "map_job P r =
     (case P (jr_payload r) of
        None \<Rightarrow> Inl (''Corrupt payload JSON for job '' @ jr_id r)
      | Some v \<Rightarrow> Inr \<lparr> jb_id = jr_id r, jb_type = jr_type r, jb_payload = v, jb_status = jr_status r,
          jb_scheduledAt = jr_scheduledAt r, jb_attemptCount = jr_attempts r, jb_maxAttempts = jr_max r,
          jb_resultRef = jr_result r, jb_error = jr_error r, jb_cancelRequested = jr_cancel r \<rparr>)"

definition getRaw :: "(string \<Rightarrow> json option) \<Rightarrow> string \<Rightarrow> Job option qop" where
  "getRaw P i = bindE (getE (raw_job i)) (\<lambda>r.
     case r of None \<Rightarrow> returnE None | Some row \<Rightarrow> bindE (liftE (map_job P row)) (\<lambda>j. returnE (Some j)))"

definition get_job :: "(string \<Rightarrow> json option) \<Rightarrow> string \<Rightarrow> Job option qop" where
  "get_job P i = seqE open_guard (getRaw P i)"

section \<open>Enqueueing\<close>

definition register :: "string \<Rightarrow> schema \<Rightarrow> unit qop" where
  "register type sch =
     seqE open_guard (seqE (validText type ''job type'' False)
       (modifyE (\<lambda>s. s\<lparr> q_schemas := (q_schemas s)(type \<mapsto> sch) \<rparr>)))"

record EnqueueOptions =
  eo_id :: "string option"
  eo_idempotencyKey :: "string option"
  eo_scheduledAt :: "int option"
  eo_maxAttempts :: "int option"
  eo_backoffMs :: "int option"
  eo_jitter :: "jsnum option"

definition option_or :: "'a option \<Rightarrow> 'a \<Rightarrow> 'a" where
  "option_or v d = (case v of None \<Rightarrow> d | Some x \<Rightarrow> x)"

definition jitter_value :: "jsnum \<Rightarrow> rat" where
  "jitter_value j = (case j of JNum q \<Rightarrow> q | _ \<Rightarrow> 0)"

definition new_job :: "string \<Rightarrow> string \<Rightarrow> string \<Rightarrow> EnqueueOptions \<Rightarrow> int \<Rightarrow> JobRow" where
  "new_job i type text opts now =
     (let due = option_or (eo_scheduledAt opts) now in
      \<lparr> jr_id = i, jr_type = type, jr_payload = text, jr_status = (if due > now then Js_scheduled else Js_queued),
        jr_scheduledAt = due, jr_attempts = 0, jr_max = option_or (eo_maxAttempts opts) 3,
        jr_key = eo_idempotencyKey opts, jr_backoff = option_or (eo_backoffMs opts) 1000,
        jr_jitter = jitter_value (option_or (eo_jitter opts) (JNum 0)), jr_worker = None, jr_token = 0,
        jr_lease = None, jr_cancel = False, jr_result = None, jr_error = None, jr_created = now, jr_updated = now \<rparr>)"

definition bad_options :: "EnqueueOptions \<Rightarrow> int \<Rightarrow> bool" where
  "bad_options opts now \<longleftrightarrow>
     (let due = option_or (eo_scheduledAt opts) now; n = option_or (eo_maxAttempts opts) 3;
          back = option_or (eo_backoffMs opts) 1000; jitter = option_or (eo_jitter opts) (JNum 0) in
      \<not> js_safe_integer due \<or> due < 0 \<or> n < 1 \<or> \<not> js_safe_integer back \<or> back < 0 \<or>
      \<not> js_isFinite jitter \<or> js_lt jitter (JNum 0) \<or> js_gt jitter (JNum 1))"

text \<open>
  \<open>INSERT ... ON CONFLICT(idempotency_key) DO NOTHING\<close>; a \<open>NULL\<close> key conflicts with nothing, a used
  id violates the primary key.
\<close>

definition same_key :: "string option \<Rightarrow> JobRow \<Rightarrow> bool" where
  "same_key k r \<longleftrightarrow> k \<noteq> None \<and> jr_key r = k"

definition insert_job :: "JobRow \<Rightarrow> unit qop" where
  "insert_job r = bindE (getE q_jobs) (\<lambda>t.
     if exists_where (same_key (jr_key r)) t then returnE ()
     else if exists_where (\<lambda>x. jr_id x = jr_id r) t then throwE ''UNIQUE constraint failed: jobs.id''
     else modifyE (\<lambda>s. s\<lparr> q_jobs := q_jobs s @ [r] \<rparr>))"

text \<open>\<open>uuid\<close> is the answer of \<open>randomUUID\<close>.\<close>

definition enqueue :: "(string \<Rightarrow> json option) \<Rightarrow> string \<Rightarrow> json \<Rightarrow> EnqueueOptions \<Rightarrow> string \<Rightarrow> int \<Rightarrow> Job option qop" where
  "enqueue P type payload opts uuid now =
     seqE open_guard
     (bindE (getE (\<lambda>s. q_schemas s type)) (\<lambda>sch.
      case sch of
        None \<Rightarrow> throwE (''Unknown job type: '' @ type)
      | Some f \<Rightarrow>
         bindE (liftE (case f payload of Inl e \<Rightarrow> Inl (''Invalid job payload: '' @ e) | Inr v \<Rightarrow> Inr v)) (\<lambda>v.
         bindE (liftE (canonical_payload v)) (\<lambda>text.
         seqE (clock_guard now)
        (let i = option_or (eo_id opts) uuid in
         seqE (validText i ''job id'' False)
        (seqE (case eo_idempotencyKey opts of None \<Rightarrow> returnE () | Some k \<Rightarrow> validText k ''idempotency key'' False)
        (seqE (guardE (bad_options opts now) ''Invalid retry options'')
        (transactionE (seqE (insert_job (new_job i type text opts now))
          (case eo_idempotencyKey opts of
             None \<Rightarrow> getRaw P i
           | Some k \<Rightarrow> bindE (getE (\<lambda>s. find_where (same_key (Some k)) (q_jobs s))) (\<lambda>row.
               case row of
                 None \<Rightarrow> returnE None
               | Some r \<Rightarrow>
                   seqE (guardE (jr_type r \<noteq> type \<or> jr_payload r \<noteq> text) ''Idempotency key conflict'')
                  (bindE (liftE (map_job P r)) (\<lambda>j. returnE (Some j))))))))))))))"

section \<open>Claiming\<close>

definition lease_expired :: "int \<Rightarrow> JobRow \<Rightarrow> bool" where
  "lease_expired now r \<longleftrightarrow> jr_status r = Js_running \<and> (case jr_lease r of None \<Rightarrow> False | Some e \<Rightarrow> e \<le> now)"

definition held_with :: "string \<Rightarrow> int \<Rightarrow> JobRow \<Rightarrow> bool" where
  "held_with i tok r \<longleftrightarrow> jr_id r = i \<and> jr_status r = Js_running \<and> jr_token r = tok"

definition recovered_status :: "JobRow \<Rightarrow> JobStatus" where
  "recovered_status r =
     (if jr_cancel r then Js_cancelled else if jr_attempts r \<ge> jr_max r then Js_dead_letter else Js_queued)"

definition recover_lease :: "int \<Rightarrow> JobRow \<Rightarrow> unit qop" where
  "recover_lease now r =
     (let err = (if jr_cancel r then None else Some ''Lease expired'') in
      bindE (finish_attempt (jr_id r) (jr_token r) (\<lambda>a. a\<lparr> at_finished := Some now,
          at_outcome := Some (if jr_cancel r then Ao_cancelled else Ao_failed), at_error := err \<rparr>)) (\<lambda>n.
      seqE (guardE (n \<noteq> 1) ''Expired attempt missing or already finalized'')
     (bindE (update_jobs (held_with (jr_id r) (jr_token r)) (\<lambda>x. x\<lparr> jr_status := recovered_status r, jr_worker := None,
          jr_lease := None, jr_error := err, jr_updated := now \<rparr>)) (\<lambda>m.
      guardE (m \<noteq> 1) ''Lease recovery fencing conflict''))))"

lemma recovered_status_not_running [simp]: "recovered_status r \<noteq> Js_running"
  by (simp add: recovered_status_def)

lemma first_job_mem: "first_job rs = Some r \<Longrightarrow> r \<in> set rs"
  by (induction rs arbitrary: r) (auto split: option.splits if_splits)

lemma first_job_None [simp]: "first_job rs = None \<longleftrightarrow> rs = []"
  by (cases rs) (auto split: option.splits)

lemma count_where_update_less:
  assumes "\<And>x. x \<in> set t \<Longrightarrow> W x \<Longrightarrow> \<not> Q (f x)" and "r \<in> set t" "W r" "Q r"
  shows "count_where Q (update_where W f t) < count_where Q t"
proof -
  have le: "count_where Q (update_where W f u) \<le> count_where Q u" if "set u \<subseteq> set t" for u
    using that assms(1) by (induction u) auto
  obtain p u where t: "t = p @ r # u" using assms(2) by (auto simp: in_set_conv_decomp)
  have "count_where Q (update_where W f p) \<le> count_where Q p" "count_where Q (update_where W f u) \<le> count_where Q u"
    using le t by auto
  moreover have "\<not> Q (f r)" using assms by blast
  ultimately show ?thesis using assms(3,4) by (simp add: t count_where_def)
qed

lemma recover_lease_fewer:
  assumes "recover_lease now r s = (Inr u, t)" "r \<in> set (q_jobs s)" "lease_expired now r"
  shows "count_where (lease_expired now) (q_jobs t) < count_where (lease_expired now) (q_jobs s)"
proof -
  have "q_jobs t = update_where (held_with (jr_id r) (jr_token r)) (\<lambda>x. x\<lparr> jr_status := recovered_status r, jr_worker := None,
      jr_lease := None, jr_error := (if jr_cancel r then None else Some ''Lease expired''), jr_updated := now \<rparr>) (q_jobs s)"
    using assms(1) by (auto simp: recover_lease_def eff_defs finish_attempt_def update_jobs_def Let_def split: if_splits)
  then show ?thesis using assms(2,3)
    by (auto intro!: count_where_update_less [of _ _ _ _ r] simp: lease_expired_def held_with_def)
qed

text \<open>The loop over the expired leases.\<close>

function recover_leases :: "int \<Rightarrow> unit qop" where
  "recover_leases now s =
     (case first_job (filter (lease_expired now) (q_jobs s)) of
        None \<Rightarrow> (Inr (), s)
      | Some r \<Rightarrow> (case recover_lease now r s of (Inl e, t) \<Rightarrow> (Inl e, t) | (Inr _, t) \<Rightarrow> recover_leases now t))"
  by pat_completeness auto

termination
  by (relation "measure (\<lambda>(now, s). count_where (lease_expired now) (q_jobs s))")
    (auto dest!: first_job_mem dest: recover_lease_fewer [OF sym])

declare recover_leases.simps [simp del]

definition claimable :: "int \<Rightarrow> JobRow \<Rightarrow> bool" where
  "claimable now r \<longleftrightarrow> jr_status r \<in> {Js_queued, Js_scheduled} \<and> jr_scheduledAt r \<le> now \<and> jr_attempts r < jr_max r"

definition insert_attempt :: "AttemptRow \<Rightarrow> unit qop" where
  "insert_attempt a = bindE (getE q_attempts) (\<lambda>t.
     if exists_where (\<lambda>x. at_job x = at_job a \<and> at_number x = at_number a) t
     then throwE ''UNIQUE constraint failed: job_attempts.job_id, job_attempts.number''
     else modifyE (\<lambda>s. s\<lparr> q_attempts := q_attempts s @ [a] \<rparr>))"

definition take_lease :: "(string \<Rightarrow> json option) \<Rightarrow> string \<Rightarrow> int \<Rightarrow> int \<Rightarrow> string \<Rightarrow> Lease option qop" where
  "take_lease P w leaseMs now i =
     bindE (update_jobs (\<lambda>r. jr_id r = i \<and> claimable now r) (\<lambda>r. r\<lparr> jr_status := Js_running, jr_worker := Some w,
         jr_token := jr_token r + 1, jr_lease := Some (now + leaseMs), jr_attempts := jr_attempts r + 1, jr_updated := now \<rparr>)) (\<lambda>n.
     seqE (guardE (n \<noteq> 1) ''Claim fencing conflict'')
    (bindE (getE (raw_job i)) (\<lambda>row.
     case row of
       None \<Rightarrow> returnE None
     | Some r \<Rightarrow>
        seqE (insert_attempt \<lparr> at_job = i, at_number = jr_attempts r, at_worker = w, at_token = jr_token r, at_started = now,
           at_finished = None, at_outcome = None, at_error = None, at_result = None \<rparr>)
       (bindE (liftE (map_job P r)) (\<lambda>j.
        returnE (Some \<lparr> le_job = j, le_workerId = w, le_fencingToken = jr_token r, le_expiresAt = now + leaseMs \<rparr>))))))"

definition next_claimable :: "int \<Rightarrow> Queue \<Rightarrow> JobRow option" where
  "next_claimable now s = first_job (filter (\<lambda>r. \<not> jr_cancel r \<and> claimable now r) (q_jobs s))"

definition claim_body :: "(string \<Rightarrow> json option) \<Rightarrow> string \<Rightarrow> int \<Rightarrow> int \<Rightarrow> Lease option qop" where
  "claim_body P w leaseMs now =
     seqE (recover_leases now)
    (bindE (getE (next_claimable now)) (\<lambda>r.
     case r of None \<Rightarrow> returnE None | Some row \<Rightarrow> take_lease P w leaseMs now (jr_id row)))"

definition claim_job :: "(string \<Rightarrow> json option) \<Rightarrow> string \<Rightarrow> int \<Rightarrow> int \<Rightarrow> Lease option qop" where
  "claim_job P w leaseMs now =
     seqE open_guard
    (bindE (getE q_draining) (\<lambda>draining.
     if draining then returnE None
     else seqE (validText w ''worker id'' False)
         (seqE (guardE (\<not> js_safe_integer leaseMs \<or> leaseMs \<le> 0) ''Invalid lease'')
         (seqE (clock_guard now)
         (seqE (lease_guard (now + leaseMs))
         (transactionE (claim_body P w leaseMs now)))))))"

section \<open>Working on a lease\<close>

definition held_by :: "Lease \<Rightarrow> int \<Rightarrow> JobRow \<Rightarrow> bool" where
  "held_by l now r \<longleftrightarrow> jr_id r = jb_id (le_job l) \<and> jr_status r = Js_running \<and> jr_worker r = Some (le_workerId l) \<and>
     jr_token r = le_fencingToken l \<and> (case jr_lease r of None \<Rightarrow> False | Some e \<Rightarrow> e > now)"

definition heartbeat :: "Lease \<Rightarrow> int \<Rightarrow> int \<Rightarrow> bool qop" where
  "heartbeat l leaseMs now =
     seqE open_guard
    (seqE (guardE (\<not> js_safe_integer leaseMs \<or> leaseMs \<le> 0) ''Invalid lease'')
    (seqE (clock_guard now)
    (seqE (lease_guard (now + leaseMs))
    (bindE (update_jobs (\<lambda>r. held_by l now r \<and> \<not> jr_cancel r) (\<lambda>r. r\<lparr> jr_lease := Some (now + leaseMs), jr_updated := now \<rparr>)) (\<lambda>n.
     returnE (n = 1))))))"

definition finish_held :: "Lease \<Rightarrow> int \<Rightarrow> (JobRow \<Rightarrow> JobRow) \<Rightarrow> (AttemptRow \<Rightarrow> AttemptRow) \<Rightarrow> bool \<Rightarrow> bool qop" where
  "finish_held l now f g answer =
     bindE (update_jobs (held_by l now) (\<lambda>r. (f r)\<lparr> jr_worker := None, jr_lease := None, jr_updated := now \<rparr>)) (\<lambda>n.
     if n \<noteq> 1 then returnE False
     else bindE (finish_attempt (jb_id (le_job l)) (le_fencingToken l) (\<lambda>a. (g a)\<lparr> at_finished := Some now \<rparr>)) (\<lambda>m.
       seqE (guardE (m \<noteq> 1) ''Attempt finalization failed'') (returnE answer)))"

definition complete_job :: "(string \<Rightarrow> json option) \<Rightarrow> Lease \<Rightarrow> string option \<Rightarrow> int \<Rightarrow> bool qop" where
  "complete_job P l ref now =
     seqE open_guard
    (seqE (case ref of None \<Rightarrow> returnE () | Some t \<Rightarrow> validText t ''result reference'' True)
    (bindE (getRaw P (jb_id (le_job l))) (\<lambda>existing.
     if (case existing of None \<Rightarrow> False | Some j \<Rightarrow> jb_status j = Js_succeeded)
     then returnE (map_option jb_resultRef existing = Some ref)
     else seqE (clock_guard now)
       (transactionE (bindE (getE (\<lambda>s. find_where (held_by l now) (q_jobs s))) (\<lambda>row.
          case row of
            None \<Rightarrow> returnE False
          | Some r \<Rightarrow>
              (let out = (if jr_cancel r then None else ref) in
               finish_held l now
                 (\<lambda>x. x\<lparr> jr_status := if jr_cancel r then Js_cancelled else Js_succeeded, jr_result := out \<rparr>)
                 (\<lambda>a. a\<lparr> at_outcome := Some (if jr_cancel r then Ao_cancelled else Ao_succeeded), at_result := out \<rparr>)
                 (\<not> jr_cancel r))))))))"

text \<open>\<open>2 ** k\<close>\<close>

definition js_pow2 :: "nat \<Rightarrow> jsnum" where
  "js_pow2 k = (if k < 1024 then JNum (2 ^ k) else JInf False)"

definition retry_delay :: "JobRow \<Rightarrow> rat \<Rightarrow> jsnum" where
  "retry_delay r rnd =
     fl_mul (fl_mul (JNum (of_int (jr_backoff r))) (js_pow2 (nat (jr_attempts r - 1))))
       (fl_add (JNum 1) (fl_mul (JNum (jr_jitter r)) (JNum rnd)))"

definition retry_time :: "JobRow \<Rightarrow> rat \<Rightarrow> int \<Rightarrow> string + int" where
  "retry_time r rnd now =
     (let t = fl_add (JNum (of_int now)) (js_round (retry_delay r rnd)) in
      throwIf (\<not> js_isSafeInteger t) ''Retry backoff overflow'' (Inr (option_or (js_BigInt t) 0)))"

definition failed_status :: "JobRow \<Rightarrow> JobStatus" where
  "failed_status r =
     (if jr_cancel r then Js_cancelled else if jr_attempts r \<ge> jr_max r then Js_dead_letter else Js_scheduled)"

definition fail_job :: "Lease \<Rightarrow> string \<Rightarrow> rat \<Rightarrow> int \<Rightarrow> bool qop" where
  "fail_job l err rnd now =
     seqE open_guard
    (seqE (validText err ''error'' True)
    (seqE (clock_guard now)
    (transactionE (bindE (getE (\<lambda>s. find_where (held_by l now) (q_jobs s))) (\<lambda>row.
       case row of
         None \<Rightarrow> returnE False
       | Some r \<Rightarrow>
           bindE (liftE (if failed_status r = Js_scheduled then retry_time r rnd now else Inr now)) (\<lambda>due.
           finish_held l now
             (\<lambda>x. x\<lparr> jr_status := failed_status r, jr_scheduledAt := due, jr_error := Some err \<rparr>)
             (\<lambda>a. a\<lparr> at_outcome := Some (if failed_status r = Js_cancelled then Ao_cancelled else Ao_failed),
                at_error := Some err \<rparr>)
             True))))))"

definition terminal_job :: "JobStatus \<Rightarrow> bool" where
  "terminal_job st \<longleftrightarrow> st \<in> {Js_succeeded, Js_failed, Js_cancelled, Js_dead_letter}"

definition cancel_job :: "string \<Rightarrow> int \<Rightarrow> bool qop" where
  "cancel_job i now =
     seqE open_guard
    (seqE (clock_guard now)
    (transactionE (bindE (getE (raw_job i)) (\<lambda>row.
       case row of
         None \<Rightarrow> returnE False
       | Some r \<Rightarrow>
          if terminal_job (jr_status r) then returnE False
          else seqE (if jr_status r = Js_running
             then update_jobs (\<lambda>x. jr_id x = i \<and> jr_status x = Js_running) (\<lambda>x. x\<lparr> jr_cancel := True, jr_updated := now \<rparr>)
             else update_jobs (\<lambda>x. jr_id x = i \<and> jr_status x \<in> {Js_queued, Js_scheduled})
                    (\<lambda>x. x\<lparr> jr_status := Js_cancelled, jr_cancel := True, jr_updated := now \<rparr>))
           (returnE True)))))"

definition isCancellationRequested :: "Lease \<Rightarrow> bool qop" where
  "isCancellationRequested l =
     seqE open_guard
    (getE (\<lambda>s. case find_where (\<lambda>r. held_with (jb_id (le_job l)) (le_fencingToken l) r \<and> jr_worker r = Some (le_workerId l)) (q_jobs s) of
       None \<Rightarrow> False | Some r \<Rightarrow> jr_cancel r))"

definition attempts_of :: "string \<Rightarrow> AttemptRow list qop" where
  "attempts_of i = seqE open_guard (getE (\<lambda>s. sort_key at_number (filter (\<lambda>a. at_job a = i) (q_attempts s))))"

definition beginDrain :: "unit qop" where
  "beginDrain = seqE open_guard (modifyE (\<lambda>s. s\<lparr> q_draining := True \<rparr>))"

definition running_jobs :: "Queue \<Rightarrow> nat" where
  "running_jobs s = count_where (\<lambda>r. jr_status r = Js_running) (q_jobs s)"

definition close_queue :: "unit qop" where
  "close_queue = modifyE (\<lambda>s. s\<lparr> q_closed := True \<rparr>)"

end
