(* ===== verification/JobLeases.thy ===== *)
theory JobLeases
  imports Jobs
begin

text \<open>
  What the job queue guarantees: the invariant of its two tables, that every operation preserves it, the
  fencing of leases, the service of ready jobs, the finality of finished ones, the bounds of a retry, and
  what draining does to a job whose worker is gone.
\<close>

section \<open>The invariant of the two tables\<close>

text \<open>
  The attempts of a job are numbered from one without gaps, their number is the fencing token, and the
  last one is open exactly while the job runs.
\<close>

definition attempt_ok :: "JobRow \<Rightarrow> AttemptRow \<Rightarrow> bool" where
  "attempt_ok r a \<longleftrightarrow> at_token a = at_number a \<and>
     (at_finished a = None \<longleftrightarrow> jr_status r = Js_running \<and> at_number a = jr_attempts r)"

definition job_ok :: "AttemptRow list \<Rightarrow> JobRow \<Rightarrow> bool" where
  "job_ok ats r \<longleftrightarrow>
     (let mine = filter (\<lambda>a. at_job a = jr_id r) ats in
      map at_number mine = [1..jr_attempts r] \<and> list_all (attempt_ok r) mine \<and>
      0 \<le> jr_attempts r \<and> jr_attempts r \<le> jr_max r \<and> jr_token r = jr_attempts r \<and>
      (jr_status r \<in> {Js_queued, Js_scheduled} \<longrightarrow> jr_attempts r < jr_max r) \<and>
      (if jr_status r = Js_running then 1 \<le> jr_attempts r \<and> jr_worker r \<noteq> None \<and> jr_lease r \<noteq> None
       else jr_worker r = None \<and> jr_lease r = None))"

definition has_key :: "JobRow \<Rightarrow> bool" where
  "has_key r \<longleftrightarrow> jr_key r \<noteq> None"

definition tables_ok :: "JobRow list \<Rightarrow> AttemptRow list \<Rightarrow> bool" where
  "tables_ok js ats \<longleftrightarrow> distinct (map jr_id js) \<and> distinct (map jr_key (filter has_key js)) \<and>
     list_all (job_ok ats) js \<and> list_all (\<lambda>a. at_job a \<in> set (map jr_id js)) ats"

definition queue_ok :: "Queue \<Rightarrow> bool" where
  "queue_ok s \<longleftrightarrow> tables_ok (q_jobs s) (q_attempts s)"

lemma filter_update_other:
  "(\<And>a. U a \<Longrightarrow> \<not> S a \<and> \<not> S (g a)) \<Longrightarrow> filter S (update_where U g t) = filter S t"
  by (induction t) auto

lemma filter_update_same:
  "(\<And>a. S (g a) = S a) \<Longrightarrow> filter S (update_where U g t) = update_where U g (filter S t)"
  by (induction t) auto

lemma one_of_upto: "1 \<le> n \<Longrightarrow> length (filter (\<lambda>k. k = n) [1..n]) = 1"
  by (simp add: distinct_length_filter Collect_conv_if)

lemma open_attempt_iff:
  assumes "job_ok ats r" "jr_status r = Js_running" "a \<in> set ats"
  shows "open_attempt (jr_id r) (jr_token r) a \<longleftrightarrow> at_job a = jr_id r \<and> at_number a = jr_attempts r"
  using assms by (auto simp: job_ok_def open_attempt_def attempt_ok_def Let_def list_all_iff)

lemma one_open_attempt:
  assumes "job_ok ats r" "jr_status r = Js_running"
  shows "count_where (open_attempt (jr_id r) (jr_token r)) ats = 1"
proof -
  have "count_where (open_attempt (jr_id r) (jr_token r)) ats =
      length (filter (\<lambda>a. at_number a = jr_attempts r) (filter (\<lambda>a. at_job a = jr_id r) ats))"
    unfolding count_where_def filter_filter
    by (intro arg_cong [of _ _ length] filter_cong refl) (use open_attempt_iff [OF assms] in auto)
  also have "\<dots> = length (filter (\<lambda>k. k = jr_attempts r) (map at_number (filter (\<lambda>a. at_job a = jr_id r) ats)))"
    by (simp add: filter_map comp_def)
  also have "\<dots> = 1" using assms one_of_upto by (simp add: job_ok_def Let_def)
  finally show ?thesis .
qed

lemma tables_ok_row: "tables_ok js ats \<Longrightarrow> r \<in> set js \<Longrightarrow> job_ok ats r"
  by (simp add: tables_ok_def list_all_iff)

lemma tables_ok_same: "tables_ok js ats \<Longrightarrow> r \<in> set js \<Longrightarrow> p \<in> set js \<Longrightarrow> jr_id p = jr_id r \<Longrightarrow> p = r"
  by (auto simp: tables_ok_def distinct_map inj_on_def)

lemma keys_update:
  "(\<And>r. jr_key (f r) = jr_key r) \<Longrightarrow>
     map jr_key (filter has_key (update_where W f js)) = map jr_key (filter has_key js)"
  by (induction js) (auto simp: has_key_def)

lemma ids_update: "(\<And>r. jr_id (f r) = jr_id r) \<Longrightarrow> map jr_id (update_where W f js) = map jr_id js"
  by (induction js) auto

lemma list_all_update: "list_all S (update_where W f t) \<longleftrightarrow> (\<forall>r \<in> set t. S (if W r then f r else r))"
  by (induction t) auto

lemma tables_ok_update:
  assumes ok: "tables_ok js ats" and keep: "\<And>r. jr_id (f r) = jr_id r \<and> jr_key (f r) = jr_key r"
    and g: "map at_job ats' = map at_job ats"
    and rows: "\<And>r. r \<in> set js \<Longrightarrow> job_ok ats r \<Longrightarrow> job_ok ats' (if W r then f r else r)"
  shows "tables_ok (update_where W f js) ats'"
proof -
  have "list_all (\<lambda>j. j \<in> set (map jr_id js)) (map at_job ats')"
    using ok unfolding g by (simp add: tables_ok_def list_all_iff)
  then have "list_all (\<lambda>a. at_job a \<in> set (map jr_id js)) ats'" by (simp add: list_all_iff)
  moreover have "list_all (job_ok ats') (update_where W f js)"
    unfolding list_all_update using rows tables_ok_row [OF ok] by blast
  ultimately show ?thesis using ok by (simp add: tables_ok_def keys_update keep ids_update)
qed

lemma job_ok_other:
  assumes "job_ok ats p" "jr_id p \<noteq> i" and "\<And>a. at_job (g a) = at_job a"
  shows "job_ok (update_where (open_attempt i n) g ats) p"
proof -
  have "filter (\<lambda>a. at_job a = jr_id p) (update_where (open_attempt i n) g ats) = filter (\<lambda>a. at_job a = jr_id p) ats"
    using assms by (intro filter_update_other) (auto simp: open_attempt_def)
  then show ?thesis using assms(1) by (simp add: job_ok_def)
qed

lemma job_ok_finished:
  assumes ok: "job_ok ats r" and run: "jr_status r = Js_running"
    and f: "jr_id r' = jr_id r" "jr_attempts r' = jr_attempts r" "jr_token r' = jr_token r" "jr_max r' = jr_max r"
      "jr_worker r' = None" "jr_lease r' = None" "jr_status r' \<noteq> Js_running"
      "jr_status r' \<in> {Js_queued, Js_scheduled} \<Longrightarrow> jr_attempts r < jr_max r"
    and g: "\<And>a. at_job (g a) = at_job a \<and> at_number (g a) = at_number a \<and> at_token (g a) = at_token a \<and> at_finished (g a) \<noteq> None"
  shows "job_ok (update_where (open_attempt (jr_id r) (jr_token r)) g ats) r'"
proof -
  define mine where "mine = filter (\<lambda>a. at_job a = jr_id r) ats"
  have m: "filter (\<lambda>a. at_job a = jr_id r) (update_where (open_attempt (jr_id r) (jr_token r)) g ats) =
      update_where (open_attempt (jr_id r) (jr_token r)) g mine"
    unfolding mine_def using g by (intro filter_update_same) simp
  have n: "map at_number (update_where U g mine) = map at_number mine" for U
    using g by (induction mine) auto
  have "attempt_ok r' (if open_attempt (jr_id r) (jr_token r) a then g a else a)" if "a \<in> set mine" for a
  proof -
    have "a \<in> set ats" "at_job a = jr_id r" "attempt_ok r a"
      using that ok by (auto simp: mine_def job_ok_def Let_def list_all_iff)
    then show ?thesis using open_attempt_iff [OF ok run] f(7) g [of a] by (auto simp: attempt_ok_def)
  qed
  then have "list_all (attempt_ok r') (update_where (open_attempt (jr_id r) (jr_token r)) g mine)"
    unfolding list_all_update by blast
  then show ?thesis using ok f unfolding job_ok_def f(1) Let_def m n by (auto simp: mine_def)
qed

lemma tables_ok_finish:
  assumes ok: "tables_ok js ats" and r: "r \<in> set js" "W r"
    and W: "\<And>x. W x \<Longrightarrow> jr_id x = i \<and> jr_token x = n \<and> jr_status x = Js_running"
    and f: "\<And>x. jr_id (f x) = jr_id x \<and> jr_key (f x) = jr_key x \<and> jr_attempts (f x) = jr_attempts x \<and>
        jr_token (f x) = jr_token x \<and> jr_max (f x) = jr_max x \<and> jr_worker (f x) = None \<and> jr_lease (f x) = None"
      "jr_status (f r) \<noteq> Js_running" "jr_status (f r) \<in> {Js_queued, Js_scheduled} \<Longrightarrow> jr_attempts r < jr_max r"
    and g: "\<And>a. at_job (g a) = at_job a \<and> at_number (g a) = at_number a \<and> at_token (g a) = at_token a \<and> at_finished (g a) \<noteq> None"
  shows "tables_ok (update_where W f js) (update_where (open_attempt i n) g ats)"
proof (rule tables_ok_update [OF ok])
  show "map at_job (update_where (open_attempt i n) g ats) = map at_job ats" using g by (induction ats) auto
  fix x assume x: "x \<in> set js" "job_ok ats x"
  show "job_ok (update_where (open_attempt i n) g ats) (if W x then f x else x)"
  proof (cases "jr_id x = i")
    case True
    then have "x = r" using tables_ok_same [OF ok r(1) x(1)] W [OF r(2)] by simp
    then show ?thesis using job_ok_finished [OF x(2), of "f x" g] W [OF r(2)] r f g by simp
  next
    case False
    then show ?thesis using W [of x] job_ok_other [OF x(2) False, of g n] g by auto
  qed
qed (use f in simp)


section \<open>What every operation preserves\<close>

text \<open>No row disappears, its token never decreases, and a finished job stays as it is.\<close>

definition job_le :: "JobRow \<Rightarrow> JobRow \<Rightarrow> bool" where
  "job_le r p \<longleftrightarrow> jr_id p = jr_id r \<and> jr_max p = jr_max r \<and> jr_token r \<le> jr_token p \<and>
     (if terminal_job (jr_status r) then jr_status p = jr_status r \<and> jr_result p = jr_result r \<and> jr_token p = jr_token r else True)"

definition jobs_le :: "JobRow list \<Rightarrow> JobRow list \<Rightarrow> bool" where
  "jobs_le js ks \<longleftrightarrow> (\<forall>r \<in> set js. \<exists>p \<in> set ks. job_le r p)"

definition advances :: "Queue \<Rightarrow> Queue \<Rightarrow> bool" where
  "advances s t \<longleftrightarrow> (queue_ok s \<longrightarrow> queue_ok t \<and> jobs_le (q_jobs s) (q_jobs t))"

lemma job_le_refl [simp]: "job_le r r"
  by (simp add: job_le_def)

lemma job_le_trans: "job_le r p \<Longrightarrow> job_le p q \<Longrightarrow> job_le r q"
  by (auto simp: job_le_def split: if_splits)

lemma jobs_le_refl [simp]: "jobs_le js js"
  unfolding jobs_le_def by (meson job_le_refl)

lemma jobs_le_trans: "jobs_le js ks \<Longrightarrow> jobs_le ks ls \<Longrightarrow> jobs_le js ls"
  by (auto simp: jobs_le_def) (meson job_le_trans)

lemma jobs_le_update:
  assumes "\<And>r. r \<in> set js \<Longrightarrow> W r \<Longrightarrow> job_le r (f r)"
  shows "jobs_le js (update_where W f js)"
  unfolding jobs_le_def
proof
  fix r assume r: "r \<in> set js"
  show "\<exists>p \<in> set (update_where W f js). job_le r p"
    by (rule bexI [of _ "if W r then f r else r"]) (use r assms in \<open>simp_all add: set_update_where\<close>)
qed

lemma jobs_le_append [simp]: "jobs_le js (js @ ks)"
  unfolding jobs_le_def set_append by (meson UnI1 job_le_refl)

lemma advances_refl [simp]: "advances s s"
  by (simp add: advances_def)

lemma advances_trans: "advances s t \<Longrightarrow> advances t u \<Longrightarrow> advances s u"
  by (auto simp: advances_def intro: jobs_le_trans)

definition adv :: "'a qop \<Rightarrow> bool" where
  "adv m \<longleftrightarrow> (\<forall>s. wp m (\<lambda>_. advances s) (\<lambda>_. advances s) s)"

text \<open>Inside a transaction a failure is rolled back.\<close>

definition adv_ok :: "'a qop \<Rightarrow> bool" where
  "adv_ok m \<longleftrightarrow> (\<forall>s. wp m (\<lambda>_. advances s) (\<lambda>_ _. True) s)"

named_theorems advI

lemma adv_ok_adv: "adv m \<Longrightarrow> adv_ok m"
  by (auto simp: adv_def adv_ok_def intro: wp_mono)

lemma adv_transaction [advI]: "adv_ok m \<Longrightarrow> adv (transactionE m)"
  by (auto simp: adv_def adv_ok_def wp_simps intro: wp_mono)

lemma adv_bind [advI]:
  assumes "adv m" and "\<And>x. adv (f x)"
  shows "adv (bindE m f)"
  unfolding adv_def wp_bindE
proof (intro allI, rule wp_mono)
  fix s x t
  show "wp m (\<lambda>_. advances s) (\<lambda>_. advances s) s" using assms(1) by (simp add: adv_def)
  assume "advances s t"
  then show "wp (f x) (\<lambda>_. advances s) (\<lambda>_. advances s) t"
    using assms(2) unfolding adv_def by (blast intro: wp_mono advances_trans)
qed

lemma adv_seq [advI]: "adv m \<Longrightarrow> adv n \<Longrightarrow> adv (seqE m n)"
  unfolding seqE_def by (rule adv_bind)

lemma adv_ok_bind [advI]:
  assumes "adv_ok m" and "\<And>x. adv_ok (f x)"
  shows "adv_ok (bindE m f)"
  unfolding adv_ok_def wp_bindE
proof (intro allI, rule wp_mono)
  fix s x t
  show "wp m (\<lambda>_. advances s) (\<lambda>_ _. True) s" using assms(1) by (simp add: adv_ok_def)
  assume "advances s t"
  then show "wp (f x) (\<lambda>_. advances s) (\<lambda>_ _. True) t"
    using assms(2) unfolding adv_ok_def by (blast intro: wp_mono advances_trans)
qed simp

lemma adv_ok_seq [advI]: "adv_ok m \<Longrightarrow> adv_ok n \<Longrightarrow> adv_ok (seqE m n)"
  unfolding seqE_def by (rule adv_ok_bind)

lemma adv_atoms [advI]: "adv (returnE x)" "adv (throwE e)" "adv (getE h)" "adv (guardE b e)" "adv (liftE y)"
  by (auto simp: adv_def wp_simps split: sum.split)

lemma adv_ok_atoms [advI]: "adv_ok (returnE x)" "adv_ok (throwE e)" "adv_ok (getE h)" "adv_ok (guardE b e)" "adv_ok (liftE y)"
  by (auto intro: adv_ok_adv adv_atoms)

lemma adv_guarded: "(\<not> b \<Longrightarrow> adv m) \<Longrightarrow> adv (seqE (guardE b e) m)"
  by (auto simp: adv_def wp_simps)

lemma adv_if [advI]: "(b \<Longrightarrow> adv m) \<Longrightarrow> (\<not> b \<Longrightarrow> adv n) \<Longrightarrow> adv (if b then m else n)"
  by simp

lemma adv_ok_if [advI]: "(b \<Longrightarrow> adv_ok m) \<Longrightarrow> (\<not> b \<Longrightarrow> adv_ok n) \<Longrightarrow> adv_ok (if b then m else n)"
  by simp

lemma adv_option [advI]: "adv m \<Longrightarrow> (\<And>x. adv (f x)) \<Longrightarrow> adv (case v of None \<Rightarrow> m | Some x \<Rightarrow> f x)"
  by (simp split: option.split)

lemma adv_ok_option [advI]: "adv_ok m \<Longrightarrow> (\<And>x. adv_ok (f x)) \<Longrightarrow> adv_ok (case v of None \<Rightarrow> m | Some x \<Rightarrow> f x)"
  by (simp split: option.split)

lemma adv_guards [advI]: "adv open_guard" "adv (validText v n b)" "adv (clock_guard t)" "adv (lease_guard k)"
  by (auto simp: open_guard_def validText_def clock_guard_def lease_guard_def intro!: advI)

lemma adv_getRaw [advI]: "adv (getRaw P i)" "adv_ok (getRaw P i)"
  by (auto simp: getRaw_def intro!: advI adv_ok_adv)

lemma wp_update_jobs [wp_simps]:
  "wp (update_jobs W f) Q E s = Q (count_where W (q_jobs s)) (s\<lparr> q_jobs := update_where W f (q_jobs s) \<rparr>)"
  by (simp add: wp_def update_jobs_def)

lemma wp_finish_attempt [wp_simps]:
  "wp (finish_attempt i n g) Q E s =
     Q (count_where (open_attempt i n) (q_attempts s)) (s\<lparr> q_attempts := update_where (open_attempt i n) g (q_attempts s) \<rparr>)"
  by (simp add: wp_def finish_attempt_def)

lemma adv_flags [advI]:
  "adv (modifyE (\<lambda>s. s\<lparr> q_schemas := f s \<rparr>))" "adv (modifyE (\<lambda>s. s\<lparr> q_draining := b \<rparr>))" "adv (modifyE (\<lambda>s. s\<lparr> q_closed := b \<rparr>))"
  by (simp_all add: adv_def wp_simps advances_def queue_ok_def)

lemma adv_update:
  assumes "\<And>ats r. W r \<Longrightarrow> job_ok ats r \<Longrightarrow> job_ok ats (f r) \<and> job_le r (f r)"
    and "\<And>r. jr_id (f r) = jr_id r \<and> jr_key (f r) = jr_key r"
  shows "adv (update_jobs W f)"
  unfolding adv_def wp_update_jobs advances_def queue_ok_def using assms
  by (auto intro!: tables_ok_update jobs_le_update dest: tables_ok_row)

lemma attempt_ok_cong:
  "jr_status p = jr_status r \<Longrightarrow> jr_attempts p = jr_attempts r \<Longrightarrow> attempt_ok p = attempt_ok r"
  by (simp add: attempt_ok_def fun_eq_iff)

lemma adv_heartbeat: "adv (heartbeat l n now)"
proof -
  have "adv (update_jobs (\<lambda>r. held_by l now r \<and> \<not> jr_cancel r) (\<lambda>r. r\<lparr> jr_lease := Some (now + n), jr_updated := now \<rparr>))"
    by (rule adv_update) (auto simp: held_by_def job_ok_def job_le_def Let_def terminal_job_def attempt_ok_cong [of "r\<lparr>jr_lease := x, jr_updated := y\<rparr>" r for r x y])
  then show ?thesis unfolding heartbeat_def by (intro advI)
qed


lemma adv_cancel: "adv (cancel_job i now)"
proof -
  have a: "adv (update_jobs (\<lambda>x. jr_id x = i \<and> jr_status x = Js_running) (\<lambda>x. x\<lparr> jr_cancel := True, jr_updated := now \<rparr>))"
    by (rule adv_update) (auto simp: job_ok_def job_le_def Let_def terminal_job_def
        attempt_ok_cong [of "r\<lparr> jr_cancel := x, jr_updated := y \<rparr>" r for r x y])
  have "attempt_ok (r\<lparr> jr_status := Js_cancelled, jr_cancel := x, jr_updated := y \<rparr>) = attempt_ok r"
    if "jr_status r \<noteq> Js_running" for r x y
    using that by (simp add: attempt_ok_def fun_eq_iff)
  then have b: "adv (update_jobs (\<lambda>x. jr_id x = i \<and> jr_status x \<in> {Js_queued, Js_scheduled})
      (\<lambda>x. x\<lparr> jr_status := Js_cancelled, jr_cancel := True, jr_updated := now \<rparr>))"
    by (intro adv_update) (auto simp: job_ok_def job_le_def Let_def terminal_job_def)
  show ?thesis unfolding cancel_job_def by (intro advI adv_ok_adv a b)
qed

lemma adv_insert_job:
  assumes "jr_attempts r = 0" "jr_token r = 0" "jr_worker r = None" "jr_lease r = None" "jr_status r \<noteq> Js_running" "1 \<le> jr_max r"
  shows "adv (insert_job r)"
proof -
  have "tables_ok (js @ [r]) ats"
    if ok: "tables_ok js ats" and id: "\<not> exists_where (\<lambda>x. jr_id x = jr_id r) js" and key: "\<not> exists_where (same_key (jr_key r)) js" for js ats
  proof -
    have "jr_id r \<notin> set (map jr_id js)" using id by (auto simp: exists_where_iff)
    moreover have "\<forall>a \<in> set ats. at_job a \<noteq> jr_id r"
      using ok calculation unfolding tables_ok_def list_all_iff by metis
    then have "job_ok ats r" using assms by (simp add: job_ok_def filter_False)
    moreover have "has_key r \<Longrightarrow> jr_key r \<notin> set (map jr_key (filter has_key js))"
      using key by (auto simp: exists_where_iff same_key_def has_key_def)
    ultimately show ?thesis using ok by (auto simp: tables_ok_def list_all_iff)
  qed
  then show ?thesis by (simp add: adv_def insert_job_def wp_simps advances_def queue_ok_def)
qed

lemma adv_enqueue: "adv (enqueue P type payload opts uuid now)"
proof -
  have "adv (insert_job (new_job i type body opts now))" if "\<not> bad_options opts now" for i body
    using that by (intro adv_insert_job) (auto simp: new_job_def bad_options_def Let_def)
  then show ?thesis unfolding enqueue_def Let_def by (intro advI adv_guarded adv_ok_adv)
qed

lemma count_where_one:
  assumes "distinct (map k js)" and "r \<in> set js" "W r" and W: "\<And>x. W x \<Longrightarrow> k x = k r"
  shows "count_where W js = 1"
proof -
  obtain p u where js: "js = p @ r # u" using assms(2) by (auto simp: in_set_conv_decomp)
  then have "k r \<notin> k ` (set p \<union> set u)" using assms(1) by auto
  then have "\<forall>x \<in> set p \<union> set u. k x \<noteq> k r" by (metis imageI)
  then have "\<forall>x \<in> set p \<union> set u. \<not> W x" using W by blast
  then show ?thesis using assms(3) by (simp add: js count_where_def)
qed

lemma tables_ok_one:
  assumes "tables_ok js ats" "r \<in> set js" "W r" and "\<And>x. W x \<Longrightarrow> jr_id x = jr_id r"
  shows "count_where W js = 1"
  using count_where_one [of jr_id js r W] assms unfolding tables_ok_def by blast

lemma finish_held_advances:
  assumes r: "r \<in> set (q_jobs s)" "held_by l now r"
    and f: "\<And>x. jr_id (f x) = jr_id x \<and> jr_key (f x) = jr_key x \<and> jr_attempts (f x) = jr_attempts x \<and>
        jr_token (f x) = jr_token x \<and> jr_max (f x) = jr_max x"
      "\<And>x. jr_status (f x) \<noteq> Js_running" "jr_status (f r) \<in> {Js_queued, Js_scheduled} \<Longrightarrow> jr_attempts r < jr_max r"
    and g: "\<And>a. at_job (g a) = at_job a \<and> at_number (g a) = at_number a \<and> at_token (g a) = at_token a"
  shows "wp (finish_held l now f g ans) (\<lambda>_. advances s) (\<lambda>_ _. True) s"
proof -
  let ?f = "\<lambda>r. (f r)\<lparr> jr_worker := None, jr_lease := None, jr_updated := now \<rparr>"
  have "tables_ok (update_where (held_by l now) ?f (q_jobs s))
      (update_where (open_attempt (jb_id (le_job l)) (le_fencingToken l)) (\<lambda>a. (g a)\<lparr> at_finished := Some now \<rparr>) (q_attempts s))"
    if "queue_ok s"
    using that f g r by (intro tables_ok_finish [of _ _ r]) (auto simp: queue_ok_def held_by_def)
  moreover have "jobs_le (q_jobs s) (update_where (held_by l now) ?f (q_jobs s))"
    using f by (intro jobs_le_update) (auto simp: job_le_def held_by_def terminal_job_def)
  moreover have "count_where (held_by l now) (q_jobs s) = 1" if "queue_ok s"
    by (rule tables_ok_one [of _ "q_attempts s" r]) (use that r in \<open>auto simp: queue_ok_def held_by_def\<close>)
  ultimately show ?thesis
    unfolding finish_held_def by (cases "queue_ok s") (auto simp: wp_simps advances_def queue_ok_def)
qed

lemma adv_complete: "adv (complete_job P l ref now)"
proof -
  have "wp (case find_where (held_by l now) (q_jobs s) of None \<Rightarrow> returnE False
      | Some r \<Rightarrow> let out = if jr_cancel r then None else ref in
               finish_held l now
                 (\<lambda>x. x\<lparr> jr_status := if jr_cancel r then Js_cancelled else Js_succeeded, jr_result := out \<rparr>)
                 (\<lambda>a. a\<lparr> at_outcome := Some (if jr_cancel r then Ao_cancelled else Ao_succeeded), at_result := out \<rparr>)
                 (\<not> jr_cancel r)) (\<lambda>_. advances s) (\<lambda>_ _. True) s" for s
  proof (cases "find_where (held_by l now) (q_jobs s)")
    case (Some r)
    then have "r \<in> set (q_jobs s)" "held_by l now r" by (simp_all add: find_where_Some)
    then show ?thesis by (auto simp: Some Let_def intro!: finish_held_advances)
  qed (simp add: wp_simps)
  then have "adv_ok (bindE (getE (\<lambda>s. find_where (held_by l now) (q_jobs s))) (\<lambda>row. case row of None \<Rightarrow> returnE False
      | Some r \<Rightarrow> let out = if jr_cancel r then None else ref in
               finish_held l now
                 (\<lambda>x. x\<lparr> jr_status := if jr_cancel r then Js_cancelled else Js_succeeded, jr_result := out \<rparr>)
                 (\<lambda>a. a\<lparr> at_outcome := Some (if jr_cancel r then Ao_cancelled else Ao_succeeded), at_result := out \<rparr>)
                 (\<not> jr_cancel r)))"
    by (simp add: adv_ok_def wp_bindE wp_getE)
  then show ?thesis unfolding complete_job_def
    by (intro adv_seq adv_bind adv_if adv_option adv_atoms adv_guards adv_getRaw adv_transaction)
qed

lemma adv_fail: "adv (fail_job l err rnd now)"
proof -
  have "wp (case find_where (held_by l now) (q_jobs s) of None \<Rightarrow> returnE False
      | Some r \<Rightarrow> bindE (liftE (if failed_status r = Js_scheduled then retry_time r rnd now else Inr now)) (\<lambda>due.
           finish_held l now
             (\<lambda>x. x\<lparr> jr_status := failed_status r, jr_scheduledAt := due, jr_error := Some err \<rparr>)
             (\<lambda>a. a\<lparr> at_outcome := Some (if failed_status r = Js_cancelled then Ao_cancelled else Ao_failed),
                at_error := Some err \<rparr>) True)) (\<lambda>_. advances s) (\<lambda>_ _. True) s" for s
  proof (cases "find_where (held_by l now) (q_jobs s)")
    case (Some r)
    then have r: "r \<in> set (q_jobs s)" "held_by l now r" by (simp_all add: find_where_Some)
    have "failed_status r \<noteq> Js_running" "failed_status r \<in> {Js_queued, Js_scheduled} \<Longrightarrow> jr_attempts r < jr_max r"
      by (auto simp: failed_status_def split: if_splits)
    then show ?thesis
      by (auto simp only: Some option.case wp_bindE wp_liftE split: sum.split intro!: finish_held_advances [OF r]) simp_all
  qed (simp add: wp_simps)
  then have "adv_ok (bindE (getE (\<lambda>s. find_where (held_by l now) (q_jobs s))) (\<lambda>row. case row of None \<Rightarrow> returnE False
      | Some r \<Rightarrow> bindE (liftE (if failed_status r = Js_scheduled then retry_time r rnd now else Inr now)) (\<lambda>due.
           finish_held l now
             (\<lambda>x. x\<lparr> jr_status := failed_status r, jr_scheduledAt := due, jr_error := Some err \<rparr>)
             (\<lambda>a. a\<lparr> at_outcome := Some (if failed_status r = Js_cancelled then Ao_cancelled else Ao_failed),
                at_error := Some err \<rparr>) True)))"
    by (simp add: adv_ok_def wp_bindE wp_getE)
  then show ?thesis unfolding fail_job_def
    by (intro adv_seq adv_bind adv_if adv_option adv_atoms adv_guards adv_getRaw adv_transaction)
qed


section \<open>Claims\<close>

text \<open>A job a claim at \<open>now\<close> may hand out, at once or after its expired lease is recovered.\<close>

definition ready :: "int \<Rightarrow> JobRow \<Rightarrow> bool" where
  "ready now r \<longleftrightarrow> \<not> jr_cancel r \<and> jr_attempts r < jr_max r \<and> jr_scheduledAt r \<le> now \<and>
     (jr_status r \<in> {Js_queued, Js_scheduled} \<or> lease_expired now r)"

definition queue_place :: "JobRow \<Rightarrow> string \<times> int \<times> int" where
  "queue_place r = (jr_id r, jr_scheduledAt r, jr_created r)"

definition ready_places :: "int \<Rightarrow> Queue \<Rightarrow> (string \<times> int \<times> int) list" where
  "ready_places now s = map queue_place (filter (ready now) (q_jobs s))"

lemma map_filter_update:
  "(\<And>x. x \<in> set js \<Longrightarrow> W x \<Longrightarrow> S (f x) = S x \<and> k (f x) = k x) \<Longrightarrow> map k (filter S (update_where W f js)) = map k (filter S js)"
  by (induction js) auto

lemma recover_lease_spec:
  assumes ok: "queue_ok s" and r: "r \<in> set (q_jobs s)" "lease_expired now r"
  shows "wp (recover_lease now r) (\<lambda>_ t. queue_ok t \<and> jobs_le (q_jobs s) (q_jobs t) \<and> ready_places now t = ready_places now s \<and>
       map jr_payload (q_jobs t) = map jr_payload (q_jobs s)) (\<lambda>_ _. False) s"
proof -
  let ?W = "held_with (jr_id r) (jr_token r)"
  let ?f = "\<lambda>x. x\<lparr> jr_status := recovered_status r, jr_worker := None, jr_lease := None,
      jr_error := if jr_cancel r then None else Some ''Lease expired'', jr_updated := now \<rparr>"
  have run: "jr_status r = Js_running" "?W r" using r(2) by (simp_all add: lease_expired_def held_with_def)
  have only: "x = r" if "x \<in> set (q_jobs s)" "?W x" for x
    using tables_ok_same [of "q_jobs s" "q_attempts s" r x] ok r that by (simp add: queue_ok_def held_with_def)
  have one: "count_where (open_attempt (jr_id r) (jr_token r)) (q_attempts s) = 1"
    using ok r run by (intro one_open_attempt) (auto simp: queue_ok_def dest: tables_ok_row)
  have one': "count_where ?W (q_jobs s) = 1"
    by (rule tables_ok_one [of _ "q_attempts s" r]) (use ok r run in \<open>auto simp: queue_ok_def held_with_def\<close>)
  have "tables_ok (update_where ?W ?f (q_jobs s)) (update_where (open_attempt (jr_id r) (jr_token r)) (\<lambda>a. a\<lparr> at_finished := Some now,
          at_outcome := Some (if jr_cancel r then Ao_cancelled else Ao_failed),
          at_error := if jr_cancel r then None else Some ''Lease expired'' \<rparr>) (q_attempts s))"
    using ok r run
    by (intro tables_ok_finish [of _ _ r]) (auto simp: queue_ok_def held_with_def recovered_status_def split: if_splits)
  moreover have "jobs_le (q_jobs s) (update_where ?W ?f (q_jobs s))"
    by (rule jobs_le_update) (auto simp: job_le_def held_with_def terminal_job_def)
  moreover have "ready now (?f r) = ready now r"
    using r(2) by (auto simp: ready_def recovered_status_def lease_expired_def)
  then have "ready now (?f x) = ready now x" if "x \<in> set (q_jobs s)" "?W x" for x
    using only [OF that] by simp
  then have "map queue_place (filter (ready now) (update_where ?W ?f (q_jobs s))) = map queue_place (filter (ready now) (q_jobs s))"
    by (intro map_filter_update) (simp add: queue_place_def)
  moreover have "map jr_payload (update_where ?W ?f js) = map jr_payload js" for js
    by (induction js) simp_all
  ultimately show ?thesis
    by (simp add: recover_lease_def Let_def wp_simps one one' queue_ok_def ready_places_def)
qed

lemma recover_leases_spec:
  "queue_ok s \<Longrightarrow> wp (recover_leases now) (\<lambda>_ t. queue_ok t \<and> jobs_le (q_jobs s) (q_jobs t) \<and> ready_places now t = ready_places now s \<and>
     map jr_payload (q_jobs t) = map jr_payload (q_jobs s) \<and> list_all (\<lambda>r. \<not> lease_expired now r) (q_jobs t)) (\<lambda>_ _. False) s"
proof (induction now s rule: recover_leases.induct)
  case (1 now s)
  show ?case
  proof (cases "first_job (filter (lease_expired now) (q_jobs s))")
    case None
    then have "list_all (\<lambda>r. \<not> lease_expired now r) (q_jobs s)" by (simp add: filter_empty_conv list_all_iff)
    then show ?thesis using 1 None by (simp add: wp_def recover_leases.simps [of now s])
  next
    case (Some r)
    then have r: "r \<in> set (q_jobs s)" "lease_expired now r" by (auto dest: first_job_mem)
    obtain v t where one: "recover_lease now r s = (v, t)" by fastforce
    have step: "v = Inr ()" "queue_ok t" "jobs_le (q_jobs s) (q_jobs t)" "ready_places now t = ready_places now s"
      "map jr_payload (q_jobs t) = map jr_payload (q_jobs s)"
      using recover_lease_spec [OF 1(2) r] one by (auto simp: wp_def split: sum.splits)
    show ?thesis
      using 1(1) [OF Some] one step unfolding wp_def recover_leases.simps [of now s]
      by (auto simp: Some split: prod.splits sum.splits intro: jobs_le_trans)
  qed
qed

lemma upto_snoc: "0 \<le> n \<Longrightarrow> [1..n + 1] = [1..n] @ [n + 1]" for n :: int
  by (simp add: upto_rec2)

lemma tables_ok_take:
  assumes ok: "tables_ok js ats" and r: "r \<in> set js" "claimable now r"
  shows "tables_ok (update_where (\<lambda>x. jr_id x = jr_id r \<and> claimable now x) (\<lambda>x. x\<lparr> jr_status := Js_running, jr_worker := Some w,
         jr_token := jr_token x + 1, jr_lease := Some e, jr_attempts := jr_attempts x + 1, jr_updated := now \<rparr>) js)
     (ats @ [\<lparr> at_job = jr_id r, at_number = jr_attempts r + 1, at_worker = w, at_token = jr_token r + 1, at_started = now,
           at_finished = None, at_outcome = None, at_error = None, at_result = None \<rparr>])"
    (is "tables_ok (update_where ?W ?f js) (ats @ [?a])")
proof -
  have "job_ok (ats @ [?a]) (if ?W x then ?f x else x)" if x: "x \<in> set js" "job_ok ats x" for x
  proof (cases "jr_id x = jr_id r")
    case True
    then have [simp]: "x = r" using tables_ok_same [OF ok r(1) x(1)] by simp
    define mine where "mine = filter (\<lambda>a. at_job a = jr_id r) ats"
    have m: "map at_number mine = [1..jr_attempts r]" "list_all (attempt_ok r) mine" "0 \<le> jr_attempts r"
      "jr_attempts r < jr_max r" "jr_token r = jr_attempts r" "jr_status r \<noteq> Js_running"
      using x(2) r(2) by (auto simp: job_ok_def mine_def Let_def claimable_def)
    then have "\<forall>k \<in> set (map at_number mine). k \<le> jr_attempts r" by simp
    then have "list_all (attempt_ok (?f r)) mine"
      using m(2,6) by (auto simp: list_all_iff attempt_ok_def)
    then show ?thesis
      using m r(2) by (simp add: job_ok_def Let_def mine_def [symmetric] upto_snoc) (simp add: attempt_ok_def)
  next
    case False
    then show ?thesis using x(2) by (simp add: job_ok_def Let_def)
  qed
  then have "list_all (job_ok (ats @ [?a])) (update_where ?W ?f js)"
    unfolding list_all_update using tables_ok_row [OF ok] by blast
  moreover have "list_all (\<lambda>a. at_job a \<in> set (map jr_id js)) (ats @ [?a])" using ok r(1) by (simp add: tables_ok_def)
  ultimately show ?thesis using ok by (simp add: tables_ok_def keys_update ids_update)
qed


definition lease_id :: "Lease \<Rightarrow> string" where
  "lease_id l = jb_id (le_job l)"

text \<open>The lease is the job's newest: its token is the row's, and larger than the one the row had.\<close>

definition fresh_lease :: "Queue \<Rightarrow> Queue \<Rightarrow> Lease \<Rightarrow> bool" where
  "fresh_lease s t l \<longleftrightarrow> list_ex (\<lambda>p. jr_id p = lease_id l \<and> jr_token p = le_fencingToken l) (q_jobs t) \<and>
     list_all (\<lambda>r. if jr_id r = lease_id l then jr_token r < le_fencingToken l else True) (q_jobs s)"

lemma raw_job_row: "tables_ok (q_jobs s) ats \<Longrightarrow> r \<in> set (q_jobs s) \<Longrightarrow> raw_job (jr_id r) s = Some r"
  unfolding raw_job_def tables_ok_def by (intro find_where_unique) simp_all

lemma take_lease_spec:
  assumes ok: "queue_ok s" and r: "r \<in> set (q_jobs s)" "claimable now r"
  shows "wp (take_lease P w ms now (jr_id r))
     (\<lambda>res t. queue_ok t \<and> jobs_le (q_jobs s) (q_jobs t) \<and> (\<exists>l. res = Some l \<and> lease_id l = jr_id r \<and> fresh_lease s t l))
     (\<lambda>_ _. P (jr_payload r) = None) s"
proof -
  let ?W = "\<lambda>x. jr_id x = jr_id r \<and> claimable now x"
  let ?f = "\<lambda>x. x\<lparr> jr_status := Js_running, jr_worker := Some w, jr_token := jr_token x + 1, jr_lease := Some (now + ms),
      jr_attempts := jr_attempts x + 1, jr_updated := now \<rparr>"
  let ?js = "update_where ?W ?f (q_jobs s)"
  have tables: "tables_ok (q_jobs s) (q_attempts s)" using ok by (simp add: queue_ok_def)
  note taken = tables_ok_take [OF tables r, where w = w and e = "now + ms"]
  have one: "count_where ?W (q_jobs s) = 1"
    by (rule tables_ok_one [OF tables r(1)]) (use r in auto)
  have row: "raw_job (jr_id r) (s\<lparr> q_jobs := ?js \<rparr>) = Some (?f r)"
    using raw_job_row [OF tables r(1)] r(2) by (simp add: raw_job_def find_where_update)
  have "\<not> exists_where (\<lambda>a. at_job a = jr_id r \<and> at_number a = jr_attempts r + 1) (q_attempts s)"
  proof
    assume "exists_where (\<lambda>a. at_job a = jr_id r \<and> at_number a = jr_attempts r + 1) (q_attempts s)"
    then have "jr_attempts r + 1 \<in> set (map at_number (filter (\<lambda>a. at_job a = jr_id r) (q_attempts s)))"
      by (force simp: exists_where_iff)
    moreover have "map at_number (filter (\<lambda>a. at_job a = jr_id r) (q_attempts s)) = [1..jr_attempts r]"
      using tables_ok_row [OF tables r(1)] by (simp add: job_ok_def Let_def)
    ultimately show False by (simp only: set_upto) simp
  qed
  moreover have "jobs_le (q_jobs s) ?js"
    by (rule jobs_le_update) (auto simp: job_le_def claimable_def terminal_job_def)
  moreover have "list_ex (\<lambda>p. jr_id p = jr_id r \<and> jr_token p = jr_token r + 1) ?js"
    unfolding list_ex_iff by (rule bexI [of _ "?f r"]) (use r in \<open>auto simp: set_update_where\<close>)
  moreover have "list_all (\<lambda>x. jr_id x = jr_id r \<longrightarrow> jr_token x \<le> jr_token r) (q_jobs s)"
    using tables_ok_same [OF tables r(1)] by (auto simp: list_all_iff)
  ultimately show ?thesis
    using taken
    by (auto simp: take_lease_def wp_simps one row insert_attempt_def map_job_def queue_ok_def lease_id_def fresh_lease_def
        split: option.split sum.split)
qed

lemma next_claimable_ready:
  assumes "list_all (\<lambda>r. \<not> lease_expired now r) (q_jobs s)"
  shows "next_claimable now s = first_job (filter (ready now) (q_jobs s))"
  unfolding next_claimable_def
  by (intro arg_cong [of _ _ first_job] filter_cong refl)
    (use assms in \<open>auto simp: list_all_iff ready_def claimable_def\<close>)

definition sooner :: "string \<times> int \<times> int \<Rightarrow> string \<times> int \<times> int \<Rightarrow> bool" where
  "sooner k k' \<longleftrightarrow> fst (snd k) < fst (snd k') \<or> fst (snd k) = fst (snd k') \<and> snd (snd k) < snd (snd k')"

lemma earlier_sooner: "earlier p r \<longleftrightarrow> sooner (queue_place p) (queue_place r)"
  by (simp add: earlier_def sooner_def queue_place_def)

lemma sooner_asym: "sooner k k' \<Longrightarrow> \<not> sooner k' k"
  by (auto simp: sooner_def)

lemma not_sooner_trans: "\<not> sooner k k' \<Longrightarrow> \<not> sooner k' k'' \<Longrightarrow> \<not> sooner k k''"
  by (auto simp: sooner_def)

lemma first_job_least: "first_job rs = Some r \<Longrightarrow> q \<in> set rs \<Longrightarrow> \<not> sooner (queue_place q) (queue_place r)"
proof (induction rs arbitrary: r q)
  case (Cons x rs)
  show ?case
  proof (cases "first_job rs")
    case None
    then show ?thesis using Cons.prems by (auto simp: sooner_def)
  next
    case (Some p)
    have p: "\<not> sooner (queue_place q) (queue_place p)" if "q \<in> set rs" for q using Cons.IH [OF Some that] .
    show ?thesis
    proof (cases "earlier p x")
      case True
      then show ?thesis using Cons.prems Some p by (auto simp: earlier_sooner dest: sooner_asym)
    next
      case False
      then have "r = x" "\<not> sooner (queue_place p) (queue_place x)" using Cons.prems(1) Some by (simp_all add: earlier_sooner)
      moreover have "\<not> sooner (queue_place x) (queue_place x)" by (simp add: sooner_def)
      ultimately show ?thesis using Cons.prems(2) p not_sooner_trans by (metis set_ConsD)
    qed
  qed
qed simp

definition takes_first :: "(string \<times> int \<times> int) list \<Rightarrow> Lease option \<Rightarrow> bool" where
  "takes_first ks res \<longleftrightarrow> (case res of None \<Rightarrow> ks = []
     | Some l \<Rightarrow> list_ex (\<lambda>k. fst k = lease_id l \<and> list_all (\<lambda>k'. \<not> sooner k' k) ks) ks)"

definition claim_args :: "string \<Rightarrow> int \<Rightarrow> int \<Rightarrow> bool" where
  "claim_args w ms now \<longleftrightarrow> w \<noteq> [] \<and> length w \<le> MAX_TEXT \<and> js_safe_integer ms \<and> 0 < ms \<and> js_safe_integer now \<and> 0 \<le> now \<and>
     js_safe_integer (now + ms)"


lemma take_lease_alive:
  assumes "0 < ms" and alive: "list_all (\<lambda>r. \<not> lease_expired now r) (q_jobs s)"
  shows "wp (take_lease P w ms now i) (\<lambda>_ t. list_all (\<lambda>r. \<not> lease_expired now r) (q_jobs t)) (\<lambda>_ _. True) s"
proof -
  have "list_all (\<lambda>r. \<not> lease_expired now r) (update_where (\<lambda>r. jr_id r = i \<and> claimable now r)
      (\<lambda>r. r\<lparr> jr_status := Js_running, jr_worker := Some w, jr_token := jr_token r + 1, jr_lease := Some (now + ms),
         jr_attempts := jr_attempts r + 1, jr_updated := now \<rparr>) (q_jobs s))"
    unfolding list_all_update using assms by (auto simp: list_all_iff) (simp add: lease_expired_def)
  then show ?thesis by (simp add: take_lease_def insert_attempt_def wp_simps split: option.split sum.split)
qed

definition payloads_readable :: "(string \<Rightarrow> json option) \<Rightarrow> Queue \<Rightarrow> bool" where
  "payloads_readable P s \<longleftrightarrow> list_all (\<lambda>t. P t \<noteq> None) (map jr_payload (q_jobs s))"

lemma claim_body_spec:
  assumes ok: "queue_ok s"
  shows "wp (claim_body P w ms now)
     (\<lambda>res t. queue_ok t \<and> jobs_le (q_jobs s) (q_jobs t) \<and> pred_option (fresh_lease s t) res \<and>
        takes_first (ready_places now s) res)
     (\<lambda>_ _. \<not> payloads_readable P s) s"
  unfolding claim_body_def
proof (rule wp_seqI, rule wp_mono [OF recover_leases_spec [OF ok]])
  fix u assume u: "queue_ok u \<and> jobs_le (q_jobs s) (q_jobs u) \<and> ready_places now u = ready_places now s \<and>
     map jr_payload (q_jobs u) = map jr_payload (q_jobs s) \<and> list_all (\<lambda>r. \<not> lease_expired now r) (q_jobs u)"
  then have next_is: "next_claimable now u = first_job (filter (ready now) (q_jobs u))"
    by (intro next_claimable_ready) simp
  show "wp (bindE (getE (next_claimable now)) (\<lambda>r. case r of None \<Rightarrow> returnE None | Some row \<Rightarrow> take_lease P w ms now (jr_id row)))
     (\<lambda>res t. queue_ok t \<and> jobs_le (q_jobs s) (q_jobs t) \<and> pred_option (fresh_lease s t) res \<and>
        takes_first (ready_places now s) res)
     (\<lambda>_ _. \<not> payloads_readable P s) u"
  proof (cases "next_claimable now u")
    case None
    then have "ready_places now s = []" using u next_is by (metis first_job_None map_is_Nil_conv ready_places_def)
    then show ?thesis using u None by (simp add: wp_simps takes_first_def)
  next
    case (Some r)
    then have first: "first_job (filter (ready now) (q_jobs u)) = Some r" using next_is by simp
    then have r: "r \<in> set (q_jobs u)" "ready now r" using first_job_mem by force+
    then have "claimable now r" using u by (auto simp: ready_def claimable_def list_all_iff)
    note spec = take_lease_spec [OF conjunct1 [OF u] r(1) this, of P w ms]
    have "takes_first (ready_places now s) (Some l)" if "lease_id l = jr_id r" for l
    proof -
      have "queue_place r \<in> set (ready_places now u)" using r by (simp add: ready_places_def)
      then have "queue_place r \<in> set (ready_places now s)" using u by simp
      moreover have "list_all (\<lambda>k. \<not> sooner k (queue_place r)) (ready_places now s)"
        using first_job_least [OF first] conjunct1 [OF conjunct2 [OF conjunct2 [OF u]], symmetric]
        by (auto simp: ready_places_def list_all_iff)
      ultimately show ?thesis unfolding takes_first_def option.case list_ex_iff
        by (intro bexI [of _ "queue_place r"]) (simp_all add: queue_place_def that)
    qed
    moreover have "fresh_lease s t l" if "fresh_lease u t l" for t l
    proof -
      have "jr_token x < le_fencingToken l" if x: "x \<in> set (q_jobs s)" "jr_id x = lease_id l" for x
      proof -
        obtain y where "y \<in> set (q_jobs u)" "job_le x y" using u x by (auto simp: jobs_le_def)
        then show ?thesis using \<open>fresh_lease u t l\<close> x by (fastforce simp: fresh_lease_def job_le_def list_all_iff)
      qed
      then show ?thesis using that by (simp add: fresh_lease_def list_all_iff)
    qed
    moreover have "P (jr_payload r) = None \<Longrightarrow> \<not> payloads_readable P s"
      using r(1) conjunct1 [OF conjunct2 [OF conjunct2 [OF conjunct2 [OF u]]]]
      unfolding payloads_readable_def list_all_iff by (metis image_eqI set_map)
    ultimately show ?thesis
      using u by (auto simp: Some wp_bindE wp_getE intro!: wp_mono [OF spec] intro: jobs_le_trans)
  qed
qed simp


lemma claim_spec:
  assumes "queue_ok s"
  shows "wp (claim_job P w ms now)
     (\<lambda>res t. queue_ok t \<and> jobs_le (q_jobs s) (q_jobs t) \<and> pred_option (fresh_lease s t) res) (\<lambda>_ t. t = s) s"
proof -
  have "wp (claim_body P w ms now) (\<lambda>res t. queue_ok t \<and> jobs_le (q_jobs s) (q_jobs t) \<and> pred_option (fresh_lease s t) res)
     (\<lambda>_ _. True) s"
    by (rule wp_mono [OF claim_body_spec [OF assms]]) auto
  then show ?thesis
    using assms by (simp add: claim_job_def wp_simps open_guard_def validText_def clock_guard_def lease_guard_def wp_mono)
qed

lemma adv_claim: "adv (claim_job P w ms now)"
  unfolding adv_def
proof
  fix s
  show "wp (claim_job P w ms now) (\<lambda>_. advances s) (\<lambda>_. advances s) s"
  proof (cases "queue_ok s")
    case True
    then show ?thesis by (intro wp_mono [OF claim_spec]) (auto simp: advances_def)
  qed (auto simp: advances_def intro: wp_mono [OF wp_True])
qed

section \<open>Histories\<close>

datatype QueueOp =
    Q_register string schema
  | Q_enqueue string json EnqueueOptions string int
  | Q_claim string int int
  | Q_heartbeat Lease int int
  | Q_complete Lease "string option" int
  | Q_fail Lease string rat int
  | Q_cancel string int
  | Q_beginDrain
  | Q_close

fun queue_op :: "(string \<Rightarrow> json option) \<Rightarrow> QueueOp \<Rightarrow> Queue \<Rightarrow> Lease option \<times> Queue" where
  "queue_op P (Q_register type sch) s = (None, snd (register type sch s))"
| "queue_op P (Q_enqueue type v opts uuid now) s = (None, snd (enqueue P type v opts uuid now s))"
| "queue_op P (Q_claim w ms now) s = (case claim_job P w ms now s of (Inr res, t) \<Rightarrow> (res, t) | (Inl _, t) \<Rightarrow> (None, t))"
| "queue_op P (Q_heartbeat l ms now) s = (None, snd (heartbeat l ms now s))"
| "queue_op P (Q_complete l ref now) s = (None, snd (complete_job P l ref now s))"
| "queue_op P (Q_fail l e rnd now) s = (None, snd (fail_job l e rnd now s))"
| "queue_op P (Q_cancel i now) s = (None, snd (cancel_job i now s))"
| "queue_op P Q_beginDrain s = (None, snd (beginDrain s))"
| "queue_op P Q_close s = (None, snd (close_queue s))"

text \<open>A history of the queue and the leases it handed out, the newest first.\<close>

fun run_queue :: "(string \<Rightarrow> json option) \<Rightarrow> QueueOp list \<Rightarrow> Queue \<times> Lease list \<Rightarrow> Queue \<times> Lease list" where
  "run_queue P [] w = w"
| "run_queue P (x # xs) (s, ls) = (case queue_op P x s of (res, t) \<Rightarrow>
     run_queue P xs (t, case res of None \<Rightarrow> ls | Some l \<Rightarrow> l # ls))"

lemma adv_register: "adv (register type sch)"
  unfolding register_def by (intro adv_seq adv_guards) (simp add: adv_def wp_simps advances_def queue_ok_def)

lemma adv_snd: "adv m \<Longrightarrow> advances s (snd (m s))"
  unfolding adv_def wp_def by (drule spec [of _ s]) (auto split: prod.splits sum.splits)

lemma queue_op_advances: "advances s (snd (queue_op P x s))"
proof (cases x)
  case (Q_claim w ms now)
  then show ?thesis using adv_snd [OF adv_claim, of s P w ms now] by (auto split: prod.splits sum.splits)
next
  case Q_beginDrain
  have "adv beginDrain" unfolding beginDrain_def by (intro adv_seq adv_guards adv_flags)
  then show ?thesis using Q_beginDrain by (simp add: adv_snd)
next
  case Q_close
  then show ?thesis by (simp add: close_queue_def adv_snd adv_flags)
qed (simp_all add: adv_snd adv_register adv_enqueue adv_heartbeat adv_complete adv_fail adv_cancel)

lemma queue_op_fresh: "queue_ok s \<Longrightarrow> queue_op P x s = (Some l, t) \<Longrightarrow> fresh_lease s t l"
proof (cases x)
  case (Q_claim w ms now)
  assume "queue_ok s" "queue_op P x s = (Some l, t)"
  then show ?thesis using claim_spec [of s P w ms now] Q_claim by (auto simp: wp_def split: prod.splits sum.splits)
qed simp_all

fun newest_first :: "Lease list \<Rightarrow> bool" where
  "newest_first [] = True"
| "newest_first (l # ls) = (list_all (\<lambda>k. lease_id k = lease_id l \<longrightarrow> le_fencingToken k < le_fencingToken l) ls \<and> newest_first ls)"

definition known_lease :: "Queue \<Rightarrow> Lease \<Rightarrow> bool" where
  "known_lease s l \<longleftrightarrow> (\<exists>r \<in> set (q_jobs s). jr_id r = lease_id l \<and> le_fencingToken l \<le> jr_token r)"

definition history_ok :: "Queue \<times> Lease list \<Rightarrow> bool" where
  "history_ok w \<longleftrightarrow> queue_ok (fst w) \<and> newest_first (snd w) \<and> (\<forall>l \<in> set (snd w). known_lease (fst w) l)"

lemma known_lease_later: "known_lease s l \<Longrightarrow> jobs_le (q_jobs s) (q_jobs t) \<Longrightarrow> known_lease t l"
  by (fastforce simp: known_lease_def jobs_le_def job_le_def)

lemma history_ok_step:
  assumes ok: "history_ok (s, ls)" and x: "queue_op P x s = (res, t)"
  shows "history_ok (t, case res of None \<Rightarrow> ls | Some l \<Rightarrow> l # ls)"
proof -
  have t: "queue_ok t" "jobs_le (q_jobs s) (q_jobs t)"
    using queue_op_advances [of s P x] ok x by (simp_all add: advances_def history_ok_def)
  then have old: "\<forall>l \<in> set ls. known_lease t l"
    using ok known_lease_later by (auto simp: history_ok_def)
  show ?thesis
  proof (cases res)
    case (Some l)
    then have l: "fresh_lease s t l" using queue_op_fresh ok x by (simp add: history_ok_def)
    then have "known_lease t l" by (auto simp: fresh_lease_def known_lease_def list_ex_iff)
    moreover have "le_fencingToken k < le_fencingToken l" if "k \<in> set ls" "lease_id k = lease_id l" for k
      using ok that l by (fastforce simp: history_ok_def known_lease_def fresh_lease_def list_all_iff)
    ultimately show ?thesis using Some t old ok by (auto simp: history_ok_def list_all_iff)
  qed (use t old ok in \<open>simp add: history_ok_def\<close>)
qed

lemma history_ok_run: "history_ok w \<Longrightarrow> history_ok (run_queue P xs w)"
proof (induction P xs w rule: run_queue.induct)
  case (2 P x xs s ls)
  obtain res t where x: "queue_op P x s = (res, t)" by fastforce
  then show ?case using 2 history_ok_step [OF 2(2) x] by simp
qed simp

lemma history_ok_empty: "history_ok (empty_queue, [])"
  by (simp add: history_ok_def empty_queue_def queue_ok_def tables_ok_def)


section \<open>The properties\<close>

text \<open>
  C31: in every history of the queue, failed and stale calls included, ids and idempotency keys are unique, the
  attempts of a job are numbered one to its attempt count, never more than its maximum, each number is
  the fencing token of its lease, exactly the last one is open and exactly while the job runs, and a job
  has a worker and a lease exactly while it runs.
\<close>

theorem queue_invariant: "queue_ok (fst (run_queue P xs (empty_queue, [])))"
  using history_ok_run [OF history_ok_empty] by (simp add: history_ok_def)

text \<open>The leases of a history that a later lease of the same job replaced.\<close>

fun superseded :: "Lease list \<Rightarrow> Lease list" where
  "superseded [] = []"
| "superseded (l # ls) = filter (\<lambda>k. lease_id k = lease_id l) ls @ superseded ls"

definition inert :: "(string \<Rightarrow> json option) \<Rightarrow> Queue \<Rightarrow> Lease \<Rightarrow> bool" where
  "inert P s l \<longleftrightarrow>
     (\<forall>ms now. snd (heartbeat l ms now s) = s \<and> fst (heartbeat l ms now s) \<noteq> Inr True) \<and>
     (\<forall>ref now. snd (complete_job P l ref now s) = s) \<and>
     (\<forall>e rnd now. snd (fail_job l e rnd now s) = s \<and> fst (fail_job l e rnd now s) \<noteq> Inr True)"

lemma wp_refused:
  assumes "wp m (\<lambda>b t. t = s \<and> \<not> b) (\<lambda>_ t. t = s) s"
  shows "snd (m s) = s \<and> fst (m s) \<noteq> Inr True"
  using assms by (cases "m s") (auto simp: wp_def split: sum.splits)

lemma wp_unchanged:
  assumes "wp m (\<lambda>_ t. t = s) (\<lambda>_ t. t = s) s"
  shows "snd (m s) = s"
  using assms by (cases "m s") (auto simp: wp_def split: sum.splits)

lemma not_held_inert:
  assumes "\<And>now r. r \<in> set (q_jobs s) \<Longrightarrow> \<not> held_by l now r"
  shows "inert P s l"
proof -
  have none: "find_where (held_by l now) (q_jobs s) = None" for now
    using assms by (auto simp: find_where_None exists_where_iff)
  have "\<not> exists_where (\<lambda>r. held_by l now r \<and> \<not> jr_cancel r) (q_jobs s)" for now
    using assms by (auto simp: exists_where_iff)
  then have upd: "update_where (\<lambda>r. held_by l now r \<and> \<not> jr_cancel r) f (q_jobs s) = q_jobs s"
    "count_where (\<lambda>r. held_by l now r \<and> \<not> jr_cancel r) (q_jobs s) = 0" for now f
    using assms by (auto simp: update_where_none count_where_def filter_empty_conv)
  have a: "wp (heartbeat l ms now) (\<lambda>b t. t = s \<and> \<not> b) (\<lambda>_ t. t = s) s" for ms now
    by (simp add: heartbeat_def wp_simps open_guard_def clock_guard_def lease_guard_def upd)
  have b: "wp (complete_job P l ref now) (\<lambda>_ t. t = s) (\<lambda>_ t. t = s) s" for ref now
    by (simp add: complete_job_def wp_simps open_guard_def validText_def clock_guard_def getRaw_def none split: option.split sum.split)
  have c: "wp (fail_job l e rnd now) (\<lambda>b t. t = s \<and> \<not> b) (\<lambda>_ t. t = s) s" for e rnd now
    by (simp add: fail_job_def wp_simps open_guard_def validText_def clock_guard_def none)
  show ?thesis
    unfolding inert_def using a [THEN wp_refused] b [THEN wp_unchanged] c [THEN wp_refused] by simp
qed

lemma superseded_newer:
  "newest_first ls \<Longrightarrow> k \<in> set (superseded ls) \<Longrightarrow> \<exists>l \<in> set ls. lease_id l = lease_id k \<and> le_fencingToken k < le_fencingToken l"
  by (induction ls) (auto simp: list_all_iff)

text \<open>
  C14: no two leases of a job carry the same fencing token, and once a job was claimed again, every lease it had
  before is inert: heartbeats and failures with it are refused, and neither they nor a completion
  changes the queue, whatever their arguments.
\<close>

theorem stale_leases_fenced:
  "case run_queue P xs (empty_queue, []) of (s, ls) \<Rightarrow>
     distinct (map (\<lambda>l. (lease_id l, le_fencingToken l)) ls) \<and> list_all (inert P s) (superseded ls)"
proof -
  obtain s ls where w: "run_queue P xs (empty_queue, []) = (s, ls)" by fastforce
  then have ok: "queue_ok s" "newest_first ls" "\<forall>l \<in> set ls. known_lease s l"
    using history_ok_run [OF history_ok_empty, of P xs] by (simp_all add: history_ok_def)
  have "distinct (map (\<lambda>l. (lease_id l, le_fencingToken l)) ls)"
    using ok(2) by (induction ls) (auto simp: list_all_iff)
  moreover have "inert P s k" if k: "k \<in> set (superseded ls)" for k
  proof (rule not_held_inert)
    fix now r assume r: "r \<in> set (q_jobs s)"
    obtain l where l: "l \<in> set ls" "lease_id l = lease_id k" "le_fencingToken k < le_fencingToken l"
      using superseded_newer [OF ok(2) k] by blast
    then obtain p where p: "p \<in> set (q_jobs s)" "jr_id p = lease_id k" "le_fencingToken l \<le> jr_token p"
      using ok(3) by (auto simp: known_lease_def)
    show "\<not> held_by k now r"
    proof
      assume "held_by k now r"
      then have "r = p" "jr_token r = le_fencingToken k"
        using tables_ok_same [of "q_jobs s" "q_attempts s" p r] ok(1) r p
        by (auto simp: queue_ok_def held_by_def lease_id_def)
      then show False using l p by simp
    qed
  qed
  ultimately show ?thesis by (simp add: w list_all_iff)
qed

lemma run_queue_append: "run_queue P (xs @ ys) w = run_queue P ys (run_queue P xs w)"
  by (induction P xs w rule: run_queue.induct) (simp_all split: prod.split)

lemma run_queue_advances: "advances (fst w) (fst (run_queue P xs w))"
proof (induction P xs w rule: run_queue.induct)
  case (2 P x xs s ls)
  obtain res t where x: "queue_op P x s = (res, t)" by fastforce
  then show ?case using 2 queue_op_advances [of s P x] by (auto intro: advances_trans)
qed simp

text \<open>
  Whatever happens later, no job disappears, its fencing token never decreases, and a job that succeeded,
  was cancelled or dead-lettered keeps that status and its result.
\<close>

theorem finished_jobs_final:
  "jobs_le (q_jobs (fst (run_queue P xs (empty_queue, [])))) (q_jobs (fst (run_queue P (xs @ ys) (empty_queue, []))))"
  using run_queue_advances [of "run_queue P xs (empty_queue, [])" P ys] history_ok_run [OF history_ok_empty, of P xs]
  by (simp add: run_queue_append advances_def history_ok_def)

text \<open>
  C39: a claim with valid arguments on an open queue that is not draining and can read its payloads always returns, its loop over the expired
  leases included. It leaves no expired lease behind, and hands out a lease whenever a job is ready -
  queued or scheduled and due, or running under an expired lease with attempts left - for one
  that no other ready job precedes in the order of schedule and creation.
\<close>

theorem claim_serves_ready:
  assumes "claim_args w ms now" and "payloads_readable P (fst (run_queue P xs (empty_queue, [])))"
    and "\<not> q_closed (fst (run_queue P xs (empty_queue, [])))" and "\<not> q_draining (fst (run_queue P xs (empty_queue, [])))"
  shows "case claim_job P w ms now (fst (run_queue P xs (empty_queue, []))) of (res, t) \<Rightarrow>
     \<exists>l. res = Inr l \<and> takes_first (ready_places now (fst (run_queue P xs (empty_queue, [])))) l \<and>
       list_all (\<lambda>r. \<not> lease_expired now r) (q_jobs t)"
proof -
  define s where "s = fst (run_queue P xs (empty_queue, []))"
  have ok: "queue_ok s" using history_ok_run [OF history_ok_empty, of P xs] by (simp add: s_def history_ok_def)
  have ms: "0 < ms" using assms(1) by (simp add: claim_args_def)
  have alive: "wp (claim_body P w ms now) (\<lambda>_ t. list_all (\<lambda>r. \<not> lease_expired now r) (q_jobs t)) (\<lambda>_ _. True) s"
    unfolding claim_body_def
    by (rule wp_seqI, rule wp_mono [OF recover_leases_spec [OF ok]])
      (auto simp: wp_bindE wp_getE wp_simps take_lease_alive [OF ms] split: option.split)
  have "wp (claim_body P w ms now) (\<lambda>res t. takes_first (ready_places now s) res \<and> list_all (\<lambda>r. \<not> lease_expired now r) (q_jobs t))
     (\<lambda>_ _. False) s"
    by (rule wp_mono [OF wp_conj [OF claim_body_spec [OF ok, of P w ms now] alive]])
      (use assms(2) in \<open>auto simp: s_def\<close>)
  then have "wp (claim_job P w ms now) (\<lambda>res t. takes_first (ready_places now s) res \<and> list_all (\<lambda>r. \<not> lease_expired now r) (q_jobs t))
     (\<lambda>_ _. False) s"
    using assms unfolding s_def [symmetric]
    by (simp add: claim_job_def wp_simps open_guard_def validText_def clock_guard_def lease_guard_def claim_args_def)
  then show ?thesis unfolding s_def [symmetric] wp_def by (auto split: prod.splits sum.splits)
qed


subsection \<open>An example\<close>

definition ex_parse :: "string \<Rightarrow> json option" where
  "ex_parse = (\<lambda>_. Some J_null)"

definition ex_options :: EnqueueOptions where
  "ex_options = \<lparr> eo_id = Some ''j'', eo_idempotencyKey = None, eo_scheduledAt = None, eo_maxAttempts = None,
     eo_backoffMs = None, eo_jitter = None \<rparr>"

definition ex_queued :: "QueueOp list" where
  "ex_queued = [Q_register ''t'' Inr, Q_enqueue ''t'' J_null ex_options ''u'' 0]"

definition ex_job :: JobRow where
  "ex_job = new_job ''j'' ''t'' ''null'' ex_options 0"

lemma ex_queued_run:
  "run_queue ex_parse ex_queued (empty_queue, []) = (empty_queue\<lparr> q_schemas := [''t'' \<mapsto> Inr], q_jobs := [ex_job] \<rparr>, [])"
proof -
  have "new_job ''j'' ''t'' ''null'' ex_options 0 = ex_job" by (simp add: ex_job_def)
  moreover have "map_job ex_parse ex_job = Inr \<lparr> jb_id = ''j'', jb_type = ''t'', jb_payload = J_null, jb_status = Js_queued,
      jb_scheduledAt = 0, jb_attemptCount = 0, jb_maxAttempts = 3, jb_resultRef = None, jb_error = None, jb_cancelRequested = False \<rparr>"
    by (simp add: map_job_def ex_parse_def ex_job_def new_job_def ex_options_def option_or_def)
  moreover have "jr_key ex_job = None" "jr_id ex_job = ''j''" by (simp_all add: ex_job_def new_job_def ex_options_def Let_def)
  moreover have "\<not> bad_options ex_options 0" "eo_id ex_options = Some ''j''" "eo_idempotencyKey ex_options = None"
    by (simp_all add: bad_options_def ex_options_def option_or_def js_safe_integer_def max_safe_integer_def)
  ultimately show ?thesis
    by (simp add: ex_queued_def empty_queue_def register_def enqueue_def eff_defs open_guard_def validText_def clock_guard_def
        MAX_TEXT_def canonical_payload_def canonicalSerialize_def byte_length_def throwIf_def option_or_def
        insert_job_def getRaw_def raw_job_def js_safe_integer_def max_safe_integer_def exists_where_iff Let_def)
qed

theorem claim_serves_ready_witness:
  "\<exists>l. fst (claim_job ex_parse ''w'' 10 5 (fst (run_queue ex_parse ex_queued (empty_queue, [])))) = Inr (Some l)"
proof -
  have place: "ready_places 5 (fst (run_queue ex_parse ex_queued (empty_queue, []))) = [(''j'', 0, 0)]"
    unfolding ex_queued_run by (simp add: Let_def ready_places_def ready_def queue_place_def ex_job_def new_job_def ex_options_def option_or_def)
  have "case claim_job ex_parse ''w'' 10 5 (fst (run_queue ex_parse ex_queued (empty_queue, []))) of (res, t) \<Rightarrow>
     \<exists>l. res = Inr l \<and> takes_first [(''j'', 0, 0)] l \<and> list_all (\<lambda>r. \<not> lease_expired 5 r) (q_jobs t)"
    unfolding place [symmetric]
    by (rule claim_serves_ready; (unfold ex_queued_run)?)
      (simp_all add: claim_args_def MAX_TEXT_def js_safe_integer_def max_safe_integer_def payloads_readable_def
        ex_parse_def empty_queue_def)
  then show ?thesis by (auto simp: takes_first_def split: prod.splits option.splits)
qed

section \<open>Retries\<close>

lemma dbl_2_53: "dbl 9007199254740992 = JNum 9007199254740992"
  by (rule dbl_representable [of _ 1 53]) (simp_all add: power_int_def)

lemma dbl_large:
  assumes "9007199254740992 \<le> q"
  shows "js_le (JNum 9007199254740992) (dbl q)"
  using dbl_le [OF assms] unfolding dbl_2_53 .

text \<open>At or beyond \<open>2 ^ 53\<close>, \<open>Infinity\<close> included: sums and products with what is not negative, or at least one, stay there.\<close>

definition large :: "jsnum \<Rightarrow> bool" where
  "large x \<longleftrightarrow> js_le (JNum (9007199254740992)) x"

lemma large_cases: "large x \<longleftrightarrow> x = JInf False \<or> (\<exists>q. x = JNum q \<and> 9007199254740992 \<le> q)"
  by (cases x) (auto simp: large_def js_le_def)

lemma large_dbl: "9007199254740992 \<le> q \<Longrightarrow> large (dbl q)"
  by (simp add: large_def dbl_large)

lemma large_mul: "large x \<Longrightarrow> 1 \<le> y \<Longrightarrow> large (fl_mul x (JNum y))"
proof (cases x)
  case (JNum a)
  assume "large x" "1 \<le> y"
  then have "9007199254740992 * 1 \<le> a * y" using JNum by (intro mult_mono) (auto simp: large_cases)
  then show ?thesis using JNum by (simp add: large_dbl)
qed (auto simp: large_cases)

lemma large_round: "large x \<Longrightarrow> large (js_round x)"
proof (cases x)
  case (JNum a)
  assume "large x"
  then have "(of_int (9007199254740992) :: rat) \<le> a" using JNum by (simp add: large_cases)
  then have "(9007199254740992 :: int) \<le> \<lfloor>a + 1 / 2\<rfloor>" by (simp add: le_floor_iff)
  then have "(of_int (9007199254740992) :: rat) \<le> of_int \<lfloor>a + 1 / 2\<rfloor>" by (simp only: of_int_le_iff)
  then show ?thesis using JNum by (simp add: large_cases)
qed (auto simp: large_cases)

lemma large_add: "large x \<Longrightarrow> 0 \<le> a \<Longrightarrow> large (fl_add (JNum a) x)"
  by (auto simp: large_cases [of x] intro!: large_dbl) (simp add: large_cases)

lemma large_unsafe: "large x \<Longrightarrow> \<not> js_isSafeInteger x"
proof
  assume "large x" "js_isSafeInteger x"
  then obtain q where q: "x = JNum q" "9007199254740992 \<le> q" "of_int \<lfloor>q\<rfloor> = q" "js_safe_integer \<lfloor>q\<rfloor>"
    by (cases x) (auto simp: large_cases)
  then have "(9007199254740992 :: int) \<le> \<lfloor>q\<rfloor>" by (simp add: le_floor_iff)
  then show False using q(4) by (simp add: js_safe_integer_def max_safe_integer_def)
qed


lemma dbl_between:
  assumes "p \<le> q" "q \<le> r" "dbl p = JNum p" "dbl r = JNum r"
  obtains v where "dbl q = JNum v" "p \<le> v" "v \<le> r"
proof -
  have "js_le (JNum p) (dbl q)" "js_le (dbl q) (JNum r)" using dbl_le assms by metis+
  then show ?thesis using that by (cases "dbl q") (auto simp: js_le_def split: if_splits)
qed

lemma dbl_small_int: "0 \<le> n \<Longrightarrow> n < 9007199254740992 \<Longrightarrow> dbl (of_int n) = JNum (of_int n)"
  by (rule dbl_int) simp

text \<open>
  A retry that \<open>fail\<close> schedules falls between the exponential backoff and twice the backoff after the
  failure, whatever the jitter and the random number, the rounding of the doubles included; a delay
  that leaves the safe integers is refused instead.
\<close>

theorem retry_backoff_bounds:
  assumes t: "retry_time r rnd now = Inr t" and b: "0 \<le> jr_backoff r" and j: "0 \<le> jr_jitter r" "jr_jitter r \<le> 1"
    and rnd: "0 \<le> rnd" "rnd \<le> 1" and now: "0 \<le> now"
  shows "t \<in> {now + jr_backoff r * 2 ^ nat (jr_attempts r - 1) .. now + 2 * (jr_backoff r * 2 ^ nat (jr_attempts r - 1))}"
proof -
  define k where "k = nat (jr_attempts r - 1)"
  define m where "m = jr_backoff r * 2 ^ k"
  define a where "a = fl_mul (JNum (of_int (jr_backoff r))) (js_pow2 k)"
  have units: "dbl 0 = JNum 0" "dbl 1 = JNum 1" "dbl 2 = JNum 2"
    using dbl_small_int [of 0] dbl_small_int [of 1] dbl_small_int [of 2] by simp_all
  have "0 \<le> jr_jitter r * rnd" "jr_jitter r * rnd \<le> 1" using j rnd by (simp_all add: mult_le_one)
  then obtain x where x: "dbl (jr_jitter r * rnd) = JNum x" "0 \<le> x" "x \<le> 1"
    using dbl_between units by metis
  then obtain y where y: "fl_add (JNum 1) (fl_mul (JNum (jr_jitter r)) (JNum rnd)) = JNum y" "1 \<le> y" "y \<le> 2"
    using dbl_between [of 1 "1 + x" 2] units by auto
  have delay: "retry_delay r rnd = fl_mul a (JNum y)" by (simp only: retry_delay_def y k_def a_def)
  have safe: "js_isSafeInteger (fl_add (JNum (of_int now)) (js_round (fl_mul a (JNum y))))"
    "js_BigInt (fl_add (JNum (of_int now)) (js_round (fl_mul a (JNum y)))) = Some t \<or> t = 0 \<and> js_BigInt (fl_add (JNum (of_int now)) (js_round (fl_mul a (JNum y)))) = None"
    using t by (auto simp: retry_time_def delay Let_def option_or_def split: option.splits)
  have small: "\<not> large a" and number: "a \<noteq> JNaN"
    using safe(1) large_unsafe large_add [OF large_round [OF large_mul]] y now by (auto simp: js_floor.simps)
  then have k: "k < 1024" using b by (auto simp: a_def js_pow2_def large_cases split: if_splits)
  then have a: "a = dbl (of_int m)" by (simp add: a_def m_def js_pow2_def)
  have "\<not> 9007199254740992 \<le> (of_int m :: rat)" using small large_dbl [of "of_int m"] a by blast
  then have "m < 9007199254740992" by linarith
  then have m: "0 \<le> m" "m < 9007199254740992" using b by (simp_all add: m_def)
  then have m1: "dbl (of_int m) = JNum (of_int m)" by (rule dbl_small_int)
  have m2: "dbl (of_int (2 * m)) = JNum (of_int (2 * m))"
  proof (rule dbl_representable)
    show "of_int (2 * m) = of_int m * (2::rat) powi 1" by simp
    have "\<bar>of_int (2 * m) :: rat\<bar> < of_int (2 ^ 54)" using m by (simp only: of_int_abs [symmetric] of_int_less_iff) simp
    also have "of_int (2 ^ 54) < (2 ^ 1024 :: rat)" by simp
    finally show "\<bar>of_int (2 * m) :: rat\<bar> < 2 ^ 1024" .
  qed (use m in simp_all)
  have "of_int m * 1 \<le> of_int m * y" "of_int m * y \<le> of_int m * 2" using m y by (intro mult_left_mono; simp)+
  then obtain c where c: "fl_mul a (JNum y) = JNum c" "of_int m \<le> c" "c \<le> of_int (2 * m)"
    using dbl_between [of "of_int m" "of_int m * y" "of_int (2 * m)"] m1 m2 a by auto
  define n where "n = \<lfloor>c + 1 / 2\<rfloor>"
  have n: "m \<le> n" "n \<le> 2 * m"
    using c by (auto simp: n_def le_floor_iff floor_le_iff)
  have sum: "fl_add (JNum (of_int now)) (js_round (fl_mul a (JNum y))) = dbl (of_int (now + n))"
    by (simp add: c n_def)
  have "now + n < 9007199254740992"
  proof (rule ccontr)
    assume "\<not> ?thesis"
    then have "(of_int 9007199254740992 :: rat) \<le> of_int (now + n)" by (simp only: of_int_le_iff not_less)
    then have "large (dbl (of_int (now + n)))" by (intro large_dbl) simp
    then show False using safe(1) sum large_unsafe by simp
  qed
  then have "dbl (of_int (now + n)) = JNum (of_int (now + n))" using now n m by (intro dbl_small_int) auto
  then have "js_BigInt (fl_add (JNum (of_int now)) (js_round (fl_mul a (JNum y)))) = Some (now + n)" unfolding sum by simp
  then have "t = now + n" using safe(2) by simp
  then show ?thesis using n by (simp add: m_def k_def)
qed

theorem retry_backoff_bounds_witness:
  "retry_time ex_job 0 7 = Inr 1007 \<and> 1007 \<in> {7 + jr_backoff ex_job .. 7 + 2 * jr_backoff ex_job}"
proof -
  have "dbl 0 = JNum 0" "dbl 1 = JNum 1" "dbl 1000 = JNum 1000" "dbl 1007 = JNum 1007"
    using dbl_small_int [of 0] dbl_small_int [of 1] dbl_small_int [of 1000] dbl_small_int [of 1007] by simp_all
  moreover have "\<lfloor>2001 / 2 :: rat\<rfloor> = 1000" by (simp add: floor_eq_iff)
  ultimately have "retry_time ex_job 0 7 = Inr 1007"
    by (simp add: retry_time_def retry_delay_def js_pow2_def ex_job_def new_job_def ex_options_def option_or_def Let_def
        jitter_value_def js_safe_integer_def max_safe_integer_def)
  from this retry_backoff_bounds [OF this] show ?thesis
    by (simp add: ex_job_def new_job_def ex_options_def option_or_def Let_def jitter_value_def)
qed


section \<open>Draining\<close>

definition op_time :: "QueueOp \<Rightarrow> int option" where
  "op_time x = (case x of Q_enqueue _ _ _ _ n \<Rightarrow> Some n | Q_claim _ _ n \<Rightarrow> Some n | Q_heartbeat _ _ n \<Rightarrow> Some n
     | Q_complete _ _ n \<Rightarrow> Some n | Q_fail _ _ _ n \<Rightarrow> Some n | Q_cancel _ n \<Rightarrow> Some n | _ \<Rightarrow> None)"

text \<open>A draining queue with a running job whose lease runs out at \<open>e\<close>.\<close>

definition abandoned :: "int \<Rightarrow> Queue \<Rightarrow> bool" where
  "abandoned e s \<longleftrightarrow> q_draining s \<and> list_ex (\<lambda>r. jr_status r = Js_running \<and> jr_lease r = Some e) (q_jobs s)"

definition stays :: "int \<Rightarrow> 'a qop \<Rightarrow> bool" where
  "stays e m \<longleftrightarrow> (\<forall>s. abandoned e s \<longrightarrow> wp m (\<lambda>_. abandoned e) (\<lambda>_. abandoned e) s)"

lemma stays_bind: "stays e m \<Longrightarrow> (\<And>x. stays e (f x)) \<Longrightarrow> stays e (bindE m f)"
  unfolding stays_def wp_bindE by (blast intro: wp_mono)

lemma stays_seq: "stays e m \<Longrightarrow> stays e n \<Longrightarrow> stays e (seqE m n)"
  unfolding seqE_def by (rule stays_bind)

lemma stays_transaction: "stays e m \<Longrightarrow> stays e (transactionE m)"
  unfolding stays_def wp_transactionE by (blast intro: wp_mono)

lemma stays_atoms:
  "stays e (returnE x)" "stays e (throwE y)" "stays e (getE h)" "stays e (guardE b z)" "stays e (liftE v)"
  "stays e (modifyE (\<lambda>s. s\<lparr> q_schemas := g s \<rparr>))" "stays e (modifyE (\<lambda>s. s\<lparr> q_closed := b \<rparr>))"
  "stays e (modifyE (\<lambda>s. s\<lparr> q_draining := True \<rparr>))" "stays e (modifyE (\<lambda>s. s\<lparr> q_jobs := q_jobs s @ rs \<rparr>))"
  "stays e (finish_attempt i n k)"
  by (auto simp: stays_def wp_simps abandoned_def split: sum.split)

lemma stays_option: "stays e m \<Longrightarrow> (\<And>x. stays e (f x)) \<Longrightarrow> stays e (case v of None \<Rightarrow> m | Some x \<Rightarrow> f x)"
  by (simp split: option.split)

lemma stays_if: "(b \<Longrightarrow> stays e m) \<Longrightarrow> (\<not> b \<Longrightarrow> stays e n) \<Longrightarrow> stays e (if b then m else n)"
  by simp

lemma stays_guards: "stays e open_guard" "stays e (validText v n b)" "stays e (clock_guard t)" "stays e (lease_guard k)"
  unfolding open_guard_def validText_def clock_guard_def lease_guard_def by (intro stays_bind stays_atoms)+

lemma stays_getRaw: "stays e (getRaw P i)"
  unfolding getRaw_def by (intro stays_bind stays_option stays_atoms)

lemmas stays_rules = stays_seq stays_bind stays_transaction stays_option stays_if stays_atoms stays_guards stays_getRaw

lemma stays_update:
  assumes "\<And>r. W r \<Longrightarrow> jr_status r = Js_running \<and> jr_lease r = Some e \<Longrightarrow> jr_status (f r) = Js_running \<and> jr_lease (f r) = Some e"
  shows "stays e (update_jobs W f)"
  unfolding stays_def wp_update_jobs
proof (intro allI impI)
  fix s assume "abandoned e s"
  then obtain r where r: "q_draining s" "r \<in> set (q_jobs s)" "jr_status r = Js_running" "jr_lease r = Some e"
    by (auto simp: abandoned_def list_ex_iff)
  have "(if W r then f r else r) \<in> set (update_where W f (q_jobs s))" using r(2) by (simp add: set_update_where)
  moreover have "jr_status (if W r then f r else r) = Js_running \<and> jr_lease (if W r then f r else r) = Some e"
    using assms [of r] r by simp
  ultimately show "abandoned e (s\<lparr> q_jobs := update_where W f (q_jobs s) \<rparr>)"
    unfolding abandoned_def list_ex_iff using r(1) by auto
qed

lemma stays_finish_held: "e \<le> now \<Longrightarrow> stays e (finish_held l now f g b)"
  unfolding finish_held_def by (intro stays_rules stays_update) (auto simp: held_by_def)

lemma queue_op_stays:
  assumes "abandoned e s" and "case op_time x of None \<Rightarrow> True | Some n \<Rightarrow> e \<le> n"
  shows "abandoned e (snd (queue_op P x s))"
proof -
  have keep: "abandoned e (snd (m s))" if "stays e m" for m :: "'b qop"
    using that assms(1) unfolding stays_def wp_def by (cases "m s") (auto split: sum.splits)
  show ?thesis
  proof (cases x)
    case (Q_register type sch)
    have "stays e (register type sch)" unfolding register_def by (intro stays_rules)
    then show ?thesis using Q_register keep by simp
  next
    case (Q_enqueue type v opts uuid now)
    have "stays e (enqueue P type v opts uuid now)"
      unfolding enqueue_def insert_job_def Let_def by (intro stays_rules)
    then show ?thesis using Q_enqueue keep by simp
  next
    case (Q_claim w ms now)
    then show ?thesis using assms(1) by (simp add: claim_job_def eff_defs open_guard_def abandoned_def)
  next
    case (Q_heartbeat l ms now)
    have "stays e (update_jobs (\<lambda>r. held_by l now r \<and> \<not> jr_cancel r) (\<lambda>r. r\<lparr> jr_lease := Some (now + ms), jr_updated := now \<rparr>))"
      using assms(2) Q_heartbeat by (intro stays_update) (auto simp: held_by_def op_time_def)
    then have "stays e (heartbeat l ms now)" unfolding heartbeat_def by (intro stays_rules)
    then show ?thesis using Q_heartbeat keep by simp
  next
    case (Q_complete l ref now)
    have "stays e (complete_job P l ref now)"
      using assms(2) Q_complete unfolding complete_job_def Let_def
      by (intro stays_rules stays_finish_held) (auto simp: op_time_def)
    then show ?thesis using Q_complete keep by simp
  next
    case (Q_fail l err rnd now)
    have "stays e (fail_job l err rnd now)"
      using assms(2) Q_fail unfolding fail_job_def
      by (intro stays_rules stays_finish_held) (auto simp: op_time_def)
    then show ?thesis using Q_fail keep by simp
  next
    case (Q_cancel i now)
    have "stays e (cancel_job i now)"
      unfolding cancel_job_def by (intro stays_rules stays_update) auto
    then show ?thesis using Q_cancel keep by simp
  next
    case Q_beginDrain
    have "stays e beginDrain" unfolding beginDrain_def by (intro stays_rules)
    then show ?thesis using Q_beginDrain keep by simp
  next
    case Q_close
    have "stays e close_queue" unfolding close_queue_def by (intro stays_rules)
    then show ?thesis using Q_close keep by simp
  qed
qed

lemma run_queue_stays:
  "abandoned e (fst w) \<Longrightarrow> list_all (\<lambda>x. case op_time x of None \<Rightarrow> True | Some n \<Rightarrow> e \<le> n) xs \<Longrightarrow> abandoned e (fst (run_queue P xs w))"
proof (induction P xs w rule: run_queue.induct)
  case (2 P x xs s ls)
  obtain res t where x: "queue_op P x s = (res, t)" by fastforce
  then show ?case using 2 queue_op_stays [of e s x P] by simp
qed simp

text \<open>
  Once the queue drains, a job whose lease has run out stays running whatever is called afterwards: the
  only operation that recovers expired leases is the claim, and a draining queue answers it before it
  looks at them. \<open>drain\<close>, which waits until no job runs, then always times out.
\<close>

theorem drain_never_ends:
  assumes "list_ex (\<lambda>r. jr_status r = Js_running \<and> jr_lease r = Some e) (q_jobs (fst (run_queue P xs (empty_queue, []))))"
    and "\<not> q_closed (fst (run_queue P xs (empty_queue, [])))"
    and "list_all (\<lambda>x. case op_time x of None \<Rightarrow> True | Some n \<Rightarrow> e \<le> n) ys"
  shows "0 < running_jobs (fst (run_queue P (xs @ Q_beginDrain # ys) (empty_queue, [])))"
proof -
  obtain s ls where w: "run_queue P xs (empty_queue, []) = (s, ls)" by fastforce
  have "abandoned e (snd (beginDrain s))"
    using assms(1,2) by (simp add: w beginDrain_def eff_defs open_guard_def abandoned_def)
  then have "abandoned e (fst (run_queue P ys (snd (beginDrain s), ls)))"
    using assms(3) by (intro run_queue_stays) simp_all
  then show ?thesis
    by (auto simp: run_queue_append w abandoned_def running_jobs_def count_where_def filter_empty_conv list_ex_iff)
qed


definition ex_claimed :: "QueueOp list" where
  "ex_claimed = ex_queued @ [Q_claim ''w'' 10 0]"

lemma ex_claimed_run:
  "q_jobs (fst (run_queue ex_parse ex_claimed (empty_queue, []))) =
     [ex_job\<lparr> jr_status := Js_running, jr_worker := Some ''w'', jr_token := 1, jr_lease := Some 10, jr_attempts := 1, jr_updated := 0 \<rparr>]"
  "\<not> q_closed (fst (run_queue ex_parse ex_claimed (empty_queue, [])))"
proof -
  let ?s = "empty_queue\<lparr> q_schemas := [''t'' \<mapsto> Inr], q_jobs := [ex_job] \<rparr>"
  have job: "jr_status ex_job = Js_queued" "jr_scheduledAt ex_job = 0" "jr_attempts ex_job = 0" "jr_max ex_job = 3"
    "jr_cancel ex_job = False" "jr_id ex_job = ''j''" "jr_token ex_job = 0" "jr_updated ex_job = 0"
    by (simp_all add: ex_job_def new_job_def ex_options_def option_or_def Let_def)
  then have "recover_leases 0 ?s = (Inr (), ?s)"
    by (simp add: recover_leases.simps [of 0 ?s] lease_expired_def)
  moreover have "next_claimable 0 ?s = Some ex_job"
    using job by (simp add: next_claimable_def claimable_def)
  ultimately have "claim_job ex_parse ''w'' 10 0 ?s = (fst (claim_job ex_parse ''w'' 10 0 ?s), ?s\<lparr> q_jobs :=
      [ex_job\<lparr> jr_status := Js_running, jr_worker := Some ''w'', jr_token := 1, jr_lease := Some 10, jr_attempts := 1, jr_updated := 0 \<rparr>],
      q_attempts := [\<lparr> at_job = ''j'', at_number = 1, at_worker = ''w'', at_token = 1, at_started = 0, at_finished = None,
        at_outcome = None, at_error = None, at_result = None \<rparr>] \<rparr>)"
    using job
    by (simp add: claim_job_def claim_body_def eff_defs open_guard_def validText_def clock_guard_def lease_guard_def MAX_TEXT_def
        js_safe_integer_def max_safe_integer_def empty_queue_def take_lease_def update_jobs_def claimable_def raw_job_def
        insert_attempt_def exists_where_iff count_where_def map_job_def ex_parse_def)
  moreover have "\<not> q_closed ?s" by (simp add: empty_queue_def)
  ultimately show "q_jobs (fst (run_queue ex_parse ex_claimed (empty_queue, []))) =
     [ex_job\<lparr> jr_status := Js_running, jr_worker := Some ''w'', jr_token := 1, jr_lease := Some 10, jr_attempts := 1, jr_updated := 0 \<rparr>]"
    "\<not> q_closed (fst (run_queue ex_parse ex_claimed (empty_queue, [])))"
    unfolding ex_claimed_def run_queue_append ex_queued_run by (auto split: prod.splits sum.splits)
qed

theorem drain_never_ends_witness:
  "0 < running_jobs (fst (run_queue ex_parse (ex_claimed @ Q_beginDrain # [Q_claim ''v'' 10 20, Q_cancel ''j'' 30]) (empty_queue, [])))"
  by (rule drain_never_ends [of 10]) (simp_all add: ex_claimed_run op_time_def)

end
