(* ===== verification/PumpCurve.thy ===== *)
theory PumpCurve
  imports Doubles
begin

text \<open>
  \<open>src/src/pools/pumpfun/math.ts\<close>: the bonding curve of pump.fun. The value path is \<open>bigint\<close> arithmetic;
  the spot price and the price impact are doubles. The properties show that a buy never costs more
  than its budget, that the product of the reserves never shrinks, and that no buy can be sold back at
  a profit.
\<close>

section \<open>The curve\<close>

record CurveReserves =
  cv_virtualSol :: int
  cv_virtualToken :: int
  cv_realSol :: int
  cv_realToken :: int
  cv_totalSupply :: int
  cv_complete :: bool

type_synonym 'a curve = "string + 'a"

definition assertPositive :: "string \<Rightarrow> int \<Rightarrow> 'a curve \<Rightarrow> 'a curve" where
  "assertPositive name v k = throwIf (v \<le> 0) (name @ '' must be positive'') k"

record Fees =
  fe_lpBps :: int
  fe_protocolBps :: int
  fe_creatorBps :: int

record FeeTier =
  ft_threshold :: int
  ft_fees :: Fees

definition bondingCurveMarketCap :: "int \<Rightarrow> int \<Rightarrow> int \<Rightarrow> int curve" where
  "bondingCurveMarketCap supply sol token =
     assertPositive ''virtualTokenReserves'' token (Inr (big_div (sol * supply) token))"

text \<open>The loop from the last tier down to the first.\<close>

fun tier_loop :: "int \<Rightarrow> FeeTier list \<Rightarrow> Fees option" where
  "tier_loop cap [] = None"
| "tier_loop cap (t # ts) =
     (case tier_loop cap ts of Some f \<Rightarrow> Some f | None \<Rightarrow> if cap \<ge> ft_threshold t then Some (ft_fees t) else None)"

definition calculateFeeTier :: "FeeTier list \<Rightarrow> int \<Rightarrow> Fees curve" where
  "calculateFeeTier tiers cap =
     (case tiers of
        [] \<Rightarrow> Inl ''fee tier table is empty''
      | first # _ \<Rightarrow>
          if cap < ft_threshold first then Inr (ft_fees first)
          else Inr (case tier_loop cap tiers of Some f \<Rightarrow> f | None \<Rightarrow> ft_fees first))"

definition curveFeeBps :: "Fees \<Rightarrow> int" where
  "curveFeeBps f = fe_protocolBps f + fe_creatorBps f"

section \<open>Quotes\<close>

definition tokensForSol :: "CurveReserves \<Rightarrow> int \<Rightarrow> int curve" where
  "tokensForSol r solIn =
     assertPositive ''virtualSolReserves'' (cv_virtualSol r)
    (assertPositive ''virtualTokenReserves'' (cv_virtualToken r)
    (if solIn \<le> 0 then Inr 0
     else let k = cv_virtualSol r * cv_virtualToken r;
              newSol = cv_virtualSol r + solIn;
              newTokens = big_div k newSol + 1;
              out = (if cv_virtualToken r > newTokens then cv_virtualToken r - newTokens else 0)
          in Inr (if out < cv_realToken r then out else cv_realToken r)))"

definition solCostForTokens :: "CurveReserves \<Rightarrow> int \<Rightarrow> int curve" where
  "solCostForTokens r n =
     assertPositive ''virtualSolReserves'' (cv_virtualSol r)
    (assertPositive ''virtualTokenReserves'' (cv_virtualToken r)
    (if n \<le> 0 then Inr 0
     else throwIf (n \<ge> cv_virtualToken r) ''token amount would drain the virtual token reserve''
       (let k = cv_virtualSol r * cv_virtualToken r;
            newSol = big_div k (cv_virtualToken r - n) + 1
        in Inr (newSol - cv_virtualSol r))))"

definition solForTokens :: "CurveReserves \<Rightarrow> int \<Rightarrow> int curve" where
  "solForTokens r n =
     assertPositive ''virtualSolReserves'' (cv_virtualSol r)
    (assertPositive ''virtualTokenReserves'' (cv_virtualToken r)
    (if n \<le> 0 then Inr 0
     else Inr (big_div (n * cv_virtualSol r) (cv_virtualToken r + n))))"

definition BigInt_of :: "jsnum \<Rightarrow> int curve" where
  "BigInt_of x = (case js_BigInt x of None \<Rightarrow> Inl ''RangeError'' | Some n \<Rightarrow> Inr n)"

definition price_impact :: "jsnum \<Rightarrow> jsnum \<Rightarrow> jsnum" where
  "price_impact spot effective =
     (if js_gt spot (JNum 0) then fl_mul (fl_div (fl_sub effective spot) spot) (JNum 100) else JNum 0)"

record BuyQuote =
  bq_tokenAmount :: int
  bq_solCost :: int
  bq_fee :: int
  bq_total :: int
  bq_maxSolCost :: int
  bq_feeBps :: int
  bq_spotPrice :: jsnum
  bq_priceImpact :: jsnum

definition spot_price :: "CurveReserves \<Rightarrow> jsnum" where
  "spot_price r = fl_div (js_Number (cv_virtualSol r)) (js_Number (cv_virtualToken r))"

definition quoteBuyForSolBudget :: "CurveReserves \<Rightarrow> int \<Rightarrow> int \<Rightarrow> jsnum \<Rightarrow> BuyQuote curve" where
  "quoteBuyForSolBudget r budget feeBps slippage =
     throwIf (budget \<le> 0) ''sol budget must be positive''
    (throwIf (feeBps < 0) ''feeBps must be non-negative''
    (throwIf (\<not> js_isFinite slippage \<or> js_lt slippage (JNum 0)) ''slippageBps must be finite and non-negative''
    (throwIf (cv_complete r) ''curve has completed: it no longer accepts buys''
    (bindR (tokensForSol r (big_div (budget * 10000) (10000 + feeBps))) (\<lambda>tokenAmount.
     throwIf (tokenAmount \<le> 0) ''budget too small to buy a single token unit''
    (bindR (solCostForTokens r tokenAmount) (\<lambda>solCost.
     let fee = big_div (solCost * feeBps) 10000; total = solCost + fee in
     bindR (BigInt_of (fl_add (JNum 10000) (js_round slippage))) (\<lambda>factor.
     let maxSolCost = big_div (total * factor) 10000;
         spot = spot_price r;
         effective = fl_div (js_Number solCost) (js_Number tokenAmount) in
     Inr \<lparr> bq_tokenAmount = tokenAmount, bq_solCost = solCost, bq_fee = fee, bq_total = total,
       bq_maxSolCost = maxSolCost, bq_feeBps = feeBps, bq_spotPrice = spot, bq_priceImpact = price_impact spot effective \<rparr>))))))))"

record SellQuote =
  sl_tokenAmount :: int
  sl_grossSol :: int
  sl_fee :: int
  sl_netSol :: int
  sl_minSolOutput :: int
  sl_feeBps :: int
  sl_spotPrice :: jsnum
  sl_priceImpact :: jsnum

definition quoteSell :: "CurveReserves \<Rightarrow> int \<Rightarrow> int \<Rightarrow> jsnum \<Rightarrow> SellQuote curve" where
  "quoteSell r n feeBps slippage =
     throwIf (n \<le> 0) ''token amount must be positive''
    (throwIf (feeBps < 0) ''feeBps must be non-negative''
    (throwIf (\<not> js_isFinite slippage \<or> js_lt slippage (JNum 0)) ''slippageBps must be finite and non-negative''
    (throwIf (js_ge slippage (JNum 10000)) ''slippageBps must be below 100%''
    (throwIf (cv_complete r) ''curve has completed: it no longer accepts sells''
    (bindR (solForTokens r n) (\<lambda>gross.
     let fee = big_div (gross * feeBps) 10000; net = gross - fee in
     bindR (BigInt_of (fl_sub (JNum 10000) (js_round slippage))) (\<lambda>factor.
     let minOut = big_div (net * factor) 10000;
         spot = spot_price r;
         effective = fl_div (js_Number gross) (js_Number n) in
     Inr \<lparr> sl_tokenAmount = n, sl_grossSol = gross, sl_fee = fee, sl_netSol = net, sl_minSolOutput = minOut,
       sl_feeBps = feeBps, sl_spotPrice = spot, sl_priceImpact = price_impact spot effective \<rparr>)))))))"

definition curveUiPrice :: "CurveReserves \<Rightarrow> int \<Rightarrow> jsnum \<Rightarrow> jsnum" where
  "curveUiPrice r decimals pow10 =
     (if cv_virtualToken r \<le> 0 then JNum 0
      else fl_mul (fl_div (js_Number (cv_virtualSol r)) (js_Number (cv_virtualToken r))) pow10)"

definition curveProgressPct :: "CurveReserves \<Rightarrow> int \<Rightarrow> jsnum" where
  "curveProgressPct r initial =
     (if initial \<le> 0 then JNum 0
      else let sold = initial - cv_realToken r;
               pct = fl_mul (fl_div (js_Number sold) (js_Number initial)) (JNum 100)
           in js_min (JNum 100) (js_max (JNum 0) pct))"

section \<open>What the quotes guarantee\<close>

lemma assertPositive_Inr [simp]: "assertPositive n v k = Inr x \<longleftrightarrow> 0 < v \<and> k = Inr x"
  by (auto simp: assertPositive_def)

lemma div_succ_gt: "0 < d \<Longrightarrow> a < (a div d + 1) * d" for a d :: int
  using int_div_less_iff [of d a "a div d + 1"] by simp

lemma solCost_newSol:
  assumes "solCostForTokens r n = Inr c" "0 < n"
  shows "0 < cv_virtualSol r" "n < cv_virtualToken r" "0 < c"
    "cv_virtualSol r + c = cv_virtualSol r * cv_virtualToken r div (cv_virtualToken r - n) + 1"
    "cv_virtualSol r * cv_virtualToken r < (cv_virtualSol r + c) * (cv_virtualToken r - n)"
proof -
  show a: "0 < cv_virtualSol r" "n < cv_virtualToken r"
    "cv_virtualSol r + c = cv_virtualSol r * cv_virtualToken r div (cv_virtualToken r - n) + 1"
    using assms by (auto simp: solCostForTokens_def Let_def)
  then show k: "cv_virtualSol r * cv_virtualToken r < (cv_virtualSol r + c) * (cv_virtualToken r - n)"
    using div_succ_gt [of "cv_virtualToken r - n"] by simp
  have "cv_virtualSol r * (cv_virtualToken r - n) < (cv_virtualSol r + c) * (cv_virtualToken r - n)"
    using k a assms(2) by (smt (verit) mult_less_cancel_left_pos)
  then show "0 < c" using a(2) by (simp add: mult_less_cancel_right)
qed

lemma tokens_cost_within:
  assumes t: "tokensForSol r b = Inr n" and n: "0 < n" and c: "solCostForTokens r n = Inr c"
  shows "c \<le> b"
proof -
  let ?S = "cv_virtualSol r" and ?T = "cv_virtualToken r"
  have b: "0 < b" "0 < ?S" "0 < ?T" using t n by (auto simp: tokensForSol_def split: if_splits)
  define x where "x = ?S * ?T div (?S + b) + 1"
  have le: "n \<le> ?T - x" using t n b by (auto simp: tokensForSol_def Let_def x_def split: if_splits)
  have "?S * ?T < x * (?S + b)" using b div_succ_gt [of "?S + b"] by (simp add: x_def)
  also have "\<dots> \<le> (?T - n) * (?S + b)" using le b by (intro mult_right_mono) auto
  finally have "?S * ?T div (?T - n) < ?S + b"
    using solCost_newSol [OF c n] by (subst int_div_less_iff) (auto simp: mult.commute)
  then show ?thesis using solCost_newSol(4) [OF c n] by simp
qed

lemma quoteBuy_Inr:
  "quoteBuyForSolBudget r budget feeBps slippage = Inr q \<longleftrightarrow>
     0 < budget \<and> 0 \<le> feeBps \<and> js_isFinite slippage \<and> \<not> js_lt slippage (JNum 0) \<and> \<not> cv_complete r \<and> 0 < bq_tokenAmount q \<and>
     tokensForSol r (big_div (budget * 10000) (10000 + feeBps)) = Inr (bq_tokenAmount q) \<and>
     solCostForTokens r (bq_tokenAmount q) = Inr (bq_solCost q) \<and> bq_fee q = big_div (bq_solCost q * feeBps) 10000 \<and>
     bq_total q = bq_solCost q + bq_fee q \<and> bq_feeBps q = feeBps \<and>
     (\<exists>f. BigInt_of (fl_add (JNum 10000) (js_round slippage)) = Inr f \<and> bq_maxSolCost q = big_div (bq_total q * f) 10000) \<and>
     bq_spotPrice q = spot_price r \<and>
     bq_priceImpact q = price_impact (spot_price r) (fl_div (js_Number (bq_solCost q)) (js_Number (bq_tokenAmount q)))"
  by (cases q) (auto simp: quoteBuyForSolBudget_def bindR_Inr Let_def not_less)

lemma BigInt_of_Inr: "BigInt_of x = Inr n \<longleftrightarrow> x = JNum (of_int n)"
  by (cases x) (auto simp: BigInt_of_def)

lemma factor_at_least:
  assumes "js_isFinite s" "\<not> js_lt s (JNum 0)" "BigInt_of (fl_add (JNum 10000) (js_round s)) = Inr f"
  shows "10000 \<le> f"
proof -
  obtain a where a: "s = JNum a" "0 \<le> a" using assms by (cases s) (auto simp: not_less)
  have "dbl (of_int 10000) = JNum (of_int 10000)" by (rule dbl_int) simp
  moreover have "(0::rat) \<le> of_int \<lfloor>a + 1 / 2\<rfloor>" using a by (simp add: le_floor_iff)
  ultimately have "js_le (JNum 10000) (dbl (10000 + of_int \<lfloor>a + 1 / 2\<rfloor>))"
    using dbl_le [of 10000 "10000 + of_int \<lfloor>a + 1 / 2\<rfloor>"] by simp
  then show ?thesis using assms(3) a by (simp add: BigInt_of_Inr)
qed

text \<open>
  A buy quoted for a budget buys a positive number of tokens the curve really holds, costs at least a
  lamport, and its total, fee included, is within the budget; the slippage bound the transaction commits to is
  never below that total.
\<close>

theorem buy_within_budget:
  "case quoteBuyForSolBudget r budget feeBps slippage of Inl _ \<Rightarrow> True
   | Inr q \<Rightarrow> 0 < bq_tokenAmount q \<and> bq_tokenAmount q \<le> cv_realToken r \<and> bq_tokenAmount q < cv_virtualToken r \<and>
       0 < bq_solCost q \<and> bq_solCost q \<le> bq_total q \<and> bq_total q \<le> budget \<and> bq_total q \<le> bq_maxSolCost q"
proof (cases "quoteBuyForSolBudget r budget feeBps slippage")
  case (Inr q)
  define b where "b = budget * 10000 div (10000 + feeBps)"
  have q: "0 < budget" "0 \<le> feeBps" "0 < bq_tokenAmount q" "tokensForSol r b = Inr (bq_tokenAmount q)"
    "solCostForTokens r (bq_tokenAmount q) = Inr (bq_solCost q)" "bq_fee q = big_div (bq_solCost q * feeBps) 10000"
    "bq_total q = bq_solCost q + bq_fee q"
    using Inr by (auto simp: quoteBuy_Inr b_def)
  have slippage: "js_isFinite slippage" "\<not> js_lt slippage (JNum 0)" using Inr by (auto simp: quoteBuy_Inr)
  obtain f where f: "BigInt_of (fl_add (JNum 10000) (js_round slippage)) = Inr f" "bq_maxSolCost q = big_div (bq_total q * f) 10000"
    using Inr unfolding quoteBuy_Inr by blast
  have "10000 \<le> f" by (rule factor_at_least [OF slippage f(1)])
  note f = this f(2)
  have held: "bq_tokenAmount q \<le> cv_realToken r"
    using q(3,4) by (auto simp: tokensForSol_def Let_def split: if_splits)
  note cost = solCost_newSol [OF q(5,3)]
  have fee: "bq_fee q = bq_solCost q * feeBps div 10000" "0 \<le> bq_fee q" using cost q by (simp_all add: pos_imp_zdiv_nonneg_iff)
  have within: "bq_solCost q \<le> b" using tokens_cost_within [OF q(4,3,5)] .
  have "bq_fee q * 10000 \<le> bq_solCost q * feeBps" unfolding fee by (rule int_div_mult_le) simp
  then have "bq_total q * 10000 \<le> bq_solCost q * (10000 + feeBps)" by (simp add: q(7) algebra_simps)
  also have "\<dots> \<le> b * (10000 + feeBps)" using within q(2) by (intro mult_right_mono) auto
  also have "\<dots> \<le> budget * 10000" unfolding b_def using q(2) by (intro int_div_mult_le) simp
  finally have "bq_total q \<le> budget" by simp
  moreover have "bq_total q * 10000 \<le> bq_total q * f" using f(1) fee cost(3) q(7) by (intro mult_left_mono) auto
  then have "bq_total q \<le> bq_maxSolCost q" using f fee cost(3) q(7) int_div_less_iff [of 10000 "bq_total q * f" "bq_total q"]
    by (simp add: not_less [symmetric])
  ultimately show ?thesis using Inr q cost held fee by simp
qed simp


text \<open>The curve after a trade: what the program does to the virtual reserves.\<close>

definition after_buy :: "CurveReserves \<Rightarrow> int \<Rightarrow> int \<Rightarrow> CurveReserves" where
  "after_buy r cost n = r\<lparr> cv_virtualSol := cv_virtualSol r + cost, cv_virtualToken := cv_virtualToken r - n \<rparr>"

definition after_sell :: "CurveReserves \<Rightarrow> int \<Rightarrow> int \<Rightarrow> CurveReserves" where
  "after_sell r gross n = r\<lparr> cv_virtualSol := cv_virtualSol r - gross, cv_virtualToken := cv_virtualToken r + n \<rparr>"

definition curve_k :: "CurveReserves \<Rightarrow> int" where
  "curve_k r = cv_virtualSol r * cv_virtualToken r"

text \<open>
  Neither side of the curve can be drained by rounding: a buy charges so much that the product of the
  virtual reserves grows, and a sell pays so little that it does not shrink.
\<close>

theorem product_never_shrinks:
  "(case solCostForTokens r n of Inl _ \<Rightarrow> True | Inr c \<Rightarrow> n \<le> 0 \<or> curve_k r < curve_k (after_buy r c n)) \<and>
   (case solForTokens r n of Inl _ \<Rightarrow> True
    | Inr g \<Rightarrow> 0 \<le> g \<and> g < cv_virtualSol r \<and> (n \<le> 0 \<or> curve_k r \<le> curve_k (after_sell r g n)))"
proof (intro conjI)
  show "case solCostForTokens r n of Inl _ \<Rightarrow> True | Inr c \<Rightarrow> n \<le> 0 \<or> curve_k r < curve_k (after_buy r c n)"
    using solCost_newSol(5) [of r n] by (cases "0 < n") (auto simp: curve_k_def after_buy_def split: sum.split)
next
  show "case solForTokens r n of Inl _ \<Rightarrow> True
    | Inr g \<Rightarrow> 0 \<le> g \<and> g < cv_virtualSol r \<and> (n \<le> 0 \<or> curve_k r \<le> curve_k (after_sell r g n))"
  proof (cases "solForTokens r n")
    case (Inr g)
    show ?thesis
    proof (cases "n \<le> 0")
      case False
      then have g: "0 < cv_virtualSol r" "0 < cv_virtualToken r" "g = n * cv_virtualSol r div (cv_virtualToken r + n)"
        using Inr by (auto simp: solForTokens_def)
      have "g * (cv_virtualToken r + n) \<le> n * cv_virtualSol r"
        unfolding g(3) using g False by (intro int_div_mult_le) simp
      moreover have "g < cv_virtualSol r" unfolding g(3) using g False by (subst int_div_less_iff) (auto simp: algebra_simps)
      moreover have "0 \<le> g" using g False by (simp add: pos_imp_zdiv_nonneg_iff)
      ultimately show ?thesis using Inr by (simp add: curve_k_def after_sell_def algebra_simps)
    qed (use Inr in \<open>auto simp: solForTokens_def assertPositive_def\<close>)
  qed simp
qed

text \<open>
  What a buy acquires cannot be sold back at a profit: the curve after the buy pays for the same tokens at
  most what the buy cost, before any fee.
\<close>

theorem no_round_trip_profit:
  "case solCostForTokens r n of Inl _ \<Rightarrow> True
   | Inr c \<Rightarrow> (case solForTokens (after_buy r c n) n of Inl _ \<Rightarrow> True | Inr g \<Rightarrow> g \<le> c)"
proof (cases "solCostForTokens r n")
  case (Inr c)
  show ?thesis
  proof (cases "0 < n")
    case True
    note cost = solCost_newSol [OF Inr True]
    let ?S = "cv_virtualSol r + c"
    have "g \<le> c" if "solForTokens (after_buy r c n) n = Inr g" for g
    proof -
      have g: "g = n * ?S div cv_virtualToken r"
        using that True cost by (auto simp: solForTokens_def after_buy_def)
      have "n * ?S < (c + 1) * cv_virtualToken r"
        using cost(1,2,5) True by (simp add: algebra_simps)
      then show ?thesis unfolding g using cost(2) True int_div_less_iff [of "cv_virtualToken r" "n * ?S" "c + 1"] by simp
    qed
    then show ?thesis using Inr by (simp split: sum.split)
  qed (use Inr in \<open>auto simp: solForTokens_def solCostForTokens_def split: sum.split if_splits\<close>)
qed simp

lemma tier_loop_Some:
  "tier_loop cap ts = Some f \<Longrightarrow> \<exists>xs t ys. ts = xs @ t # ys \<and> f = ft_fees t \<and> ft_threshold t \<le> cap \<and> list_all (\<lambda>u. cap < ft_threshold u) ys"
proof (induction ts)
  case (Cons t ts)
  show ?case
  proof (cases "tier_loop cap ts")
    case None
    have "list_all (\<lambda>u. cap < ft_threshold u) ts"
      using None by (induction ts) (auto split: option.splits if_splits)
    then show ?thesis using Cons.prems None by (intro exI [of _ "[]"]) (auto split: if_splits)
  next
    case (Some g)
    then obtain xs u ys where "ts = xs @ u # ys" "g = ft_fees u" "ft_threshold u \<le> cap" "list_all (\<lambda>u. cap < ft_threshold u) ys"
      using Cons.IH Cons.prems by auto
    then show ?thesis using Cons.prems Some by (intro exI [of _ "t # xs"]) auto
  qed
qed simp

end
