(* ===== verification/Perps.thy ===== *)
theory Perps
  imports PolicyEngine Doubles
begin

text \<open>
  \<open>src/src/perps\<close>: the types, the error codes (\<open>errors.ts\<close>), the policy (\<open>policy.ts\<close>), the portfolio
  exposure (\<open>exposure.ts\<close>) and the liquidation mathematics (\<open>liquidation.ts\<close>) of perpetual futures. Prices,
  leverage and rates are doubles with the rounded operations of \<open>Doubles\<close>; base sizes and caps are
  \<open>bigint\<close>. Market symbols are ASCII text for \<open>toUpperCase\<close>.
\<close>

section \<open>Types and errors\<close>

datatype PerpMarketStatus = Mk_active | Mk_reduce_only | Mk_halted | Mk_unknown

datatype PerpOrderType = Ord_market | Ord_limit

definition oppositeSide :: "PerpSide \<Rightarrow> PerpSide" where
  "oppositeSide s = (case s of Side_long \<Rightarrow> Side_short | Side_short \<Rightarrow> Side_long)"

record PerpPosition =
  po_venue :: string
  po_symbol :: string
  po_side :: PerpSide
  po_baseAmount :: int
  po_baseDecimals :: int
  po_entryPrice :: jsnum
  po_markPrice :: jsnum
  po_notional :: TokenAmount
  po_collateral :: TokenAmount
  po_unrealizedPnl :: int
  po_liquidationPrice :: "jsnum option"
  po_leverage :: jsnum

datatype PerpGuardCode =
    PG_PERPS_DISABLED | PG_KILL_SWITCH | PG_WIND_DOWN_ONLY | PG_INVALID_PERP_INTENT | PG_MARKET_DENIED
  | PG_MARKET_NOT_TRADEABLE | PG_COLLATERAL_MINT_DENIED | PG_COLLATERAL_NOT_CAPPABLE | PG_LEVERAGE_EXCEEDED
  | PG_COLLATERAL_CAP_EXCEEDED | PG_NOTIONAL_CAP_EXCEEDED | PG_PORTFOLIO_EXPOSURE_EXCEEDED
  | PG_POSITION_COUNT_EXCEEDED | PG_EXPOSURE_UNKNOWN | PG_LIQUIDATION_TOO_CLOSE | PG_LIQUIDATION_UNKNOWN
  | PG_FUNDING_RATE_UNSANE | PG_FUNDING_RATE_ADVERSE | PG_FUNDING_RATE_UNKNOWN | PG_ORACLE_DIVERGENCE
  | PG_SLIPPAGE_EXCEEDED | PG_REDUCE_ONLY_VIOLATION | PG_NO_POSITION | PG_POSITION_SIDE_MISMATCH
  | PG_SIZE_EXCEEDS_POSITION | PG_ACCOUNT_NOT_INITIALIZED | PG_ACCOUNT_CREATION_DISABLED

fun kernelCodeFor :: "PerpGuardCode \<Rightarrow> GuardCode" where
  "kernelCodeFor PG_PERPS_DISABLED = EXECUTION_DISABLED"
| "kernelCodeFor PG_KILL_SWITCH = KILL_SWITCH"
| "kernelCodeFor PG_WIND_DOWN_ONLY = EXECUTION_DISABLED"
| "kernelCodeFor PG_MARKET_DENIED = MINT_DENIED"
| "kernelCodeFor PG_COLLATERAL_MINT_DENIED = MINT_DENIED"
| "kernelCodeFor PG_LEVERAGE_EXCEEDED = CAP_EXCEEDED"
| "kernelCodeFor PG_COLLATERAL_CAP_EXCEEDED = CAP_EXCEEDED"
| "kernelCodeFor PG_NOTIONAL_CAP_EXCEEDED = CAP_EXCEEDED"
| "kernelCodeFor PG_PORTFOLIO_EXPOSURE_EXCEEDED = CAP_EXCEEDED"
| "kernelCodeFor PG_POSITION_COUNT_EXCEEDED = CAP_EXCEEDED"
| "kernelCodeFor PG_SLIPPAGE_EXCEEDED = SLIPPAGE_EXCEEDED"
| "kernelCodeFor PG_ACCOUNT_CREATION_DISABLED = EXECUTION_DISABLED"
| "kernelCodeFor _ = INVALID_INTENT"

section \<open>Policy\<close>

record PerpsCaps =
  maxCollateralPerPosition :: int
  maxNotionalPerPosition :: int
  maxPortfolioNotional :: int

record PerpsPolicy =
  perpsEnabled :: bool
  windDownOnly :: bool
  maxLeverage :: jsnum
  minLiquidationDistanceBps :: jsnum
  maxFundingRateBpsPerHour :: jsnum
  maxAdverseFundingBpsPerHour :: jsnum
  perpMaxSlippageBps :: jsnum
  maxOracleDivergenceBps :: jsnum
  liquidationToleranceBps :: jsnum
  maxOpenPositions :: jsnum
  perpCapsSol :: PerpsCaps
  perpCapsUsdc :: PerpsCaps
  marketAllowlist :: "string list option"
  marketDenylist :: "string list"
  allowedCollateralMints :: "string list"
  allowAccountCreation :: bool

definition capsFor :: "PerpsPolicy \<Rightarrow> QuoteBucket \<Rightarrow> PerpsCaps" where
  "capsFor p b = (case b of Bucket_sol \<Rightarrow> perpCapsSol p | Bucket_usdc \<Rightarrow> perpCapsUsdc p)"

definition defaultPerpsPolicy :: PerpsPolicy where
  "defaultPerpsPolicy =
     (let sol = (\<lambda>q. the (toBaseUnits (Amt_number (JNum q)) SOL_DECIMALS));
          usdc = (\<lambda>q. the (toBaseUnits (Amt_number (JNum q)) USDC_DECIMALS))
      in \<lparr> perpsEnabled = False, windDownOnly = False, maxLeverage = JNum 3, minLiquidationDistanceBps = JNum 2000,
           maxFundingRateBpsPerHour = JNum 5, maxAdverseFundingBpsPerHour = JNum 2, perpMaxSlippageBps = JNum 100,
           maxOracleDivergenceBps = JNum 100, liquidationToleranceBps = JNum 500, maxOpenPositions = JNum 3,
           perpCapsSol = \<lparr> maxCollateralPerPosition = sol 1, maxNotionalPerPosition = sol 3, maxPortfolioNotional = sol 10 \<rparr>,
           perpCapsUsdc = \<lparr> maxCollateralPerPosition = usdc 200, maxNotionalPerPosition = usdc 600, maxPortfolioNotional = usdc 2000 \<rparr>,
           marketAllowlist = None, marketDenylist = [], allowedCollateralMints = [USDC_MINT, WSOL_MINT],
           allowAccountCreation = False \<rparr>)"

record PerpsPolicyOverrides =
  po_perpsEnabled :: "bool option"
  po_windDownOnly :: "bool option"
  po_maxLeverage :: "jsnum option"
  po_minLiquidationDistanceBps :: "jsnum option"
  po_maxFundingRateBpsPerHour :: "jsnum option"
  po_maxAdverseFundingBpsPerHour :: "jsnum option"
  po_maxSlippageBps :: "jsnum option"
  po_maxOracleDivergenceBps :: "jsnum option"
  po_liquidationToleranceBps :: "jsnum option"
  po_maxOpenPositions :: "jsnum option"
  po_solCollateralPerPosition :: "jsnum option"
  po_solNotionalPerPosition :: "jsnum option"
  po_solPortfolioNotional :: "jsnum option"
  po_usdcCollateralPerPosition :: "jsnum option"
  po_usdcNotionalPerPosition :: "jsnum option"
  po_usdcPortfolioNotional :: "jsnum option"
  po_marketAllowlist :: "string list option option"
  po_marketDenylist :: "string list option"
  po_allowedCollateralMints :: "string list option"
  po_allowAccountCreation :: "bool option"

definition override_perp_caps :: "jsnum option \<Rightarrow> jsnum option \<Rightarrow> jsnum option \<Rightarrow> nat \<Rightarrow> PerpsCaps \<Rightarrow> PerpsCaps option" where
  "override_perp_caps c n t decimals base =
     Option.bind (override_cap c (maxCollateralPerPosition base) decimals) (\<lambda>c'.
     Option.bind (override_cap n (maxNotionalPerPosition base) decimals) (\<lambda>n'.
     Option.bind (override_cap t (maxPortfolioNotional base) decimals) (\<lambda>t'.
     Some \<lparr> maxCollateralPerPosition = c', maxNotionalPerPosition = n', maxPortfolioNotional = t' \<rparr>)))"

definition applyPerpsPolicyOverrides :: "PerpsPolicy \<Rightarrow> PerpsPolicyOverrides \<Rightarrow> PerpsPolicy option" where
  "applyPerpsPolicyOverrides base v =
     Option.bind (override_perp_caps (po_solCollateralPerPosition v) (po_solNotionalPerPosition v)
        (po_solPortfolioNotional v) SOL_DECIMALS (perpCapsSol base)) (\<lambda>cs.
     Option.bind (override_perp_caps (po_usdcCollateralPerPosition v) (po_usdcNotionalPerPosition v)
        (po_usdcPortfolioNotional v) USDC_DECIMALS (perpCapsUsdc base)) (\<lambda>cu.
     Some \<lparr> perpsEnabled = override_or (po_perpsEnabled v) (perpsEnabled base),
       windDownOnly = override_or (po_windDownOnly v) (windDownOnly base),
       maxLeverage = override_or (po_maxLeverage v) (maxLeverage base),
       minLiquidationDistanceBps = override_or (po_minLiquidationDistanceBps v) (minLiquidationDistanceBps base),
       maxFundingRateBpsPerHour = override_or (po_maxFundingRateBpsPerHour v) (maxFundingRateBpsPerHour base),
       maxAdverseFundingBpsPerHour = override_or (po_maxAdverseFundingBpsPerHour v) (maxAdverseFundingBpsPerHour base),
       perpMaxSlippageBps = override_or (po_maxSlippageBps v) (perpMaxSlippageBps base),
       maxOracleDivergenceBps = override_or (po_maxOracleDivergenceBps v) (maxOracleDivergenceBps base),
       liquidationToleranceBps = override_or (po_liquidationToleranceBps v) (liquidationToleranceBps base),
       maxOpenPositions = override_or (po_maxOpenPositions v) (maxOpenPositions base),
       perpCapsSol = cs, perpCapsUsdc = cu,
       marketAllowlist = override_or (po_marketAllowlist v) (marketAllowlist base),
       marketDenylist = override_or (po_marketDenylist v) (marketDenylist base),
       allowedCollateralMints = override_or (po_allowedCollateralMints v) (allowedCollateralMints base),
       allowAccountCreation = override_or (po_allowAccountCreation v) (allowAccountCreation base) \<rparr>))"

definition leverageToBps :: "jsnum \<Rightarrow> jsnum option" where
  "leverageToBps leverage =
     (if \<not> js_isFinite leverage \<or> js_le leverage (JNum 0) then None
      else let bps = js_round (fl_mul leverage (JNum 10000)) in if js_gt bps (JNum 0) then Some bps else None)"

text \<open>
  \<open>BigInt(Infinity)\<close>, which a leverage beyond the doubles would lead to, throws a \<open>RangeError\<close>: \<open>Inl ()\<close>.
\<close>

definition notionalFromCollateral :: "int \<Rightarrow> jsnum \<Rightarrow> unit + int option" where
  "notionalFromCollateral collateral leverage =
     (case leverageToBps leverage of
        None \<Rightarrow> Inr None
      | Some bps \<Rightarrow>
          if collateral < 0 then Inr None
          else (case js_BigInt bps of None \<Rightarrow> Inl () | Some b \<Rightarrow> Inr (Some (big_div (collateral * b) 10000))))"

section \<open>Exposure\<close>

record PortfolioExposure =
  ex_openPositions :: int
  ex_notional :: "QuoteBucket \<Rightarrow> int"
  ex_collateral :: "QuoteBucket \<Rightarrow> int"
  ex_stale :: bool
  ex_unbucketed :: int

definition staleExposure :: PortfolioExposure where
  "staleExposure = \<lparr> ex_openPositions = 0, ex_notional = (\<lambda>_. 0), ex_collateral = (\<lambda>_. 0), ex_stale = True, ex_unbucketed = 0 \<rparr>"

definition emptyExposure :: PortfolioExposure where
  "emptyExposure = \<lparr> ex_openPositions = 0, ex_notional = (\<lambda>_. 0), ex_collateral = (\<lambda>_. 0), ex_stale = False, ex_unbucketed = 0 \<rparr>"

definition add_position :: "PerpPosition \<Rightarrow> PortfolioExposure \<Rightarrow> PortfolioExposure" where
  "add_position p x =
     (case (quoteBucketFor (ta_mint (po_notional p)), quoteBucketFor (ta_mint (po_collateral p))) of
        (Some b, Some c) \<Rightarrow>
          x\<lparr> ex_notional := (ex_notional x)(b := ex_notional x b + \<bar>ta_amount (po_notional p)\<bar>),
             ex_collateral := (ex_collateral x)(c := ex_collateral x c + \<bar>ta_amount (po_collateral p)\<bar>) \<rparr>
      | _ \<Rightarrow> x\<lparr> ex_unbucketed := ex_unbucketed x + 1 \<rparr>)"

definition exposureFrom :: "PerpPosition list \<Rightarrow> PortfolioExposure" where
  "exposureFrom ps =
     (let x = foldl (\<lambda>x p. add_position p x) emptyExposure ps
      in x\<lparr> ex_openPositions := int (length ps), ex_stale := ex_unbucketed x > 0 \<rparr>)"

definition js_upper :: "string \<Rightarrow> string" where
  "js_upper s = map (\<lambda>c. let n = of_char c :: nat in if 97 \<le> n \<and> n \<le> 122 then char_of (n - 32) else c) s"

definition positionIn :: "PerpPosition list \<Rightarrow> string \<Rightarrow> PerpPosition option" where
  "positionIn ps symbol = (let want = js_upper (js_trim symbol) in List.find (\<lambda>p. js_upper (po_symbol p) = want) ps)"

section \<open>Liquidation\<close>

definition isUsablePrice :: "jsnum \<Rightarrow> bool" where
  "isUsablePrice x \<longleftrightarrow> js_isFinite x \<and> js_gt x (JNum 0)"

definition one_over :: "jsnum \<Rightarrow> jsnum" where
  "one_over x = fl_div (JNum 1) x"

definition modelLiquidationPrice :: "PerpSide \<Rightarrow> jsnum \<Rightarrow> jsnum \<Rightarrow> jsnum \<Rightarrow> jsnum option" where
  "modelLiquidationPrice side entryPrice leverage m =
     (if \<not> isUsablePrice entryPrice then None
      else if \<not> js_isFinite leverage \<or> js_le leverage (JNum 0) then None
      else if \<not> js_isFinite m \<or> js_lt m (JNum 0) \<or> js_ge m (JNum 1) then None
      else let price = (case side of
               Side_long \<Rightarrow> fl_div (fl_mul entryPrice (fl_sub (JNum 1) (one_over leverage))) (fl_sub (JNum 1) m)
             | Side_short \<Rightarrow> fl_div (fl_mul entryPrice (fl_add (JNum 1) (one_over leverage))) (fl_add (JNum 1) m))
           in if \<not> js_isFinite price \<or> js_lt price (JNum 0) then None else Some price)"

definition liquidationDistanceBps :: "PerpSide \<Rightarrow> jsnum \<Rightarrow> jsnum \<Rightarrow> jsnum option" where
  "liquidationDistanceBps side reference liq =
     (if \<not> isUsablePrice reference then None
      else if \<not> js_isFinite liq \<or> js_lt liq (JNum 0) then None
      else let gap = (case side of Side_long \<Rightarrow> fl_sub reference liq | Side_short \<Rightarrow> fl_sub liq reference)
           in if js_lt gap (JNum 0) then None
              else let bps = fl_mul (fl_div gap reference) (JNum 10000)
                   in if \<not> js_isFinite bps then None else Some (js_floor bps))"

definition maxLeverageForDistance :: "jsnum \<Rightarrow> PerpSide \<Rightarrow> jsnum \<Rightarrow> jsnum option" where
  "maxLeverageForDistance distance side m =
     (if \<not> js_isFinite distance \<or> js_lt distance (JNum 0) \<or> js_ge distance (JNum 10000) then None
      else if \<not> js_isFinite m \<or> js_lt m (JNum 0) \<or> js_ge m (JNum 1) then None
      else let d = fl_div distance (JNum 10000);
               denom = (case side of
                   Side_long \<Rightarrow> fl_sub (JNum 1) (fl_mul (fl_sub (JNum 1) d) (fl_sub (JNum 1) m))
                 | Side_short \<Rightarrow> fl_sub (fl_mul (fl_add (JNum 1) d) (fl_add (JNum 1) m)) (JNum 1))
           in if js_le denom (JNum 0) then None
              else let l = one_over denom in if js_isFinite l \<and> js_gt l (JNum 0) then Some l else None)"

datatype LiquidationSource = Source_venue | Source_model

record ReconciledLiquidation =
  rl_price :: "jsnum option"
  rl_distanceBps :: "jsnum option"
  rl_source :: LiquidationSource
  rl_ambiguity :: bool
  rl_disagreementBps :: "jsnum option"
  rl_disagrees :: bool

definition reconcileLiquidation :: "PerpSide \<Rightarrow> jsnum \<Rightarrow> jsnum option \<Rightarrow> jsnum option \<Rightarrow> jsnum \<Rightarrow> ReconciledLiquidation" where
  "reconcileLiquidation side reference venuePrice modelPrice tolerance =
     (let none = \<lparr> rl_price = None, rl_distanceBps = None, rl_source = Source_model, rl_ambiguity = True,
            rl_disagreementBps = None, rl_disagrees = False \<rparr>;
          one = (\<lambda>price d src. \<lparr> rl_price = price, rl_distanceBps = Some d, rl_source = src, rl_ambiguity = False,
            rl_disagreementBps = None, rl_disagrees = False \<rparr>);
          venueDist = Option.bind venuePrice (liquidationDistanceBps side reference);
          modelDist = Option.bind modelPrice (liquidationDistanceBps side reference)
      in if \<not> isUsablePrice reference then none
         else case (venueDist, modelDist) of
             (None, None) \<Rightarrow> none
           | (Some v, Some m) \<Rightarrow>
               (let disagreement = fl_abs (fl_sub v m); useVenue = js_le v m
                in \<lparr> rl_price = (if useVenue then venuePrice else modelPrice),
                     rl_distanceBps = Some (if useVenue then v else m),
                     rl_source = (if useVenue then Source_venue else Source_model), rl_ambiguity = False,
                     rl_disagreementBps = Some disagreement, rl_disagrees = js_gt disagreement tolerance \<rparr>)
           | (Some v, None) \<Rightarrow> one venuePrice v Source_venue
           | (None, Some m) \<Rightarrow> one modelPrice m Source_model)"

definition oracleDivergenceBps :: "jsnum \<Rightarrow> jsnum \<Rightarrow> jsnum option" where
  "oracleDivergenceBps mark oracle =
     (if \<not> isUsablePrice mark \<or> \<not> isUsablePrice oracle then None
      else Some (js_floor (fl_mul (fl_div (fl_abs (fl_sub mark oracle)) oracle) (JNum 10000))))"

section \<open>Position reader\<close>

text \<open>
  \<open>positionReaderFor\<close> (\<open>settle.ts\<close>): the venue's answer is the argument; a failed read throws. The
  position is signed: positive is long, and no position is flat.
\<close>

definition signed_position :: "PerpPosition \<Rightarrow> int" where
  "signed_position p = (case po_side p of Side_long \<Rightarrow> po_baseAmount p | Side_short \<Rightarrow> - po_baseAmount p)"

definition positionReaderFor :: "string \<Rightarrow> (string \<Rightarrow> int \<Rightarrow> string + PerpPosition list) \<Rightarrow> PerpPositionRef \<Rightarrow> string + int" where
  "positionReaderFor venueId getPositions ref =
     throwIf (pr_venue ref \<noteq> venueId) ''cannot read a position of another venue''
    (bindR (getPositions (pr_owner ref) (pr_subAccountId ref)) (\<lambda>ps.
     Inr (case List.find (\<lambda>p. po_symbol p = pr_market ref) ps of
        None \<Rightarrow> 0
      | Some p \<Rightarrow> signed_position p)))"

definition positionReaderOver :: "(string \<times> (string \<Rightarrow> int \<Rightarrow> string + PerpPosition list)) list \<Rightarrow> PerpPositionRef \<Rightarrow> string + int" where
  "positionReaderOver venues ref =
     (case map_of (rev venues) (pr_venue ref) of
        None \<Rightarrow> Inl ''no perps venue of that name is mounted''
      | Some getPositions \<Rightarrow> positionReaderFor (pr_venue ref) getPositions ref)"

end
