(* ===== verification/PerpGuards.thy ===== *)
theory PerpGuards
  imports Perps
begin

text \<open>
  \<open>src/src/perps/intent.ts\<close> and \<open>guards.ts\<close>: the perp intent, its structural validation and its bridge
  to the kernel's trade intent, the seventeen rules in the code's order, their enforcing evaluation that
  stops at the first violation and the advisory one that collects them all. A violation is its code; texts
  are not modelled. What the types of the model already exclude (a side that is neither long nor short, a
  fractional block height) needs no test here; every test on a value is kept.
\<close>

section \<open>Intent\<close>

definition isReducingKind :: "string \<Rightarrow> bool" where
  "isReducingKind k \<longleftrightarrow> k = ''perp_reduce'' \<or> k = ''perp_close''"

definition isOpeningKind :: "string \<Rightarrow> bool" where
  "isOpeningKind k \<longleftrightarrow> k = ''perp_open'' \<or> k = ''perp_increase''"

record PerpLeg =
  lg_venue :: string
  lg_market :: string
  lg_venueMarketIndex :: int
  lg_accountSubId :: int
  lg_side :: PerpSide
  lg_orderType :: PerpOrderType
  lg_limitPrice :: "jsnum option"
  lg_reduceOnly :: bool
  lg_leverage :: jsnum
  lg_slippageBps :: jsnum
  lg_baseDecimals :: int
  lg_expectedBaseAmount :: int
  lg_minBaseAmount :: int
  lg_collateral :: TokenAmount
  lg_notional :: TokenAmount
  lg_entryPrice :: jsnum
  lg_markPrice :: jsnum
  lg_oraclePrice :: jsnum
  lg_maintenanceMarginRatio :: jsnum
  lg_marketStatus :: PerpMarketStatus
  lg_venueLiquidationPrice :: "jsnum option"
  lg_fundingBpsPerHour :: "jsnum option"

text \<open>The fields of the kernel's intent, and the full perp leg; \<open>asTradeIntent\<close> shows the kernel its part of the leg.\<close>

record PerpIntent =
  pi_trade :: TradeIntent
  pi_perp :: PerpLeg

definition settle_leg :: "PerpLeg \<Rightarrow> PerpSettleLeg" where
  "settle_leg p = \<lparr> pl_venue = lg_venue p, pl_market = lg_market p, pl_accountSubId = lg_accountSubId p,
     pl_side = lg_side p, pl_baseDecimals = lg_baseDecimals p, pl_expectedBaseAmount = lg_expectedBaseAmount p,
     pl_minBaseAmount = lg_minBaseAmount p \<rparr>"

definition pi_kind :: "PerpIntent \<Rightarrow> string" where
  "pi_kind i = ti_kind (pi_trade i)"

record PerpMarket =
  mk_venue :: string
  mk_symbol :: string
  mk_venueMarketIndex :: int
  mk_baseDecimals :: int
  mk_maintenanceMarginRatio :: jsnum
  mk_status :: PerpMarketStatus

record PerpPrices =
  pp_markPrice :: jsnum
  pp_oraclePrice :: jsnum
  pp_oracleSlot :: "jsnum option"

record VenueOrderBuild =
  vb_unsignedTxBase64 :: string
  vb_recentBlockhash :: string
  vb_lastValidBlockHeight :: int
  vb_priorityFeeLamports :: jsnum
  vb_expectedBaseAmount :: int
  vb_minBaseAmount :: int
  vb_entryPrice :: jsnum
  vb_notional :: TokenAmount
  vb_estimatedLiquidationPrice :: "jsnum option"

record BuildPerpIntentArgs =
  bp_kind :: string
  bp_source :: string
  bp_market :: PerpMarket
  bp_subAccountId :: int
  bp_side :: PerpSide
  bp_orderType :: PerpOrderType
  bp_limitPrice :: "jsnum option"
  bp_slippageBps :: jsnum
  bp_leverage :: jsnum
  bp_collateral :: TokenAmount
  bp_prices :: PerpPrices
  bp_funding :: "jsnum option"
  bp_build :: VenueOrderBuild
  bp_collateralProvenance :: MintProvenance

definition build_leg :: "BuildPerpIntentArgs \<Rightarrow> PerpLeg" where
  "build_leg a = (let m = bp_market a; b = bp_build a; p = bp_prices a in
     \<lparr> lg_venue = mk_venue m, lg_market = mk_symbol m, lg_venueMarketIndex = mk_venueMarketIndex m,
       lg_accountSubId = bp_subAccountId a, lg_side = bp_side a, lg_orderType = bp_orderType a,
       lg_limitPrice = bp_limitPrice a, lg_reduceOnly = isReducingKind (bp_kind a), lg_leverage = bp_leverage a,
       lg_slippageBps = bp_slippageBps a, lg_baseDecimals = mk_baseDecimals m,
       lg_expectedBaseAmount = vb_expectedBaseAmount b, lg_minBaseAmount = vb_minBaseAmount b,
       lg_collateral = bp_collateral a, lg_notional = vb_notional b, lg_entryPrice = vb_entryPrice b,
       lg_markPrice = pp_markPrice p, lg_oraclePrice = pp_oraclePrice p,
       lg_maintenanceMarginRatio = mk_maintenanceMarginRatio m, lg_marketStatus = mk_status m,
       lg_venueLiquidationPrice = vb_estimatedLiquidationPrice b, lg_fundingBpsPerHour = bp_funding a \<rparr>)"

text \<open>The summary, a localized text for the user, is the argument \<open>summarize\<close>.\<close>

definition buildPerpIntent :: "(BuildPerpIntentArgs \<Rightarrow> string) \<Rightarrow> BuildPerpIntentArgs \<Rightarrow> PerpIntent" where
  "buildPerpIntent summarize a = (let m = bp_market a; b = bp_build a; p = build_leg a in
     \<lparr> pi_trade = \<lparr> ti_kind = bp_kind a, ti_source = bp_source a, ti_input = bp_collateral a,
         ti_output = \<lparr> ol_mint = ta_mint (bp_collateral a), ol_decimals = ta_decimals (bp_collateral a) \<rparr>,
         ti_inputProvenance = bp_collateralProvenance a, ti_outputProvenance = bp_collateralProvenance a,
         ti_unsignedTxBase64 = vb_unsignedTxBase64 b, ti_recentBlockhash = vb_recentBlockhash b,
         ti_lastValidBlockHeight = vb_lastValidBlockHeight b, ti_landMode = Self_rpc, ti_landHandle = None,
         ti_priorityFeeLamports = vb_priorityFeeLamports b,
         ti_quote = \<lparr> q_inAmount = ta_amount (bp_collateral a), q_outAmount = 0, q_minOutAmount = 0,
           q_priceImpactPct = JNum 0, q_routeLabel = mk_venue m @ '':'' @ mk_symbol m,
           q_slippageBps = bp_slippageBps a, q_contextSlot = pp_oracleSlot (bp_prices a) \<rparr>,
         ti_perp = Some (settle_leg p), ti_summary = summarize a \<rparr>,
       pi_perp = p \<rparr>)"

section \<open>Structural validation\<close>

definition positive_price :: "jsnum \<Rightarrow> bool" where
  "positive_price x \<longleftrightarrow> js_isFinite x \<and> js_gt x (JNum 0)"

definition shape_base :: "TradeIntent \<Rightarrow> bool" where
  "shape_base t \<longleftrightarrow> ti_kind t \<in> set PERP_INTENT_KINDS \<and> ti_source t \<noteq> [] \<and> ti_unsignedTxBase64 t \<noteq> [] \<and>
     ti_recentBlockhash t \<noteq> [] \<and> ti_lastValidBlockHeight t > 0 \<and>
     js_isFinite (ti_priorityFeeLamports t) \<and> \<not> js_lt (ti_priorityFeeLamports t) (JNum 0) \<and>
     ta_mint (ti_input t) \<noteq> [] \<and> ta_amount (ti_input t) \<ge> 0"

definition shape_leg :: "TradeIntent \<Rightarrow> PerpLeg \<Rightarrow> bool" where
  "shape_leg t p \<longleftrightarrow> lg_venue p \<noteq> [] \<and> lg_market p \<noteq> [] \<and> positive_price (lg_leverage p) \<and>
     js_isInteger (lg_slippageBps p) \<and> \<not> js_lt (lg_slippageBps p) (JNum 0) \<and>
     lg_expectedBaseAmount p > 0 \<and> lg_minBaseAmount p \<ge> 0 \<and> lg_minBaseAmount p \<le> lg_expectedBaseAmount p \<and>
     ta_mint (lg_collateral p) = ta_mint (ti_input t) \<and> ta_amount (lg_collateral p) = ta_amount (ti_input t) \<and>
     ta_amount (lg_notional p) \<ge> 0 \<and> ta_mint (lg_notional p) = ta_mint (ti_input t) \<and>
     positive_price (lg_entryPrice p) \<and> positive_price (lg_markPrice p) \<and> positive_price (lg_oraclePrice p) \<and>
     js_isFinite (lg_maintenanceMarginRatio p) \<and> \<not> js_lt (lg_maintenanceMarginRatio p) (JNum 0) \<and>
     js_lt (lg_maintenanceMarginRatio p) (JNum 1) \<and>
     (lg_orderType p = Ord_limit \<longrightarrow> (case lg_limitPrice p of None \<Rightarrow> False | Some x \<Rightarrow> positive_price x)) \<and>
     lg_reduceOnly p = isReducingKind (ti_kind t)"

text \<open>Either a \<open>PerpGuardError\<close> with its code, or the \<open>RangeError\<close> of a conversion to \<open>bigint\<close>.\<close>

datatype PerpError = Perp_error PerpGuardCode | Range_error

definition assertPerpIntentShape :: "PerpIntent \<Rightarrow> PerpError + unit" where
  "assertPerpIntentShape i =
     (if shape_base (pi_trade i) \<and> shape_leg (pi_trade i) (pi_perp i) then Inr () else Inl (Perp_error PG_INVALID_PERP_INTENT))"

definition asTradeIntent :: "PerpIntent \<Rightarrow> PerpError + TradeIntent" where
  "asTradeIntent i = (case assertPerpIntentShape i of Inl e \<Rightarrow> Inl e
     | Inr _ \<Rightarrow> Inr ((pi_trade i)\<lparr> ti_perp := Some (settle_leg (pi_perp i)) \<rparr>))"

section \<open>The rules\<close>

record PerpGuardContext =
  cx_policy :: PerpsPolicy
  cx_killSwitch :: bool
  cx_executionEnabled :: bool
  cx_exposure :: PortfolioExposure
  cx_position :: "PerpPosition option"
  cx_accountInitialized :: bool
  cx_dryRun :: bool

type_synonym PerpRule = "PerpIntent \<Rightarrow> PerpGuardContext \<Rightarrow> PerpError + PerpGuardCode option"

definition refuse :: "bool \<Rightarrow> PerpGuardCode \<Rightarrow> PerpGuardCode option" where
  "refuse b c = (if b then Some c else None)"

definition armState :: PerpRule where
  "armState i c = Inr (
     if cx_killSwitch c \<and> isOpeningKind (pi_kind i) then Some PG_KILL_SWITCH
     else if \<not> cx_dryRun c \<and> \<not> cx_executionEnabled c then Some PG_PERPS_DISABLED
     else if \<not> perpsEnabled (cx_policy c) \<and> isOpeningKind (pi_kind i) then Some PG_PERPS_DISABLED
     else if windDownOnly (cx_policy c) \<and> isOpeningKind (pi_kind i) then Some PG_WIND_DOWN_ONLY
     else None)"

definition accountReady :: PerpRule where
  "accountReady i c = Inr (refuse (\<not> cx_accountInitialized c) PG_ACCOUNT_NOT_INITIALIZED)"

definition marketAllowed :: PerpRule where
  "marketAllowed i c = (let market = js_upper (lg_market (pi_perp i)) in Inr (
     if list_ex (\<lambda>m. js_upper m = market) (marketDenylist (cx_policy c)) then Some PG_MARKET_DENIED
     else case marketAllowlist (cx_policy c) of
         None \<Rightarrow> None
       | Some allow \<Rightarrow> refuse (\<not> list_ex (\<lambda>m. js_upper m = market) allow) PG_MARKET_DENIED))"

definition marketTradeable :: PerpRule where
  "marketTradeable i c = Inr (
     if lg_marketStatus (pi_perp i) = Mk_active then None
     else refuse (\<not> (lg_marketStatus (pi_perp i) = Mk_reduce_only \<and> isReducingKind (pi_kind i))) PG_MARKET_NOT_TRADEABLE)"

definition collateralAllowed :: PerpRule where
  "collateralAllowed i c = Inr (
     if allowedCollateralMints (cx_policy c) = [] then Some PG_COLLATERAL_MINT_DENIED
     else refuse (ta_mint (lg_collateral (pi_perp i)) \<notin> set (allowedCollateralMints (cx_policy c))) PG_COLLATERAL_MINT_DENIED)"

definition bucketOf :: "PerpIntent \<Rightarrow> QuoteBucket option" where
  "bucketOf i = quoteBucketFor (ta_mint (lg_collateral (pi_perp i)))"

definition collateralCappable :: PerpRule where
  "collateralCappable i c = Inr (refuse (bucketOf i = None) PG_COLLATERAL_NOT_CAPPABLE)"

definition slippageWithinClamp :: PerpRule where
  "slippageWithinClamp i c =
     Inr (refuse (\<not> js_le (lg_slippageBps (pi_perp i)) (perpMaxSlippageBps (cx_policy c))) PG_SLIPPAGE_EXCEEDED)"

definition reduceIsAReduction :: PerpRule where
  "reduceIsAReduction i c = Inr (
     if \<not> isReducingKind (pi_kind i) then None
     else case cx_position c of
         None \<Rightarrow> Some PG_NO_POSITION
       | Some p \<Rightarrow>
           if js_upper (po_symbol p) \<noteq> js_upper (lg_market (pi_perp i)) then Some PG_POSITION_SIDE_MISMATCH
           else if po_side p = lg_side (pi_perp i) then Some PG_POSITION_SIDE_MISMATCH
           else refuse (lg_expectedBaseAmount (pi_perp i) > po_baseAmount p) PG_SIZE_EXCEEDS_POSITION)"

definition increaseMatchesPosition :: PerpRule where
  "increaseMatchesPosition i c = Inr (
     if pi_kind i \<noteq> ''perp_increase'' then None
     else case cx_position c of
         None \<Rightarrow> Some PG_NO_POSITION
       | Some p \<Rightarrow> refuse (po_side p \<noteq> lg_side (pi_perp i)) PG_POSITION_SIDE_MISMATCH)"

definition leverageWithinCap :: PerpRule where
  "leverageWithinCap i c = Inr (
     if \<not> isOpeningKind (pi_kind i) then None
     else refuse (js_gt (lg_leverage (pi_perp i)) (maxLeverage (cx_policy c))) PG_LEVERAGE_EXCEEDED)"

definition collateralWithinCap :: PerpRule where
  "collateralWithinCap i c = Inr (
     case bucketOf i of
       None \<Rightarrow> None
     | Some b \<Rightarrow>
         if ta_amount (lg_collateral (pi_perp i)) = 0 then None
         else refuse (ta_amount (lg_collateral (pi_perp i)) > maxCollateralPerPosition (capsFor (cx_policy c) b))
                PG_COLLATERAL_CAP_EXCEEDED)"

definition derived_notional :: "PerpIntent \<Rightarrow> unit + int option" where
  "derived_notional i = notionalFromCollateral (ta_amount (lg_collateral (pi_perp i))) (lg_leverage (pi_perp i))"

definition notionalWithinCap :: PerpRule where
  "notionalWithinCap i c =
     (if \<not> isOpeningKind (pi_kind i) then Inr None
      else case bucketOf i of
          None \<Rightarrow> Inr None
        | Some b \<Rightarrow>
            (case derived_notional i of
               Inl _ \<Rightarrow> Inl Range_error
             | Inr None \<Rightarrow> Inr (Some PG_NOTIONAL_CAP_EXCEEDED)
             | Inr (Some derived) \<Rightarrow>
                 (let claimed = ta_amount (lg_notional (pi_perp i));
                      effective = (if claimed > derived then claimed else derived)
                  in Inr (refuse (effective > maxNotionalPerPosition (capsFor (cx_policy c) b)) PG_NOTIONAL_CAP_EXCEEDED))))"

definition portfolioWithinCap :: PerpRule where
  "portfolioWithinCap i c =
     (if \<not> isOpeningKind (pi_kind i) then Inr None
      else case bucketOf i of
          None \<Rightarrow> Inr None
        | Some b \<Rightarrow>
            if ex_stale (cx_exposure c) then Inr (Some PG_EXPOSURE_UNKNOWN)
            else (case derived_notional i of
               Inl _ \<Rightarrow> Inl Range_error
             | Inr d \<Rightarrow>
                 (let claimed = ta_amount (lg_notional (pi_perp i));
                      derived = (case d of None \<Rightarrow> claimed | Some n \<Rightarrow> n);
                      adding = (if claimed > derived then claimed else derived)
                  in Inr (refuse (ex_notional (cx_exposure c) b + adding > maxPortfolioNotional (capsFor (cx_policy c) b))
                       PG_PORTFOLIO_EXPOSURE_EXCEEDED))))"

definition positionCountWithinCap :: PerpRule where
  "positionCountWithinCap i c = Inr (
     if pi_kind i \<noteq> ''perp_open'' then None
     else if ex_stale (cx_exposure c) then Some PG_EXPOSURE_UNKNOWN
     else if cx_position c \<noteq> None then None
     else refuse (js_ge (JNum (of_int (ex_openPositions (cx_exposure c)))) (maxOpenPositions (cx_policy c))) PG_POSITION_COUNT_EXCEEDED)"

definition model_liquidation :: "PerpLeg \<Rightarrow> jsnum option" where
  "model_liquidation p = modelLiquidationPrice (lg_side p) (lg_entryPrice p) (lg_leverage p) (lg_maintenanceMarginRatio p)"

definition liquidationDistanceOk :: PerpRule where
  "liquidationDistanceOk i c = Inr (
     if \<not> isOpeningKind (pi_kind i) then None
     else let p = pi_perp i;
              r = reconcileLiquidation (lg_side p) (lg_entryPrice p) (lg_venueLiquidationPrice p) (model_liquidation p)
                    (liquidationToleranceBps (cx_policy c))
          in if rl_ambiguity r then Some PG_LIQUIDATION_UNKNOWN
             else case rl_distanceBps r of
                 None \<Rightarrow> Some PG_LIQUIDATION_UNKNOWN
               | Some d \<Rightarrow> refuse (js_lt d (minLiquidationDistanceBps (cx_policy c))) PG_LIQUIDATION_TOO_CLOSE)"

definition oracleAgreesWithMark :: PerpRule where
  "oracleAgreesWithMark i c = Inr (
     if \<not> isOpeningKind (pi_kind i) then None
     else case oracleDivergenceBps (lg_markPrice (pi_perp i)) (lg_oraclePrice (pi_perp i)) of
         None \<Rightarrow> Some PG_ORACLE_DIVERGENCE
       | Some d \<Rightarrow> refuse (js_gt d (maxOracleDivergenceBps (cx_policy c))) PG_ORACLE_DIVERGENCE)"

definition fundingSane :: PerpRule where
  "fundingSane i c = Inr (
     if \<not> isOpeningKind (pi_kind i) then None
     else case lg_fundingBpsPerHour (pi_perp i) of
         None \<Rightarrow> Some PG_FUNDING_RATE_UNKNOWN
       | Some f \<Rightarrow>
           if \<not> js_isFinite f then Some PG_FUNDING_RATE_UNKNOWN
           else if js_gt (fl_abs f) (maxFundingRateBpsPerHour (cx_policy c)) then Some PG_FUNDING_RATE_UNSANE
           else let adverse = (case lg_side (pi_perp i) of Side_long \<Rightarrow> f | Side_short \<Rightarrow> fl_neg f)
                in refuse (js_gt adverse (maxAdverseFundingBpsPerHour (cx_policy c))) PG_FUNDING_RATE_ADVERSE)"

definition PERP_RULES :: "PerpRule list" where
  "PERP_RULES = [armState, accountReady, marketAllowed, marketTradeable, collateralAllowed, collateralCappable,
     slippageWithinClamp, reduceIsAReduction, increaseMatchesPosition, leverageWithinCap, collateralWithinCap,
     notionalWithinCap, portfolioWithinCap, positionCountWithinCap, liquidationDistanceOk, oracleAgreesWithMark,
     fundingSane]"

fun first_violation :: "PerpRule list \<Rightarrow> PerpIntent \<Rightarrow> PerpGuardContext \<Rightarrow> PerpError + unit" where
  "first_violation [] i c = Inr ()"
| "first_violation (r # rs) i c =
     (case r i c of Inl e \<Rightarrow> Inl e | Inr (Some v) \<Rightarrow> Inl (Perp_error v) | Inr None \<Rightarrow> first_violation rs i c)"

fun all_violations :: "PerpRule list \<Rightarrow> PerpIntent \<Rightarrow> PerpGuardContext \<Rightarrow> PerpError + PerpGuardCode list" where
  "all_violations [] i c = Inr []"
| "all_violations (r # rs) i c =
     (case r i c of Inl e \<Rightarrow> Inl e
      | Inr v \<Rightarrow> map_sum id (\<lambda>vs. (case v of None \<Rightarrow> vs | Some x \<Rightarrow> x # vs)) (all_violations rs i c))"

definition perpGuards :: "PerpIntent \<Rightarrow> PerpGuardContext \<Rightarrow> PerpError + unit" where
  "perpGuards i c = (case assertPerpIntentShape i of Inl e \<Rightarrow> Inl e | Inr _ \<Rightarrow> first_violation PERP_RULES i c)"

record PerpGuardVerdict =
  pv_ok :: bool
  pv_violations :: "PerpGuardCode list"

definition evaluatePerpGuards :: "PerpIntent \<Rightarrow> PerpGuardContext \<Rightarrow> PerpError + PerpGuardVerdict" where
  "evaluatePerpGuards i c =
     (case assertPerpIntentShape i of
        Inl (Perp_error e) \<Rightarrow> Inr \<lparr> pv_ok = False, pv_violations = [e] \<rparr>
      | Inl Range_error \<Rightarrow> Inr \<lparr> pv_ok = False, pv_violations = [PG_INVALID_PERP_INTENT] \<rparr>
      | Inr _ \<Rightarrow> map_sum id (\<lambda>vs. \<lparr> pv_ok = (vs = []), pv_violations = vs \<rparr>) (all_violations PERP_RULES i c))"

definition positionLiquidationDistanceBps :: "PerpPosition \<Rightarrow> jsnum option" where
  "positionLiquidationDistanceBps p =
     Option.bind (po_liquidationPrice p) (liquidationDistanceBps (po_side p) (po_markPrice p))"

end
