(* ===== verification/PerpSafety.thy ===== *)
theory PerpSafety
  imports PerpGuards TradeGateway
begin

text \<open>
  What the perps guards guarantee: the advisory evaluation agrees with the enforcing one, an accepted opening
  stays inside every limit of the policy, an accepted reduction cannot flip or grow a position and is not
  held back by what only concerns openings, and an accepted intent passes the leg guards of the kernel.
\<close>

section \<open>Running the rules\<close>

lemma first_violation_pass: "first_violation rs i c = Inr () \<longleftrightarrow> list_all (\<lambda>r. r i c = Inr None) rs"
  by (induction rs) (auto split: sum.splits option.splits)

lemma all_violations_first:
  "case all_violations rs i c of
     Inl e \<Rightarrow> first_violation rs i c \<noteq> Inr ()
   | Inr [] \<Rightarrow> first_violation rs i c = Inr ()
   | Inr (v # vs) \<Rightarrow> first_violation rs i c = Inl (Perp_error v)"
  by (induction rs) (auto split: sum.splits option.splits list.splits)

lemma all_violations_error: "\<lbrakk>all_violations rs i c = Inl e; \<forall>r \<in> set rs. \<forall>e'. r i c = Inl e' \<longrightarrow> e' = Range_error\<rbrakk> \<Longrightarrow> e = Range_error"
proof (induction rs)
  case (Cons r rs)
  then show ?case by (cases "r i c"; cases "all_violations rs i c") auto
qed simp

lemmas rule_defs = armState_def accountReady_def marketAllowed_def marketTradeable_def collateralAllowed_def
  collateralCappable_def slippageWithinClamp_def reduceIsAReduction_def increaseMatchesPosition_def
  leverageWithinCap_def collateralWithinCap_def notionalWithinCap_def portfolioWithinCap_def
  positionCountWithinCap_def liquidationDistanceOk_def oracleAgreesWithMark_def fundingSane_def

lemma rules_throw_range: "r \<in> set PERP_RULES \<Longrightarrow> r i c = Inl e \<Longrightarrow> e = Range_error"
  by (auto simp: PERP_RULES_def rule_defs Let_def split: if_splits option.splits sum.splits)

lemma refuse_None [simp]: "refuse b x = None \<longleftrightarrow> \<not> b"
  by (simp add: refuse_def)

lemma perpGuards_pass:
  "perpGuards i c = Inr () \<longleftrightarrow> assertPerpIntentShape i = Inr () \<and> list_all (\<lambda>r. r i c = Inr None) PERP_RULES"
  by (auto simp: perpGuards_def first_violation_pass split: sum.splits)

lemma shape_pass: "assertPerpIntentShape i = Inr () \<longleftrightarrow> shape_base (pi_trade i) \<and> shape_leg (pi_trade i) (pi_perp i)"
  by (simp add: assertPerpIntentShape_def)

lemma perp_kind_cases: "k \<in> set PERP_INTENT_KINDS \<Longrightarrow> isOpeningKind k \<longleftrightarrow> \<not> isReducingKind k"
  by (auto simp: PERP_INTENT_KINDS_def isOpeningKind_def isReducingKind_def)

text \<open>
  The advisory path never disagrees with enforcement: it reports no violation exactly when enforcement
  passes, otherwise the first violation it lists is the one enforcement throws, and where it does not return
  (the \<open>RangeError\<close> of a leverage beyond the doubles) enforcement throws as well.
\<close>

theorem advisory_agrees:
  "case evaluatePerpGuards i c of
     Inl e \<Rightarrow> e = Range_error \<and> perpGuards i c \<noteq> Inr ()
   | Inr v \<Rightarrow> (case pv_violations v of
         [] \<Rightarrow> pv_ok v \<and> perpGuards i c = Inr ()
       | x # _ \<Rightarrow> \<not> pv_ok v \<and> perpGuards i c = Inl (Perp_error x))"
proof (cases "assertPerpIntentShape i")
  case (Inl e)
  then show ?thesis by (auto simp: evaluatePerpGuards_def perpGuards_def assertPerpIntentShape_def split: if_splits)
next
  case (Inr u)
  then show ?thesis
    using all_violations_first [of PERP_RULES i c] all_violations_error [of PERP_RULES i c] rules_throw_range
    by (auto simp: evaluatePerpGuards_def perpGuards_def split: sum.splits list.splits)
qed

section \<open>Derived notional\<close>

lemma round_even_error: "\<bar>of_int (round_even q) - q\<bar> \<le> 1 / 2"
  unfolding round_even_def Let_def using floor_correct [of q] by (auto simp: abs_if) linarith+

lemma dbl_pos_error: "\<bar>dbl_pos q - q\<bar> \<le> ulp q / 2"
proof -
  have "dbl_pos q - q = (of_int (round_even (q / ulp q)) - q / ulp q) * ulp q"
    using ulp_pos [of q] by (simp add: dbl_pos_def algebra_simps del: ulp_pos)
  also have "\<bar>\<dots>\<bar> = \<bar>of_int (round_even (q / ulp q)) - q / ulp q\<bar> * ulp q"
    by (simp add: abs_mult abs_of_pos [OF ulp_pos])
  also have "\<dots> \<le> 1 / 2 * ulp q"
    using round_even_error [of "q / ulp q"] by (intro mult_right_mono) (simp_all add: less_imp_le)
  finally show ?thesis by simp
qed

lemma ulp_small:
  assumes "0 < q" "q < 2 ^ 44"
  shows "ulp q \<le> 1 / 512"
proof -
  have "exponent_of q < 44"
  proof (rule ccontr)
    assume "\<not> ?thesis"
    then have "(2::rat) powi 44 \<le> 2 powi exponent_of q" by (intro power_int_increasing) auto
    also have "\<dots> \<le> q" using exponent_bounds assms(1) by blast
    finally show False using assms(2) by (simp add: power_int_def)
  qed
  then have "ulp q \<le> 2 powi (- 9)" unfolding ulp_def by (intro power_int_increasing) auto
  then show ?thesis by (simp add: power_int_def power_divide)
qed

lemma dbl_near:
  assumes "0 < q" "q < 2 ^ 44"
  shows "\<exists>v. dbl q = JNum v \<and> \<bar>v - q\<bar> \<le> 1 / 1024"
proof -
  have e: "\<bar>dbl_pos q - q\<bar> \<le> 1 / 1024"
    using dbl_pos_error [of q] ulp_small [OF assms] by simp
  have "dbl_pos q < 2 ^ 1024"
  proof -
    have "dbl_pos q < 2 ^ 44 + 1" using e assms(2) by (simp add: abs_if split: if_splits)
    also have "(2 ^ 44 + 1 :: rat) \<le> 2 ^ 1024" by simp
    finally show ?thesis .
  qed
  then show ?thesis using assms(1) e by (simp add: dbl_def Let_def)
qed

lemma leverageToBps_near:
  assumes "0 < l" "l \<le> 2 ^ 30"
  shows "case leverageToBps (JNum l) of
     None \<Rightarrow> l < 1 / 10000
   | Some x \<Rightarrow> \<exists>b > 0. x = JNum (of_int b) \<and> \<bar>of_int b - 10000 * l\<bar> \<le> 1"
proof -
  obtain v where v: "dbl (l * 10000) = JNum v" "\<bar>v - l * 10000\<bar> \<le> 1 / 1024"
    using dbl_near [of "l * 10000"] assms by auto
  define b where "b = \<lfloor>v + 1 / 2\<rfloor>"
  have "\<bar>of_int b - v\<bar> \<le> 1 / 2" using floor_correct [of "v + 1 / 2"] by (simp add: b_def abs_if) linarith
  then have near: "\<bar>of_int b - 10000 * l\<bar> \<le> 1" using v(2) by (auto simp: abs_if split: if_splits)
  have r: "js_round (fl_mul (JNum l) (JNum 10000)) = JNum (of_int b)" by (simp add: v b_def)
  show ?thesis
  proof (cases "0 < b")
    case True
    then show ?thesis using assms r near by (auto simp: leverageToBps_def Let_def simp del: js_round.simps fl_mul.simps)
  next
    case False
    then have "of_int b \<le> (0::rat)" by simp
    moreover have "v < of_int b + 1 / 2" using floor_correct [of "v + 1 / 2"] by (simp add: b_def)
    ultimately have "l * 10000 < 1" using v(2) by (auto simp: abs_if split: if_splits)
    then show ?thesis using False assms r by (auto simp: leverageToBps_def Let_def simp del: js_round.simps fl_mul.simps)
  qed
qed

lemma notional_near:
  assumes l: "0 < l" "l \<le> 2 ^ 30" and c: "0 \<le> c" and d: "notionalFromCollateral c (JNum l) = Inr (Some n)"
  shows "of_int c * l - of_int c / 10000 - 1 < of_int n" and "of_int n \<le> of_int c * l + of_int c / 10000"
proof -
  obtain b where b: "b > 0" "leverageToBps (JNum l) = Some (JNum (of_int b))" "\<bar>of_int b - 10000 * l\<bar> \<le> 1"
    using leverageToBps_near [OF l] d by (auto simp: notionalFromCollateral_def split: option.splits)
  then have n: "n = c * b div 10000" using d c by (auto simp: notionalFromCollateral_def split: if_splits)
  have dv: "of_int n \<le> (of_int (c * b) / 10000 :: rat)" "of_int (c * b) / 10000 < (of_int n + 1 :: rat)"
    using floor_divide_of_int_eq [of "c * b" 10000, where ?'a = rat] floor_correct [of "of_int (c * b) / (10000 :: rat)"]
    by (simp_all add: n)
  have "of_int c * of_int b \<le> of_int c * (10000 * l + 1 :: rat)" "of_int c * (10000 * l - 1 :: rat) \<le> of_int c * of_int b"
    using b(3) c by (intro mult_left_mono; simp add: abs_if split: if_splits)+
  then show "of_int c * l - of_int c / 10000 - 1 < of_int n" "of_int n \<le> of_int c * l + of_int c / 10000"
    using dv by (simp_all add: algebra_simps)
qed

section \<open>Accepted openings\<close>

lemma perp_rule_passed: "perpGuards i c = Inr () \<Longrightarrow> r \<in> set PERP_RULES \<Longrightarrow> r i c = Inr None"
  by (simp add: perpGuards_pass list_all_iff)

lemma opening_armed:
  assumes "perpGuards i c = Inr ()" "isOpeningKind (pi_kind i)"
  shows "\<not> cx_killSwitch c \<and> (cx_dryRun c \<or> cx_executionEnabled c) \<and> perpsEnabled (cx_policy c) \<and>
     \<not> windDownOnly (cx_policy c) \<and> cx_accountInitialized c \<and> lg_marketStatus (pi_perp i) = Mk_active"
proof -
  have k: "\<not> isReducingKind (pi_kind i)" using assms(2) by (auto simp: isOpeningKind_def isReducingKind_def)
  show ?thesis
    using perp_rule_passed [OF assms(1), of armState] perp_rule_passed [OF assms(1), of accountReady]
      perp_rule_passed [OF assms(1), of marketTradeable] assms(2) k
    by (auto simp: PERP_RULES_def armState_def accountReady_def marketTradeable_def split: if_splits)
qed



lemma opening_caps:
  assumes pass: "perpGuards i c = Inr ()" and k: "isOpeningKind (pi_kind i)"
  obtains b n where "bucketOf i = Some b" "derived_notional i = Inr (Some n)" "\<not> ex_stale (cx_exposure c)"
    "ta_amount (lg_collateral (pi_perp i)) = 0 \<or>
       ta_amount (lg_collateral (pi_perp i)) \<le> maxCollateralPerPosition (capsFor (cx_policy c) b)"
    "ta_amount (lg_notional (pi_perp i)) \<le> maxNotionalPerPosition (capsFor (cx_policy c) b)"
    "n \<le> maxNotionalPerPosition (capsFor (cx_policy c) b)"
    "ex_notional (cx_exposure c) b + ta_amount (lg_notional (pi_perp i)) \<le> maxPortfolioNotional (capsFor (cx_policy c) b)"
    "ex_notional (cx_exposure c) b + n \<le> maxPortfolioNotional (capsFor (cx_policy c) b)"
proof -
  note rule = perp_rule_passed [OF pass]
  obtain b where b: "bucketOf i = Some b"
    using rule [of collateralCappable] by (auto simp: PERP_RULES_def collateralCappable_def)
  obtain n where n: "derived_notional i = Inr (Some n)"
    using rule [of notionalWithinCap] k b by (auto simp: PERP_RULES_def notionalWithinCap_def split: sum.splits option.splits)
  show thesis
    using rule [of collateralWithinCap] rule [of notionalWithinCap] rule [of portfolioWithinCap] k b n
    by (intro that [OF b n])
       (auto simp: PERP_RULES_def collateralWithinCap_def notionalWithinCap_def portfolioWithinCap_def Let_def split: if_splits)
qed

lemma shape_leverage:
  assumes "perpGuards i c = Inr ()"
  obtains l where "lg_leverage (pi_perp i) = JNum l" "0 < l" "ta_amount (lg_collateral (pi_perp i)) = ta_amount (ti_input (pi_trade i))"
    "0 \<le> ta_amount (ti_input (pi_trade i))"
  using assms by (auto simp: perpGuards_pass shape_pass shape_leg_def shape_base_def positive_price_def js_isFinite_JNum)

text \<open>
  C25: when the leverage cap is a number up to 2^30, an accepted opening or increase is inside every exposure limit of its collateral's bucket: the leverage
  cap, the collateral cap, and the position and portfolio caps on both the notional the venue claims and the
  exact product of the margin with the leverage, up to a ten-thousandth of the margin and one base unit.
\<close>

theorem opening_within_limits:
  assumes pass: "perpGuards i c = Inr ()" and k: "isOpeningKind (pi_kind i)"
    and cap: "maxLeverage (cx_policy c) = JNum cap" "cap \<le> 2 ^ 30"
  shows "\<exists>b l. bucketOf i = Some b \<and> lg_leverage (pi_perp i) = JNum l \<and> 0 < l \<and> l \<le> cap \<and>
     (let margin = ta_amount (ti_input (pi_trade i)); claimed = ta_amount (lg_notional (pi_perp i));
          exact = of_int margin * l - of_int margin / 10000 - 1;
          current = ex_notional (cx_exposure c) b; caps = capsFor (cx_policy c) b
      in (margin = 0 \<or> margin \<le> maxCollateralPerPosition caps) \<and>
         claimed \<le> maxNotionalPerPosition caps \<and> exact < of_int (maxNotionalPerPosition caps) \<and>
         current + claimed \<le> maxPortfolioNotional caps \<and> of_int current + exact < of_int (maxPortfolioNotional caps))"
proof -
  obtain l where l: "lg_leverage (pi_perp i) = JNum l" "0 < l"
    and m: "ta_amount (lg_collateral (pi_perp i)) = ta_amount (ti_input (pi_trade i))" "0 \<le> ta_amount (ti_input (pi_trade i))"
    using pass by (rule shape_leverage)
  have le: "l \<le> cap"
    using perp_rule_passed [OF pass, of leverageWithinCap] k l cap by (simp add: PERP_RULES_def leverageWithinCap_def not_less)
  obtain b n where b: "bucketOf i = Some b" and n: "derived_notional i = Inr (Some n)"
    and caps: "ta_amount (lg_collateral (pi_perp i)) = 0 \<or>
       ta_amount (lg_collateral (pi_perp i)) \<le> maxCollateralPerPosition (capsFor (cx_policy c) b)"
    "ta_amount (lg_notional (pi_perp i)) \<le> maxNotionalPerPosition (capsFor (cx_policy c) b)"
    "n \<le> maxNotionalPerPosition (capsFor (cx_policy c) b)"
    "ex_notional (cx_exposure c) b + ta_amount (lg_notional (pi_perp i)) \<le> maxPortfolioNotional (capsFor (cx_policy c) b)"
    "ex_notional (cx_exposure c) b + n \<le> maxPortfolioNotional (capsFor (cx_policy c) b)"
    using opening_caps [OF pass k] by metis
  let ?a = "ta_amount (ti_input (pi_trade i))"
  have near: "of_int ?a * l - of_int ?a / 10000 - 1 < of_int n"
    using notional_near(1) [of l ?a n] n m l le cap(2) by (simp add: derived_notional_def)
  moreover have "(of_int n :: rat) \<le> of_int (maxNotionalPerPosition (capsFor (cx_policy c) b))"
    "of_int (ex_notional (cx_exposure c) b) + of_int n \<le> (of_int (maxPortfolioNotional (capsFor (cx_policy c) b)) :: rat)"
    using caps(3,5) by (simp_all only: of_int_le_iff flip: of_int_add)
  ultimately show ?thesis
    using b l le m caps by (auto simp: Let_def)
qed

lemma distance_finite: "liquidationDistanceBps s r q = Some d \<Longrightarrow> \<exists>x. d = JNum x"
  by (auto simp: liquidationDistanceBps_def Let_def js_isFinite_JNum split: if_splits)

lemma bind_distance_finite: "Option.bind x (liquidationDistanceBps s r) = Some d \<Longrightarrow> \<exists>y. d = JNum y"
  by (auto simp: bind_eq_Some_conv dest: distance_finite)

lemma reconciled_conservative:
  assumes "\<not> rl_ambiguity (reconcileLiquidation s r v m t)"
    "rl_distanceBps (reconcileLiquidation s r v m t) = Some d"
    "Option.bind v (liquidationDistanceBps s r) = Some e \<or> Option.bind m (liquidationDistanceBps s r) = Some e"
  shows "js_le d e"
  using assms
  by (cases "Option.bind v (liquidationDistanceBps s r)"; cases "Option.bind m (liquidationDistanceBps s r)")
     (auto simp: reconcileLiquidation_def Let_def split: if_splits dest!: bind_distance_finite)

text \<open>
  An accepted opening has a known liquidation distance, and every estimate there is, the venue's and the
  independent model's, keeps the minimum distance of the policy; funding is known, sane and affordable, and the
  oracle agrees with the mark.
\<close>

theorem opening_risk_known:
  assumes pass: "perpGuards i c = Inr ()" and k: "isOpeningKind (pi_kind i)"
  shows "let p = pi_perp i; y = cx_policy c;
       estimates = map (\<lambda>x. Option.bind x (liquidationDistanceBps (lg_side p) (lg_entryPrice p)))
         [lg_venueLiquidationPrice p, model_liquidation p]
     in (\<exists>e. e \<in> set estimates \<and> e \<noteq> None) \<and>
        list_all (\<lambda>e. case e of None \<Rightarrow> True | Some d \<Rightarrow> \<not> js_lt d (minLiquidationDistanceBps y)) estimates \<and>
        (case oracleDivergenceBps (lg_markPrice p) (lg_oraclePrice p) of None \<Rightarrow> False
           | Some d \<Rightarrow> \<not> js_gt d (maxOracleDivergenceBps y)) \<and>
        (case lg_fundingBpsPerHour p of None \<Rightarrow> False
           | Some f \<Rightarrow> js_isFinite f \<and> \<not> js_gt (fl_abs f) (maxFundingRateBpsPerHour y) \<and>
               \<not> js_gt (case lg_side p of Side_long \<Rightarrow> f | Side_short \<Rightarrow> fl_neg f) (maxAdverseFundingBpsPerHour y))"
proof -
  note rule = perp_rule_passed [OF pass]
  let ?p = "pi_perp i"
  let ?r = "reconcileLiquidation (lg_side ?p) (lg_entryPrice ?p) (lg_venueLiquidationPrice ?p) (model_liquidation ?p)
    (liquidationToleranceBps (cx_policy c))"
  obtain d where d: "\<not> rl_ambiguity ?r" "rl_distanceBps ?r = Some d" "\<not> js_lt d (minLiquidationDistanceBps (cx_policy c))"
    using rule [of liquidationDistanceOk] k
    by (auto simp: PERP_RULES_def liquidationDistanceOk_def Let_def split: if_splits option.splits)
  have known: "Option.bind (lg_venueLiquidationPrice ?p) (liquidationDistanceBps (lg_side ?p) (lg_entryPrice ?p)) \<noteq> None \<or>
     Option.bind (model_liquidation ?p) (liquidationDistanceBps (lg_side ?p) (lg_entryPrice ?p)) \<noteq> None"
    using d(1) by (auto simp: reconcileLiquidation_def Let_def split: if_splits option.splits)
  have le: "js_le d e \<Longrightarrow> \<not> js_lt e (minLiquidationDistanceBps (cx_policy c))" for e
    using d(3) by (cases d; cases e; cases "minLiquidationDistanceBps (cx_policy c)") (auto simp: js_le_def)
  have all: "Option.bind x (liquidationDistanceBps (lg_side ?p) (lg_entryPrice ?p)) = Some e \<Longrightarrow>
      x = lg_venueLiquidationPrice ?p \<or> x = model_liquidation ?p \<Longrightarrow> \<not> js_lt e (minLiquidationDistanceBps (cx_policy c))" for x e
    using reconciled_conservative [OF d(1,2), of e] le by auto
  show ?thesis
    using rule [of oracleAgreesWithMark] rule [of fundingSane] k known all
    by (auto simp: PERP_RULES_def oracleAgreesWithMark_def fundingSane_def Let_def split: if_splits option.splits PerpSide.splits)
qed

section \<open>Reductions\<close>

lemma oppositeSide_neq: "s \<noteq> t \<longleftrightarrow> s = oppositeSide t"
  by (cases s; cases t) (simp_all add: oppositeSide_def)

lemma reducing_target:
  assumes "perpGuards i c = Inr ()" "isReducingKind (pi_kind i)"
  obtains p where "cx_position c = Some p" "js_upper (po_symbol p) = js_upper (lg_market (pi_perp i))"
    "po_side p \<noteq> lg_side (pi_perp i)" "lg_expectedBaseAmount (pi_perp i) \<le> po_baseAmount p"
  using perp_rule_passed [OF assms(1), of reduceIsAReduction] assms(2)
  by (auto simp: PERP_RULES_def reduceIsAReduction_def split: option.splits if_splits)

text \<open>
  Whatever part of an accepted reduce or close is filled, the signed position of the market shrinks by
  exactly that part and never changes side, and the gateway's settlement accepts the fill exactly when it
  reaches the committed minimum.
\<close>

theorem reduction_only_shrinks:
  assumes pass: "perpGuards i c = Inr ()" and k: "isReducingKind (pi_kind i)"
    and f: "0 \<le> f" "f \<le> lg_expectedBaseAmount (pi_perp i)"
  shows "case (cx_position c, asTradeIntent i) of
      (Some p, Inr t) \<Rightarrow>
        (let before = signed_position p;
             after = (case lg_side (pi_perp i) of Side_long \<Rightarrow> before + f | Side_short \<Rightarrow> before - f)
         in \<bar>after\<bar> = \<bar>before\<bar> - f \<and> 0 \<le> before * after \<and>
            (case ti_perp t of None \<Rightarrow> False
             | Some l \<Rightarrow> so_problem (settle_position l before after) =
                 (if pl_minBaseAmount l \<le> f then None else Some SETTLE_SHORTFALL)))
    | _ \<Rightarrow> False"
proof -
  obtain p where p: "cx_position c = Some p" "po_side p \<noteq> lg_side (pi_perp i)" "lg_expectedBaseAmount (pi_perp i) \<le> po_baseAmount p"
    using pass k by (rule reducing_target)
  have "asTradeIntent i = Inr ((pi_trade i)\<lparr> ti_perp := Some (settle_leg (pi_perp i)) \<rparr>)"
    using pass by (simp add: asTradeIntent_def perpGuards_pass)
  then show ?thesis
    using p f by (cases "lg_side (pi_perp i)"; cases "po_side p")
      (auto simp: signed_position_def settle_position_def perp_filled_def settle_leg_def Let_def
        intro: mult_nonneg_nonneg mult_nonneg_nonpos)
qed

lemma reducing_not_opening [simp]: "isReducingKind k \<Longrightarrow> \<not> isOpeningKind k"
  by (auto simp: isReducingKind_def isOpeningKind_def)

text \<open>
  A reduce or close passes the guards exactly when it is well formed, execution is armed or the call is a
  dry run, its account, market and collateral are admissible, its slippage is within the clamp, and it targets
  an opposite position that is large enough. The kill switch of the guards, wind-down, a disabled perps
  policy, unknown exposure, leverage, liquidation, funding and oracle readings never hold it back.
\<close>

theorem reduction_not_held_back:
  "isReducingKind (pi_kind i) \<Longrightarrow>
   perpGuards i c = Inr () \<longleftrightarrow>
     shape_base (pi_trade i) \<and> shape_leg (pi_trade i) (pi_perp i) \<and>
     (cx_dryRun c \<or> cx_executionEnabled c) \<and> cx_accountInitialized c \<and>
     marketAllowed i c = Inr None \<and> lg_marketStatus (pi_perp i) \<in> {Mk_active, Mk_reduce_only} \<and>
     collateralAllowed i c = Inr None \<and> bucketOf i \<noteq> None \<and> collateralWithinCap i c = Inr None \<and>
     js_le (lg_slippageBps (pi_perp i)) (perpMaxSlippageBps (cx_policy c)) \<and>
     (case cx_position c of None \<Rightarrow> False
      | Some p \<Rightarrow> js_upper (po_symbol p) = js_upper (lg_market (pi_perp i)) \<and>
          po_side p = oppositeSide (lg_side (pi_perp i)) \<and> lg_expectedBaseAmount (pi_perp i) \<le> po_baseAmount p)"
proof -
  assume k: "isReducingKind (pi_kind i)"
  then have off: "leverageWithinCap i c = Inr None" "notionalWithinCap i c = Inr None" "portfolioWithinCap i c = Inr None"
    "liquidationDistanceOk i c = Inr None" "oracleAgreesWithMark i c = Inr None" "fundingSane i c = Inr None"
    by (simp_all add: rule_defs)
  have kinds: "increaseMatchesPosition i c = Inr None" "positionCountWithinCap i c = Inr None"
    using k by (auto simp: increaseMatchesPosition_def positionCountWithinCap_def isReducingKind_def)
  have arm: "armState i c = Inr None \<longleftrightarrow> cx_dryRun c \<or> cx_executionEnabled c" using k by (auto simp: armState_def)
  have status: "marketTradeable i c = Inr None \<longleftrightarrow> lg_marketStatus (pi_perp i) \<in> {Mk_active, Mk_reduce_only}"
    using k by (auto simp: marketTradeable_def)
  have target: "reduceIsAReduction i c = Inr None \<longleftrightarrow> (case cx_position c of None \<Rightarrow> False
      | Some p \<Rightarrow> js_upper (po_symbol p) = js_upper (lg_market (pi_perp i)) \<and>
          po_side p = oppositeSide (lg_side (pi_perp i)) \<and> lg_expectedBaseAmount (pi_perp i) \<le> po_baseAmount p)"
    using k by (auto simp: reduceIsAReduction_def not_less simp flip: oppositeSide_neq split: option.splits)
  show ?thesis
    unfolding perpGuards_pass shape_pass PERP_RULES_def
    by (simp add: off kinds arm status target accountReady_def collateralCappable_def slippageWithinClamp_def conj_ac del: not_None_eq)
qed

section \<open>Into the kernel\<close>

text \<open>
  A built perp intent that passes the perp guards reaches the kernel as a well-formed trade intent: its kind
  is known and settles on the venue, its leg passes the kernel's leg guards unless it opens with no margin at
  all, and the kernel's slippage guards hold whenever the kernel's limit is at least that of the perps policy.
\<close>

theorem built_intent_passes_kernel:
  assumes pass: "perpGuards (buildPerpIntent summarize a) c = Inr ()"
    and limits: "perpMaxSlippageBps (cx_policy c) = JNum m" "maxSlippageBps p = JNum m'" "m \<le> m'"
  shows "case asTradeIntent (buildPerpIntent summarize a) of
      Inl _ \<Rightarrow> False
    | Inr t \<Rightarrow> t = pi_trade (buildPerpIntent summarize a) \<and> isIntentKind (ti_kind t) \<and> settleModeFor (ti_kind t) = Venue_position \<and>
        leg_guards t = (if isOpeningKind (ti_kind t) \<and> ta_amount (ti_input t) = 0 then Inl (GuardErr INVALID_INTENT) else Inr ()) \<and>
        slippage_guards p t = Inr ()"
proof -
  let ?i = "buildPerpIntent summarize a"
  let ?t = "pi_trade ?i"
  have t: "asTradeIntent ?i = Inr ?t"
    using pass by (simp add: asTradeIntent_def perpGuards_pass buildPerpIntent_def Let_def)
  have shape: "shape_base ?t" "shape_leg ?t (pi_perp ?i)" using pass by (simp_all add: perpGuards_pass shape_pass)
  then have kind: "isPerpIntentKind (ti_kind ?t)" by (simp add: shape_base_def isPerpIntentKind_def)
  then have open_kind: "isOpeningKind (ti_kind ?t) \<longleftrightarrow> \<not> postsZeroCollateral (ti_kind ?t)"
    using perp_kind_cases [of "ti_kind ?t"] by (simp add: isPerpIntentKind_def postsZeroCollateral_def isReducingKind_def)
  have leg: "ti_perp ?t = Some (settle_leg (pi_perp ?i))" "q_slippageBps (ti_quote ?t) = lg_slippageBps (pi_perp ?i)"
    "q_outAmount (ti_quote ?t) = 0" "q_minOutAmount (ti_quote ?t) = 0"
    by (simp_all add: buildPerpIntent_def build_leg_def Let_def)
  have bounds: "0 \<le> ta_amount (ti_input ?t)" "0 < lg_expectedBaseAmount (pi_perp ?i)"
    "lg_minBaseAmount (pi_perp ?i) \<le> lg_expectedBaseAmount (pi_perp ?i)" "\<not> js_lt (lg_slippageBps (pi_perp ?i)) (JNum 0)"
    using shape by (simp_all add: shape_base_def shape_leg_def)
  have slip: "js_le (lg_slippageBps (pi_perp ?i)) (JNum m)"
    using perp_rule_passed [OF pass, of slippageWithinClamp] limits(1) by (simp add: PERP_RULES_def slippageWithinClamp_def)
  then obtain x where x: "lg_slippageBps (pi_perp ?i) = JNum x" "0 \<le> x" "x \<le> m"
    using bounds(4) by (cases "lg_slippageBps (pi_perp ?i)") (auto simp: js_le_def not_less)
  have "slippage_guards p ?t = Inr ()"
    using x limits leg by (simp add: slippage_guards_def slippageBps_def MIN_OUT_TOLERANCE_BPS_def)
  moreover have "leg_guards ?t = (if isOpeningKind (ti_kind ?t) \<and> ta_amount (ti_input ?t) = 0 then Inl (GuardErr INVALID_INTENT) else Inr ())"
    using kind leg(1) bounds open_kind by (auto simp: leg_guards_def settle_leg_def)
  ultimately show ?thesis using t kind isPerpIntentKind_kind by simp
qed

section \<open>Examples\<close>

definition example_policy :: PerpsPolicy where
  "example_policy = \<lparr> perpsEnabled = True, windDownOnly = False, maxLeverage = JNum 3, minLiquidationDistanceBps = JNum 2000,
     maxFundingRateBpsPerHour = JNum 5, maxAdverseFundingBpsPerHour = JNum 2, perpMaxSlippageBps = JNum 100,
     maxOracleDivergenceBps = JNum 100, liquidationToleranceBps = JNum 500, maxOpenPositions = JNum 3,
     perpCapsSol = \<lparr> maxCollateralPerPosition = 0, maxNotionalPerPosition = 0, maxPortfolioNotional = 0 \<rparr>,
     perpCapsUsdc = \<lparr> maxCollateralPerPosition = 200000000, maxNotionalPerPosition = 600000000, maxPortfolioNotional = 2000000000 \<rparr>,
     marketAllowlist = Some [''sol-perp''], marketDenylist = [], allowedCollateralMints = [USDC_MINT], allowAccountCreation = False \<rparr>"

definition example_args :: "string \<Rightarrow> PerpSide \<Rightarrow> int \<Rightarrow> BuildPerpIntentArgs" where
  "example_args k side margin = \<lparr> bp_kind = k, bp_source = ''perps'',
     bp_market = \<lparr> mk_venue = ''drift'', mk_symbol = ''SOL-PERP'', mk_venueMarketIndex = 0, mk_baseDecimals = 9,
       mk_maintenanceMarginRatio = JNum 0, mk_status = Mk_active \<rparr>,
     bp_subAccountId = 0, bp_side = side, bp_orderType = Ord_market, bp_limitPrice = None, bp_slippageBps = JNum 50,
     bp_leverage = JNum 2, bp_collateral = \<lparr> ta_mint = USDC_MINT, ta_amount = margin, ta_decimals = 6 \<rparr>,
     bp_prices = \<lparr> pp_markPrice = JNum 128, pp_oraclePrice = JNum 128, pp_oracleSlot = None \<rparr>,
     bp_funding = Some (JNum 1),
     bp_build = \<lparr> vb_unsignedTxBase64 = ''AA=='', vb_recentBlockhash = ''h'', vb_lastValidBlockHeight = 10,
       vb_priorityFeeLamports = JNum 0, vb_expectedBaseAmount = 1500000000, vb_minBaseAmount = 1490000000,
       vb_entryPrice = JNum 128, vb_notional = \<lparr> ta_mint = USDC_MINT, ta_amount = 2 * margin, ta_decimals = 6 \<rparr>,
       vb_estimatedLiquidationPrice = Some (JNum 64) \<rparr>,
     bp_collateralProvenance = Prov_user \<rparr>"

definition example_context :: "PerpPosition option \<Rightarrow> PerpGuardContext" where
  "example_context position = \<lparr> cx_policy = example_policy, cx_killSwitch = False, cx_executionEnabled = True,
     cx_exposure = emptyExposure, cx_position = position, cx_accountInitialized = True, cx_dryRun = False \<rparr>"

definition example_position :: PerpPosition where
  "example_position = \<lparr> po_venue = ''drift'', po_symbol = ''SOL-PERP'', po_side = Side_long, po_baseAmount = 1500000000,
     po_baseDecimals = 9, po_entryPrice = JNum 128, po_markPrice = JNum 128,
     po_notional = \<lparr> ta_mint = USDC_MINT, ta_amount = 192000000, ta_decimals = 6 \<rparr>,
     po_collateral = \<lparr> ta_mint = USDC_MINT, ta_amount = 96000000, ta_decimals = 6 \<rparr>,
     po_unrealizedPnl = 0, po_liquidationPrice = None, po_leverage = JNum 2 \<rparr>"

definition example_open :: PerpIntent where
  "example_open = buildPerpIntent (\<lambda>_. ''open'') (example_args ''perp_open'' Side_long 96000000)"

definition example_close :: PerpIntent where
  "example_close = buildPerpIntent (\<lambda>_. ''close'') (example_args ''perp_close'' Side_short 0)"

lemma example_upper: "js_upper ''SOL-PERP'' = ''SOL-PERP''" "js_upper ''sol-perp'' = ''SOL-PERP''"
  by code_simp+

lemmas example_defs = example_policy_def example_args_def example_context_def buildPerpIntent_def build_leg_def Let_def

lemma example_shape: "assertPerpIntentShape example_open = Inr ()"
  by (simp add: shape_pass example_open_def example_defs shape_base_def shape_leg_def PERP_INTENT_KINDS_def
      positive_price_def isReducingKind_def USDC_MINT_def)

lemma example_model: "model_liquidation (pi_perp example_open) = Some (JNum 64)"
  by (simp add: model_liquidation_def modelLiquidationPrice_def example_open_def example_defs isUsablePrice_def
      js_le_def one_over_def fl_sub_def dbl_half dbl_numeral dbl_int [of 1, simplified] dbl_int [of 0, simplified])

lemma example_distance: "liquidationDistanceBps Side_long (JNum 128) (JNum 64) = Some (JNum 5000)"
  by (simp add: liquidationDistanceBps_def isUsablePrice_def Let_def fl_sub_def dbl_half dbl_numeral)

lemma example_liquidation: "liquidationDistanceOk example_open (example_context None) = Inr None"
  using example_model
  by (simp add: liquidationDistanceOk_def reconcileLiquidation_def example_open_def example_defs isUsablePrice_def
      example_distance js_le_def)

lemma floor_example: "\<lfloor>40001 / 2 :: rat\<rfloor> = 20000"
  by (simp add: floor_eq_iff)

lemma example_notional: "derived_notional example_open = Inr (Some 192000000)"
  by (simp add: derived_notional_def notionalFromCollateral_def leverageToBps_def example_open_def example_defs js_le_def dbl_numeral floor_example)

lemma example_bucket: "bucketOf example_open = Some Bucket_usdc"
  by (simp add: bucketOf_def example_open_def example_defs quoteBucketFor_def USDC_QUOTE_MINTS_def SOL_QUOTE_MINTS_def USDC_MINT_def WSOL_MINT_def)

lemma example_open_passes: "perpGuards example_open (example_context None) = Inr ()"
proof -
  have "oracleAgreesWithMark example_open (example_context None) = Inr None"
    by (simp add: oracleAgreesWithMark_def oracleDivergenceBps_def example_open_def example_defs isUsablePrice_def fl_sub_def
        dbl_int [of 0, simplified] refuse_def)
  moreover have "list_all (\<lambda>r. r example_open (example_context None) = Inr None)
     [armState, accountReady, marketAllowed, marketTradeable, collateralAllowed, slippageWithinClamp, reduceIsAReduction,
      increaseMatchesPosition, leverageWithinCap, positionCountWithinCap, fundingSane]"
    by (simp add: rule_defs example_open_def example_defs example_upper refuse_def emptyExposure_def pi_kind_def
        isOpeningKind_def isReducingKind_def js_le_def)
  moreover have "collateralCappable example_open (example_context None) = Inr None"
    "collateralWithinCap example_open (example_context None) = Inr None"
    "notionalWithinCap example_open (example_context None) = Inr None"
    "portfolioWithinCap example_open (example_context None) = Inr None"
    using example_bucket example_notional
    by (simp_all add: rule_defs example_open_def example_defs refuse_def emptyExposure_def capsFor_def)
  ultimately show ?thesis
    using example_shape example_liquidation by (simp add: perpGuards_pass PERP_RULES_def)
qed

lemma example_open_kind: "isOpeningKind (pi_kind example_open)"
  by (simp add: pi_kind_def isOpeningKind_def example_open_def example_defs)

lemma example_close_passes: "perpGuards example_close (example_context (Some example_position)) = Inr ()"
  by code_simp


lemma opening_within_limits_witness:
  "(let margin = ta_amount (ti_input (pi_trade example_open)) in margin = 96000000) \<and>
   (\<exists>b l. bucketOf example_open = Some b \<and> lg_leverage (pi_perp example_open) = JNum l \<and> l \<le> 3)"
  using opening_within_limits [OF example_open_passes example_open_kind, of 3]
  by (auto simp: example_context_def example_policy_def example_open_def example_args_def buildPerpIntent_def Let_def)

lemma opening_risk_known_witness:
  "\<exists>f. lg_fundingBpsPerHour (pi_perp example_open) = Some f \<and> js_isFinite f \<and> \<not> js_gt (fl_abs f) (JNum 5)"
  using opening_risk_known [OF example_open_passes example_open_kind]
  by (auto simp: example_context_def example_policy_def Let_def split: option.splits)

lemma example_close_kind: "isReducingKind (pi_kind example_close)"
  by (simp add: pi_kind_def isReducingKind_def example_close_def example_defs)

lemma reduction_only_shrinks_witness: "isReducingKind (pi_kind example_close) \<and> asTradeIntent example_close \<noteq> Inl Range_error"
  using reduction_only_shrinks [OF example_close_passes example_close_kind, of 1490000000] example_close_kind
  by (auto simp: example_close_def example_context_def example_args_def buildPerpIntent_def build_leg_def Let_def split: option.splits sum.splits)

lemma reduction_not_held_back_witness: "perpGuards example_close (example_context (Some example_position)) = Inr () \<and>
   shape_base (pi_trade example_close)"
  using reduction_not_held_back [OF example_close_kind, of "example_context (Some example_position)"] example_close_passes by blast

lemma built_intent_passes_kernel_witness:
  "slippage_guards (defaultPolicy\<lparr> maxSlippageBps := JNum 100 \<rparr>) (pi_trade example_open) = Inr ()"
  using built_intent_passes_kernel [of "\<lambda>_. ''open''" "example_args ''perp_open'' Side_long 96000000" "example_context None" 100
      "defaultPolicy\<lparr> maxSlippageBps := JNum 100 \<rparr>" 100] example_open_passes
  by (auto simp: example_open_def example_context_def example_policy_def split: sum.splits)

end
