(* ===== verification/Bins.thy ===== *)
theory Bins
  imports Doubles "HOL-Library.Multiset"
begin

text \<open>
  \<open>src/src/pools/meteora/bins.ts\<close>: the bins of a concentrated-liquidity pool, their ranges, the shapes of a
  deposit and its exact apportionment. Bin numbers and counts are integers far below \<open>2 ^ 53\<close>, so their
  differences are exact; prices, weights and fractions are rounded doubles. The functions whose result
  ECMAScript leaves to the implementation (\<open>**\<close>, \<open>Math.log\<close>, \<open>Math.exp\<close>, \<open>Math.sqrt\<close>) are the argument \<open>F\<close>.
\<close>

section \<open>Bins and prices\<close>

definition BASIS_POINT_MAX :: int where "BASIS_POINT_MAX = 10000"
definition MAX_BIN_PER_POSITION :: int where "MAX_BIN_PER_POSITION = 70"
definition MAX_BIN_PER_ARRAY :: int where "MAX_BIN_PER_ARRAY = 70"
definition MAX_BIN_STEP :: int where "MAX_BIN_STEP = 400"
definition MAX_BIN_ID :: int where "MAX_BIN_ID = 351639"
definition MIN_BIN_ID :: int where "MIN_BIN_ID = - 351639"

record MathFns =
  mf_pow :: "jsnum \<Rightarrow> jsnum \<Rightarrow> jsnum"
  mf_log :: "jsnum \<Rightarrow> jsnum"
  mf_exp :: "jsnum \<Rightarrow> jsnum"
  mf_sqrt :: "jsnum \<Rightarrow> jsnum"

text \<open>\<open>BinMathError\<close>, or the \<open>RangeError\<close> of a conversion to \<open>bigint\<close>.\<close>

datatype BinError = Bin_math_error | Bin_range_error

abbreviation num :: "int \<Rightarrow> jsnum" where
  "num n \<equiv> JNum (of_int n)"

definition assertBinStep :: "jsnum \<Rightarrow> BinError + 'a \<Rightarrow> BinError + 'a" where
  "assertBinStep s k = (if \<not> js_isInteger s \<or> js_le s (JNum 0) \<or> js_gt s (num MAX_BIN_STEP) then Inl Bin_math_error else k)"

text \<open>A bin number that passes the test is the integer the continuation gets.\<close>

definition assertBinId :: "jsnum \<Rightarrow> (int \<Rightarrow> BinError + 'a) \<Rightarrow> BinError + 'a" where
  "assertBinId b k = (case js_BigInt b of None \<Rightarrow> Inl Bin_math_error
     | Some n \<Rightarrow> if n < MIN_BIN_ID \<or> n > MAX_BIN_ID then Inl Bin_math_error else k n)"

definition step_factor :: "jsnum \<Rightarrow> jsnum" where
  "step_factor s = fl_add (JNum 1) (fl_div s (num BASIS_POINT_MAX))"

definition priceOfBin :: "MathFns \<Rightarrow> jsnum \<Rightarrow> jsnum \<Rightarrow> BinError + jsnum" where
  "priceOfBin F b s = assertBinStep s (assertBinId b (\<lambda>_. Inr (mf_pow F (step_factor s) b)))"

definition uiPriceOfBin :: "MathFns \<Rightarrow> jsnum \<Rightarrow> jsnum \<Rightarrow> int \<Rightarrow> int \<Rightarrow> BinError + jsnum" where
  "uiPriceOfBin F b s baseDecimals quoteDecimals =
     map_sum id (\<lambda>p. fl_mul p (mf_pow F (JNum 10) (num (baseDecimals - quoteDecimals)))) (priceOfBin F b s)"

definition binOfPrice :: "MathFns \<Rightarrow> jsnum \<Rightarrow> jsnum \<Rightarrow> BinError + jsnum" where
  "binOfPrice F price s = assertBinStep s
     (if \<not> js_isFinite price \<or> js_le price (JNum 0) then Inl Bin_math_error
      else let r = fl_div (mf_log F price) (mf_log F (step_factor s));
               snapped = (if js_lt (fl_abs (fl_sub r (js_round r))) (dbl (1 / 1000000000)) then js_round r else js_floor r)
           in if js_lt snapped (num MIN_BIN_ID) \<or> js_gt snapped (num MAX_BIN_ID) then Inl Bin_math_error else Inr snapped)"

definition binOfUiPrice :: "MathFns \<Rightarrow> jsnum \<Rightarrow> jsnum \<Rightarrow> int \<Rightarrow> int \<Rightarrow> BinError + jsnum" where
  "binOfUiPrice F uiPrice s baseDecimals quoteDecimals =
     binOfPrice F (fl_div uiPrice (mf_pow F (JNum 10) (num (baseDecimals - quoteDecimals)))) s"

section \<open>Ranges\<close>

record BinRange =
  br_lower :: int
  br_upper :: int

definition binSpan :: "BinRange \<Rightarrow> int" where
  "binSpan r = br_upper r - br_lower r + 1"

definition rangeWidthPct :: "MathFns \<Rightarrow> BinRange \<Rightarrow> jsnum \<Rightarrow> BinError + jsnum" where
  "rangeWidthPct F r s = assertBinStep s
     (Inr (fl_mul (fl_sub (mf_pow F (step_factor s) (num (br_upper r - br_lower r))) (JNum 1)) (JNum 100)))"

text \<open>The loop that shrinks the wider side until the span fits one position.\<close>

function shrink_range :: "int \<Rightarrow> int \<Rightarrow> int \<Rightarrow> int \<times> int" where
  "shrink_range cap lo hi =
     (if lo + hi + 1 > cap then (if lo \<ge> hi then shrink_range cap (lo - 1) hi else shrink_range cap lo (hi - 1)) else (lo, hi))"
  by auto
termination by (relation "measure (\<lambda>(cap, lo, hi). nat (lo + hi + 1 - cap))") auto

declare shrink_range.simps [simp del]

definition rangeAroundActive :: "jsnum \<Rightarrow> jsnum \<Rightarrow> jsnum \<Rightarrow> int \<Rightarrow> BinError + BinRange" where
  "rangeAroundActive activeBinId belowBins aboveBins maxSpan = assertBinId activeBinId (\<lambda>act.
     (case (js_BigInt belowBins, js_BigInt aboveBins) of
        (Some b, Some a) \<Rightarrow>
          if b < 0 \<or> a < 0 then Inl Bin_math_error
          else (let cap = max 1 (min maxSpan MAX_BIN_PER_POSITION); (lo, hi) = shrink_range cap b a
                in Inr \<lparr> br_lower = max MIN_BIN_ID (act - lo), br_upper = min MAX_BIN_ID (act + hi) \<rparr>)
      | _ \<Rightarrow> Inl Bin_math_error))"

definition isActiveInRange :: "BinRange \<Rightarrow> jsnum \<Rightarrow> bool" where
  "isActiveInRange r b \<longleftrightarrow> js_ge b (num (br_lower r)) \<and> js_le b (num (br_upper r))"

definition binDrift :: "BinRange \<Rightarrow> jsnum \<Rightarrow> jsnum" where
  "binDrift r b = (if js_gt b (num (br_upper r)) then fl_sub b (num (br_upper r))
     else if js_lt b (num (br_lower r)) then fl_sub b (num (br_lower r)) else JNum 0)"

definition activePositionInRange :: "BinRange \<Rightarrow> jsnum \<Rightarrow> jsnum option" where
  "activePositionInRange r b = (if \<not> isActiveInRange r b then None
     else if binSpan r \<le> 1 then Some (JNum (1 / 2))
     else Some (fl_div (fl_sub b (num (br_lower r))) (num (binSpan r - 1))))"

definition binArrayIndicesFor :: "BinRange \<Rightarrow> int list" where
  "binArrayIndicesFor r = [br_lower r div MAX_BIN_PER_ARRAY .. br_upper r div MAX_BIN_PER_ARRAY]"

section \<open>Shapes and apportionment\<close>

datatype LiquidityShape = Shape_spot | Shape_curve | Shape_bid_ask

definition shape_centre :: "BinRange \<Rightarrow> int \<Rightarrow> int" where
  "shape_centre r b = min (max b (br_lower r)) (br_upper r)"

definition shapeWeights :: "MathFns \<Rightarrow> LiquidityShape \<Rightarrow> BinRange \<Rightarrow> int \<Rightarrow> BinError + jsnum list" where
  "shapeWeights F shape r b =
     (let span = binSpan r; centre = shape_centre r b; idx = map int [0..<nat span];
          sigma = fl_div (num span) (JNum 4); sigma = (if js_lt sigma (JNum (1 / 2)) then JNum (1 / 2) else sigma);
          reach = max (max (centre - br_lower r) (br_upper r - centre)) 1
      in if span \<le> 0 then Inl Bin_math_error
         else Inr (case shape of
             Shape_spot \<Rightarrow> replicate (nat span) (JNum 1)
           | Shape_curve \<Rightarrow> map (\<lambda>i. let z = fl_div (num (br_lower r + i - centre)) sigma
                in fl_add (mf_exp F (fl_mul (fl_mul (JNum (- 1 / 2)) z) z)) (dbl (1 / 1000000000))) idx
           | Shape_bid_ask \<Rightarrow> map (\<lambda>i. fl_add (fl_div (num \<bar>br_lower r + i - centre\<bar>) (num reach)) (dbl (1 / 20))) idx))"

definition scale_weight :: "jsnum \<Rightarrow> jsnum \<Rightarrow> BinError + int" where
  "scale_weight floatSum w =
     (if \<not> js_isFinite w \<or> js_lt w (JNum 0) then Inl Bin_math_error
      else case js_BigInt (js_round (fl_mul (fl_div w floatSum) (JNum 1000000000))) of
          None \<Rightarrow> Inl Bin_range_error | Some s \<Rightarrow> Inr s)"

text \<open>The loop that hands the shortfall out, one unit to each index in the order of the remainders.\<close>

fun hand_out :: "int \<Rightarrow> int \<Rightarrow> nat list \<Rightarrow> int list \<Rightarrow> int list" where
  "hand_out assigned target [] out = out"
| "hand_out assigned target (i # ks) out =
     (if assigned < target then hand_out (assigned + 1) target ks (out[i := out ! i + 1]) else out)"

text \<open>By remainder, largest first; the sort is stable, so ties keep the order of their index.\<close>

definition remainder_order :: "int list \<Rightarrow> nat list" where
  "remainder_order rems = map snd (sort_key (\<lambda>p. - fst p) (zip rems [0..<length rems]))"

definition apportion :: "int \<Rightarrow> int list \<Rightarrow> int list" where
  "apportion target scaled =
     (let W = sum_list scaled; shares = map (\<lambda>s. big_div (target * s) W) scaled; rems = map (\<lambda>s. (target * s) smod W) scaled
      in hand_out (sum_list shares) target (remainder_order rems) shares)"

definition distributeAmount :: "int \<Rightarrow> jsnum list \<Rightarrow> BinError + int list" where
  "distributeAmount target weights =
     (if weights = [] then Inl Bin_math_error
      else if target < 0 then Inl Bin_math_error
      else let floatSum = foldl fl_add (JNum 0) weights
           in if \<not> js_isFinite floatSum \<or> js_le floatSum (JNum 0) then Inl Bin_math_error
              else if target = 0 then Inr (map (\<lambda>_. 0) weights)
              else bindR (mapR (scale_weight floatSum) weights) (\<lambda>scaled.
                if sum_list scaled \<le> 0 then Inl Bin_math_error else Inr (apportion target scaled)))"

record BinAllocation =
  ba_binId :: int
  ba_uiPrice :: jsnum
  ba_amount :: int

datatype DepositSide = Deposit_base | Deposit_quote

fun price_bins :: "MathFns \<Rightarrow> jsnum \<Rightarrow> int \<Rightarrow> int \<Rightarrow> int list \<Rightarrow> int list \<Rightarrow> BinError + BinAllocation list" where
  "price_bins F s bd qd (b # bs) (a # as) =
     bindR (uiPriceOfBin F (num b) s bd qd) (\<lambda>p. bindR (price_bins F s bd qd bs as) (\<lambda>rest.
       Inr (\<lparr> ba_binId = b, ba_uiPrice = p, ba_amount = a \<rparr> # rest)))"
| "price_bins F s bd qd _ _ = Inr []"

definition deposit_bins :: "BinRange \<Rightarrow> int \<Rightarrow> DepositSide \<Rightarrow> int list" where
  "deposit_bins r act side =
     filter (\<lambda>b. case side of Deposit_quote \<Rightarrow> b \<le> act | Deposit_base \<Rightarrow> act \<le> b) [br_lower r .. br_upper r]"

definition planDeposit ::
  "MathFns \<Rightarrow> BinRange \<Rightarrow> int \<Rightarrow> jsnum \<Rightarrow> LiquidityShape \<Rightarrow> int \<Rightarrow> DepositSide \<Rightarrow> int \<Rightarrow> int \<Rightarrow> BinError + BinAllocation list" where
  "planDeposit F r act s shape amount side baseDecimals quoteDecimals =
     (let bins = deposit_bins r act side
      in if bins = [] then Inr []
         else bindR (shapeWeights F shape \<lparr> br_lower = hd bins, br_upper = last bins \<rparr> act) (\<lambda>ws.
              bindR (distributeAmount amount ws) (\<lambda>amounts.
              price_bins F s baseDecimals quoteDecimals bins amounts)))"

definition divergenceLossPct :: "MathFns \<Rightarrow> jsnum \<Rightarrow> BinError + jsnum" where
  "divergenceLossPct F r =
     (if \<not> js_isFinite r \<or> js_le r (JNum 0) then Inl Bin_math_error
      else Inr (fl_mul (fl_sub (fl_div (fl_mul (JNum 2) (mf_sqrt F r)) (fl_add (JNum 1) r)) (JNum 1)) (JNum 100)))"

section \<open>Lemmas\<close>

lemma shrink_range_span:
  assumes "0 \<le> lo" "0 \<le> hi" "1 \<le> cap" "shrink_range cap lo hi = (lo', hi')"
  shows "0 \<le> lo' \<and> lo' \<le> lo \<and> 0 \<le> hi' \<and> hi' \<le> hi \<and> lo' + hi' + 1 \<le> cap \<and> (lo + hi + 1 \<le> cap \<longrightarrow> lo' = lo \<and> hi' = hi) \<and>
    (cap \<le> lo + hi + 1 \<longrightarrow> lo' + hi' + 1 = cap)"
  using assms
proof (induction cap lo hi rule: shrink_range.induct)
  case (1 cap lo hi)
  show ?case
  proof (cases "lo + hi + 1 > cap")
    case True
    then show ?thesis
      using 1 by (subst (asm) (3) shrink_range.simps) (cases "lo \<ge> hi"; fastforce)
  next
    case False
    then show ?thesis using 1(6) "1.prems" by (subst (asm) shrink_range.simps) auto
  qed
qed

lemma hand_out_length [simp]: "length (hand_out a t ks out) = length out"
  by (induction a t ks out rule: hand_out.induct) auto

lemma hand_out_sum:
  "list_all (\<lambda>i. i < length out) ks \<Longrightarrow> sum_list out = a \<Longrightarrow> t - a \<le> int (length ks) \<Longrightarrow> a \<le> t \<Longrightarrow>
   sum_list (hand_out a t ks out) = t"
proof (induction a t ks out rule: hand_out.induct)
  case (2 a t i ks out)
  show ?case
  proof (cases "a < t")
    case True
    have "sum_list (out[i := out ! i + 1]) = a + 1"
      using 2 by (simp add: sum_list_update_int)
    then show ?thesis using 2 True by simp
  qed (use 2 in simp)
qed simp

lemma hand_out_nth:
  "distinct ks \<Longrightarrow> list_all (\<lambda>i. i < length out) ks \<Longrightarrow> j < length out \<Longrightarrow>
   hand_out a t ks out ! j = out ! j \<or> (j \<in> set ks \<and> hand_out a t ks out ! j = out ! j + 1)"
proof (induction a t ks out rule: hand_out.induct)
  case (2 a t i ks out)
  show ?case
  proof (cases "a < t")
    case True
    have "hand_out (a + 1) t ks (out[i := out ! i + 1]) ! j = out[i := out ! i + 1] ! j \<or>
       (j \<in> set ks \<and> hand_out (a + 1) t ks (out[i := out ! i + 1]) ! j = out[i := out ! i + 1] ! j + 1)"
      using 2 True by simp
    then show ?thesis using True 2(2) 2(3) by (cases "i = j") auto
  qed simp
qed simp

lemma remainder_order_set: "set (remainder_order rems) = {..<length rems}" "distinct (remainder_order rems)"
  "length (remainder_order rems) = length rems"
proof -
  have "mset (remainder_order rems) = mset (map snd (zip rems [0..<length rems]))"
    by (simp only: remainder_order_def mset_map mset_sort)
  also have "map snd (zip rems [0..<length rems]) = [0..<length rems]" by simp
  finally have m: "mset (remainder_order rems) = mset [0..<length rems]" .
  show "set (remainder_order rems) = {..<length rems}"
    using mset_eq_setD [OF m] by (simp add: atLeast0LessThan)
  show "distinct (remainder_order rems)" using mset_eq_imp_distinct_iff [OF m] by simp
  show "length (remainder_order rems) = length rems" by (simp add: remainder_order_def)
qed

lemma sum_list_div_bounds:
  fixes W :: int
  assumes "0 < W"
  shows "sum_list (map (\<lambda>s. f s div W) xs) * W \<le> sum_list (map f xs)"
    and "sum_list (map f xs) \<le> sum_list (map (\<lambda>s. f s div W) xs) * W + int (length xs) * (W - 1)"
proof (induction xs)
  case (Cons x xs)
  { case 1
    have "0 \<le> f x mod W" using assms by simp
    then have "f x div W * W \<le> f x" using div_mult_mod_eq [of "f x" W] by linarith
    then show ?case using Cons(1) by (simp add: algebra_simps)
  next
    case 2
    have "f x mod W \<le> W - 1" using assms by (simp add: zle_diff1_eq)
    then have "f x \<le> f x div W * W + (W - 1)" using div_mult_mod_eq [of "f x" W] by linarith
    then show ?case using Cons(2) by (simp add: algebra_simps) }
qed simp_all

text \<open>The apportionment: the exact total, and every share within one unit of its proportional part.\<close>

lemma apportion_exact:
  assumes t: "0 \<le> t" and s: "list_all (\<lambda>x. 0 \<le> x) ss" "0 < sum_list ss"
  shows "sum_list (apportion t ss) = t" and "length (apportion t ss) = length ss"
    and "j < length ss \<Longrightarrow> t * ss ! j div sum_list ss \<le> apportion t ss ! j \<and> apportion t ss ! j \<le> t * ss ! j div sum_list ss + 1"
proof -
  let ?W = "sum_list ss"
  define shares where "shares = map (\<lambda>x. t * x div ?W) ss"
  define rems where "rems = map (\<lambda>x. (t * x) smod ?W) ss"
  have "map (\<lambda>x. big_div (t * x) ?W) ss = shares"
    using s t unfolding shares_def by (intro map_cong) (auto simp: list_all_iff)
  then have ap: "apportion t ss = hand_out (sum_list shares) t (remainder_order rems) shares"
    by (simp add: apportion_def Let_def rems_def)
  have order: "list_all (\<lambda>i. i < length shares) (remainder_order rems)" "distinct (remainder_order rems)"
    "length (remainder_order rems) = length shares"
    using remainder_order_set [of rems] by (simp_all add: list_all_iff shares_def rems_def)
  have total: "sum_list (map (\<lambda>x. t * x) ss) = t * ?W" by (simp add: sum_list_const_mult)
  have lo: "sum_list shares * ?W \<le> t * ?W" and hi: "t * ?W \<le> sum_list shares * ?W + int (length ss) * (?W - 1)"
    using sum_list_div_bounds [OF s(2), of "\<lambda>x. t * x" ss] by (simp_all add: shares_def total)
  then have le: "sum_list shares \<le> t" using s(2) by simp
  have "(t - sum_list shares) * ?W \<le> int (length ss) * ?W" using hi by (simp add: algebra_simps)
  then have "t - sum_list shares \<le> int (length ss)" using s(2) by simp
  then show "sum_list (apportion t ss) = t"
    unfolding ap using order le by (intro hand_out_sum) (simp_all add: shares_def)
  show "length (apportion t ss) = length ss" by (simp add: ap shares_def)
  show "t * ss ! j div ?W \<le> apportion t ss ! j \<and> apportion t ss ! j \<le> t * ss ! j div ?W + 1" if "j < length ss"
    using hand_out_nth [OF order(2,1), of j "sum_list shares" t] that by (auto simp: ap shares_def)
qed

lemma js_round_nonneg: "js_BigInt (js_round x) = Some n \<Longrightarrow> \<not> js_lt x (JNum 0) \<Longrightarrow> 0 \<le> n"
  by (cases x) auto

lemma dbl_not_neg: "0 \<le> q \<Longrightarrow> \<not> js_lt (dbl q) (JNum 0)"
  using dbl_mono [of 0 q] by (simp add: dbl_def [of 0])

lemma fl_mul_not_neg: "\<not> js_lt a (JNum 0) \<Longrightarrow> \<not> js_lt b (JNum 0) \<Longrightarrow> \<not> js_lt (fl_mul a b) (JNum 0)"
  by (cases a; cases b) (auto intro!: dbl_not_neg mult_nonneg_nonneg split: if_splits)

lemma fl_div_not_neg: "\<not> js_lt a (JNum 0) \<Longrightarrow> \<not> js_lt b (JNum 0) \<Longrightarrow> \<not> js_lt (fl_div a b) (JNum 0)"
  by (cases a; cases b) (auto intro!: dbl_not_neg divide_nonneg_nonneg split: if_splits)

lemma scale_weight_nonneg:
  assumes "scale_weight fs w = Inr n" "\<not> js_lt fs (JNum 0)"
  shows "0 \<le> n"
proof -
  have "js_BigInt (js_round (fl_mul (fl_div w fs) (JNum 1000000000))) = Some n" "\<not> js_lt w (JNum 0)"
    using assms(1) by (auto simp: scale_weight_def split: if_splits option.splits)
  moreover from this(2) have "\<not> js_lt (fl_mul (fl_div w fs) (JNum 1000000000)) (JNum 0)"
    using assms(2) by (intro fl_mul_not_neg fl_div_not_neg) simp_all
  ultimately show ?thesis by (blast intro: js_round_nonneg)
qed

lemma mapR_all: "mapR f xs = Inr ys \<Longrightarrow> (\<And>x y. f x = Inr y \<Longrightarrow> P y) \<Longrightarrow> list_all P ys \<and> length ys = length xs"
  by (induction xs arbitrary: ys) (auto simp: bindR_Inr)

lemma finite_positive: "js_isFinite x \<Longrightarrow> \<not> js_le x (JNum 0) \<Longrightarrow> \<not> js_lt x (JNum 0)"
  by (cases x) auto

lemma distributeAmount_Inr:
  assumes "distributeAmount t ws = Inr xs"
  shows "0 \<le> t \<and> length xs = length ws \<and> sum_list xs = t \<and> list_all (\<lambda>x. 0 \<le> x) xs"
proof (cases "t = 0")
  case True
  then show ?thesis using assms
    by (auto simp: distributeAmount_def Let_def list_all_iff sum_list_eq_0_iff split: if_splits)
next
  case False
  let ?fs = "foldl fl_add (JNum 0) ws"
  obtain ss where ss: "0 \<le> t" "mapR (scale_weight ?fs) ws = Inr ss" "0 < sum_list ss" "xs = apportion t ss" "\<not> js_lt ?fs (JNum 0)"
    using assms False finite_positive [of ?fs] by (auto simp: distributeAmount_def Let_def bindR_Inr not_le split: if_splits)
  have nonneg: "list_all (\<lambda>x. 0 \<le> x) ss" "length ss = length ws"
    using mapR_all [OF ss(2), of "\<lambda>x. 0 \<le> x"] scale_weight_nonneg ss(5) by blast+
  note ex = apportion_exact [OF ss(1) nonneg(1) ss(3)]
  have "0 \<le> apportion t ss ! j" if "j < length ss" for j
  proof -
    have "0 \<le> t * ss ! j div sum_list ss" using that ss(1,3) nonneg by (simp add: pos_imp_zdiv_nonneg_iff list_all_length)
    then show ?thesis using ex(3) [OF that] by linarith
  qed
  then show ?thesis using ss ex nonneg by (simp add: list_all_length)
qed

section \<open>Properties\<close>

lemma deposit_bins_set: "set (deposit_bins r act side) = {b. br_lower r \<le> b \<and> b \<le> br_upper r \<and>
    (case side of Deposit_quote \<Rightarrow> b \<le> act | Deposit_base \<Rightarrow> act \<le> b)}"
  by (auto simp: deposit_bins_def split: DepositSide.splits)

lemma price_bins_Inr:
  "price_bins F s bd qd bs xs = Inr ps \<Longrightarrow> length bs = length xs \<Longrightarrow> map ba_binId ps = bs \<and> map ba_amount ps = xs"
  by (induction F s bd qd bs xs arbitrary: ps rule: price_bins.induct) (auto simp: bindR_Inr)

lemma filter_upto_quote: "filter (\<lambda>b. b \<le> act) [i..j] = [i..min act j]"
proof (induction i j rule: upto.induct)
  case (1 i j)
  show ?case
  proof (cases "i \<le> j")
    case True
    then show ?thesis using 1 by (cases "i \<le> act") (auto simp: upto.simps [of i j] upto.simps [of i "min act j"])
  qed simp
qed

lemma filter_upto_base: "filter (\<lambda>b. act \<le> b) [i..j] = [max act i..j]"
proof (induction i j rule: upto.induct)
  case (1 i j)
  show ?case
  proof (cases "i \<le> j")
    case True
    then have IH: "filter (\<lambda>b. act \<le> b) [i + 1..j] = [max act (i + 1)..j]" by (rule 1)
    show ?thesis
    proof (cases "act \<le> i")
      case True
      then have "max act (i + 1) = i + 1" "max act i = i" by auto
      then show ?thesis using True \<open>i \<le> j\<close> IH by (simp add: upto.simps [of i j])
    next
      case False
      then have "max act (i + 1) = max act i" by auto
      then show ?thesis using False IH by (simp add: upto.simps [of i j])
    qed
  qed simp
qed

lemma hd_upto: "i \<le> j \<Longrightarrow> hd [i..j] = i" and last_upto: "i \<le> j \<Longrightarrow> last [i..j] = j"
  by (simp_all add: upto.simps [of i j]) (metis last_snoc last_ConsL upto_rec2 upto.simps)

lemma deposit_bins_range:
  "deposit_bins r act side =
     (case side of Deposit_quote \<Rightarrow> [br_lower r..min act (br_upper r)] | Deposit_base \<Rightarrow> [max act (br_lower r)..br_upper r])"
  by (cases side) (simp_all add: deposit_bins_def filter_upto_quote filter_upto_base)

lemma shapeWeights_length: "shapeWeights F shape r act = Inr ws \<Longrightarrow> int (length ws) = binSpan r"
  by (auto simp: shapeWeights_def Let_def split: if_splits LiquidityShape.splits)

text \<open>
  A planned deposit loses and invents nothing: when it returns, it allocates non-negative amounts to exactly
  the bins of the range on its side of the active bin, quote at or below it and base at or above it, and the
  amounts add up to the deposit; with no such bin it allocates nothing.
\<close>

theorem plan_exact:
  "case planDeposit F r act s shape amount side bd qd of
     Inl _ \<Rightarrow> True
   | Inr ps \<Rightarrow>
       map ba_binId ps = (case side of Deposit_quote \<Rightarrow> [br_lower r..min act (br_upper r)]
         | Deposit_base \<Rightarrow> [max act (br_lower r)..br_upper r]) \<and>
       list_all (\<lambda>p. 0 \<le> ba_amount p) ps \<and> (ps = [] \<or> sum_list (map ba_amount ps) = amount)"
proof (cases "deposit_bins r act side = []")
  case True
  then show ?thesis using deposit_bins_range [of r act side] by (simp add: planDeposit_def)
next
  case False
  let ?bins = "deposit_bins r act side"
  have "\<exists>i j. ?bins = [i..j]" by (cases side) (simp add: deposit_bins_range; blast)+
  then obtain i j where ij: "?bins = [i..j]" by blast
  moreover from this have "i \<le> j" using False by (cases "i \<le> j") simp_all
  ultimately have ij: "?bins = [i..j]" "i \<le> j" by simp_all
  have "map ba_binId ps = ?bins \<and> list_all (\<lambda>p. 0 \<le> ba_amount p) ps \<and> sum_list (map ba_amount ps) = amount"
    if ps: "planDeposit F r act s shape amount side bd qd = Inr ps" for ps
  proof -
    obtain ws xs where ws: "shapeWeights F shape \<lparr> br_lower = i, br_upper = j \<rparr> act = Inr ws"
      and xs: "distributeAmount amount ws = Inr xs" and p: "price_bins F s bd qd ?bins xs = Inr ps"
      using ps False ij by (auto simp: planDeposit_def Let_def bindR_Inr hd_upto last_upto)
    have "length ?bins = length xs"
      using shapeWeights_length [OF ws] distributeAmount_Inr [OF xs] ij by (simp add: binSpan_def)
    then have "map ba_binId ps = ?bins" "map ba_amount ps = xs" using price_bins_Inr [OF p] by simp_all
    then show ?thesis using distributeAmount_Inr [OF xs] by (auto simp: list_all_iff)
  qed
  then show ?thesis using deposit_bins_range [of r act side] by (auto split: sum.splits)
qed

text \<open>
  A range built around the active bin contains it, never spans more bins than the cap or than asked for, and
  shrinks only as far as one position needs: unless the ends of the bin scale cut it, it spans exactly the
  smaller of what was asked for and the cap.
\<close>

theorem range_around_active_fits:
  "case (rangeAroundActive act b a m, js_BigInt act, js_BigInt b, js_BigInt a) of
     (Inr r, Some n, Some below', Some above') \<Rightarrow>
       br_lower r \<le> n \<and> n \<le> br_upper r \<and> MIN_BIN_ID \<le> br_lower r \<and> br_upper r \<le> MAX_BIN_ID \<and>
       binSpan r \<le> min (below' + above' + 1) (max 1 (min m MAX_BIN_PER_POSITION)) \<and>
       (if MIN_BIN_ID < br_lower r \<and> br_upper r < MAX_BIN_ID
        then binSpan r = min (below' + above' + 1) (max 1 (min m MAX_BIN_PER_POSITION)) else True)
   | (Inr _, _) \<Rightarrow> False
   | _ \<Rightarrow> True"
proof (cases "rangeAroundActive act b a m")
  case (Inr r)
  let ?cap = "max 1 (min m MAX_BIN_PER_POSITION)"
  obtain n b' a' where n: "js_BigInt act = Some n" "MIN_BIN_ID \<le> n" "n \<le> MAX_BIN_ID"
    and ba: "js_BigInt b = Some b'" "js_BigInt a = Some a'" "0 \<le> b'" "0 \<le> a'"
    using Inr by (auto simp: rangeAroundActive_def assertBinId_def split: option.splits if_splits)
  obtain lo hi where s: "shrink_range ?cap b' a' = (lo, hi)" by (cases "shrink_range ?cap b' a'")
  then have r: "r = \<lparr> br_lower = max MIN_BIN_ID (n - lo), br_upper = min MAX_BIN_ID (n + hi) \<rparr>"
    using Inr n ba by (simp add: rangeAroundActive_def assertBinId_def Let_def)
  show ?thesis
    using shrink_range_span [OF ba(3,4) _ s] Inr n ba r by (auto simp: binSpan_def)
qed simp

end
