(* ===== verification/PoolGuards.thy ===== *)
theory PoolGuards
  imports PolicyEngine Bins
begin

text \<open>
  \<open>src/src/pools/guards.ts\<close>, \<open>errors.ts\<close>, \<open>types.ts\<close> and \<open>intent.ts\<close>: the guards of liquidity positions and
  of bonding-curve trades, and the assembly of their intents. A refusal is its code, texts and details are not
  modelled. \<open>guardBaseLeg\<close> converts a percentage to \<open>bigint\<close>, which throws a \<open>RangeError\<close> (\<open>Inl ()\<close>)
  unless it is finite.
\<close>

section \<open>Codes and data\<close>

datatype PoolGuardCode =
    POOL_SPEND_CAP | POOL_POSITION_CAP | POOL_MAX_POSITIONS | POOL_BASE_LEG_CAP | POOL_MINT_AUTHORITY
  | POOL_FREEZE_AUTHORITY | POOL_TOKEN2022 | POOL_RUG_HEAT | POOL_LIQUIDITY_FLOOR | POOL_SLIPPAGE
  | POOL_RANGE_INVALID | POOL_MIGRATED | POOL_NOT_MIGRATED | POOL_UNSUPPORTED_CURVE | POOL_EXTRA_SIGNER
  | POOL_MULTI_TX | REBALANCE_TOO_SOON | REBALANCE_DAILY_CAP | REBALANCE_NOT_DRIFTED | REBALANCE_UNECONOMIC
  | POOL_SDK_MISSING | POOL_VENUE_ERROR

type_synonym refusal = "PoolGuardCode option"

record PoolSummary =
  ps_address :: string
  ps_baseMint :: string
  ps_baseDecimals :: int
  ps_quoteMint :: string
  ps_quoteDecimals :: int
  ps_levelStepBps :: jsnum
  ps_activeLevel :: jsnum
  ps_activePrice :: jsnum
  ps_baseFeeBps :: jsnum
  ps_liquidityQuote :: "int option"
  ps_feeApr24hPct :: "jsnum option"

record LpPosition =
  lp_poolAddress :: string
  lp_positionAddress :: string
  lp_owner :: string
  lp_baseDecimals :: int
  lp_quoteDecimals :: int
  lp_lowerLevel :: jsnum
  lp_upperLevel :: jsnum
  lp_baseAmount :: int
  lp_quoteAmount :: int
  lp_unclaimedFeeQuote :: int

record QuoteLimits =
  maxSpendPerAction :: int
  maxLpPositionQuote :: int
  minPoolLiquidityQuote :: int

record PoolGuardConfig =
  pg_sol :: QuoteLimits
  pg_usdc :: QuoteLimits
  maxConcurrentPositions :: jsnum
  maxBaseLegPctOfHoldings :: jsnum
  maxRugHeat :: jsnum
  maxCurveSlippageBps :: jsnum
  minCurveRealSolLamports :: int
  authorityAllowlist :: "string list"
  pg_allowToken2022 :: bool
  maxLevelSpan :: jsnum

definition MAX_LEVELS_PER_POSITION :: int where "MAX_LEVELS_PER_POSITION = 70"

definition defaultPoolGuardConfig :: PoolGuardConfig where
  "defaultPoolGuardConfig =
     (let sol = (\<lambda>q. the (toBaseUnits (Amt_number (JNum q)) SOL_DECIMALS));
          usdc = (\<lambda>q. the (toBaseUnits (Amt_number (JNum q)) USDC_DECIMALS))
      in \<lparr> pg_sol = \<lparr> maxSpendPerAction = sol (1 / 2), maxLpPositionQuote = sol 2, minPoolLiquidityQuote = sol 50 \<rparr>,
           pg_usdc = \<lparr> maxSpendPerAction = usdc 100, maxLpPositionQuote = usdc 400, minPoolLiquidityQuote = usdc 10000 \<rparr>,
           maxConcurrentPositions = JNum 5, maxBaseLegPctOfHoldings = JNum 25, maxRugHeat = JNum 60,
           maxCurveSlippageBps = JNum 300, minCurveRealSolLamports = sol 2, authorityAllowlist = [],
           pg_allowToken2022 = False, maxLevelSpan = num MAX_LEVELS_PER_POSITION \<rparr>)"

definition limitsFor :: "PoolGuardConfig \<Rightarrow> string \<Rightarrow> QuoteLimits option" where
  "limitsFor cfg mint = (case quoteBucketFor mint of None \<Rightarrow> None | Some Bucket_sol \<Rightarrow> Some (pg_sol cfg) | Some Bucket_usdc \<Rightarrow> Some (pg_usdc cfg))"

section \<open>Guards\<close>

definition guardSpend :: "PoolGuardConfig \<Rightarrow> TokenAmount \<Rightarrow> refusal" where
  "guardSpend cfg a =
     (if ta_amount a \<le> 0 then Some POOL_SPEND_CAP
      else case limitsFor cfg (ta_mint a) of
          None \<Rightarrow> None
        | Some l \<Rightarrow> if ta_amount a > maxSpendPerAction l then Some POOL_SPEND_CAP else None)"

text \<open>An authority is live when its text is present and not empty.\<close>

definition truthy :: "string option \<Rightarrow> bool" where
  "truthy x \<longleftrightarrow> (case x of None \<Rightarrow> False | Some a \<Rightarrow> a \<noteq> [])"

fun authority_loop :: "PoolGuardConfig \<Rightarrow> MintInfo option list \<Rightarrow> refusal" where
  "authority_loop cfg [] = None"
| "authority_loop cfg (None # ms) = Some POOL_MINT_AUTHORITY"
| "authority_loop cfg (Some m # ms) =
     (if \<not> pg_allowToken2022 cfg \<and> mi_isToken2022 m then Some POOL_TOKEN2022
      else if mi_mint m \<in> set (authorityAllowlist cfg) then authority_loop cfg ms
      else if truthy (mi_mintAuthority m) then Some POOL_MINT_AUTHORITY
      else if truthy (mi_freezeAuthority m) then Some POOL_FREEZE_AUTHORITY
      else authority_loop cfg ms)"

definition guardTokenAuthorities :: "PoolGuardConfig \<Rightarrow> MintInfo option list \<Rightarrow> refusal" where
  "guardTokenAuthorities cfg ms = (if ms = [] then Some POOL_MINT_AUTHORITY else authority_loop cfg ms)"

text \<open>A reading of the rug heat is its score.\<close>

definition guardRugHeat :: "PoolGuardConfig \<Rightarrow> jsnum option \<Rightarrow> refusal" where
  "guardRugHeat cfg heat = (case heat of None \<Rightarrow> Some POOL_RUG_HEAT
     | Some s \<Rightarrow> if \<not> js_isFinite s then Some POOL_RUG_HEAT else if js_ge s (maxRugHeat cfg) then Some POOL_RUG_HEAT else None)"

definition guardPoolLiquidity :: "PoolGuardConfig \<Rightarrow> PoolSummary \<Rightarrow> refusal" where
  "guardPoolLiquidity cfg p = (case limitsFor cfg (ps_quoteMint p) of None \<Rightarrow> Some POOL_LIQUIDITY_FLOOR
     | Some l \<Rightarrow> (case ps_liquidityQuote p of None \<Rightarrow> Some POOL_LIQUIDITY_FLOOR
         | Some tvl \<Rightarrow> if tvl < minPoolLiquidityQuote l then Some POOL_LIQUIDITY_FLOOR else None))"

record LpOpenSubject =
  so_pool :: PoolSummary
  so_addQuote :: int
  so_existingPositionQuote :: int
  so_openPositions :: "LpPosition list"
  so_isNewPosition :: bool
  so_input :: TokenAmount
  so_baseAmount :: int
  so_baseHoldings :: "int option"
  so_mints :: "MintInfo option list"
  so_rugHeat :: "jsnum option"
  so_lowerLevel :: jsnum
  so_upperLevel :: jsnum

definition guardLpSizing :: "PoolGuardConfig \<Rightarrow> LpOpenSubject \<Rightarrow> refusal" where
  "guardLpSizing cfg s =
     (case limitsFor cfg (ps_quoteMint (so_pool s)) of None \<Rightarrow> Some POOL_POSITION_CAP
      | Some l \<Rightarrow>
          if so_addQuote s < 0 \<or> so_existingPositionQuote s < 0 then Some POOL_POSITION_CAP
          else if so_existingPositionQuote s + so_addQuote s > maxLpPositionQuote l then Some POOL_POSITION_CAP
          else if so_isNewPosition s \<and> js_ge (num (int (length (so_openPositions s)))) (maxConcurrentPositions cfg)
          then Some POOL_MAX_POSITIONS else None)"

definition guardBaseLeg :: "PoolGuardConfig \<Rightarrow> int \<Rightarrow> int option \<Rightarrow> unit + refusal" where
  "guardBaseLeg cfg baseAmount baseHoldings =
     (if baseAmount \<le> 0 then Inr None
      else if js_le (maxBaseLegPctOfHoldings cfg) (JNum 0) then Inr (Some POOL_BASE_LEG_CAP)
      else case baseHoldings of
          None \<Rightarrow> Inr (Some POOL_BASE_LEG_CAP)
        | Some h \<Rightarrow>
            if h \<le> 0 then Inr (Some POOL_BASE_LEG_CAP)
            else (case js_BigInt (js_floor (maxBaseLegPctOfHoldings cfg)) of
                None \<Rightarrow> Inl ()
              | Some pct \<Rightarrow> Inr (if baseAmount > big_div (h * pct) 100 then Some POOL_BASE_LEG_CAP else None)))"

definition guardLevelRange :: "PoolGuardConfig \<Rightarrow> jsnum \<Rightarrow> jsnum \<Rightarrow> jsnum \<Rightarrow> refusal" where
  "guardLevelRange cfg lower upper act =
     (if \<not> js_isInteger lower \<or> \<not> js_isInteger upper \<or> \<not> js_isInteger act then Some POOL_RANGE_INVALID
      else if js_lt upper lower then Some POOL_RANGE_INVALID
      else let span = fl_add (fl_sub upper lower) (JNum 1);
               cap = (if maxLevelSpan cfg = JNaN then JNaN
                      else if js_lt (maxLevelSpan cfg) (num MAX_LEVELS_PER_POSITION) then maxLevelSpan cfg
                      else num MAX_LEVELS_PER_POSITION)
           in if js_gt span cap then Some POOL_RANGE_INVALID else None)"

definition guardCurveSlippage :: "PoolGuardConfig \<Rightarrow> jsnum \<Rightarrow> refusal" where
  "guardCurveSlippage cfg s =
     (if \<not> js_isFinite s \<or> js_lt s (JNum 0) then Some POOL_SLIPPAGE
      else if js_gt s (maxCurveSlippageBps cfg) then Some POOL_SLIPPAGE else None)"

definition guardCurveLiquidity :: "PoolGuardConfig \<Rightarrow> int option \<Rightarrow> bool \<Rightarrow> refusal" where
  "guardCurveLiquidity cfg realSol migrated =
     (if migrated then Some POOL_MIGRATED
      else case realSol of None \<Rightarrow> Some POOL_LIQUIDITY_FLOOR
        | Some r \<Rightarrow> if r < minCurveRealSolLamports cfg then Some POOL_LIQUIDITY_FLOOR else None)"

section \<open>Composites\<close>

fun first_refusal :: "refusal list \<Rightarrow> refusal" where
  "first_refusal [] = None"
| "first_refusal (c # cs) = (case c of None \<Rightarrow> first_refusal cs | Some x \<Rightarrow> Some x)"

text \<open>Every check is evaluated before \<open>first\<close> picks, so the \<open>RangeError\<close> comes before any refusal.\<close>

definition guardLpOpen :: "PoolGuardConfig \<Rightarrow> LpOpenSubject \<Rightarrow> unit + refusal" where
  "guardLpOpen cfg s =
     map_sum id (\<lambda>base. first_refusal
       [guardTokenAuthorities cfg (so_mints s), guardRugHeat cfg (so_rugHeat s), guardPoolLiquidity cfg (so_pool s),
        guardSpend cfg (so_input s), guardLpSizing cfg s, base,
        guardLevelRange cfg (so_lowerLevel s) (so_upperLevel s) (ps_activeLevel (so_pool s))])
       (guardBaseLeg cfg (so_baseAmount s) (so_baseHoldings s))"

record CurveTradeSubject =
  ct_input :: TokenAmount
  ct_slippageBps :: jsnum
  ct_realSolReserves :: "int option"
  ct_complete :: bool
  ct_mints :: "MintInfo option list"
  ct_rugHeat :: "jsnum option"

definition guardCurveBuy :: "PoolGuardConfig \<Rightarrow> CurveTradeSubject \<Rightarrow> refusal" where
  "guardCurveBuy cfg s = first_refusal
     [guardTokenAuthorities cfg (ct_mints s), guardRugHeat cfg (ct_rugHeat s),
      guardCurveLiquidity cfg (ct_realSolReserves s) (ct_complete s), guardCurveSlippage cfg (ct_slippageBps s),
      guardSpend cfg (ct_input s)]"

definition guardCurveSell :: "PoolGuardConfig \<Rightarrow> TokenAmount \<Rightarrow> jsnum \<Rightarrow> bool \<Rightarrow> refusal" where
  "guardCurveSell cfg a slippage migrated =
     (if migrated then Some POOL_MIGRATED else first_refusal [guardCurveSlippage cfg slippage, guardSpend cfg a])"

section \<open>Intents\<close>

definition BASE_FEE_LAMPORTS :: int where "BASE_FEE_LAMPORTS = 5000"

definition withdrawInputLeg :: "jsnum \<Rightarrow> int \<Rightarrow> int \<Rightarrow> unit + TokenAmount" where
  "withdrawInputLeg priorityFee signatures rent =
     (let fee = js_floor priorityFee
      in case js_BigInt (if fee = JNaN then JNaN else if js_lt fee (JNum 0) then JNum 0 else fee) of
          None \<Rightarrow> Inl ()
        | Some f \<Rightarrow>
            (let amount = f + BASE_FEE_LAMPORTS * max 1 signatures + rent
             in Inr \<lparr> ta_mint = WSOL_MINT, ta_amount = (if amount > 0 then amount else 1), ta_decimals = SOL_DECIMALS \<rparr>))"

record IntentDraft =
  dr_kind :: string
  dr_source :: string
  dr_input :: TokenAmount
  dr_output :: OutputLeg
  dr_inputProvenance :: "MintProvenance option"
  dr_outputProvenance :: "MintProvenance option"
  dr_unsignedTxBase64 :: string
  dr_recentBlockhash :: string
  dr_lastValidBlockHeight :: int
  dr_priorityFeeLamports :: jsnum
  dr_summary :: string
  dr_expectedOut :: int
  dr_minOut :: int
  dr_slippageBps :: jsnum
  dr_routeLabel :: string
  dr_priceImpactPct :: "jsnum option"

definition toTradeIntent :: "IntentDraft \<Rightarrow> PoolGuardCode + TradeIntent" where
  "toTradeIntent d =
     throwIf (ta_amount (dr_input d) \<le> 0) POOL_SPEND_CAP
    (throwIf (dr_minOut d > dr_expectedOut d) POOL_SLIPPAGE
    (throwIf (dr_unsignedTxBase64 d = []) POOL_VENUE_ERROR
    (throwIf (\<not> js_isFinite (dr_priorityFeeLamports d) \<or> js_lt (dr_priorityFeeLamports d) (JNum 0)) POOL_VENUE_ERROR
    (Inr \<lparr> ti_kind = dr_kind d, ti_source = dr_source d, ti_input = dr_input d, ti_output = dr_output d,
       ti_inputProvenance = override_or (dr_inputProvenance d) Prov_user,
       ti_outputProvenance = override_or (dr_outputProvenance d) Prov_untrusted,
       ti_unsignedTxBase64 = dr_unsignedTxBase64 d, ti_recentBlockhash = dr_recentBlockhash d,
       ti_lastValidBlockHeight = dr_lastValidBlockHeight d, ti_landMode = Self_rpc, ti_landHandle = None,
       ti_priorityFeeLamports = js_floor (dr_priorityFeeLamports d),
       ti_quote = \<lparr> q_inAmount = ta_amount (dr_input d), q_outAmount = dr_expectedOut d, q_minOutAmount = dr_minOut d,
         q_priceImpactPct = override_or (dr_priceImpactPct d) (JNum 0), q_routeLabel = dr_routeLabel d,
         q_slippageBps = js_round (dr_slippageBps d), q_contextSlot = None \<rparr>,
       ti_perp = None, ti_summary = dr_summary d \<rparr>))))"

definition assertWalletSignableAlone :: "string list \<Rightarrow> PoolGuardCode + unit" where
  "assertWalletSignableAlone extraSigners = throwIf (length extraSigners > 0) POOL_EXTRA_SIGNER (Inr ())"

end
