(* ===== verification/PoolSafety.thy ===== *)
theory PoolSafety
  imports PoolGuards
begin

text \<open>
  What the pool guards guarantee, and how their intents meet the kernel: an accepted opening is inside every
  cap, an exit from a curve needs neither clean signals nor clean mints, and a withdrawal's declared input leg
  is too small for the kernel's relative ceiling on its own priority fee.
\<close>

section \<open>Guards\<close>

lemma first_refusal_None [simp]: "first_refusal cs = None \<longleftrightarrow> list_all (\<lambda>c. c = None) cs"
  by (induction cs) (auto split: option.splits)

lemma authority_loop_None:
  "authority_loop cfg ms = None \<longleftrightarrow> list_all (\<lambda>x. case x of None \<Rightarrow> False
     | Some m \<Rightarrow> (mi_isToken2022 m \<longrightarrow> pg_allowToken2022 cfg) \<and>
         (mi_mint m \<in> set (authorityAllowlist cfg) \<or> \<not> truthy (mi_mintAuthority m) \<and> \<not> truthy (mi_freezeAuthority m))) ms"
  by (induction cfg ms rule: authority_loop.induct) auto

lemma guardSpend_None: "guardSpend cfg a = None \<longleftrightarrow> 0 < ta_amount a \<and>
    (case limitsFor cfg (ta_mint a) of None \<Rightarrow> True | Some l \<Rightarrow> ta_amount a \<le> maxSpendPerAction l)"
  by (auto simp: guardSpend_def not_le split: option.splits if_splits)

lemma guardBaseLeg_None:
  assumes "guardBaseLeg cfg b h = Inr None" "0 < b"
  shows "\<exists>x q. h = Some x \<and> 0 < x \<and> maxBaseLegPctOfHoldings cfg = JNum q \<and> of_int b * 100 \<le> of_int x * q"
proof -
  obtain x pct where x: "h = Some x" "0 < x" "js_BigInt (js_floor (maxBaseLegPctOfHoldings cfg)) = Some pct"
    "b \<le> big_div (x * pct) 100" "\<not> js_le (maxBaseLegPctOfHoldings cfg) (JNum 0)"
    using assms by (auto simp: guardBaseLeg_def not_less split: if_splits option.splits)
  then obtain q where q: "maxBaseLegPctOfHoldings cfg = JNum q" "pct = \<lfloor>q\<rfloor>" by (cases "maxBaseLegPctOfHoldings cfg") auto
  then have pct: "0 \<le> pct" using x(5) by simp
  have "b * 100 \<le> x * pct div 100 * 100" using x(2,4) pct by simp
  also have "\<dots> \<le> x * pct" by (simp add: minus_mod_eq_div_mult [symmetric])
  finally have "(of_int (b * 100) :: rat) \<le> of_int (x * pct)" by (simp only: of_int_le_iff)
  also have "\<dots> \<le> of_int x * q" using x(2) q by simp
  finally show ?thesis using x q by simp
qed

lemma isInteger_num: "js_isInteger x \<longleftrightarrow> (\<exists>n. x = JNum (of_int n))"
  by (cases x) (auto intro: sym)

lemma guardLevelRange_None:
  assumes "guardLevelRange cfg lo hi act = None"
  shows "\<exists>l h. lo = JNum (of_int l) \<and> hi = JNum (of_int h) \<and> l \<le> h \<and> (maxLevelSpan cfg \<noteq> JNaN \<longrightarrow> \<bar>l\<bar> < 2 ^ 52 \<longrightarrow> \<bar>h\<bar> < 2 ^ 52 \<longrightarrow> h - l + 1 \<le> MAX_LEVELS_PER_POSITION)"
proof -
  have "js_isInteger lo" "js_isInteger hi" and le: "\<not> js_lt hi lo"
    using assms by (auto simp: guardLevelRange_def split: if_splits)
  then obtain l h where lh: "lo = JNum (of_int l)" "hi = JNum (of_int h)" by (auto simp: isInteger_num)
  moreover from this have "l \<le> h" using le by simp
  ultimately have lh: "lo = JNum (of_int l)" "hi = JNum (of_int h)" "l \<le> h" by simp_all
  have "h - l + 1 \<le> MAX_LEVELS_PER_POSITION" if "\<bar>l\<bar> < 2 ^ 52" "\<bar>h\<bar> < 2 ^ 52" "maxLevelSpan cfg \<noteq> JNaN"
  proof -
    have "fl_sub hi lo = num (h - l)"
      using dbl_int [of "h - l"] that lh by (simp add: fl_sub_def)
    then have span: "fl_add (fl_sub hi lo) (JNum 1) = num (h - l + 1)"
      using dbl_int [of "h - l + 1"] that lh by simp
    have "\<not> js_gt (num (h - l + 1)) (num 70)"
      using assms that(3) unfolding guardLevelRange_def Let_def span MAX_LEVELS_PER_POSITION_def
      by (cases "maxLevelSpan cfg") (auto split: if_splits simp del: of_int_add of_int_diff)
    then show ?thesis by (simp only: js_lt.simps of_int_less_iff not_less MAX_LEVELS_PER_POSITION_def)
  qed
  then show ?thesis using lh by blast
qed

lemma lp_open_None:
  assumes "guardLpOpen cfg s = Inr None"
  shows "guardBaseLeg cfg (so_baseAmount s) (so_baseHoldings s) = Inr None"
    "guardTokenAuthorities cfg (so_mints s) = None" "guardRugHeat cfg (so_rugHeat s) = None"
    "guardPoolLiquidity cfg (so_pool s) = None" "guardSpend cfg (so_input s) = None" "guardLpSizing cfg s = None"
    "guardLevelRange cfg (so_lowerLevel s) (so_upperLevel s) (ps_activeLevel (so_pool s)) = None"
proof -
  obtain base where b: "guardBaseLeg cfg (so_baseAmount s) (so_baseHoldings s) = Inr base"
    using assms by (cases "guardBaseLeg cfg (so_baseAmount s) (so_baseHoldings s)") (simp_all add: guardLpOpen_def)
  then have "list_all (\<lambda>c. c = None)
       [guardTokenAuthorities cfg (so_mints s), guardRugHeat cfg (so_rugHeat s), guardPoolLiquidity cfg (so_pool s),
        guardSpend cfg (so_input s), guardLpSizing cfg s, base,
        guardLevelRange cfg (so_lowerLevel s) (so_upperLevel s) (ps_activeLevel (so_pool s))]"
    using assms unfolding guardLpOpen_def b map_sum.simps first_refusal_None [symmetric] by simp
  then show "guardBaseLeg cfg (so_baseAmount s) (so_baseHoldings s) = Inr None"
    "guardTokenAuthorities cfg (so_mints s) = None" "guardRugHeat cfg (so_rugHeat s) = None"
    "guardPoolLiquidity cfg (so_pool s) = None" "guardSpend cfg (so_input s) = None" "guardLpSizing cfg s = None"
    "guardLevelRange cfg (so_lowerLevel s) (so_upperLevel s) (ps_activeLevel (so_pool s)) = None"
    using b by simp_all
qed

text \<open>
  C36: an accepted liquidity opening is in a supported quote asset, adds no negative amount and leaves the
  position within that asset's cap, in a pool whose liquidity was read and is at least the asset's floor; its
  input leg is positive and within the spend cap of its mint where one is configured; a new position finds fewer
  than \<open>maxConcurrentPositions\<close> open, unless that is NaN; a positive base leg takes at most the given share of
  the known holdings; the levels are integers in order, at most 70 wide unless \<open>maxLevelSpan\<close> is NaN or a level
  is at or beyond 2^52 in magnitude; every mint was read and is clean or allowlisted; and the rug heat is known,
  finite and below \<open>maxRugHeat\<close>, unless that is NaN.
\<close>

theorem lp_open_bounded:
  "case guardLpOpen cfg s of Inl _ \<Rightarrow> True | Inr (Some _) \<Rightarrow> True
   | Inr None \<Rightarrow>
       (case limitsFor cfg (ps_quoteMint (so_pool s)) of None \<Rightarrow> False
        | Some l \<Rightarrow> so_existingPositionQuote s + so_addQuote s \<le> maxLpPositionQuote l \<and> 0 \<le> so_addQuote s \<and>
            (case ps_liquidityQuote (so_pool s) of None \<Rightarrow> False | Some tvl \<Rightarrow> minPoolLiquidityQuote l \<le> tvl)) \<and>
       0 < ta_amount (so_input s) \<and>
       (case limitsFor cfg (ta_mint (so_input s)) of None \<Rightarrow> True | Some l \<Rightarrow> ta_amount (so_input s) \<le> maxSpendPerAction l) \<and>
       (if so_isNewPosition s then \<not> js_ge (num (int (length (so_openPositions s)))) (maxConcurrentPositions cfg) else True) \<and>
       (so_baseAmount s \<le> 0 \<or> (\<exists>x q. so_baseHoldings s = Some x \<and> maxBaseLegPctOfHoldings cfg = JNum q \<and>
          of_int (so_baseAmount s) * 100 \<le> of_int x * q)) \<and>
       (\<exists>l h. so_lowerLevel s = num l \<and> so_upperLevel s = num h \<and> l \<le> h \<and>
          (maxLevelSpan cfg = JNaN \<or> \<bar>l\<bar> \<ge> 2 ^ 52 \<or> \<bar>h\<bar> \<ge> 2 ^ 52 \<or> h - l + 1 \<le> MAX_LEVELS_PER_POSITION)) \<and>
       so_mints s \<noteq> [] \<and>
       list_all (\<lambda>x. case x of None \<Rightarrow> False
         | Some m \<Rightarrow> if mi_mint m \<in> set (authorityAllowlist cfg) then True else \<not> truthy (mi_mintAuthority m) \<and> \<not> truthy (mi_freezeAuthority m)) (so_mints s) \<and>
       (case so_rugHeat s of None \<Rightarrow> False | Some q \<Rightarrow> js_isFinite q \<and> \<not> js_ge q (maxRugHeat cfg))"
proof (cases "guardLpOpen cfg s = Inr None")
  case True
  then have base: "guardBaseLeg cfg (so_baseAmount s) (so_baseHoldings s) = Inr None"
    and auth: "guardTokenAuthorities cfg (so_mints s) = None" and heat: "guardRugHeat cfg (so_rugHeat s) = None"
    and tvl: "guardPoolLiquidity cfg (so_pool s) = None" and spend: "guardSpend cfg (so_input s) = None"
    and size: "guardLpSizing cfg s = None"
    and range: "guardLevelRange cfg (so_lowerLevel s) (so_upperLevel s) (ps_activeLevel (so_pool s)) = None"
    using lp_open_None [OF True] by simp_all
  have mints: "so_mints s \<noteq> []" "authority_loop cfg (so_mints s) = None"
    using auth by (simp_all add: guardTokenAuthorities_def split: if_splits)
  have clean: "list_all (\<lambda>x. case x of None \<Rightarrow> False
         | Some m \<Rightarrow> if mi_mint m \<in> set (authorityAllowlist cfg) then True else \<not> truthy (mi_mintAuthority m) \<and> \<not> truthy (mi_freezeAuthority m)) (so_mints s)"
    using mints(2) unfolding authority_loop_None by (rule list.pred_mono_strong) (auto split: option.splits)
  have leg: "so_baseAmount s \<le> 0 \<or> (\<exists>x q. so_baseHoldings s = Some x \<and> maxBaseLegPctOfHoldings cfg = JNum q \<and>
          of_int (so_baseAmount s) * 100 \<le> of_int x * q)"
    using guardBaseLeg_None [OF base] by (meson not_le)
  have hot: "case so_rugHeat s of None \<Rightarrow> False | Some q \<Rightarrow> js_isFinite q \<and> \<not> js_ge q (maxRugHeat cfg)"
    using heat by (auto simp: guardRugHeat_def split: option.splits if_splits)
  have levels: "\<exists>l h. so_lowerLevel s = num l \<and> so_upperLevel s = num h \<and> l \<le> h \<and>
          (maxLevelSpan cfg = JNaN \<or> \<bar>l\<bar> \<ge> 2 ^ 52 \<or> \<bar>h\<bar> \<ge> 2 ^ 52 \<or> h - l + 1 \<le> MAX_LEVELS_PER_POSITION)"
    using guardLevelRange_None [OF range] by (meson not_le)
  have sizing: "case limitsFor cfg (ps_quoteMint (so_pool s)) of None \<Rightarrow> False
        | Some l \<Rightarrow> so_existingPositionQuote s + so_addQuote s \<le> maxLpPositionQuote l \<and> 0 \<le> so_addQuote s \<and>
            (case ps_liquidityQuote (so_pool s) of None \<Rightarrow> False | Some tvl \<Rightarrow> minPoolLiquidityQuote l \<le> tvl)"
    "if so_isNewPosition s then \<not> js_ge (num (int (length (so_openPositions s)))) (maxConcurrentPositions cfg) else True"
    using size tvl by (auto simp: guardLpSizing_def guardPoolLiquidity_def split: option.splits if_splits)
  show ?thesis using True spend mints(1) clean leg hot levels sizing by (simp add: guardSpend_None)
qed (auto split: sum.split option.split)

text \<open>
  An exit is never held back by what gates an entry: selling on a curve that has not migrated is accepted
  for every positive token amount whose slippage a buy was accepted with, whatever the rug heat, the reserves and
  the mint's authorities have become since.
\<close>

theorem curve_exit_open:
  "if guardCurveBuy cfg s = None \<and> 0 < ta_amount a \<and> quoteBucketFor (ta_mint a) = None
   then guardCurveSell cfg a (ct_slippageBps s) False = None else True"
  by (auto simp: guardCurveBuy_def guardCurveSell_def guardSpend_None limitsFor_def simp del: first_refusal.simps)

section \<open>Withdrawals and the kernel\<close>

text \<open>
  The intent \<open>pools_close\<close> builds from a venue's draft (\<open>tools/pools.ts\<close>); \<open>pools_rebalance\<close> builds the same
  with its own kind and source. The conversion's \<open>RangeError\<close> is \<open>Inl None\<close>.
\<close>

definition withdraw_intent :: "string \<Rightarrow> string \<Rightarrow> OutputLeg \<Rightarrow> string \<Rightarrow> string \<Rightarrow> int \<Rightarrow> jsnum \<Rightarrow> string \<Rightarrow> string \<Rightarrow> PoolGuardCode option + TradeIntent" where
  "withdraw_intent kind source outputLeg tx blockhash height fee summary route =
     (case withdrawInputLeg fee 1 0 of Inl _ \<Rightarrow> Inl None
      | Inr leg \<Rightarrow> map_sum Some id (toTradeIntent
          \<lparr> dr_kind = kind, dr_source = source, dr_input = leg, dr_output = outputLeg, dr_inputProvenance = None,
            dr_outputProvenance = Some Prov_untrusted, dr_unsignedTxBase64 = tx, dr_recentBlockhash = blockhash,
            dr_lastValidBlockHeight = height, dr_priorityFeeLamports = fee, dr_summary = summary, dr_expectedOut = 0,
            dr_minOut = 0, dr_slippageBps = JNum 0, dr_routeLabel = route, dr_priceImpactPct = None \<rparr>))"

lemma overrides_keep_fee_bps: "applyPolicyOverrides base ov = Some p \<Longrightarrow> priorityFeeMaxBps p = priorityFeeMaxBps base"
  by (auto simp: applyPolicyOverrides_def bind_eq_Some_conv)

lemma map_sum_Inr_E: "map_sum f g x = Inr y \<Longrightarrow> (\<And>z. x = Inr z \<Longrightarrow> y = g z \<Longrightarrow> P) \<Longrightarrow> P"
  by (cases x) auto

lemma withdraw_leg: "0 \<le> q \<Longrightarrow> withdrawInputLeg (JNum q) 1 0 =
    Inr \<lparr> ta_mint = WSOL_MINT, ta_amount = \<lfloor>q\<rfloor> + 5000, ta_decimals = SOL_DECIMALS \<rparr>"
proof -
  assume q: "0 \<le> q"
  then have "0 < \<lfloor>q\<rfloor> + 5000" using zero_le_floor [of q] by linarith
  then show ?thesis using q by (simp add: withdrawInputLeg_def BASE_FEE_LAMPORTS_def Let_def)
qed

lemma toTradeIntent_Inr:
  assumes "toTradeIntent d = Inr t"
  shows "js_isFinite (dr_priorityFeeLamports d) \<and> \<not> js_lt (dr_priorityFeeLamports d) (JNum 0) \<and>
    ti_priorityFeeLamports t = js_floor (dr_priorityFeeLamports d) \<and> ti_input t = dr_input d \<and> ti_kind t = dr_kind d"
  using assms by (auto simp: toTradeIntent_def)

lemma withdraw_intent_Inr:
  assumes "withdraw_intent k s ol tx bh h fee su r = Inr t"
  shows "\<exists>q. fee = JNum q \<and> 0 \<le> q \<and> ti_priorityFeeLamports t = JNum (of_int \<lfloor>q\<rfloor>) \<and>
     ti_input t = \<lparr> ta_mint = WSOL_MINT, ta_amount = \<lfloor>q\<rfloor> + 5000, ta_decimals = SOL_DECIMALS \<rparr> \<and> ti_kind t = k"
proof -
  obtain leg d where leg: "withdrawInputLeg fee 1 0 = Inr leg" and d: "toTradeIntent d = Inr t"
    "dr_priorityFeeLamports d = fee" "dr_input d = leg" "dr_kind d = k"
    using assms by (auto simp: withdraw_intent_def split: sum.splits elim!: map_sum_Inr_E)
  then obtain q where q: "fee = JNum q" "0 \<le> q" using toTradeIntent_Inr [OF d(1)] by (cases fee) auto
  then show ?thesis using toTradeIntent_Inr [OF d(1)] d leg withdraw_leg [of q] by simp
qed

lemma fee_above_bps_refused:
  assumes bps: "priorityFeeMaxBps p = JNum 50" and fee: "ti_priorityFeeLamports t = JNum (of_int f)" "26 \<le> f"
    and leg: "ta_mint (ti_input t) = WSOL_MINT" "ta_amount (ti_input t) = f + 5000"
  shows "fee_guards p t = Inl (GuardErr PRIORITY_FEE_EXCEEDED)"
proof -
  have "big_div ((f + 5000) * 50) 10000 < f" using fee(2) by simp
  then show ?thesis
    using bps fee leg by (simp add: fee_guards_def quoteBucketFor_def SOL_QUOTE_MINTS_def WSOL_MINT_def USDC_QUOTE_MINTS_def)
qed

lemma staticGuards_fee: "staticGuards p t opts = Inr () \<Longrightarrow> fee_guards p t = Inr ()"
  by (auto simp: staticGuards_def and_then_def split: if_splits sum.splits)

text \<open>
  C37: no withdrawal from a pool that pays a priority fee of 26 lamports or more passes the kernel: its declared
  input leg is the transaction's own cost, a fee the kernel bounds by 50 basis points of exactly that leg, and
  no override of the default policy changes that bound.
\<close>

theorem withdrawals_refused:
  "case (applyPolicyOverrides defaultPolicy ov, withdraw_intent kind source outputLeg tx blockhash height fee summary route) of
     (Some p, Inr t) \<Rightarrow> (if js_ge fee (JNum 26)
        then fee_guards p t = Inl (GuardErr PRIORITY_FEE_EXCEEDED) \<and> staticGuards p t opts \<noteq> Inr () else True)
   | _ \<Rightarrow> True"
proof (cases "applyPolicyOverrides defaultPolicy ov"; cases "withdraw_intent kind source outputLeg tx blockhash height fee summary route")
  fix p t
  assume p: "applyPolicyOverrides defaultPolicy ov = Some p"
    and t: "withdraw_intent kind source outputLeg tx blockhash height fee summary route = Inr t"
  have bps: "priorityFeeMaxBps p = JNum 50" using overrides_keep_fee_bps [OF p] by (simp add: defaultPolicy_def Let_def)
  obtain q where q: "fee = JNum q" "ti_priorityFeeLamports t = JNum (of_int \<lfloor>q\<rfloor>)"
    "ti_input t = \<lparr> ta_mint = WSOL_MINT, ta_amount = \<lfloor>q\<rfloor> + 5000, ta_decimals = SOL_DECIMALS \<rparr>"
    using withdraw_intent_Inr [OF t] by blast
  have "fee_guards p t = Inl (GuardErr PRIORITY_FEE_EXCEEDED)" if "js_ge fee (JNum 26)"
    using fee_above_bps_refused [OF bps q(2)] q that by (simp add: le_floor_iff)
  then show ?thesis using p t staticGuards_fee [of p t opts] by auto
qed auto

end
