(* ===== verification/Rebalance.thy ===== *)
theory Rebalance
  imports PoolGuards
begin

text \<open>
  \<open>src/src/pools/rebalance\<close> and the deciding half of \<open>pools_rebalance\<close> (\<open>tools/pools.ts\<close>): the rolling ledger of
  executed rebalances, the decision with its four brakes, and the economics it weighs. Times are epoch
  milliseconds, exact as integers. \<open>decideRebalance\<close> may throw: \<open>Inl\<close> is the error of the bin mathematics.
\<close>

section \<open>Ledger\<close>

record RebalanceHistory =
  rh_lastAt :: "int option"
  rh_countInWindow :: nat

definition EMPTY_HISTORY :: RebalanceHistory where
  "EMPTY_HISTORY = \<lparr> rh_lastAt = None, rh_countInWindow = 0 \<rparr>"

definition DAY_MS :: int where "DAY_MS = 86400000"

record RebalanceLedger =
  rl_windowMs :: int
  rl_byPosition :: "string \<Rightarrow> int list option"

definition new_ledger :: "int \<Rightarrow> RebalanceLedger" where
  "new_ledger windowMs = \<lparr> rl_windowMs = max 1 windowMs, rl_byPosition = (\<lambda>_. None) \<rparr>"

definition prune :: "int \<Rightarrow> int list \<Rightarrow> int \<Rightarrow> int list" where
  "prune windowMs xs now = dropWhile (\<lambda>t. t < now - windowMs) xs"

definition record_rebalance :: "string \<Rightarrow> int \<Rightarrow> RebalanceLedger \<Rightarrow> RebalanceLedger" where
  "record_rebalance pos at_ms L =
     (let xs = (case rl_byPosition L pos of None \<Rightarrow> [] | Some xs \<Rightarrow> xs)
      in L\<lparr> rl_byPosition := (rl_byPosition L)(pos \<mapsto> prune (rl_windowMs L) (xs @ [at_ms]) at_ms) \<rparr>)"

definition history_of :: "string \<Rightarrow> int \<Rightarrow> RebalanceLedger \<Rightarrow> RebalanceHistory \<times> RebalanceLedger" where
  "history_of pos now L =
     (case rl_byPosition L pos of
        None \<Rightarrow> (EMPTY_HISTORY, L)
      | Some xs \<Rightarrow>
          if xs = [] then (EMPTY_HISTORY, L)
          else let ys = prune (rl_windowMs L) xs now; L' = L\<lparr> rl_byPosition := (rl_byPosition L)(pos \<mapsto> ys) \<rparr>
               in if ys = [] then (EMPTY_HISTORY, L')
                  else (\<lparr> rh_lastAt = Some (Max (set ys)), rh_countInWindow = length ys \<rparr>, L'))"

definition tracked :: "RebalanceLedger \<Rightarrow> string set" where
  "tracked L = dom (rl_byPosition L)"

section \<open>Policy and economics\<close>

record RebalancePolicy =
  rp_driftBins :: jsnum
  rp_edgeTriggerPct :: jsnum
  rp_minIntervalMs :: jsnum
  rp_maxPerDay :: jsnum
  rp_horizonMs :: jsnum
  rp_requireIlRecovery :: bool
  rp_minNetBenefitQuote :: int
  rp_targetBelowBins :: jsnum
  rp_targetAboveBins :: jsnum
  rp_shape :: LiquidityShape

definition defaultRebalancePolicy :: RebalancePolicy where
  "defaultRebalancePolicy = \<lparr> rp_driftBins = JNum 2, rp_edgeTriggerPct = dbl (1 / 10), rp_minIntervalMs = JNum 3600000,
     rp_maxPerDay = JNum 4, rp_horizonMs = JNum 86400000, rp_requireIlRecovery = True, rp_minNetBenefitQuote = 0,
     rp_targetBelowBins = JNum 10, rp_targetAboveBins = JNum 10, rp_shape = Shape_spot \<rparr>"

record RebalanceEconomics =
  re_projectedFeesPerDayQuote :: "int option"
  re_txCostQuote :: "int option"
  re_inventorySwapCostQuote :: "int option"
  re_positionNotionalQuote :: "int option"
  re_entryUiPrice :: "jsnum option"
  re_claimableFeesQuote :: int

record EconomicsBreakdown =
  eb_projectedFeesQuote :: int
  eb_cashCostQuote :: int
  eb_divergenceCostQuote :: int
  eb_netBenefitQuote :: int
  eb_claimableFeesQuote :: int
  eb_divergenceLossPct :: "jsnum option"

record RebalanceSubject =
  rs_position :: LpPosition
  rs_pool :: PoolSummary
  rs_policy :: RebalancePolicy
  rs_economics :: RebalanceEconomics
  rs_history :: RebalanceHistory
  rs_now :: int

definition bigint :: "jsnum \<Rightarrow> BinError + int" where
  "bigint x = (case js_BigInt x of None \<Rightarrow> Inl Bin_range_error | Some n \<Rightarrow> Inr n)"

definition js_nonneg :: "jsnum \<Rightarrow> jsnum" where
  "js_nonneg x = (if x = JNaN then JNaN else if js_lt x (JNum 0) then JNum 0 else x)"

text \<open>The fees the new range would earn over the horizon, in millionths of a day's fees.\<close>

definition projected_fees :: "RebalancePolicy \<Rightarrow> BinRange \<Rightarrow> BinRange \<Rightarrow> int \<Rightarrow> BinError + int" where
  "projected_fees p current target dayFees =
     (let concentration = (if binSpan current > 0 \<and> binSpan target > 0
             then fl_div (num (binSpan current)) (num (binSpan target)) else JNum 1);
          days = fl_div (rp_horizonMs p) (JNum 86400000)
      in map_sum id (\<lambda>f. big_div (dayFees * f) 1000000)
           (bigint (js_nonneg (js_round (fl_mul (fl_mul days concentration) (JNum 1000000))))))"

definition divergence_cost :: "MathFns \<Rightarrow> PoolSummary \<Rightarrow> int \<Rightarrow> jsnum \<Rightarrow> BinError + int \<times> jsnum" where
  "divergence_cost F pool notional entry =
     bindR (uiPriceOfBin F (ps_activeLevel pool) (ps_levelStepBps pool) (ps_baseDecimals pool) (ps_quoteDecimals pool)) (\<lambda>nowPrice.
     bindR (divergenceLossPct F (fl_div nowPrice entry)) (\<lambda>ilPct.
     bindR (bigint (js_round (fl_mul (fl_abs ilPct) (JNum 100)))) (\<lambda>lossBps.
     Inr (big_div (notional * lossBps) 10000, ilPct))))"

definition computeEconomics :: "MathFns \<Rightarrow> RebalanceSubject \<Rightarrow> BinRange \<Rightarrow> BinRange \<Rightarrow> BinError + EconomicsBreakdown option" where
  "computeEconomics F s current target =
     (let e = rs_economics s; p = rs_policy s
      in case (re_projectedFeesPerDayQuote e, re_txCostQuote e, re_inventorySwapCostQuote e) of
           (Some dayFees, Some tx, Some swap) \<Rightarrow>
             if dayFees < 0 \<or> tx < 0 \<or> swap < 0 then Inr None
             else if \<not> js_isFinite (rp_horizonMs p) \<or> js_le (rp_horizonMs p) (JNum 0) then Inr None
             else bindR (projected_fees p current target dayFees) (\<lambda>fees.
               (let breakdown = (\<lambda>divergence il. Inr (Some \<lparr> eb_projectedFeesQuote = fees, eb_cashCostQuote = tx + swap,
                      eb_divergenceCostQuote = divergence, eb_netBenefitQuote = fees - (tx + swap) - divergence,
                      eb_claimableFeesQuote = re_claimableFeesQuote e, eb_divergenceLossPct = il \<rparr>))
                in if \<not> rp_requireIlRecovery p then breakdown 0 None
                   else case (re_positionNotionalQuote e, re_entryUiPrice e) of
                       (Some notional, Some entry) \<Rightarrow>
                         if notional < 0 \<or> \<not> js_isFinite entry \<or> js_le entry (JNum 0) then Inr None
                         else bindR (divergence_cost F (rs_pool s) notional entry) (\<lambda>(cost, il). breakdown cost (Some il))
                     | _ \<Rightarrow> Inr None))
         | _ \<Rightarrow> Inr None)"

section \<open>Decision\<close>

datatype RebalanceCode = Hold_code PoolGuardCode | REBALANCE_OK

record RebalanceDecision =
  rd_rebalance :: bool
  rd_code :: RebalanceCode
  rd_targetRange :: "BinRange option"
  rd_drift :: jsnum
  rd_rangeFraction :: "jsnum option"
  rd_economics :: "EconomicsBreakdown option"

definition hold :: "PoolGuardCode \<Rightarrow> jsnum \<Rightarrow> jsnum option \<Rightarrow> EconomicsBreakdown option \<Rightarrow> RebalanceDecision" where
  "hold c drift fraction e = \<lparr> rd_rebalance = False, rd_code = Hold_code c, rd_targetRange = None, rd_drift = drift,
     rd_rangeFraction = fraction, rd_economics = e \<rparr>"

definition near_edge :: "RebalancePolicy \<Rightarrow> BinRange \<Rightarrow> jsnum option \<Rightarrow> bool" where
  "near_edge p current fraction \<longleftrightarrow>
     (case fraction of None \<Rightarrow> False
      | Some f \<Rightarrow> js_gt (rp_edgeTriggerPct p) (JNum 0) \<and> binSpan current > 1 \<and>
          (js_le f (rp_edgeTriggerPct p) \<or> js_ge f (fl_sub (JNum 1) (rp_edgeTriggerPct p))))"

text \<open>The brakes of time: the code holding the position back, if any.\<close>

definition time_brake :: "RebalancePolicy \<Rightarrow> RebalanceHistory \<Rightarrow> int \<Rightarrow> PoolGuardCode option" where
  "time_brake p h now =
     (if (case rh_lastAt h of None \<Rightarrow> False | Some t \<Rightarrow> js_lt (num (now - t)) (rp_minIntervalMs p)) then Some REBALANCE_TOO_SOON
      else if js_ge (num (int (rh_countInWindow h))) (rp_maxPerDay p) then Some REBALANCE_DAILY_CAP else None)"

definition decide_moved :: "MathFns \<Rightarrow> RebalanceSubject \<Rightarrow> BinRange \<Rightarrow> jsnum \<Rightarrow> jsnum option \<Rightarrow> BinError + RebalanceDecision" where
  "decide_moved F s current drift fraction =
     (let p = rs_policy s
      in bindR (rangeAroundActive (ps_activeLevel (rs_pool s)) (rp_targetBelowBins p) (rp_targetAboveBins p) MAX_BIN_PER_POSITION) (\<lambda>target.
         if target = current then Inr (hold REBALANCE_NOT_DRIFTED drift fraction None)
         else bindR (computeEconomics F s current target) (\<lambda>econ.
           case econ of
             None \<Rightarrow> Inr (hold REBALANCE_UNECONOMIC drift fraction None)
           | Some e \<Rightarrow>
               if eb_netBenefitQuote e \<le> 0 \<or> eb_netBenefitQuote e < rp_minNetBenefitQuote p
               then Inr (hold REBALANCE_UNECONOMIC drift fraction (Some e))
               else Inr \<lparr> rd_rebalance = True, rd_code = REBALANCE_OK, rd_targetRange = Some target, rd_drift = drift,
                      rd_rangeFraction = fraction, rd_economics = Some e \<rparr>)))"

definition decideRebalance :: "MathFns \<Rightarrow> RebalanceSubject \<Rightarrow> BinError + RebalanceDecision" where
  "decideRebalance F s =
     (let position = rs_position s; pool = rs_pool s; p = rs_policy s
      in case (js_BigInt (lp_lowerLevel position), js_BigInt (lp_upperLevel position)) of
           (Some l, Some u) \<Rightarrow>
             if u < l then Inr (hold POOL_RANGE_INVALID (JNum 0) None None)
             else if lp_poolAddress position \<noteq> ps_address pool then Inr (hold POOL_VENUE_ERROR (JNum 0) None None)
             else let current = \<lparr> br_lower = l, br_upper = u \<rparr>; drift = binDrift current (ps_activeLevel pool);
                      fraction = activePositionInRange current (ps_activeLevel pool)
                  in if \<not> js_gt (fl_abs drift) (rp_driftBins p) \<and> \<not> near_edge p current fraction
                     then Inr (hold REBALANCE_NOT_DRIFTED drift fraction None)
                     else (case time_brake p (rs_history s) (rs_now s) of
                             Some c \<Rightarrow> Inr (hold c drift fraction None)
                           | None \<Rightarrow> decide_moved F s current drift fraction)
         | _ \<Rightarrow> Inr (hold POOL_RANGE_INVALID (JNum 0) None None))"

section \<open>Inputs of the tool\<close>

definition baseValuedInQuote :: "MathFns \<Rightarrow> LpPosition \<Rightarrow> jsnum \<Rightarrow> int" where
  "baseValuedInQuote F position uiPrice =
     (if lp_baseAmount position \<le> 0 then 0
      else if \<not> js_isFinite uiPrice \<or> js_le uiPrice (JNum 0) then 0
      else let v = fl_mul (fl_mul (fl_div (js_Number (lp_baseAmount position)) (mf_pow F (JNum 10) (num (lp_baseDecimals position)))) uiPrice)
                     (mf_pow F (JNum 10) (num (lp_quoteDecimals position)))
           in if \<not> js_isFinite v \<or> js_lt v (JNum 0) then 0 else (case js_BigInt (js_round v) of None \<Rightarrow> 0 | Some n \<Rightarrow> n))"

text \<open>\<open>10 ** n\<close> for the small counts of decimals is exact.\<close>

definition quoteCostOfLamports :: "int \<Rightarrow> PoolSummary \<Rightarrow> int" where
  "quoteCostOfLamports lamports pool =
     (if ps_quoteDecimals pool = 9 then lamports else big_div lamports (10 ^ nat (max 0 (9 - ps_quoteDecimals pool))))"

definition tool_economics :: "MathFns \<Rightarrow> LpPosition \<Rightarrow> PoolSummary \<Rightarrow> int \<Rightarrow> jsnum option \<Rightarrow> BinError + RebalanceEconomics" where
  "tool_economics F position pool priorityFee entryPrice =
     (let notional = lp_quoteAmount position + baseValuedInQuote F position (ps_activePrice pool);
          dayFees = (case ps_feeApr24hPct pool of None \<Rightarrow> Inr None
             | Some a \<Rightarrow> if \<not> js_isFinite a \<or> js_lt a (JNum 0) then Inr None
                 else map_sum id (\<lambda>f. Some (big_div (notional * f) 100000000)) (bigint (js_round (fl_mul a (JNum 1000000)))));
          fee = (if ps_baseFeeBps pool = JNaN then JNaN else if js_lt (ps_baseFeeBps pool) (JNum 1) then JNum 1 else ps_baseFeeBps pool)
      in bindR dayFees (\<lambda>fees.
         case js_BigInt fee of
           None \<Rightarrow> Inl Bin_range_error
         | Some f \<Rightarrow> Inr \<lparr> re_projectedFeesPerDayQuote = fees,
             re_txCostQuote = Some (quoteCostOfLamports (2 * (priorityFee + 10000)) pool),
             re_inventorySwapCostQuote = Some (big_div (notional * f) 10000), re_positionNotionalQuote = Some notional,
             re_entryUiPrice = entryPrice, re_claimableFeesQuote = lp_unclaimedFeeQuote position \<rparr>))"

text \<open>
  One call of the tool: the history is read at \<open>now\<close>, and an executed rebalance is recorded at \<open>recorded\<close>. The
  subject's history is the ledger's. \<open>executed\<close> says whether the gateway carried the exit out.
\<close>

definition rebalance_call ::
  "MathFns \<Rightarrow> RebalanceSubject \<Rightarrow> int \<Rightarrow> int \<Rightarrow> bool \<Rightarrow> RebalanceLedger \<Rightarrow> (BinError + RebalanceDecision) \<times> RebalanceLedger" where
  "rebalance_call F s now recorded executed L =
     (let pos = lp_positionAddress (rs_position s); (h, L1) = history_of pos now L;
          d = decideRebalance F (s\<lparr> rs_history := h, rs_now := now \<rparr>)
      in (d, (case d of Inr r \<Rightarrow> if rd_rebalance r \<and> executed then record_rebalance pos recorded L1 else L1 | Inl _ \<Rightarrow> L1)))"

end
