(* ===== verification/RebalanceRate.thy ===== *)
theory RebalanceRate
  imports Rebalance
begin

text \<open>
  The churn brakes of the rebalancer end to end: the ledger and the decision together keep a position within its
  rolling allowance and minimum interval as long as a call records before the next one reads, and lose both
  when two calls overlap.
\<close>

section \<open>Runs\<close>

text \<open>What a list of calls, each finished before the next starts, records for the position.\<close>

fun rebalance_run :: "MathFns \<Rightarrow> (RebalanceSubject \<times> int \<times> int \<times> bool) list \<Rightarrow> RebalanceLedger \<Rightarrow> int list" where
  "rebalance_run F [] L = []"
| "rebalance_run F ((s, now, recorded, executed) # cs) L =
     (let (d, L') = rebalance_call F s now recorded executed L
      in (case d of Inl _ \<Rightarrow> [] | Inr r \<Rightarrow> if rd_rebalance r \<and> executed then [recorded] else []) @ rebalance_run F cs L')"

text \<open>One position under one policy, and a clock that does not go back.\<close>

fun serial_calls :: "string \<Rightarrow> RebalancePolicy \<Rightarrow> int \<Rightarrow> (RebalanceSubject \<times> int \<times> int \<times> bool) list \<Rightarrow> bool" where
  "serial_calls pos p t [] = True"
| "serial_calls pos p t ((s, now, recorded, executed) # cs) \<longleftrightarrow>
     lp_positionAddress (rs_position s) = pos \<and> rs_policy s = p \<and> t \<le> now \<and> now \<le> recorded \<and> serial_calls pos p recorded cs"

definition in_window :: "int \<Rightarrow> int \<Rightarrow> int list \<Rightarrow> int list" where
  "in_window t w xs = filter (\<lambda>x. t \<le> x \<and> x \<le> t + w) xs"

lemma decide_braked:
  assumes "decideRebalance F s = Inr r" "rd_rebalance r"
  shows "time_brake (rs_policy s) (rs_history s) (rs_now s) = None"
  using assms by (auto simp: decideRebalance_def hold_def Let_def split: option.splits if_splits)

definition held :: "string \<Rightarrow> RebalanceLedger \<Rightarrow> int list" where
  "held pos L = (case rl_byPosition L pos of None \<Rightarrow> [] | Some xs \<Rightarrow> xs)"

lemma prune_filter: "sorted xs \<Longrightarrow> prune w xs now = filter (\<lambda>t. now - w \<le> t) xs"
  by (induction xs) (auto simp: prune_def, subst filter_True, auto)

lemma history_of_held:
  assumes "sorted (held pos L)"
  shows "history_of pos now L = (let ys = filter (\<lambda>t. now - rl_windowMs L \<le> t) (held pos L)
     in ((if ys = [] then EMPTY_HISTORY else \<lparr> rh_lastAt = Some (Max (set ys)), rh_countInWindow = length ys \<rparr>),
         snd (history_of pos now L)))"
    and "held pos (snd (history_of pos now L)) = filter (\<lambda>t. now - rl_windowMs L \<le> t) (held pos L)"
    and "rl_windowMs (snd (history_of pos now L)) = rl_windowMs L"
  using assms by (auto simp: history_of_def held_def prune_filter Let_def split: option.splits)

lemma record_held:
  assumes "sorted (held pos L)" "list_all (\<lambda>x. x \<le> t) (held pos L)"
  shows "held pos (record_rebalance pos t L) = filter (\<lambda>x. t - rl_windowMs L \<le> x) (held pos L @ [t])"
    and "rl_windowMs (record_rebalance pos t L) = rl_windowMs L"
proof -
  have "sorted (held pos L @ [t])" using assms by (auto simp: sorted_append list_all_iff)
  then show "held pos (record_rebalance pos t L) = filter (\<lambda>x. t - rl_windowMs L \<le> x) (held pos L @ [t])"
    using prune_filter [of "held pos L @ [t]" "rl_windowMs L" t] by (simp add: record_rebalance_def held_def Let_def)
qed (simp add: record_rebalance_def Let_def)

text \<open>What the ledger holds is the part of the log a window ending now can still see.\<close>

definition ledger_inv :: "string \<Rightarrow> int \<Rightarrow> int list \<Rightarrow> RebalanceLedger \<Rightarrow> bool" where
  "ledger_inv pos t xs L \<longleftrightarrow> sorted xs \<and> list_all (\<lambda>x. x \<le> t) xs \<and> 0 < rl_windowMs L \<and>
     (\<exists>c. c \<le> t - rl_windowMs L \<and> held pos L = filter (\<lambda>x. c \<le> x) xs)"

definition rate_ok :: "nat \<Rightarrow> rat \<Rightarrow> int \<Rightarrow> int list \<Rightarrow> bool" where
  "rate_ok m gap w xs \<longleftrightarrow> (\<forall>t. length (in_window t w xs) \<le> m) \<and> sorted_wrt (\<lambda>a b. of_int a + gap \<le> of_int b \<or> b - a > w) xs"

lemma filter_filter_le: "c \<le> d \<Longrightarrow> filter (\<lambda>x. d \<le> x) (filter (\<lambda>x. c \<le> x) xs) = filter (\<lambda>x. d \<le> x) xs" for c d :: int
  by (induction xs) auto


lemma sorted_held: "ledger_inv pos t recs L \<Longrightarrow> sorted (held pos L)"
  by (auto simp: ledger_inv_def intro: sorted_wrt_filter)

lemma history_inv:
  assumes "ledger_inv pos t recs L" "t \<le> now" "history_of pos now L = (h, L1)"
  shows "ledger_inv pos now recs L1" "rl_windowMs L1 = rl_windowMs L"
    "held pos L1 = filter (\<lambda>x. now - rl_windowMs L \<le> x) recs"
    "h = (let ys = filter (\<lambda>x. now - rl_windowMs L \<le> x) recs
          in if ys = [] then EMPTY_HISTORY else \<lparr> rh_lastAt = Some (Max (set ys)), rh_countInWindow = length ys \<rparr>)"
proof -
  obtain c where c: "c \<le> t - rl_windowMs L" "held pos L = filter (\<lambda>x. c \<le> x) recs" using assms(1) by (auto simp: ledger_inv_def)
  have seen: "filter (\<lambda>x. now - rl_windowMs L \<le> x) (held pos L) = filter (\<lambda>x. now - rl_windowMs L \<le> x) recs"
    unfolding c(2) using c(1) assms(2) by (intro filter_filter_le) simp
  note H = history_of_held [OF sorted_held [OF assms(1)], of now, unfolded seen assms(3) snd_conv]
  show w: "rl_windowMs L1 = rl_windowMs L" and h: "held pos L1 = filter (\<lambda>x. now - rl_windowMs L \<le> x) recs" using H by simp_all
  show "h = (let ys = filter (\<lambda>x. now - rl_windowMs L \<le> x) recs
          in if ys = [] then EMPTY_HISTORY else \<lparr> rh_lastAt = Some (Max (set ys)), rh_countInWindow = length ys \<rparr>)"
    using H(1) by (simp add: Let_def)
  show "ledger_inv pos now recs L1"
    using assms(1,2) w h by (auto simp: ledger_inv_def list_all_iff intro!: exI [of _ "now - rl_windowMs L"])
qed

lemma ledger_inv_later: "ledger_inv pos t recs L \<Longrightarrow> t \<le> t' \<Longrightarrow> ledger_inv pos t' recs L"
proof -
  assume a: "ledger_inv pos t recs L" "t \<le> t'"
  then obtain c where "c \<le> t - rl_windowMs L" "held pos L = filter (\<lambda>x. c \<le> x) recs" by (auto simp: ledger_inv_def)
  then have "\<exists>c. c \<le> t' - rl_windowMs L \<and> held pos L = filter (\<lambda>x. c \<le> x) recs" using a(2) by (intro exI [of _ c]) auto
  moreover have "list_all (\<lambda>x. x \<le> t') recs" using a by (auto simp: ledger_inv_def list_all_iff)
  ultimately show ?thesis using a(1) by (simp add: ledger_inv_def)
qed

lemma record_inv:
  assumes "ledger_inv pos now recs L" "now \<le> t"
  shows "ledger_inv pos t (recs @ [t]) (record_rebalance pos t L)" "rl_windowMs (record_rebalance pos t L) = rl_windowMs L"
proof -
  obtain c where c: "c \<le> now - rl_windowMs L" "held pos L = filter (\<lambda>x. c \<le> x) recs" using assms(1) by (auto simp: ledger_inv_def)
  have below: "list_all (\<lambda>x. x \<le> t) (held pos L)" using assms c by (auto simp: ledger_inv_def list_all_iff)
  note R = record_held [OF sorted_held [OF assms(1)] below]
  have "held pos (record_rebalance pos t L) = filter (\<lambda>x. t - rl_windowMs L \<le> x) (recs @ [t])"
    using R(1) filter_filter_le [of c "t - rl_windowMs L" recs] c assms(2) by simp
  then show "ledger_inv pos t (recs @ [t]) (record_rebalance pos t L)"
    using assms R(2) by (auto simp: ledger_inv_def list_all_iff sorted_append intro!: exI [of _ "t - rl_windowMs L"])
  show "rl_windowMs (record_rebalance pos t L) = rl_windowMs L" by (rule R(2))
qed

lemma length_filter_mono: "(\<And>x. x \<in> set xs \<Longrightarrow> P x \<Longrightarrow> Q x) \<Longrightarrow> length (filter P xs) \<le> length (filter Q xs)"
  by (induction xs) (auto intro: le_SucI)

lemma rate_extend:
  assumes rate: "rate_ok m gap w recs" and recs: "sorted recs" "list_all (\<lambda>x. x \<le> now) recs" and t: "now \<le> t" "0 < w"
    and count: "length (filter (\<lambda>x. now - w \<le> x) recs) < m"
    and last: "\<And>x. x \<in> set recs \<Longrightarrow> now - w \<le> x \<Longrightarrow> gap \<le> of_int (now - x)"
  shows "rate_ok m gap w (recs @ [t])"
proof -
  have "length (in_window u w (recs @ [t])) \<le> m" for u
  proof (cases "u \<le> t \<and> t \<le> u + w")
    case True
    have "length (in_window u w recs) \<le> length (filter (\<lambda>x. now - w \<le> x) recs)"
      unfolding in_window_def using True t(1) by (intro length_filter_mono) auto
    then show ?thesis using count True by (simp add: in_window_def)
  next
    case False
    then have "in_window u w (recs @ [t]) = in_window u w recs" by (auto simp: in_window_def)
    then show ?thesis using rate by (simp add: rate_ok_def)
  qed
  moreover have "of_int a + gap \<le> of_int t \<or> t - a > w" if "a \<in> set recs" for a
  proof (cases "now - w \<le> a")
    case True
    have "gap \<le> of_int (now - a)" using last [OF that True] .
    also have "\<dots> \<le> of_int (t - a)" using t(1) by (simp only: of_int_le_iff)
    finally show ?thesis by simp
  qed (use t in simp)
  ultimately show ?thesis using rate by (simp add: rate_ok_def sorted_wrt_append)
qed

lemma brake_history:
  assumes "time_brake p (if ys = [] then EMPTY_HISTORY else \<lparr> rh_lastAt = Some (Max (set ys)), rh_countInWindow = length ys \<rparr>) now = None"
    and "rp_maxPerDay p = num (int m)" "rp_minIntervalMs p = JNum gap"
  shows "length ys < m" and "x \<in> set ys \<Longrightarrow> gap \<le> of_int (now - x)"
proof -
  show "length ys < m" using assms by (cases "ys = []") (auto simp: time_brake_def EMPTY_HISTORY_def not_le split: if_splits)
  show "gap \<le> of_int (now - x)" if x: "x \<in> set ys"
  proof -
    have "gap \<le> of_int (now - Max (set ys))"
      using assms x by (cases "ys = []") (auto simp: time_brake_def not_less split: if_splits)
    also have "\<dots> \<le> of_int (now - x)" using x by (simp only: of_int_le_iff) simp
    finally show ?thesis .
  qed
qed

lemma run_rate:
  assumes "serial_calls pos p t cs" "ledger_inv pos t recs L" "rate_ok m gap (rl_windowMs L) recs"
    and m: "rp_maxPerDay p = num (int m)" "rp_minIntervalMs p = JNum gap"
  shows "rate_ok m gap (rl_windowMs L) (recs @ rebalance_run F cs L)"
  using assms(1-3)
proof (induction cs arbitrary: t recs L)
  case (Cons c cs)
  obtain s now recorded executed where c: "c = (s, now, recorded, executed)" by (cases c) auto
  then have ser: "lp_positionAddress (rs_position s) = pos" "rs_policy s = p" "t \<le> now" "now \<le> recorded" "serial_calls pos p recorded cs"
    using Cons.prems(1) by auto
  obtain h L1 where h: "history_of pos now L = (h, L1)" by (cases "history_of pos now L")
  note H = history_inv [OF Cons.prems(2) ser(3) h]
  obtain d L' where call: "rebalance_call F s now recorded executed L = (d, L')" by (cases "rebalance_call F s now recorded executed L")
  have d: "d = decideRebalance F (s\<lparr> rs_history := h, rs_now := now \<rparr>)"
    and L': "L' = (case d of Inr r \<Rightarrow> if rd_rebalance r \<and> executed then record_rebalance pos recorded L1 else L1 | Inl _ \<Rightarrow> L1)"
    using call h ser(1) by (auto simp: rebalance_call_def Let_def)
  let ?w = "rl_windowMs L"
  show ?case
  proof (cases "\<exists>r. d = Inr r \<and> rd_rebalance r \<and> executed")
    case True
    then obtain r where r: "d = Inr r" "rd_rebalance r" "executed" by blast
    have new: "rebalance_run F (c # cs) L = recorded # rebalance_run F cs L'" using call r c by simp
    have step: "ledger_inv pos recorded (recs @ [recorded]) L'" "rl_windowMs L' = ?w"
      using record_inv [OF H(1) ser(4)] L' r H(2) by simp_all
    have "time_brake p h now = None"
      using decide_braked [of F "s\<lparr> rs_history := h, rs_now := now \<rparr>" r] d r ser(2) by simp
    note B = brake_history [OF this [unfolded H(4) Let_def] m]
    have "rate_ok m gap ?w (recs @ [recorded])"
      using Cons.prems(3) H(1) ser(4) B Cons.prems(2)
      by (intro rate_extend [where now = now]) (auto simp: ledger_inv_def)
    then show ?thesis using Cons.IH [OF ser(5) step(1)] step(2) new by simp
  next
    case False
    then have new: "rebalance_run F (c # cs) L = rebalance_run F cs L'" and same: "L' = L1"
      using call c L' by (auto split: sum.splits)
    have "ledger_inv pos recorded recs L1"
      using H(1) ser(4) by (rule ledger_inv_later)
    then have "rate_ok m gap (rl_windowMs L1) (recs @ rebalance_run F cs L1)"
      using Cons.IH [OF ser(5)] Cons.prems(3) H(2) by metis
    then show ?thesis using H(2) new same by metis
  qed
qed simp

text \<open>
  C34: while calls under one policy do not overlap and the clock does not go back, a position is rebalanced at most the daily allowance of times in any window of
  the ledger's length, and two rebalances closer together than that window keep the minimum interval.
\<close>

theorem rebalance_rate_limited:
  assumes "serial_calls pos p t cs" "rp_maxPerDay p = num (int m)" "rp_minIntervalMs p = JNum gap"
  shows "length (in_window u (max 1 windowMs) (rebalance_run F cs (new_ledger windowMs))) \<le> m \<and>
    sorted_wrt (\<lambda>a b. of_int a + gap \<le> of_int b \<or> b - a > max 1 windowMs) (rebalance_run F cs (new_ledger windowMs))"
proof -
  have "rate_ok m gap (rl_windowMs (new_ledger windowMs)) ([] @ rebalance_run F cs (new_ledger windowMs))"
    using assms by (intro run_rate) (auto simp: ledger_inv_def new_ledger_def held_def rate_ok_def in_window_def)
  then show ?thesis by (simp_all add: rate_ok_def new_ledger_def)
qed

section \<open>Examples\<close>

definition example_subject :: RebalanceSubject where
  "example_subject = \<lparr>
     rs_position = \<lparr> lp_poolAddress = ''x'', lp_positionAddress = ''p'', lp_owner = ''o'', lp_baseDecimals = 9, lp_quoteDecimals = 9,
       lp_lowerLevel = JNum 0, lp_upperLevel = JNum 1, lp_baseAmount = 0, lp_quoteAmount = 100000, lp_unclaimedFeeQuote = 0 \<rparr>,
     rs_pool = \<lparr> ps_address = ''x'', ps_baseMint = ''b'', ps_baseDecimals = 9, ps_quoteMint = WSOL_MINT, ps_quoteDecimals = 9,
       ps_levelStepBps = JNum 10, ps_activeLevel = JNum 20, ps_activePrice = JNum 1, ps_baseFeeBps = JNum 10,
       ps_liquidityQuote = None, ps_feeApr24hPct = None \<rparr>,
     rs_policy = \<lparr> rp_driftBins = JNum 2, rp_edgeTriggerPct = JNum 0, rp_minIntervalMs = JNum 3600000, rp_maxPerDay = JNum 1,
       rp_horizonMs = JNum 86400000, rp_requireIlRecovery = False, rp_minNetBenefitQuote = 0, rp_targetBelowBins = JNum 0,
       rp_targetAboveBins = JNum 0, rp_shape = Shape_spot \<rparr>,
     rs_economics = \<lparr> re_projectedFeesPerDayQuote = Some 1000, re_txCostQuote = Some 1, re_inventorySwapCostQuote = Some 1,
       re_positionNotionalQuote = None, re_entryUiPrice = None, re_claimableFeesQuote = 0 \<rparr>,
     rs_history = EMPTY_HISTORY, rs_now = 0 \<rparr>"

lemma example_moves:
  "\<exists>r. decideRebalance F (example_subject\<lparr> rs_history := EMPTY_HISTORY, rs_now := now \<rparr>) = Inr r \<and> rd_rebalance r"
proof -
  have one: "dbl 1 = JNum 1" using dbl_int [of 1] by simp
  have half: "\<lfloor>4000001 / 2 :: rat\<rfloor> = 2000000" by (simp add: floor_eq_iff)
  show ?thesis
    by (simp add: example_subject_def decideRebalance_def binDrift_def activePositionInRange_def isActiveInRange_def js_le_def Let_def
        fl_sub_def dbl_numeral one half near_edge_def time_brake_def EMPTY_HISTORY_def decide_moved_def rangeAroundActive_def
        assertBinId_def MIN_BIN_ID_def MAX_BIN_ID_def MAX_BIN_PER_POSITION_def shrink_range.simps computeEconomics_def
        projected_fees_def binSpan_def bigint_def js_nonneg_def)
qed

definition example_math :: MathFns where
  "example_math = \<lparr> mf_pow = (\<lambda>_ _. JNum 1), mf_log = (\<lambda>_. JNum 0), mf_exp = (\<lambda>_. JNum 1), mf_sqrt = (\<lambda>_. JNum 1) \<rparr>"

lemma rebalance_rate_limited_witness:
  "length (in_window 0 10 (rebalance_run example_math [(example_subject, 3, 4, True), (example_subject, 5, 6, True)] (new_ledger 10))) \<le> 1"
  using rebalance_rate_limited [of "''p''" "rs_policy example_subject" 0
      "[(example_subject, 3, 4, True), (example_subject, 5, 6, True)]" 1 3600000 0 10 example_math]
  by (simp add: example_subject_def)

text \<open>
  The brakes do not survive overlapping calls: two calls that both read the history before either records move the
  position twice inside a window that allows one move.
\<close>

lemma overlapping_calls_exceed:
  "let L = new_ledger DAY_MS; (h1, L1) = history_of ''p'' 0 L; (h2, L2) = history_of ''p'' 0 L1;
       decide = (\<lambda>h. decideRebalance F (example_subject\<lparr> rs_history := h, rs_now := 0 \<rparr>));
       L3 = record_rebalance ''p'' 2 (record_rebalance ''p'' 1 L2)
   in (\<exists>r. decide h1 = Inr r \<and> rd_rebalance r) \<and> (\<exists>r. decide h2 = Inr r \<and> rd_rebalance r) \<and>
      rp_maxPerDay (rs_policy example_subject) = JNum 1 \<and> rh_countInWindow (fst (history_of ''p'' 2 L3)) = 2"
  using example_moves [of F 0]
  by (simp add: new_ledger_def history_of_def record_rebalance_def prune_def DAY_MS_def example_subject_def Let_def)

end
