(* ===== verification/Delegation.thy ===== *)
theory Delegation
  imports Doubles Json
begin

text \<open>
  \<open>src/src/autonomy/delegation/index.ts\<close>: the manager of delegated child runs. An entry is addressed by its
  position in the insertion order of the manager's map, which is its sequence number less one. The asynchronous
  \<open>#run\<close> is split at its awaits; a step of the manager is one synchronous stretch of code, and the outside world
  (the child runtime, the verifier, the timers, the announce and archive hooks, the callers) chooses the next
  one. The hooks and the abort listeners do not call the manager back synchronously.
\<close>

section \<open>Data\<close>

datatype DelegationStatus = Dl_queued | Dl_running | Dl_completed | Dl_failed | Dl_cancelled

datatype CapabilityEffect = Eff_read | Eff_write | Eff_execute | Eff_network

record CapabilityGrant =
  cg_name :: string
  cg_effect :: CapabilityEffect

record ChildRuntimeResult =
  cr_summary :: string
  cr_iterations :: jsnum
  cr_costUsd :: jsnum
  cr_cloneable :: bool

text \<open>\<open>sr_cloneable\<close>: whether \<open>structuredClone\<close> accepts the context and the model handed to the child.\<close>

record SpawnRequest =
  sr_parentSessionId :: string
  sr_parentCapabilities :: "string list"
  sr_requestedCapabilities :: "string list"
  sr_depth :: "int option"
  sr_cloneable :: bool

record DelegationLimits =
  dl_maxDepth :: jsnum
  dl_maxChildren :: jsnum
  dl_maxIterations :: jsnum
  dl_deadlineMs :: jsnum
  dl_maxCostUsd :: jsnum
  dl_concurrency :: jsnum

definition default_limits :: DelegationLimits where
  "default_limits = \<lparr> dl_maxDepth = JNum 2, dl_maxChildren = JNum 4, dl_maxIterations = JNum 8, dl_deadlineMs = JNum 30000,
     dl_maxCostUsd = JNum 1, dl_concurrency = JNum 2 \<rparr>"

definition default_capabilities :: "CapabilityGrant list" where
  "default_capabilities = [\<lparr> cg_name = ''market:read'', cg_effect = Eff_read \<rparr>]"

record DelegationResult =
  dr_status :: DelegationStatus
  dr_run :: "ChildRuntimeResult option"
  dr_error :: "string option"
  dr_announced :: bool
  dr_archived :: bool

text \<open>Where the asynchronous code of an entry is: before its run, at one of the awaits of \<open>#run\<close>, in the hooks of \<open>#finish\<close>, or done.\<close>

datatype Phase =
    Ph_queued
  | Ph_run
  | Ph_verify ChildRuntimeResult
  | Ph_hooks DelegationResult bool
  | Ph_done DelegationResult

record Entry =
  en_parent :: string
  en_seq :: nat
  en_depth :: int
  en_capabilities :: "string list"
  en_status :: DelegationStatus
  en_aborted :: "string option"
  en_settled :: bool
  en_counted :: bool
  en_running :: bool
  en_phase :: Phase

definition entry_id :: "Entry \<Rightarrow> string" where
  "entry_id e = en_parent e @ '':child:'' @ show_int (int (en_seq e))"

fun terminal :: "DelegationStatus \<Rightarrow> bool" where
  "terminal Dl_queued = False"
| "terminal Dl_running = False"
| "terminal _ = True"

record Manager =
  dm_entries :: "Entry list"
  dm_queue :: "nat list"
  dm_counts :: "string \<Rightarrow> int option"
  dm_active :: int
  dm_sequence :: nat
  dm_microtasks :: nat

record DelegationConfig =
  dc_limits :: DelegationLimits
  dc_allowed :: "string list"
  dc_verifies :: bool

definition limit_valid :: "jsnum \<Rightarrow> bool" where
  "limit_valid v \<longleftrightarrow> \<not> (\<not> js_isFinite v \<or> js_le v (JNum 0))"

definition new_manager :: "DelegationLimits \<Rightarrow> CapabilityGrant list option \<Rightarrow> bool \<Rightarrow> string + DelegationConfig \<times> Manager" where
  "new_manager limits capabilities verifies =
     throwIf (\<not> list_all limit_valid [dl_maxDepth limits, dl_maxChildren limits, dl_maxIterations limits, dl_deadlineMs limits,
         dl_maxCostUsd limits, dl_concurrency limits]) ''must be positive''
    (let grants = (case capabilities of None \<Rightarrow> default_capabilities | Some g \<Rightarrow> g)
     in throwIf (list_ex (\<lambda>g. cg_effect g \<noteq> Eff_read) grants) ''delegated capabilities must be read-only''
        (Inr (\<lparr> dc_limits = limits, dc_allowed = map cg_name grants, dc_verifies = verifies \<rparr>,
              \<lparr> dm_entries = [], dm_queue = [], dm_counts = (\<lambda>_. None), dm_active = 0, dm_sequence = 0, dm_microtasks = 0 \<rparr>)))"

section \<open>Settling\<close>

definition upd :: "nat \<Rightarrow> (Entry \<Rightarrow> Entry) \<Rightarrow> Manager \<Rightarrow> Manager" where
  "upd i f s = s\<lparr> dm_entries := (dm_entries s)[i := f (dm_entries s ! i)] \<rparr>"

definition uncount :: "string \<Rightarrow> Manager \<Rightarrow> Manager" where
  "uncount parent s = s\<lparr> dm_counts := (dm_counts s)(parent \<mapsto>
     max 0 ((case dm_counts s parent of None \<Rightarrow> 1 | Some n \<Rightarrow> n) - 1)) \<rparr>"

text \<open>The synchronous part of \<open>#finish\<close>, up to its first hook.\<close>

definition finish_sync :: "nat \<Rightarrow> DelegationResult \<Rightarrow> bool \<Rightarrow> Manager \<Rightarrow> Manager" where
  "finish_sync i r announce s =
     (let e = dm_entries s ! i
      in if en_settled e then s
         else upd i (\<lambda>e. e\<lparr> en_settled := True, en_status := dr_status r, en_counted := False, en_phase := Ph_hooks r announce \<rparr>)
                (if en_counted e then uncount (en_parent e) s else s))"

definition failed_with :: "string \<Rightarrow> DelegationResult" where
  "failed_with x = \<lparr> dr_status = Dl_failed, dr_run = None, dr_error = Some x, dr_announced = False, dr_archived = False \<rparr>"

definition cancelled_with :: "string \<Rightarrow> DelegationResult" where
  "cancelled_with x = \<lparr> dr_status = Dl_cancelled, dr_run = None, dr_error = Some x, dr_announced = False, dr_archived = False \<rparr>"

definition completed_with :: "ChildRuntimeResult \<Rightarrow> DelegationResult" where
  "completed_with x = \<lparr> dr_status = Dl_completed, dr_run = Some x, dr_error = None, dr_announced = False, dr_archived = False \<rparr>"

section \<open>Spawning and cancelling\<close>

definition spawn :: "DelegationConfig \<Rightarrow> SpawnRequest \<Rightarrow> Manager \<Rightarrow> (string + nat) \<times> Manager" where
  "spawn c q s =
     (let depth = (case sr_depth q of None \<Rightarrow> 0 | Some d \<Rightarrow> d) + 1;
          parent = sr_parentSessionId q;
          children = (case dm_counts s parent of None \<Rightarrow> 0 | Some n \<Rightarrow> n);
          capabilities = filter (\<lambda>x. x \<in> set (sr_parentCapabilities q) \<and> x \<in> set (dc_allowed c)) (sr_requestedCapabilities q)
      in if js_gt (JNum (of_int depth)) (dl_maxDepth (dc_limits c)) then (Inl ''maximum delegation depth exceeded'', s)
         else if js_ge (JNum (of_int children)) (dl_maxChildren (dc_limits c)) then (Inl ''maximum children exceeded'', s)
         else if capabilities = [] then (Inl ''no permitted read-only capabilities'', s)
         else if \<not> sr_cloneable q then (Inl ''must be cloneable'', s)
         else let n = dm_sequence s + 1
              in (Inr (length (dm_entries s)),
                  s\<lparr> dm_sequence := n,
                     dm_entries := dm_entries s @ [\<lparr> en_parent = parent, en_seq = n, en_depth = depth, en_capabilities = capabilities,
                        en_status = Dl_queued, en_aborted = None, en_settled = False, en_counted = True, en_running = False,
                        en_phase = Ph_queued \<rparr>],
                     dm_counts := (dm_counts s)(parent \<mapsto> children + 1),
                     dm_queue := dm_queue s @ [length (dm_entries s)],
                     dm_microtasks := dm_microtasks s + 1 \<rparr>))"

text \<open>\<open>AbortController.abort\<close> keeps the first reason.\<close>

definition abort_entry :: "nat \<Rightarrow> string \<Rightarrow> Manager \<Rightarrow> Manager" where
  "abort_entry i reason = upd i (\<lambda>e. e\<lparr> en_aborted := (case en_aborted e of None \<Rightarrow> Some reason | Some r \<Rightarrow> Some r) \<rparr>)"

definition cancel_entry :: "nat \<Rightarrow> string \<Rightarrow> Manager \<Rightarrow> Manager" where
  "cancel_entry i reason s =
     (if terminal (en_status (dm_entries s ! i)) then s
      else let s1 = abort_entry i reason s
           in if en_status (dm_entries s ! i) = Dl_queued
              then finish_sync i (cancelled_with reason) False (s1\<lparr> dm_queue := remove1 i (dm_queue s1) \<rparr>)
              else s1)"

text \<open>
  The recursion of \<open>cancelParent\<close>: \<open>es\<close> are the entries of the map, whose parents and identities no step
  changes, and \<open>ks\<close> those still to be visited. A child's identity is longer than its parent's, so the descent ends.
\<close>

function cancel_tree :: "string \<Rightarrow> Entry list \<Rightarrow> string \<Rightarrow> nat list \<Rightarrow> Manager \<Rightarrow> Manager" where
  "cancel_tree reason es parent [] s = s"
| "cancel_tree reason es parent (k # ks) s =
     cancel_tree reason es parent ks
       (if k < length es \<and> en_parent (es ! k) = parent \<and> \<not> terminal (en_status (dm_entries s ! k))
        then cancel_entry k reason (cancel_tree reason es (entry_id (es ! k)) [0..<length es] s)
        else s)"
  by pat_completeness auto

definition longest_id :: "Entry list \<Rightarrow> nat" where
  "longest_id es = Max (insert 0 (set (map (\<lambda>e. length (entry_id e)) es)))"

lemma longest_id: "k < length es \<Longrightarrow> length (entry_id (es ! k)) \<le> longest_id es"
  unfolding longest_id_def by (rule Max_ge) auto

lemma entry_id_longer: "length (en_parent e) < length (entry_id e)"
  by (simp add: entry_id_def)

termination cancel_tree
proof (relation "measures [\<lambda>(r, es, p, ks, s). longest_id es + 1 - length p, \<lambda>(r, es, p, ks, s). length ks]", goal_cases)
  case 1
  show ?case by simp
next
  case (2 reason es parent k ks s)
  then have "length parent < length (entry_id (es ! k))" "length (entry_id (es ! k)) \<le> longest_id es"
    using entry_id_longer [of "es ! k"] longest_id [of k es] by auto
  then have "longest_id es + 1 - length (entry_id (es ! k)) < longest_id es + 1 - length parent" by arith
  then show ?case by simp
next
  case (3 reason es parent k ks s)
  show ?case by simp
qed

definition cancelParent :: "string \<Rightarrow> string \<Rightarrow> Manager \<Rightarrow> Manager" where
  "cancelParent parent reason s = cancel_tree reason (dm_entries s) parent [0..<length (dm_entries s)] s"

section \<open>Running\<close>

definition start_run :: "nat \<Rightarrow> Manager \<Rightarrow> Manager" where
  "start_run i s = (upd i (\<lambda>e. e\<lparr> en_status := Dl_running, en_running := True, en_phase := Ph_run \<rparr>) s)\<lparr> dm_active := dm_active s + 1 \<rparr>"

fun drain_loop :: "DelegationConfig \<Rightarrow> nat list \<Rightarrow> Manager \<Rightarrow> Manager" where
  "drain_loop c [] s = s"
| "drain_loop c (i # q) s =
     (if js_lt (JNum (of_int (dm_active s))) (dl_concurrency (dc_limits c))
      then drain_loop c q ((if en_status (dm_entries s ! i) = Dl_queued then start_run i s else s)\<lparr> dm_queue := q \<rparr>)
      else s)"

definition drain :: "DelegationConfig \<Rightarrow> Manager \<Rightarrow> Manager" where
  "drain c s = drain_loop c (dm_queue s) s"

datatype RunOutcome = Run_threw string | Run_returned "ChildRuntimeResult option"

definition valid_result :: "ChildRuntimeResult option \<Rightarrow> bool" where
  "valid_result x \<longleftrightarrow> (case x of None \<Rightarrow> False
     | Some r \<Rightarrow> js_trim (cr_summary r) \<noteq> [] \<and> js_isInteger (cr_iterations r) \<and> \<not> js_lt (cr_iterations r) (JNum 0) \<and>
         js_isFinite (cr_costUsd r) \<and> \<not> js_lt (cr_costUsd r) (JNum 0))"

text \<open>The code of \<open>#run\<close> after its race, up to the next await.\<close>

definition after_race :: "DelegationConfig \<Rightarrow> nat \<Rightarrow> RunOutcome \<Rightarrow> Manager \<Rightarrow> Manager" where
  "after_race c i out s =
     (case en_aborted (dm_entries s ! i) of
        Some reason \<Rightarrow> finish_sync i (cancelled_with reason) False s
      | None \<Rightarrow>
          (case out of
             Run_threw x \<Rightarrow> finish_sync i (failed_with x) False s
           | Run_returned x \<Rightarrow>
               if \<not> valid_result x then finish_sync i (failed_with ''invalid runtime result'') False s
               else let r = the x
                    in if js_gt (cr_iterations r) (dl_maxIterations (dc_limits c)) \<or> js_gt (cr_costUsd r) (dl_maxCostUsd (dc_limits c))
                       then finish_sync i (failed_with ''budget exceeded'') False s
                       else if \<not> cr_cloneable r then finish_sync i (failed_with ''runtime result must be cloneable'') False s
                       else if dc_verifies c then upd i (\<lambda>e. e\<lparr> en_phase := Ph_verify r \<rparr>) s
                       else finish_sync i (completed_with r) True s))"

datatype VerifierOutcome = Verified bool | Verifier_threw string

definition after_verify :: "nat \<Rightarrow> ChildRuntimeResult \<Rightarrow> VerifierOutcome \<Rightarrow> Manager \<Rightarrow> Manager" where
  "after_verify i r v s =
     (case v of
        Verified True \<Rightarrow> finish_sync i (completed_with r) True s
      | Verified False \<Rightarrow> finish_sync i (failed_with ''result verification failed'') False s
      | Verifier_threw x \<Rightarrow> finish_sync i (failed_with (''verifier error: '' @ x)) False s)"

fun join_errors :: "string list \<Rightarrow> string" where
  "join_errors [] = []"
| "join_errors [x] = x"
| "join_errors (x # xs) = x @ ''; '' @ join_errors xs"

definition settled_result :: "DelegationResult \<Rightarrow> bool \<Rightarrow> string option \<Rightarrow> string option \<Rightarrow> DelegationResult" where
  "settled_result r announce announceError archiveError =
     (let errors = (if announce then (case announceError of None \<Rightarrow> [] | Some x \<Rightarrow> [x]) else []) @
            (case archiveError of None \<Rightarrow> [] | Some x \<Rightarrow> [x])
      in r\<lparr> dr_announced := announce \<and> announceError = None, dr_archived := archiveError = None,
            dr_error := (if errors = [] then dr_error r
              else Some (join_errors (filter (\<lambda>x. x \<noteq> []) ((case dr_error r of None \<Rightarrow> [] | Some x \<Rightarrow> [x]) @ errors)))) \<rparr>)"

text \<open>The rest of \<open>#finish\<close> after its hooks, and the \<open>finally\<close> of \<open>#run\<close> when the entry was running.\<close>

definition after_hooks :: "DelegationConfig \<Rightarrow> nat \<Rightarrow> string option \<Rightarrow> string option \<Rightarrow> Manager \<Rightarrow> Manager" where
  "after_hooks c i announceError archiveError s =
     (case en_phase (dm_entries s ! i) of
        Ph_hooks r announce \<Rightarrow>
          (let s1 = upd i (\<lambda>e. e\<lparr> en_phase := Ph_done (settled_result r announce announceError archiveError), en_running := False \<rparr>) s
           in if en_running (dm_entries s ! i) then drain c (s1\<lparr> dm_active := dm_active s - 1 \<rparr>) else s1)
      | _ \<Rightarrow> s)"

section \<open>Dispatch\<close>

definition find_entry :: "string \<Rightarrow> Manager \<Rightarrow> Entry option" where
  "find_entry sid s = List.find (\<lambda>e. entry_id e = sid) (dm_entries s)"

definition authorizeDispatch :: "DelegationConfig \<Rightarrow> (string \<Rightarrow> string \<Rightarrow> string \<Rightarrow> bool) option \<Rightarrow> string \<Rightarrow> string \<Rightarrow> Manager \<Rightarrow> bool" where
  "authorizeDispatch c enforcer sid capability s =
     (case find_entry sid s of None \<Rightarrow> False
      | Some e \<Rightarrow> capability \<in> set (en_capabilities e) \<and> capability \<in> set (dc_allowed c) \<and>
          (case enforcer of None \<Rightarrow> True | Some f \<Rightarrow> f capability sid (en_parent e)))"

section \<open>Steps\<close>

inductive dstep :: "DelegationConfig \<Rightarrow> Manager \<Rightarrow> Manager \<Rightarrow> bool" for c where
  do_spawn: "dstep c s (snd (spawn c q s))"
| do_microtask: "0 < dm_microtasks s \<Longrightarrow> dstep c s (drain c (s\<lparr> dm_microtasks := dm_microtasks s - 1 \<rparr>))"
| do_cancel: "i < length (dm_entries s) \<Longrightarrow> dstep c s (cancel_entry i reason s)"
| do_cancelParent: "dstep c s (cancelParent parent reason s)"
| do_deadline: "i < length (dm_entries s) \<Longrightarrow> en_running (dm_entries s ! i) \<Longrightarrow> dstep c s (abort_entry i ''deadline exceeded'' s)"
| do_race: "i < length (dm_entries s) \<Longrightarrow> en_phase (dm_entries s ! i) = Ph_run \<Longrightarrow> dstep c s (after_race c i out s)"
| do_verify: "i < length (dm_entries s) \<Longrightarrow> en_phase (dm_entries s ! i) = Ph_verify r \<Longrightarrow> dstep c s (after_verify i r v s)"
| do_hooks: "i < length (dm_entries s) \<Longrightarrow> en_phase (dm_entries s ! i) = Ph_hooks r ann \<Longrightarrow> dstep c s (after_hooks c i ea er s)"

inductive dreachable :: "DelegationConfig \<Rightarrow> Manager \<Rightarrow> bool" where
  fresh: "new_manager limits capabilities verifies = Inr (c, s) \<Longrightarrow> dreachable c s"
| step: "dreachable c s \<Longrightarrow> dstep c s s' \<Longrightarrow> dreachable c s'"

inductive_cases dstepE: "dstep c s s'"

end
