(* ===== verification/DelegationSafety.thy ===== *)
theory DelegationSafety
  imports Delegation
begin

text \<open>
  What every history of the delegation manager keeps: its counters are the numbers they stand for and within the
  limits, the queue holds exactly the queued children and does not wait while a slot is free, settled children
  stay settled, and a completed child was within its budget. And three things it does not do: cancel the live
  children of a settled one, look at a cancellation while a result is verified, refuse dispatch after settling.
\<close>

section \<open>Invariant\<close>

definition within_budget :: "DelegationConfig \<Rightarrow> ChildRuntimeResult \<Rightarrow> bool" where
  "within_budget c r \<longleftrightarrow> valid_result (Some r) \<and> \<not> js_gt (cr_iterations r) (dl_maxIterations (dc_limits c)) \<and>
     \<not> js_gt (cr_costUsd r) (dl_maxCostUsd (dc_limits c))"

definition result_ok :: "DelegationConfig \<Rightarrow> DelegationResult \<Rightarrow> bool" where
  "result_ok c r \<longleftrightarrow> terminal (dr_status r) \<and>
     (dr_status r = Dl_completed \<longrightarrow> (case dr_run r of None \<Rightarrow> False | Some x \<Rightarrow> within_budget c x))"

definition entry_ok :: "DelegationConfig \<Rightarrow> Entry \<Rightarrow> bool" where
  "entry_ok c e \<longleftrightarrow>
     en_capabilities e \<noteq> [] \<and> set (en_capabilities e) \<subseteq> set (dc_allowed c) \<and> \<not> js_gt (JNum (of_int (en_depth e))) (dl_maxDepth (dc_limits c)) \<and>
     en_counted e = (\<not> en_settled e) \<and>
     (case en_phase e of
        Ph_queued \<Rightarrow> en_status e = Dl_queued \<and> \<not> en_settled e \<and> \<not> en_running e
      | Ph_run \<Rightarrow> en_status e = Dl_running \<and> \<not> en_settled e \<and> en_running e
      | Ph_verify r \<Rightarrow> en_status e = Dl_running \<and> \<not> en_settled e \<and> en_running e \<and> within_budget c r
      | Ph_hooks r ann \<Rightarrow> en_status e = dr_status r \<and> en_settled e \<and> result_ok c r
      | Ph_done r \<Rightarrow> en_status e = dr_status r \<and> en_settled e \<and> \<not> en_running e \<and> result_ok c r)"

definition tally :: "(Entry \<Rightarrow> bool) \<Rightarrow> Manager \<Rightarrow> int" where
  "tally P s = int (length (filter P (dm_entries s)))"

definition child_count :: "Manager \<Rightarrow> string \<Rightarrow> int" where
  "child_count s p = (case dm_counts s p of None \<Rightarrow> 0 | Some n \<Rightarrow> n)"

text \<open>A counter \<open>n\<close> that is only raised while it is below the limit \<open>q\<close>.\<close>

definition below :: "int \<Rightarrow> jsnum \<Rightarrow> bool" where
  "below n q \<longleftrightarrow> n \<le> 0 \<or> js_lt (JNum (of_int (n - 1))) q"

definition queue_ok :: "Manager \<Rightarrow> bool" where
  "queue_ok s \<longleftrightarrow> distinct (dm_queue s) \<and> set (dm_queue s) = {i. i < length (dm_entries s) \<and> en_status (dm_entries s ! i) = Dl_queued}"

definition numbered :: "Manager \<Rightarrow> bool" where
  "numbered s \<longleftrightarrow> dm_sequence s = length (dm_entries s) \<and> (\<forall>i < length (dm_entries s). en_seq (dm_entries s ! i) = Suc i)"

definition counters_ok :: "DelegationConfig \<Rightarrow> Manager \<Rightarrow> bool" where
  "counters_ok c s \<longleftrightarrow> dm_active s = tally en_running s \<and> below (dm_active s) (dl_concurrency (dc_limits c)) \<and>
     (\<forall>p. child_count s p = tally (\<lambda>e. en_parent e = p \<and> en_counted e) s \<and> below (child_count s p) (dl_maxChildren (dc_limits c)))"

definition busy :: "DelegationConfig \<Rightarrow> Manager \<Rightarrow> bool" where
  "busy c s \<longleftrightarrow> dm_queue s = [] \<or> \<not> js_lt (JNum (of_int (dm_active s))) (dl_concurrency (dc_limits c))"

definition manager_core :: "DelegationConfig \<Rightarrow> Manager \<Rightarrow> bool" where
  "manager_core c s \<longleftrightarrow> list_all (entry_ok c) (dm_entries s) \<and> queue_ok s \<and> numbered s \<and> counters_ok c s"

definition manager_ok :: "DelegationConfig \<Rightarrow> Manager \<Rightarrow> bool" where
  "manager_ok c s \<longleftrightarrow> manager_core c s \<and> (dm_microtasks s = 0 \<longrightarrow> busy c s)"

section \<open>Updates\<close>

lemma upd_simps [simp]:
  "dm_queue (upd i f s) = dm_queue s" "dm_counts (upd i f s) = dm_counts s" "dm_active (upd i f s) = dm_active s"
  "dm_sequence (upd i f s) = dm_sequence s" "dm_microtasks (upd i f s) = dm_microtasks s"
  "length (dm_entries (upd i f s)) = length (dm_entries s)"
  "dm_entries (upd i f s) = (dm_entries s)[i := f (dm_entries s ! i)]"
  by (simp_all add: upd_def)

lemma tally_upd: "i < length (dm_entries s) \<Longrightarrow> tally P (upd i f s) = tally P s - of_bool (P (dm_entries s ! i)) + of_bool (P (f (dm_entries s ! i)))"
  by (simp add: tally_def filter_update_length)

lemma child_count_upd [simp]: "child_count (upd i f s) = child_count s"
  by (rule ext) (simp add: child_count_def)

lemma tally_pos: "i < length (dm_entries s) \<Longrightarrow> P (dm_entries s ! i) \<Longrightarrow> 1 \<le> tally P s"
proof -
  assume "i < length (dm_entries s)" "P (dm_entries s ! i)"
  then have "filter P (dm_entries s) \<noteq> []" by (auto simp: filter_empty_conv intro: nth_mem)
  then show ?thesis unfolding tally_def by (cases "filter P (dm_entries s)") simp_all
qed

lemma below_down: "below n q \<Longrightarrow> m \<le> n \<Longrightarrow> below m q"
  unfolding below_def by (cases q) (auto intro: le_less_trans [rotated])

lemma list_all_upd: "list_all P xs \<Longrightarrow> P y \<Longrightarrow> list_all P (xs[i := y])"
  by (auto simp: list_all_iff dest!: subsetD [OF set_update_subset_insert])

lemma core_entry: "manager_core c s \<Longrightarrow> i < length (dm_entries s) \<Longrightarrow> entry_ok c (dm_entries s ! i)"
  by (simp add: manager_core_def list_all_length)

lemma core_counts:
  assumes "manager_core c s"
  shows "child_count s p = tally (\<lambda>e. en_parent e = p \<and> en_counted e) s" "below (child_count s p) (dl_maxChildren (dc_limits c))"
    "dm_active s = tally en_running s" "below (dm_active s) (dl_concurrency (dc_limits c))"
  using assms unfolding manager_core_def counters_ok_def by blast+

lemma queue_upd:
  assumes q: "queue_ok s" and i: "i < length (dm_entries s)" and s': "dm_entries s' = (dm_entries s)[i := y]"
    "dm_queue s' = remove1 i (dm_queue s)" and y: "en_status y \<noteq> Dl_queued"
  shows "queue_ok s'"
proof -
  have "set (dm_queue s') = set (dm_queue s) - {i}" using q s'(2) by (simp add: queue_ok_def set_remove1_eq)
  also have "\<dots> = {j. j < length (dm_entries s') \<and> en_status (dm_entries s' ! j) = Dl_queued}"
    using q i y unfolding s'(1) queue_ok_def by (auto simp: nth_list_update split: if_splits)
  finally show ?thesis using q s'(2) by (simp add: queue_ok_def distinct_remove1)
qed

lemma numbered_upd:
  assumes "numbered s" "dm_entries s' = (dm_entries s)[i := y]" "en_seq y = en_seq (dm_entries s ! i)" "dm_sequence s' = dm_sequence s"
  shows "numbered s'"
proof -
  have "en_seq (dm_entries s' ! j) = en_seq (dm_entries s ! j)" if "j < length (dm_entries s)" for j
    using that assms(2,3) by (cases "i = j") simp_all
  then show ?thesis using assms by (simp add: numbered_def)
qed

lemma core_parts: "manager_core c s \<Longrightarrow> queue_ok s" "manager_core c s \<Longrightarrow> numbered s"
  "manager_core c s \<Longrightarrow> list_all (entry_ok c) (dm_entries s)"
  by (simp_all add: manager_core_def)

text \<open>A change of an entry that keeps what the counters and the queue depend on.\<close>

lemma core_upd_same:
  fixes s i
  defines "e \<equiv> dm_entries s ! i"
  assumes core: "manager_core c s" and i: "i < length (dm_entries s)" and ok: "entry_ok c (f e)"
    and same: "en_parent (f e) = en_parent e" "en_seq (f e) = en_seq e" "en_status (f e) = en_status e"
      "en_counted (f e) = en_counted e" "en_running (f e) = en_running e"
  shows "manager_core c (upd i f s)"
proof -
  have t: "tally P (upd i f s) = tally P s" if "P (f e) = P e" for P
    using tally_upd [OF i, of P f] that by (simp add: e_def)
  have get: "g (dm_entries (upd i f s) ! j) = g (dm_entries s ! j)" if "g (f e) = g e" "j < length (dm_entries s)" for g :: "Entry \<Rightarrow> 'x" and j
    using that by (cases "i = j") (simp_all add: e_def)
  have "queue_ok (upd i f s)"
    using core get [of en_status] same(3) by (simp add: manager_core_def queue_ok_def cong: conj_cong)
  moreover have "numbered (upd i f s)" using core get [of en_seq] same(2) by (simp add: manager_core_def numbered_def)
  moreover have "counters_ok c (upd i f s)"
    unfolding counters_ok_def child_count_upd t [OF same(5)] upd_simps
    using core_counts [OF core] t [of "\<lambda>e. en_parent e = q \<and> en_counted e" for q] same(1,4) by auto
  moreover have "list_all (entry_ok c) (dm_entries (upd i f s))"
    using core ok by (simp add: manager_core_def list_all_upd e_def)
  ultimately show ?thesis by (simp add: manager_core_def)
qed

lemma abort_core: "manager_core c s \<Longrightarrow> i < length (dm_entries s) \<Longrightarrow> manager_core c (abort_entry i r s)"
  unfolding abort_entry_def
  by (rule core_upd_same) (use core_entry [of c s i] in \<open>auto simp: entry_ok_def split: Phase.splits\<close>)

lemma uncount_count: "child_count (uncount p s) q = (if q = p then max 0 ((case dm_counts s p of None \<Rightarrow> 1 | Some n \<Rightarrow> n) - 1) else child_count s q)"
  by (simp add: uncount_def child_count_def)

lemma uncount_simps [simp]: "dm_entries (uncount p s) = dm_entries s" "dm_queue (uncount p s) = dm_queue s"
  "dm_active (uncount p s) = dm_active s" "dm_sequence (uncount p s) = dm_sequence s" "dm_microtasks (uncount p s) = dm_microtasks s"
  by (simp_all add: uncount_def)

lemma entry_unsettled: "entry_ok c e \<Longrightarrow> \<not> en_settled e \<longleftrightarrow> en_status e = Dl_queued \<or> en_status e = Dl_running"
  by (cases "en_phase e"; cases "en_status e") (auto simp: entry_ok_def result_ok_def)

lemma entry_phase_unsettled: "entry_ok c e \<Longrightarrow> \<not> en_settled e \<longleftrightarrow> en_phase e = Ph_queued \<or> en_phase e = Ph_run \<or> (\<exists>r. en_phase e = Ph_verify r)"
  by (cases "en_phase e") (auto simp: entry_ok_def)

text \<open>Settling a counted entry: its parent's counter and the tallies go down by one, the queue loses it if it waited.\<close>

lemma finish_core:
  assumes core: "manager_core c s" and i: "i < length (dm_entries s)" and live: "\<not> en_settled (dm_entries s ! i)"
    and r: "result_ok c r" "dr_status r \<noteq> Dl_queued"
  shows "manager_core c ((finish_sync i r ann s)\<lparr> dm_queue := remove1 i (dm_queue s) \<rparr>)"
proof -
  let ?e = "dm_entries s ! i"
  let ?f = "\<lambda>e. e\<lparr> en_settled := True, en_status := dr_status r, en_counted := False, en_phase := Ph_hooks r ann \<rparr>"
  let ?s = "(finish_sync i r ann s)\<lparr> dm_queue := remove1 i (dm_queue s) \<rparr>"
  have ok: "entry_ok c ?e" by (rule core_entry [OF core i])
  then have counted: "en_counted ?e" using live by (simp add: entry_ok_def)
  then have fin: "finish_sync i r ann s = upd i ?f (uncount (en_parent ?e) s)" using live by (simp add: finish_sync_def Let_def)
  then have entries: "dm_entries ?s = (dm_entries s)[i := ?f ?e]" by simp
  have t: "tally P ?s = tally P s - of_bool (P ?e) + of_bool (P (?f ?e))" for P
    using tally_upd [OF i, of P ?f] entries by (simp add: tally_def)
  have count: "child_count ?s p = tally (\<lambda>e. en_parent e = p \<and> en_counted e) ?s" for p
  proof (cases "p = en_parent ?e")
    case True
    have "child_count s p = tally (\<lambda>e. en_parent e = p \<and> en_counted e) s" using core by (simp add: manager_core_def counters_ok_def)
    moreover have pos: "1 \<le> tally (\<lambda>e. en_parent e = p \<and> en_counted e) s" using i True counted by (intro tally_pos) simp_all
    ultimately obtain n where "dm_counts s p = Some n" "1 \<le> n" by (cases "dm_counts s p") (auto simp: child_count_def)
    then have "child_count ?s p = child_count s p - 1"
      using True by (simp add: fin child_count_def uncount_def)
    then show ?thesis using core t [of "\<lambda>e. en_parent e = p \<and> en_counted e"] True counted by (simp add: manager_core_def counters_ok_def)
  next
    case False
    then have "child_count ?s p = child_count s p" by (simp add: fin child_count_def uncount_def)
    then show ?thesis using core t [of "\<lambda>e. en_parent e = p \<and> en_counted e"] False by (auto simp: manager_core_def counters_ok_def)
  qed
  have "below (child_count ?s p) (dl_maxChildren (dc_limits c))" for p
  proof -
    have "child_count ?s p \<le> child_count s p"
      using count [of p] t [of "\<lambda>e. en_parent e = p \<and> en_counted e"] core_counts(1) [OF core] by simp
    then show ?thesis by (rule below_down [OF core_counts(2) [OF core]])
  qed
  moreover have "dm_active ?s = tally en_running ?s \<and> below (dm_active ?s) (dl_concurrency (dc_limits c))"
    using core_counts(3,4) [OF core] t [of en_running] by (simp add: fin)
  ultimately have "counters_ok c ?s" using count unfolding counters_ok_def by blast
  moreover have "queue_ok ?s" using core_parts(1) [OF core] i entries by (rule queue_upd) (use r(2) in simp_all)
  moreover have "numbered ?s" using core_parts(2) [OF core] entries by (rule numbered_upd) (simp_all add: fin)
  moreover have "list_all (entry_ok c) (dm_entries ?s)"
    unfolding entries using ok r(1) by (intro list_all_upd core_parts(3) [OF core]) (simp add: entry_ok_def)
  ultimately show ?thesis by (simp add: manager_core_def)
qed

lemma finish_running_core:
  assumes "manager_core c s" "i < length (dm_entries s)" "en_phase (dm_entries s ! i) = Ph_run \<or> (\<exists>r. en_phase (dm_entries s ! i) = Ph_verify r)"
    and "result_ok c r" "dr_status r \<noteq> Dl_queued"
  shows "manager_core c (finish_sync i r ann s)"
proof -
  have st: "\<not> en_settled (dm_entries s ! i)" "en_status (dm_entries s ! i) = Dl_running"
    using core_entry [OF assms(1,2)] assms(3) by (auto simp: entry_ok_def)
  then have "i \<notin> set (dm_queue s)" using assms(1) by (auto simp: manager_core_def queue_ok_def)
  then have "remove1 i (dm_queue s) = dm_queue (finish_sync i r ann s)"
    by (simp add: finish_sync_def Let_def remove1_idem)
  then show ?thesis using finish_core [OF assms(1,2) st(1) assms(4,5), of ann] by simp
qed

lemma result_ok_simps [simp]: "result_ok c (failed_with x)" "result_ok c (cancelled_with x)"
  "dr_status (failed_with x) = Dl_failed" "dr_status (cancelled_with x) = Dl_cancelled" "dr_status (completed_with r) = Dl_completed"
  "result_ok c (completed_with r) \<longleftrightarrow> within_budget c r"
  by (simp_all add: result_ok_def failed_with_def cancelled_with_def completed_with_def)

lemma after_race_core:
  assumes "manager_core c s" "i < length (dm_entries s)" "en_phase (dm_entries s ! i) = Ph_run"
  shows "manager_core c (after_race c i out s)"
proof -
  have fin: "manager_core c (finish_sync i r ann s)" if "result_ok c r" "dr_status r \<noteq> Dl_queued" for r ann
    using finish_running_core [OF assms(1,2) _ that] assms(3) by blast
  have ver: "manager_core c (upd i (\<lambda>e. e\<lparr> en_phase := Ph_verify r \<rparr>) s)" if "within_budget c r" for r
    by (rule core_upd_same [OF assms(1,2)]) (use core_entry [OF assms(1,2)] assms(3) that in \<open>auto simp: entry_ok_def\<close>)
  show ?thesis
    unfolding after_race_def Let_def
    by (auto split: option.split RunOutcome.split intro!: fin ver) (auto simp: within_budget_def valid_result_def split: option.splits)
qed

lemma after_verify_core:
  assumes "manager_core c s" "i < length (dm_entries s)" "en_phase (dm_entries s ! i) = Ph_verify r"
  shows "manager_core c (after_verify i r v s)"
proof -
  have fin: "manager_core c (finish_sync i x ann s)" if "result_ok c x" "dr_status x \<noteq> Dl_queued" for x ann
    using finish_running_core [OF assms(1,2) _ that] assms(3) by blast
  have "within_budget c r" using core_entry [OF assms(1,2)] assms(3) by (simp add: entry_ok_def)
  then show ?thesis unfolding after_verify_def by (auto split: VerifierOutcome.split bool.split intro!: fin)
qed

lemma cancel_core:
  assumes "manager_core c s" "i < length (dm_entries s)"
  shows "manager_core c (cancel_entry i reason s)"
proof -
  let ?s = "abort_entry i reason s"
  have core: "manager_core c ?s" using assms by (rule abort_core)
  have q: "dm_queue ?s = dm_queue s" "length (dm_entries ?s) = length (dm_entries s)"
    "en_settled (dm_entries ?s ! i) = en_settled (dm_entries s ! i)"
    using assms(2) by (simp_all add: abort_entry_def)
  have fin: "finish_sync i r ann (x\<lparr> dm_queue := ks \<rparr>) = (finish_sync i r ann x)\<lparr> dm_queue := ks \<rparr>" for r ann x ks
    by (simp add: finish_sync_def Let_def upd_def uncount_def)
  show ?thesis
  proof (cases "en_status (dm_entries s ! i) = Dl_queued")
    case True
    then have "\<not> en_settled (dm_entries ?s ! i)" using entry_unsettled [OF core_entry [OF assms]] q by simp
    then have "manager_core c ((finish_sync i (cancelled_with reason) False ?s)\<lparr> dm_queue := remove1 i (dm_queue ?s) \<rparr>)"
      using assms(2) q by (intro finish_core [OF core]) simp_all
    then show ?thesis using True by (simp add: cancel_entry_def fin Let_def)
  next
    case False
    then show ?thesis using core assms by (simp add: cancel_entry_def Let_def)
  qed
qed

section \<open>Steps\<close>

lemma finish_sync_simps [simp]: "length (dm_entries (finish_sync i r ann s)) = length (dm_entries s)"
  "dm_microtasks (finish_sync i r ann s) = dm_microtasks s" "dm_active (finish_sync i r ann s) = dm_active s"
  "dm_queue (finish_sync i r ann s) = dm_queue s" "dm_sequence (finish_sync i r ann s) = dm_sequence s"
  by (simp_all add: finish_sync_def Let_def)

lemma abort_simps [simp]: "length (dm_entries (abort_entry i r s)) = length (dm_entries s)"
  "dm_microtasks (abort_entry i r s) = dm_microtasks s" "dm_active (abort_entry i r s) = dm_active s"
  "dm_queue (abort_entry i r s) = dm_queue s"
  by (simp_all add: abort_entry_def)

lemma cancel_simps [simp]: "length (dm_entries (cancel_entry i r s)) = length (dm_entries s)"
  "dm_microtasks (cancel_entry i r s) = dm_microtasks s" "dm_active (cancel_entry i r s) = dm_active s"
  by (simp_all add: cancel_entry_def Let_def)

text \<open>Whatever \<open>cancel_entry\<close> keeps, the whole descent keeps.\<close>

lemma cancel_tree_keeps:
  assumes step: "\<And>k r s. k < n \<Longrightarrow> Q s \<Longrightarrow> Q (cancel_entry k r s)"
  shows "length es = n \<Longrightarrow> Q s \<Longrightarrow> Q (cancel_tree reason es parent ks s)"
proof (induction reason es parent ks s rule: cancel_tree.induct)
  case (2 reason es parent k ks s)
  show ?case
  proof (cases "k < length es \<and> en_parent (es ! k) = parent \<and> \<not> terminal (en_status (dm_entries s ! k))")
    case True
    then show ?thesis using 2 step by simp
  next
    case False
    then show ?thesis using 2(2) 2(3,4) by (simp only: cancel_tree.simps if_False)
  qed
qed simp

lemma cancelParent_core:
  assumes "manager_core c s"
  shows "manager_core c (cancelParent parent reason s)" "dm_microtasks (cancelParent parent reason s) = dm_microtasks s"
    "length (dm_entries (cancelParent parent reason s)) = length (dm_entries s)"
proof -
  have "manager_core c (cancelParent parent reason s) \<and> dm_microtasks (cancelParent parent reason s) = dm_microtasks s \<and>
    length (dm_entries (cancelParent parent reason s)) = length (dm_entries s)"
    unfolding cancelParent_def
    by (rule cancel_tree_keeps [where n = "length (dm_entries s)"]) (use assms cancel_core in \<open>auto\<close>)
  then show "manager_core c (cancelParent parent reason s)" "dm_microtasks (cancelParent parent reason s) = dm_microtasks s"
    "length (dm_entries (cancelParent parent reason s)) = length (dm_entries s)" by simp_all
qed

lemma start_run_core:
  assumes core: "manager_core c s" and i: "dm_queue s = i # q"
    and slot: "js_lt (JNum (of_int (dm_active s))) (dl_concurrency (dc_limits c))"
  shows "manager_core c ((start_run i s)\<lparr> dm_queue := q \<rparr>)"
proof -
  let ?e = "dm_entries s ! i"
  let ?f = "\<lambda>e. e\<lparr> en_status := Dl_running, en_running := True, en_phase := Ph_run \<rparr>"
  let ?s = "(start_run i s)\<lparr> dm_queue := q \<rparr>"
  have queued: "i < length (dm_entries s)" "en_status ?e = Dl_queued" "i \<notin> set q" "distinct q"
    using core i by (auto simp: manager_core_def queue_ok_def)
  have ok: "entry_ok c ?e" by (rule core_entry [OF core queued(1)])
  then have idle: "\<not> en_running ?e" "en_counted ?e" "\<not> en_settled ?e"
    using queued(2) by (auto simp: entry_ok_def result_ok_def split: Phase.splits)
  have entries: "dm_entries ?s = (dm_entries s)[i := ?f ?e]" by (simp add: start_run_def)
  have t: "tally P ?s = tally P s - of_bool (P ?e) + of_bool (P (?f ?e))" for P
    using tally_upd [OF queued(1), of P ?f] entries by (simp add: tally_def)
  have cc: "child_count ?s p = child_count s p" for p by (simp add: child_count_def start_run_def)
  have "counters_ok c ?s"
    unfolding counters_ok_def cc t using core_counts [OF core] slot idle
    by (auto simp: start_run_def below_def)
  moreover have "queue_ok ?s" using core_parts(1) [OF core] queued(1) entries by (rule queue_upd) (simp_all add: i)
  moreover have "numbered ?s" using core_parts(2) [OF core] entries by (rule numbered_upd) (simp_all add: start_run_def)
  moreover have "list_all (entry_ok c) (dm_entries ?s)"
    unfolding entries using ok idle by (intro list_all_upd core_parts(3) [OF core]) (simp add: entry_ok_def)
  ultimately show ?thesis by (simp add: manager_core_def)
qed

lemma drain_loop_core:
  "manager_core c s \<Longrightarrow> dm_queue s = q \<Longrightarrow> manager_core c (drain_loop c q s) \<and> busy c (drain_loop c q s) \<and>
     dm_microtasks (drain_loop c q s) = dm_microtasks s \<and> length (dm_entries (drain_loop c q s)) = length (dm_entries s)"
proof (induction c q s rule: drain_loop.induct)
  case (1 c s)
  then show ?case by (simp add: busy_def)
next
  case (2 c i q s)
  show ?case
  proof (cases "js_lt (JNum (of_int (dm_active s))) (dl_concurrency (dc_limits c))")
    case True
    have "en_status (dm_entries s ! i) = Dl_queued" using 2(2,3) by (auto simp: manager_core_def queue_ok_def)
    then show ?thesis using 2(1) [OF True] start_run_core [OF 2(2,3) True] True by (simp add: start_run_def)
  next
    case False
    then show ?thesis using 2(2,3) by (simp add: busy_def)
  qed
qed

lemma drain_core: "manager_core c s \<Longrightarrow> manager_core c (drain c s) \<and> busy c (drain c s) \<and>
    dm_microtasks (drain c s) = dm_microtasks s \<and> length (dm_entries (drain c s)) = length (dm_entries s)"
  unfolding drain_def by (rule drain_loop_core) simp_all

lemma manager_okI: "manager_core c s \<Longrightarrow> (dm_microtasks s = 0 \<Longrightarrow> busy c s) \<Longrightarrow> manager_ok c s"
  by (simp add: manager_ok_def)

lemma hooks_ok:
  assumes ok: "manager_ok c s" and i: "i < length (dm_entries s)" "en_phase (dm_entries s ! i) = Ph_hooks r ann"
  shows "manager_ok c (after_hooks c i ea er s)"
proof -
  let ?e = "dm_entries s ! i"
  let ?r = "settled_result r ann ea er"
  let ?f = "\<lambda>e. e\<lparr> en_phase := Ph_done ?r, en_running := False \<rparr>"
  have core: "manager_core c s" using ok by (simp add: manager_ok_def)
  have e: "entry_ok c ?e" by (rule core_entry [OF core i(1)])
  have fine: "entry_ok c (?f ?e)"
    using e i(2) by (auto simp: entry_ok_def result_ok_def settled_result_def Let_def)
  show ?thesis
  proof (cases "en_running ?e")
    case True
    let ?s = "(upd i ?f s)\<lparr> dm_active := dm_active s - 1 \<rparr>"
    have t: "tally P ?s = tally P s - of_bool (P ?e) + of_bool (P (?f ?e))" for P
      using tally_upd [OF i(1), of P ?f] by (simp add: tally_def)
    have cc: "child_count ?s p = child_count s p" for p by (simp add: child_count_def)
    have counters: "counters_ok c ?s"
      unfolding counters_ok_def cc t using core_counts [OF core] True below_down [OF core_counts(4) [OF core], of "dm_active s - 1"] by auto
    have settled: "en_status ?e \<noteq> Dl_queued" using e i(2) by (auto simp: entry_ok_def result_ok_def)
    then have "i \<notin> set (dm_queue s)" using core_parts(1) [OF core] by (simp add: queue_ok_def)
    then have "queue_ok ?s"
      by (intro queue_upd [OF core_parts(1) [OF core] i(1), where y = "?f ?e" and s' = ?s]) (use settled in \<open>simp_all add: remove1_idem\<close>)
    moreover have "numbered ?s" by (rule numbered_upd [OF core_parts(2) [OF core], where i = i and y = "?f ?e"]) simp_all
    moreover have "list_all (entry_ok c) (dm_entries ?s)" using fine core_parts(3) [OF core] by (simp add: list_all_upd)
    ultimately have "manager_core c ?s" using counters by (simp add: manager_core_def)
    then show ?thesis using drain_core True i(2) by (auto simp: after_hooks_def Let_def manager_ok_def)
  next
    case False
    have "manager_core c (upd i ?f s)" by (rule core_upd_same [OF core i(1), where f = ?f, OF fine]) (use False in simp_all)
    then show ?thesis using ok False i(2) by (auto simp: after_hooks_def Let_def manager_ok_def busy_def)
  qed
qed


lemma tally_append: "dm_entries s' = dm_entries s @ [e] \<Longrightarrow> tally P s' = tally P s + of_bool (P e)"
  by (simp add: tally_def)

definition config_ok :: "DelegationConfig \<Rightarrow> bool" where
  "config_ok c \<longleftrightarrow> limit_valid (dl_maxDepth (dc_limits c)) \<and> limit_valid (dl_maxChildren (dc_limits c)) \<and> limit_valid (dl_concurrency (dc_limits c))"

lemma config_numbers:
  "config_ok c \<Longrightarrow> \<exists>q. dl_maxChildren (dc_limits c) = JNum q"
  by (auto simp: config_ok_def limit_valid_def js_isFinite_JNum)

lemma queue_append:
  assumes q: "queue_ok s" and s': "dm_entries s' = dm_entries s @ [e]" "dm_queue s' = dm_queue s @ [length (dm_entries s)]"
    and e: "en_status e = Dl_queued"
  shows "queue_ok s'"
proof -
  have "{i. i < length (dm_entries s') \<and> en_status (dm_entries s' ! i) = Dl_queued} =
      insert (length (dm_entries s)) {i. i < length (dm_entries s) \<and> en_status (dm_entries s ! i) = Dl_queued}"
    using e unfolding s' by (auto simp: nth_append)
  then show ?thesis using q s'(2) by (simp add: queue_ok_def)
qed

lemma numbered_append:
  "numbered s \<Longrightarrow> dm_entries s' = dm_entries s @ [e] \<Longrightarrow> en_seq e = dm_sequence s + 1 \<Longrightarrow> dm_sequence s' = dm_sequence s + 1 \<Longrightarrow> numbered s'"
  by (auto simp: numbered_def nth_append less_Suc_eq)

lemma spawn_core:
  assumes conf: "config_ok c" and core: "manager_core c s"
  shows "manager_core c (snd (spawn c q s)) \<and> (snd (spawn c q s) = s \<or> 0 < dm_microtasks (snd (spawn c q s)))"
proof (cases "fst (spawn c q s)")
  case (Inl x)
  then have "snd (spawn c q s) = s" by (simp add: spawn_def Let_def split: if_splits)
  then show ?thesis using core by simp
next
  case (Inr n)
  define p where "p = sr_parentSessionId q"
  define caps where "caps = filter (\<lambda>x. x \<in> set (sr_parentCapabilities q) \<and> x \<in> set (dc_allowed c)) (sr_requestedCapabilities q)"
  define depth where "depth = (case sr_depth q of None \<Rightarrow> 0 | Some d \<Rightarrow> d) + 1"
  define e where "e = \<lparr> en_parent = p, en_seq = dm_sequence s + 1, en_depth = depth, en_capabilities = caps,
    en_status = Dl_queued, en_aborted = None, en_settled = False, en_counted = True, en_running = False, en_phase = Ph_queued \<rparr>"
  let ?s = "s\<lparr> dm_sequence := dm_sequence s + 1, dm_entries := dm_entries s @ [e], dm_counts := (dm_counts s)(p \<mapsto> child_count s p + 1),
     dm_queue := dm_queue s @ [length (dm_entries s)], dm_microtasks := dm_microtasks s + 1 \<rparr>"
  have guards: "\<not> js_gt (JNum (of_int depth)) (dl_maxDepth (dc_limits c))" "\<not> js_ge (JNum (of_int (child_count s p))) (dl_maxChildren (dc_limits c))"
      "caps \<noteq> []" and s': "snd (spawn c q s) = ?s"
    using Inr unfolding spawn_def Let_def p_def caps_def depth_def child_count_def e_def by (simp_all split: if_splits)
  obtain m where m: "dl_maxChildren (dc_limits c) = JNum m" using config_numbers [OF conf] by blast
  have ok: "entry_ok c e" using guards by (auto simp: entry_ok_def e_def caps_def)
  have t: "tally P ?s = tally P s + of_bool (P e)" for P by (rule tally_append) simp
  have cc: "child_count ?s x = (if x = p then child_count s p + 1 else child_count s x)" for x by (simp add: child_count_def)
  have "counters_ok c ?s"
    unfolding counters_ok_def cc t using core_counts [OF core] guards(2) m by (simp add: e_def below_def)
  moreover have "queue_ok ?s" using core_parts(1) [OF core] by (rule queue_append [where e = e]) (simp_all add: e_def)
  moreover have "numbered ?s" using core_parts(2) [OF core] by (rule numbered_append [where e = e]) (simp_all add: e_def)
  moreover have "list_all (entry_ok c) (dm_entries ?s)" using core_parts(3) [OF core] ok by simp
  ultimately show ?thesis unfolding s' by (simp add: manager_core_def)
qed

lemma busy_remove: "busy c s \<Longrightarrow> dm_active s' = dm_active s \<Longrightarrow> dm_queue s' = dm_queue s \<or> dm_queue s' = remove1 i (dm_queue s) \<Longrightarrow> busy c s'"
  by (auto simp: busy_def)

lemma cancel_queue: "dm_queue (cancel_entry i r s) = dm_queue s \<or> dm_queue (cancel_entry i r s) = remove1 i (dm_queue s)"
  by (simp add: cancel_entry_def Let_def)

lemma cancel_busy: "busy c s \<Longrightarrow> busy c (cancel_entry i r s)"
  by (rule busy_remove [OF _ _ cancel_queue]) simp_all

lemma cancelParent_busy: "busy c s \<Longrightarrow> busy c (cancelParent parent reason s)"
  unfolding cancelParent_def by (rule cancel_tree_keeps [where n = "length (dm_entries s)"]) (simp_all add: cancel_busy)

lemma busy_cong: "dm_queue s' = dm_queue s \<Longrightarrow> dm_active s' = dm_active s \<Longrightarrow> busy c s' = busy c s"
  by (simp add: busy_def)

lemma after_race_simps [simp]: "dm_queue (after_race c i out s) = dm_queue s" "dm_active (after_race c i out s) = dm_active s"
  "dm_microtasks (after_race c i out s) = dm_microtasks s"
  by (simp_all add: after_race_def Let_def split: option.split RunOutcome.split)

lemma after_verify_simps [simp]: "dm_queue (after_verify i r v s) = dm_queue s" "dm_active (after_verify i r v s) = dm_active s"
  "dm_microtasks (after_verify i r v s) = dm_microtasks s"
  by (simp_all add: after_verify_def split: VerifierOutcome.split bool.split)

lemma core_microtasks [simp]: "manager_core c (s\<lparr> dm_microtasks := m \<rparr>) = manager_core c s"
  by (simp add: manager_core_def queue_ok_def numbered_def counters_ok_def tally_def child_count_def)

lemma dstep_ok:
  assumes "dstep c s s'" and conf: "config_ok c" and ok: "manager_ok c s"
  shows "manager_ok c s'"
proof -
  have core: "manager_core c s" and busy: "dm_microtasks s = 0 \<Longrightarrow> busy c s" using ok by (simp_all add: manager_ok_def)
  from assms(1) show ?thesis
  proof cases
    case (do_spawn q)
    then show ?thesis using spawn_core [OF conf core, of q] ok by (auto simp: manager_ok_def)
  next
    case do_microtask
    have "manager_core c (s\<lparr> dm_microtasks := dm_microtasks s - 1 \<rparr>)" using core by simp
    then show ?thesis unfolding do_microtask(1) manager_ok_def using drain_core by blast
  next
    case (do_cancel i reason)
    then show ?thesis using cancel_core [OF core] cancel_busy busy by (simp add: manager_ok_def)
  next
    case (do_cancelParent parent reason)
    then show ?thesis using cancelParent_core [OF core] cancelParent_busy busy by (simp add: manager_ok_def)
  next
    case (do_deadline i)
    then show ?thesis using abort_core [OF core] busy by (simp add: manager_ok_def busy_def)
  next
    case (do_race i out)
    then show ?thesis using after_race_core [OF core] busy by (simp add: manager_ok_def busy_def)
  next
    case (do_verify i r v)
    then show ?thesis using after_verify_core [OF core] busy by (simp add: manager_ok_def busy_def)
  next
    case (do_hooks i r ann ea er)
    then show ?thesis using hooks_ok [OF ok] by blast
  qed
qed

lemma new_manager_ok: "new_manager limits capabilities verifies = Inr (c, s) \<Longrightarrow> config_ok c \<and> manager_ok c s"
  unfolding new_manager_def throwIf_def Let_def
  by (auto simp: config_ok_def manager_ok_def manager_core_def queue_ok_def numbered_def counters_ok_def tally_def child_count_def
      below_def busy_def split: if_splits)

lemma dreachable_ok: "dreachable c s \<Longrightarrow> config_ok c \<and> manager_ok c s"
  by (induction rule: dreachable.induct) (use new_manager_ok dstep_ok in blast)+


section \<open>What a step leaves alone\<close>

definition stays :: "Manager \<Rightarrow> Manager \<Rightarrow> bool" where
  "stays s s' \<longleftrightarrow> length (dm_entries s) \<le> length (dm_entries s') \<and>
     (\<forall>i < length (dm_entries s). en_capabilities (dm_entries s' ! i) = en_capabilities (dm_entries s ! i) \<and>
        (terminal (en_status (dm_entries s ! i)) \<longrightarrow> en_status (dm_entries s' ! i) = en_status (dm_entries s ! i)))"

lemma stays_refl [simp]: "stays s s"
  by (simp add: stays_def)

lemma stays_same: "dm_entries s' = dm_entries s \<Longrightarrow> stays s s'"
  by (simp add: stays_def)

lemma stays_trans: "stays a b \<Longrightarrow> stays b c \<Longrightarrow> stays a c"
  unfolding stays_def by (auto dest: less_le_trans)

lemma stays_fields [simp]:
  "stays s (t\<lparr> dm_queue := q \<rparr>) = stays s t" "stays s (t\<lparr> dm_active := n \<rparr>) = stays s t" "stays s (t\<lparr> dm_microtasks := m \<rparr>) = stays s t"
  "stays (s\<lparr> dm_queue := q \<rparr>) t = stays s t" "stays (s\<lparr> dm_active := n \<rparr>) t = stays s t" "stays (s\<lparr> dm_microtasks := m \<rparr>) t = stays s t"
  by (simp_all add: stays_def)

lemma stays_upd:
  assumes "dm_entries t = dm_entries s" "en_capabilities (f (dm_entries s ! i)) = en_capabilities (dm_entries s ! i)"
    "terminal (en_status (dm_entries s ! i)) \<Longrightarrow> en_status (f (dm_entries s ! i)) = en_status (dm_entries s ! i)"
  shows "stays s (upd i f t)"
proof -
  have "en_capabilities ((dm_entries s)[i := f (dm_entries s ! i)] ! k) = en_capabilities (dm_entries s ! k)"
    "terminal (en_status (dm_entries s ! k)) \<Longrightarrow> en_status ((dm_entries s)[i := f (dm_entries s ! i)] ! k) = en_status (dm_entries s ! k)"
    if "k < length (dm_entries s)" for k using that assms(2,3) by (cases "i = k"; simp)+
  then show ?thesis using assms(1) by (simp add: stays_def)
qed

lemma unsettled_live: "manager_core c s \<Longrightarrow> i < length (dm_entries s) \<Longrightarrow> terminal (en_status (dm_entries s ! i)) = en_settled (dm_entries s ! i)"
  using entry_unsettled [OF core_entry, of c s i] by (cases "en_status (dm_entries s ! i)") auto

lemma finish_stays:
  assumes "terminal (en_status (dm_entries s ! i)) \<Longrightarrow> en_settled (dm_entries s ! i)"
  shows "stays s (finish_sync i r ann s)"
  unfolding finish_sync_def Let_def using assms by (auto intro: stays_upd)

lemma abort_stays: "stays s (abort_entry i r s)"
  unfolding abort_entry_def by (rule stays_upd) simp_all

lemma cancel_stays: "stays s (cancel_entry i reason s)"
proof (cases "en_status (dm_entries s ! i) = Dl_queued")
  case True
  let ?s = "abort_entry i reason s"
  let ?q = "?s\<lparr> dm_queue := remove1 i (dm_queue ?s) \<rparr>"
  have "\<not> terminal (en_status (dm_entries ?q ! i))" using True by (cases "i < length (dm_entries s)") (simp_all add: abort_entry_def list_update_beyond)
  then have "stays ?q (finish_sync i (cancelled_with reason) False ?q)" by (intro finish_stays) simp
  then have "stays ?s (finish_sync i (cancelled_with reason) False ?q)" by simp
  then show ?thesis using True stays_trans [OF abort_stays] by (simp add: cancel_entry_def Let_def)
qed (simp add: cancel_entry_def Let_def abort_stays)

lemma cancelParent_stays: "stays s (cancelParent parent reason s)"
  unfolding cancelParent_def
  by (rule cancel_tree_keeps [where n = "length (dm_entries s)"]) (auto intro: stays_trans [OF _ cancel_stays])

lemma drain_loop_keeps: "stays s (drain_loop c q s)"
proof (induction c q s rule: drain_loop.induct)
  case (2 c i q s)
  let ?t = "if en_status (dm_entries s ! i) = Dl_queued then start_run i s else s"
  have "stays s ?t" by (auto simp: start_run_def intro: stays_upd)
  show ?case
  proof (cases "js_lt (JNum (of_int (dm_active s))) (dl_concurrency (dc_limits c))")
    case True
    have "stays ?t (drain_loop c q (?t\<lparr> dm_queue := q \<rparr>))" using 2 [OF True] unfolding stays_fields .
    then show ?thesis unfolding drain_loop.simps if_P [OF True] by (rule stays_trans [OF \<open>stays s ?t\<close>])
  next
    case False
    then show ?thesis by simp
  qed
qed simp

lemma hooks_stays: "stays s (after_hooks c i ea er s)"
proof -
  have k: "stays s (upd i (\<lambda>e. e\<lparr> en_phase := x, en_running := False \<rparr>) s)" for x
    by (rule stays_upd) simp_all
  then have "stays s ((upd i (\<lambda>e. e\<lparr> en_phase := x, en_running := False \<rparr>) s)\<lparr> dm_active := n \<rparr>)" for x n by simp
  then show ?thesis using k stays_trans [OF _ drain_loop_keeps]
    unfolding after_hooks_def Let_def drain_def by (auto split: Phase.splits)
qed

lemma dstep_stays:
  assumes "dstep c s s'" "manager_core c s"
  shows "stays s s'"
  using assms(1)
proof cases
  case (do_spawn q)
  then show ?thesis by (auto simp: spawn_def Let_def stays_def nth_append)
next
  case do_microtask
  have "stays (s\<lparr> dm_microtasks := dm_microtasks s - 1 \<rparr>) s'"
    unfolding do_microtask(1) drain_def by (rule drain_loop_keeps)
  then show ?thesis by simp
next
  case (do_race i out)
  have "stays s (upd i (\<lambda>e. e\<lparr> en_phase := x \<rparr>) s)" for x by (rule stays_upd) simp_all
  moreover have "stays s (finish_sync i r ann s)" for r ann by (rule finish_stays) (use do_race unsettled_live [OF assms(2)] in simp)
  ultimately show ?thesis using do_race by (simp add: after_race_def Let_def split: option.split RunOutcome.split)
next
  case (do_verify i r v)
  have "stays s (finish_sync i x ann s)" for x ann by (rule finish_stays) (use do_verify unsettled_live [OF assms(2)] in simp)
  then show ?thesis using do_verify by (simp add: after_verify_def split: VerifierOutcome.split bool.split)
qed (simp_all add: cancel_stays cancelParent_stays abort_stays hooks_stays)

lemma history_stays: "(dstep c)\<^sup>*\<^sup>* s s' \<Longrightarrow> dreachable c s \<Longrightarrow> stays s s' \<and> dreachable c s'"
proof (induction rule: rtranclp_induct)
  case (step t u)
  then have "stays t u" using dstep_stays dreachable_ok by (auto simp: manager_ok_def)
  then show ?case using step stays_trans dreachable.step by blast
qed simp


section \<open>Cancelling the children of a session\<close>

definition stopped :: "Entry \<Rightarrow> bool" where
  "stopped e \<longleftrightarrow> terminal (en_status e) \<or> en_aborted e \<noteq> None"

definition same_tree :: "Manager \<Rightarrow> Manager \<Rightarrow> bool" where
  "same_tree s s' \<longleftrightarrow> map en_parent (dm_entries s') = map en_parent (dm_entries s) \<and>
     (\<forall>i < length (dm_entries s). stopped (dm_entries s ! i) \<longrightarrow> stopped (dm_entries s' ! i))"

lemma same_tree_length: "same_tree s s' \<Longrightarrow> length (dm_entries s') = length (dm_entries s)"
  unfolding same_tree_def by (metis length_map)

lemma same_tree_refl [simp]: "same_tree s s"
  by (simp add: same_tree_def)

lemma same_tree_trans: "same_tree a b \<Longrightarrow> same_tree b c \<Longrightarrow> same_tree a c"
  using same_tree_length [of a b] by (auto simp: same_tree_def)

lemma cancel_entries:
  "\<exists>f. dm_entries (cancel_entry k r s) = (dm_entries s)[k := f] \<and> en_parent f = en_parent (dm_entries s ! k) \<and> stopped f"
proof (cases "terminal (en_status (dm_entries s ! k))")
  case True
  then show ?thesis by (intro exI [of _ "dm_entries s ! k"]) (simp add: cancel_entry_def stopped_def)
next
  case False
  let ?e = "dm_entries s ! k"
  let ?f = "?e\<lparr> en_aborted := (case en_aborted ?e of None \<Rightarrow> Some r | Some x \<Rightarrow> Some x) \<rparr>"
  let ?g = "?f\<lparr> en_settled := True, en_status := Dl_cancelled, en_counted := False, en_phase := Ph_hooks (cancelled_with r) False \<rparr>"
  have stop: "stopped ?f" "stopped ?g" by (auto simp: stopped_def split: option.split)
  show ?thesis
  proof (cases "k < length (dm_entries s)")
    case True
    then have "dm_entries (cancel_entry k r s) = (dm_entries s)[k := ?f] \<or> dm_entries (cancel_entry k r s) = (dm_entries s)[k := ?g]"
      using False by (auto simp: cancel_entry_def Let_def finish_sync_def abort_entry_def)
    then show ?thesis using stop by (elim disjE) (rule exI, rule conjI, assumption, simp)+
  next
    case out: False
    then show ?thesis using False stop
      by (intro exI [of _ ?f]) (simp add: cancel_entry_def Let_def finish_sync_def abort_entry_def upd_def uncount_def list_update_beyond)
  qed
qed

lemma cancel_same_tree: "same_tree s (cancel_entry k r s)"
proof -
  obtain f where f: "dm_entries (cancel_entry k r s) = (dm_entries s)[k := f]" "en_parent f = en_parent (dm_entries s ! k)" "stopped f"
    using cancel_entries by blast
  have "map en_parent ((dm_entries s)[k := f]) = map en_parent (dm_entries s)"
    using f(2) by (simp add: map_update list_update_same_conv) (metis list_update_beyond list_update_id map_update not_less)
  moreover have "stopped ((dm_entries s)[k := f] ! i)" if "i < length (dm_entries s)" "stopped (dm_entries s ! i)" for i
    using that f(3) by (cases "i = k") simp_all
  ultimately show ?thesis unfolding same_tree_def f(1) by blast
qed

lemma cancel_tree_same: "length es = length (dm_entries s) \<Longrightarrow> same_tree s (cancel_tree reason es parent ks s)"
  by (rule cancel_tree_keeps [where n = "length es"]) (auto intro: same_tree_trans cancel_same_tree)

lemma cancel_tree_stops:
  "length es = length (dm_entries s) \<Longrightarrow> i \<in> set ks \<Longrightarrow> i < length es \<Longrightarrow> en_parent (es ! i) = parent \<Longrightarrow>
     stopped (dm_entries (cancel_tree reason es parent ks s) ! i)"
proof (induction ks arbitrary: s)
  case (Cons k ks)
  let ?deep = "cancel_tree reason es (entry_id (es ! k)) [0..<length es] s"
  let ?t = "if k < length es \<and> en_parent (es ! k) = parent \<and> \<not> terminal (en_status (dm_entries s ! k)) then cancel_entry k reason ?deep else s"
  have t: "same_tree s ?t" using same_tree_trans [OF cancel_tree_same [OF Cons(2)] cancel_same_tree] by simp
  then have len: "length (dm_entries ?t) = length es" using same_tree_length Cons(2) by metis
  show ?case
  proof (cases "i = k")
    case True
    obtain f where "dm_entries (cancel_entry k reason ?deep) = (dm_entries ?deep)[k := f]" "stopped f" using cancel_entries by blast
    moreover have "length (dm_entries ?deep) = length es" using same_tree_length [OF cancel_tree_same [OF Cons(2)]] Cons(2) by simp
    ultimately have "stopped (dm_entries ?t ! k)" using True Cons(4,5) by (auto simp: stopped_def)
    then show ?thesis
      using cancel_tree_same [of es ?t reason parent ks] len True Cons(4) unfolding cancel_tree.simps same_tree_def by metis
  next
    case False
    then show ?thesis using Cons.IH [of ?t] len Cons(3-5) by (simp only: cancel_tree.simps set_ConsD) auto
  qed
qed simp


text \<open>
  C40: after \<open>cancelParent(parent)\<close>, whatever the reason and the state, every child of that session is settled or
  has its abort signal raised. The descent over the children, their children and so on ends: no session is its
  own descendant.
\<close>

theorem cancelParent_stops_children:
  "list_all stopped (filter (\<lambda>e. en_parent e = parent) (dm_entries (cancelParent parent reason s)))"
proof -
  let ?s = "cancelParent parent reason s"
  have same: "same_tree s ?s" unfolding cancelParent_def by (rule cancel_tree_same) simp
  have "stopped (dm_entries ?s ! i)" if "i < length (dm_entries ?s)" "en_parent (dm_entries ?s ! i) = parent" for i
  proof -
    have len: "length (dm_entries ?s) = length (dm_entries s)" by (rule same_tree_length [OF same])
    then have "en_parent (dm_entries s ! i) = parent" using that same unfolding same_tree_def by (metis nth_map)
    then show ?thesis using that(1) len unfolding cancelParent_def by (intro cancel_tree_stops) simp_all
  qed
  then show ?thesis unfolding list_all_iff set_filter mem_Collect_eq Ball_def by (metis in_set_conv_nth)
qed

lemma cancel_tree_noop:
  "list_all (\<lambda>e. en_parent e = parent \<longrightarrow> terminal (en_status e)) (dm_entries s) \<Longrightarrow> cancel_tree reason (dm_entries s) parent ks s = s"
  by (induction ks) (auto simp: list_all_length)

text \<open>The descent does not look below a child that has settled: its own live children go on running.\<close>

lemma cancelParent_skips_settled:
  "list_all (\<lambda>e. en_parent e = parent \<longrightarrow> terminal (en_status e)) (dm_entries s) \<Longrightarrow> cancelParent parent reason s = s"
  unfolding cancelParent_def by (rule cancel_tree_noop)

text \<open>A cancellation that arrives while the result is verified is not looked at again: the child completes.\<close>

lemma cancel_while_verifying_completes:
  assumes "i < length (dm_entries s)" "en_status (dm_entries s ! i) = Dl_running" "\<not> en_settled (dm_entries s ! i)"
  shows "en_status (dm_entries (after_verify i r (Verified True) (cancel_entry i reason s)) ! i) = Dl_completed"
  using assms by (simp add: cancel_entry_def Let_def abort_entry_def after_verify_def finish_sync_def upd_def uncount_def)

text \<open>Nothing but the identity and the capabilities of a child decides whether it may dispatch a tool.\<close>

lemma dispatch_ignores_status:
  "i < length (dm_entries s) \<Longrightarrow> en_parent (f (dm_entries s ! i)) = en_parent (dm_entries s ! i) \<Longrightarrow>
     en_seq (f (dm_entries s ! i)) = en_seq (dm_entries s ! i) \<Longrightarrow> en_capabilities (f (dm_entries s ! i)) = en_capabilities (dm_entries s ! i) \<Longrightarrow>
     authorizeDispatch c g sid cap (upd i f s) = authorizeDispatch c g sid cap s"
proof -
  assume i: "i < length (dm_entries s)" and f: "en_parent (f (dm_entries s ! i)) = en_parent (dm_entries s ! i)"
    "en_seq (f (dm_entries s ! i)) = en_seq (dm_entries s ! i)" "en_capabilities (f (dm_entries s ! i)) = en_capabilities (dm_entries s ! i)"
  let ?key = "\<lambda>e. (entry_id e, en_parent e, en_capabilities e)"
  have find: "map_option ?key (List.find (\<lambda>e. entry_id e = sid) xs) = List.find (\<lambda>k. fst k = sid) (map ?key xs)" for xs
    by (induction xs) simp_all
  have "map ?key (dm_entries (upd i f s)) = map ?key (dm_entries s)"
    using i f by (simp add: map_update entry_id_def) (metis (no_types, lifting) list_update_id map_update nth_map)
  then have "map_option ?key (find_entry sid (upd i f s)) = map_option ?key (find_entry sid s)"
    unfolding find_entry_def find by simp
  then show ?thesis unfolding authorizeDispatch_def by (auto split: option.splits)
qed

section \<open>Properties of every history\<close>

definition sample_config :: DelegationConfig where
  "sample_config = \<lparr> dc_limits = default_limits, dc_allowed = [''market:read''], dc_verifies = True \<rparr>"

definition sample_empty :: Manager where
  "sample_empty = \<lparr> dm_entries = [], dm_queue = [], dm_counts = (\<lambda>_. None), dm_active = 0, dm_sequence = 0, dm_microtasks = 0 \<rparr>"

definition sample_spawned :: Manager where
  "sample_spawned = snd (spawn sample_config \<lparr> sr_parentSessionId = ''s'', sr_parentCapabilities = [''market:read''],
     sr_requestedCapabilities = [''market:read''], sr_depth = None, sr_cloneable = True \<rparr> sample_empty)"

definition sample_running :: Manager where
  "sample_running = drain sample_config (sample_spawned\<lparr> dm_microtasks := dm_microtasks sample_spawned - 1 \<rparr>)"

lemma sample_spawned_reachable: "dreachable sample_config sample_spawned"
proof -
  have "new_manager default_limits None True = Inr (sample_config, sample_empty)"
    by (simp add: new_manager_def throwIf_def sample_config_def sample_empty_def default_limits_def default_capabilities_def limit_valid_def)
  then have "dreachable sample_config sample_empty" by (rule dreachable.fresh)
  then show ?thesis unfolding sample_spawned_def by (rule dreachable.step) (rule dstep.do_spawn)
qed

lemma sample_run_step: "dstep sample_config sample_spawned sample_running"
  unfolding sample_running_def
  by (rule dstep.do_microtask) (simp add: sample_spawned_def spawn_def Let_def sample_config_def default_limits_def sample_empty_def)

text \<open>
  C35: in every reachable state of the manager, the children at work number at most the concurrency limit and the
  unsettled children of each session at most \<open>maxChildren\<close> (a limit \<open>q\<close> admits \<open>n\<close> of them when \<open>n - 1 < q\<close>), the
  queue holds each queued child once and nothing else, and while no drain is pending no child waits beside a free slot.
\<close>

theorem delegation_limits:
  assumes "dreachable c s"
  shows "below (tally en_running s) (dl_concurrency (dc_limits c)) \<and>
    below (tally (\<lambda>e. en_parent e = p \<and> \<not> en_settled e) s) (dl_maxChildren (dc_limits c)) \<and>
    queue_ok s \<and> (busy c s \<or> 0 < dm_microtasks s)"
proof -
  have ok: "manager_ok c s" and core: "manager_core c s" using dreachable_ok [OF assms] by (simp_all add: manager_ok_def)
  have "filter (\<lambda>e. en_parent e = p \<and> en_counted e) (dm_entries s) = filter (\<lambda>e. en_parent e = p \<and> \<not> en_settled e) (dm_entries s)"
    using core_parts(3) [OF core] by (intro filter_cong) (auto simp: list_all_iff entry_ok_def)
  then have "below (tally (\<lambda>e. en_parent e = p \<and> \<not> en_settled e) s) (dl_maxChildren (dc_limits c))"
    using core_counts(1,2) [OF core, of p] by (simp add: tally_def)
  then show ?thesis using core_counts(3,4) [OF core] core_parts(1) [OF core] ok by (auto simp: manager_ok_def)
qed

theorem delegation_limits_witness:
  "below (tally en_running sample_running) (JNum 2) \<and>
    below (tally (\<lambda>e. en_parent e = ''s'' \<and> \<not> en_settled e) sample_running) (JNum 4) \<and>
    queue_ok sample_running \<and> (busy sample_config sample_running \<or> 0 < dm_microtasks sample_running)"
  using delegation_limits [OF dreachable.step [OF sample_spawned_reachable sample_run_step], of "''s''"]
  by (simp add: sample_config_def default_limits_def)

text \<open>
  Along every history of the manager, a settled child keeps its status and every child the capabilities it was
  spawned with; those are permitted ones, and a child that completed did so with a well-formed result within the
  iteration and cost limits.
\<close>

theorem delegation_history:
  assumes "dreachable c s" "(dstep c)\<^sup>*\<^sup>* s s'"
  shows "stays s s' \<and> list_all (\<lambda>e. set (en_capabilities e) \<subseteq> set (dc_allowed c) \<and>
      (case en_phase e of Ph_hooks r _ \<Rightarrow> en_status e = dr_status r \<and> result_ok c r
         | Ph_done r \<Rightarrow> en_status e = dr_status r \<and> result_ok c r | _ \<Rightarrow> en_status e \<noteq> Dl_completed)) (dm_entries s')"
proof -
  have k: "stays s s'" "dreachable c s'" using history_stays [OF assms(2,1)] by simp_all
  then have "list_all (entry_ok c) (dm_entries s')" using dreachable_ok core_parts(3) by (auto simp: manager_ok_def)
  then have "list_all (\<lambda>e. set (en_capabilities e) \<subseteq> set (dc_allowed c) \<and>
      (case en_phase e of Ph_hooks r _ \<Rightarrow> en_status e = dr_status r \<and> result_ok c r
         | Ph_done r \<Rightarrow> en_status e = dr_status r \<and> result_ok c r | _ \<Rightarrow> en_status e \<noteq> Dl_completed)) (dm_entries s')"
    by (rule list.pred_mono_strong) (auto simp: entry_ok_def split: Phase.splits)
  then show ?thesis using k(1) by blast
qed

theorem delegation_history_witness: "stays sample_spawned sample_running"
  using delegation_history [OF sample_spawned_reachable r_into_rtranclp, OF sample_run_step] by blast

end
