(* ===== verification/LiveTrading.thy ===== *)
theory LiveTrading
  imports AuthIssuer Approvals Doubles
begin

text \<open>
  \<open>src/src/live-trading/index.ts\<close>: the durable store of executions and quotes, and the orchestrator that takes a
  quote through simulation, risk, reservation, approval, authorization, signing, broadcast and reconciliation.
  The approval engine is the one of \<open>Approvals\<close>. Every awaited call is a port that may change the whole state:
  while a call waits, other calls of the orchestrator may run. One clock stands for \<open>Date.now\<close> and the
  clocks the orchestrator and the engine are given. \<open>lv_sent\<close> records the broadcasts the
  orchestrator asks for; the code keeps no such list.
\<close>

section \<open>Data\<close>

datatype TradeSide = Side_buy | Side_sell | Side_revoke

datatype LiveState =
    Awaiting_approval | Approved | Dry_run | Signing | Submitting | Reconciliation_required | Broadcast
  | Confirmed | Finalized | Failed | Denied | Expired | Dropped

datatype Commitment = Cm_processed | Cm_confirmed | Cm_finalized

record TradingPolicy =
  tp_version :: int
  tp_hash :: "string option"
  tp_maxAmountIn :: int
  tp_maxSlippageBps :: jsnum
  tp_approvalRequired :: bool
  tp_finalityCommitment :: Commitment
  tp_allowedMints :: "string list option"

record QuoteResult =
  qr_amountOut :: int
  qr_slot :: int
  qr_lastValidBlockHeight :: int
  qr_expiresAt :: int
  qr_request :: "SimulationRequest option"
  qr_evidence :: "SimulationEvidence option"
  qr_route :: "json option"

record SignatureStatus =
  ss_slot :: int
  ss_confirmationStatus :: Commitment
  ss_err :: bool

text \<open>The answers of \<open>simulate\<close>: evidence has a \<open>hash\<close>, the plain answer a \<open>success\<close>.\<close>

datatype SimulateCall = Sim_exact SimulationRequest | Sim_intent string int

datatype SimulateAnswer = Sim_evidence SimulationEvidence | Sim_plain bool

record Quote =
  qo_id :: string
  qo_side :: TradeSide
  qo_cluster :: string
  qo_inputMint :: string
  qo_outputMint :: string
  qo_amountIn :: int
  qo_amountOut :: int
  qo_minimumOut :: int
  qo_slippageBps :: jsnum
  qo_slot :: int
  qo_lastValidBlockHeight :: int
  qo_expiresAt :: int
  qo_intentHash :: string
  qo_quoteHash :: string
  qo_policyHash :: string
  qo_route :: "json option"
  qo_request :: "SimulationRequest option"
  qo_evidence :: "SimulationEvidence option"
  qo_transaction :: "string option"
  qo_messageHash :: "string option"

record Execution =
  lx_id :: string
  lx_version :: nat
  lx_quoteId :: string
  lx_quoteHash :: "string option"
  lx_intentHash :: string
  lx_policyHash :: "string option"
  lx_riskHash :: "string option"
  lx_reservationId :: "string option"
  lx_simulationHash :: "string option"
  lx_approvalId :: "string option"
  lx_authorizationId :: "string option"
  lx_actor :: string
  lx_dryRun :: bool
  lx_idempotencyKey :: string
  lx_state :: LiveState
  lx_approver :: "string option"
  lx_messageHash :: "string option"
  lx_signature :: "string option"
  lx_slot :: "int option"
  lx_lastValidBlockHeight :: "int option"
  lx_createdAt :: int
  lx_updatedAt :: int

text \<open>An error of the orchestrator or of a port, or one the approval engine throws.\<close>

datatype LtErr = Lt string | Lt_approval AErr

record 'w Live =
  lv_execs :: "Execution list"
  lv_quotes :: "Quote list"
  lv_appr :: AState
  lv_sent :: "(string \<times> string) list"
  lv_world :: 'w

type_synonym ('w, 'a) live = "('w Live, LtErr, 'a) eff"

definition lt_throw :: "string \<Rightarrow> ('w, 'a) live" where
  "lt_throw x = throwE (Lt x)"

definition lt_guard :: "bool \<Rightarrow> string \<Rightarrow> ('w, unit) live" where
  "lt_guard b x = guardE b (Lt x)"

section \<open>Store\<close>

definition putQuote :: "Quote \<Rightarrow> ('w, Quote) live" where
  "putQuote q = seqE (modifyE (\<lambda>s. s\<lparr> lv_quotes := delete_where (\<lambda>r. qo_id r = qo_id q) (lv_quotes s) @ [q] \<rparr>)) (returnE q)"

definition getQuote :: "string \<Rightarrow> 'w Live \<Rightarrow> Quote option" where
  "getQuote i s = find_where (\<lambda>q. qo_id q = i) (lv_quotes s)"

definition findQuoteByHash :: "string \<Rightarrow> 'w Live \<Rightarrow> Quote option" where
  "findQuoteByHash h s = find_where (\<lambda>q. qo_quoteHash q = h) (lv_quotes s)"

definition get_execution :: "string \<Rightarrow> 'w Live \<Rightarrow> Execution option" where
  "get_execution i s = find_where (\<lambda>x. lx_id x = i) (lv_execs s)"

definition byIdempotency :: "string \<Rightarrow> 'w Live \<Rightarrow> Execution option" where
  "byIdempotency k s = find_where (\<lambda>x. lx_idempotencyKey x = k) (lv_execs s)"

definition list_executions :: "LiveState list \<Rightarrow> 'w Live \<Rightarrow> Execution list" where
  "list_executions states s = filter (\<lambda>x. lx_state x \<in> set states) (lv_execs s)"

text \<open>\<open>id\<close> is the primary key, \<open>idempotency_key\<close> is \<open>UNIQUE\<close>; \<open>x\<close> carries the caller's fields and the fresh id.\<close>

definition create_execution :: "Execution \<Rightarrow> LiveState \<Rightarrow> int \<Rightarrow> ('w, Execution) live" where
  "create_execution x state now = (\<lambda>s.
     let r = x\<lparr> lx_version := 0, lx_state := state, lx_createdAt := now, lx_updatedAt := now \<rparr>
     in if exists_where (\<lambda>y. lx_id y = lx_id r \<or> lx_idempotencyKey y = lx_idempotencyKey r) (lv_execs s)
        then (Inl (Lt ''UNIQUE constraint failed''), s)
        else (Inr r, s\<lparr> lv_execs := lv_execs s @ [r] \<rparr>))"

text \<open>The payload of the row is the text the old execution was read from, so the update inside the transaction finds it.\<close>

definition transition :: "string \<Rightarrow> LiveState list \<Rightarrow> (Execution \<Rightarrow> Execution) \<Rightarrow> nat option \<Rightarrow> int \<Rightarrow> ('w, Execution) live" where
  "transition i from_states p version now = (\<lambda>s.
     case get_execution i s of
       None \<Rightarrow> (Inl (Lt ''execution_not_found''), s)
     | Some old \<Rightarrow>
         if lx_state old \<notin> set from_states \<or> (case version of None \<Rightarrow> False | Some v \<Rightarrow> lx_version old \<noteq> v)
         then (Inl (Lt ''state conflict''), s)
         else let x = (p old)\<lparr> lx_version := lx_version old + 1, lx_updatedAt := now \<rparr>
              in (Inr x, s\<lparr> lv_execs := update_where (\<lambda>r. lx_id r = i) (\<lambda>_. x) (lv_execs s) \<rparr>))"

definition update_execution :: "string \<Rightarrow> (Execution \<Rightarrow> Execution) \<Rightarrow> int \<Rightarrow> ('w, Execution) live" where
  "update_execution i p now = (\<lambda>s.
     case get_execution i s of
       None \<Rightarrow> (Inl (Lt ''execution_not_found''), s)
     | Some x \<Rightarrow> transition i [lx_state x] p (Some (lx_version x)) now s)"

section \<open>Ports\<close>

record IssueRefs =
  ir_quoteHash :: string
  ir_policyHash :: string
  ir_policyVersion :: int
  ir_riskHash :: "string option"
  ir_reservationId :: "string option"
  ir_approvalId :: string
  ir_audience :: string

text \<open>A signer's answer before it is checked, and the answer of its result store.\<close>

record SignReply =
  sg_transaction :: "string option"
  sg_signature :: "string option"
  sg_broadcast :: "string option"

datatype ResultReply = Res_expired | Res_not_found | Res_other | Res_signed SignReply

record 'w Reservations =
  rv_reserve :: "string \<Rightarrow> string \<Rightarrow> string \<Rightarrow> ('w, string) live"
  rv_valid :: "string \<Rightarrow> ('w, bool) live"
  rv_commit :: "string option \<Rightarrow> ('w, unit) live"
  rv_release :: "string \<Rightarrow> ('w, unit) live"

record RawQuote =
  rw_side :: TradeSide
  rw_inputMint :: string
  rw_outputMint :: string
  rw_amountIn :: int
  rw_slippageBps :: jsnum
  rw_unknown_field :: bool

record 'w LivePorts =
  lt_cluster :: string
  lt_account :: string
  lt_policy :: TradingPolicy
  lt_lib :: SolanaLib
  lt_sha :: "string \<Rightarrow> string"
  lt_live :: bool
  lt_audience :: "string option"
  lt_now :: "'w Live \<Rightarrow> int"
  lt_quote :: "RawQuote \<Rightarrow> ('w, QuoteResult) live"
  lt_revokeQuote :: "(string \<Rightarrow> string \<Rightarrow> ('w, QuoteResult) live) option"
  lt_simulate :: "SimulateCall \<Rightarrow> ('w, SimulateAnswer) live"
  lt_broadcast :: "string \<Rightarrow> ('w, string) live"
  lt_status :: "string \<Rightarrow> ('w, SignatureStatus option) live"
  lt_blockHeight :: "('w, int) live"
  lt_sign :: "(string \<Rightarrow> AuthorizationEnvelope \<Rightarrow> ('w, SignReply) live) option"
  lt_result :: "(string \<Rightarrow> string \<Rightarrow> ('w, ResultReply) live) option"
  lt_issue :: "(SimulationRequest \<Rightarrow> SimulationEvidence \<Rightarrow> IssueRefs \<Rightarrow> ('w, AuthorizationEnvelope) live) option"
  lt_engine :: "Engine option"
  lt_risk :: "(Quote \<Rightarrow> SimulationRequest \<Rightarrow> SimulationEvidence \<Rightarrow> ('w, string \<times> bool) live) option"
  lt_reservations :: "'w Reservations option"

definition clock :: "'w LivePorts \<Rightarrow> ('w, int) live" where
  "clock d = getE (lt_now d)"

definition apprE :: "(AState \<Rightarrow> (AErr + 'a) \<times> AState) \<Rightarrow> ('w, 'a) live" where
  "apprE f = (\<lambda>s. case f (lv_appr s) of (r, t) \<Rightarrow> (map_sum Lt_approval id r, s\<lparr> lv_appr := t \<rparr>))"

definition requireE :: "string \<Rightarrow> ('w, Execution) live" where
  "requireE i = (\<lambda>s. case get_execution i s of None \<Rightarrow> (Inl (Lt ''execution_not_found''), s) | Some x \<Rightarrow> (Inr x, s))"

definition move_to :: "'w LivePorts \<Rightarrow> string \<Rightarrow> LiveState list \<Rightarrow> (Execution \<Rightarrow> Execution) \<Rightarrow> ('w, Execution) live" where
  "move_to d i from_states p = bindE (clock d) (transition i from_states p None)"

section \<open>Quotes\<close>

definition bigint_value :: "int \<Rightarrow> json" where
  "bigint_value n = J_obj [(''$bigint'', J_str (show_int n))]"

definition digest :: "'w LivePorts \<Rightarrow> json \<Rightarrow> string" where
  "digest d v = lt_sha d (json_text v)"

definition commitment_text :: "Commitment \<Rightarrow> string" where
  "commitment_text c = (case c of Cm_processed \<Rightarrow> ''processed'' | Cm_confirmed \<Rightarrow> ''confirmed'' | Cm_finalized \<Rightarrow> ''finalized'')"

definition side_text :: "TradeSide \<Rightarrow> string" where
  "side_text x = (case x of Side_buy \<Rightarrow> ''buy'' | Side_sell \<Rightarrow> ''sell'' | Side_revoke \<Rightarrow> ''revoke'')"

text \<open>A property that is \<open>undefined\<close> is not written.\<close>

definition given_field :: "string \<Rightarrow> json option \<Rightarrow> (string \<times> json) list" where
  "given_field k v = (case v of None \<Rightarrow> [] | Some x \<Rightarrow> [(k, x)])"

definition number_value :: "jsnum \<Rightarrow> json" where
  "number_value x = (case js_BigInt x of None \<Rightarrow> J_null | Some n \<Rightarrow> J_num n)"

text \<open>The digest of a policy whose slippage limit is a whole number; the fields in the order of the interface.\<close>

definition trading_policyHash :: "'w LivePorts \<Rightarrow> string" where
  "trading_policyHash d = (let p = lt_policy d in
     case tp_hash p of Some h \<Rightarrow> h
     | None \<Rightarrow> digest d (J_obj ([(''version'', J_num (tp_version p)), (''maxAmountIn'', bigint_value (tp_maxAmountIn p)),
         (''maxSlippageBps'', number_value (tp_maxSlippageBps p)), (''approvalRequired'', J_bool (tp_approvalRequired p)),
         (''finalityCommitment'', J_str (commitment_text (tp_finalityCommitment p)))] @
         given_field ''allowedMints'' (map_option (\<lambda>ms. J_arr (map J_str ms)) (tp_allowedMints p)))))"

definition quote_core :: "'w LivePorts \<Rightarrow> RawQuote \<Rightarrow> QuoteResult \<Rightarrow> int \<Rightarrow> (string \<times> json) list" where
  "quote_core d asked r minimumOut =
     [(''side'', J_str (side_text (rw_side asked))), (''cluster'', J_str (lt_cluster d)), (''account'', J_str (lt_account d)),
      (''inputMint'', J_str (rw_inputMint asked)), (''outputMint'', J_str (rw_outputMint asked)),
      (''amountIn'', bigint_value (rw_amountIn asked)), (''minimumOut'', bigint_value minimumOut)] @
     given_field ''route'' (qr_route r) @
     [(''policyHash'', J_str (trading_policyHash d)), (''slot'', bigint_value (qr_slot r)),
      (''lastValidBlockHeight'', J_num (qr_lastValidBlockHeight r)), (''expiresAt'', J_num (qr_expiresAt r))] @
     given_field ''transaction'' (map_option (\<lambda>q. J_str (sq_transaction q)) (qr_request r))"

definition quote_guards :: "'w LivePorts \<Rightarrow> RawQuote \<Rightarrow> LtErr + unit" where
  "quote_guards d asked =
     throwIf (rw_unknown_field asked) (Lt ''unknown field'')
     (throwIf (rw_side asked = Side_revoke) (Lt ''invalid side'')
     (throwIf (rw_amountIn asked \<le> 0 \<or> rw_amountIn asked > tp_maxAmountIn (lt_policy d)) (Lt ''amount exceeds policy'')
     (throwIf (js_lt (rw_slippageBps asked) (JNum 0) \<or> js_gt (rw_slippageBps asked) (tp_maxSlippageBps (lt_policy d)))
        (Lt ''slippage exceeds policy'')
     (throwIf (\<not> isPublicKey (lt_lib d) (rw_inputMint asked)) (Lt ''invalid inputMint'')
     (throwIf (\<not> isPublicKey (lt_lib d) (rw_outputMint asked)) (Lt ''invalid outputMint'')
     (throwIf (case tp_allowedMints (lt_policy d) of None \<Rightarrow> False
         | Some ms \<Rightarrow> rw_inputMint asked \<notin> set ms \<or> rw_outputMint asked \<notin> set ms) (Lt ''mint denied'')
     (Inr ())))))))"

text \<open>\<open>BigInt\<close> of a slippage that is not a whole number throws a \<open>RangeError\<close>.\<close>

definition quote :: "'w LivePorts \<Rightarrow> RawQuote \<Rightarrow> string \<Rightarrow> ('w, Quote) live" where
  "quote d asked newId =
     seqE (liftE (quote_guards d asked))
     (bindE (lt_quote d asked) (\<lambda>r.
      case js_BigInt (fl_sub (JNum 10000) (rw_slippageBps asked)) of
        None \<Rightarrow> lt_throw ''RangeError''
      | Some kept \<Rightarrow>
          (let minimumOut = big_div (qr_amountOut r * kept) 10000; core = quote_core d asked r minimumOut
           in putQuote \<lparr> qo_id = newId, qo_side = rw_side asked, qo_cluster = lt_cluster d, qo_inputMint = rw_inputMint asked,
                qo_outputMint = rw_outputMint asked, qo_amountIn = rw_amountIn asked, qo_amountOut = qr_amountOut r,
                qo_minimumOut = minimumOut, qo_slippageBps = rw_slippageBps asked, qo_slot = qr_slot r,
                qo_lastValidBlockHeight = qr_lastValidBlockHeight r, qo_expiresAt = qr_expiresAt r,
                qo_intentHash = digest d (J_obj core),
                qo_quoteHash = digest d (J_obj (core @ [(''amountOut'', bigint_value (qr_amountOut r))])),
                qo_policyHash = trading_policyHash d, qo_route = qr_route r, qo_request = qr_request r, qo_evidence = qr_evidence r,
                qo_transaction = map_option sq_transaction (qr_request r),
                qo_messageHash = map_option sq_messageHash (qr_request r) \<rparr>)))"

definition revokeQuote :: "'w LivePorts \<Rightarrow> string \<Rightarrow> string \<Rightarrow> ('w, Quote) live" where
  "revokeQuote d tokenAccount newId =
     seqE (lt_guard (\<not> isPublicKey (lt_lib d) tokenAccount) ''invalid tokenAccount'')
     (case lt_revokeQuote d of
        None \<Rightarrow> lt_throw ''revoke_unsupported''
      | Some ask \<Rightarrow> bindE (ask tokenAccount (lt_account d)) (\<lambda>r.
          case (qr_request r, qr_evidence r) of
            (Some q, Some e) \<Rightarrow>
              (let core = [(''side'', J_str ''revoke''), (''cluster'', J_str (lt_cluster d)), (''account'', J_str (lt_account d)),
                     (''tokenAccount'', J_str tokenAccount), (''policyHash'', J_str (trading_policyHash d)), (''slot'', bigint_value (qr_slot r)),
                     (''lastValidBlockHeight'', J_num (qr_lastValidBlockHeight r)), (''expiresAt'', J_num (qr_expiresAt r)),
                     (''transaction'', J_str (sq_transaction q))]
               in putQuote \<lparr> qo_id = newId, qo_side = Side_revoke, qo_cluster = lt_cluster d, qo_inputMint = tokenAccount,
                    qo_outputMint = tokenAccount, qo_amountIn = 0, qo_amountOut = qr_amountOut r, qo_minimumOut = 0,
                    qo_slippageBps = JNum 0, qo_slot = qr_slot r, qo_lastValidBlockHeight = qr_lastValidBlockHeight r,
                    qo_expiresAt = qr_expiresAt r, qo_intentHash = digest d (J_obj core),
                    qo_quoteHash = digest d (J_obj (core @ [(''evidenceHash'', J_str (se_hash e))])),
                    qo_policyHash = trading_policyHash d, qo_route = qr_route r, qo_request = Some q, qo_evidence = Some e,
                    qo_transaction = Some (sq_transaction q), qo_messageHash = Some (sq_messageHash q) \<rparr>)
          | _ \<Rightarrow> lt_throw ''exact_transaction_required''))"

section \<open>Executing\<close>

definition strings :: "string list \<Rightarrow> json" where
  "strings xs = J_arr (map J_str xs)"

definition join_commas :: "string list \<Rightarrow> string" where
  "join_commas xs = concat (case xs of [] \<Rightarrow> [] | y # ys \<Rightarrow> y # map (\<lambda>x. CHR '','' # x) ys)"

definition binding :: "'w LivePorts \<Rightarrow> Quote \<Rightarrow> SimulationRequest \<Rightarrow> SimulationEvidence \<Rightarrow> BoundTransaction" where
  "binding d q r e =
     \<lparr> bt_chain = qo_cluster q,
       bt_serializedTransaction = J_obj
         [(''transaction'', J_str (sq_transaction r)), (''message'', J_str (sq_message r)), (''messageHash'', J_str (sq_messageHash r)),
          (''feePayer'', J_str (sq_feePayer r)), (''recentBlockhash'', J_str (sq_recentBlockhash r)),
          (''lastValidBlockHeight'', J_num (sq_lastValidBlockHeight r)), (''programIds'', strings (sq_programIds r)),
          (''accountKeys'', strings (sq_accountKeys r)), (''instructions'', J_arr (map instruction_value (sq_instructions r))),
          (''addressTableLookups'', strings (sq_addressTableLookups r)), (''to'', J_str (join_commas (sq_programIds r))),
          (''data'', J_str (sq_message r)), (''value'', J_str (show_int (qo_amountIn q))), (''nonce'', J_str (sq_recentBlockhash r))],
       bt_intentHash = qo_intentHash q, bt_policyHash = qo_policyHash q, bt_policyVersion = show_int (tp_version (lt_policy d)),
       bt_simulationHash = se_hash e, bt_simulationBlock = show_int (eb_slot (se_body e)),
       bt_simulationState = eb_blockhash (se_body e), bt_account = sq_feePayer r, bt_nonce = sq_recentBlockhash r,
       bt_value = show_int (qo_amountIn q), bt_calldata = sq_message r, bt_router = join_commas (sq_programIds r) \<rparr>"

definition simulate_again :: "'w LivePorts \<Rightarrow> Quote \<Rightarrow> ('w, SimulationEvidence option) live" where
  "simulate_again d q =
     (case qo_request q of
        Some r \<Rightarrow> bindE (lt_simulate d (Sim_exact r)) (\<lambda>got.
          case got of Sim_evidence e \<Rightarrow> returnE (Some e) | Sim_plain _ \<Rightarrow> lt_throw ''simulation_evidence_required'')
      | None \<Rightarrow> bindE (lt_simulate d (Sim_intent (qo_intentHash q) (qo_slot q))) (\<lambda>got.
          case got of Sim_plain True \<Rightarrow> returnE (qo_evidence q) | _ \<Rightarrow> lt_throw ''simulation_failed''))"

definition new_execution :: "string \<Rightarrow> Quote \<Rightarrow> string \<Rightarrow> string \<Rightarrow> bool \<Rightarrow> string option \<Rightarrow> Execution" where
  "new_execution newId q actor key dryRun simulationHash =
     \<lparr> lx_id = newId, lx_version = 0, lx_quoteId = qo_id q, lx_quoteHash = Some (qo_quoteHash q), lx_intentHash = qo_intentHash q,
       lx_policyHash = Some (qo_policyHash q), lx_riskHash = None, lx_reservationId = None, lx_simulationHash = simulationHash,
       lx_approvalId = None, lx_authorizationId = None, lx_actor = actor, lx_dryRun = dryRun, lx_idempotencyKey = key,
       lx_state = Awaiting_approval, lx_approver = None, lx_messageHash = None, lx_signature = None, lx_slot = None,
       lx_lastValidBlockHeight = None, lx_createdAt = 0, lx_updatedAt = 0 \<rparr>"

definition assess :: "'w LivePorts \<Rightarrow> Quote \<Rightarrow> SimulationRequest \<Rightarrow> SimulationEvidence \<Rightarrow> ('w, string option) live" where
  "assess d q r e =
     (case lt_risk d of None \<Rightarrow> returnE None
      | Some f \<Rightarrow> bindE (f q r e) (\<lambda>(h, allowed). seqE (lt_guard (\<not> allowed) ''risk_denied'') (returnE (Some h))))"

definition reserve_for :: "'w LivePorts \<Rightarrow> Quote \<Rightarrow> SimulationRequest \<Rightarrow> ('w, string option) live" where
  "reserve_for d q r =
     (case lt_reservations d of None \<Rightarrow> returnE None
      | Some v \<Rightarrow> bindE (rv_reserve v (qo_quoteHash q) (qo_policyHash q) (sq_messageHash r)) (\<lambda>i. returnE (set_text (Some i))))"

definition ask_approval :: "'w LivePorts \<Rightarrow> Quote \<Rightarrow> SimulationRequest \<Rightarrow> SimulationEvidence \<Rightarrow> string \<Rightarrow> string \<Rightarrow> string \<Rightarrow> ('w, unit) live" where
  "ask_approval d q r e i actor challenge =
     (case lt_engine d of None \<Rightarrow> returnE ()
      | Some en \<Rightarrow> bindE (clock d) (\<lambda>now. seqE
          (apprE (Approvals.request en \<lparr> ai_id = i, ai_type = ''sign'', ai_proposerId = actor, ai_bound = binding d q r e,
             ai_expiresAt = qo_expiresAt q, ai_displayImpact = None \<rparr> 1 False challenge now)) (returnE ())))"

definition execute_live :: "'w LivePorts \<Rightarrow> Quote \<Rightarrow> SimulationRequest \<Rightarrow> SimulationEvidence \<Rightarrow> string \<Rightarrow> string \<Rightarrow> string \<Rightarrow> string \<Rightarrow> ('w, Execution) live" where
  "execute_live d q r e key actor newId challenge =
     seqE (lt_guard (eb_messageHash (se_body e) \<noteq> sq_messageHash r) ''simulation_transaction_mismatch'')
     (bindE (lt_blockHeight d) (\<lambda>h.
      seqE (lt_guard (h > qo_lastValidBlockHeight q) ''blockhash_expired'')
     (bindE (assess d q r e) (\<lambda>risk.
      bindE (reserve_for d q r) (\<lambda>reservation.
      bindE (clock d) (\<lambda>now.
      bindE (create_execution ((new_execution newId q actor key False (Some (se_hash e)))\<lparr> lx_riskHash := risk,
                lx_reservationId := reservation, lx_lastValidBlockHeight := Some (qo_lastValidBlockHeight q) \<rparr>) Awaiting_approval now) (\<lambda>x.
      if \<not> tp_approvalRequired (lt_policy d)
      then move_to d (lx_id x) [Awaiting_approval] (\<lambda>x. x\<lparr> lx_state := Approved \<rparr>)
      else seqE (ask_approval d q r e (lx_id x) actor challenge)
             (move_to d (lx_id x) [Awaiting_approval] (\<lambda>y. y\<lparr> lx_approvalId := Some (lx_id x) \<rparr>)))))))))"

definition execute_quote :: "'w LivePorts \<Rightarrow> Quote \<Rightarrow> string \<Rightarrow> string \<Rightarrow> bool option \<Rightarrow> string \<Rightarrow> string \<Rightarrow> ('w, Execution) live" where
  "execute_quote d q key actor dry newId challenge =
     bindE (clock d) (\<lambda>now.
     seqE (lt_guard (qo_expiresAt q < now) ''quote_expired'')
     (let dryRun = (case dry of None \<Rightarrow> True | Some b \<Rightarrow> b) in
      seqE (lt_guard (\<not> dryRun \<and> \<not> lt_live d) ''live_trading_disabled'')
     (bindE (simulate_again d q) (\<lambda>evidence.
      if dryRun
      then bindE (clock d) (\<lambda>now. create_execution (new_execution newId q actor key True (map_option se_hash evidence)) Dry_run now)
      else case (qo_request q, evidence) of
             (Some r, Some e) \<Rightarrow> execute_live d q r e key actor newId challenge
           | _ \<Rightarrow> lt_throw ''exact_transaction_required''))))"

definition execute_trade :: "'w LivePorts \<Rightarrow> string \<Rightarrow> string \<Rightarrow> string \<Rightarrow> bool option \<Rightarrow> string \<Rightarrow> string \<Rightarrow> ('w, Execution) live" where
  "execute_trade d quoteId key actor dry newId challenge =
     bindE (getE (byIdempotency key)) (\<lambda>old. case old of
       Some x \<Rightarrow> returnE x
     | None \<Rightarrow> bindE (getE (getQuote quoteId)) (\<lambda>q. case q of
         None \<Rightarrow> lt_throw ''quote_not_found''
       | Some q \<Rightarrow> execute_quote d q key actor dry newId challenge))"

definition revoke_delegate :: "'w LivePorts \<Rightarrow> string \<Rightarrow> string \<Rightarrow> string \<Rightarrow> bool option \<Rightarrow> string \<Rightarrow> string \<Rightarrow> string \<Rightarrow> ('w, Execution) live" where
  "revoke_delegate d tokenAccount key actor dry quoteId newId challenge =
     bindE (getE (byIdempotency key)) (\<lambda>old. case old of
       Some x \<Rightarrow> returnE x
     | None \<Rightarrow> bindE (revokeQuote d tokenAccount quoteId) (\<lambda>q. execute_trade d (qo_id q) key actor dry newId challenge))"

definition assertExact :: "string \<Rightarrow> SimulationRequest \<Rightarrow> ('w, bool) live" where
  "assertExact i r =
     bindE (requireE i) (\<lambda>x. bindE (getE (getQuote (lx_quoteId x))) (\<lambda>q.
     seqE (lt_guard (case q of None \<Rightarrow> True | Some q \<Rightarrow> (case qo_request q of None \<Rightarrow> True
         | Some p \<Rightarrow> sq_transaction p \<noteq> sq_transaction r \<or> sq_messageHash p \<noteq> sq_messageHash r)) ''exact transaction mismatch'')
     (returnE True)))"

section \<open>Approval\<close>

definition with_approver :: "string option \<Rightarrow> Execution \<Rightarrow> Execution" where
  "with_approver operator x = (case set_text operator of None \<Rightarrow> x | Some u \<Rightarrow> x\<lparr> lx_approver := Some u \<rparr>)"

definition get_approval :: "'w LivePorts \<Rightarrow> Engine \<Rightarrow> string \<Rightarrow> ('w, RequestRow option) live" where
  "get_approval d en a = bindE (clock d) (\<lambda>now. apprE (\<lambda>s. case get_request en a now s of (r, t) \<Rightarrow> (Inr r, t)))"

definition refreshApproval :: "'w LivePorts \<Rightarrow> string \<Rightarrow> string option \<Rightarrow> ('w, Execution) live" where
  "refreshApproval d i operator =
     bindE (requireE i) (\<lambda>x.
     if lx_state x \<noteq> Awaiting_approval then returnE x
     else case (set_text (lx_approvalId x), lt_engine d) of
       (Some a, Some en) \<Rightarrow>
         bindE (get_approval d en a) (\<lambda>row. case row of
           None \<Rightarrow> lt_throw ''approval record missing''
         | Some r \<Rightarrow>
             if rq_status r = Ap_denied then move_to d i [Awaiting_approval] (\<lambda>x. with_approver operator (x\<lparr> lx_state := Denied \<rparr>))
             else if rq_status r = Ap_approved then move_to d i [Awaiting_approval] (\<lambda>x. with_approver operator (x\<lparr> lx_state := Approved \<rparr>))
             else returnE x)
     | _ \<Rightarrow> lt_throw ''approval unavailable'')"

definition decideE :: "'w LivePorts \<Rightarrow> Engine \<Rightarrow> string \<Rightarrow> DecisionInput \<Rightarrow> ('w, unit) live" where
  "decideE d en a input = bindE (clock d) (\<lambda>now. seqE (apprE (Approvals.decide en a input now)) (returnE ()))"

definition approve :: "'w LivePorts \<Rightarrow> string \<Rightarrow> string \<Rightarrow> DecisionInput option \<Rightarrow> ('w, Execution) live" where
  "approve d i operator input =
     bindE (requireE i) (\<lambda>x.
     seqE (lt_guard (lx_actor x = operator) ''self approval prohibited'')
    (seqE (lt_guard (lx_state x \<noteq> Awaiting_approval) ''not awaiting approval'')
    (seqE (case (input, set_text (lx_approvalId x)) of
             (Some p, Some a) \<Rightarrow> (case lt_engine d of None \<Rightarrow> returnE () | Some en \<Rightarrow> decideE d en a (p\<lparr> di_operatorId := operator \<rparr>))
           | _ \<Rightarrow> (case lt_engine d of None \<Rightarrow> returnE () | Some en \<Rightarrow> lt_throw ''decision proof required''))
          (refreshApproval d i (Some operator)))))"

definition deny :: "'w LivePorts \<Rightarrow> string \<Rightarrow> string \<Rightarrow> DecisionInput option \<Rightarrow> ('w, Execution) live" where
  "deny d i operator input =
     bindE (requireE i) (\<lambda>x.
     seqE (lt_guard (lx_state x \<noteq> Awaiting_approval) ''not awaiting approval'')
     (case (input, set_text (lx_approvalId x), lt_engine d) of
        (Some p, Some a, Some en) \<Rightarrow>
          seqE (decideE d en a (p\<lparr> di_operatorId := operator, di_decision := ''deny'' \<rparr>)) (refreshApproval d i (Some operator))
      | _ \<Rightarrow> lt_throw ''decision proof required''))"

section \<open>Submission\<close>

definition assertSignedTransaction :: "SolanaLib \<Rightarrow> SignReply \<Rightarrow> string + string" where
  "assertSignedTransaction L r =
     (case (sg_transaction r, set_text (sg_signature r)) of
        (Some tx, Some sig) \<Rightarrow> (case signatureOf L tx of
           Inl _ \<Rightarrow> Inl ''invalid_signer_response''
         | Inr attached \<Rightarrow> throwIf (attached \<noteq> sig) ''invalid_signer_response'' (Inr attached))
      | _ \<Rightarrow> Inl ''invalid_signer_response'')"

definition expire :: "'w LivePorts \<Rightarrow> string \<Rightarrow> LiveState list \<Rightarrow> ('w, Execution) live" where
  "expire d i from_states =
     bindE (getE (get_execution i)) (\<lambda>x.
     seqE (case (x, lt_reservations d) of
             (Some x, Some v) \<Rightarrow> (case set_text (lx_reservationId x) of None \<Rightarrow> returnE () | Some r \<Rightarrow> rv_release v r)
           | _ \<Rightarrow> returnE ())
     (move_to d i from_states (\<lambda>x. x\<lparr> lx_state := Expired \<rparr>)))"

definition submit_fences :: "'w LivePorts \<Rightarrow> Execution \<Rightarrow> Quote \<Rightarrow> ('w, unit) live" where
  "submit_fences d x q =
     bindE (clock d) (\<lambda>now.
     seqE (lt_guard (qo_expiresAt q \<le> now) ''quote_expired'')
    (bindE (lt_blockHeight d) (\<lambda>h.
     seqE (whenE (h > qo_lastValidBlockHeight q) (seqE (expire d (lx_id x) [lx_state x]) (lt_throw ''blockhash_expired'')))
     (case (set_text (lx_reservationId x), lt_reservations d) of
        (Some r, Some v) \<Rightarrow> bindE (rv_valid v r) (\<lambda>ok. lt_guard (\<not> ok) ''reservation_invalid'')
      | _ \<Rightarrow> returnE ()))))"

definition submit_approval :: "'w LivePorts \<Rightarrow> Execution \<Rightarrow> Quote \<Rightarrow> SimulationRequest \<Rightarrow> SimulationEvidence \<Rightarrow> ('w, Execution) live" where
  "submit_approval d x q r e =
     (case (set_text (lx_approvalId x), lt_engine d) of
        (Some a, Some en) \<Rightarrow>
          bindE (get_approval d en a) (\<lambda>row.
          seqE (whenE (case row of None \<Rightarrow> True | Some w \<Rightarrow> rq_status w \<noteq> Ap_consumed)
                 (bindE (clock d) (\<lambda>now. seqE (apprE (Approvals.consume en a (binding d q r e) now)) (returnE ()))))
          (if lx_state x = Approved then move_to d (lx_id x) [Approved] (\<lambda>x. x\<lparr> lx_state := Signing \<rparr>) else returnE x))
      | _ \<Rightarrow> lt_throw ''approval unavailable'')"

definition send_broadcast :: "'w LivePorts \<Rightarrow> string \<Rightarrow> string \<Rightarrow> ('w, string) live" where
  "send_broadcast d i wire = seqE (modifyE (\<lambda>s. s\<lparr> lv_sent := lv_sent s @ [(i, wire)] \<rparr>)) (lt_broadcast d wire)"

definition submitting_as :: "Quote \<Rightarrow> SimulationRequest \<Rightarrow> string \<Rightarrow> Execution \<Rightarrow> Execution" where
  "submitting_as q r signature x = x\<lparr> lx_state := Submitting, lx_messageHash := Some (sq_messageHash r),
     lx_signature := Some signature, lx_lastValidBlockHeight := Some (qo_lastValidBlockHeight q) \<rparr>"

definition commit_reservation :: "'w LivePorts \<Rightarrow> string option \<Rightarrow> ('w, unit) live" where
  "commit_reservation d r = (case lt_reservations d of None \<Rightarrow> returnE () | Some v \<Rightarrow> rv_commit v r)"

definition landed_as :: "'w LivePorts \<Rightarrow> string \<Rightarrow> string \<Rightarrow> ('w, Execution) live" where
  "landed_as d i landed = move_to d i [Submitting] (\<lambda>x. x\<lparr> lx_state := Broadcast, lx_signature := Some landed \<rparr>)"

definition issue_refs :: "'w LivePorts \<Rightarrow> Execution \<Rightarrow> Quote \<Rightarrow> string \<Rightarrow> IssueRefs" where
  "issue_refs d x q a = \<lparr> ir_quoteHash = qo_quoteHash q, ir_policyHash = qo_policyHash q, ir_policyVersion = tp_version (lt_policy d),
     ir_riskHash = lx_riskHash x, ir_reservationId = lx_reservationId x, ir_approvalId = a,
     ir_audience = (case lt_audience d of None \<Rightarrow> ''signer'' | Some u \<Rightarrow> u) \<rparr>"

definition submit_sign :: "'w LivePorts \<Rightarrow> Execution \<Rightarrow> Quote \<Rightarrow> SimulationRequest \<Rightarrow> SimulationEvidence \<Rightarrow>
    (SimulationRequest \<Rightarrow> SimulationEvidence \<Rightarrow> IssueRefs \<Rightarrow> ('w, AuthorizationEnvelope) live) \<Rightarrow>
    (string \<Rightarrow> AuthorizationEnvelope \<Rightarrow> ('w, SignReply) live) \<Rightarrow> ('w, Execution) live" where
  "submit_sign d x q r e issuing ask =
     (let i = lx_id x in
      bindE (issuing r e (issue_refs d x q (case lx_approvalId x of None \<Rightarrow> [] | Some a \<Rightarrow> a))) (\<lambda>env.
      bindE (move_to d i [Signing] (\<lambda>x. x\<lparr> lx_authorizationId := Some (ac_id (ae_claims env)) \<rparr>)) (\<lambda>_.
      bindE (ask (sq_transaction r) env) (\<lambda>reply.
      bindE (liftE (map_sum Lt id (assertSignedTransaction (lt_lib d) reply))) (\<lambda>signature.
      bindE (move_to d i [Signing] (\<lambda>x. (submitting_as q r signature x)\<lparr> lx_authorizationId := Some (ac_id (ae_claims env)) \<rparr>)) (\<lambda>x.
      bindE (case sg_broadcast reply of Some b \<Rightarrow> returnE b
               | None \<Rightarrow> send_broadcast d i (case sg_transaction reply of None \<Rightarrow> [] | Some tx \<Rightarrow> tx)) (\<lambda>landed.
      seqE (lt_guard (landed \<noteq> signature) ''broadcast_signature_mismatch'')
     (seqE (commit_reservation d (lx_reservationId x))
           (landed_as d i landed)))))))))"

definition submit_failed :: "'w LivePorts \<Rightarrow> string \<Rightarrow> LtErr \<Rightarrow> ('w, Execution) live" where
  "submit_failed d i err =
     bindE (requireE i) (\<lambda>now.
     seqE (whenE (lx_state now = Submitting)
             (seqE (move_to d i [Submitting] (\<lambda>x. x\<lparr> lx_state := Reconciliation_required \<rparr>)) (returnE ())))
          (throwE err))"

definition submit :: "'w LivePorts \<Rightarrow> string \<Rightarrow> ('w, Execution) live" where
  "submit d i =
     bindE (requireE i) (\<lambda>x.
     seqE (lt_guard (lx_state x \<noteq> Approved \<and> lx_state x \<noteq> Signing)
             (if lx_state x = Submitting then ''submission in progress'' else ''not approved''))
    (bindE (getE (getQuote (lx_quoteId x))) (\<lambda>q.
     case q of None \<Rightarrow> lt_throw ''exact_transaction_required''
     | Some q \<Rightarrow> (case (qo_request q, qo_evidence q) of
         (Some r, Some e) \<Rightarrow> (case (lt_live d, lt_sign d, lt_issue d) of
             (True, Some ask, Some issuing) \<Rightarrow>
               seqE (submit_fences d x q)
              (bindE (submit_approval d x q r e) (\<lambda>x.
               catchE (submit_sign d x q r e issuing ask) (submit_failed d i)))
           | _ \<Rightarrow> lt_throw ''signer unavailable'')
       | _ \<Rightarrow> lt_throw ''exact_transaction_required''))))"

section \<open>Recovery\<close>

definition recover_execution :: "'w LivePorts \<Rightarrow> string \<Rightarrow> ('w, Execution) live" where
  "recover_execution d i =
     bindE (requireE i) (\<lambda>x.
     if lx_state x = Submitting then move_to d i [Submitting] (\<lambda>x. x\<lparr> lx_state := Reconciliation_required \<rparr>) else returnE x)"

definition recover_signed :: "'w LivePorts \<Rightarrow> Execution \<Rightarrow> Quote \<Rightarrow> SimulationRequest \<Rightarrow> SignReply \<Rightarrow> ('w, Execution) live" where
  "recover_signed d row q r reply =
     (case set_text (sg_transaction reply) of
        None \<Rightarrow> lt_throw ''signer_result_raw_unavailable''
      | Some tx \<Rightarrow>
          bindE (liftE (map_sum Lt id (assertSignedTransaction (lt_lib d) reply))) (\<lambda>signature.
          bindE (move_to d (lx_id row) [Signing] (submitting_as q r signature)) (\<lambda>x.
          bindE (send_broadcast d (lx_id row) tx) (\<lambda>landed.
          seqE (whenE (landed \<noteq> signature)
                 (seqE (move_to d (lx_id row) [Submitting] (\<lambda>x. x\<lparr> lx_state := Reconciliation_required \<rparr>))
                       (lt_throw ''broadcast_signature_mismatch'')))
         (seqE (commit_reservation d (lx_reservationId x))
               (landed_as d (lx_id row) landed))))))"

definition recoverSigning :: "'w LivePorts \<Rightarrow> Execution \<Rightarrow> ('w, Execution) live" where
  "recoverSigning d row =
     bindE (getE (getQuote (lx_quoteId row))) (\<lambda>q.
     case q of None \<Rightarrow> lt_throw ''exact_transaction_required''
     | Some q \<Rightarrow> (case qo_request q of None \<Rightarrow> lt_throw ''exact_transaction_required''
       | Some r \<Rightarrow> (case set_text (lx_authorizationId row) of
           None \<Rightarrow> submit d (lx_id row)
         | Some a \<Rightarrow> (case lt_result d of None \<Rightarrow> lt_throw ''signer_result_unavailable''
             | Some ask \<Rightarrow> bindE (ask a (sq_messageHash r)) (\<lambda>answer. case answer of
                   Res_expired \<Rightarrow> seqE (expire d (lx_id row) [Signing]) (lt_throw ''authorization_expired'')
                 | Res_not_found \<Rightarrow> lt_throw ''signer_result_not_found''
                 | Res_other \<Rightarrow> lt_throw ''signer_result_invalid''
                 | Res_signed reply \<Rightarrow> recover_signed d row q r reply)))))"

definition is_final :: "'w LivePorts \<Rightarrow> Commitment \<Rightarrow> bool" where
  "is_final d c \<longleftrightarrow> c = Cm_finalized \<or> (tp_finalityCommitment (lt_policy d) = Cm_confirmed \<and> c = Cm_confirmed)"

text \<open>The node knows nothing of the signature, and the node has seen it.\<close>

definition reconcile_missing :: "'w LivePorts \<Rightarrow> string \<Rightarrow> Execution \<Rightarrow> ('w, Execution) live" where
  "reconcile_missing d i x =
     bindE (case lx_lastValidBlockHeight x of None \<Rightarrow> returnE False
              | Some height \<Rightarrow> bindE (lt_blockHeight d) (\<lambda>h. returnE (h > height))) (\<lambda>dead.
     if dead
     then seqE (case (set_text (lx_reservationId x), lt_reservations d) of (Some r, Some v) \<Rightarrow> rv_release v r | _ \<Rightarrow> returnE ())
               (move_to d i [lx_state x] (\<lambda>x. x\<lparr> lx_state := Dropped \<rparr>))
     else if lx_state x = Reconciliation_required then returnE x
     else move_to d i [lx_state x] (\<lambda>x. x\<lparr> lx_state := Reconciliation_required \<rparr>))"

definition reconcile_seen :: "'w LivePorts \<Rightarrow> string \<Rightarrow> Execution \<Rightarrow> SignatureStatus \<Rightarrow> ('w, Execution) live" where
  "reconcile_seen d i x w =
     (let known = (\<lambda>st y. y\<lparr> lx_state := st, lx_signature := lx_signature x, lx_slot := Some (ss_slot w) \<rparr>)
      in if ss_err w then move_to d i [lx_state x] (known Failed)
         else move_to d i [lx_state x] (known (if is_final d (ss_confirmationStatus w) then Finalized else Confirmed)))"

definition reconcile :: "'w LivePorts \<Rightarrow> string \<Rightarrow> ('w, Execution) live" where
  "reconcile d i =
     bindE (requireE i) (\<lambda>x.
     case set_text (lx_signature x) of None \<Rightarrow> lt_throw ''transaction_not_broadcast''
     | Some sig \<Rightarrow> bindE (lt_status d sig) (\<lambda>st.
         case st of None \<Rightarrow> reconcile_missing d i x | Some w \<Rightarrow> reconcile_seen d i x w))"

record RecoveryReport =
  rr_scanned :: nat
  rr_recovered :: nat
  rr_reconciled :: nat
  rr_failed :: nat

definition recover_row :: "'w LivePorts \<Rightarrow> Execution \<Rightarrow> RecoveryReport \<Rightarrow> ('w, RecoveryReport) live" where
  "recover_row d row n =
     catchE
       (if lx_state row = Signing then seqE (recoverSigning d row) (returnE (n\<lparr> rr_recovered := rr_recovered n + 1 \<rparr>))
        else if lx_state row = Submitting then seqE (recover_execution d (lx_id row)) (returnE (n\<lparr> rr_recovered := rr_recovered n + 1 \<rparr>))
        else seqE (reconcile d (lx_id row)) (returnE (n\<lparr> rr_reconciled := rr_reconciled n + 1 \<rparr>)))
       (\<lambda>_. returnE (n\<lparr> rr_failed := rr_failed n + 1 \<rparr>))"

fun recover_rows :: "'w LivePorts \<Rightarrow> Execution list \<Rightarrow> RecoveryReport \<Rightarrow> ('w, RecoveryReport) live" where
  "recover_rows d [] n = returnE n"
| "recover_rows d (row # rows) n = bindE (recover_row d row n) (recover_rows d rows)"

definition recoverAndReconcile :: "'w LivePorts \<Rightarrow> int \<Rightarrow> ('w, RecoveryReport) live" where
  "recoverAndReconcile d limit =
     bindE (getE (list_executions [Signing, Submitting, Reconciliation_required, Broadcast, Confirmed])) (\<lambda>rows.
     let rows = take (nat limit) rows
     in recover_rows d rows \<lparr> rr_scanned = length rows, rr_recovered = 0, rr_reconciled = 0, rr_failed = 0 \<rparr>)"

text \<open>The challenge and the revision of its approval come with an execution's status.\<close>

definition execution_status :: "'w LivePorts \<Rightarrow> string \<Rightarrow> ('w, Execution \<times> (string \<times> int) option) live" where
  "execution_status d i =
     bindE (requireE i) (\<lambda>x.
     case (set_text (lx_approvalId x), lt_engine d) of
       (Some a, Some en) \<Rightarrow> bindE (get_approval d en a) (\<lambda>row.
          returnE (x, map_option (\<lambda>r. (rq_challenge r, rq_revision r)) row))
     | _ \<Rightarrow> returnE (x, None))"

section \<open>The host end of the signer's socket\<close>

text \<open>A parsed reply: what its fields hold when they are texts, and whether one is there that is not a text.\<close>

record SignerFrame =
  sf_state :: "string option"
  sf_reply :: SignReply
  sf_transaction_other :: bool
  sf_broadcast_other :: bool

definition client_sign :: "SolanaLib \<Rightarrow> SignerFrame \<Rightarrow> string + SignReply" where
  "client_sign L v =
     bindR (assertSignedTransaction L (sf_reply v)) (\<lambda>signature.
     throwIf (sf_broadcast_other v \<or> (case sg_broadcast (sf_reply v) of None \<Rightarrow> False | Some b \<Rightarrow> b \<noteq> signature)) ''invalid_signer_response''
       (Inr (sf_reply v)))"

definition client_result :: "SolanaLib \<Rightarrow> SignerFrame \<Rightarrow> string + ResultReply" where
  "client_result L v =
     (if sf_state v = Some ''expired'' then Inr Res_expired
      else if sf_state v = Some ''not_found'' then Inr Res_not_found
      else throwIf (sf_state v \<noteq> Some ''signed'' \<or> set_text (sg_signature (sf_reply v)) = None) ''invalid_signer_response''
        (if sg_transaction (sf_reply v) = None \<and> \<not> sf_transaction_other v then Inr (Res_signed (sf_reply v))
         else bindR (assertSignedTransaction L (sf_reply v)) (\<lambda>_. Inr (Res_signed (sf_reply v)))))"

record StatusFrame =
  sf_account :: "string option"
  sf_cluster :: "string option"
  sf_policyHash :: "string option"
  sf_policyVersion :: "jsnum option"
  sf_authorizationKeyId :: "string option"
  sf_serviceVersion :: "string option"

definition client_status :: "SolanaLib \<Rightarrow> StatusFrame \<Rightarrow> string + StatusFrame" where
  "client_status L v =
     throwIf ((case sf_account v of None \<Rightarrow> True | Some a \<Rightarrow> \<not> isPublicKey L a) \<or> set_text (sf_cluster v) = None \<or> sf_policyHash v = None \<or>
         (case sf_policyVersion v of None \<Rightarrow> True | Some n \<Rightarrow> \<not> js_isSafeInteger n) \<or> sf_authorizationKeyId v = None \<or> sf_serviceVersion v = None)
       ''invalid_signer_status'' (Inr v)"

definition client_probe :: "SolanaLib \<Rightarrow> string + StatusFrame \<Rightarrow> bool" where
  "client_probe L reply = (case reply of Inl _ \<Rightarrow> False | Inr v \<Rightarrow> \<not> isl (client_status L v))"

end
