(* ===== verification/LiveMachine.thy ===== *)
theory LiveMachine
  imports LiveTrading
begin

text \<open>
  The orchestrator as a machine whose steps are its stretches of code between two awaits, and the proof that every
  call, whatever runs while it waits, is a run of that machine. The machine's invariant gives what holds of every
  execution: one broadcast at most, a signature from the moment it is submitted and only then, and a consumed
  approval of its own before anything is signed.
\<close>

section \<open>The machine\<close>

definition past :: "LiveState set" where
  "past = {Submitting, Reconciliation_required, Broadcast, Confirmed, Finalized, Failed, Dropped}"

definition row_status :: "AState \<Rightarrow> string \<Rightarrow> ApprovalStatus option" where
  "row_status a i = map_option rq_status (raw i a)"

text \<open>What one transition may do to a row, given the approvals.\<close>

inductive edge :: "bool \<Rightarrow> AState \<Rightarrow> Execution \<Rightarrow> Execution \<Rightarrow> bool" for required a where
  skip_approval: "lx_state x = Awaiting_approval \<Longrightarrow> \<not> required \<Longrightarrow> edge required a x (x\<lparr> lx_state := Approved \<rparr>)"
| ask: "lx_state x = Awaiting_approval \<Longrightarrow> required \<Longrightarrow> edge required a x (x\<lparr> lx_approvalId := Some (lx_id x) \<rparr>)"
| deny: "lx_state x = Awaiting_approval \<Longrightarrow> lx_approvalId x = Some k \<Longrightarrow> row_status a k = Some Ap_denied \<Longrightarrow>
    edge required a x (with_approver u (x\<lparr> lx_state := Denied \<rparr>))"
| grant: "lx_state x = Awaiting_approval \<Longrightarrow> lx_approvalId x = Some k \<Longrightarrow> row_status a k = Some Ap_approved \<Longrightarrow>
    edge required a x (with_approver u (x\<lparr> lx_state := Approved \<rparr>))"
| burn: "lx_state x \<in> {Approved, Signing} \<Longrightarrow> edge required a x (x\<lparr> lx_state := Expired \<rparr>)"
| begin_signing: "lx_state x = Approved \<Longrightarrow> lx_approvalId x = Some k \<Longrightarrow> is_consumed a k \<Longrightarrow> edge required a x (x\<lparr> lx_state := Signing \<rparr>)"
| authorize: "lx_state x = Signing \<Longrightarrow> edge required a x (x\<lparr> lx_authorizationId := Some k \<rparr>)"
| landed: "lx_state x = Submitting \<Longrightarrow> lx_signature x = Some sg \<Longrightarrow> edge required a x (x\<lparr> lx_state := Broadcast, lx_signature := Some sg \<rparr>)"
| unsure: "lx_state x \<in> past \<Longrightarrow> edge required a x (x\<lparr> lx_state := Reconciliation_required \<rparr>)"
| drop: "lx_state x \<in> past \<Longrightarrow> edge required a x (x\<lparr> lx_state := Dropped \<rparr>)"
| settle: "lx_state x \<in> past \<Longrightarrow> st \<in> {Failed, Confirmed, Finalized} \<Longrightarrow>
    edge required a x (x\<lparr> lx_state := st, lx_signature := lx_signature x, lx_slot := n \<rparr>)"

definition stamped :: "Execution \<Rightarrow> Execution \<Rightarrow> int \<Rightarrow> Execution" where
  "stamped old x now = x\<lparr> lx_version := lx_version old + 1, lx_updatedAt := now \<rparr>"

definition set_row :: "string \<Rightarrow> Execution \<Rightarrow> 'w Live \<Rightarrow> 'w Live" where
  "set_row i x s = s\<lparr> lv_execs := update_where (\<lambda>r. lx_id r = i) (\<lambda>_. x) (lv_execs s) \<rparr>"

text \<open>The row that is about to be broadcast: the signature is kept before the bytes leave.\<close>

definition submits :: "SolanaLib \<Rightarrow> Execution \<Rightarrow> Execution \<Rightarrow> bool" where
  "submits L x y \<longleftrightarrow> lx_state x = Signing \<and>
     (\<exists>q r sg k. sg \<noteq> [] \<and> (y = submitting_as q r sg x \<or> y = (submitting_as q r sg x)\<lparr> lx_authorizationId := k \<rparr>))"

definition carries :: "SolanaLib \<Rightarrow> string \<Rightarrow> Execution \<Rightarrow> bool" where
  "carries L wire x \<longleftrightarrow> (\<exists>sg. lx_signature x = Some sg \<and> signatureOf L wire = Inr sg)"

inductive ostep :: "'w LivePorts \<Rightarrow> 'w Live \<Rightarrow> 'w Live \<Rightarrow> bool" for d where
  outside: "ostep d s (s\<lparr> lv_world := w \<rparr>)"
| approvals: "lt_engine d = Some en \<Longrightarrow> ostep d s (s\<lparr> lv_appr := approval_op en x (lv_appr s) \<rparr>)"
| quotes: "ostep d s (s\<lparr> lv_quotes := qs \<rparr>)"
| created: "\<not> exists_where (\<lambda>y. lx_id y = lx_id x \<or> lx_idempotencyKey y = lx_idempotencyKey x) (lv_execs s) \<Longrightarrow>
    lx_state x \<in> {Awaiting_approval, Dry_run} \<Longrightarrow> lx_signature x = None \<Longrightarrow> lx_approvalId x = None \<Longrightarrow>
    ostep d s (s\<lparr> lv_execs := lv_execs s @ [x] \<rparr>)"
| moved: "get_execution i s = Some x \<Longrightarrow> edge (tp_approvalRequired (lt_policy d)) (lv_appr s) x y \<Longrightarrow>
    ostep d s (set_row i (stamped x y now) s)"
| submitted: "get_execution i s = Some x \<Longrightarrow> submits (lt_lib d) x y \<Longrightarrow> ostep d s (set_row i (stamped x y now) s)"
| sent: "get_execution i s = Some x \<Longrightarrow> submits (lt_lib d) x y \<Longrightarrow> carries (lt_lib d) wire y \<Longrightarrow>
    ostep d s ((set_row i (stamped x y now) s)\<lparr> lv_sent := lv_sent s @ [(i, wire)] \<rparr>)"

abbreviation osteps :: "'w LivePorts \<Rightarrow> 'w Live \<Rightarrow> 'w Live \<Rightarrow> bool" where
  "osteps d \<equiv> (ostep d)\<^sup>*\<^sup>*"

definition live_start :: "'w \<Rightarrow> 'w Live" where
  "live_start w = \<lparr> lv_execs = [], lv_quotes = [], lv_appr = empty_approvals, lv_sent = [], lv_world = w \<rparr>"

section \<open>Invariant\<close>

definition sends :: "string \<Rightarrow> 'w Live \<Rightarrow> nat" where
  "sends i s = count_where (\<lambda>b. fst b = i) (lv_sent s)"

definition row_ok :: "SolanaLib \<Rightarrow> 'w Live \<Rightarrow> Execution \<Rightarrow> bool" where
  "row_ok L s x \<longleftrightarrow>
     (lx_signature x \<noteq> None \<longleftrightarrow> lx_state x \<in> past) \<and> lx_signature x \<noteq> Some [] \<and>
     (lx_approvalId x = None \<or> lx_approvalId x = Some (lx_id x)) \<and>
     (lx_state x \<in> insert Signing past \<longrightarrow> lx_approvalId x = Some (lx_id x) \<and> is_consumed (lv_appr s) (lx_id x)) \<and>
     sends (lx_id x) s \<le> (if lx_state x \<in> past then 1 else 0) \<and>
     (\<forall>wire. (lx_id x, wire) \<in> set (lv_sent s) \<longrightarrow> carries L wire x)"

definition appr_ok :: "'w LivePorts \<Rightarrow> AState \<Rightarrow> bool" where
  "appr_ok d a \<longleftrightarrow> (case lt_engine d of None \<Rightarrow> a = empty_approvals | Some en \<Rightarrow> \<exists>ops. a = run_approvals en ops empty_approvals)"

definition live_ok :: "'w LivePorts \<Rightarrow> 'w Live \<Rightarrow> bool" where
  "live_ok d s \<longleftrightarrow>
     distinct (map lx_id (lv_execs s)) \<and> distinct (map lx_idempotencyKey (lv_execs s)) \<and> list_all (row_ok (lt_lib d) s) (lv_execs s) \<and>
     fst ` set (lv_sent s) \<subseteq> lx_id ` set (lv_execs s) \<and>
     appr_ok d (lv_appr s)"

lemma get_execution_id: "get_execution i s = Some x \<Longrightarrow> lx_id x = i \<and> x \<in> set (lv_execs s)"
  by (auto simp: get_execution_def dest: find_where_Some)

lemma get_row_ok: "live_ok d s \<Longrightarrow> get_execution i s = Some x \<Longrightarrow> row_ok (lt_lib d) s x"
  using get_execution_id by (fastforce simp: live_ok_def list_all_iff)

lemma find_update_id:
  "lx_id x = i \<Longrightarrow> find_where (\<lambda>r. lx_id r = j) (update_where (\<lambda>r. lx_id r = i) (\<lambda>_. x) xs) =
     (if i = j then map_option (\<lambda>_. x) (find_where (\<lambda>r. lx_id r = j) xs) else find_where (\<lambda>r. lx_id r = j) xs)"
  by (induction xs) auto

lemma get_set_row: "lx_id x = i \<Longrightarrow> get_execution j (set_row i x s) = (if i = j then map_option (\<lambda>_. x) (get_execution j s) else get_execution j s)"
  by (simp add: get_execution_def set_row_def find_update_id)

lemma set_row_simps [simp]: "lv_appr (set_row i x s) = lv_appr s" "lv_sent (set_row i x s) = lv_sent s" "lv_quotes (set_row i x s) = lv_quotes s"
  by (simp_all add: set_row_def)

lemma stamped_simps [simp]:
  "lx_id (stamped x y n) = lx_id y" "lx_state (stamped x y n) = lx_state y" "lx_signature (stamped x y n) = lx_signature y"
  "lx_approvalId (stamped x y n) = lx_approvalId y" "lx_idempotencyKey (stamped x y n) = lx_idempotencyKey y" "carries L w (stamped x y n) = carries L w y"
  by (simp_all add: stamped_def carries_def)

lemma with_approver_simps [simp]:
  "lx_id (with_approver u x) = lx_id x" "lx_state (with_approver u x) = lx_state x" "lx_signature (with_approver u x) = lx_signature x"
  "lx_approvalId (with_approver u x) = lx_approvalId x" "lx_idempotencyKey (with_approver u x) = lx_idempotencyKey x"
  by (simp_all add: with_approver_def split: option.split)

lemma submitting_simps [simp]:
  "lx_id (submitting_as q r sg x) = lx_id x" "lx_state (submitting_as q r sg x) = Submitting" "lx_signature (submitting_as q r sg x) = Some sg"
  "lx_approvalId (submitting_as q r sg x) = lx_approvalId x" "lx_idempotencyKey (submitting_as q r sg x) = lx_idempotencyKey x"
  by (simp_all add: submitting_as_def)

lemma edge_keeps:
  assumes "edge required a x y"
  shows "lx_id y = lx_id x" "lx_approvalId x \<noteq> None \<Longrightarrow> lx_approvalId y \<noteq> None" "lx_signature y = lx_signature x"
    "lx_state x \<in> past \<Longrightarrow> lx_state y \<in> past" "lx_state y \<in> past \<Longrightarrow> lx_state x \<in> past"
    "lx_idempotencyKey y = lx_idempotencyKey x"
  using assms by (cases; auto simp: past_def)+

lemma edge_ok:
  assumes "edge required (lv_appr s) x y" "row_ok L s x"
  shows "row_ok L s (stamped x y n)"
proof -
  have past: "lx_state y \<in> past \<longleftrightarrow> lx_state x \<in> past" using edge_keeps(4,5) [OF assms(1)] by blast
  have sign: "lx_state y \<in> insert Signing past \<Longrightarrow> lx_approvalId y = Some (lx_id x) \<and> is_consumed (lv_appr s) (lx_id x)"
    and appr: "lx_approvalId y = None \<or> lx_approvalId y = Some (lx_id x)"
    using assms by (cases; auto simp: row_ok_def past_def)+
  have "carries L w y = carries L w x" for w using edge_keeps(3) [OF assms(1)] by (simp add: carries_def)
  then show ?thesis using assms(2) past sign appr edge_keeps(1,3) [OF assms(1)] by (auto simp: row_ok_def)
qed

lemma submits_keeps:
  assumes "submits L x y"
  shows "lx_id y = lx_id x" "lx_approvalId y = lx_approvalId x" "lx_state x = Signing" "lx_state y = Submitting"
    "\<exists>sg. sg \<noteq> [] \<and> lx_signature y = Some sg" "lx_idempotencyKey y = lx_idempotencyKey x"
  using assms by (auto simp: submits_def)

lemma row_ok_cong: "lv_appr t = lv_appr s \<Longrightarrow> lv_sent t = lv_sent s \<Longrightarrow> row_ok L t x = row_ok L s x"
  by (simp add: row_ok_def sends_def)

lemma sends_0: "sends i s = 0 \<longleftrightarrow> (\<forall>w. (i, w) \<notin> set (lv_sent s))"
  by (auto simp: sends_def count_where_def filter_empty_conv)

lemma signing_unsent: "row_ok L s x \<Longrightarrow> lx_state x = Signing \<Longrightarrow> sends (lx_id x) s = 0"
  by (auto simp: row_ok_def past_def split: if_splits)

lemma submitted_ok:
  assumes "submits L x y" "row_ok L s x"
  shows "row_ok L s (stamped x y n)"
  using submits_keeps [OF assms(1)] assms(2) signing_unsent [OF assms(2)] sends_0 [of "lx_id x" s]
  by (auto simp: row_ok_def past_def)

lemma sends_append: "sends i (s\<lparr> lv_sent := lv_sent s @ [(k, w)] \<rparr>) = sends i s + (if k = i then 1 else 0)"
  by (simp add: sends_def)

lemma sent_ok:
  assumes "submits L x y" "row_ok L s x" "carries L wire y"
  shows "row_ok L (s\<lparr> lv_sent := lv_sent s @ [(lx_id x, wire)] \<rparr>) (stamped x y n)"
  using submitted_ok [OF assms(1,2), of n] submits_keeps [OF assms(1)] assms(3) signing_unsent [OF assms(2)]
  by (simp add: row_ok_def sends_append past_def)

lemma sent_other: "row_ok L s z \<Longrightarrow> lx_id z \<noteq> k \<Longrightarrow> row_ok L (s\<lparr> lv_sent := lv_sent s @ [(k, wire)] \<rparr>) z"
  by (auto simp: row_ok_def sends_append)

text \<open>A row replaced by one with the same identity.\<close>

lemma field_update_row:
  "find_where (\<lambda>r. lx_id r = i) xs = Some x \<Longrightarrow> f y = f x \<Longrightarrow> distinct (map lx_id xs) \<Longrightarrow>
     map f (update_where (\<lambda>r. lx_id r = i) (\<lambda>_. y) xs) = map f xs"
proof (induction xs)
  case (Cons z zs)
  show ?case
  proof (cases "lx_id z = i")
    case True
    then have "\<forall>w\<in>set zs. lx_id w \<noteq> i" using Cons.prems(3) by (auto simp: image_iff)
    then have "update_where (\<lambda>r. lx_id r = i) (\<lambda>_. y) zs = zs" by (induction zs) auto
    then show ?thesis using True Cons.prems by simp
  qed (use Cons in simp)
qed simp

lemma keys_set_row:
  assumes "get_execution i s = Some x" "lx_idempotencyKey y = lx_idempotencyKey x" "distinct (map lx_id (lv_execs s))"
  shows "map lx_idempotencyKey (lv_execs (set_row i y s)) = map lx_idempotencyKey (lv_execs s)"
  using field_update_row assms unfolding get_execution_def set_row_def by simp

lemma live_ok_set_row:
  assumes ok: "live_ok d s" and x: "get_execution i s = Some x" and id: "lx_id y = i"
    and key: "lx_idempotencyKey y = lx_idempotencyKey x"
    and t: "lv_execs t = lv_execs (set_row i y s)" "lv_appr t = lv_appr s" "fst ` set (lv_sent t) \<subseteq> insert i (fst ` set (lv_sent s))"
    and rows: "row_ok (lt_lib d) t y" "\<And>z. row_ok (lt_lib d) s z \<Longrightarrow> lx_id z \<noteq> i \<Longrightarrow> row_ok (lt_lib d) t z"
  shows "live_ok d t"
proof -
  have ids: "map lx_id (lv_execs t) = map lx_id (lv_execs s)" using id unfolding t(1) by (simp add: set_row_def)
  have keys: "map lx_idempotencyKey (lv_execs t) = map lx_idempotencyKey (lv_execs s)"
    unfolding t(1) by (rule keys_set_row [OF x key]) (use ok in \<open>simp add: live_ok_def\<close>)
  have "list_all (row_ok (lt_lib d) t) (lv_execs t)"
    using ok rows unfolding t(1) by (auto simp: live_ok_def list_all_iff set_row_def set_update_where)
  moreover have "fst ` set (lv_sent t) \<subseteq> lx_id ` set (lv_execs t)"
  proof -
    have "insert i (fst ` set (lv_sent s)) \<subseteq> lx_id ` set (lv_execs s)" using ok get_execution_id [OF x] by (auto simp: live_ok_def)
    also have "\<dots> = lx_id ` set (lv_execs t)" using arg_cong [OF ids, of set] by simp
    finally show ?thesis using t(3) by blast
  qed
  ultimately show ?thesis using ok ids keys t(2) by (simp add: live_ok_def)
qed

lemma row_ok_appr: "rows_le (lv_appr s) (lv_appr t) \<Longrightarrow> lv_sent t = lv_sent s \<Longrightarrow> row_ok L s x \<Longrightarrow> row_ok L t x"
  by (auto simp: row_ok_def sends_def dest: is_consumed_mono)

lemma ostep_ok:
  assumes "ostep d s t" "live_ok d s"
  shows "live_ok d t"
  using assms(1)
proof cases
  case (outside w)
  have "row_ok L t = row_ok L s" for L by (rule ext, rule row_ok_cong) (simp_all add: outside)
  then show ?thesis using assms(2) outside by (simp add: live_ok_def)
next
  case (approvals en x)
  then obtain ops where ops: "lv_appr s = run_approvals en ops empty_approvals" using assms(2) by (auto simp: live_ok_def appr_ok_def)
  then have "lv_appr t = run_approvals en (ops @ [x]) empty_approvals" using approvals by (simp add: run_approvals_def)
  then have "appr_ok d (lv_appr t)" using approvals(2) by (auto simp: appr_ok_def)
  moreover have "row_ok L t z" if "row_ok L s z" for L z
    using rows_le_op approvals(1) that by (intro row_ok_appr [of s t]) simp_all
  ultimately show ?thesis using approvals(1) assms(2) by (simp add: live_ok_def list_all_iff)
next
  case (quotes qs)
  have "row_ok L t = row_ok L s" for L by (rule ext, rule row_ok_cong) (simp_all add: quotes)
  then show ?thesis using assms(2) quotes by (simp add: live_ok_def)
next
  case (created x)
  have fresh: "lx_id x \<notin> lx_id ` set (lv_execs s)" "lx_idempotencyKey x \<notin> lx_idempotencyKey ` set (lv_execs s)"
    using created(2) by (auto simp: exists_where_iff)
  have sub: "fst ` set (lv_sent s) \<subseteq> lx_id ` set (lv_execs s)" using assms(2) by (simp add: live_ok_def)
  have none: "(lx_id x, w) \<notin> set (lv_sent s)" for w
  proof
    assume "(lx_id x, w) \<in> set (lv_sent s)"
    then have "lx_id x \<in> fst ` set (lv_sent s)" by (rule image_eqI [rotated]) simp
    then show False using sub fresh(1) by blast
  qed
  have same: "row_ok L t = row_ok L s" for L by (rule ext, rule row_ok_cong) (simp_all add: created(1))
  have "sends (lx_id x) s = 0" using none by (simp add: sends_0)
  moreover have "lx_state x \<notin> insert Signing past" using created(3) by (auto simp: past_def)
  ultimately have "row_ok (lt_lib d) s x" using created(4,5) none unfolding row_ok_def by simp
  moreover have "fst ` set (lv_sent t) \<subseteq> lx_id ` set (lv_execs t)" using sub created(1) by auto
  ultimately show ?thesis using assms(2) fresh created(1) same by (simp add: live_ok_def)
next
  case (moved i x y now)
  have id: "lx_id x = i" using get_execution_id moved(2) by blast
  have same: "row_ok L (set_row k y s) z = row_ok L s z" for L k y z by (intro row_ok_cong) simp_all
  show ?thesis
    by (rule live_ok_set_row [OF assms(2) moved(2), where y = "stamped x y now"])
      (use edge_ok [OF moved(3) get_row_ok [OF assms(2) moved(2)]] edge_keeps(1,6) [OF moved(3)] id moved(1) in
        \<open>auto simp: same\<close>)
next
  case (submitted i x y now)
  have id: "lx_id x = i" using get_execution_id submitted(2) by blast
  have same: "row_ok L (set_row k y s) z = row_ok L s z" for L k y z by (intro row_ok_cong) simp_all
  show ?thesis
    by (rule live_ok_set_row [OF assms(2) submitted(2), where y = "stamped x y now"])
      (use submitted_ok [OF submitted(3) get_row_ok [OF assms(2) submitted(2)]] submits_keeps(1,6) [OF submitted(3)] id submitted(1) in
        \<open>auto simp: same\<close>)
next
  case (sent i x y wire now)
  have id: "lx_id x = i" using get_execution_id sent(2) by blast
  have cong: "row_ok L ((set_row k y s)\<lparr> lv_sent := lv_sent s @ bs \<rparr>) z = row_ok L (s\<lparr> lv_sent := lv_sent s @ bs \<rparr>) z" for L k y bs z
    by (intro row_ok_cong) simp_all
  show ?thesis
    by (rule live_ok_set_row [OF assms(2) sent(2), where y = "stamped x y now"])
      (use sent_ok [OF sent(3) get_row_ok [OF assms(2) sent(2)] sent(4)] submits_keeps(1,6) [OF sent(3)] id sent(1) sent_other in
        \<open>auto simp: cong\<close>)
qed

lemma osteps_ok: "osteps d s t \<Longrightarrow> live_ok d s \<Longrightarrow> live_ok d t"
  by (induction rule: rtranclp_induct) (auto intro: ostep_ok)

lemma start_ok: "live_ok d (live_start w)"
proof -
  have "run_approvals en [] empty_approvals = empty_approvals" for en by (simp add: run_approvals_def)
  then have "\<exists>ops. empty_approvals = run_approvals en ops empty_approvals" for en by metis
  then show ?thesis by (simp add: live_ok_def live_start_def appr_ok_def split: option.split)
qed


section \<open>What stays of a row\<close>

definition row_stays :: "'w Live \<Rightarrow> 'w Live \<Rightarrow> bool" where
  "row_stays s t \<longleftrightarrow> (\<forall>a. is_consumed (lv_appr s) a \<longrightarrow> is_consumed (lv_appr t) a) \<and>
     (\<forall>i x. get_execution i s = Some x \<longrightarrow> (\<exists>y. get_execution i t = Some y \<and>
        (lx_approvalId x \<noteq> None \<longrightarrow> lx_approvalId y \<noteq> None) \<and>
        (lx_state x \<in> past \<longrightarrow> lx_state y \<in> past \<and> lx_signature y = lx_signature x)))"

lemma row_stays_refl: "row_stays s s"
  by (simp add: row_stays_def)

lemma row_stays_trans: "row_stays s t \<Longrightarrow> row_stays t u \<Longrightarrow> row_stays s u"
  unfolding row_stays_def by (metis (no_types, lifting))

lemma row_stays_set_row:
  assumes "get_execution i s = Some x" "lx_id y = i" "lv_execs t = lv_execs (set_row i y s)" "lv_appr t = lv_appr s"
    and "lx_approvalId x \<noteq> None \<Longrightarrow> lx_approvalId y \<noteq> None"
    and "lx_state x \<in> past \<Longrightarrow> lx_state y \<in> past \<and> lx_signature y = lx_signature x"
  shows "row_stays s t"
proof -
  have "get_execution j t = (if i = j then map_option (\<lambda>_. y) (get_execution j s) else get_execution j s)" for j
    using get_set_row [OF assms(2), of j s] assms(3) by (simp add: get_execution_def)
  then show ?thesis using assms by (auto simp: row_stays_def)
qed

lemma ostep_stays:
  assumes "ostep d s t"
  shows "row_stays s t"
  using assms
proof cases
  case (approvals en x)
  then show ?thesis using rows_le_op is_consumed_mono by (auto simp: row_stays_def get_execution_def)
next
  case (created x)
  then show ?thesis by (auto simp: row_stays_def get_execution_def find_where_append)
next
  case (moved i x y now)
  then show ?thesis using get_execution_id edge_keeps [OF moved(3)] by (intro row_stays_set_row [of i s x "stamped x y now"]) auto
next
  case (submitted i x y now)
  then show ?thesis using get_execution_id submits_keeps [OF submitted(3)]
    by (intro row_stays_set_row [of i s x "stamped x y now"]) (auto simp: past_def)
next
  case (sent i x y wire now)
  then show ?thesis using get_execution_id submits_keeps [OF sent(3)]
    by (intro row_stays_set_row [of i s x "stamped x y now"]) (auto simp: past_def)
qed (simp_all add: row_stays_def get_execution_def)

lemma osteps_stays: "osteps d s t \<Longrightarrow> row_stays s t"
  by (induction rule: rtranclp_induct) (auto intro: row_stays_refl row_stays_trans ostep_stays)

section \<open>Every call is a run of the machine\<close>

definition runs :: "'w LivePorts \<Rightarrow> ('w, 'a) live \<Rightarrow> 'w Live \<Rightarrow> 'w Live \<Rightarrow> bool" where
  "runs d m s t \<longleftrightarrow> wp m (\<lambda>_ u. osteps d s u) (\<lambda>_ u. osteps d s u) t"

text \<open>
  What runs while a call waits: a port may change the world and let other calls run, so that at most it is a run of the
  machine from any state that keeps the invariant.
\<close>

definition allowed :: "'w LivePorts \<Rightarrow> ('w, 'a) live \<Rightarrow> bool" where
  "allowed d m \<longleftrightarrow> (\<forall>s. live_ok d s \<longrightarrow> osteps d s (snd (m s)))"

definition option_allowed :: "('a \<Rightarrow> bool) \<Rightarrow> 'a option \<Rightarrow> bool" where
  "option_allowed P x = (case x of None \<Rightarrow> True | Some y \<Rightarrow> P y)"

definition ports_ok :: "'w LivePorts \<Rightarrow> bool" where
  "ports_ok d \<longleftrightarrow>
     (\<forall>x. allowed d (lt_quote d x)) \<and> option_allowed (\<lambda>f. \<forall>x y. allowed d (f x y)) (lt_revokeQuote d) \<and>
     (\<forall>x. allowed d (lt_simulate d x)) \<and> (\<forall>x. allowed d (lt_broadcast d x)) \<and> (\<forall>x. allowed d (lt_status d x)) \<and>
     allowed d (lt_blockHeight d) \<and>
     option_allowed (\<lambda>f. \<forall>x y. allowed d (f x y)) (lt_sign d) \<and> option_allowed (\<lambda>f. \<forall>x y. allowed d (f x y)) (lt_result d) \<and>
     option_allowed (\<lambda>f. \<forall>x y z. allowed d (f x y z)) (lt_issue d) \<and> option_allowed (\<lambda>f. \<forall>x y z. allowed d (f x y z)) (lt_risk d) \<and>
     option_allowed (\<lambda>v. (\<forall>x y z. allowed d (rv_reserve v x y z)) \<and> (\<forall>x. allowed d (rv_valid v x)) \<and>
       (\<forall>x. allowed d (rv_commit v x)) \<and> (\<forall>x. allowed d (rv_release v x))) (lt_reservations d)"

lemma runs_return [intro]: "osteps d s t \<Longrightarrow> runs d (returnE x) s t"
  by (simp add: runs_def wp_simps)

lemma runs_throw [intro]: "osteps d s t \<Longrightarrow> runs d (lt_throw x) s t" "osteps d s t \<Longrightarrow> runs d (throwE y) s t"
  by (simp_all add: runs_def wp_simps lt_throw_def)

lemma runs_bind: "wp m (\<lambda>x u. runs d (f x) s u) (\<lambda>_ u. osteps d s u) t \<Longrightarrow> runs d (bindE m f) s t"
  by (simp add: runs_def wp_simps)

lemma runs_port:
  assumes "allowed d m" "live_ok d s" "osteps d s t" "\<And>x u. osteps d t u \<Longrightarrow> osteps d s u \<Longrightarrow> runs d (f x) s u"
  shows "runs d (bindE m f) s t"
proof -
  have "osteps d t (snd (m t))" using assms(1) osteps_ok [OF assms(3,2)] by (simp add: allowed_def)
  then have "wp m (\<lambda>_ u. osteps d t u) (\<lambda>_ u. osteps d t u) t" by (auto simp: wp_def split: prod.splits sum.splits)
  then show ?thesis using assms(3,4) by (intro runs_bind) (auto elim!: wp_mono intro: rtranclp_trans)
qed

lemma runs_port_seq: "allowed d m \<Longrightarrow> live_ok d s \<Longrightarrow> osteps d s t \<Longrightarrow> (\<And>u. osteps d t u \<Longrightarrow> osteps d s u \<Longrightarrow> runs d n s u) \<Longrightarrow> runs d (seqE m n) s t"
  unfolding seqE_def by (rule runs_port)

lemma runs_guard: "osteps d s t \<Longrightarrow> (\<not> b \<Longrightarrow> runs d m s t) \<Longrightarrow> runs d (seqE (lt_guard b e) m) s t"
  by (auto simp: runs_def wp_simps lt_guard_def)

lemma runs_get: "runs d (f (g t)) s t \<Longrightarrow> runs d (bindE (getE g) f) s t"
  by (simp add: runs_def wp_simps)

lemma runs_clock: "runs d (f (lt_now d t)) s t \<Longrightarrow> runs d (bindE (clock d) f) s t"
  unfolding clock_def by (rule runs_get)

lemma runs_require:
  "osteps d s t \<Longrightarrow> (\<And>x. get_execution i t = Some x \<Longrightarrow> runs d (f x) s t) \<Longrightarrow> runs d (bindE (requireE i) f) s t"
  by (auto simp: runs_def wp_simps requireE_def wp_def bindE_def split: option.split)

lemma runs_lift: "osteps d s t \<Longrightarrow> (\<And>x. r = Inr x \<Longrightarrow> runs d (f x) s t) \<Longrightarrow> runs d (bindE (liftE r) f) s t"
  by (auto simp: runs_def wp_simps split: sum.split)

lemma bind_bind: "bindE (bindE m f) g = bindE m (\<lambda>x. bindE (f x) g)"
  by (rule ext) (simp add: bindE_def split: prod.split sum.split)

lemma bind_seq: "bindE (seqE m n) f = seqE m (bindE n f)" "seqE (bindE n f) k = bindE n (\<lambda>x. seqE (f x) k)"
  by (simp_all add: seqE_def bind_bind)

lemma seq_seq: "seqE (seqE m n) k = seqE m (seqE n k)"
  by (simp add: seqE_def bind_bind)

lemmas eff_assoc = bind_bind bind_seq seq_seq

lemma eff_unit: "bindE (returnE x) f = f x" "seqE (returnE x) m = m" "bindE (throwE e) h = throwE e" "seqE (throwE e) m' = throwE e"
  by (rule ext; simp add: bindE_def seqE_def returnE_def throwE_def)+

lemma bind_if: "bindE (if c then m else returnE x) f = (if c then bindE m f else f x)"
  by (simp add: eff_unit)

text \<open>The engine's operations are steps.\<close>

lemma appr_step:
  assumes "lt_engine d = Some en" "osteps d s t" "snd (f (lv_appr t)) = approval_op en x (lv_appr t)"
  shows "osteps d s (t\<lparr> lv_appr := snd (f (lv_appr t)) \<rparr>)"
  using assms(2) ostep.approvals [OF assms(1), of t x] unfolding assms(3) by (rule rtranclp.rtrancl_into_rtrancl)

lemma runs_appr:
  assumes "lt_engine d = Some en" "osteps d s t" "snd (f (lv_appr t)) = approval_op en op (lv_appr t)"
    and "\<And>x. fst (f (lv_appr t)) = Inr x \<Longrightarrow> osteps d s (t\<lparr> lv_appr := snd (f (lv_appr t)) \<rparr>) \<Longrightarrow> runs d (g x) s (t\<lparr> lv_appr := snd (f (lv_appr t)) \<rparr>)"
  shows "runs d (bindE (apprE f) g) s t"
  using appr_step [where d = d and s = s and t = t and f = f and x = op, OF assms(1-3)] assms(4)
  by (cases "f (lv_appr t)"; cases "fst (f (lv_appr t))") (auto simp: runs_def apprE_def wp_def bindE_def split: sum.splits)

text \<open>A guarded transition is a step when the row it finds may take it.\<close>

lemma move_step:
  assumes "osteps d s t" "\<And>x. get_execution i t = Some x \<Longrightarrow> lx_state x \<in> set from_states \<Longrightarrow>
      edge (tp_approvalRequired (lt_policy d)) (lv_appr t) x (p x)"
  shows "wp (move_to d i from_states p)
     (\<lambda>y u. osteps d s u \<and> (\<exists>x. get_execution i t = Some x \<and> lx_state x \<in> set from_states \<and> y = stamped x (p x) (lt_now d t) \<and> u = set_row i y t))
     (\<lambda>_ u. osteps d s u) t"
proof (cases "get_execution i t")
  case None
  then show ?thesis using assms(1) by (simp add: move_to_def clock_def transition_def bindE_def getE_def wp_def)
next
  case (Some x)
  have "osteps d s (set_row i (stamped x (p x) n) t)" if "lx_state x \<in> set from_states" for n
    using assms(1) ostep.moved [OF Some assms(2) [OF Some that]] by (rule rtranclp.rtrancl_into_rtrancl)
  then show ?thesis using Some assms(1)
    by (auto simp: move_to_def clock_def transition_def bindE_def getE_def wp_def Let_def stamped_def set_row_def)
qed

lemma runs_move:
  assumes "osteps d s t" "\<And>x. get_execution i t = Some x \<Longrightarrow> lx_state x \<in> set from_states \<Longrightarrow>
      edge (tp_approvalRequired (lt_policy d)) (lv_appr t) x (p x)"
  shows "runs d (move_to d i from_states p) s t"
  unfolding runs_def using move_step [of d s t i from_states p] assms by (auto elim!: wp_mono)

lemma runs_move_bind:
  assumes "osteps d s t" "\<And>x. get_execution i t = Some x \<Longrightarrow> lx_state x \<in> set from_states \<Longrightarrow>
      edge (tp_approvalRequired (lt_policy d)) (lv_appr t) x (p x)"
    and "\<And>x y u. osteps d s u \<Longrightarrow> get_execution i t = Some x \<Longrightarrow> lx_state x \<in> set from_states \<Longrightarrow> y = stamped x (p x) (lt_now d t) \<Longrightarrow>
      u = set_row i y t \<Longrightarrow> runs d (f y) s u"
  shows "runs d (bindE (move_to d i from_states p) f) s t"
  by (rule runs_bind) (use move_step [of d s t i from_states p] assms in \<open>auto elim!: wp_mono\<close>)

lemma runs_move_seq:
  assumes "osteps d s t" "\<And>x. get_execution i t = Some x \<Longrightarrow> lx_state x \<in> set from_states \<Longrightarrow>
      edge (tp_approvalRequired (lt_policy d)) (lv_appr t) x (p x)"
    and "\<And>u. osteps d s u \<Longrightarrow> runs d n s u"
  shows "runs d (seqE (move_to d i from_states p) n) s t"
  unfolding seqE_def by (rule runs_move_bind [OF assms(1,2)]) (use assms(3) in blast)+


section \<open>The calls\<close>

definition quiet :: "'w LivePorts \<Rightarrow> 'w Live \<Rightarrow> ('w, 'a) live \<Rightarrow> bool" where
  "quiet d s m \<longleftrightarrow> (live_ok d s \<longrightarrow> (\<forall>t. osteps d s t \<longrightarrow> runs d m s t))"

lemma quietI: "(\<And>t. live_ok d s \<Longrightarrow> osteps d s t \<Longrightarrow> runs d m s t) \<Longrightarrow> quiet d s m"
  by (simp add: quiet_def)

lemma quiet_bind: "quiet d s m \<Longrightarrow> (\<And>x. quiet d s (f x)) \<Longrightarrow> quiet d s (bindE m f)"
  unfolding quiet_def runs_def wp_bindE by (auto elim!: wp_mono)

lemma quiet_seq: "quiet d s m \<Longrightarrow> quiet d s n \<Longrightarrow> quiet d s (seqE m n)"
  unfolding seqE_def by (rule quiet_bind)

lemma quiet_simple [intro!]:
  "quiet d s (returnE x)" "quiet d s (lt_throw e)" "quiet d s (throwE err)" "quiet d s (lt_guard b e)" "quiet d s (liftE r)"
  "quiet d s (clock d)" "quiet d s (getE g)" "quiet d s (requireE i)"
  by (auto simp: quiet_def runs_def lt_throw_def lt_guard_def clock_def requireE_def wp_def returnE_def throwE_def guardE_def liftE_def
      getE_def split: sum.split option.split)

lemma quiet_allowed: "allowed d m \<Longrightarrow> quiet d s m"
proof (rule quietI)
  fix t
  assume m: "allowed d m" and t: "live_ok d s" "osteps d s t"
  have "osteps d t (snd (m t))" using m osteps_ok [OF t(2,1)] by (simp add: allowed_def)
  with t(2) have "osteps d s (snd (m t))" by (rule rtranclp_trans)
  then show "runs d m s t" by (auto simp: runs_def wp_def split: prod.splits sum.splits)
qed

lemma quiet_appr: "lt_engine d = Some en \<Longrightarrow> (\<And>a. snd (f a) = approval_op en op a) \<Longrightarrow> quiet d s (apprE f)"
proof (rule quietI)
  fix t
  assume en: "lt_engine d = Some en" "\<And>a. snd (f a) = approval_op en op a" and t: "osteps d s t"
  have "osteps d s (t\<lparr> lv_appr := snd (f (lv_appr t)) \<rparr>)"
    using t ostep.approvals [OF en(1), of t op] unfolding en(2) by (rule rtranclp.rtrancl_into_rtrancl)
  then show "runs d (apprE f) s t" by (auto simp: runs_def wp_def apprE_def split: prod.split sum.split)
qed

lemma ports_allowed:
  assumes "ports_ok d"
  shows "allowed d (lt_quote d x)" "lt_revokeQuote d = Some f \<Longrightarrow> allowed d (f y z)" "allowed d (lt_simulate d u)"
    "allowed d (lt_broadcast d w)" "allowed d (lt_status d w)" "allowed d (lt_blockHeight d)"
    "lt_sign d = Some g \<Longrightarrow> allowed d (g y e)" "lt_result d = Some h \<Longrightarrow> allowed d (h y z)"
    "lt_issue d = Some k \<Longrightarrow> allowed d (k r v b)" "lt_risk d = Some l \<Longrightarrow> allowed d (l q r v)"
    "lt_reservations d = Some m \<Longrightarrow> allowed d (rv_reserve m y z w)" "lt_reservations d = Some m \<Longrightarrow> allowed d (rv_valid m y)"
    "lt_reservations d = Some m \<Longrightarrow> allowed d (rv_commit m c)" "lt_reservations d = Some m \<Longrightarrow> allowed d (rv_release m y)"
  using assms unfolding ports_ok_def option_allowed_def by auto

lemmas quiet_ports = ports_allowed [THEN quiet_allowed]

lemma quiet_putQuote: "quiet d s (putQuote q)"
proof (rule quietI)
  fix t assume "osteps d s t"
  then have "osteps d s (t\<lparr> lv_quotes := qs \<rparr>)" for qs using ostep.quotes by (rule rtranclp.rtrancl_into_rtrancl)
  then show "runs d (putQuote q) s t" by (simp add: runs_def putQuote_def wp_simps)
qed

lemma quiet_move:
  assumes "\<And>x a. lx_state x \<in> set from_states \<Longrightarrow> edge (tp_approvalRequired (lt_policy d)) a x (p x)"
  shows "quiet d s (move_to d i from_states p)"
  by (rule quietI, rule runs_move) (use assms in blast)+

lemma quiet_quote: "ports_ok d \<Longrightarrow> quiet d s (quote d x newId)"
  unfolding quote_def Let_def
  by (auto intro!: quiet_bind quiet_seq quiet_putQuote intro: quiet_ports split: option.split)

lemma quiet_revokeQuote: "ports_ok d \<Longrightarrow> quiet d s (revokeQuote d a newId)"
  unfolding revokeQuote_def Let_def
  by (auto intro!: quiet_bind quiet_seq quiet_putQuote intro: quiet_ports split: option.split)

lemma quiet_create:
  assumes "lx_signature x = None" "lx_approvalId x = None" "st \<in> {Awaiting_approval, Dry_run}"
  shows "quiet d s (create_execution x st now)"
proof (rule quietI)
  fix t assume t: "osteps d s t"
  let ?r = "x\<lparr> lx_version := 0, lx_state := st, lx_createdAt := now, lx_updatedAt := now \<rparr>"
  have "osteps d s (t\<lparr> lv_execs := lv_execs t @ [?r] \<rparr>)"
    if "\<not> exists_where (\<lambda>y. lx_id y = lx_id x \<or> lx_idempotencyKey y = lx_idempotencyKey x) (lv_execs t)"
    using t by (rule rtranclp.rtrancl_into_rtrancl) (rule ostep.created, use that assms in simp_all)
  then show "runs d (create_execution x st now) s t" using t by (simp add: runs_def wp_def create_execution_def Let_def)
qed

lemma quiet_get_approval: "lt_engine d = Some en \<Longrightarrow> quiet d s (get_approval d en a)"
proof -
  assume en: "lt_engine d = Some en"
  have "quiet d s (apprE (\<lambda>s. case get_request en a now s of (r, t) \<Rightarrow> (Inr r, t)))" for now
    by (rule quiet_appr [OF en, of _ "(now, AO_get a)"]) (simp split: prod.split)
  then show ?thesis unfolding get_approval_def by (intro quiet_bind) auto
qed

lemma quiet_request: "lt_engine d = Some en \<Longrightarrow> quiet d s (apprE (Approvals.request en i q sc ch now))"
  by (rule quiet_appr [where op = "(now, AO_request i q sc ch)"]) simp_all

lemma quiet_decide: "lt_engine d = Some en \<Longrightarrow> quiet d s (decideE d en a i)"
proof -
  assume en: "lt_engine d = Some en"
  have "quiet d s (apprE (Approvals.decide en a i now))" for now
    by (rule quiet_appr [OF en, of _ "(now, AO_decide a i)"]) simp
  then show ?thesis unfolding decideE_def by (intro quiet_bind quiet_seq) auto
qed

lemma quiet_ask: "quiet d s (ask_approval d q r e i actor ch)"
  unfolding ask_approval_def by (auto intro!: quiet_bind quiet_seq quiet_request split: option.split)

lemma quiet_execute_live:
  assumes "ports_ok d"
  shows "quiet d s (execute_live d q r e key actor newId ch)"
proof -
  have made: "quiet d s (bindE (create_execution x Awaiting_approval now) f)"
    if "lx_signature x = None" "lx_approvalId x = None" "\<And>y. lx_id y = lx_id x \<Longrightarrow> quiet d s (f y)" for x now f
  proof (rule quietI)
    fix t
    assume ok: "live_ok d s" and "osteps d s t"
    then have "runs d (create_execution x Awaiting_approval now) s t" using quiet_create [OF that(1,2), of Awaiting_approval d s now] by (simp add: quiet_def)
    moreover have "wp (create_execution x Awaiting_approval now) (\<lambda>y _. lx_id y = lx_id x) (\<lambda>_ _. True) t"
      by (simp add: wp_def create_execution_def Let_def)
    ultimately have "wp (create_execution x Awaiting_approval now) (\<lambda>y u. osteps d s u \<and> lx_id y = lx_id x) (\<lambda>_ u. osteps d s u \<and> True) t"
      unfolding runs_def by (rule wp_conj)
    then show "runs d (bindE (create_execution x Awaiting_approval now) f) s t"
      using that(3) ok by (intro runs_bind) (auto simp: quiet_def elim!: wp_mono)
  qed
  have skip: "quiet d s (move_to d i [Awaiting_approval] (\<lambda>x. x\<lparr> lx_state := Approved \<rparr>))" if "\<not> tp_approvalRequired (lt_policy d)" for i
    using that by (intro quiet_move) (auto intro: edge.skip_approval)
  have asked: "quiet d s (move_to d j [Awaiting_approval] (\<lambda>y. y\<lparr> lx_approvalId := Some j \<rparr>))" if required: "tp_approvalRequired (lt_policy d)" for j
  proof (rule quietI, rule runs_move)
    fix t x
    assume "get_execution j t = Some x" "lx_state x \<in> set [Awaiting_approval]"
    then show "edge (tp_approvalRequired (lt_policy d)) (lv_appr t) x (x\<lparr> lx_approvalId := Some j \<rparr>)"
      using get_execution_id edge.ask [OF _ required, of x] by fastforce
  qed
  have checks: "quiet d s (assess d q r e)" "quiet d s (reserve_for d q r)"
    unfolding assess_def reserve_for_def using assms by (auto intro!: quiet_bind quiet_seq intro: quiet_ports split: option.split)
  show ?thesis
    unfolding execute_live_def
    by (rule quiet_seq, rule quiet_simple, rule quiet_bind, rule quiet_ports(6) [OF assms], rule quiet_seq, rule quiet_simple,
        rule quiet_bind, rule checks(1), rule quiet_bind, rule checks(2), rule quiet_bind, rule quiet_simple, rule made)
      (auto intro!: quiet_seq quiet_ask skip asked simp: new_execution_def)
qed


lemma quiet_execute: "ports_ok d \<Longrightarrow> quiet d s (execute_trade d k key actor dry newId ch)"
proof -
  assume ports: "ports_ok d"
  have again: "quiet d s (simulate_again d q)" for q
    unfolding simulate_again_def using ports by (auto intro!: quiet_bind intro: quiet_ports split: option.split SimulateAnswer.split bool.split)
  have "quiet d s (create_execution (new_execution newId q actor key True h) Dry_run now)" for q h now
    by (rule quiet_create) (simp_all add: new_execution_def)
  then have "quiet d s (execute_quote d q key actor dry newId ch)" for q
    unfolding execute_quote_def Let_def
    by (auto intro!: quiet_bind quiet_seq again quiet_execute_live [OF ports] split: option.split)
  then show ?thesis unfolding execute_trade_def by (auto intro!: quiet_bind split: option.split)
qed

lemma quiet_revoke: "ports_ok d \<Longrightarrow> quiet d s (revoke_delegate d a key actor dry k newId ch)"
  unfolding revoke_delegate_def by (auto intro!: quiet_bind quiet_revokeQuote quiet_execute split: option.split)

text \<open>Reading the approval and then moving the row happen without an await in between.\<close>

lemma runs_get_approval:
  assumes "lt_engine d = Some en" "osteps d s t"
    and "\<And>row u. osteps d s u \<Longrightarrow> lv_execs u = lv_execs t \<Longrightarrow> row = raw a (lv_appr u) \<Longrightarrow> runs d (f row) s u"
  shows "runs d (bindE (get_approval d en a) f) s t"
proof -
  let ?g = "\<lambda>s. case get_request en a (lt_now d t) s of (r, t) \<Rightarrow> (Inr r, t)"
  have fin: "fst (get_request en a now b) = raw a (snd (get_request en a now b))" for now b
    by (simp add: get_request_def Let_def split: option.split)
  have step: "osteps d s (t\<lparr> lv_appr := snd (?g (lv_appr t)) \<rparr>)"
    by (rule appr_step [OF assms(1,2), of _ "(lt_now d t, AO_get a)"]) (simp split: prod.split)
  have "wp (get_approval d en a) (\<lambda>row u. row = raw a (lv_appr u) \<and> lv_execs u = lv_execs t \<and> osteps d s u) (\<lambda>_ u. osteps d s u) t"
    using step fin [of "lt_now d t" "lv_appr t"]
    by (cases "get_request en a (lt_now d t) (lv_appr t)") (simp add: get_approval_def clock_def bindE_def getE_def apprE_def wp_def)
  then show ?thesis using assms(3) by (intro runs_bind) (auto elim!: wp_mono)
qed

lemma approval_own: "live_ok d t \<Longrightarrow> get_execution i t = Some x \<Longrightarrow> lx_approvalId x = None \<or> lx_approvalId x = Some i"
  using get_row_ok get_execution_id by (fastforce simp: row_ok_def)

lemma set_text_Some: "set_text v = Some a \<longleftrightarrow> v = Some a \<and> a \<noteq> []"
  by (cases v) (auto simp: set_text_def)

lemma quiet_refresh:
  assumes "live_ok d s"
  shows "quiet d s (refreshApproval d i operator)"
proof (rule quietI)
  fix t
  assume t: "osteps d s t"
  have moves: "runs d (move_to d i [Awaiting_approval] (\<lambda>x. with_approver operator (x\<lparr> lx_state := st \<rparr>))) s u"
    if u: "osteps d s u" "lv_execs u = lv_execs t" and x: "get_execution i t = Some x" "lx_approvalId x = Some a"
      and st: "(st, row_status (lv_appr u) a) \<in> {(Denied, Some Ap_denied), (Approved, Some Ap_approved)}" for u x a st
  proof (rule runs_move [OF u(1)])
    fix y
    assume "get_execution i u = Some y" "lx_state y \<in> set [Awaiting_approval]"
    then have "y = x" "lx_state x = Awaiting_approval" using u(2) x(1) by (auto simp: get_execution_def)
    then show "edge (tp_approvalRequired (lt_policy d)) (lv_appr u) y (with_approver operator (y\<lparr> lx_state := st \<rparr>))"
      using x(2) st by (auto intro: edge.deny edge.grant)
  qed
  show "runs d (refreshApproval d i operator) s t"
    unfolding refreshApproval_def
    by (rule runs_require [OF t]) (auto simp: set_text_Some row_status_def t intro!: runs_get_approval moves split: option.split)
qed

lemma quiet_approve: "live_ok d s \<Longrightarrow> quiet d s (approve d i operator input)"
  unfolding approve_def
  by (intro quiet_bind quiet_seq quiet_simple quiet_refresh; (auto intro!: quiet_decide split: option.split)?)

lemma quiet_deny: "live_ok d s \<Longrightarrow> quiet d s (deny d i operator input)"
  unfolding deny_def by (auto intro!: quiet_bind quiet_seq quiet_refresh quiet_decide split: option.split)

lemma quiet_expire:
  assumes "ports_ok d" "set from_states \<subseteq> {Approved, Signing}"
  shows "quiet d s (expire d i from_states)"
proof -
  have "quiet d s (move_to d i from_states (\<lambda>x. x\<lparr> lx_state := Expired \<rparr>))"
    using assms(2) by (intro quiet_move edge.burn) blast
  then show ?thesis unfolding expire_def using assms(1)
    by (auto intro!: quiet_bind quiet_seq intro: quiet_ports split: option.split)
qed

lemma quiet_fences:
  assumes "ports_ok d" "lx_state x \<in> {Approved, Signing}"
  shows "quiet d s (submit_fences d x q)"
proof -
  have "quiet d s (expire d (lx_id x) [lx_state x])" using assms by (intro quiet_expire) auto
  then have burn: "quiet d s (whenE b (seqE (expire d (lx_id x) [lx_state x]) (lt_throw e)))" for b e
    unfolding whenE_def by (auto intro!: quiet_seq)
  show ?thesis unfolding submit_fences_def using assms(1)
    by (auto intro!: quiet_bind quiet_seq burn intro: quiet_ports split: option.split)
qed

end
