(* ===== verification/LiveCalls.thy ===== *)
theory LiveCalls
  imports LiveMachine
begin

text \<open>
  The submission and the recovery of \<open>live-trading/index.ts\<close> are runs of the machine of \<open>LiveMachine\<close>, and what
  that gives: the properties of every execution, whatever is called and whatever overlaps.
\<close>

section \<open>Submission\<close>

lemma consumed_now:
  assumes "osteps d s u" "lt_engine d = Some en" "row = raw a (lv_appr u)"
    and "\<And>v. osteps d s v \<Longrightarrow> lv_execs v = lv_execs u \<Longrightarrow> is_consumed (lv_appr v) a \<Longrightarrow> runs d m s v"
  shows "runs d (seqE (whenE (case row of None \<Rightarrow> True | Some w \<Rightarrow> rq_status w \<noteq> Ap_consumed)
                 (bindE (clock d) (\<lambda>now. seqE (apprE (Approvals.consume en a b now)) (returnE ())))) m) s u"
proof (cases "is_consumed (lv_appr u) a")
  case True
  then have "\<not> (case row of None \<Rightarrow> True | Some w \<Rightarrow> rq_status w \<noteq> Ap_consumed)" using assms(3) by (auto simp: is_consumed_def split: option.splits)
  then show ?thesis using assms(4) [OF assms(1) refl True] by (simp add: whenE_def eff_unit)
next
  case False
  then have need: "case row of None \<Rightarrow> True | Some w \<Rightarrow> rq_status w \<noteq> Ap_consumed" using assms(3) by (auto simp: is_consumed_def split: option.splits)
  have "runs d (bindE (apprE (Approvals.consume en a b n)) (\<lambda>_. m)) s u" for n
  proof (rule runs_appr [OF assms(2,1), where op = "(n, AO_consume a b)"])
    fix x
    assume "fst (Approvals.consume en a b n (lv_appr u)) = Inr x" "osteps d s (u\<lparr> lv_appr := snd (Approvals.consume en a b n (lv_appr u)) \<rparr>)"
    then show "runs d m s (u\<lparr> lv_appr := snd (Approvals.consume en a b n (lv_appr u)) \<rparr>)" using consume_won by (intro assms(4)) fastforce+
  qed simp
  then show ?thesis using need by (simp add: whenE_def eff_assoc eff_unit seqE_def runs_clock)
qed

lemma runs_submit_approval:
  assumes ok: "live_ok d s" and t0: "osteps d s t0" "get_execution i t0 = Some x" "osteps d t0 t"
    and rest: "\<And>y u. osteps d s u \<Longrightarrow> lx_id y = i \<Longrightarrow> runs d (f y) s u"
  shows "runs d (bindE (submit_approval d x q r e) f) s t"
proof (cases "\<exists>a en. set_text (lx_approvalId x) = Some a \<and> lt_engine d = Some en")
  case False
  then show ?thesis using rtranclp_trans [OF t0(1,3)]
    by (auto simp: submit_approval_def lt_throw_def eff_unit split: option.split)
next
  case True
  then obtain a en where a: "lx_approvalId x = Some a" "set_text (lx_approvalId x) = Some a" "lt_engine d = Some en" by (auto simp: set_text_Some)
  have t: "osteps d s t" using t0(1,3) by (rule rtranclp_trans)
  have id: "lx_id x = i" using get_execution_id [OF t0(2)] by simp
  have own: "a = i" using approval_own [OF osteps_ok [OF t0(1) ok] t0(2)] a(1) by simp
  have "runs d (bindE (move_to d (lx_id x) [Approved] (\<lambda>x. x\<lparr> lx_state := Signing \<rparr>)) f) s v"
    if v: "osteps d s v" "lv_execs v = lv_execs t" "is_consumed (lv_appr v) a" for v
  proof (rule runs_move_bind [OF v(1)])
    fix y
    assume y: "get_execution (lx_id x) v = Some y" "lx_state y \<in> set [Approved]"
    then have "get_execution i t = Some y" using v(2) id by (simp add: get_execution_def)
    moreover have "\<exists>z. get_execution i t = Some z \<and> lx_approvalId z \<noteq> None"
      using osteps_stays [OF t0(3)] t0(2) a(1) unfolding row_stays_def by blast
    ultimately have "lx_approvalId y = Some a" using approval_own [OF osteps_ok [OF t ok]] own by fastforce
    then show "edge (tp_approvalRequired (lt_policy d)) (lv_appr v) y (y\<lparr> lx_state := Signing \<rparr>)"
      using y(2) v(3) by (intro edge.begin_signing) simp_all
  next
    fix z y u
    assume u: "osteps d s u" and z: "get_execution (lx_id x) v = Some z" "y = stamped z (z\<lparr> lx_state := Signing \<rparr>) (lt_now d v)"
    have "lx_id y = i" using get_execution_id [OF z(1)] z(2) id by simp
    then show "runs d (f y) s u" by (rule rest [OF u])
  qed
  then have last: "runs d (if lx_state x = Approved then bindE (move_to d (lx_id x) [Approved] (\<lambda>x. x\<lparr> lx_state := Signing \<rparr>)) f else f x) s v"
    if "osteps d s v" "lv_execs v = lv_execs t" "is_consumed (lv_appr v) a" for v
    using that rest id by simp
  show ?thesis unfolding submit_approval_def a(2,3) option.case prod.case eff_assoc bind_if
    by (rule runs_get_approval [OF a(3) t], rule consumed_now [OF _ a(3)], assumption+) (rule last, auto)
qed

lemma signed_reply:
  "assertSignedTransaction L reply = Inr sg \<Longrightarrow> sg \<noteq> [] \<and> (\<exists>tx. sg_transaction reply = Some tx \<and> signatureOf L tx = Inr sg)"
  by (auto simp: assertSignedTransaction_def set_text_Some split: option.splits sum.splits)

lemma submitting_step:
  assumes "sg \<noteq> []" "p = submitting_as q r sg \<or> p = (\<lambda>x. (submitting_as q r sg x)\<lparr> lx_authorizationId := k \<rparr>)"
  shows "wp (move_to d i [Signing] p)
     (\<lambda>y u. \<exists>x. get_execution i t = Some x \<and> submits L x (p x) \<and> y = stamped x (p x) (lt_now d t) \<and> u = set_row i y t)
     (\<lambda>_ u. u = t) t"
proof (cases "get_execution i t")
  case None
  then show ?thesis by (simp add: move_to_def clock_def transition_def bindE_def getE_def wp_def)
next
  case (Some x)
  have "submits L x (p x)" if "lx_state x = Signing" using assms that by (auto simp: submits_def)
  then show ?thesis using Some
    by (auto simp: move_to_def clock_def transition_def bindE_def getE_def wp_def Let_def stamped_def set_row_def)
qed

text \<open>A row that has left \<open>signing\<close> with the signature \<open>sg\<close>.\<close>

definition has_signature :: "string \<Rightarrow> string \<Rightarrow> 'w Live \<Rightarrow> bool" where
  "has_signature i sg s \<longleftrightarrow> (\<exists>x. get_execution i s = Some x \<and> lx_state x \<in> past \<and> lx_signature x = Some sg)"

lemma has_signature_stays: "has_signature i sg s \<Longrightarrow> osteps d s t \<Longrightarrow> has_signature i sg t"
  using osteps_stays [of d s t] unfolding has_signature_def row_stays_def by metis

lemma has_signature_set_row:
  assumes "get_execution i t = Some x" "submits L x y" "lx_signature y = Some sg" "lv_execs u = lv_execs (set_row i (stamped x y n) t)"
  shows "has_signature i sg u"
proof -
  have "get_execution i u = Some (stamped x y n)"
    using get_set_row [of "stamped x y n" i i t] get_execution_id [OF assms(1)] submits_keeps(1) [OF assms(2)] assms(1,4) by (simp add: get_execution_def)
  then show ?thesis using submits_keeps(4) [OF assms(2)] assms(3) by (simp add: has_signature_def past_def)
qed

lemma runs_submit_plain:
  assumes "osteps d s t" "sg \<noteq> []" "p = submitting_as q r sg \<or> p = (\<lambda>x. (submitting_as q r sg x)\<lparr> lx_authorizationId := k \<rparr>)"
    and "\<And>y u. osteps d s u \<Longrightarrow> has_signature i sg u \<Longrightarrow> runs d (f y) s u"
  shows "runs d (bindE (move_to d i [Signing] p) f) s t"
proof (rule runs_bind, rule wp_mono [OF submitting_step [OF assms(2,3), of d i t "lt_lib d"]])
  fix y u
  assume "\<exists>x. get_execution i t = Some x \<and> submits (lt_lib d) x (p x) \<and> y = stamped x (p x) (lt_now d t) \<and> u = set_row i y t"
  then obtain x where x: "get_execution i t = Some x" "submits (lt_lib d) x (p x)" "u = set_row i (stamped x (p x) (lt_now d t)) t" by blast
  have "osteps d s u" unfolding x(3) using assms(1) ostep.submitted [OF x(1,2)] by (rule rtranclp.rtrancl_into_rtrancl)
  moreover have "has_signature i sg u" by (rule has_signature_set_row [OF x(1,2)]) (use assms(3) x(3) in auto)
  ultimately show "runs d (f y) s u" by (rule assms(4))
qed (use assms(1) in simp)

lemma runs_submit_send:
  assumes ports: "ports_ok d" and ok: "live_ok d s" and t: "osteps d s t" and sg: "sg \<noteq> []"
    and p: "p = submitting_as q r sg \<or> p = (\<lambda>x. (submitting_as q r sg x)\<lparr> lx_authorizationId := k \<rparr>)"
    and wire: "signatureOf (lt_lib d) wire = Inr sg"
    and rest: "\<And>y b u. osteps d s u \<Longrightarrow> has_signature i sg u \<Longrightarrow> runs d (f y b) s u"
  shows "runs d (bindE (move_to d i [Signing] p) (\<lambda>y. bindE (send_broadcast d i wire) (f y))) s t"
proof (rule runs_bind, rule wp_mono [OF submitting_step [OF sg p, of d i t "lt_lib d"]])
  fix y u
  assume "\<exists>x. get_execution i t = Some x \<and> submits (lt_lib d) x (p x) \<and> y = stamped x (p x) (lt_now d t) \<and> u = set_row i y t"
  then obtain x where x: "get_execution i t = Some x" "submits (lt_lib d) x (p x)" "u = set_row i (stamped x (p x) (lt_now d t)) t" by blast
  let ?v = "u\<lparr> lv_sent := lv_sent u @ [(i, wire)] \<rparr>"
  have sig: "lx_signature (p x) = Some sg" using p by auto
  then have "carries (lt_lib d) wire (p x)" using wire by (simp add: carries_def)
  then have v: "osteps d s ?v" using t ostep.sent [OF x(1,2)] x(3) by (auto intro: rtranclp.rtrancl_into_rtrancl)
  have hs: "has_signature i sg ?v" by (rule has_signature_set_row [OF x(1,2) sig]) (simp add: x(3))
  have "runs d (bindE (lt_broadcast d wire) (f y)) s ?v"
    by (rule runs_port [OF ports_allowed(4) [OF ports] ok v]) (rule rest, assumption, rule has_signature_stays [OF hs])
  then show "runs d (bindE (send_broadcast d i wire) (f y)) s u"
    unfolding send_broadcast_def eff_assoc by (simp add: runs_def wp_seqE wp_modifyE)
qed (use t in simp)


lemma quiet_here:
  assumes "quiet d t m" "osteps d s t" "live_ok d s"
  shows "runs d m s t"
proof -
  have "runs d m t t" using assms(1) osteps_ok [OF assms(2,3)] by (simp add: quiet_def)
  then show ?thesis using assms(2) unfolding runs_def by (auto elim!: wp_mono intro: rtranclp_trans)
qed

lemma quiet_catch: "quiet d s m \<Longrightarrow> (\<And>e. quiet d s (h e)) \<Longrightarrow> quiet d s (catchE m h)"
  unfolding quiet_def runs_def wp_catchE by (auto elim!: wp_mono)

lemma quiet_commit: "ports_ok d \<Longrightarrow> quiet d s (commit_reservation d r)"
  unfolding commit_reservation_def by (auto intro: quiet_ports split: option.split)

lemma runs_landed:
  assumes "ports_ok d" "osteps d s t" "has_signature i sg t" "live_ok d s"
  shows "runs d (seqE (commit_reservation d r) (landed_as d i sg)) s t"
proof -
  have "quiet d t (landed_as d i sg)"
    unfolding landed_as_def
  proof (rule quietI, rule runs_move)
    fix u x
    assume "osteps d t u" "get_execution i u = Some x" "lx_state x \<in> set [Submitting]"
    then show "edge (tp_approvalRequired (lt_policy d)) (lv_appr u) x (x\<lparr> lx_state := Broadcast, lx_signature := Some sg \<rparr>)"
      using has_signature_stays [OF assms(3), of d u] by (intro edge.landed) (auto simp: has_signature_def)
  qed
  then show ?thesis by (rule quiet_here [OF quiet_seq [OF quiet_commit [OF assms(1)]] assms(2,4)])
qed

lemma quiet_unsure: "quiet d s (move_to d i [Submitting] (\<lambda>x. x\<lparr> lx_state := Reconciliation_required \<rparr>))"
  by (rule quiet_move) (auto intro!: edge.unsure simp: past_def)

lemma quiet_submit_sign:
  assumes ports: "ports_ok d" and asks: "lt_issue d = Some issuing" "lt_sign d = Some ask"
  shows "quiet d s (submit_sign d x q r e issuing ask)"
proof -
  have authorize: "quiet d s (move_to d i [Signing] (\<lambda>x. x\<lparr> lx_authorizationId := Some k \<rparr>))" for i k
    by (rule quiet_move) (auto intro: edge.authorize)
  have finish: "quiet d s (bindE (move_to d i [Signing] (\<lambda>x. (submitting_as q r sg x)\<lparr> lx_authorizationId := k \<rparr>)) (\<lambda>x.
      bindE (case sg_broadcast reply of Some b \<Rightarrow> returnE b | None \<Rightarrow> send_broadcast d i (case sg_transaction reply of None \<Rightarrow> [] | Some tx \<Rightarrow> tx))
        (\<lambda>landed. seqE (lt_guard (landed \<noteq> sg) m) (seqE (commit_reservation d (lx_reservationId x)) (landed_as d i landed)))))"
    if reply: "assertSignedTransaction (lt_lib d) reply = Inr sg" for i k sg reply m
  proof (rule quietI)
    fix t
    assume ok: "live_ok d s" and t: "osteps d s t"
    obtain tx where tx: "sg_transaction reply = Some tx" "signatureOf (lt_lib d) tx = Inr sg" and sg: "sg \<noteq> []" using signed_reply [OF reply] by blast
    show "runs d (bindE (move_to d i [Signing] (\<lambda>x. (submitting_as q r sg x)\<lparr> lx_authorizationId := k \<rparr>)) (\<lambda>x.
        bindE (case sg_broadcast reply of Some b \<Rightarrow> returnE b | None \<Rightarrow> send_broadcast d i (case sg_transaction reply of None \<Rightarrow> [] | Some tx \<Rightarrow> tx))
          (\<lambda>landed. seqE (lt_guard (landed \<noteq> sg) m) (seqE (commit_reservation d (lx_reservationId x)) (landed_as d i landed))))) s t"
    proof (cases "sg_broadcast reply")
      case None
      show ?thesis unfolding None tx option.case
        by (rule runs_submit_send [OF ports ok t sg _ tx(2)], blast, rule runs_guard) (auto intro: runs_landed [OF ports _ _ ok])
    next
      case (Some b)
      show ?thesis unfolding Some option.case eff_unit
        by (rule runs_submit_plain [OF t sg], blast, rule runs_guard) (auto intro: runs_landed [OF ports _ _ ok])
    qed
  qed
  have lifted: "quiet d s (bindE (liftE (map_sum Lt id (assertSignedTransaction (lt_lib d) reply))) f)"
    if "\<And>sg. assertSignedTransaction (lt_lib d) reply = Inr sg \<Longrightarrow> quiet d s (f sg)" for reply and f :: "string \<Rightarrow> ('a, Execution) live"
    using that by (cases "assertSignedTransaction (lt_lib d) reply") (auto simp: quiet_def intro!: runs_lift)
  show ?thesis unfolding submit_sign_def Let_def
    by (rule quiet_bind, rule quiet_ports(9) [OF ports asks(1)], rule quiet_bind, rule authorize, rule quiet_bind,
        rule quiet_ports(7) [OF ports asks(2)], rule lifted, rule finish)
qed

lemma quiet_submit_failed: "quiet d s (submit_failed d i err)"
  unfolding submit_failed_def whenE_def by (auto intro!: quiet_bind quiet_seq quiet_unsure)

lemma quiet_submit:
  assumes ports: "ports_ok d" and ok: "live_ok d s"
  shows "quiet d s (submit d i)"
proof (rule quietI)
  fix t
  assume t: "osteps d s t"
  have send: "quiet d s (catchE (submit_sign d y q r e issuing ask) (submit_failed d i))"
    if "lt_issue d = Some issuing" "lt_sign d = Some ask" for y q r e issuing ask
    using that by (intro quiet_catch quiet_submit_sign [OF ports] quiet_submit_failed)
  have go: "runs d (seqE (submit_fences d x q) (bindE (submit_approval d x q r e) (\<lambda>x. catchE (submit_sign d x q r e issuing ask) (submit_failed d i)))) s t"
    if x: "get_execution i t = Some x" "lx_state x \<in> {Approved, Signing}" and asks: "lt_issue d = Some issuing" "lt_sign d = Some ask"
    for x q r e issuing ask
  proof -
    have "runs d (submit_fences d x q) t t" using quiet_fences [OF ports x(2), of t q] osteps_ok [OF t ok] by (simp add: quiet_def)
    moreover have "runs d (bindE (submit_approval d x q r e) (\<lambda>x. catchE (submit_sign d x q r e issuing ask) (submit_failed d i))) s u"
      if "osteps d t u" for u
      using send [OF asks] ok by (intro runs_submit_approval [OF ok t x(1) that]) (auto simp: quiet_def)
    ultimately show ?thesis using t unfolding runs_def wp_seqE by (auto elim!: wp_mono intro: rtranclp_trans)
  qed
  show "runs d (submit d i) s t"
    unfolding submit_def
    by (rule runs_require [OF t], rule runs_guard [OF t], rule runs_get) (auto intro!: go runs_throw t split: option.split bool.split)
qed


section \<open>Recovery\<close>

lemma quiet_recover: "quiet d s (recover_execution d i)"
  unfolding recover_execution_def by (auto intro!: quiet_bind quiet_unsure)

lemma quiet_recover_signed:
  assumes ports: "ports_ok d"
  shows "quiet d s (recover_signed d row q r reply)"
proof (cases "set_text (sg_transaction reply)")
  case None
  then show ?thesis by (auto simp: recover_signed_def)
next
  case (Some tx)
  let ?i = "lx_id row"
  show ?thesis
  proof (rule quietI)
    fix t
    assume ok: "live_ok d s" and t: "osteps d s t"
    have tail: "runs d (seqE (whenE (b \<noteq> sg) (seqE (move_to d ?i [Submitting] (\<lambda>x. x\<lparr> lx_state := Reconciliation_required \<rparr>)) (lt_throw m)))
        (seqE (commit_reservation d c) (landed_as d ?i b))) s u"
      if u: "osteps d s u" and sg: "has_signature ?i sg u" for b c m u sg
    proof (cases "b = sg")
      case True
      then show ?thesis using runs_landed [OF ports u sg ok] by (simp add: whenE_def eff_unit)
    next
      case False
      then have "quiet d u (seqE (seqE (move_to d ?i [Submitting] (\<lambda>x. x\<lparr> lx_state := Reconciliation_required \<rparr>)) (lt_throw m))
          (seqE (commit_reservation d c) (landed_as d ?i b)))"
        by (auto simp: seq_seq lt_throw_def eff_unit intro!: quiet_seq quiet_unsure)
      then show ?thesis using False quiet_here [OF _ u ok] by (simp add: whenE_def)
    qed
    show "runs d (recover_signed d row q r reply) s t"
      unfolding recover_signed_def Some option.case
    proof (rule runs_lift [OF t])
      fix sg
      assume "map_sum Lt id (assertSignedTransaction (lt_lib d) reply) = Inr sg"
      then have "assertSignedTransaction (lt_lib d) reply = Inr sg" by (cases "assertSignedTransaction (lt_lib d) reply") auto
      then have wire: "signatureOf (lt_lib d) tx = Inr sg" "sg \<noteq> []" using signed_reply Some by (fastforce simp: set_text_Some)+
      show "runs d (bindE (move_to d ?i [Signing] (submitting_as q r sg)) (\<lambda>x. bindE (send_broadcast d ?i tx) (\<lambda>landed.
          seqE (whenE (landed \<noteq> sg) (seqE (move_to d ?i [Submitting] (\<lambda>x. x\<lparr> lx_state := Reconciliation_required \<rparr>))
            (lt_throw ''broadcast_signature_mismatch''))) (seqE (commit_reservation d (lx_reservationId x)) (landed_as d ?i landed))))) s t"
        by (rule runs_submit_send [OF ports ok t wire(2) _ wire(1)]) (auto intro: tail)
    qed
  qed
qed

lemma quiet_recoverSigning:
  assumes "ports_ok d" "live_ok d s"
  shows "quiet d s (recoverSigning d row)"
proof -
  have "quiet d s (expire d (lx_id row) [Signing])" using assms(1) by (intro quiet_expire) auto
  moreover have "quiet d s (f a m)" if "lt_result d = Some f" for f a m using quiet_ports(8) [OF assms(1) that] .
  ultimately show ?thesis unfolding recoverSigning_def
    by (auto intro!: quiet_bind quiet_seq quiet_submit [OF assms] quiet_recover_signed [OF assms(1)] split: option.split ResultReply.split)
qed

lemma quiet_reconcile:
  assumes ports: "ports_ok d" and ok: "live_ok d s"
  shows "quiet d s (reconcile d i)"
proof (rule quietI)
  fix t
  assume t: "osteps d s t"
  show "runs d (reconcile d i) s t"
    unfolding reconcile_def
  proof (rule runs_require [OF t])
    fix x
    assume x: "get_execution i t = Some x"
    show "runs d (case set_text (lx_signature x) of None \<Rightarrow> lt_throw ''transaction_not_broadcast''
        | Some sig \<Rightarrow> bindE (lt_status d sig) (\<lambda>st. case st of None \<Rightarrow> reconcile_missing d i x | Some w \<Rightarrow> reconcile_seen d i x w)) s t"
    proof (cases "set_text (lx_signature x)")
      case None
      then show ?thesis using t by (simp add: runs_throw)
    next
      case (Some g)
      have past: "lx_state x \<in> past" using get_row_ok [OF osteps_ok [OF t ok] x] Some by (auto simp: row_ok_def set_text_Some)
      have move: "quiet d t (move_to d i [lx_state x] p)"
        if p: "\<And>a y. lx_state y \<in> past \<Longrightarrow> lx_signature y = lx_signature x \<Longrightarrow> edge (tp_approvalRequired (lt_policy d)) a y (p y)" for p
      proof (rule quietI, rule runs_move)
        fix u y
        assume u: "osteps d t u" "get_execution i u = Some y" "lx_state y \<in> set [lx_state x]"
        then have "lx_signature y = lx_signature x" using osteps_stays [OF u(1)] x past unfolding row_stays_def by fastforce
        then show "edge (tp_approvalRequired (lt_policy d)) (lv_appr u) y (p y)" using p past u(3) by simp
      qed
      have "edge (tp_approvalRequired (lt_policy d)) a y (y\<lparr> lx_state := st, lx_signature := lx_signature x, lx_slot := n \<rparr>)"
        if "lx_state y \<in> past" "lx_signature y = lx_signature x" "st \<in> {Failed, Confirmed, Finalized}" for a y st n
        using edge.settle [OF that(1,3)] that(2) by simp
      then have "quiet d t (reconcile_seen d i x w)" for w unfolding reconcile_seen_def Let_def by (auto intro!: move)
      moreover have "quiet d t (move_to d i [lx_state x] (\<lambda>x. x\<lparr> lx_state := Dropped \<rparr>))"
        "quiet d t (move_to d i [lx_state x] (\<lambda>x. x\<lparr> lx_state := Reconciliation_required \<rparr>))"
        by (rule move, rule edge.drop edge.unsure, assumption)+
      then have "quiet d t (reconcile_missing d i x)" unfolding reconcile_missing_def using quiet_ports [OF ports]
        by (intro quiet_bind) (auto intro!: quiet_bind quiet_seq split: option.split)
      ultimately show ?thesis unfolding Some option.case
        by (intro quiet_here [OF _ t ok] quiet_bind quiet_ports(5) [OF ports]) (auto split: option.split)
    qed
  qed
qed

lemma quiet_recover_row:
  assumes "ports_ok d" "live_ok d s"
  shows "quiet d s (recover_row d row n)"
  unfolding recover_row_def
  by (intro quiet_catch) (auto intro!: quiet_seq quiet_recoverSigning quiet_recover quiet_reconcile assms)

lemma quiet_recover_rows: "ports_ok d \<Longrightarrow> live_ok d s \<Longrightarrow> quiet d s (recover_rows d rows n)"
  by (induction rows arbitrary: n) (auto intro!: quiet_bind quiet_recover_row)

lemma quiet_recovery: "ports_ok d \<Longrightarrow> live_ok d s \<Longrightarrow> quiet d s (recoverAndReconcile d limit)"
  unfolding recoverAndReconcile_def Let_def by (auto intro!: quiet_bind quiet_recover_rows)

lemma quiet_status: "quiet d s (execution_status d i)"
  unfolding execution_status_def by (auto intro!: quiet_bind quiet_get_approval split: option.split)

section \<open>The calls of the orchestrator\<close>

datatype LiveCall =
    C_quote RawQuote string
  | C_revokeQuote string string
  | C_execute string string string "bool option" string string
  | C_revoke string string string "bool option" string string string
  | C_assertExact string SimulationRequest
  | C_refresh string "string option"
  | C_approve string string "DecisionInput option"
  | C_deny string string "DecisionInput option"
  | C_submit string
  | C_recover string
  | C_reconcile string
  | C_recovery int
  | C_status string

fun run_call :: "'w LivePorts \<Rightarrow> LiveCall \<Rightarrow> ('w, unit) live" where
  "run_call d (C_quote q newId) = seqE (quote d q newId) (returnE ())"
| "run_call d (C_revokeQuote a newId) = seqE (revokeQuote d a newId) (returnE ())"
| "run_call d (C_execute q key actor dry newId ch) = seqE (execute_trade d q key actor dry newId ch) (returnE ())"
| "run_call d (C_revoke a key actor dry q newId ch) = seqE (revoke_delegate d a key actor dry q newId ch) (returnE ())"
| "run_call d (C_assertExact i r) = seqE (assertExact i r) (returnE ())"
| "run_call d (C_refresh i u) = seqE (refreshApproval d i u) (returnE ())"
| "run_call d (C_approve i u p) = seqE (approve d i u p) (returnE ())"
| "run_call d (C_deny i u p) = seqE (deny d i u p) (returnE ())"
| "run_call d (C_submit i) = seqE (submit d i) (returnE ())"
| "run_call d (C_recover i) = seqE (recover_execution d i) (returnE ())"
| "run_call d (C_reconcile i) = seqE (reconcile d i) (returnE ())"
| "run_call d (C_recovery n) = seqE (recoverAndReconcile d n) (returnE ())"
| "run_call d (C_status i) = seqE (execution_status d i) (returnE ())"

lemma quiet_assertExact: "quiet d s (assertExact i r)"
  unfolding assertExact_def by (auto intro!: quiet_bind quiet_seq)

lemma call_runs:
  assumes "ports_ok d" "live_ok d s"
  shows "quiet d s (run_call d c)"
  by (cases c) (auto intro!: quiet_seq quiet_quote quiet_revokeQuote quiet_execute quiet_revoke quiet_assertExact quiet_refresh
      quiet_approve quiet_deny quiet_submit quiet_recover quiet_reconcile quiet_recovery quiet_status assms)

end
