(* ===== verification/LiveExample.thy ===== *)
theory LiveExample
  imports LiveCalls
begin

text \<open>
  One trade from its quote to its broadcast, at ports that answer at once, and the same trade when the slot has moved
  on between the quote and the execution.
\<close>

fun run_calls :: "'w LivePorts \<Rightarrow> LiveCall list \<Rightarrow> 'w Live \<Rightarrow> 'w Live" where
  "run_calls d [] s = s"
| "run_calls d (c # cs) s = run_calls d cs (snd (run_call d c s))"

definition demo_lib :: SolanaLib where
  "demo_lib = ex_lib\<lparr> sl_bs58_decode := (\<lambda>_. Some (replicate 32 0)) \<rparr>"

definition demo_sq :: SimulationRequest where
  "demo_sq = \<lparr> sq_cluster = ''test'', sq_transaction = ex_wire, sq_message = ''m'', sq_messageHash = ''0x'', sq_feePayer = ''P'',
     sq_recentBlockhash = ''h'', sq_lastValidBlockHeight = 50, sq_programIds = [''P''], sq_accountKeys = [''P''], sq_instructions = [],
     sq_addressTableLookups = [], sq_policyHash = ''0x'' \<rparr>"

definition demo_evidence :: "int \<Rightarrow> SimulationEvidence" where
  "demo_evidence slot = \<lparr> se_hash = ''s'', se_body = \<lparr> eb_messageHash = ''0x'', eb_slot = slot, eb_blockhash = ''h'', eb_unitsConsumed = 1,
     eb_feeLamports = 1, eb_logs = [], eb_accountStates = [], eb_assetDeltas = [],
     eb_capabilities = \<lparr> cp_balances = True, cp_logs = True, cp_fee = True, cp_addressTableLookups = True \<rparr> \<rparr> \<rparr>"

definition demo_policy :: TradingPolicy where
  "demo_policy = \<lparr> tp_version = 1, tp_hash = Some ''0x'', tp_maxAmountIn = 100, tp_maxSlippageBps = JNum 500, tp_approvalRequired = True,
     tp_finalityCommitment = Cm_finalized, tp_allowedMints = None \<rparr>"

definition demo_wire :: string where
  "demo_wire = b64_encode [2]"

definition demo_reply :: SignReply where
  "demo_reply = \<lparr> sg_transaction = Some demo_wire, sg_signature = Some ''sig'', sg_broadcast = None \<rparr>"

text \<open>The quote is simulated at slot 9; \<open>slot\<close> is that of every later simulation.\<close>

definition demo_ports :: "int \<Rightarrow> unit LivePorts" where
  "demo_ports slot = \<lparr> lt_cluster = ''test'', lt_account = ''P'', lt_policy = demo_policy, lt_lib = demo_lib, lt_sha = (\<lambda>_. ''h''),
     lt_live = True, lt_audience = None, lt_now = (\<lambda>_. 20),
     lt_quote = (\<lambda>_. returnE \<lparr> qr_amountOut = 7, qr_slot = 9, qr_lastValidBlockHeight = 50, qr_expiresAt = 1000,
        qr_request = Some demo_sq, qr_evidence = Some (demo_evidence 9), qr_route = None \<rparr>),
     lt_revokeQuote = None, lt_simulate = (\<lambda>_. returnE (Sim_evidence (demo_evidence slot))),
     lt_broadcast = (\<lambda>_. returnE ''sig''), lt_status = (\<lambda>_. returnE None), lt_blockHeight = returnE 10,
     lt_sign = Some (\<lambda>_ _. returnE demo_reply), lt_result = None, lt_issue = Some (\<lambda>_ _ _. returnE ex_envelope),
     lt_engine = Some demo_engine, lt_risk = None, lt_reservations = None \<rparr>"

definition demo_trade :: "LiveCall list" where
  "demo_trade = [C_quote \<lparr> rw_side = Side_buy, rw_inputMint = ''A'', rw_outputMint = ''B'', rw_amountIn = 10, rw_slippageBps = JNum 100,
       rw_unknown_field = False \<rparr> ''q'',
     C_execute ''q'' ''k'' ''bob'' (Some False) ''x'' ''c'',
     C_approve ''x'' ''alice'' (Some demo_decision), C_submit ''x'']"

lemma demo_ports_simps [simp]:
  "lt_cluster (demo_ports slot) = ''test''" "lt_account (demo_ports slot) = ''P''" "lt_policy (demo_ports slot) = demo_policy"
  "lt_lib (demo_ports slot) = demo_lib" "lt_sha (demo_ports slot) x = ''h''" "lt_live (demo_ports slot)" "lt_audience (demo_ports slot) = None"
  "lt_now (demo_ports slot) s = 20" "lt_revokeQuote (demo_ports slot) = None" "lt_engine (demo_ports slot) = Some demo_engine"
  "lt_simulate (demo_ports slot) r = returnE (Sim_evidence (demo_evidence slot))" "lt_broadcast (demo_ports slot) wire = returnE ''sig''"
  "lt_status (demo_ports slot) h = returnE None" "lt_blockHeight (demo_ports slot) = returnE 10"
  "lt_sign (demo_ports slot) = Some (\<lambda>_ _. returnE demo_reply)" "lt_result (demo_ports slot) = None"
  "lt_issue (demo_ports slot) = Some (\<lambda>_ _ _. returnE ex_envelope)" "lt_risk (demo_ports slot) = None" "lt_reservations (demo_ports slot) = None"
  by (simp_all add: demo_ports_def)

lemmas effects = bindE_def seqE_def returnE_def throwE_def guardE_def liftE_def getE_def modifyE_def whenE_def catchE_def lt_guard_def lt_throw_def

definition demo_quote :: Quote where
  "demo_quote = \<lparr> qo_id = ''q'', qo_side = Side_buy, qo_cluster = ''test'', qo_inputMint = ''A'', qo_outputMint = ''B'', qo_amountIn = 10,
     qo_amountOut = 7, qo_minimumOut = 6, qo_slippageBps = JNum 100, qo_slot = 9, qo_lastValidBlockHeight = 50, qo_expiresAt = 1000,
     qo_intentHash = ''h'', qo_quoteHash = ''h'', qo_policyHash = ''0x'', qo_route = None, qo_request = Some demo_sq,
     qo_evidence = Some (demo_evidence 9), qo_transaction = Some ex_wire, qo_messageHash = Some ''0x'' \<rparr>"

lemma demo_quote_simps [simp]: "qo_id demo_quote = ''q''" "qo_expiresAt demo_quote = 1000" "qo_request demo_quote = Some demo_sq"
  "qo_evidence demo_quote = Some (demo_evidence 9)" "qo_lastValidBlockHeight demo_quote = 50" "qo_quoteHash demo_quote = ''h''"
  "qo_policyHash demo_quote = ''0x''" "qo_intentHash demo_quote = ''h''"
  by (simp_all add: demo_quote_def)

lemma demo_policy_simps [simp]: "tp_approvalRequired demo_policy" "tp_hash demo_policy = Some ''0x''" "tp_maxAmountIn demo_policy = 100"
  "tp_maxSlippageBps demo_policy = JNum 500" "tp_allowedMints demo_policy = None" "tp_version demo_policy = 1"
  by (simp_all add: demo_policy_def)

lemma demo_quoted: "snd (run_call (demo_ports slot) (demo_trade ! 0) (live_start ())) = (live_start ())\<lparr> lv_quotes := [demo_quote] \<rparr>"
  by (simp add: demo_trade_def quote_def quote_guards_def throwIf_def isPublicKey_def demo_sq_def effects demo_ports_def
      demo_lib_def putQuote_def Let_def digest_def live_start_def fl_sub_def dbl_numeral trading_policyHash_def demo_quote_def)

definition demo_input :: "int \<Rightarrow> ApprovalRequestInput" where
  "demo_input slot = \<lparr> ai_id = ''x'', ai_type = ''sign'', ai_proposerId = ''bob'',
     ai_bound = binding (demo_ports slot) demo_quote demo_sq (demo_evidence slot), ai_expiresAt = 1000, ai_displayImpact = None \<rparr>"

definition demo_asked :: "int \<Rightarrow> AState" where
  "demo_asked slot = snd (request demo_engine (demo_input slot) 1 False ''c'' 20 empty_approvals)"

lemma demo_asks:
  assumes "validate (demo_input slot)"
  shows "request demo_engine (demo_input slot) 1 False ''c'' 20 empty_approvals = (Inr (raw ''x'' (demo_asked slot)), demo_asked slot)"
  using assms by (simp add: demo_asked_def demo_simps demo_input_def)

definition demo_row :: Execution where
  "demo_row = (new_execution ''x'' demo_quote ''bob'' ''k'' False (Some ''s''))\<lparr> lx_version := 1, lx_createdAt := 20, lx_updatedAt := 20,
     lx_lastValidBlockHeight := Some 50, lx_approvalId := Some ''x'' \<rparr>"

definition demo_at :: "Execution \<Rightarrow> AState \<Rightarrow> unit Live" where
  "demo_at x a = \<lparr> lv_execs = [x], lv_quotes = [demo_quote], lv_appr = a, lv_sent = [], lv_world = () \<rparr>"

lemma demo_executed:
  assumes "validate (demo_input slot)"
  shows "snd (run_call (demo_ports slot) (demo_trade ! 1) ((live_start ())\<lparr> lv_quotes := [demo_quote] \<rparr>)) = demo_at demo_row (demo_asked slot)"
proof -
  have "request demo_engine \<lparr> ai_id = ''x'', ai_type = ''sign'', ai_proposerId = ''bob'', ai_bound = binding (demo_ports slot) demo_quote demo_sq (demo_evidence slot),
      ai_expiresAt = qo_expiresAt demo_quote, ai_displayImpact = None \<rparr> 1 False ''c'' 20 empty_approvals = (Inr (raw ''x'' (demo_asked slot)), demo_asked slot)"
    using demo_asks [OF assms] by (simp add: demo_input_def demo_quote_def)
  then have ask: "ask_approval (demo_ports slot) demo_quote demo_sq (demo_evidence slot) ''x'' ''bob'' ''c'' t = (Inr (), t\<lparr> lv_appr := demo_asked slot \<rparr>)"
    if "lv_appr t = empty_approvals" for t
    using that by (simp add: ask_approval_def effects clock_def apprE_def)
  have "execute_live (demo_ports slot) demo_quote demo_sq (demo_evidence slot) ''k'' ''bob'' ''x'' ''c'' ((live_start ())\<lparr> lv_quotes := [demo_quote] \<rparr>) =
     (Inr demo_row, demo_at demo_row (demo_asked slot))"
    unfolding execute_live_def
    by (simp add: effects assess_def reserve_for_def create_execution_def exists_where_def Let_def clock_def ask
      demo_at_def demo_row_def live_start_def new_execution_def move_to_def transition_def get_execution_def) (simp add: demo_evidence_def demo_sq_def)
  then show ?thesis
    by (simp add: demo_trade_def execute_trade_def effects byIdempotency_def getQuote_def execute_quote_def live_start_def clock_def simulate_again_def)
qed


lemma text_ok_n: "text_ok 256 ''n''"
  by code_simp

lemma demo_decides:
  assumes "validate (demo_input slot)"
  shows "decide demo_engine ''x'' demo_decision 20 (demo_asked slot) =
    (Inr (raw ''x'' (snd (decide demo_engine ''x'' demo_decision 20 (demo_asked slot)))), snd (decide demo_engine ''x'' demo_decision 20 (demo_asked slot)))"
  using assms text_ok_n by (simp add: demo_asked_def demo_simps demo_input_def)

definition demo_granted :: "int \<Rightarrow> AState" where
  "demo_granted slot = snd (decide demo_engine ''x'' demo_decision 20 (demo_asked slot))"

lemma demo_granted_row:
  assumes "validate (demo_input slot)"
  shows "map_option (\<lambda>r. (rq_status r, rq_expires_at r, rq_binding r)) (raw ''x'' (demo_granted slot)) =
     Some (Ap_approved, 1000, canonicalSerialize (boundKeys (en_sha256 demo_engine) (ai_bound (demo_input slot))))"
  using assms text_ok_n by (simp add: demo_granted_def demo_asked_def demo_simps demo_input_def)

lemma demo_get:
  assumes "validate (demo_input slot)"
  shows "get_request demo_engine ''x'' 20 (demo_granted slot) = (raw ''x'' (demo_granted slot), demo_granted slot)"
  using demo_granted_row [OF assms] by (auto simp: get_request_def)

definition demo_approved :: Execution where
  "demo_approved = demo_row\<lparr> lx_version := 2, lx_state := Approved, lx_approver := Some ''alice'' \<rparr>"

lemma demo_approves:
  assumes "validate (demo_input slot)"
  shows "snd (run_call (demo_ports slot) (demo_trade ! 2) (demo_at demo_row (demo_asked slot))) = demo_at demo_approved (demo_granted slot)"
proof -
  obtain r where r: "raw ''x'' (demo_granted slot) = Some r" "rq_status r = Ap_approved" using demo_granted_row [OF assms] by auto
  have d: "decide demo_engine ''x'' (demo_decision\<lparr> di_operatorId := ''alice'' \<rparr>) 20 (demo_asked slot) = (Inr (raw ''x'' (demo_granted slot)), demo_granted slot)"
  proof -
    have "demo_decision\<lparr> di_operatorId := ''alice'' \<rparr> = demo_decision" by (simp add: demo_decision_def)
    then show ?thesis using demo_decides [OF assms] by (simp add: demo_granted_def)
  qed
  show ?thesis
    using r by (simp add: demo_trade_def approve_def effects requireE_def demo_at_def demo_row_def new_execution_def get_execution_def set_text_def
        decideE_def clock_def apprE_def d refreshApproval_def get_approval_def demo_get [OF assms] move_to_def transition_def Let_def with_approver_def demo_approved_def)
qed

definition demo_used :: AState where
  "demo_used = snd (consume demo_engine ''x'' (ai_bound (demo_input 9)) 20 (demo_granted 9))"

definition demo_sent :: Execution where
  "demo_sent = demo_approved\<lparr> lx_version := 6, lx_state := Broadcast, lx_authorizationId := Some ''id'', lx_messageHash := Some ''0x'', lx_signature := Some ''sig'' \<rparr>"

lemma demo_valid9: "validate (demo_input 9)" "validate (demo_input 10)"
proof -
  have n: "show_int 10 = ''10''" "show_int 9 = ''9''" "show_int 1 = ''1''" by code_simp+
  have t: "text_ok 128 ''x''" "text_ok 128 ''bob''" "text_ok 128 ''test''" "text_ok 256 ''h''" "text_ok 256 ''0x''" "text_ok 256 ''s''"
    "text_ok 8192 ''1''" "text_ok 8192 ''9''" "text_ok 8192 ''10''" "text_ok 8192 ''h''" "text_ok 8192 ''P''" "text_ok 8192 ''m''"
    by (simp_all add: text_ok_def js_trim_def js_space_def)
  show "validate (demo_input 9)" "validate (demo_input 10)"
    using t n by (simp_all add: validate_def demo_input_def binding_def demo_evidence_def demo_sq_def demo_quote_def join_commas_def has_field_def
        js_safe_integer_def max_safe_integer_def)
qed

lemma demo_submits:
  "run_call (demo_ports 9) (demo_trade ! 3) (demo_at demo_approved (demo_granted 9)) =
     (Inr (), (demo_at demo_sent demo_used)\<lparr> lv_sent := [(''x'', demo_wire)] \<rparr>)"
proof -
  obtain r where r: "raw ''x'' (demo_granted 9) = Some r" "rq_status r = Ap_approved" "rq_expires_at r = 1000"
    "rq_binding r = canonicalSerialize (boundKeys (en_sha256 demo_engine) (ai_bound (demo_input 9)))"
    using demo_granted_row [OF demo_valid9(1)] by auto
  have "\<exists>y. consume demo_engine ''x'' (binding (demo_ports 9) demo_quote demo_sq (demo_evidence 9)) 20 (demo_granted 9) = (Inr y, demo_used)"
    using r by (simp add: demo_used_def consume_def demo_input_def split: prod.split)
  then obtain y where c: "consume demo_engine ''x'' (binding (demo_ports 9) demo_quote demo_sq (demo_evidence 9)) 20 (demo_granted 9) = (Inr y, demo_used)" ..
  have signed: "assertSignedTransaction demo_lib demo_reply = Inr ''sig''" by code_simp
  show ?thesis
    using r(1,2)
    by (simp add: demo_trade_def submit_def effects requireE_def demo_at_def demo_approved_def demo_row_def new_execution_def get_execution_def
        set_text_def getQuote_def submit_fences_def submit_approval_def submit_sign_def clock_def apprE_def c get_approval_def
        demo_get [OF demo_valid9(1)] move_to_def transition_def Let_def demo_sent_def signed)
      (simp add: demo_reply_def send_broadcast_def commit_reservation_def landed_as_def submitting_as_def effects move_to_def clock_def
        transition_def Let_def get_execution_def ex_envelope_def ex_claims_def demo_sq_def)
qed

text \<open>The trade is broadcast once; when the simulation is of a later slot, it stays approved and cannot be submitted.\<close>

lemma demo_runs:
  "run_calls (demo_ports 9) demo_trade (live_start ()) = (demo_at demo_sent demo_used)\<lparr> lv_sent := [(''x'', demo_wire)] \<rparr>"
  "run_calls (demo_ports 10) (take 3 demo_trade) (live_start ()) = demo_at demo_approved (demo_granted 10)"
  using demo_quoted demo_executed [OF demo_valid9(1)] demo_executed [OF demo_valid9(2)] demo_approves [OF demo_valid9(1)]
    demo_approves [OF demo_valid9(2)] demo_submits
  unfolding demo_trade_def by (simp_all only: run_calls.simps nth_Cons_0 nth_Cons_Suc numeral_nat One_nat_def take_Suc_Cons take_0 snd_conv)

lemma bound_differs: "bt_simulationBlock a \<noteq> bt_simulationBlock b \<Longrightarrow> a\<lparr> bt_serializedTransaction := J_null \<rparr> \<noteq> b\<lparr> bt_serializedTransaction := J_null \<rparr>"
  by (cases a; cases b) auto

lemma demo_stale:
  "fst (submit (demo_ports 10) ''x'' (demo_at demo_approved (demo_granted 10))) = Inl (Lt_approval A_mismatch)"
proof -
  obtain r where r: "raw ''x'' (demo_granted 10) = Some r" "rq_status r = Ap_approved" "rq_expires_at r = 1000"
    "rq_binding r = canonicalSerialize (boundKeys (en_sha256 demo_engine) (ai_bound (demo_input 10)))"
    using demo_granted_row [OF demo_valid9(2)] by auto
  have "show_int 10 = ''10''" "show_int 9 = ''9''" by code_simp+
  then have "bt_simulationBlock (ai_bound (demo_input 10)) = ''10''" "bt_simulationBlock (binding (demo_ports 10) demo_quote demo_sq (demo_evidence 9)) = ''9''"
    by (simp_all add: demo_input_def binding_def demo_evidence_def)
  then have "ai_bound (demo_input 10)\<lparr> bt_serializedTransaction := J_null \<rparr> \<noteq> (binding (demo_ports 10) demo_quote demo_sq (demo_evidence 9))\<lparr> bt_serializedTransaction := J_null \<rparr>"
    by (intro bound_differs) simp
  then have "consume demo_engine ''x'' (binding (demo_ports 10) demo_quote demo_sq (demo_evidence 9)) 20 (demo_granted 10) = (Inl A_mismatch, demo_granted 10)"
    using r by (simp add: consume_def boundKeys_eq)
  then show ?thesis
    using r(1,2)
    by (simp add: submit_def effects requireE_def demo_at_def demo_approved_def demo_row_def new_execution_def get_execution_def set_text_def getQuote_def
        submit_fences_def submit_approval_def clock_def apprE_def get_approval_def demo_get [OF demo_valid9(2)])
qed

end
