(* ===== verification/LiveSafety.thy ===== *)
theory LiveSafety
  imports LiveExample
begin

text \<open>
  The properties of \<open>live-trading/index.ts\<close>: every call is a run of the machine of \<open>LiveMachine\<close>, and what that gives
  of the executions; the outcome of a reconciliation and of a recovery; and the approval that a submission cannot use.
\<close>

section \<open>Calls and their overlap\<close>

lemma run_call_osteps:
  assumes "ports_ok d" "live_ok d s"
  shows "osteps d s (snd (run_call d c s))"
proof -
  have "runs d (run_call d c) s s" using call_runs [OF assms, of c] assms(2) by (simp add: quiet_def)
  then show ?thesis by (cases "run_call d c s") (auto simp: runs_def wp_def split: sum.splits)
qed

lemma run_calls_osteps: "ports_ok d \<Longrightarrow> live_ok d s \<Longrightarrow> osteps d s (run_calls d cs s)"
proof (induction cs arbitrary: s)
  case (Cons c cs)
  have "osteps d s (snd (run_call d c s))" using Cons.prems by (rule run_call_osteps)
  then show ?case using Cons.IH [of "snd (run_call d c s)"] Cons.prems osteps_ok by (auto intro: rtranclp_trans)
qed simp

lemma run_calls_ok: "ports_ok d \<Longrightarrow> live_ok d (run_calls d cs (live_start w))"
  by (rule osteps_ok [OF run_calls_osteps start_ok], assumption, rule start_ok)

lemma ostep_same:
  assumes "lt_engine d = lt_engine e" "lt_policy d = lt_policy e" "lt_lib d = lt_lib e"
  shows "ostep d = ostep e"
  using assms by (intro ext) (simp add: ostep.simps)

lemma allowed_same:
  assumes "lt_engine d = lt_engine e" "lt_policy d = lt_policy e" "lt_lib d = lt_lib e"
  shows "allowed d m = allowed e m"
  using assms ostep_same [OF assms] by (simp add: allowed_def live_ok_def appr_ok_def)

lemma allowed_return: "allowed d (returnE x)"
  by (simp add: allowed_def returnE_def)

lemma allowed_then:
  assumes "allowed d m" "live_ok d s" "\<And>t. live_ok d t \<Longrightarrow> osteps d t (snd (n t))"
  shows "osteps d s (snd (n (snd (m s))))"
proof -
  have "osteps d s (snd (m s))" using assms(1,2) by (simp add: allowed_def)
  with assms(2,3) osteps_ok show ?thesis by (blast intro: rtranclp_trans)
qed

lemma allowed_seq:
  assumes "allowed d m" "allowed d n"
  shows "allowed d (seqE m n)"
  unfolding allowed_def
proof (intro allI impI)
  fix s
  assume "live_ok d s"
  then have "osteps d s (snd (m s))" "osteps d s (snd (n (snd (m s))))"
    using allowed_then [OF assms(1), of s n] assms by (simp_all add: allowed_def)
  then show "osteps d s (snd (seqE m n s))" by (cases "m s") (auto simp: seqE_def bindE_def split: sum.splits)
qed

lemma allowed_catch:
  assumes "allowed d m" "\<And>e. allowed d (h e)"
  shows "allowed d (catchE m h)"
  unfolding allowed_def
proof (intro allI impI)
  fix s
  assume "live_ok d s"
  then have "osteps d s (snd (m s))" "osteps d s (snd (h e (snd (m s))))" for e
    using allowed_then [OF assms(1), of s "h e"] assms by (simp_all add: allowed_def)
  then show "osteps d s (snd (catchE m h s))" by (cases "m s") (auto simp: catchE_def split: sum.splits)
qed

lemma demo_ports_ok: "ports_ok (demo_ports slot)"
  by (simp add: ports_ok_def demo_ports_def option_allowed_def allowed_return)

text \<open>While the issuer is asked, the same execution is submitted a second time, to the end.\<close>

definition submit_again :: "(unit, AuthorizationEnvelope) live" where
  "submit_again = seqE (catchE (run_call (demo_ports 9) (C_submit ''x'')) (\<lambda>_. returnE ())) (returnE ex_envelope)"

definition demo_overlap :: "unit LivePorts" where
  "demo_overlap = (demo_ports 9)\<lparr> lt_issue := Some (\<lambda>_ _ _. submit_again) \<rparr>"

lemma demo_overlap_ok: "ports_ok demo_overlap"
proof -
  have "allowed (demo_ports 9) (run_call (demo_ports 9) (C_submit ''x''))"
    unfolding allowed_def by (intro allI impI run_call_osteps demo_ports_ok)
  then have "allowed (demo_ports 9) submit_again"
    unfolding submit_again_def by (intro allowed_seq allowed_catch allowed_return)
  then have "allowed demo_overlap submit_again"
    by (subst allowed_same [where e = "demo_ports 9"]) (simp_all add: demo_overlap_def)
  then show ?thesis
    unfolding ports_ok_def by (simp add: demo_overlap_def demo_ports_def option_allowed_def allowed_return)
qed

text \<open>
  C4: every call of the orchestrator is a run of the machine whose steps are single transitions of single executions,
  one operation of the approval engine, or a broadcast made in one step with the move to \<open>submitting\<close>, also when
  other calls run at every one of its awaits; so a call may itself be what runs while another call waits.
\<close>

theorem calls_refine_machine:
  assumes "ports_ok d"
  shows "allowed d (run_call d c)"
  using run_call_osteps [OF assms] by (auto simp: allowed_def)

theorem calls_refine_machine_witness:
  "osteps demo_overlap (live_start ()) (snd (run_call demo_overlap (C_submit ''x'') (live_start ())))"
  by (rule calls_refine_machine [OF demo_overlap_ok, of "C_submit ''x''", unfolded allowed_def, rule_format, OF start_ok])


section \<open>What holds of every execution\<close>

lemma count_where_le: "(\<And>x. x \<in> set xs \<Longrightarrow> P x \<Longrightarrow> Q x) \<Longrightarrow> count_where P xs \<le> count_where Q xs"
  by (induction xs) auto

lemma sends_le: "live_ok d s \<Longrightarrow> get_execution i s = Some x \<Longrightarrow> sends i s \<le> 1"
  using get_row_ok get_execution_id by (fastforce simp: row_ok_def split: if_splits)

lemma sent_known:
  assumes "live_ok d s" "(i, wire) \<in> set (lv_sent s)"
  shows "\<exists>x. get_execution i s = Some x \<and> lx_state x \<in> past \<and> carries (lt_lib d) wire x"
proof -
  have "i \<in> lx_id ` set (lv_execs s)" using assms by (force simp: live_ok_def)
  then obtain x where x: "get_execution i s = Some x" unfolding get_execution_def
    by (cases "find_where (\<lambda>x. lx_id x = i) (lv_execs s)") (auto simp: find_where_None exists_where_iff)
  have row: "row_ok (lt_lib d) s x" and id: "lx_id x = i" using get_row_ok [OF assms(1) x] get_execution_id [OF x] by auto
  have "sends i s \<noteq> 0" using assms(2) sends_0 [of i s] by auto
  then show ?thesis using row x assms(2) id by (auto simp: row_ok_def split: if_splits)
qed

lemma same_key:
  assumes "live_ok d s" "get_execution i s = Some x" "get_execution j s = Some y" "lx_idempotencyKey x = lx_idempotencyKey y"
  shows "i = j"
proof -
  have "inj_on lx_idempotencyKey (set (lv_execs s))" using assms(1) by (simp add: live_ok_def distinct_map)
  then have "x = y" using get_execution_id [OF assms(2)] get_execution_id [OF assms(3)] assms(4) by (blast dest: inj_onD)
  then show ?thesis using get_execution_id [OF assms(2)] get_execution_id [OF assms(3)] by simp
qed

text \<open>
  C3: a client's idempotency key is broadcast at most once, whatever is called and however often, whatever overlaps
  and however the ports answer; every broadcast is of a known execution.
\<close>

theorem one_broadcast_per_key:
  assumes "ports_ok d"
  shows "let s = run_calls d cs (live_start w) in
    count_where (\<lambda>b. case get_execution (fst b) s of None \<Rightarrow> True | Some x \<Rightarrow> lx_idempotencyKey x = key) (lv_sent s) \<le> 1"
proof -
  let ?s = "run_calls d cs (live_start w)"
  let ?P = "\<lambda>b. case get_execution (fst b) ?s of None \<Rightarrow> True | Some x \<Rightarrow> lx_idempotencyKey x = key"
  have ok: "live_ok d ?s" using assms by (rule run_calls_ok)
  have "count_where ?P (lv_sent ?s) \<le> 1"
  proof (cases "\<exists>i x. get_execution i ?s = Some x \<and> lx_idempotencyKey x = key")
    case True
    then obtain i x where x: "get_execution i ?s = Some x" "lx_idempotencyKey x = key" by blast
    have "count_where ?P (lv_sent ?s) \<le> sends i ?s"
      unfolding sends_def using sent_known [OF ok] same_key [OF ok x(1)] x(2) by (intro count_where_le) (fastforce split: option.splits)
    then show ?thesis using sends_le [OF ok x(1)] by linarith
  next
    case False
    have "count_where ?P (lv_sent ?s) \<le> count_where (\<lambda>_. False) (lv_sent ?s)"
      using sent_known [OF ok] False by (intro count_where_le) (fastforce split: option.splits)
    then show ?thesis by (simp add: count_where_def)
  qed
  then show ?thesis by (simp add: Let_def)
qed

theorem one_broadcast_per_key_witness:
  "(let s = run_calls demo_overlap demo_trade (live_start ()) in
    count_where (\<lambda>b. case get_execution (fst b) s of None \<Rightarrow> True | Some x \<Rightarrow> lx_idempotencyKey x = ''k'') (lv_sent s) \<le> 1) \<and>
   lv_sent (run_calls (demo_ports 9) demo_trade (live_start ())) = [(''x'', demo_wire)]"
  using one_broadcast_per_key [OF demo_overlap_ok, of demo_trade "()" "''k''"] demo_runs(1) by simp

text \<open>
  Whatever was broadcast is recorded: its execution is past \<open>signing\<close> and carries the signature that the sent bytes
  bear, which stays the same from then on.
\<close>

theorem broadcast_is_recorded:
  assumes "ports_ok d"
  shows "let s = run_calls d cs (live_start w); t = run_calls d later s in
    list_all (\<lambda>(i, wire). case (get_execution i s, get_execution i t) of
        (Some x, Some y) \<Rightarrow> lx_state x \<in> past \<and> carries (lt_lib d) wire x \<and> lx_state y \<in> past \<and> lx_signature y = lx_signature x
      | _ \<Rightarrow> False) (lv_sent s)"
proof -
  let ?s = "run_calls d cs (live_start w)"
  have ok: "live_ok d ?s" using assms by (rule run_calls_ok)
  have stays: "row_stays ?s (run_calls d later ?s)" using osteps_stays [OF run_calls_osteps [OF assms ok]] .
  have "case (get_execution i ?s, get_execution i (run_calls d later ?s)) of
        (Some x, Some y) \<Rightarrow> lx_state x \<in> past \<and> carries (lt_lib d) wire x \<and> lx_state y \<in> past \<and> lx_signature y = lx_signature x
      | _ \<Rightarrow> False" if "(i, wire) \<in> set (lv_sent ?s)" for i wire
    using sent_known [OF ok that] stays unfolding row_stays_def by fastforce
  then show ?thesis by (auto simp: Let_def list_all_iff)
qed

theorem broadcast_is_recorded_witness:
  "let s = run_calls demo_overlap demo_trade (live_start ()); t = run_calls demo_overlap [C_reconcile ''x''] s in
    list_all (\<lambda>(i, wire). case (get_execution i s, get_execution i t) of
        (Some x, Some y) \<Rightarrow> lx_state x \<in> past \<and> carries (lt_lib demo_overlap) wire x \<and> lx_state y \<in> past \<and> lx_signature y = lx_signature x
      | _ \<Rightarrow> False) (lv_sent s)"
  by (rule broadcast_is_recorded [OF demo_overlap_ok])

text \<open>
  C5: an execution is signed only under its own approval: one that is being signed or is past it has an approval with
  its own identity which was consumed and which an operator other than the proposer, with the role and the scope,
  granted; and it has a signature exactly when it is past signing.
\<close>

theorem signed_under_own_approval:
  assumes "ports_ok d"
  shows "let s = run_calls d cs (live_start w) in
    list_all (\<lambda>x. (lx_signature x \<noteq> None \<longleftrightarrow> lx_state x \<in> past) \<and>
      (if lx_state x \<in> insert Signing past
       then (case (lt_engine d, raw (lx_id x) (lv_appr s)) of
               (Some en, Some r) \<Rightarrow> lx_approvalId x = Some (lx_id x) \<and> rq_status r = Ap_consumed \<and>
                 (\<exists>q. q \<in> approvers (lx_id x) (lv_appr s) \<and> q \<noteq> rq_proposer_id r \<and> operator_ok en q (rq_type r))
             | _ \<Rightarrow> False)
       else True)) (lv_execs s)"
proof -
  let ?s = "run_calls d cs (live_start w)"
  have ok: "live_ok d ?s" using assms by (rule run_calls_ok)
  have granted: "case (lt_engine d, raw i (lv_appr ?s)) of
        (Some en, Some r) \<Rightarrow> rq_status r = Ap_consumed \<and> (\<exists>q. q \<in> approvers i (lv_appr ?s) \<and> q \<noteq> rq_proposer_id r \<and> operator_ok en q (rq_type r))
      | _ \<Rightarrow> False" if "is_consumed (lv_appr ?s) i" for i
  proof -
    obtain r where r: "raw i (lv_appr ?s) = Some r" "rq_status r = Ap_consumed" using \<open>is_consumed _ i\<close> by (auto simp: is_consumed_def split: option.splits)
    have "lt_engine d \<noteq> None" using r(1) ok by (auto simp: live_ok_def appr_ok_def raw_def empty_approvals_def split: option.splits)
    then obtain en ops where en: "lt_engine d = Some en" "lv_appr ?s = run_approvals en ops empty_approvals"
      using ok by (auto simp: live_ok_def appr_ok_def)
    have sane: "decisions_ok en (lv_appr ?s)" "quorums_ok (lv_appr ?s)" by (simp_all only: en(2) reachable_ok)
    have "1 \<le> int (card (approvers i (lv_appr ?s)))"
      using sane r by (fastforce simp: quorums_ok_def granted_def approvals_of_card)
    then obtain q where "q \<in> approvers i (lv_appr ?s)" by fastforce
    then show ?thesis using approver_ok [OF sane(1) r(1)] r en(1) by auto
  qed
  have "row_ok (lt_lib d) ?s x" if "x \<in> set (lv_execs ?s)" for x using ok that by (simp add: live_ok_def list_all_iff)
  then show ?thesis using granted by (fastforce simp: Let_def list_all_iff row_ok_def split: option.splits)
qed

theorem signed_under_own_approval_witness:
  "let s = run_calls (demo_ports 9) demo_trade (live_start ()) in
    list_all (\<lambda>x. lx_state x = Broadcast \<and> (case raw (lx_id x) (lv_appr s) of Some r \<Rightarrow> rq_status r = Ap_consumed | None \<Rightarrow> False)) (lv_execs s)"
proof -
  have "lv_execs (run_calls (demo_ports 9) demo_trade (live_start ())) = [demo_sent]" "lx_state demo_sent = Broadcast" "lx_id demo_sent = ''x''"
    by (simp_all add: demo_runs demo_at_def demo_sent_def demo_approved_def demo_row_def new_execution_def)
  then show ?thesis using signed_under_own_approval [OF demo_ports_ok, of 9 demo_trade "()"]
    by (auto simp: Let_def past_def split: option.splits)
qed


section \<open>Without approvals\<close>

definition never_asked :: "'w Live \<Rightarrow> bool" where
  "never_asked s \<longleftrightarrow> list_all (\<lambda>x. lx_approvalId x = None) (lv_execs s)"

lemma edge_unasked:
  assumes "edge required a x y" "\<not> required" "lx_approvalId x = None"
  shows "lx_approvalId y = None"
  using assms by cases auto

lemma never_asked_row: "never_asked s \<Longrightarrow> get_execution i s = Some x \<Longrightarrow> lx_approvalId x = None"
  using get_execution_id by (fastforce simp: never_asked_def list_all_iff)

lemma never_asked_set_row: "never_asked s \<Longrightarrow> lx_approvalId y = None \<Longrightarrow> never_asked (set_row i y s)"
  by (auto simp: never_asked_def list_all_iff set_row_def set_update_where)

lemma never_asked_step:
  assumes "ostep d s t" "\<not> tp_approvalRequired (lt_policy d)" "never_asked s"
  shows "never_asked t"
  using assms(1)
proof cases
  case (moved i x y now)
  have "lx_approvalId y = None" by (rule edge_unasked [OF moved(3) assms(2) never_asked_row [OF assms(3) moved(2)]])
  then show ?thesis using moved(1) assms(3) by (simp add: never_asked_set_row)
next
  case (submitted i x y now)
  then show ?thesis using never_asked_row [OF assms(3) submitted(2)] submits_keeps(2) [OF submitted(3)] assms(3) by (simp add: never_asked_set_row)
next
  case (sent i x y wire now)
  then have "never_asked (set_row i (stamped x y now) s)"
    using never_asked_row [OF assms(3) sent(2)] submits_keeps(2) [OF sent(3)] assms(3) by (simp add: never_asked_set_row)
  then show ?thesis using sent(1) by (simp add: never_asked_def)
qed (use assms(3) in \<open>simp_all add: never_asked_def\<close>)

lemma never_asked_steps: "osteps d s t \<Longrightarrow> \<not> tp_approvalRequired (lt_policy d) \<Longrightarrow> never_asked s \<Longrightarrow> never_asked t"
  by (induction rule: rtranclp_induct) (auto intro: never_asked_step)

definition demo_free :: "unit LivePorts" where
  "demo_free = (demo_ports 9)\<lparr> lt_policy := demo_policy\<lparr> tp_approvalRequired := False \<rparr> \<rparr>"

lemma demo_free_ok: "ports_ok demo_free"
  by (simp add: ports_ok_def demo_free_def demo_ports_def option_allowed_def allowed_return)

text \<open>
  A policy that asks for no approval trades nothing: its executions are approved as they are made, but nothing is
  ever signed or broadcast, since a submission demands an approval that was never requested.
\<close>

theorem no_approval_no_trade:
  assumes "ports_ok d" and "\<not> tp_approvalRequired (lt_policy d)"
  shows "let s = run_calls d cs (live_start w) in lv_sent s = [] \<and> list_all (\<lambda>x. lx_state x \<notin> insert Signing past) (lv_execs s)"
proof -
  let ?s = "run_calls d cs (live_start w)"
  have ok: "live_ok d ?s" using assms(1) by (rule run_calls_ok)
  have "never_asked ?s"
    using never_asked_steps [OF run_calls_osteps [OF assms(1) start_ok] assms(2)] by (simp add: never_asked_def live_start_def)
  then have rows: "lx_state x \<notin> insert Signing past" if "x \<in> set (lv_execs ?s)" for x
    using ok that by (auto simp: live_ok_def never_asked_def list_all_iff row_ok_def)
  have "lv_sent ?s = []"
  proof (cases "lv_sent ?s")
    case (Cons b bs)
    then show ?thesis using sent_known [OF ok, of "fst b" "snd b"] rows get_execution_id by (cases b) fastforce
  qed
  then show ?thesis using rows by (simp add: Let_def list_all_iff)
qed

theorem no_approval_no_trade_witness:
  "let s = run_calls demo_free demo_trade (live_start ()) in lv_sent s = [] \<and> list_all (\<lambda>x. lx_state x \<notin> insert Signing past) (lv_execs s)"
  by (rule no_approval_no_trade [OF demo_free_ok]) (simp add: demo_free_def)

section \<open>The evidence an approval is bound to\<close>

lemma osteps_rows_le: "osteps d s t \<Longrightarrow> rows_le (lv_appr s) (lv_appr t)"
proof (induction rule: rtranclp_induct)
  case (step t u)
  from step(2) have "rows_le (lv_appr t) (lv_appr u)" by cases (simp_all add: rows_le_op)
  with step(3) show ?case by (rule rows_le_trans)
qed simp

lemma map_sum_Inr: "map_sum f id z = Inr x \<Longrightarrow> (z = Inr x \<Longrightarrow> P) \<Longrightarrow> P"
  by (cases z) simp_all

lemma get_unconsumed: "\<not> is_consumed s i \<Longrightarrow> \<not> is_consumed (snd (get_request e i now s)) i"
  by (auto simp: is_consumed_def get_request_def Let_def expire_request_def raw_update dest: raw_id split: option.splits if_splits)

lemma get_current: "fst (get_request e i now s) = raw i (snd (get_request e i now s))"
  by (simp add: get_request_def Let_def split: option.split)

lemma bound_other:
  assumes "(se_hash e', eb_slot (se_body e'), eb_blockhash (se_body e')) \<noteq> (se_hash e, eb_slot (se_body e), eb_blockhash (se_body e))"
  shows "canonicalSerialize (boundKeys h (binding d q r e')) \<noteq> canonicalSerialize (boundKeys h (binding d q r e))"
  using assms by (auto simp: boundKeys_eq binding_def)

text \<open>
  \<open>execute\<close> requests the approval for the evidence of its own simulation, \<open>submit\<close> consumes it with the evidence
  that came with the quote. When the two differ in the hash, the slot or the block hash, the submission is refused at the
  approval whatever happens in between, and no execution changes: the approval cannot be used.
\<close>

theorem approval_of_other_evidence_useless:
  assumes "lt_engine d = Some en" and "ask_approval d q r fresh i actor challenge s = (Inr (), t)" and "osteps d t u"
    and "(se_hash quoted, eb_slot (se_body quoted), eb_blockhash (se_body quoted)) \<noteq>
         (se_hash fresh, eb_slot (se_body fresh), eb_blockhash (se_body fresh))"
    and "\<not> is_consumed (lv_appr u) i" and "lx_approvalId x = Some i" and "i \<noteq> []"
  shows "isl (fst (submit_approval d x q r quoted u)) \<and> lv_execs (snd (submit_approval d x q r quoted u)) = lv_execs u"
proof -
  obtain y where y: "request en \<lparr> ai_id = i, ai_type = ''sign'', ai_proposerId = actor, ai_bound = binding d q r fresh,
      ai_expiresAt = qo_expiresAt q, ai_displayImpact = None \<rparr> 1 False challenge (lt_now d s) (lv_appr s) = (Inr y, lv_appr t)"
    using assms(1,2) by (auto simp: ask_approval_def clock_def apprE_def bindE_def seqE_def getE_def returnE_def elim!: map_sum_Inr split: prod.splits sum.splits)
  let ?asked = "\<lparr> ai_id = i, ai_type = ''sign'', ai_proposerId = actor, ai_bound = binding d q r fresh,
      ai_expiresAt = qo_expiresAt q, ai_displayImpact = None \<rparr>"
  have "fst (request en ?asked 1 False challenge (lt_now d s) (lv_appr s)) = Inr y" by (simp add: y)
  from request_row [OF this] y obtain r0 where r0: "raw i (lv_appr t) = Some r0"
    "rq_binding r0 = canonicalSerialize (boundKeys (en_sha256 en) (binding d q r fresh))" by auto
  obtain r1 where r1: "raw i (lv_appr u) = Some r1" "row_le r0 r1" using osteps_rows_le [OF assms(3)] r0(1) unfolding rows_le_def by blast
  define a where "a = snd (get_request en i (lt_now d u) (lv_appr u))"
  obtain r2 where r2: "raw i a = Some r2" "row_le r1 r2"
    using rows_le_get [of "lv_appr u" en i "lt_now d u"] r1(1) unfolding rows_le_def a_def [symmetric] by blast
  have got: "get_request en i (lt_now d u) (lv_appr u) = (Some r2, a)"
    using r2(1) get_current [of en i "lt_now d u" "lv_appr u"] by (simp add: prod_eq_iff a_def)
  have open2: "rq_status r2 \<noteq> Ap_consumed"
    using get_unconsumed [OF assms(5), of en "lt_now d u"] r2(1) by (simp add: is_consumed_def a_def)
  have "canonicalSerialize (boundKeys (en_sha256 en) (binding d q r quoted)) \<noteq> rq_binding r2"
    using bound_other [OF assms(4)] r0(2) row_le_fields [OF row_le_trans [OF r1(2) r2(2)]] by simp
  moreover obtain z v where zv: "consume en i (binding d q r quoted) (lt_now d (u\<lparr> lv_appr := a \<rparr>)) a = (z, v)" by fastforce
  ultimately obtain err where lost: "consume en i (binding d q r quoted) (lt_now d (u\<lparr> lv_appr := a \<rparr>)) a = (Inl err, v)"
    using consume_won [of en i "binding d q r quoted" "lt_now d (u\<lparr> lv_appr := a \<rparr>)" a] r2(1) by (cases z) auto
  show ?thesis
    using assms(1,6,7) got open2 lost
    by (simp add: submit_approval_def set_text_def get_approval_def clock_def bindE_def seqE_def getE_def apprE_def whenE_def)
qed

theorem approval_of_other_evidence_useless_witness:
  "isl (fst (submit_approval (demo_ports 10) demo_row demo_quote demo_sq (demo_evidence 9) (demo_at demo_row (demo_asked 10)))) \<and>
   fst (submit (demo_ports 10) ''x'' (run_calls (demo_ports 10) (take 3 demo_trade) (live_start ()))) = Inl (Lt_approval A_mismatch)"
proof -
  have ask: "ask_approval (demo_ports 10) demo_quote demo_sq (demo_evidence 10) ''x'' ''bob'' ''c'' (demo_at demo_row empty_approvals) =
      (Inr (), demo_at demo_row (demo_asked 10))"
    using demo_asks [OF demo_valid9(2)] by (simp add: ask_approval_def effects clock_def apprE_def demo_at_def demo_input_def)
  have "raw ''x'' (demo_asked 10) = Some r \<Longrightarrow> rq_status r = Ap_pending" for r
    using demo_valid9(2) by (auto simp: demo_asked_def demo_simps demo_input_def)
  then have "\<not> is_consumed (lv_appr (demo_at demo_row (demo_asked 10))) ''x''" by (auto simp: is_consumed_def demo_at_def split: option.splits)
  then show ?thesis
    using approval_of_other_evidence_useless [OF _ ask rtranclp.rtrancl_refl, of demo_engine "demo_evidence 9" demo_row] demo_stale demo_runs(2)
    by (simp add: demo_evidence_def demo_row_def)
qed


section \<open>Recovery\<close>

definition unsigned_ports :: "'w LivePorts \<Rightarrow> 'w LivePorts" where
  "unsigned_ports d = d\<lparr> lt_sign := None, lt_issue := None \<rparr>"

lemma unsigned_ports_simps [simp]:
  "lt_result (unsigned_ports d) = lt_result d" "lt_lib (unsigned_ports d) = lt_lib d" "lt_reservations (unsigned_ports d) = lt_reservations d"
  "lt_status (unsigned_ports d) = lt_status d" "lt_blockHeight (unsigned_ports d) = lt_blockHeight d" "lt_broadcast (unsigned_ports d) = lt_broadcast d"
  "lt_now (unsigned_ports d) = lt_now d" "lt_policy (unsigned_ports d) = lt_policy d"
  by (simp_all add: unsigned_ports_def)

lemma unsigned_steps [simp]:
  "clock (unsigned_ports d) = clock d" "move_to (unsigned_ports d) i fs f = move_to d i fs f" "expire (unsigned_ports d) i fs = expire d i fs"
  "send_broadcast (unsigned_ports d) i w = send_broadcast d i w" "commit_reservation (unsigned_ports d) v = commit_reservation d v"
  "landed_as (unsigned_ports d) i g = landed_as d i g" "is_final (unsigned_ports d) c = is_final d c"
  by (simp_all add: clock_def move_to_def expire_def send_broadcast_def commit_reservation_def landed_as_def is_final_def cong: option.case_cong)

lemma unsigned_recovery [simp]:
  "recover_signed (unsigned_ports d) = recover_signed d" "recover_execution (unsigned_ports d) i = recover_execution d i"
  "reconcile (unsigned_ports d) i = reconcile d i"
  by (intro ext | simp add: recover_signed_def recover_execution_def reconcile_def reconcile_missing_def reconcile_seen_def cong: option.case_cong if_cong)+

text \<open>
  The recovery never signs again: settling a row, and recovering one that already has an authorization, neither ask the issuer
  nor the signer for a signature; they do what they would do if there were none to ask.
\<close>

lemma recovery_never_signs:
  "recover_row d row n = (if lx_state row = Signing \<and> set_text (lx_authorizationId row) = None
     then recover_row d row n else recover_row (unsigned_ports d) row n)"
proof -
  have "recoverSigning (unsigned_ports d) row = recoverSigning d row" if "set_text (lx_authorizationId row) \<noteq> None"
    using that unfolding recoverSigning_def by (auto cong: option.case_cong ResultReply.case_cong)
  then show ?thesis by (simp add: recover_row_def)
qed

definition accounted :: "RecoveryReport \<Rightarrow> nat \<Rightarrow> bool" where
  "accounted n k \<longleftrightarrow> rr_recovered n + rr_reconciled n + rr_failed n = k"

lemma recover_row_accounts: "accounted n k \<Longrightarrow> \<exists>m t. recover_row d row n s = (Inr m, t) \<and> accounted m (k + 1) \<and> rr_scanned m = rr_scanned n"
  by (auto simp: recover_row_def catchE_def returnE_def seqE_def bindE_def accounted_def split: prod.split sum.split)

lemma recover_rows_account: "accounted n k \<Longrightarrow> \<exists>m t. recover_rows d rows n s = (Inr m, t) \<and> accounted m (k + length rows) \<and> rr_scanned m = rr_scanned n"
proof (induction rows arbitrary: n k s)
  case (Cons row rows)
  obtain m t where m: "recover_row d row n s = (Inr m, t)" "accounted m (k + 1)" "rr_scanned m = rr_scanned n"
    using recover_row_accounts [OF Cons.prems] by blast
  show ?case using Cons.IH [OF m(2), of t] m by (auto simp: bindE_def)
qed (simp add: returnE_def)

text \<open>
  A recovery run always returns, whatever the ports throw, and accounts for every row it took: at most \<open>limit\<close> of
  them, each recovered, reconciled or failed.
\<close>

theorem recovery_accounts:
  "case fst (recoverAndReconcile d limit s) of
     Inl err \<Rightarrow> False
   | Inr n \<Rightarrow> rr_scanned n = rr_recovered n + rr_reconciled n + rr_failed n \<and> int (rr_scanned n) \<le> max 0 limit \<and>
       rr_scanned n \<le> length (list_executions [Signing, Submitting, Reconciliation_required, Broadcast, Confirmed] s)"
proof -
  let ?rows = "take (nat limit) (list_executions [Signing, Submitting, Reconciliation_required, Broadcast, Confirmed] s)"
  let ?n = "\<lparr> rr_scanned = length ?rows, rr_recovered = 0, rr_reconciled = 0, rr_failed = 0 \<rparr>"
  have "accounted ?n 0" by (simp add: accounted_def)
  from recover_rows_account [OF this, of d ?rows s] obtain m t
    where m: "recover_rows d ?rows ?n s = (Inr m, t)" "accounted m (length ?rows)" "rr_scanned m = length ?rows" by auto
  have "recoverAndReconcile d limit s = (Inr m, t)" using m(1) by (simp add: recoverAndReconcile_def bindE_def getE_def Let_def)
  then show ?thesis using m(2,3) by (simp add: accounted_def)
qed

text \<open>
  What a reconciliation makes of an execution with a signature is decided by the node alone, not by the state the
  execution is in: one that was finalized goes back to confirmed, to failed, to reconciliation or to dropped when the
  node answers so.
\<close>

theorem reconcile_by_node:
  assumes "get_execution i s = Some x" and "set_text (lx_signature x) = Some sig"
    and "lt_status d sig s = (Inr st, s)" and "lt_blockHeight d s = (Inr h, s)" and "set_text (lx_reservationId x) = None"
  shows "map_sum id lx_state (fst (reconcile d i s)) = Inr (case st of
       None \<Rightarrow> if (case lx_lastValidBlockHeight x of None \<Rightarrow> False | Some last_height \<Rightarrow> h > last_height) then Dropped else Reconciliation_required
     | Some w \<Rightarrow> if ss_err w then Failed else if is_final d (ss_confirmationStatus w) then Finalized else Confirmed)"
  using assms
  by (auto simp: reconcile_def reconcile_missing_def reconcile_seen_def requireE_def bindE_def seqE_def returnE_def move_to_def clock_def getE_def
      transition_def Let_def split: option.split)

definition demo_final :: "unit Live" where
  "demo_final = demo_at (demo_sent\<lparr> lx_state := Finalized \<rparr>) demo_used"

theorem reconcile_by_node_witness:
  "map_sum id lx_state (fst (reconcile (demo_ports 9) ''x'' demo_final)) = Inr Reconciliation_required"
proof -
  have "get_execution ''x'' demo_final = Some (demo_sent\<lparr> lx_state := Finalized \<rparr>)"
    by (simp add: demo_final_def demo_at_def get_execution_def demo_sent_def demo_approved_def demo_row_def new_execution_def)
  then show ?thesis
    using reconcile_by_node [of "''x''" demo_final "demo_sent\<lparr> lx_state := Finalized \<rparr>" "''sig''" "demo_ports 9" None 10]
    by (simp add: demo_sent_def demo_approved_def demo_row_def new_execution_def set_text_def returnE_def)
qed

section \<open>Quotes and requests\<close>

lemma quote_result:
  assumes "fst (quote d asked newId s) = Inr q"
  shows "\<exists>kept. quote_guards d asked = Inr () \<and> js_BigInt (fl_sub (JNum 10000) (rw_slippageBps asked)) = Some kept \<and>
     qo_minimumOut q = big_div (qo_amountOut q * kept) 10000 \<and> qo_amountIn q = rw_amountIn asked"
  using assms
  by (auto simp: quote_def bindE_def seqE_def liftE_def lt_throw_def throwE_def returnE_def putQuote_def modifyE_def Let_def
      split: prod.splits sum.splits option.splits)

text \<open>
  A stored quote is within the policy, and its minimum is what slippage of \<open>k\<close> basis points leaves of the amount,
  rounded down to the base unit.
\<close>

theorem quote_within_policy:
  assumes "fst (quote d asked newId s) = Inr q" and "rw_slippageBps asked = JNum (of_int k)" and "0 \<le> qo_amountOut q" and "k \<le> 10000"
  shows "0 < qo_amountIn q \<and> qo_amountIn q \<le> tp_maxAmountIn (lt_policy d) \<and> 0 \<le> k \<and>
     qo_minimumOut q * 10000 \<le> qo_amountOut q * (10000 - k) \<and> qo_amountOut q * (10000 - k) < (qo_minimumOut q + 1) * 10000"
proof -
  obtain kept where r: "quote_guards d asked = Inr ()" "js_BigInt (fl_sub (JNum 10000) (JNum (of_int k))) = Some kept"
    "qo_minimumOut q = big_div (qo_amountOut q * kept) 10000" "qo_amountIn q = rw_amountIn asked"
    using quote_result [OF assms(1)] assms(2) by auto
  have guards: "0 < qo_amountIn q" "qo_amountIn q \<le> tp_maxAmountIn (lt_policy d)" "0 \<le> k"
    using r(1,4) assms(2) by (auto simp: quote_guards_def throwIf_def split: if_splits)
  have "fl_sub (JNum 10000) (JNum (of_int k)) = JNum (of_int (10000 - k))"
    using dbl_int [of "10000 - k"] guards(3) assms(4) by (simp add: fl_sub_def)
  then have kept: "kept = 10000 - k" using r(2) by (simp split: if_splits)
  define left where "left = qo_amountOut q * (10000 - k)"
  have "0 \<le> left" using assms(3,4) by (simp add: left_def)
  then have "qo_minimumOut q = left div 10000" using r(3) kept by (simp add: left_def)
  then show ?thesis using guards pos_mod_bound [of 10000 left] div_mult_mod_eq [of left 10000] unfolding left_def [symmetric] by (intro conjI) (assumption | simp)+
qed


theorem quote_within_policy_witness:
  "qo_minimumOut demo_quote * 10000 \<le> 7 * 9900 \<and> 7 * 9900 < (qo_minimumOut demo_quote + 1) * 10000"
proof -
  have "fst (quote (demo_ports 9) \<lparr> rw_side = Side_buy, rw_inputMint = ''A'', rw_outputMint = ''B'', rw_amountIn = 10, rw_slippageBps = JNum 100,
      rw_unknown_field = False \<rparr> ''q'' (live_start ())) = Inr demo_quote"
    by (simp add: quote_def quote_guards_def throwIf_def isPublicKey_def demo_sq_def effects demo_ports_def demo_lib_def putQuote_def
        Let_def digest_def live_start_def fl_sub_def dbl_numeral trading_policyHash_def demo_quote_def)
  from quote_within_policy [OF this, of 100] show ?thesis by (simp add: demo_quote_def)
qed

text \<open>
  A request repeated under its idempotency key answers with the execution as it is and changes nothing: no
  simulation, no reservation, no second approval.
\<close>

lemma execute_repeated:
  "case byIdempotency key s of
     None \<Rightarrow> True
   | Some x \<Rightarrow> execute_trade d quoteId key actor dry newId challenge s = (Inr x, s) \<and>
       revoke_delegate d tokenAccount key actor dry quoteId newId challenge s = (Inr x, s)"
  by (simp add: execute_trade_def revoke_delegate_def bindE_def getE_def returnE_def split: option.split)

section \<open>A retried submission\<close>

text \<open>
  A submission of an execution that is already being signed asks the issuer for another authorization and the signer for
  another signature: the authorization the execution has is not looked at.
\<close>

lemma resubmission_ignores_authorization:
  "submit_sign d (x\<lparr> lx_authorizationId := k \<rparr>) q r e issuing ask = submit_sign d x q r e issuing ask"
  by (simp add: submit_sign_def issue_refs_def Let_def)

end
