(* ===== verification/Strategies.thy ===== *)
theory Strategies
  imports Contracts Doubles
begin

text \<open>
  \<open>src/src/strategy/store.ts\<close> and \<open>src/src/strategy/runner.ts\<close>: the table of scheduled strategies and
  the runner that steps through the due ones. Every awaited call of the executor is a port that may
  change the database as well as the outside world, since other requests run while the step waits.
  The row a step works on is the copy it read when the tick began; it is a field of the state
  because the \<open>catch\<close> block reads what the step did to it.
\<close>

section \<open>Rows\<close>

text \<open>
  A strategy's parameters are an object read from JSON text. The code looks only at numbers and
  strings; any other value is kept as its text.
\<close>

datatype param = Pm_number jsnum | Pm_string string | Pm_other string

type_synonym params = "string \<rightharpoonup> param"

datatype StrategyStatus = Sg_active | Sg_paused | Sg_done | Sg_errored

definition STRATEGY_KINDS :: "string list" where
  "STRATEGY_KINDS = [''dca'', ''twap'', ''trailing_stop'', ''take_profit'']"

definition isStrategyKind :: "string \<Rightarrow> bool" where
  "isStrategyKind value \<longleftrightarrow> value \<in> set STRATEGY_KINDS"

record StrategyRow =
  sg_id :: string
  sg_userId :: int
  sg_kind :: string
  sg_status :: StrategyStatus
  sg_params :: params
  sg_nextRunAt :: jsnum
  sg_createdAt :: int
  sg_lastRunAt :: "int option"
  sg_runs :: nat
  sg_errors :: nat
  sg_lastError :: "string option"

text \<open>A stored row; \<open>None\<close> in the column of the parameters is a text that is not a JSON object.\<close>

record StrategyDbRow =
  sd_id :: string
  sd_user_id :: int
  sd_kind :: string
  sd_status :: StrategyStatus
  sd_params :: "params option"
  sd_next_run_at :: jsnum
  sd_created_at :: int
  sd_last_run_at :: "int option"
  sd_runs :: nat
  sd_errors :: nat
  sd_last_error :: "string option"

definition hydrate :: "StrategyDbRow \<Rightarrow> StrategyRow" where
  "hydrate r =
     \<lparr> sg_id = sd_id r, sg_userId = sd_user_id r, sg_kind = sd_kind r, sg_status = sd_status r,
       sg_params = (case sd_params r of None \<Rightarrow> Map.empty | Some p \<Rightarrow> p), sg_nextRunAt = sd_next_run_at r,
       sg_createdAt = sd_created_at r, sg_lastRunAt = sd_last_run_at r, sg_runs = sd_runs r,
       sg_errors = sd_errors r, sg_lastError = sd_last_error r \<rparr>"

text \<open>\<open>JSON.stringify\<close> writes a number that is not finite as \<open>null\<close>; the others read back as they were.\<close>

fun stored_param :: "param \<Rightarrow> param" where
  "stored_param (Pm_number x) = (if js_isFinite x then Pm_number x else Pm_other ''null'')"
| "stored_param v = v"

definition stored_params :: "params \<Rightarrow> params" where
  "stored_params p = (\<lambda>k. map_option stored_param (p k))"

section \<open>The store\<close>

record StrategyDb =
  sb_rows :: "StrategyDbRow list"
  sb_closed :: bool

type_synonym 'a sop = "(StrategyDb, string, 'a) eff"

definition open_store :: "unit sop" where
  "open_store = bindE (getE sb_closed) (\<lambda>c. guardE c ''database is not open'')"

definition row_with :: "string \<Rightarrow> StrategyDb \<Rightarrow> StrategyRow option" where
  "row_with i s = map_option hydrate (find_where (\<lambda>r. sd_id r = i) (sb_rows s))"

definition get_strategy :: "string \<Rightarrow> StrategyRow option sop" where
  "get_strategy i = seqE open_store (getE (row_with i))"

definition create_strategy :: "string \<Rightarrow> int \<Rightarrow> string \<Rightarrow> params \<Rightarrow> jsnum \<Rightarrow> int \<Rightarrow> StrategyRow sop" where
  "create_strategy i userId kind p firstRunAt now =
     seqE open_store
    (bindE (getE (\<lambda>s. exists_where (\<lambda>r. sd_id r = i) (sb_rows s))) (\<lambda>taken.
     seqE (guardE taken ''UNIQUE constraint failed: strategies.id'')
    (seqE (modifyE (\<lambda>s. s\<lparr> sb_rows := sb_rows s @
       [\<lparr> sd_id = i, sd_user_id = userId, sd_kind = kind, sd_status = Sg_active, sd_params = Some (stored_params p),
          sd_next_run_at = firstRunAt, sd_created_at = now, sd_last_run_at = None, sd_runs = 0, sd_errors = 0,
          sd_last_error = None \<rparr>] \<rparr>))
    (bindE (getE (row_with i)) (\<lambda>row. case row of
        None \<Rightarrow> throwE (''strategy '' @ i @ '' vanished immediately after insert'')
      | Some r \<Rightarrow> returnE r)))))"

text \<open>\<open>ORDER BY next_run_at ASC\<close>; rows with the same deadline come in the order of insertion.\<close>

fun insert_due :: "StrategyRow \<Rightarrow> StrategyRow list \<Rightarrow> StrategyRow list" where
  "insert_due r [] = [r]"
| "insert_due r (x # xs) = (if js_lt (sg_nextRunAt x) (sg_nextRunAt r) then x # insert_due r xs else r # x # xs)"

definition due_rows :: "int \<Rightarrow> StrategyDb \<Rightarrow> StrategyRow list" where
  "due_rows now s = foldr insert_due
     (map hydrate (filter (\<lambda>r. sd_status r = Sg_active \<and> js_le (sd_next_run_at r) (JNum (of_int now))) (sb_rows s))) []"

definition due :: "int \<Rightarrow> StrategyRow list sop" where
  "due now = seqE open_store (getE (due_rows now))"

definition list_strategies :: "int \<Rightarrow> StrategyRow list sop" where
  "list_strategies userId = seqE open_store (getE (\<lambda>s.
     map hydrate (sort_key (\<lambda>r. - sd_created_at r) (filter (\<lambda>r. sd_user_id r = userId) (sb_rows s)))))"

definition all_strategies :: "int \<Rightarrow> StrategyRow list sop" where
  "all_strategies limit = seqE open_store (getE (\<lambda>s.
     map hydrate (take (nat (max 0 limit)) (sort_key (\<lambda>r. - sd_created_at r) (sb_rows s)))))"

definition saved_row :: "StrategyRow \<Rightarrow> StrategyDbRow \<Rightarrow> StrategyDbRow" where
  "saved_row row r = r\<lparr> sd_status := sg_status row, sd_params := Some (stored_params (sg_params row)),
     sd_next_run_at := sg_nextRunAt row, sd_last_run_at := sg_lastRunAt row, sd_runs := sg_runs row,
     sd_errors := sg_errors row, sd_last_error := sg_lastError row \<rparr>"

definition save_strategy :: "StrategyRow \<Rightarrow> unit sop" where
  "save_strategy row = seqE open_store (modifyE (\<lambda>s. s\<lparr> sb_rows :=
     update_where (\<lambda>r. sd_id r = sg_id row) (saved_row row) (sb_rows s) \<rparr>))"

definition setStatus :: "string \<Rightarrow> StrategyStatus \<Rightarrow> bool sop" where
  "setStatus i status =
     seqE open_store
    (seqE (modifyE (\<lambda>s. s\<lparr> sb_rows := update_where (\<lambda>r. sd_id r = i) (\<lambda>r. r\<lparr> sd_status := status \<rparr>) (sb_rows s) \<rparr>))
          (getE (\<lambda>s. exists_where (\<lambda>r. sd_id r = i) (sb_rows s))))"

definition close_strategies :: "unit sop" where
  "close_strategies = modifyE (\<lambda>s. s\<lparr> sb_closed := True \<rparr>)"

section \<open>Swaps and plans\<close>

datatype SwapKind = Sw_buy | Sw_sell | Sw_swap

record StrategySwap =
  sw_kind :: SwapKind
  sw_amountUi :: jsnum
  sw_inputMint :: string
  sw_outputMint :: string
  sw_slippageBps :: "jsnum option"

record StrategySwapResult =
  sr_ok :: bool
  sr_text :: string
  sr_signature :: "string option"

record 'w StrategyExecutor =
  ex_now :: "'w \<Rightarrow> int"
  ex_swap :: "StrategySwap \<Rightarrow> string \<Rightarrow> (StrategyDb \<times> 'w, string, StrategySwapResult) eff"
  ex_price :: "(string \<Rightarrow> (StrategyDb \<times> 'w, string, jsnum option) eff) option"
  ex_notify :: "(int \<Rightarrow> string \<Rightarrow> (StrategyDb \<times> 'w, string, unit) eff) option"

datatype Plan = Plan_swap StrategySwap | Plan_skip | Plan_done

definition MAX_CONSECUTIVE_ERRORS :: nat where "MAX_CONSECUTIVE_ERRORS = 3"
definition MIN_INTERVAL_SEC :: rat where "MIN_INTERVAL_SEC = 15"
definition DEFAULT_INTERVAL_SEC :: rat where "DEFAULT_INTERVAL_SEC = 3600"

definition num_param :: "param option \<Rightarrow> jsnum \<Rightarrow> jsnum" where
  "num_param v d = (case v of Some (Pm_number x) \<Rightarrow> if js_isFinite x then x else d | _ \<Rightarrow> d)"

definition str_param :: "param option \<Rightarrow> string \<Rightarrow> string" where
  "str_param v d = (case v of Some (Pm_string x) \<Rightarrow> x | _ \<Rightarrow> d)"

definition buy_swap :: "string \<Rightarrow> jsnum \<Rightarrow> StrategySwap" where
  "buy_swap token amount = \<lparr> sw_kind = Sw_buy, sw_amountUi = amount, sw_inputMint = WSOL_MINT,
     sw_outputMint = token, sw_slippageBps = None \<rparr>"

definition sell_swap :: "string \<Rightarrow> jsnum \<Rightarrow> StrategySwap" where
  "sell_swap token amount = \<lparr> sw_kind = Sw_sell, sw_amountUi = amount, sw_inputMint = token,
     sw_outputMint = WSOL_MINT, sw_slippageBps = None \<rparr>"

text \<open>The tolerance \<open>1e-9\<close> of the budget comparisons, as a double.\<close>

definition budget_tolerance :: jsnum where
  "budget_tolerance = dbl (1 / 1000000000)"

definition plan_dca :: "params \<Rightarrow> Plan" where
  "plan_dca p =
     (let token = str_param (p ''token'') [];
          per = num_param (p ''amountUiPerStep'') (JNum 0);
          total = num_param (p ''totalBudgetUi'') (JNum 0);
          spent = num_param (p ''spentUi'') (JNum 0)
      in if token = [] \<or> js_le per (JNum 0) then Plan_done
         else if js_gt total (JNum 0) \<and> js_gt (fl_add spent per) (fl_add total budget_tolerance) then Plan_done
         else Plan_swap (buy_swap token per))"

definition slices_of :: "params \<Rightarrow> jsnum" where
  "slices_of p = js_max (JNum 1) (js_floor (num_param (p ''slices'') (JNum 1)))"

definition done_slices :: "params \<Rightarrow> jsnum" where
  "done_slices p = js_floor (num_param (p ''doneSlices'') (JNum 0))"

definition plan_twap :: "params \<Rightarrow> Plan" where
  "plan_twap p =
     (let token = str_param (p ''token'') [];
          totalUi = num_param (p ''totalUi'') (JNum 0);
          slices = slices_of p;
          finished = done_slices p;
          side = str_param (p ''side'') ''buy''
      in if token = [] \<or> js_ge finished slices then Plan_done
         else let sliceUi = fl_div totalUi slices
              in if side = ''sell'' then Plan_swap (sell_swap token sliceUi) else Plan_swap (buy_swap token sliceUi))"

section \<open>The runner\<close>

record 'w Runner =
  rn_db :: StrategyDb
  rn_world :: 'w
  rn_running :: bool
  rn_timer :: "jsnum option"
  rn_strat :: StrategyRow

definition dbE :: "(StrategyDb, string, 'a) eff \<Rightarrow> ('w Runner, string, 'a) eff" where
  "dbE m = (\<lambda>s. case m (rn_db s) of (r, t) \<Rightarrow> (r, s\<lparr> rn_db := t \<rparr>))"

definition awaitE :: "(StrategyDb \<times> 'w, string, 'a) eff \<Rightarrow> ('w Runner, string, 'a) eff" where
  "awaitE m = (\<lambda>s. case m (rn_db s, rn_world s) of (r, t) \<Rightarrow> (r, s\<lparr> rn_db := fst t, rn_world := snd t \<rparr>))"

definition clockE :: "'w StrategyExecutor \<Rightarrow> ('w Runner, string, int) eff" where
  "clockE x = getE (\<lambda>s. ex_now x (rn_world s))"

definition stratE :: "(StrategyRow \<Rightarrow> StrategyRow) \<Rightarrow> ('w Runner, string, unit) eff" where
  "stratE f = modifyE (\<lambda>s. s\<lparr> rn_strat := f (rn_strat s) \<rparr>)"

definition save_strat :: "('w Runner, string, unit) eff" where
  "save_strat = bindE (getE rn_strat) (\<lambda>r. dbE (save_strategy r))"

definition notify_owner :: "'w StrategyExecutor \<Rightarrow> (StrategyRow \<Rightarrow> string) \<Rightarrow> ('w Runner, string, unit) eff" where
  "notify_owner x text_of =
     (case ex_notify x of
        None \<Rightarrow> returnE ()
      | Some f \<Rightarrow> bindE (getE rn_strat) (\<lambda>r.
          catchE (awaitE (f (sg_userId r) (text_of r))) (\<lambda>_. returnE ())))"

definition plan_trailing_stop :: "'w StrategyExecutor \<Rightarrow> params \<Rightarrow> ('w Runner, string, Plan) eff" where
  "plan_trailing_stop x p =
     (let token = str_param (p ''token'') [];
          dropPct = num_param (p ''dropPct'') (JNum 10);
          sizeUi = num_param (p ''sizeUi'') (JNum 0)
      in case ex_price x of
           None \<Rightarrow> returnE Plan_skip
         | Some price_of \<Rightarrow>
             if token = [] \<or> js_le sizeUi (JNum 0) then returnE Plan_skip
             else bindE (awaitE (price_of token)) (\<lambda>price. case price of
                 None \<Rightarrow> returnE Plan_skip
               | Some price \<Rightarrow>
                   let peak = js_max (num_param (p ''peak'') price) price
                   in seqE (stratE (\<lambda>r. r\<lparr> sg_params := p(''peak'' \<mapsto> Pm_number peak) \<rparr>))
                     (if js_le price (fl_mul peak (fl_sub (JNum 1) (fl_div dropPct (JNum 100))))
                      then returnE (Plan_swap (sell_swap token sizeUi))
                      else returnE Plan_skip)))"

definition plan_take_profit :: "'w StrategyExecutor \<Rightarrow> params \<Rightarrow> ('w Runner, string, Plan) eff" where
  "plan_take_profit x p =
     (let token = str_param (p ''token'') [];
          gainPct = num_param (p ''gainPct'') (JNum 50);
          sizeUi = num_param (p ''sizeUi'') (JNum 0);
          entry = num_param (p ''entryPrice'') (JNum 0)
      in case ex_price x of
           None \<Rightarrow> returnE Plan_skip
         | Some price_of \<Rightarrow>
             if token = [] \<or> js_le sizeUi (JNum 0) \<or> js_le entry (JNum 0) then returnE Plan_skip
             else bindE (awaitE (price_of token)) (\<lambda>price. case price of
                 None \<Rightarrow> returnE Plan_skip
               | Some price \<Rightarrow>
                   if js_ge price (fl_mul entry (fl_add (JNum 1) (fl_div gainPct (JNum 100))))
                   then returnE (Plan_swap (sell_swap token sizeUi))
                   else returnE Plan_skip))"

definition plan :: "'w StrategyExecutor \<Rightarrow> ('w Runner, string, Plan) eff" where
  "plan x = bindE (getE rn_strat) (\<lambda>r.
     let p = sg_params r in
     if sg_kind r = ''dca'' then returnE (plan_dca p)
     else if sg_kind r = ''twap'' then returnE (plan_twap p)
     else if sg_kind r = ''trailing_stop'' then plan_trailing_stop x p
     else if sg_kind r = ''take_profit'' then plan_take_profit x p
     else returnE Plan_done)"

definition progressed :: "string \<Rightarrow> params \<Rightarrow> StrategySwap \<Rightarrow> params" where
  "progressed kind p action =
     (if kind = ''dca'' then p(''spentUi'' \<mapsto> Pm_number (fl_add (num_param (p ''spentUi'') (JNum 0)) (sw_amountUi action)))
      else if kind = ''twap'' then p(''doneSlices'' \<mapsto> Pm_number (fl_add (done_slices p) (JNum 1)))
      else p)"

definition applyProgress :: "StrategySwap \<Rightarrow> StrategyRow \<Rightarrow> StrategyRow" where
  "applyProgress action r =
     (if sg_kind r = ''dca'' \<or> sg_kind r = ''twap'' then r\<lparr> sg_params := progressed (sg_kind r) (sg_params r) action \<rparr>
      else r\<lparr> sg_status := Sg_done \<rparr>)"

definition isComplete :: "StrategyRow \<Rightarrow> bool" where
  "isComplete r =
     (let p = sg_params r in
      if sg_kind r = ''dca'' then
        (let total = num_param (p ''totalBudgetUi'') (JNum 0)
         in js_gt total (JNum 0) \<and> js_ge (num_param (p ''spentUi'') (JNum 0)) (fl_sub total budget_tolerance))
      else if sg_kind r = ''twap'' then js_ge (done_slices p) (slices_of p)
      else False)"

definition interval_sec :: "params \<Rightarrow> jsnum" where
  "interval_sec p = js_max (JNum MIN_INTERVAL_SEC) (num_param (p ''intervalSec'') (JNum DEFAULT_INTERVAL_SEC))"

definition next_run :: "params \<Rightarrow> int \<Rightarrow> jsnum" where
  "next_run p now = fl_add (JNum (of_int now)) (fl_mul (interval_sec p) (JNum 1000))"

definition reschedule :: "'w StrategyExecutor \<Rightarrow> ('w Runner, string, unit) eff" where
  "reschedule x = bindE (clockE x) (\<lambda>now. stratE (\<lambda>r. r\<lparr> sg_nextRunAt := next_run (sg_params r) now \<rparr>))"

definition idem_key :: "string \<Rightarrow> nat \<Rightarrow> string" where
  "idem_key i runs = ''strat_'' @ i @ ''_'' @ show_digits runs"

definition ran_at :: "int \<Rightarrow> StrategyRow \<Rightarrow> StrategyRow" where
  "ran_at now r = r\<lparr> sg_runs := Suc (sg_runs r), sg_lastRunAt := Some now \<rparr>"

definition failed :: "string \<Rightarrow> StrategyRow \<Rightarrow> StrategyRow" where
  "failed err r = r\<lparr> sg_errors := Suc (sg_errors r), sg_lastError := Some err \<rparr>"

definition succeeded :: "StrategySwap \<Rightarrow> StrategyRow \<Rightarrow> StrategyRow" where
  "succeeded action r = applyProgress action (r\<lparr> sg_errors := 0, sg_lastError := None \<rparr>)"

definition tripped :: "StrategyRow \<Rightarrow> bool" where
  "tripped r \<longleftrightarrow> sg_errors r \<ge> MAX_CONSECUTIVE_ERRORS"

definition complete_text :: "StrategyRow \<Rightarrow> string" where
  "complete_text r = ''strategy '' @ sg_kind r @ '' complete.''"

definition paused_text :: "string \<Rightarrow> StrategyRow \<Rightarrow> string" where
  "paused_text err r = ''strategy '' @ sg_kind r @ '' paused after '' @ show_digits (sg_errors r) @ '' errors: '' @ err"

definition swap_outcome :: "'w StrategyExecutor \<Rightarrow> StrategySwap \<Rightarrow> StrategySwapResult \<Rightarrow> ('w Runner, string, unit) eff" where
  "swap_outcome x action res =
     (if sr_ok res then
        seqE (stratE (succeeded action)) (notify_owner x (\<lambda>r. sg_kind r @ '': '' @ sr_text res))
      else
        seqE (stratE (failed (sr_text res)))
       (bindE (getE (\<lambda>s. tripped (rn_strat s))) (\<lambda>stop.
        whenE stop (seqE (stratE (\<lambda>r. r\<lparr> sg_status := Sg_paused \<rparr>)) (notify_owner x (paused_text (sr_text res)))))))"

definition finish_completed :: "'w StrategyExecutor \<Rightarrow> ('w Runner, string, unit) eff" where
  "finish_completed x =
     bindE (getE (\<lambda>s. sg_status (rn_strat s) = Sg_active \<and> isComplete (rn_strat s))) (\<lambda>complete.
     whenE complete (seqE (stratE (\<lambda>r. r\<lparr> sg_status := Sg_done \<rparr>)) (notify_owner x complete_text)))"

definition step_swap :: "'w StrategyExecutor \<Rightarrow> StrategySwap \<Rightarrow> ('w Runner, string, unit) eff" where
  "step_swap x action =
     bindE (getE (\<lambda>s. idem_key (sg_id (rn_strat s)) (sg_runs (rn_strat s)))) (\<lambda>idem.
     bindE (awaitE (ex_swap x action idem)) (\<lambda>res.
     bindE (clockE x) (\<lambda>now.
     seqE (stratE (ran_at now))
    (seqE (swap_outcome x action res)
    (seqE (finish_completed x)
    (seqE (reschedule x) save_strat))))))"

definition step_body :: "'w StrategyExecutor \<Rightarrow> ('w Runner, string, unit) eff" where
  "step_body x = bindE (plan x) (\<lambda>pl. case pl of
       Plan_done \<Rightarrow> seqE (stratE (\<lambda>r. r\<lparr> sg_status := Sg_done \<rparr>)) (seqE save_strat (notify_owner x complete_text))
     | Plan_skip \<Rightarrow> seqE (reschedule x) save_strat
     | Plan_swap action \<Rightarrow> step_swap x action)"

definition step_catch :: "'w StrategyExecutor \<Rightarrow> string \<Rightarrow> ('w Runner, string, unit) eff" where
  "step_catch x err =
     seqE (stratE (failed err))
    (seqE (stratE (\<lambda>r. if tripped r then r\<lparr> sg_status := Sg_paused \<rparr> else r))
    (seqE (reschedule x) save_strat))"

definition strategy_step :: "'w StrategyExecutor \<Rightarrow> StrategyRow \<Rightarrow> ('w Runner, string, unit) eff" where
  "strategy_step x strat = seqE (stratE (\<lambda>_. strat)) (catchE (step_body x) (step_catch x))"

text \<open>One pass over the due strategies; a call that overlaps another is dropped.\<close>

definition tick_body :: "'w StrategyExecutor \<Rightarrow> ('w Runner, string, unit) eff" where
  "tick_body x = bindE (clockE x) (\<lambda>now. bindE (dbE (due now)) (\<lambda>rows. forE rows (strategy_step x)))"

definition tick :: "'w StrategyExecutor \<Rightarrow> ('w Runner, string, unit) eff" where
  "tick x = (\<lambda>s. if rn_running s then (Inr (), s)
     else case tick_body x (s\<lparr> rn_running := True \<rparr>) of (r, t) \<Rightarrow> (r, t\<lparr> rn_running := False \<rparr>))"

text \<open>The timer: \<open>tickMs\<close> is the period the runner was constructed with.\<close>

definition start_runner :: "jsnum \<Rightarrow> ('w Runner, string, unit) eff" where
  "start_runner tickMs = bindE (getE rn_timer) (\<lambda>t.
     whenE (t = None) (modifyE (\<lambda>s. s\<lparr> rn_timer := Some (js_max (JNum 250) tickMs) \<rparr>)))"

definition stop_runner :: "('w Runner, string, unit) eff" where
  "stop_runner = modifyE (\<lambda>s. s\<lparr> rn_timer := None \<rparr>)"

definition runner_started :: "'w Runner \<Rightarrow> bool" where
  "runner_started s \<longleftrightarrow> rn_timer s \<noteq> None"

end
