(* ===== verification/StrategyRuns.thy ===== *)
theory StrategyRuns
  imports Strategies Json
begin

text \<open>
  What a pass of the strategy runner preserves. While a step waits for a port, other requests may
  create strategies and change their status; \<open>operated\<close> says so. The executor is observed through
  a log of the swaps that succeeded, and an invariant of one strategy is stated over its kind, its
  parameters and its own successful swaps.
\<close>

section \<open>Idempotency keys\<close>

definition key_of :: "string \<Rightarrow> string \<Rightarrow> bool" where
  "key_of i k \<longleftrightarrow> (let pre = ''strat_'' @ i @ ''_'' in take (length pre) k = pre \<and> list_all is_digit (drop (length pre) k))"

lemma underscore_not_digit [simp]: "\<not> is_digit CHR ''_''"
  by (simp add: is_digit_def)

lemma key_ends_unique:
  assumes "i @ CHR ''_'' # s = j @ CHR ''_'' # t" "list_all is_digit s" "list_all is_digit t"
  shows "i = j \<and> s = t"
proof -
  have "rev s @ CHR ''_'' # rev i = rev t @ CHR ''_'' # rev j"
    using arg_cong [OF assms(1), of rev] by simp
  then have "rev s = rev t \<and> CHR ''_'' # rev i = CHR ''_'' # rev j"
    using assms(2,3) by (intro digits_prefix) auto
  then show ?thesis by simp
qed

lemma key_of_idem_key: "key_of i (idem_key j n) \<longleftrightarrow> i = j"
proof
  assume k: "key_of i (idem_key j n)"
  define ds where "ds = drop (length (''strat_'' @ i @ ''_'')) (idem_key j n)"
  have "idem_key j n = (''strat_'' @ i @ ''_'') @ ds" "list_all is_digit ds"
    using k append_take_drop_id [of "length (''strat_'' @ i @ ''_'')" "idem_key j n"]
    unfolding key_of_def Let_def ds_def by metis+
  then have "i @ CHR ''_'' # ds = j @ CHR ''_'' # show_digits n" by (simp add: idem_key_def)
  then show "i = j" using \<open>list_all is_digit ds\<close> show_digits_digits key_ends_unique by blast
qed (simp add: key_of_def idem_key_def show_digits_digits Let_def)

lemma idem_key_inj: "idem_key i m = idem_key j n \<longleftrightarrow> i = j \<and> m = n"
  using key_ends_unique [of i "show_digits m" j "show_digits n"]
  by (auto simp: idem_key_def show_digits_digits show_digits_inj)

section \<open>The store under other requests\<close>

definition db_row :: "string \<Rightarrow> StrategyDb \<Rightarrow> StrategyDbRow option" where
  "db_row i s = find_where (\<lambda>r. sd_id r = i) (sb_rows s)"

definition ids_distinct :: "StrategyDb \<Rightarrow> bool" where
  "ids_distinct s \<longleftrightarrow> distinct (map sd_id (sb_rows s))"

text \<open>Requests on the store other than the runner's: rows keep everything but their status.\<close>

definition operated :: "StrategyDb \<Rightarrow> StrategyDb \<Rightarrow> bool" where
  "operated s s' \<longleftrightarrow> sb_closed s' = sb_closed s \<and> (ids_distinct s \<longrightarrow> ids_distinct s') \<and>
     (\<forall>i r. db_row i s = Some r \<longrightarrow> (\<exists>st. db_row i s' = Some (r\<lparr> sd_status := st \<rparr>)))"

lemma operated_refl [simp]: "operated s s"
  unfolding operated_def by (metis StrategyDbRow.surjective StrategyDbRow.update_convs(4))

lemma operated_trans: "operated s t \<Longrightarrow> operated t u \<Longrightarrow> operated s u"
  unfolding operated_def by (metis (no_types, lifting) StrategyDbRow.surjective StrategyDbRow.update_convs(4))

lemma strategy_ids_update [simp]:
  "(\<And>r. sd_id (f r) = sd_id r) \<Longrightarrow> ids_distinct (s\<lparr> sb_rows := update_where P f (sb_rows s) \<rparr>) = ids_distinct s"
  by (simp add: ids_distinct_def map_update_where)

lemma db_row_update [simp]:
  "(\<And>r. sd_id (f r) = sd_id r) \<Longrightarrow>
     db_row i (s\<lparr> sb_rows := update_where P f (sb_rows s) \<rparr>) = map_option (\<lambda>r. if P r then f r else r) (db_row i s)"
  by (simp add: db_row_def find_where_update)

lemma setStatus_operated: "operated s (snd (setStatus i st s))"
proof -
  have "\<exists>st'. r = r\<lparr> sd_status := st' \<rparr>" for r :: StrategyDbRow by (intro exI [of _ "sd_status r"]) simp
  then show ?thesis
    by (auto simp: setStatus_def open_store_def eff_defs operated_def)
qed

lemma create_operated: "operated s (snd (create_strategy i u k p t now s))"
proof -
  have "\<exists>st'. r = r\<lparr> sd_status := st' \<rparr>" for r :: StrategyDbRow by (intro exI [of _ "sd_status r"]) simp
  then show ?thesis
    by (auto simp: create_strategy_def open_store_def eff_defs operated_def ids_distinct_def db_row_def
        find_where_append exists_where_iff split: option.splits)
qed

section \<open>Ports\<close>

definition keeps_store :: "(StrategyDb \<times> 'w, string, 'a) eff \<Rightarrow> bool" where
  "keeps_store m \<longleftrightarrow> (\<forall>s w. operated s (fst (snd (m (s, w)))))"

definition operates :: "'w StrategyExecutor \<Rightarrow> bool" where
  "operates x \<longleftrightarrow> (\<forall>a k. keeps_store (ex_swap x a k)) \<and>
     (case ex_price x of None \<Rightarrow> True | Some f \<Rightarrow> \<forall>t. keeps_store (f t)) \<and>
     (case ex_notify x of None \<Rightarrow> True | Some f \<Rightarrow> \<forall>u t. keeps_store (f u t))"

text \<open>An executor with a log of the swaps that succeeded, each with its idempotency key.\<close>

type_synonym swap_log = "(string \<times> StrategySwap) list"

definition observed :: "(StrategyDb \<times> 'w, string, 'a) eff \<Rightarrow> (StrategyDb \<times> 'w \<times> swap_log, string, 'a) eff" where
  "observed m = (\<lambda>(s, w, l). case m (s, w) of (r, (s', w')) \<Rightarrow> (r, (s', w', l)))"

definition logged :: "'w StrategyExecutor \<Rightarrow> ('w \<times> swap_log) StrategyExecutor" where
  "logged x =
     \<lparr> ex_now = (\<lambda>(w, _). ex_now x w),
       ex_swap = (\<lambda>a k (s, w, l). case ex_swap x a k (s, w) of (r, (s', w')) \<Rightarrow>
         (r, (s', w', case r of Inl _ \<Rightarrow> l | Inr res \<Rightarrow> if sr_ok res then l @ [(k, a)] else l))),
       ex_price = map_option (\<lambda>f t. observed (f t)) (ex_price x),
       ex_notify = map_option (\<lambda>f u t. observed (f u t)) (ex_notify x) \<rparr>"

definition swaps_of :: "string \<Rightarrow> swap_log \<Rightarrow> StrategySwap list" where
  "swaps_of i l = map snd (filter (\<lambda>(k, a). key_of i k) l)"

lemma swaps_of_append [simp]:
  "swaps_of i (l @ [(idem_key j n, a)]) = (if i = j then swaps_of i l @ [a] else swaps_of i l)"
  by (simp add: swaps_of_def key_of_idem_key)

lemma wp_awaitE [wp_simps]:
  "wp (awaitE m) Q E s = wp m (\<lambda>x t. Q x (s\<lparr> rn_db := fst t, rn_world := snd t \<rparr>))
     (\<lambda>e t. E e (s\<lparr> rn_db := fst t, rn_world := snd t \<rparr>)) (rn_db s, rn_world s)"
  by (auto simp: wp_def awaitE_def split: prod.split sum.split)

lemma wp_dbE [wp_simps]:
  "wp (dbE m) Q E s = wp m (\<lambda>x t. Q x (s\<lparr> rn_db := t \<rparr>)) (\<lambda>e t. E e (s\<lparr> rn_db := t \<rparr>)) (rn_db s)"
  by (auto simp: wp_def dbE_def split: prod.split sum.split)

lemma wp_clockE [wp_simps]: "wp (clockE x) Q E s = Q (ex_now x (rn_world s)) s"
  by (simp add: clockE_def wp_simps)

lemma wp_stratE [wp_simps]: "wp (stratE f) Q E s = Q () (s\<lparr> rn_strat := f (rn_strat s) \<rparr>)"
  by (simp add: stratE_def wp_simps)

lemma wp_open_store [wp_simps]:
  "wp open_store Q E s = (if sb_closed s then E ''database is not open'' s else Q () s)"
  by (simp add: open_store_def wp_simps)

lemma wp_save_strat:
  "\<not> sb_closed (rn_db s) \<Longrightarrow>
     wp save_strat Q E s = Q () (s\<lparr> rn_db := (rn_db s)\<lparr> sb_rows :=
       update_where (\<lambda>r. sd_id r = sg_id (rn_strat s)) (saved_row (rn_strat s)) (sb_rows (rn_db s)) \<rparr> \<rparr>)"
  by (simp add: save_strat_def save_strategy_def wp_simps)

lemma wp_swap_port:
  assumes "keeps_store (ex_swap x a k)"
    and "\<And>res s' w. operated s s' \<Longrightarrow> Q res (s', w, if sr_ok res then l @ [(k, a)] else l)"
    and "\<And>e s' w. operated s s' \<Longrightarrow> E e (s', w, l)"
  shows "wp (ex_swap (logged x) a k) Q E (s, v, l)"
proof -
  obtain r s' w where m: "ex_swap x a k (s, v) = (r, (s', w))" by (metis prod.exhaust)
  then have "operated s s'" using assms(1) unfolding keeps_store_def by (metis fst_conv snd_conv)
  then show ?thesis using m assms(2,3) by (cases r) (simp_all add: wp_def logged_def)
qed

lemma wp_observed:
  assumes "keeps_store m"
    and "\<And>res s' w. operated s s' \<Longrightarrow> Q res (s', w, l)" and "\<And>e s' w. operated s s' \<Longrightarrow> E e (s', w, l)"
  shows "wp (observed m) Q E (s, v, l)"
proof -
  obtain r s' w where m: "m (s, v) = (r, (s', w))" by (metis prod.exhaust)
  then have "operated s s'" using assms(1) unfolding keeps_store_def by (metis fst_conv snd_conv)
  then show ?thesis using m assms(2,3) by (cases r) (simp_all add: wp_def observed_def)
qed

section \<open>One step of one strategy\<close>

text \<open>
  \<open>planned k p a\<close>: \<open>a\<close> is the swap a strategy of kind \<open>k\<close> proposes when its parameters are \<open>p\<close>; for
  the price-triggered kinds the price decides whether it does.
\<close>

definition planned :: "string \<Rightarrow> params \<Rightarrow> StrategySwap \<Rightarrow> bool" where
  "planned k p a \<longleftrightarrow>
     (if k = ''dca'' then plan_dca p = Plan_swap a
      else if k = ''twap'' then plan_twap p = Plan_swap a
      else a = sell_swap (str_param (p ''token'') []) (num_param (p ''sizeUi'') (JNum 0)))"

definition same_strategy :: "StrategyRow \<Rightarrow> StrategyRow \<Rightarrow> bool" where
  "same_strategy r q \<longleftrightarrow> sg_id r = sg_id q \<and> sg_kind r = sg_kind q \<and> sg_params r = sg_params q"

lemma same_strategy_simps [simp]:
  "same_strategy r r"
  "same_strategy (failed e r) q = same_strategy r q"
  "same_strategy (ran_at n r) q = same_strategy r q"
  "same_strategy (r\<lparr> sg_status := st \<rparr>) q = same_strategy r q"
  "same_strategy (r\<lparr> sg_nextRunAt := v \<rparr>) q = same_strategy r q"
  by (simp_all add: same_strategy_def failed_def ran_at_def)

lemma same_strategy_succeeded:
  "same_strategy (succeeded a (ran_at now r)) (r\<lparr> sg_params := progressed (sg_kind r) (sg_params r) a \<rparr>)"
  by (simp add: same_strategy_def succeeded_def applyProgress_def ran_at_def progressed_def)

text \<open>A predicate is stable when other requests and the outside world do not change it.\<close>

definition stable :: "(('w \<times> swap_log) Runner \<Rightarrow> bool) \<Rightarrow> bool" where
  "stable R \<longleftrightarrow> (\<forall>s db w. R s \<longrightarrow> operated (rn_db s) db \<longrightarrow>
     R (s\<lparr> rn_db := db, rn_world := (w, snd (rn_world s)) \<rparr>))"

lemma stableD: "stable R \<Longrightarrow> R s \<Longrightarrow> operated (rn_db s) db \<Longrightarrow> rn_world s = (v, l) \<Longrightarrow>
    R (s\<lparr> rn_db := db, rn_world := (w, l) \<rparr>)"
  by (simp add: stable_def) (metis snd_conv)

lemma wp_observed_await:
  assumes "keeps_store m" and "stable R" and "R s"
    and "\<And>res t. R t \<Longrightarrow> Q res t" and "\<And>e t. R t \<Longrightarrow> E e t"
  shows "wp (awaitE (observed m)) Q E s"
proof -
  obtain v l where "rn_world s = (v, l)" by (cases "rn_world s")
  then show ?thesis using assms stableD [OF assms(2,3)] by (auto simp: wp_awaitE intro!: wp_observed)
qed

lemma wp_notify_owner:
  assumes "operates x" and "stable R" and "R s" and "\<And>t. R t \<Longrightarrow> Q () t"
  shows "wp (notify_owner (logged x) f) Q E s"
proof (cases "ex_notify x")
  case None
  then show ?thesis using assms by (simp add: notify_owner_def logged_def wp_simps)
next
  case (Some g)
  then have "keeps_store (g u t)" for u t using assms by (simp add: operates_def)
  then show ?thesis using Some assms
    by (auto simp: notify_owner_def logged_def wp_bindE wp_getE wp_catchE wp_returnE intro!: wp_observed_await [of _ R])
qed

lemma wp_plan:
  assumes x: "operates x" and st: "stable R" and R: "R s"
    and peak: "\<And>s v. R s \<Longrightarrow> sg_kind (rn_strat s) = ''trailing_stop'' \<Longrightarrow>
        R (s\<lparr> rn_strat := (rn_strat s)\<lparr> sg_params := (sg_params (rn_strat s))(''peak'' \<mapsto> Pm_number v) \<rparr> \<rparr>)"
  shows "wp (plan (logged x)) (\<lambda>pl s. R s \<and> (\<forall>a. pl = Plan_swap a \<longrightarrow>
      planned (sg_kind (rn_strat s)) (sg_params (rn_strat s)) a)) (\<lambda>_. R) s"
proof -
  define P where "P = (\<lambda>t. R t \<and> rn_strat t = rn_strat s)"
  have st: "stable P" and P: "P s" using st R by (auto simp: P_def stable_def)
  have keeps: "keeps_store (f t)" if "ex_price x = Some f" for f t using x that by (simp add: operates_def)
  note defs = logged_def wp_bindE wp_returnE wp_seqE wp_stratE Let_def keeps
  consider "sg_kind (rn_strat s) \<notin> {''trailing_stop'', ''take_profit''}" | "sg_kind (rn_strat s) = ''trailing_stop''"
    | "sg_kind (rn_strat s) = ''take_profit''" by blast
  then show ?thesis
  proof cases
    case 1
    then show ?thesis using R by (auto simp: plan_def wp_simps planned_def Let_def)
  next
    case 2
    then have k: "P t \<Longrightarrow> R t" "P t \<Longrightarrow> rn_strat t = rn_strat s"
      "P t \<Longrightarrow> R (t\<lparr> rn_strat := (rn_strat s)\<lparr> sg_params := (sg_params (rn_strat s))(''peak'' \<mapsto> Pm_number v) \<rparr> \<rparr>)" for t v
      using peak [of t v] by (auto simp: P_def)
    have "wp (plan_trailing_stop (logged x) (sg_params (rn_strat s))) (\<lambda>pl s. R s \<and> (\<forall>a. pl = Plan_swap a \<longrightarrow>
      planned (sg_kind (rn_strat s)) (sg_params (rn_strat s)) a)) (\<lambda>_. R) s"
      by (auto simp: plan_trailing_stop_def defs k 2 planned_def R split: option.split
          intro!: wp_observed_await [OF _ st P])
    then show ?thesis using 2 by (simp add: plan_def wp_simps Let_def)
  next
    case 3
    have "wp (plan_take_profit (logged x) (sg_params (rn_strat s))) (\<lambda>pl s. R s \<and> (\<forall>a. pl = Plan_swap a \<longrightarrow>
      planned (sg_kind (rn_strat s)) (sg_params (rn_strat s)) a)) (\<lambda>_. R) s"
      by (auto simp: plan_take_profit_def defs 3 planned_def R P_def split: option.split
          intro!: wp_observed_await [OF _ st P])
    then show ?thesis using 3 by (simp add: plan_def wp_simps Let_def)
  qed
qed

text \<open>
  The rule for a step: \<open>R\<close> is what holds before the row is saved, \<open>S\<close> after. It is enough to look
  at the peak, a swap that succeeded, and the save.
\<close>

lemma wp_logged_step:
  fixes R :: "('w \<times> swap_log) Runner \<Rightarrow> bool"
  assumes x: "operates x" and R: "stable R" and S: "stable S"
    and same: "\<And>s r. R s \<Longrightarrow> same_strategy r (rn_strat s) \<Longrightarrow> R (s\<lparr> rn_strat := r \<rparr>)"
    and peak: "\<And>s v. R s \<Longrightarrow> sg_kind (rn_strat s) = ''trailing_stop'' \<Longrightarrow>
        R (s\<lparr> rn_strat := (rn_strat s)\<lparr> sg_params := (sg_params (rn_strat s))(''peak'' \<mapsto> Pm_number v) \<rparr> \<rparr>)"
    and swap: "\<And>s a w n. R s \<Longrightarrow> planned (sg_kind (rn_strat s)) (sg_params (rn_strat s)) a \<Longrightarrow>
        R (s\<lparr> rn_world := (w, snd (rn_world s) @ [(idem_key (sg_id (rn_strat s)) n, a)]),
             rn_strat := (rn_strat s)\<lparr> sg_params := progressed (sg_kind (rn_strat s)) (sg_params (rn_strat s)) a \<rparr> \<rparr>)"
    and opened: "\<And>s. R s \<Longrightarrow> \<not> sb_closed (rn_db s)"
    and save: "\<And>s. R s \<Longrightarrow> S (s\<lparr> rn_db := (rn_db s)\<lparr> sb_rows :=
        update_where (\<lambda>r. sd_id r = sg_id (rn_strat s)) (saved_row (rn_strat s)) (sb_rows (rn_db s)) \<rparr> \<rparr>)"
    and start: "R (s\<lparr> rn_strat := strat \<rparr>)"
  shows "wp (strategy_step (logged x) strat) (\<lambda>_. S) (\<lambda>_ _. False) s"
proof -
  note notifyR = wp_notify_owner [OF x R] and notifyS = wp_notify_owner [OF x S]
  have final: "wp (seqE (reschedule (logged x)) save_strat) (\<lambda>_. S) E s" if "R s" for s E
    using save [OF same [OF that, of "(rn_strat s)\<lparr> sg_nextRunAt := v \<rparr>" for v]] opened [OF that]
    by (simp add: reschedule_def wp_seqE wp_bindE wp_clockE wp_stratE wp_save_strat)
  have finish: "wp (seqE (finish_completed (logged x)) (seqE (reschedule (logged x)) save_strat)) (\<lambda>_. S) E s" if "R s" for s E
    unfolding finish_completed_def
    by (intro wp_seqI wp_bindI, unfold wp_getE wp_whenE, auto simp: wp_seqE wp_stratE that
        intro!: notifyR final [unfolded wp_seqE] same)
  have outcome: "wp (seqE (swap_outcome (logged x) a res) (seqE (finish_completed (logged x)) (seqE (reschedule (logged x)) save_strat)))
      (\<lambda>_. S) E s"
    if "if sr_ok res then R (s\<lparr> rn_strat := succeeded a (rn_strat s) \<rparr>) else R s" for a res s E
    using that same unfolding swap_outcome_def
    by (auto simp: wp_seqE wp_stratE wp_bindE wp_getE wp_whenE intro!: notifyR finish [THEN wp_seqE [THEN iffD1]])
  have swapped: "wp (step_swap (logged x) a) (\<lambda>_. S) (\<lambda>_. R) s"
    if "R s" "planned (sg_kind (rn_strat s)) (sg_params (rn_strat s)) a" for a s
  proof -
    obtain v l where w: "rn_world s = (v, l)" by (cases "rn_world s")
    let ?r = "rn_strat s"
    have keeps: "keeps_store (ex_swap x a k)" for k using x by (simp add: operates_def)
    have after: "R (s\<lparr> rn_db := db, rn_world := (w', l) \<rparr>)" if "operated (rn_db s) db" for db w'
      using stableD [OF R \<open>R s\<close> that w] .
    have ok: "R (s\<lparr> rn_db := db, rn_world := (w', l @ [(idem_key (sg_id ?r) n, a)]), rn_strat := succeeded a (ran_at now ?r) \<rparr>)"
      if "operated (rn_db s) db" for db w' now n
      using same [OF swap [OF after [OF that, of w']], of a "succeeded a (ran_at now ?r)" w' n] \<open>planned _ _ a\<close> same_strategy_succeeded
      by simp
    show ?thesis
      unfolding step_swap_def
      by (auto simp: wp_bindE wp_getE wp_awaitE wp_clockE wp_seqE wp_stratE w intro!: wp_swap_port keeps
          outcome [THEN wp_seqE [THEN iffD1]] ok same after)
  qed
  have body: "wp (step_body (logged x)) (\<lambda>_. S) (\<lambda>_. R) s" if "R s" for s
    unfolding step_body_def
  proof (rule wp_bindI, rule wp_mono [OF wp_plan [OF x R that peak]], goal_cases)
    case (3 pl t)
    then have "R t" by blast
    show ?case
    proof (cases pl)
      case (Plan_swap a)
      then show ?thesis using swapped 3 by simp
    next
      case Plan_skip
      then show ?thesis using final \<open>R t\<close> by simp
    next
      case Plan_done
      then show ?thesis using save [OF same [OF \<open>R t\<close>, of "(rn_strat t)\<lparr> sg_status := Sg_done \<rparr>"]] opened [OF \<open>R t\<close>]
        by (auto simp: wp_seqE wp_stratE wp_save_strat intro!: notifyS)
    qed
  qed
  show ?thesis
    unfolding strategy_step_def step_catch_def wp_seqE wp_stratE wp_catchE
    by (rule wp_mono [OF body [OF start]]) (auto simp: wp_stratE intro!: final [unfolded wp_seqE] same)
qed

section \<open>Invariants of one strategy\<close>

text \<open>
  The contract of an invariant over a strategy's kind, its parameters and its successful swaps:
  the round trip through the column keeps it, and so do the peak a trailing stop records and a
  swap the strategy proposed, with the progress the runner then applies.
\<close>

locale strategy_invariant =
  fixes Inv :: "string \<Rightarrow> params \<Rightarrow> StrategySwap list \<Rightarrow> bool"
  assumes stored: "Inv k p l \<Longrightarrow> Inv k (stored_params p) l"
    and peak: "Inv ''trailing_stop'' p l \<Longrightarrow> Inv ''trailing_stop'' (p(''peak'' \<mapsto> Pm_number v)) l"
    and swap: "Inv k p l \<Longrightarrow> planned k p a \<Longrightarrow> Inv k (progressed k p a) (l @ [a])"

definition row_params :: "StrategyDbRow \<Rightarrow> params" where
  "row_params r = (case sd_params r of None \<Rightarrow> Map.empty | Some p \<Rightarrow> p)"

definition keeps_inv :: "(string \<Rightarrow> params \<Rightarrow> StrategySwap list \<Rightarrow> bool) \<Rightarrow> string \<Rightarrow> ('w \<times> swap_log) Runner \<Rightarrow> bool" where
  "keeps_inv Inv i s \<longleftrightarrow> \<not> sb_closed (rn_db s) \<and> ids_distinct (rn_db s) \<and>
     (case db_row i (rn_db s) of None \<Rightarrow> False
      | Some r \<Rightarrow> Inv (sd_kind r) (row_params r) (swaps_of i (snd (rn_world s))))"

lemma keeps_inv_running [simp]: "keeps_inv Inv i (s\<lparr> rn_running := b \<rparr>) = keeps_inv Inv i s"
  by (simp add: keeps_inv_def cong: option.case_cong)

definition tick_logged :: "'w StrategyExecutor \<Rightarrow> ('w \<times> swap_log) Runner \<Rightarrow> ('w \<times> swap_log) Runner" where
  "tick_logged x s = snd (tick (logged x) s)"

text \<open>A row read for a pass agrees with the table on everything the parameters decide.\<close>

definition agrees :: "StrategyDb \<Rightarrow> StrategyRow \<Rightarrow> bool" where
  "agrees s r \<longleftrightarrow> (case db_row (sg_id r) s of None \<Rightarrow> False
     | Some d \<Rightarrow> sd_kind d = sg_kind r \<and> row_params d = sg_params r)"

lemma operated_row:
  "operated s s' \<Longrightarrow> db_row i s = Some r \<Longrightarrow> \<exists>r'. db_row i s' = Some r' \<and> sd_kind r' = sd_kind r \<and> row_params r' = row_params r"
  by (fastforce simp: operated_def row_params_def)

lemma operated_agrees: "operated s s' \<Longrightarrow> agrees s r \<Longrightarrow> agrees s' r"
  by (auto simp: agrees_def split: option.splits dest: operated_row)

lemma operated_sane: "operated s s' \<Longrightarrow> (\<not> sb_closed s \<longrightarrow> \<not> sb_closed s') \<and> (ids_distinct s \<longrightarrow> ids_distinct s')"
  by (simp add: operated_def)

lemma db_row_id: "db_row i s = Some r \<Longrightarrow> sd_id r = i"
  using find_where_Some by (fastforce simp: db_row_def)

lemma sd_id_saved [simp]: "sd_id (saved_row r d) = sd_id d"
  by (simp add: saved_row_def)

lemma saved_row_sel [simp]:
  "row_params (saved_row r d) = stored_params (sg_params r)" "sd_kind (saved_row r d) = sd_kind d"
  "sd_status (saved_row r d) = sg_status r" "sd_next_run_at (saved_row r d) = sg_nextRunAt r"
  "sd_runs (saved_row r d) = sg_runs r" "sd_errors (saved_row r d) = sg_errors r"
  by (simp_all add: saved_row_def row_params_def)

lemma agrees_saved [simp]:
  "sg_id x \<noteq> sg_id r \<Longrightarrow> agrees (s\<lparr> sb_rows := update_where (\<lambda>d. sd_id d = sg_id r) (saved_row r) (sb_rows s) \<rparr>) x = agrees s x"
  by (auto simp: agrees_def split: option.splits dest: db_row_id)

context strategy_invariant
begin

text \<open>The state while a step is under way, with the rows still to be stepped through.\<close>

definition stepping :: "string \<Rightarrow> StrategyRow list \<Rightarrow> StrategyRow \<Rightarrow> ('w \<times> swap_log) Runner \<Rightarrow> bool" where
  "stepping i rs r s \<longleftrightarrow> \<not> sb_closed (rn_db s) \<and> ids_distinct (rn_db s) \<and> list_all (agrees (rn_db s)) rs \<and>
     sg_id (rn_strat s) = sg_id r \<and> sg_kind (rn_strat s) = sg_kind r \<and>
     (case db_row i (rn_db s) of None \<Rightarrow> False
      | Some d \<Rightarrow> if sg_id r = i then sd_kind d = sg_kind r \<and> Inv (sg_kind r) (sg_params (rn_strat s)) (swaps_of i (snd (rn_world s)))
                  else Inv (sd_kind d) (row_params d) (swaps_of i (snd (rn_world s))))"

lemma stable_stepping: "stable (stepping i rs r)"
  unfolding stable_def stepping_def
  by (auto split: option.splits if_splits simp: list_all_iff dest: operated_sane operated_row operated_agrees)

lemma stable_passed: "stable (\<lambda>s. keeps_inv Inv i s \<and> list_all (agrees (rn_db s)) rs)"
  unfolding stable_def keeps_inv_def
  by (auto split: option.splits simp: list_all_iff dest: operated_sane operated_row operated_agrees)

lemma wp_step_keeps:
  assumes x: "operates x" and s: "keeps_inv Inv i s" "list_all (agrees (rn_db s)) (r # rs)"
    and d: "sg_id r \<notin> sg_id ` set rs"
  shows "wp (strategy_step (logged x) r) (\<lambda>_ s. keeps_inv Inv i s \<and> list_all (agrees (rn_db s)) rs) (\<lambda>_ _. False) s"
proof (rule wp_logged_step [OF x stable_stepping [of i rs r] stable_passed])
  show "stepping i rs r (t\<lparr> rn_strat := q \<rparr>)" if "stepping i rs r t" "same_strategy q (rn_strat t)" for t q
    using that by (auto simp: stepping_def same_strategy_def split: option.splits)
  show "stepping i rs r (t\<lparr> rn_strat := (rn_strat t)\<lparr> sg_params := (sg_params (rn_strat t))(''peak'' \<mapsto> Pm_number v) \<rparr> \<rparr>)"
    if "stepping i rs r t" "sg_kind (rn_strat t) = ''trailing_stop''" for t v
    using that peak by (auto simp: stepping_def split: option.splits if_splits)
  show "stepping i rs r (t\<lparr> rn_world := (w, snd (rn_world t) @ [(idem_key (sg_id (rn_strat t)) n, a)]),
      rn_strat := (rn_strat t)\<lparr> sg_params := progressed (sg_kind (rn_strat t)) (sg_params (rn_strat t)) a \<rparr> \<rparr>)"
    if "stepping i rs r t" "planned (sg_kind (rn_strat t)) (sg_params (rn_strat t)) a" for t a w n
    using that swap by (auto simp: stepping_def split: option.splits if_splits)
  show "\<not> sb_closed (rn_db t)" if "stepping i rs r t" for t using that by (simp add: stepping_def)
  show "keeps_inv Inv i (t\<lparr> rn_db := (rn_db t)\<lparr> sb_rows :=
        update_where (\<lambda>d. sd_id d = sg_id (rn_strat t)) (saved_row (rn_strat t)) (sb_rows (rn_db t)) \<rparr> \<rparr>) \<and>
      list_all (agrees (rn_db (t\<lparr> rn_db := (rn_db t)\<lparr> sb_rows :=
        update_where (\<lambda>d. sd_id d = sg_id (rn_strat t)) (saved_row (rn_strat t)) (sb_rows (rn_db t)) \<rparr> \<rparr>))) rs"
    if "stepping i rs r t" for t
    using that d stored
    by (auto simp: stepping_def keeps_inv_def list_all_iff dest: db_row_id split: option.splits if_splits)
      (metis agrees_saved rev_image_eqI)+
  show "stepping i rs r (s\<lparr> rn_strat := r \<rparr>)"
    using s by (auto simp: stepping_def keeps_inv_def agrees_def split: option.splits)
qed

lemma wp_steps_keep:
  assumes "operates x" "keeps_inv Inv i s" "list_all (agrees (rn_db s)) rs" "distinct (map sg_id rs)"
  shows "wp (forE rs (strategy_step (logged x))) (\<lambda>_. keeps_inv Inv i) (\<lambda>_ _. False) s"
  using assms
proof (induction rs arbitrary: s)
  case Nil
  then show ?case by (simp add: wp_simps)
next
  case (Cons r rs)
  then show ?case by (auto simp: wp_seqE intro!: wp_mono [OF wp_step_keeps [of x i s r rs]])
qed

end

lemma set_insert_due [simp]: "set (insert_due r rs) = insert r (set rs)"
  by (induction rs) auto

lemma distinct_insert_due: "distinct (map sg_id (insert_due r rs)) \<longleftrightarrow> distinct (map sg_id (r # rs))"
  by (induction rs) auto

lemma due_rows_set: "set (foldr insert_due rs []) = set rs"
  by (induction rs) auto

lemma distinct_due_rows: "distinct (map sg_id rs) \<Longrightarrow> distinct (map sg_id (foldr insert_due rs []))"
  by (induction rs) (auto simp: distinct_insert_due due_rows_set)

lemma hydrate_sel [simp]:
  "sg_id (hydrate d) = sd_id d" "sg_kind (hydrate d) = sd_kind d" "sg_params (hydrate d) = row_params d"
  "sg_status (hydrate d) = sd_status d" "sg_nextRunAt (hydrate d) = sd_next_run_at d" "sg_runs (hydrate d) = sd_runs d"
  "sg_errors (hydrate d) = sd_errors d" "sg_userId (hydrate d) = sd_user_id d"
  "sg_lastError (hydrate d) = sd_last_error d" "sg_lastRunAt (hydrate d) = sd_last_run_at d"
  by (simp_all add: hydrate_def row_params_def)

lemma due_rows_sound:
  assumes "ids_distinct s"
  shows "distinct (map sg_id (due_rows now s))" and "list_all (agrees s) (due_rows now s)"
proof -
  have "distinct (map sd_id (filter P (sb_rows s)))" for P
    using assms by (simp add: ids_distinct_def distinct_map_filter)
  then show "distinct (map sg_id (due_rows now s))"
    unfolding due_rows_def by (intro distinct_due_rows) (simp add: comp_def)
  show "list_all (agrees s) (due_rows now s)"
    using assms by (auto simp: due_rows_def due_rows_set list_all_iff agrees_def ids_distinct_def db_row_def find_where_unique)
qed

context strategy_invariant
begin

theorem tick_keeps:
  assumes "operates x" "keeps_inv Inv i s"
  shows "keeps_inv Inv i (tick_logged x s)"
proof (cases "rn_running s")
  case True
  then show ?thesis using assms by (simp add: tick_logged_def tick_def)
next
  case False
  let ?s = "s\<lparr> rn_running := True \<rparr>"
  have s: "keeps_inv Inv i ?s" "ids_distinct (rn_db s)" "\<not> sb_closed (rn_db s)" using assms by (simp_all add: keeps_inv_running) (simp_all add: keeps_inv_def)
  have "wp (tick_body (logged x)) (\<lambda>_. keeps_inv Inv i) (\<lambda>_ _. False) ?s"
    using s(2,3) due_rows_sound [OF s(2)] wp_steps_keep [OF assms(1) s(1)]
    by (simp add: tick_body_def wp_simps due_def)
  then show ?thesis
    using False by (auto simp: wp_def tick_logged_def tick_def split: prod.splits sum.splits)
qed

end

text \<open>
  A history of the runner: passes, with any executor that operates on the store as requests do, and
  requests between them.
\<close>

inductive runner_history :: "('w \<times> swap_log) Runner \<Rightarrow> ('w \<times> swap_log) Runner \<Rightarrow> bool" for s0 where
  start: "runner_history s0 s0"
| pass: "runner_history s0 s \<Longrightarrow> operates x \<Longrightarrow> runner_history s0 (tick_logged x s)"
| request: "runner_history s0 s \<Longrightarrow> operated (rn_db s) db \<Longrightarrow>
    runner_history s0 (s\<lparr> rn_db := db, rn_world := (w, snd (rn_world s)) \<rparr>)"

context strategy_invariant
begin

lemma history_keeps:
  assumes "runner_history s0 s" "keeps_inv Inv i s0"
  shows "keeps_inv Inv i s"
  using assms
proof (induction rule: runner_history.induct)
  case (request s db w)
  then show ?case by (auto simp: keeps_inv_def split: option.splits dest: operated_sane operated_row)
qed (auto intro: tick_keeps)

end

section \<open>Slices and budgets\<close>

lemma num_param_stored [simp]: "num_param (stored_params p k) d = num_param (p k) d"
  by (cases "p k"; simp add: stored_params_def num_param_def; cases "the (p k)"; simp)

lemma str_param_stored [simp]: "str_param (stored_params p k) d = str_param (p k) d"
  by (cases "p k"; simp add: stored_params_def str_param_def; cases "the (p k)"; simp)

lemma params_stored [simp]: "slices_of (stored_params p) = slices_of p" "done_slices (stored_params p) = done_slices p"
  by (simp_all add: slices_of_def done_slices_def)

lemma num_param_Pm [simp]: "js_isFinite x \<Longrightarrow> num_param (Some (Pm_number x)) d = x"
  by (simp add: num_param_def)

lemma num_param_finite: "js_isFinite d \<Longrightarrow> js_isFinite (num_param v d)"
  by (auto simp: num_param_def split: option.split param.split)

text \<open>A TWAP of \<open>n\<close> slices: each success is counted, and each is for the same share of the total.\<close>

definition twap_inv :: "jsnum \<Rightarrow> nat \<Rightarrow> string \<Rightarrow> params \<Rightarrow> StrategySwap list \<Rightarrow> bool" where
  "twap_inv tot n k p l \<longleftrightarrow> k = ''twap'' \<and> slices_of p = JNum (of_nat n) \<and>
     num_param (p ''totalUi'') (JNum 0) = tot \<and> done_slices p = JNum (of_nat (length l)) \<and> length l \<le> n \<and>
     list_all (\<lambda>a. sw_amountUi a = fl_div tot (JNum (of_nat n))) l"

lemma one_more: "m < n \<Longrightarrow> n < 2 ^ 53 \<Longrightarrow> fl_add (JNum (of_nat m)) (JNum 1) = JNum (of_nat (Suc m))"
  using dbl_int [of "int (Suc m)"] by (simp add: add.commute)

lemma done_slices_upd: "done_slices (p(''doneSlices'' \<mapsto> Pm_number (JNum (of_nat m)))) = JNum (of_nat m)"
  by (simp add: done_slices_def)

lemma twap_swap:
  assumes n: "n < 2 ^ 53" and inv: "twap_inv tot n k p l" and a: "planned k p a"
  shows "twap_inv tot n k (progressed k p a) (l @ [a])"
proof -
  have k: "k = ''twap''" and d: "done_slices p = JNum (of_nat (length l))" and s: "slices_of p = JNum (of_nat n)"
    using inv by (simp_all add: twap_inv_def)
  have plan: "plan_twap p = Plan_swap a" using a k by (simp add: planned_def)
  then have less: "length l < n" using d s by (auto simp: plan_twap_def Let_def split: if_splits)
  have amount: "sw_amountUi a = fl_div tot (JNum (of_nat n))"
    using plan s inv by (auto simp: plan_twap_def Let_def buy_swap_def sell_swap_def twap_inv_def split: if_splits)
  have "progressed k p a = p(''doneSlices'' \<mapsto> Pm_number (JNum (of_nat (Suc (length l)))))"
    using k d one_more [OF less n] by (simp add: progressed_def)
  moreover have "slices_of (p(''doneSlices'' \<mapsto> v)) = slices_of p" for v by (simp add: slices_of_def)
  ultimately show ?thesis using inv less amount by (simp add: twap_inv_def done_slices_upd del: of_nat_Suc)
qed

interpretation twap: strategy_invariant "\<lambda>k p l. n < 2 ^ 53 \<and> twap_inv tot n k p l" for tot n
  by unfold_locales (auto simp: twap_swap, auto simp: twap_inv_def)

text \<open>A DCA with a budget: what was spent is the sum of the successful buys, within the budget.\<close>

definition spent_by :: "StrategySwap list \<Rightarrow> jsnum" where
  "spent_by l = foldl (\<lambda>s a. fl_add s (sw_amountUi a)) (JNum 0) l"

definition dca_inv :: "jsnum \<Rightarrow> string \<Rightarrow> params \<Rightarrow> StrategySwap list \<Rightarrow> bool" where
  "dca_inv tot k p l \<longleftrightarrow> k = ''dca'' \<and> num_param (p ''totalBudgetUi'') (JNum 0) = tot \<and>
     num_param (p ''spentUi'') (JNum 0) = spent_by l \<and> js_isFinite (spent_by l) \<and> js_le (JNum 0) (spent_by l) \<and>
     js_le (spent_by l) (fl_add tot budget_tolerance)"

lemma js_between_finite: "js_le (JNum a) x \<Longrightarrow> js_le x y \<Longrightarrow> js_isFinite y \<Longrightarrow> js_isFinite x"
  by (cases x; cases y) (auto simp: js_le_def)

lemma fl_add_nonneg: "js_le (JNum 0) (JNum a) \<Longrightarrow> js_le (JNum 0) (JNum b) \<Longrightarrow> js_le (JNum 0) (fl_add (JNum a) (JNum b))"
  using dbl_le [of 0 "a + b"] by (simp add: dbl_def [of 0])

lemma dca_swap:
  assumes T: "js_gt tot (JNum 0)" "js_isFinite (fl_add tot budget_tolerance)"
    and inv: "dca_inv tot k p l" and a: "planned k p a"
  shows "dca_inv tot k (progressed k p a) (l @ [a])"
proof -
  have k: "k = ''dca''" and s: "num_param (p ''spentUi'') (JNum 0) = spent_by l"
    using inv by (simp_all add: dca_inv_def)
  have "plan_dca p = Plan_swap a" using a k by (simp add: planned_def)
  then have plan: "sw_amountUi a = num_param (p ''amountUiPerStep'') (JNum 0)" "\<not> js_le (sw_amountUi a) (JNum 0)"
    "\<not> js_gt (fl_add (spent_by l) (sw_amountUi a)) (fl_add tot budget_tolerance)"
    using T inv s by (auto simp: plan_dca_def Let_def buy_swap_def dca_inv_def split: if_splits)
  have "js_isFinite (sw_amountUi a)" using plan num_param_finite by simp
  then obtain v where v: "sw_amountUi a = JNum v" "0 \<le> v" using plan by (auto simp: js_isFinite_JNum)
  obtain u where u: "spent_by l = JNum u" "0 \<le> u" using inv by (auto simp: dca_inv_def js_isFinite_JNum)
  have new: "spent_by (l @ [a]) = fl_add (JNum u) (JNum v)" using u v by (simp add: spent_by_def)
  have lo: "js_le (JNum 0) (spent_by (l @ [a]))" using fl_add_nonneg [of u v] u v by (simp add: new del: fl_add.simps)
  have hi: "js_le (spent_by (l @ [a])) (fl_add tot budget_tolerance)"
    using plan(3) u v T(2) by (auto simp: js_le_def new js_isFinite_JNum)
  then have fin: "js_isFinite (spent_by (l @ [a]))" using js_between_finite lo T(2) by blast
  have "progressed k p a = p(''spentUi'' \<mapsto> Pm_number (spent_by (l @ [a])))"
    using k s u v by (simp add: progressed_def new)
  then show ?thesis using inv lo hi fin by (simp add: dca_inv_def)
qed

interpretation dca: strategy_invariant
  "\<lambda>k p l. (js_gt tot (JNum 0) \<and> js_isFinite (fl_add tot budget_tolerance)) \<and> dca_inv tot k p l" for tot
  by unfold_locales (auto simp: dca_swap, auto simp: dca_inv_def)

section \<open>What a schedule can do over any history\<close>

definition fresh_strategy :: "string \<Rightarrow> StrategyDbRow \<Rightarrow> ('w \<times> swap_log) Runner \<Rightarrow> bool" where
  "fresh_strategy i r s \<longleftrightarrow> \<not> sb_closed (rn_db s) \<and> ids_distinct (rn_db s) \<and> db_row i (rn_db s) = Some r \<and>
     swaps_of i (snd (rn_world s)) = []"

text \<open>
  C9: a TWAP strategy of \<open>n\<close> slices makes at most \<open>n\<close> successful swaps, each for the same share of
  the total, over any history of passes with any executors, and of requests that pause, resume or
  create strategies between and during them; the progress on its row is the number of them.
\<close>

theorem twap_at_most_slices:
  assumes "runner_history s0 s" and "fresh_strategy i r s0" and "sd_kind r = ''twap''"
    and "slices_of (row_params r) = JNum (of_nat n)" and "n < 2 ^ 53" and "done_slices (row_params r) = JNum 0"
  shows "\<exists>r' l. db_row i (rn_db s) = Some r' \<and> l = swaps_of i (snd (rn_world s)) \<and> length l \<le> n \<and>
     done_slices (row_params r') = JNum (of_nat (length l)) \<and>
     list_all (\<lambda>a. sw_amountUi a = fl_div (num_param (row_params r ''totalUi'') (JNum 0)) (JNum (of_nat n))) l"
  using twap.history_keeps [OF assms(1), of n "num_param (row_params r ''totalUi'') (JNum 0)" i] assms(2-)
  by (auto simp: keeps_inv_def fresh_strategy_def twap_inv_def split: option.splits)

text \<open>
  C18: a new DCA strategy with a positive, finite budget buys for at most the budget and the tolerance of the comparison,
  in the arithmetic of doubles, over any history; what its row says it has spent is the sum of its
  successful buys.
\<close>

theorem dca_within_budget:
  assumes "runner_history s0 s" and "fresh_strategy i r s0" and "sd_kind r = ''dca''"
    and "num_param (row_params r ''totalBudgetUi'') (JNum 0) = tot" and "js_gt tot (JNum 0)"
    and "js_isFinite (fl_add tot budget_tolerance)" and "num_param (row_params r ''spentUi'') (JNum 0) = JNum 0"
  shows "\<exists>r'. db_row i (rn_db s) = Some r' \<and>
     num_param (row_params r' ''spentUi'') (JNum 0) = spent_by (swaps_of i (snd (rn_world s))) \<and>
     js_le (spent_by (swaps_of i (snd (rn_world s)))) (fl_add tot budget_tolerance)"
proof -
  obtain t where t: "tot = JNum t" "0 < t" using assms(5,4) num_param_finite [of "JNum 0" "row_params r ''totalBudgetUi''"]
    by (auto simp: js_isFinite_JNum)
  have "js_le (JNum 0) (fl_add tot budget_tolerance)"
  proof (cases budget_tolerance)
    case (JNum v)
    then have "0 \<le> v" using dbl_finite_nonneg [of "1 / 1000000000" v] by (simp add: budget_tolerance_def)
    then have "js_le (JNum 0) (fl_add (JNum t) (JNum v))" using t by (intro fl_add_nonneg) simp_all
    then show ?thesis using t(1) JNum by metis
  next
    case (JInf b)
    show ?thesis using t assms(6) unfolding JInf by simp
  next
    case JNaN
    show ?thesis using t assms(6) unfolding JNaN by simp
  qed
  then show ?thesis
    using dca.history_keeps [OF assms(1), of tot i] assms(2-)
    by (auto simp: keeps_inv_def fresh_strategy_def dca_inv_def spent_by_def split: option.splits)
qed

subsection \<open>A store with one strategy\<close>

definition sample_row :: "string \<Rightarrow> params \<Rightarrow> StrategyDbRow" where
  "sample_row kind p =
     \<lparr> sd_id = ''s1'', sd_user_id = 1, sd_kind = kind, sd_status = Sg_active, sd_params = Some p,
       sd_next_run_at = JNum 0, sd_created_at = 0, sd_last_run_at = None, sd_runs = 0, sd_errors = 0,
       sd_last_error = None \<rparr>"

definition sample_runner :: "StrategyDbRow \<Rightarrow> 'w \<Rightarrow> 'w Runner" where
  "sample_runner r w =
     \<lparr> rn_db = \<lparr> sb_rows = [r], sb_closed = False \<rparr>, rn_world = w, rn_running = False, rn_timer = None,
       rn_strat = hydrate r \<rparr>"

definition two_slices :: params where
  "two_slices = [''token'' \<mapsto> Pm_string ''MINT'', ''totalUi'' \<mapsto> Pm_number (JNum 4), ''slices'' \<mapsto> Pm_number (JNum 2)]"

definition ten_by_four :: params where
  "ten_by_four = [''token'' \<mapsto> Pm_string ''MINT'', ''amountUiPerStep'' \<mapsto> Pm_number (JNum 4),
     ''totalBudgetUi'' \<mapsto> Pm_number (JNum 10)]"

text \<open>An executor whose swaps succeed; while a swap runs, the operator sets the status to \<open>st\<close>, if any.\<close>

definition sample_executor :: "StrategyStatus option \<Rightarrow> unit StrategyExecutor" where
  "sample_executor st =
     \<lparr> ex_now = (\<lambda>_. 1000),
       ex_swap = (\<lambda>_ _. seqE (case st of None \<Rightarrow> returnE () | Some v \<Rightarrow> on_fst (seqE (setStatus ''s1'' v) (returnE ())))
         (returnE \<lparr> sr_ok = True, sr_text = ''filled'', sr_signature = None \<rparr>)),
       ex_price = None, ex_notify = None \<rparr>"

lemma sample_operates: "operates (sample_executor st)"
  using setStatus_operated [of _ "''s1''"]
  by (auto simp: operates_def sample_executor_def keeps_store_def seqE_def bindE_def returnE_def on_fst_def
      split: option.split prod.split sum.split) (metis snd_conv)+

lemmas row_sel = StrategyDbRow.select_convs StrategyRow.select_convs Runner.select_convs StrategyDb.select_convs
  StrategyExecutor.select_convs StrategySwapResult.select_convs

lemmas tick_eval = tick_logged_def tick_def tick_body_def due_def due_rows_def strategy_step_def step_body_def step_swap_def
  swap_outcome_def finish_completed_def reschedule_def save_strat_def save_strategy_def notify_owner_def plan_def
  open_store_def clockE_def stratE_def dbE_def awaitE_def eff_defs
  sample_executor_def sample_runner_def sample_row_def hydrate_def logged_def succeeded_def applyProgress_def ran_at_def
  saved_row_def

lemma sample_fresh: "fresh_strategy ''s1'' (sample_row k p) (sample_runner (sample_row k p) ((), []))"
  by (simp add: fresh_strategy_def sample_runner_def ids_distinct_def db_row_def swaps_of_def sample_row_def)

lemma dbl_one [simp]: "dbl 1 = JNum 1"
  using dbl_int [of 1] by simp

lemma two_slices_eval:
  "slices_of two_slices = JNum 2" "done_slices two_slices = JNum 0"
  "plan_twap two_slices = Plan_swap (buy_swap ''MINT'' (JNum 2))"
  "slices_of (progressed ''twap'' two_slices a) = JNum 2" "done_slices (progressed ''twap'' two_slices a) = JNum 1"
  using dbl_numeral [of "num.Bit0 num.One"]
  by (simp_all add: slices_of_def done_slices_def two_slices_def num_param_def str_param_def js_max_def plan_twap_def Let_def
      progressed_def)

lemma budget_finite:
  assumes "0 \<le> n" and "n + 1 < 2 ^ 53"
  shows "js_isFinite (fl_add (JNum (of_int n)) budget_tolerance)"
proof -
  have one: "js_le (JNum 0) budget_tolerance" "js_le budget_tolerance (JNum 1)"
    using dbl_le [of 0 "1 / 1000000000"] dbl_le [of "1 / 1000000000" 1] by (simp_all add: budget_tolerance_def dbl_def [of 0])
  then obtain v where v: "budget_tolerance = JNum v"
    using js_between_finite [OF one] by (auto simp: js_isFinite_JNum)
  have v01: "0 \<le> v" "v \<le> 1" using one unfolding v by simp_all
  have hi: "js_le (dbl (of_int n + v)) (JNum (of_int (n + 1)))"
    using dbl_le [of "of_int n + v" "of_int (n + 1)"] v01 dbl_int [of "n + 1"] assms by simp
  have "js_le (JNum 0) (dbl (of_int n + v))" using dbl_le [of 0 "of_int n + v"] v01 assms by (simp add: dbl_def [of 0])
  then have "js_isFinite (dbl (of_int n + v))" using hi by (rule js_between_finite) simp
  then show ?thesis unfolding v by simp
qed

lemma after_one_slice:
  "rn_world (tick_logged (sample_executor st) (sample_runner (sample_row ''twap'' two_slices) ((), []))) =
     ((), [(idem_key ''s1'' 0, buy_swap ''MINT'' (JNum 2))])"
  by (cases st) (simp_all add: tick_eval two_slices_eval setStatus_def)

theorem twap_at_most_slices_witness:
  "length (swaps_of ''s1'' (snd (rn_world (tick_logged (sample_executor None)
     (tick_logged (sample_executor (Some Sg_paused)) (sample_runner (sample_row ''twap'' two_slices) ((), []))))))) \<le> 2 \<and>
   swaps_of ''s1'' (snd (rn_world (tick_logged (sample_executor (Some Sg_paused))
     (sample_runner (sample_row ''twap'' two_slices) ((), []))))) = [buy_swap ''MINT'' (JNum 2)]"
proof -
  let ?s = "sample_runner (sample_row ''twap'' two_slices) ((), [])"
  have run: "runner_history ?s (tick_logged (sample_executor None) (tick_logged (sample_executor (Some Sg_paused)) ?s))"
    by (intro runner_history.intros sample_operates)
  have "row_params (sample_row ''twap'' two_slices) = two_slices" "sd_kind (sample_row ''twap'' two_slices) = ''twap''"
    by (simp_all add: row_params_def sample_row_def)
  then have "length (swaps_of ''s1'' (snd (rn_world (tick_logged (sample_executor None)
     (tick_logged (sample_executor (Some Sg_paused)) ?s))))) \<le> 2"
    using twap_at_most_slices [OF run sample_fresh, of 2] by (auto simp: two_slices_eval)
  then show ?thesis by (simp add: after_one_slice swaps_of_def key_of_idem_key)
qed

theorem dca_within_budget_witness:
  "js_le (spent_by (swaps_of ''s1'' (snd (rn_world (tick_logged (sample_executor None)
     (tick_logged (sample_executor None) (sample_runner (sample_row ''dca'' ten_by_four) ((), []))))))))
     (fl_add (JNum 10) budget_tolerance)"
proof -
  let ?s = "sample_runner (sample_row ''dca'' ten_by_four) ((), [])"
  have run: "runner_history ?s (tick_logged (sample_executor None) (tick_logged (sample_executor None) ?s))"
    by (intro runner_history.intros sample_operates)
  have row: "row_params (sample_row ''dca'' ten_by_four) = ten_by_four" "sd_kind (sample_row ''dca'' ten_by_four) = ''dca''"
    by (simp_all add: row_params_def sample_row_def)
  have p: "num_param (ten_by_four ''totalBudgetUi'') (JNum 0) = JNum 10" "num_param (ten_by_four ''spentUi'') (JNum 0) = JNum 0"
    by (simp_all add: ten_by_four_def num_param_def)
  have fin: "js_isFinite (fl_add (JNum 10) budget_tolerance)"
    using budget_finite [of 10] by simp
  show ?thesis
    using dca_within_budget [OF run sample_fresh, of "JNum 10"] fin by (auto simp: row p)
qed

text \<open>
  A strategy the operator pauses while its swap runs is active again when the step ends: the
  status the request wrote, and answered as done, is overwritten by the row the step read before.
\<close>

theorem pause_during_swap_lost:
  "fst (setStatus ''s1'' Sg_paused (rn_db (sample_runner (sample_row ''twap'' two_slices) ()))) = Inr True \<and>
   map_option sd_status (db_row ''s1'' (rn_db (snd (tick (sample_executor (Some Sg_paused))
     (sample_runner (sample_row ''twap'' two_slices) ()))))) = Some Sg_active"
  by (simp add: tick_eval two_slices_eval setStatus_def isComplete_def Let_def db_row_def)

end
