(* ===== verification/StrategyGateway.thy ===== *)
theory StrategyGateway
  imports StrategyRuns TradeGateway
begin

text \<open>
  \<open>src/src/strategy/executor.ts\<close>: the executor the runner is mounted with, which turns a scheduled
  swap into a trade intent and hands it to \<open>execute\<close> of the kernel gateway; and what that composition
  guarantees. The quote service and the mint reader are ports on the outside world of the gateway;
  the texts of errors and summaries are a parameter.
\<close>

section \<open>The executor\<close>

definition STRATEGY_SOURCE :: string where "STRATEGY_SOURCE = ''strategy_runner''"
definition DEFAULT_PRIORITY_FEE_LAMPORTS :: jsnum where "DEFAULT_PRIORITY_FEE_LAMPORTS = JNum 200000"
definition QUOTE_MINTS :: "string list" where "QUOTE_MINTS = [WSOL_MINT, USDC_MINT, USDT_MINT]"

record JupQuote =
  jq_inAmount :: int
  jq_outAmount :: int
  jq_otherAmountThreshold :: int
  jq_priceImpactPct :: jsnum
  jq_slippageBps :: jsnum
  jq_routeLabel :: string
  jq_contextSlot :: "jsnum option"

record SwapBuild =
  bd_swapTransactionB64 :: string
  bd_recentBlockhash :: string
  bd_lastValidBlockHeight :: int
  bd_prioritizationFeeLamports :: jsnum

record 'w GatewayExecutorDeps =
  ge_gateway :: "'w GatewayDeps"
  ge_quote :: "string \<Rightarrow> string \<Rightarrow> int \<Rightarrow> jsnum \<Rightarrow> ('w, kexn, JupQuote) eff"
  ge_buildSwap :: "JupQuote \<Rightarrow> string \<Rightarrow> jsnum \<Rightarrow> ('w, kexn, SwapBuild) eff"
  ge_decimals :: "string \<Rightarrow> ('w, kexn, nat) eff"
  ge_ownerWallet :: string
  ge_pinnedMints :: "'w \<Rightarrow> string list option"
  ge_priorityFeeLamports :: "jsnum option"
  ge_defaultSlippageBps :: "jsnum option"
  ge_price :: "(string \<Rightarrow> ('w, string, jsnum option) eff) option"
  ge_notify :: "(int \<Rightarrow> string \<Rightarrow> ('w, string, unit) eff) option"
  ge_text :: "kexn + ExecuteResult \<Rightarrow> string"
  ge_summary :: "StrategySwap \<Rightarrow> string"

definition provenanceFor :: "'w GatewayExecutorDeps \<Rightarrow> string \<Rightarrow> 'w \<Rightarrow> MintProvenance" where
  "provenanceFor g mint w =
     (if mint \<in> set QUOTE_MINTS then Prov_user
      else case ge_pinnedMints g w of
        None \<Rightarrow> Prov_untrusted
      | Some pinned \<Rightarrow> if mint \<in> set pinned then Prov_user else Prov_untrusted)"

definition decimalsFor :: "'w GatewayExecutorDeps \<Rightarrow> string \<Rightarrow> ('w, kexn, nat) eff" where
  "decimalsFor g mint = (if mint = WSOL_MINT then returnE SOL_DECIMALS else ge_decimals g mint)"

definition input_amount :: "StrategySwap \<Rightarrow> nat \<Rightarrow> kexn + int" where
  "input_amount req d =
     (case toBaseUnits (Amt_number (sw_amountUi req)) d of
        None \<Rightarrow> Inl OtherErr
      | Some amount \<Rightarrow> if amount \<le> 0 then Inl OtherErr else Inr amount)"

definition assemble :: "'w GatewayExecutorDeps \<Rightarrow> StrategySwap \<Rightarrow> nat \<Rightarrow> int \<Rightarrow> JupQuote \<Rightarrow> SwapBuild \<Rightarrow> nat \<Rightarrow> 'w \<Rightarrow> TradeIntent" where
  "assemble g req inputDecimals amount q b outputDecimals w =
     \<lparr> ti_kind = ''swap'', ti_source = STRATEGY_SOURCE,
       ti_input = \<lparr> ta_mint = sw_inputMint req, ta_amount = amount, ta_decimals = inputDecimals \<rparr>,
       ti_output = \<lparr> ol_mint = sw_outputMint req, ol_decimals = outputDecimals \<rparr>,
       ti_inputProvenance = provenanceFor g (sw_inputMint req) w,
       ti_outputProvenance = provenanceFor g (sw_outputMint req) w,
       ti_unsignedTxBase64 = bd_swapTransactionB64 b, ti_recentBlockhash = bd_recentBlockhash b,
       ti_lastValidBlockHeight = bd_lastValidBlockHeight b, ti_landMode = Self_rpc, ti_landHandle = None,
       ti_priorityFeeLamports = bd_prioritizationFeeLamports b,
       ti_quote = \<lparr> q_inAmount = jq_inAmount q, q_outAmount = jq_outAmount q,
          q_minOutAmount = jq_otherAmountThreshold q, q_priceImpactPct = jq_priceImpactPct q,
          q_routeLabel = jq_routeLabel q, q_slippageBps = jq_slippageBps q, q_contextSlot = jq_contextSlot q \<rparr>,
       ti_perp = None, ti_summary = ge_summary g req \<rparr>"

definition swap_slippage :: "'w GatewayExecutorDeps \<Rightarrow> StrategySwap \<Rightarrow> jsnum" where
  "swap_slippage g req =
     (case sw_slippageBps req of
        Some s \<Rightarrow> s
      | None \<Rightarrow> (case ge_defaultSlippageBps g of Some s \<Rightarrow> s | None \<Rightarrow> JNum 100))"

definition buildIntent :: "'w GatewayExecutorDeps \<Rightarrow> StrategySwap \<Rightarrow> ('w, kexn, TradeIntent) eff" where
  "buildIntent g req =
     seqE (guardE (\<not> js_isFinite (sw_amountUi req) \<or> js_le (sw_amountUi req) (JNum 0)) OtherErr)
    (bindE (decimalsFor g (sw_inputMint req)) (\<lambda>inputDecimals.
     bindE (liftE (input_amount req inputDecimals)) (\<lambda>amount.
     bindE (ge_quote g (sw_inputMint req) (sw_outputMint req) amount (swap_slippage g req)) (\<lambda>q.
     bindE (ge_buildSwap g q (ge_ownerWallet g)
              (case ge_priorityFeeLamports g of Some f \<Rightarrow> f | None \<Rightarrow> DEFAULT_PRIORITY_FEE_LAMPORTS)) (\<lambda>b.
     bindE (decimalsFor g (sw_outputMint req)) (\<lambda>outputDecimals.
     getE (assemble g req inputDecimals amount q b outputDecimals)))))))"

text \<open>The world of the executor is the kernel store and the outside world of the gateway.\<close>

definition strategy_options :: "string \<Rightarrow> ExecuteOptions" where
  "strategy_options idem = \<lparr> eo_idempotencyKey = idem, eo_dryRun = False, eo_confirmedByUser = False \<rparr>"

definition gateway_swap :: "'w GatewayExecutorDeps \<Rightarrow> StrategySwap \<Rightarrow> string \<Rightarrow> (KStore \<times> 'w, kexn, ExecuteResult) eff" where
  "gateway_swap g req idem =
     bindE (on_snd (buildIntent g req)) (\<lambda>i. execute (ge_gateway g) i (strategy_options idem))"

definition swap_result :: "'w GatewayExecutorDeps \<Rightarrow> kexn + ExecuteResult \<Rightarrow> StrategySwapResult" where
  "swap_result g r =
     (case r of
        Inl e \<Rightarrow> \<lparr> sr_ok = False, sr_text = ge_text g (Inl e), sr_signature = None \<rparr>
      | Inr res \<Rightarrow>
          if er_error res \<noteq> None then \<lparr> sr_ok = False, sr_text = ge_text g (Inr res), sr_signature = None \<rparr>
          else \<lparr> sr_ok = er_state res = TS_confirmed \<or> er_simulated res, sr_text = ge_text g (Inr res),
                 sr_signature = er_signature res \<rparr>)"

definition gatewayExecutor :: "'w GatewayExecutorDeps \<Rightarrow> (KStore \<times> 'w) StrategyExecutor" where
  "gatewayExecutor g =
     \<lparr> ex_now = (\<lambda>(_, w). gp_now (ge_gateway g) w),
       ex_swap = (\<lambda>req idem (s, kw). case gateway_swap g req idem kw of (r, kw') \<Rightarrow> (Inr (swap_result g r), (s, kw'))),
       ex_price = map_option (\<lambda>f t. on_snd (on_snd (f t))) (ge_price g),
       ex_notify = map_option (\<lambda>f u t. on_snd (on_snd (f u t))) (ge_notify g) \<rparr>"

section \<open>What a pass maintains of the world\<close>

text \<open>A predicate on the outside world that every port maintains is kept by a pass.\<close>

definition maintains :: "('s \<Rightarrow> bool) \<Rightarrow> ('s, 'e, 'a) eff \<Rightarrow> bool" where
  "maintains P m \<longleftrightarrow> (\<forall>s. P s \<longrightarrow> P (snd (m s)))"

lemma maintains_simple: "maintains P (returnE x)" "maintains P (throwE e)" "maintains P (getE f)" "maintains P (guardE b e)" "maintains P (liftE r)"
  by (simp_all add: maintains_def eff_defs)

lemma maintainsD: "maintains P m \<Longrightarrow> P s \<Longrightarrow> m s = (r, t) \<Longrightarrow> P t"
  unfolding maintains_def by (metis snd_conv)

lemma maintainsI: "(\<And>s r t. P s \<Longrightarrow> m s = (r, t) \<Longrightarrow> P t) \<Longrightarrow> maintains P m"
  unfolding maintains_def by (metis prod.collapse)

lemma maintains_bindE: "maintains P m \<Longrightarrow> (\<And>x. maintains P (f x)) \<Longrightarrow> maintains P (bindE m f)"
  by (rule maintainsI) (auto simp: bindE_def split: prod.splits sum.splits dest: maintainsD)

lemma maintains_seqE: "maintains P m \<Longrightarrow> maintains P n \<Longrightarrow> maintains P (seqE m n)"
  unfolding seqE_def by (intro maintains_bindE)

lemma maintains_catchE: "maintains P m \<Longrightarrow> (\<And>e. maintains P (h e)) \<Longrightarrow> maintains P (catchE m h)"
  by (rule maintainsI) (auto simp: catchE_def split: prod.splits sum.splits dest: maintainsD)

lemma maintains_whenE: "maintains P m \<Longrightarrow> maintains P (whenE b m)"
  by (simp add: whenE_def maintains_simple)

lemma maintains_forE: "(\<And>x. maintains P (f x)) \<Longrightarrow> maintains P (forE xs f)"
  by (induction xs) (auto intro: maintains_simple maintains_seqE)

lemmas maintains_rules = maintains_simple maintains_bindE maintains_seqE maintains_catchE maintains_whenE maintains_forE

definition in_world :: "('w \<Rightarrow> bool) \<Rightarrow> 'w Runner \<Rightarrow> bool" where
  "in_world P s \<longleftrightarrow> P (rn_world s)"

lemma maintains_world: "maintains (in_world P) (stratE f)" "maintains (in_world P) (dbE m)" "maintains (in_world P) (clockE x)"
  by (auto simp: maintains_def in_world_def stratE_def modifyE_def dbE_def clockE_def getE_def split: prod.split)

lemma maintains_awaitE: "maintains (\<lambda>sw. P (snd sw)) m \<Longrightarrow> maintains (in_world P) (awaitE m)"
  using maintainsD [of "\<lambda>sw. P (snd sw)" m]
  by (intro maintainsI) (fastforce simp: in_world_def awaitE_def split: prod.splits)

definition ports_keep :: "('w \<Rightarrow> bool) \<Rightarrow> 'w StrategyExecutor \<Rightarrow> bool" where
  "ports_keep P x \<longleftrightarrow> (\<forall>a k. maintains (\<lambda>sw. P (snd sw)) (ex_swap x a k)) \<and>
     (case ex_price x of None \<Rightarrow> True | Some f \<Rightarrow> \<forall>t. maintains (\<lambda>sw. P (snd sw)) (f t)) \<and>
     (case ex_notify x of None \<Rightarrow> True | Some f \<Rightarrow> \<forall>u t. maintains (\<lambda>sw. P (snd sw)) (f u t))"

lemma keeps_step:
  assumes "ports_keep P x"
  shows "maintains (in_world P) (strategy_step x r)"
proof -
  have ports: "maintains (in_world P) (awaitE (ex_swap x a k))" "ex_price x = Some f \<Longrightarrow> maintains (in_world P) (awaitE (f t))"
    "ex_notify x = Some g \<Longrightarrow> maintains (in_world P) (awaitE (g u t))" for a k f t g u
    using assms by (auto simp: ports_keep_def intro!: maintains_awaitE)
  have notify: "maintains (in_world P) (notify_owner x f)" for f
    unfolding notify_owner_def by (auto intro!: maintains_rules ports split: option.split)
  have save: "maintains (in_world P) save_strat" "maintains (in_world P) (reschedule x)"
    unfolding save_strat_def reschedule_def by (intro maintains_rules maintains_world)+
  have outcome: "maintains (in_world P) (swap_outcome x a res)" "maintains (in_world P) (finish_completed x)" for a res
    unfolding swap_outcome_def finish_completed_def by (auto intro!: maintains_rules maintains_world notify)
  have swap: "maintains (in_world P) (step_swap x a)" for a
    unfolding step_swap_def by (intro maintains_rules maintains_world ports outcome save)
  have plan: "maintains (in_world P) (plan x)"
    unfolding plan_def plan_trailing_stop_def plan_take_profit_def Let_def
    by (auto intro!: maintains_rules maintains_world ports split: option.split)
  show ?thesis
    unfolding strategy_step_def step_body_def step_catch_def
    by (intro maintains_rules maintains_world plan save) (auto intro!: maintains_rules maintains_world swap save notify split: Plan.split)
qed

lemma tick_maintains_world:
  assumes "ports_keep P x" and "P (rn_world s)"
  shows "P (rn_world (snd (tick x s)))"
proof -
  have "maintains (in_world P) (tick_body x)"
    unfolding tick_body_def by (intro maintains_rules maintains_world keeps_step [OF assms(1)])
  then have "P (rn_world (snd (tick_body x (s\<lparr> rn_running := True \<rparr>))))"
    using assms(2) by (simp add: maintains_def in_world_def)
  then show ?thesis using assms(2)
    by (cases "tick_body x (s\<lparr> rn_running := True \<rparr>)") (simp add: tick_def)
qed

section \<open>The caps over autonomous trading\<close>

lemma buildIntent_store: "fst (snd (on_snd (buildIntent g req) (k, w))) = k"
  by (simp add: on_snd_def split: prod.split)

lemma gateway_swap_store:
  assumes "gateway_swap g req idem (k, w) = (r, (k', w'))"
  shows "k' = k \<or> (\<exists>i v. fst (snd (execute (ge_gateway g) i (strategy_options idem) (k, v))) = k')"
  using assms buildIntent_store [of g req k w]
  by (auto simp: gateway_swap_def bindE_def split: prod.splits sum.splits) (metis fst_conv snd_conv)+

lemma gatewayExecutor_ports_keep:
  assumes "\<And>i opts w k. P k \<Longrightarrow> P (fst (snd (execute (ge_gateway g) i opts (k, w))))"
  shows "ports_keep (\<lambda>kw. P (fst kw)) (gatewayExecutor g)"
proof -
  have "P k'" if "P k" "gateway_swap g a idem (k, w) = (r, (k', w'))" for a idem k w r k' w'
    using gateway_swap_store [OF that(2)] that(1) assms by auto
  then show ?thesis
    by (auto simp: ports_keep_def gatewayExecutor_def maintains_def on_snd_def split: prod.split option.split)
qed

text \<open>
  One pass of the runner on the kernel store, at time \<open>u\<close> or earlier, or one call of the gateway by
  anyone else.
\<close>

definition with_clock :: "('w \<Rightarrow> int) \<Rightarrow> 'w GatewayExecutorDeps \<Rightarrow> 'w GatewayExecutorDeps" where
  "with_clock clock g = g\<lparr> ge_gateway := (ge_gateway g)\<lparr> gp_now := clock \<rparr> \<rparr>"

definition autonomous_step :: "'w GatewayExecutorDeps \<Rightarrow> (QuoteBucket \<Rightarrow> SpendCaps) \<Rightarrow> int \<Rightarrow> KStore \<Rightarrow> KStore \<Rightarrow> bool" where
  "autonomous_step g caps u k k' \<longleftrightarrow>
     (\<forall>p. offered (ge_gateway g) p \<longrightarrow> caps_for p = caps) \<and>
     (gateway_step (ge_gateway g) caps u k k' \<or>
      (\<exists>clock s w. (\<forall>w. clock w \<le> u) \<and> rn_world s = (k, w) \<and>
         fst (rn_world (snd (tick (gatewayExecutor (with_clock clock g)) s))) = k'))"

lemma offered_clock [simp]: "offered (d\<lparr> gp_now := clock \<rparr>) p = offered d p"
  by (simp add: offered_def)

lemma autonomous_induct:
  fixes g :: "'w GatewayExecutorDeps"
  assumes step: "autonomous_step g caps u k k'" and k: "P k"
    and gw: "\<And>(d :: 'w GatewayDeps) j j'. (\<forall>p. offered d p \<longrightarrow> caps_for p = caps) \<Longrightarrow> P j \<Longrightarrow> gateway_step d caps u j j' \<Longrightarrow> P j'"
  shows "P k'"
proof -
  from step consider (call) "gateway_step (ge_gateway g) caps u k k'"
    | (pass) clock s w where "\<And>w. clock w \<le> u" "rn_world s = (k, w)"
        "fst (rn_world (snd (tick (gatewayExecutor (with_clock clock g)) s))) = k'"
    unfolding autonomous_step_def by blast
  then show ?thesis
  proof cases
    case call
    have "\<forall>p. offered (ge_gateway g) p \<longrightarrow> caps_for p = caps" using step unfolding autonomous_step_def by (rule conjunct1)
    then show ?thesis using k call by (rule gw)
  next
    case pass
    let ?d = "ge_gateway (with_clock clock g)"
    have caps: "\<forall>p. offered ?d p \<longrightarrow> caps_for p = caps" using step by (simp add: autonomous_step_def with_clock_def)
    have "P (fst (snd (execute ?d i opts (j, v))))" if "P j" for i opts v j
    proof (rule gw [OF caps that])
      show "gateway_step ?d caps u j (fst (snd (execute ?d i opts (j, v))))"
        unfolding gateway_step_def
      proof (intro conjI exI)
        show "gp_now ?d v \<le> u" using pass(1) by (simp add: with_clock_def)
      qed (use caps in simp_all)
    qed
    then have "ports_keep (\<lambda>kw. P (fst kw)) (gatewayExecutor (with_clock clock g))" by (rule gatewayExecutor_ports_keep)
    then have "P (fst (rn_world (snd (tick (gatewayExecutor (with_clock clock g)) s))))"
      by (rule tick_maintains_world) (simp add: pass k)
    then show ?thesis using pass(3) by simp
  qed
qed

lemma autonomous_window_mono: "window_mono k \<Longrightarrow> autonomous_step g caps u k k' \<Longrightarrow> window_mono k'"
  by (rule autonomous_induct [where P = window_mono]) (auto intro: window_mono_step)

lemma autonomous_spent:
  assumes m: "window_mono k" and step: "autonomous_step g caps u k k'" and v: "u \<le> v"
    and cap: "\<And>s now n. sumActive b (now - HOUR_MS) s + n \<le> perHour (caps b) \<Longrightarrow>
        sumActive b (now - DAY_MS) s + n \<le> perDay (caps b) \<Longrightarrow> sumActive b (now - width) s + n \<le> c"
  shows "sumActive b (v - width) k' \<le> max (sumActive b (v - width) k) c"
proof -
  have "window_mono k' \<and> sumActive b (v - width) k' \<le> max (sumActive b (v - width) k) c"
    using step
  proof (rule autonomous_induct)
    show "window_mono j' \<and> sumActive b (v - width) j' \<le> max (sumActive b (v - width) k) c"
      if "window_mono j \<and> sumActive b (v - width) j \<le> max (sumActive b (v - width) k) c" "gateway_step d caps u j j'" for d j j'
      using that gateway_spent_step [where width = width and k = c, OF _ that(2) v cap] window_mono_step [OF _ that(2)] by fastforce
  qed (simp add: m)
  then show ?thesis by blast
qed

interpretation autonomous_hour: rolling_cap "\<lambda>s v. sumActive b (v - HOUR_MS) s" "\<lambda>_. window_mono"
    "autonomous_step g caps" empty_store "perHour (caps b)" for g caps b
  by unfold_locales (auto simp: sumActive_empty intro: window_mono_empty autonomous_window_mono autonomous_spent)

interpretation autonomous_day: rolling_cap "\<lambda>s v. sumActive b (v - DAY_MS) s" "\<lambda>_. window_mono"
    "autonomous_step g caps" empty_store "perDay (caps b)" for g caps b
  by unfold_locales (auto simp: sumActive_empty intro: window_mono_empty autonomous_window_mono autonomous_spent)

text \<open>
  C7: however wrong the schedules are, and whatever quotes, prices and answers the ports give, the
  spends of any sequence of runner passes and other gateway calls never exceed the hourly cap in an
  hour nor the daily cap in a day.
\<close>

theorem schedules_within_caps:
  assumes "timed_run (autonomous_step g caps) empty_store t k" and "t \<le> v"
  shows "sumActive b (v - HOUR_MS) k \<le> max 0 (perHour (caps b)) \<and>
         sumActive b (v - DAY_MS) k \<le> max 0 (perDay (caps b))"
  using assms autonomous_hour.run_capped autonomous_day.run_capped by blast

section \<open>Replays and unpinned mints\<close>

lemma swap_result_error: "er_error r \<noteq> None \<Longrightarrow> \<not> sr_ok (swap_result g (Inr r))" "\<not> sr_ok (swap_result g (Inl e))"
  by (simp_all add: swap_result_def)

text \<open>
  \<open>refused Q\<close>: the executor reports a failure and \<open>Q\<close> relates the kernel store before and after.
\<close>

lemma gateway_swap_refused:
  assumes "gateway_swap g a idem (k, w) = (r, (k', w'))" and "Q k"
    and "\<And>i v. (\<exists>u. buildIntent g a u = (Inr i, v)) \<Longrightarrow>
       wp (live (ge_gateway g) i (strategy_options idem)) (\<lambda>r g. er_error r \<noteq> None \<and> Q (gw_store g)) (\<lambda>_ _. False) (gw_start k v)"
  shows "\<not> sr_ok (swap_result g r) \<and> Q k'"
proof (cases "buildIntent g a w")
  case (Pair b v)
  show ?thesis
  proof (cases b)
    case (Inl e)
    then show ?thesis using assms(1,2) Pair by (auto simp: gateway_swap_def bindE_def on_snd_def swap_result_error)
  next
    case (Inr i)
    have "\<exists>q s' v'. execute (ge_gateway g) i (strategy_options idem) (k, v) = (Inr q, (s', v')) \<and> (er_error q \<noteq> None \<and> Q s')"
      by (rule execute_wp) (use assms(3) [of i v] Pair Inr in \<open>auto simp: strategy_options_def\<close>)
    then show ?thesis using assms(1) Pair Inr
      by (auto simp: gateway_swap_def bindE_def on_snd_def swap_result_def)
  qed
qed

lemma taken_key_refused:
  assumes "key_taken k idem" and "gateway_swap g a idem (k, w) = (r, (k', w'))"
  shows "\<not> sr_ok (swap_result g r) \<and> k' = k"
  using assms(2)
proof (rule gateway_swap_refused [where Q = "\<lambda>s. s = k"])
  show "wp (live (ge_gateway g) i (strategy_options idem)) (\<lambda>r g. er_error r \<noteq> None \<and> gw_store g = k) (\<lambda>_ _. False) (gw_start k v)"
    for i v
    by (rule wp_mono [OF wp_live]) (use assms(1) in \<open>auto simp: strategy_options_def\<close>)
qed simp

lemma wp_live_untrusted:
  assumes "ti_inputProvenance i = Prov_untrusted \<or> ti_outputProvenance i = Prov_untrusted"
  shows "wp (live d i (strategy_options idem)) (\<lambda>r g. er_error r \<noteq> None \<and> ks_trades (gw_store g) = ks_trades s \<and>
      ks_spends (gw_store g) = ks_spends s) (\<lambda>_ _. False) (gw_start s w)"
proof -
  have guard: "staticGuards p i \<lparr> go_dryRun = False, go_confirmedByUser = False \<rparr> \<noteq> Inr ()" for p
    using assms by (auto simp: staticGuards_Inr)
  show ?thesis
    unfolding live_def live_body_def live_prepare_def live_guards_def live_catch_def releaseHeld_def seqE_def
    by (auto simp: wp_bindE wp_nowE wp_storeE wp_claimIdempotency wp_getE wp_catchE strategy_options_def live_duplicate_def
        wp_returnE wp_appendJournal errorResult_def wp_liftE guard intro!: wp_ports split: option.split sum.split)
qed

lemma wp_buildIntent:
  "wp (buildIntent g a) (\<lambda>i _. \<exists>v. ti_inputProvenance i = provenanceFor g (sw_inputMint a) v \<and>
     ti_outputProvenance i = provenanceFor g (sw_outputMint a) v) (\<lambda>_ _. True) w"
proof -
  have any: "wp m (\<lambda>x s. wp (f x) Q (\<lambda>_ _. True) s) (\<lambda>_ _. True) v" if "\<And>x s. wp (f x) Q (\<lambda>_ _. True) s" for m f Q v
    using that by (auto simp: wp_def [of m] split: prod.split sum.split)
  show ?thesis
    unfolding buildIntent_def by (intro wp_seqI wp_bindI any) (auto simp: wp_getE assemble_def)
qed

definition never_pinned :: "'w GatewayExecutorDeps \<Rightarrow> string \<Rightarrow> bool" where
  "never_pinned g mint \<longleftrightarrow> mint \<notin> set QUOTE_MINTS \<and>
     (\<forall>v. case ge_pinnedMints g v of None \<Rightarrow> True | Some pinned \<Rightarrow> mint \<notin> set pinned)"

lemma never_pinned_untrusted: "never_pinned g mint \<Longrightarrow> provenanceFor g mint v = Prov_untrusted"
  by (auto simp: never_pinned_def provenanceFor_def split: option.splits)

text \<open>
  C17: a swap into or out of a mint that is neither a quote asset nor pinned by the operator is never
  made for a schedule: whatever the ports answer, the executor reports a failure and the kernel has
  neither a new trade nor a new spend.
\<close>

theorem unpinned_never_swapped:
  assumes "never_pinned g (sw_inputMint a) \<or> never_pinned g (sw_outputMint a)"
  shows "\<exists>res w'. ex_swap (gatewayExecutor g) a idem (s, k, w) = (Inr res, (s, fst w', snd w')) \<and> \<not> sr_ok res \<and>
     ks_trades (fst w') = ks_trades k \<and> ks_spends (fst w') = ks_spends k"
proof -
  obtain r k' w' where sw: "gateway_swap g a idem (k, w) = (r, (k', w'))" by (metis prod.exhaust)
  then have "\<not> sr_ok (swap_result g r) \<and> ks_trades k' = ks_trades k \<and> ks_spends k' = ks_spends k"
  proof (rule gateway_swap_refused [where Q = "\<lambda>j. ks_trades j = ks_trades k \<and> ks_spends j = ks_spends k"])
    fix i v assume "\<exists>u. buildIntent g a u = (Inr i, v)"
    then obtain u where "buildIntent g a u = (Inr i, v)" by blast
    then have "ti_inputProvenance i = Prov_untrusted \<or> ti_outputProvenance i = Prov_untrusted"
      using wp_buildIntent [of g a u] assms by (auto simp: wp_def never_pinned_untrusted)
    then show "wp (live (ge_gateway g) i (strategy_options idem)) (\<lambda>r j. er_error r \<noteq> None \<and>
        ks_trades (gw_store j) = ks_trades k \<and> ks_spends (gw_store j) = ks_spends k) (\<lambda>_ _. False) (gw_start k v)"
      by (rule wp_live_untrusted)
  qed simp
  then show ?thesis using sw by (simp add: gatewayExecutor_def)
qed

lemma plan_stored [simp]: "plan_dca (stored_params p) = plan_dca p" "plan_twap (stored_params p) = plan_twap p"
  by (simp_all add: plan_dca_def plan_twap_def)

lemma planned_stored [simp]: "planned k (stored_params p) a = planned k p a"
  by (simp add: planned_def)

lemma wp_notify_gateway:
  assumes "\<And>v. Q () (s\<lparr> rn_world := (fst (rn_world s), v) \<rparr>)"
  shows "wp (notify_owner (gatewayExecutor g) f) Q E s"
proof (cases "ge_notify g")
  case None
  then show ?thesis using assms [of "snd (rn_world s)"] by (simp add: notify_owner_def gatewayExecutor_def wp_simps)
next
  case (Some h)
  have "wp (awaitE (on_snd (on_snd (h u t)))) Q (\<lambda>_. wp (returnE ()) Q E) s" for u t
    using assms by (cases "rn_world s") (auto simp: wp_def awaitE_def on_snd_def returnE_def split: prod.split sum.split)
  then show ?thesis using Some
    by (simp add: notify_owner_def gatewayExecutor_def wp_bindE wp_getE wp_catchE)
qed

text \<open>
  C8: when the process stopped after a slice was traded and before its row was saved, the replay of
  the slice does nothing in the kernel, but the runner counts it as a failure: the run counter
  advances, the progress does not, and the same slice is proposed again under a new key.
\<close>

theorem replay_not_counted:
  fixes g :: "'w GatewayExecutorDeps" and s :: "(KStore \<times> 'w) Runner"
  assumes "db_row i (rn_db s) = Some d" and "\<not> sb_closed (rn_db s)" and "rn_world s = (k, w)"
    and "sd_kind d = ''dca'' \<or> sd_kind d = ''twap''" and "planned (sd_kind d) (row_params d) a"
    and "key_taken k (idem_key i (sd_runs d))"
  shows "\<exists>s' w' d'. strategy_step (gatewayExecutor g) (hydrate d) s = (Inr (), s') \<and> rn_world s' = (k, w') \<and>
     db_row i (rn_db s') = Some d' \<and> sd_runs d' = Suc (sd_runs d) \<and> sd_errors d' = Suc (sd_errors d) \<and>
     sd_kind d' = sd_kind d \<and> row_params d' = stored_params (row_params d) \<and> planned (sd_kind d) (row_params d') a"
proof -
  let ?x = "gatewayExecutor g"
  define J where "J = (\<lambda>t :: (KStore \<times> 'w) Runner. rn_db t = rn_db s \<and> fst (rn_world t) = k \<and> same_strategy (rn_strat t) (hydrate d) \<and>
     sg_runs (rn_strat t) = Suc (sd_runs d) \<and> sg_errors (rn_strat t) = Suc (sd_errors d))"
  define Q where "Q = (\<lambda>s' :: (KStore \<times> 'w) Runner. fst (rn_world s') = k \<and> (\<exists>d'. db_row i (rn_db s') = Some d' \<and> sd_runs d' = Suc (sd_runs d) \<and>
     sd_errors d' = Suc (sd_errors d) \<and> sd_kind d' = sd_kind d \<and> row_params d' = stored_params (row_params d) \<and> planned (sd_kind d) (row_params d') a))"
  have id: "sd_id d = i" using assms(1) by (rule db_row_id)
  have J_world: "J (t\<lparr> rn_world := (fst (rn_world t), v) \<rparr>)" if "J t" for t v using that by (simp add: J_def)
  have J_status: "J (t\<lparr> rn_strat := (rn_strat t)\<lparr> sg_status := st \<rparr> \<rparr>)" if "J t" for t st using that by (simp add: J_def)
  have final: "wp (seqE (reschedule ?x) save_strat) (\<lambda>_. Q) (\<lambda>_ _. False) t" if "J t" for t
    using that assms(1,2,5) id
    by (auto simp: reschedule_def wp_seqE wp_bindE wp_clockE wp_stratE wp_save_strat J_def Q_def same_strategy_def)
  have finish: "wp (seqE (finish_completed ?x) (seqE (reschedule ?x) save_strat)) (\<lambda>_. Q) (\<lambda>_ _. False) t" if "J t" for t
    unfolding finish_completed_def wp_seqE [of "bindE _ _"] wp_bindE wp_getE wp_whenE wp_seqE [of "stratE _"] wp_stratE
    using that by (auto intro!: wp_notify_gateway final J_world J_status)
  have failure: "wp (seqE (swap_outcome ?x a res) (seqE (finish_completed ?x) (seqE (reschedule ?x) save_strat)))
      (\<lambda>_. Q) (\<lambda>_ _. False) t"
    if "\<not> sr_ok res" "J (t\<lparr> rn_strat := failed (sr_text res) (rn_strat t) \<rparr>)" for res t
    unfolding swap_outcome_def wp_seqE [of "if _ then _ else _"]
    using that J_status [OF that(2)]
    by (auto simp: wp_seqE [of "stratE _"] wp_stratE wp_bindE wp_getE wp_whenE intro!: wp_notify_gateway finish J_world)
  have port: "wp (ex_swap ?x a (idem_key i (sd_runs d))) (\<lambda>res t. \<not> sr_ok res \<and> fst t = rn_db s \<and> fst (snd t) = k)
      (\<lambda>_ _. False) (rn_db s, rn_world s)"
    using taken_key_refused [OF assms(6), of g a w] assms(3)
    by (auto simp: wp_def gatewayExecutor_def split: prod.split)
  have swap: "wp (step_swap ?x a) (\<lambda>_. Q) (\<lambda>_ _. False) (s\<lparr> rn_strat := hydrate d \<rparr>)"
    unfolding step_swap_def wp_bindE wp_getE wp_awaitE
    by (simp add: id, rule wp_mono [OF port])
      (auto simp: wp_clockE wp_seqE [of "stratE _"] wp_stratE J_def failed_def ran_at_def same_strategy_def intro!: failure)
  have "wp (plan ?x) (\<lambda>pl t. pl = Plan_swap a \<and> t = s\<lparr> rn_strat := hydrate d \<rparr>) (\<lambda>_ _. False) (s\<lparr> rn_strat := hydrate d \<rparr>)"
    using assms(4,5) by (auto simp: plan_def wp_simps planned_def)
  then have "wp (strategy_step ?x (hydrate d)) (\<lambda>_. Q) (\<lambda>_ _. False) s"
    unfolding strategy_step_def step_body_def wp_seqE wp_stratE wp_catchE wp_bindE
    by (rule wp_mono) (auto intro: wp_mono [OF swap])
  then show ?thesis
    unfolding wp_def Q_def by (cases "strategy_step ?x (hydrate d) s") (auto split: sum.splits, metis prod.collapse)
qed

subsection \<open>A schedule on the demonstration world\<close>

definition strategy_demo :: "DemoWorld GatewayExecutorDeps" where
  "strategy_demo =
     \<lparr> ge_gateway = demo_deps (\<lambda>_. False),
       ge_quote = (\<lambda>_ _ n _. returnE \<lparr> jq_inAmount = n, jq_outAmount = 1000, jq_otherAmountThreshold = 990,
          jq_priceImpactPct = JNum 0, jq_slippageBps = JNum 100, jq_routeLabel = ''Orca'', jq_contextSlot = None \<rparr>),
       ge_buildSwap = (\<lambda>_ _ _. returnE \<lparr> bd_swapTransactionB64 = ''AQID'', bd_recentBlockhash = ''HASH'',
          bd_lastValidBlockHeight = 1000, bd_prioritizationFeeLamports = JNum 1000 \<rparr>),
       ge_decimals = (\<lambda>_. returnE 6), ge_ownerWallet = ''OWNER'', ge_pinnedMints = (\<lambda>_. Some [''MINT'']),
       ge_priorityFeeLamports = None, ge_defaultSlippageBps = None, ge_price = None, ge_notify = None,
       ge_text = (\<lambda>_. []), ge_summary = (\<lambda>_. []) \<rparr>"

definition half_sol :: StrategySwap where
  "half_sol = buy_swap ''MINT'' (JNum (1 / 2))"

definition half_intent :: TradeIntent where
  "half_intent = demo_swap\<lparr> ti_source := STRATEGY_SOURCE, ti_input := \<lparr> ta_mint = WSOL_MINT, ta_amount = 500000000, ta_decimals = 9 \<rparr>,
     ti_outputProvenance := Prov_user, ti_quote := (ti_quote demo_swap)\<lparr> q_inAmount := 500000000 \<rparr>, ti_summary := [] \<rparr>"

lemma half_units: "toBaseUnits (Amt_number (JNum (1 / 2))) 9 = Some 500000000"
  by (subst toBaseUnits_number) (intro conjI exI [of _ "1 / 2"], simp_all add: floor_eq_iff)

lemma half_built: "buildIntent strategy_demo half_sol w = (Inr half_intent, w)"
  by (simp add: buildIntent_def half_sol_def buy_swap_def strategy_demo_def eff_defs decimalsFor_def input_amount_def
      half_units SOL_DECIMALS_def assemble_def half_intent_def demo_swap_def provenanceFor_def QUOTE_MINTS_def
      WSOL_MINT_def USDC_MINT_def USDT_MINT_def swap_slippage_def
      del: toBaseUnits.simps)

lemma half_static: "staticGuards demo_policy half_intent \<lparr> go_dryRun = False, go_confirmedByUser = False \<rparr> = Inr ()"
  by (simp add: guard_Inr_simps demo_policy_def demo_swap_def half_intent_def isIntentKind_def INTENT_KINDS_def
      input_leg_ok_def perp_leg_ok_def isPerpIntentKind_def PERP_INTENT_KINDS_def postsZeroCollateral_def
      fee_ok_def slippage_guards_def slippageBps_def js_Number_small mint_admitted_def
      MIN_OUT_TOLERANCE_BPS_def)

lemma half_sel:
  "ta_mint (ti_input half_intent) = WSOL_MINT" "ta_amount (ti_input half_intent) = 500000000"
  "ol_mint (ti_output half_intent) = ''MINT''" "ti_kind half_intent = ''swap''" "ti_perp half_intent = None"
  "q_minOutAmount (ti_quote half_intent) = 990"
  by (simp_all add: half_intent_def demo_swap_def)

lemma demo_gateway: "ge_gateway strategy_demo = demo_deps (\<lambda>_. False)"
  by (simp add: strategy_demo_def)

lemma half_executed:
  "case gateway_swap strategy_demo half_sol idem (empty_store, (0, [])) of (r, (k, w)) \<Rightarrow>
     sr_ok (swap_result strategy_demo r) \<and> key_taken k idem \<and> sumActive Bucket_sol (2000 - HOUR_MS) k = 500000000 \<and> snd w = [''WIRE'']"
  by (simp add: gateway_swap_def half_built bindE_def on_snd_def strategy_options_def demo_eval half_static half_sel
      swap_result_def key_taken_def demo_gateway)

definition half_slices :: params where
  "half_slices = [''token'' \<mapsto> Pm_string ''MINT'', ''totalUi'' \<mapsto> Pm_number (JNum 1), ''slices'' \<mapsto> Pm_number (JNum 2)]"

lemma half_plan: "plan_twap half_slices = Plan_swap half_sol"
  by (simp add: plan_twap_def slices_of_def done_slices_def half_slices_def num_param_def str_param_def js_max_def Let_def
      half_sol_def dbl_half)

definition demo_schedule :: "KStore \<times> DemoWorld \<Rightarrow> (KStore \<times> DemoWorld) Runner" where
  "demo_schedule = sample_runner (sample_row ''twap'' half_slices)"

lemma demo_clock: "with_clock (\<lambda>_. 1000) strategy_demo = strategy_demo"
  by (simp add: with_clock_def strategy_demo_def demo_deps_def)

lemma demo_pass:
  "rn_world (snd (tick (gatewayExecutor strategy_demo) (demo_schedule kw))) =
     snd (gateway_swap strategy_demo half_sol (idem_key ''s1'' 0) kw)"
proof -
  obtain r kw' where sw: "gateway_swap strategy_demo half_sol (idem_key ''s1'' 0) kw = (r, kw')" by (metis prod.exhaust)
  have sel: "ex_now (gatewayExecutor strategy_demo) v = 1000" "ex_notify (gatewayExecutor strategy_demo) = None"
    "ex_swap (gatewayExecutor strategy_demo) half_sol (idem_key ''s1'' 0) (t, kw) = (Inr (swap_result strategy_demo r), (t, kw'))"
    for v t using sw by (cases kw; cases v; simp add: gatewayExecutor_def strategy_demo_def demo_deps_def)+
  show ?thesis
    using sw by (simp add: demo_schedule_def tick_def tick_body_def due_def due_rows_def strategy_step_def step_body_def
        step_swap_def swap_outcome_def finish_completed_def reschedule_def save_strat_def save_strategy_def notify_owner_def
        plan_def open_store_def clockE_def stratE_def dbE_def awaitE_def eff_defs sample_runner_def sample_row_def
        hydrate_def half_plan sel)
qed

theorem schedules_within_caps_witness:
  "sumActive Bucket_sol (2000 - HOUR_MS) (fst (rn_world (snd (tick (gatewayExecutor strategy_demo)
      (demo_schedule (empty_store, (0, []))))))) \<le> 5000000000 \<and>
   sumActive Bucket_sol (2000 - HOUR_MS) (fst (rn_world (snd (tick (gatewayExecutor strategy_demo)
      (demo_schedule (empty_store, (0, []))))))) = 500000000"
proof -
  let ?k = "fst (rn_world (snd (tick (gatewayExecutor strategy_demo) (demo_schedule (empty_store, (0, []))))))"
  have "autonomous_step strategy_demo (caps_for demo_policy) 1000 empty_store ?k"
    unfolding autonomous_step_def
  proof (intro conjI disjI2 exI allI impI)
    show "caps_for p = caps_for demo_policy" if "offered (ge_gateway strategy_demo) p" for p
      using that by (simp add: offered_def demo_gateway demo_deps_def returnE_def)
    show "rn_world (demo_schedule (empty_store, (0, []))) = (empty_store, (0, []))"
      by (simp add: demo_schedule_def sample_runner_def)
    show "fst (rn_world (snd (tick (gatewayExecutor (with_clock (\<lambda>_. 1000) strategy_demo)) (demo_schedule (empty_store, (0, [])))))) = ?k"
      by (simp only: demo_clock)
  qed simp
  then have run: "timed_run (autonomous_step strategy_demo (caps_for demo_policy)) empty_store 1000 ?k"
    by (rule timed_run.tick [OF timed_run.start order.refl])
  have "sumActive Bucket_sol (2000 - HOUR_MS) ?k \<le> 5000000000"
    using schedules_within_caps [OF run, of 2000 Bucket_sol] by (simp add: demo_sel)
  moreover have "sumActive Bucket_sol (2000 - HOUR_MS) ?k = 500000000"
    using half_executed [of "idem_key ''s1'' 0"] by (simp add: demo_pass split: prod.splits)
  ultimately show ?thesis by blast
qed

theorem unpinned_never_swapped_witness:
  "\<exists>res w'. ex_swap (gatewayExecutor strategy_demo) (buy_swap ''RUG'' (JNum (1 / 2))) ''K''
     (\<lparr> sb_rows = [], sb_closed = False \<rparr>, empty_store, (0, [])) =
     (Inr res, (\<lparr> sb_rows = [], sb_closed = False \<rparr>, fst w', snd w')) \<and> \<not> sr_ok res \<and> ks_spends (fst w') = []"
proof -
  have "never_pinned strategy_demo (sw_outputMint (buy_swap ''RUG'' (JNum (1 / 2))))"
    by (simp add: never_pinned_def strategy_demo_def buy_swap_def QUOTE_MINTS_def WSOL_MINT_def USDC_MINT_def USDT_MINT_def)
  then show ?thesis
    using unpinned_never_swapped [of strategy_demo "buy_swap ''RUG'' (JNum (1 / 2))" "''K''"
       "\<lparr> sb_rows = [], sb_closed = False \<rparr>" empty_store "(0, [])"] by (auto simp: empty_store_def)
qed

text \<open>
  The first slice is traded and the process stops before the row is saved: the next pass trades
  nothing, and the row still proposes the first slice.
\<close>

theorem replay_not_counted_witness:
  "\<exists>k w s' w' d'. gateway_swap strategy_demo half_sol (idem_key ''s1'' 0) (empty_store, (0, [])) = k \<and>
     sumActive Bucket_sol (2000 - HOUR_MS) (fst (snd k)) = 500000000 \<and>
     strategy_step (gatewayExecutor strategy_demo) (hydrate (sample_row ''twap'' half_slices)) (demo_schedule (snd k)) = (Inr (), s') \<and>
     rn_world s' = (fst (snd k), w') \<and> db_row ''s1'' (rn_db s') = Some d' \<and> sd_runs d' = 1 \<and>
     planned ''twap'' (row_params d') half_sol"
proof -
  obtain r k w where sw: "gateway_swap strategy_demo half_sol (idem_key ''s1'' 0) (empty_store, (0, [])) = (r, (k, w))"
    by (metis prod.exhaust)
  have traded: "key_taken k (idem_key ''s1'' 0)" "sumActive Bucket_sol (2000 - HOUR_MS) k = 500000000"
    using half_executed [of "idem_key ''s1'' 0"] sw by simp_all
  let ?d = "sample_row ''twap'' half_slices"
  have row: "db_row ''s1'' (rn_db (demo_schedule (k, w))) = Some ?d" "\<not> sb_closed (rn_db (demo_schedule (k, w)))"
    "rn_world (demo_schedule (k, w)) = (k, w)" "sd_kind ?d = ''twap''" "row_params ?d = half_slices" "sd_runs ?d = 0"
    by (simp_all add: demo_schedule_def sample_runner_def db_row_def sample_row_def row_params_def)
  have "planned (sd_kind ?d) (row_params ?d) half_sol" by (simp add: row planned_def half_plan)
  then show ?thesis
    using replay_not_counted [OF row(1,2,3), of half_sol strategy_demo] traded sw by (fastforce simp: row planned_def)
qed

end
