(* ===== verification/EventBus.thy ===== *)
theory EventBus
  imports Json
begin

text \<open>
  \<open>src/src/autonomy/events/index.ts\<close>: event envelopes and how they are persisted, the in-memory bus and
  the bus over SQLite with its outbox, offsets, retries and dead letters. A handler is a port: any
  effect on the whole database, because other callers publish on the same connection while it is
  awaited, and inside the same transaction. The calls of \<open>process\<close> on one database run one after
  the other, as the promise chain of the code has it. Filters, validators and upcasts are total.
\<close>

section \<open>Payloads\<close>

datatype jvalue =
    Jv_null | Jv_bool bool | Jv_number jsnum | Jv_bigint int | Jv_string string
  | Jv_array "jvalue list" | Jv_object "(string \<times> jvalue) list"

text \<open>\<open>BigInt(s)\<close> of a string; \<open>None\<close> is the \<open>SyntaxError\<close>.\<close>

definition radix_digit :: "char \<Rightarrow> nat" where
  "radix_digit c = (let n = of_char c :: nat in
     if 48 \<le> n \<and> n \<le> 57 then n - 48 else if 97 \<le> n \<and> n \<le> 102 then n - 87 else if 65 \<le> n \<and> n \<le> 70 then n - 55 else 16)"

definition radix_value :: "nat \<Rightarrow> string \<Rightarrow> int option" where
  "radix_value b s = (if s \<noteq> [] \<and> list_all (\<lambda>c. radix_digit c < b) s
     then Some (foldl (\<lambda>a c. int b * a + int (radix_digit c)) 0 s) else None)"

definition js_BigInt_string :: "string \<Rightarrow> int option" where
  "js_BigInt_string s =
     (case js_trim s of
        [] \<Rightarrow> Some 0
      | c # t \<Rightarrow>
          if c = CHR ''-'' then map_option uminus (radix_value 10 t)
          else if c = CHR ''+'' then radix_value 10 t
          else if c = CHR ''0'' \<and> t \<noteq> [] \<and> hd t \<in> {CHR ''x'', CHR ''X''} then radix_value 16 (tl t)
          else if c = CHR ''0'' \<and> t \<noteq> [] \<and> hd t \<in> {CHR ''o'', CHR ''O''} then radix_value 8 (tl t)
          else if c = CHR ''0'' \<and> t \<noteq> [] \<and> hd t \<in> {CHR ''b'', CHR ''B''} then radix_value 2 (tl t)
          else radix_value 10 (c # t))"

text \<open>
  \<open>JSON.stringify(v, encode)\<close>, as the value its text parses to: a \<open>bigint\<close> becomes an object and a
  number that is not finite \<open>null\<close>.
\<close>

fun persisted :: "jvalue \<Rightarrow> jvalue" where
  "persisted (Jv_number x) = (if js_isFinite x then Jv_number x else Jv_null)"
| "persisted (Jv_bigint n) = Jv_object [(''$bigint'', Jv_string (show_int n))]"
| "persisted (Jv_array l) = Jv_array (map persisted l)"
| "persisted (Jv_object fs) = Jv_object (map (\<lambda>(k, v). (k, persisted v)) fs)"
| "persisted v = v"

fun traverse :: "'a option list \<Rightarrow> 'a list option" where
  "traverse [] = Some []"
| "traverse (x # xs) = (case x of None \<Rightarrow> None | Some a \<Rightarrow> map_option (Cons a) (traverse xs))"

text \<open>\<open>JSON.parse(text, decode)\<close>: from the leaves up, an object with the one key \<open>$bigint\<close> is read back.\<close>

definition decode :: "jvalue \<Rightarrow> jvalue option" where
  "decode v = (case v of
      Jv_object [(k, Jv_string s)] \<Rightarrow> if k = ''$bigint'' then map_option Jv_bigint (js_BigInt_string s) else Some v
    | _ \<Rightarrow> Some v)"

fun revived :: "jvalue \<Rightarrow> jvalue option" where
  "revived (Jv_array l) = (case traverse (map revived l) of None \<Rightarrow> None | Some l' \<Rightarrow> decode (Jv_array l'))"
| "revived (Jv_object fs) =
     (case traverse (map (\<lambda>(k, v). map_option (Pair k) (revived v)) fs) of
        None \<Rightarrow> None | Some fs' \<Rightarrow> decode (Jv_object fs'))"
| "revived v = decode v"

section \<open>Envelopes\<close>

record ChainPosition =
  cp_number :: int
  cp_hash :: string
  cp_parentHash :: string
  cp_finality :: string

record EventEnvelope =
  ev_id :: string
  ev_type :: string
  ev_version :: int
  ev_source :: string
  ev_correlationId :: string
  ev_causationId :: "string option"
  ev_occurredAt :: string
  ev_block :: "ChainPosition option"
  ev_provenance :: "jvalue option"
  ev_payload :: jvalue

record EnvelopeInput =
  in_type :: string
  in_payload :: jvalue
  in_source :: string
  in_version :: "jsnum option"
  in_correlationId :: "string option"
  in_causationId :: "string option"
  in_block :: "ChainPosition option"
  in_provenance :: "jvalue option"

definition nonempty :: "string \<Rightarrow> bool" where
  "nonempty x \<longleftrightarrow> js_trim x \<noteq> []"

definition bad_position :: "ChainPosition \<Rightarrow> bool" where
  "bad_position b \<longleftrightarrow> \<not> nonempty (cp_hash b) \<or> \<not> nonempty (cp_parentHash b) \<or> cp_number b < 0 \<or>
     cp_finality b \<notin> {''unsafe'', ''safe'', ''finalized''}"

text \<open>\<open>i\<close> and \<open>t\<close> are what \<open>id()\<close> and \<open>now()\<close> give.\<close>

definition createEnvelope :: "EnvelopeInput \<Rightarrow> string \<Rightarrow> string \<Rightarrow> string + EventEnvelope" where
  "createEnvelope input i t =
     (let version = (case in_version input of None \<Rightarrow> JNum 1 | Some v \<Rightarrow> v) in
      if \<not> nonempty (in_type input) \<or> \<not> nonempty (in_source input) \<or> \<not> js_isSafeInteger version \<or> js_lt version (JNum 1)
      then Inl ''invalid event envelope''
      else if (case in_block input of None \<Rightarrow> False | Some b \<Rightarrow> bad_position b) then Inl ''invalid chain position''
      else Inr \<lparr> ev_id = i, ev_type = in_type input,
        ev_version = (case version of JNum q \<Rightarrow> \<lfloor>q\<rfloor> | _ \<Rightarrow> 0), ev_source = in_source input,
        ev_correlationId = (case in_correlationId input of None \<Rightarrow> i | Some c \<Rightarrow> c),
        ev_causationId = (case in_causationId input of Some c \<Rightarrow> if c = [] then None else Some c | None \<Rightarrow> None),
        ev_occurredAt = t, ev_block = in_block input, ev_provenance = in_provenance input,
        ev_payload = in_payload input \<rparr>)"

definition reorgCorrection :: "(string \<Rightarrow> string) \<Rightarrow> EventEnvelope \<Rightarrow> ChainPosition \<Rightarrow> string \<Rightarrow> string + EventEnvelope" where
  "reorgCorrection sha256 original canonical t =
     (case ev_block original of
        None \<Rightarrow> Inl ''cannot correct an event without a block''
      | Some b \<Rightarrow> createEnvelope
          \<lparr> in_type = ''chain.reorg.correction'',
            in_payload = Jv_object
              [(''orphanedEventId'', Jv_string (ev_id original)), (''orphanedBlockHash'', Jv_string (cp_hash b)),
               (''canonicalBlockHash'', Jv_string (cp_hash canonical)),
               (''canonicalBlockNumber'', Jv_bigint (cp_number canonical)), (''reversal'', Jv_bool True)],
            in_source = ''chain'', in_version = None, in_correlationId = Some (ev_correlationId original),
            in_causationId = Some (ev_id original), in_block = Some canonical, in_provenance = None \<rparr>
          (sha256 (ev_id original @ '':'' @ cp_hash canonical)) t)"

text \<open>What the outbox holds of an envelope; \<open>None\<close> in a row is a text that does not parse to one.\<close>

definition persisted_envelope :: "EventEnvelope \<Rightarrow> EventEnvelope" where
  "persisted_envelope e = e\<lparr> ev_payload := persisted (ev_payload e), ev_provenance := map_option persisted (ev_provenance e) \<rparr>"

definition revived_envelope :: "EventEnvelope \<Rightarrow> EventEnvelope option" where
  "revived_envelope e =
     (case revived (ev_payload e) of
        None \<Rightarrow> None
      | Some p \<Rightarrow>
          (case ev_provenance e of
             None \<Rightarrow> Some (e\<lparr> ev_payload := p \<rparr>)
           | Some v \<Rightarrow> map_option (\<lambda>v'. e\<lparr> ev_payload := p, ev_provenance := Some v' \<rparr>) (revived v)))"

section \<open>The bus over SQLite\<close>

record StoredEvent =
  se_cursor :: int
  se_envelope :: EventEnvelope

record EventSchema =
  es_latest :: int
  es_validate :: "jvalue \<Rightarrow> bool"
  es_upcast :: "(jvalue \<Rightarrow> int \<Rightarrow> jvalue) option"

text \<open>\<open>bc_gaps\<close>: whether an insertion that is ignored uses up a number; SQLite leaves it open.\<close>

record SqliteBusConfig =
  bc_maxAttempts :: int
  bc_batchSize :: int
  bc_schemas :: "string \<rightharpoonup> EventSchema"
  bc_gaps :: bool

definition normalize :: "SqliteBusConfig \<Rightarrow> EventEnvelope \<Rightarrow> string + EventEnvelope" where
  "normalize cfg e =
     (case bc_schemas cfg (ev_type e) of
        None \<Rightarrow> Inr e
      | Some schema \<Rightarrow>
          if ev_version e > es_latest schema then Inl (''unsupported schema version '' @ show_int (ev_version e))
          else
            let payload = (case es_upcast schema of
                  Some up \<Rightarrow> if ev_version e < es_latest schema then up (ev_payload e) (ev_version e) else ev_payload e
                | None \<Rightarrow> ev_payload e)
            in if \<not> es_validate schema payload then Inl (''schema validation failed for '' @ ev_type e)
               else Inr (e\<lparr> ev_version := es_latest schema, ev_payload := payload \<rparr>))"

record OutboxRow =
  ob_cursor :: int
  ob_event_id :: string
  ob_type :: string
  ob_envelope :: "EventEnvelope option"

record RetryRow =
  rt_consumer :: string
  rt_cursor :: int
  rt_attempts :: int
  rt_last_error :: string

record DeadLetter =
  dl_consumer :: string
  dl_cursor :: int
  dl_event_id :: string
  dl_error :: string

type_synonym SubscriptionDefinition = "string list option \<times> string \<times> string option"

text \<open>\<open>eb_app\<close>: the tables of the application, which the handlers write in the same transaction.\<close>

record 'w EventDb =
  eb_outbox :: "OutboxRow list"
  eb_sequence :: int
  eb_inbox :: "(string \<times> string) list"
  eb_offsets :: "(string \<times> int) list"
  eb_retries :: "RetryRow list"
  eb_dead :: "DeadLetter list"
  eb_subscriptions :: "(string \<times> SubscriptionDefinition) list"
  eb_app :: 'w

type_synonym ('w, 'a) dbop = "('w EventDb, string, 'a) eff"

record 'w EventSub =
  su_name :: string
  su_handler :: "EventEnvelope \<Rightarrow> ('w, unit) dbop"
  su_types :: "string list option"
  su_filter :: "(string \<times> (EventEnvelope \<Rightarrow> bool)) option"
  su_version :: "string option"

record 'w SqliteBus =
  bu_db :: "'w EventDb"
  bu_subs :: "'w EventSub list"

definition empty_event_db :: "'w \<Rightarrow> 'w EventDb" where
  "empty_event_db w = \<lparr> eb_outbox = [], eb_sequence = 0, eb_inbox = [], eb_offsets = [], eb_retries = [], eb_dead = [],
     eb_subscriptions = [], eb_app = w \<rparr>"

definition upsert :: "'k \<Rightarrow> 'v \<Rightarrow> ('k \<times> 'v) list \<Rightarrow> ('k \<times> 'v) list" where
  "upsert k v t = (if exists_where (\<lambda>r. fst r = k) t then update_where (\<lambda>r. fst r = k) (\<lambda>_. (k, v)) t else t @ [(k, v)])"

lemma map_of_upsert [simp]: "map_of (upsert k v t) = (map_of t)(k \<mapsto> v)"
proof -
  have "map_of (update_where (\<lambda>r. fst r = k) (\<lambda>_. (k, v)) t) x = (if x = k \<and> exists_where (\<lambda>r. fst r = k) t then Some v else map_of t x)" for x
    by (induction t) auto
  moreover have "map_of (t @ [(k, v)]) x = ((map_of t)(k \<mapsto> v)) x" if "\<not> exists_where (\<lambda>r. fst r = k) t" for x
    using that by (induction t) auto
  ultimately show ?thesis by (auto simp: upsert_def fun_eq_iff)
qed

definition offset_of :: "string \<Rightarrow> 'w EventDb \<Rightarrow> int" where
  "offset_of c d = (case map_of (eb_offsets d) c of None \<Rightarrow> 0 | Some n \<Rightarrow> n)"

definition set_offset :: "string \<Rightarrow> int \<Rightarrow> ('w, unit) dbop" where
  "set_offset c n = modifyE (\<lambda>d. d\<lparr> eb_offsets := upsert c n (eb_offsets d) \<rparr>)"

definition matches :: "string list option \<Rightarrow> (EventEnvelope \<Rightarrow> bool) option \<Rightarrow> EventEnvelope \<Rightarrow> bool" where
  "matches types flt e \<longleftrightarrow> (case types of None \<Rightarrow> True | Some ts \<Rightarrow> ev_type e \<in> set ts) \<and>
     (case flt of None \<Rightarrow> True | Some f \<Rightarrow> f e)"

abbreviation sub_matches :: "'w EventSub \<Rightarrow> EventEnvelope \<Rightarrow> bool" where
  "sub_matches s \<equiv> matches (su_types s) (map_option snd (su_filter s))"

definition definition_of :: "'w EventSub \<Rightarrow> SubscriptionDefinition" where
  "definition_of s = (su_types s, (case su_version s of None \<Rightarrow> ''1'' | Some v \<Rightarrow> v), map_option fst (su_filter s))"

definition subscribe :: "'w EventSub \<Rightarrow> ('w SqliteBus, string, unit) eff" where
  "subscribe s =
     bindE (getE bu_subs) (\<lambda>subs.
     seqE (guardE (list_ex (\<lambda>x. su_name x = su_name s) subs) (''duplicate consumer '' @ su_name s))
    (bindE (getE (\<lambda>b. map_of (eb_subscriptions (bu_db b)) (su_name s))) (\<lambda>old.
     seqE (guardE (case old of None \<Rightarrow> False | Some d \<Rightarrow> d \<noteq> definition_of s) (''subscription definition changed for '' @ su_name s))
    (seqE (whenE (old = None) (modifyE (\<lambda>b. b\<lparr> bu_db := (bu_db b)\<lparr> eb_subscriptions :=
              eb_subscriptions (bu_db b) @ [(su_name s, definition_of s)] \<rparr> \<rparr>)))
          (modifyE (\<lambda>b. b\<lparr> bu_subs := bu_subs b @ [s] \<rparr>))))))"

definition unsubscribe :: "string \<Rightarrow> ('w SqliteBus, string, unit) eff" where
  "unsubscribe name = modifyE (\<lambda>b. b\<lparr> bu_subs := filter (\<lambda>s. su_name s \<noteq> name) (bu_subs b) \<rparr>)"

definition outbox_row :: "string \<Rightarrow> 'w EventDb \<Rightarrow> OutboxRow option" where
  "outbox_row i d = find_where (\<lambda>r. ob_event_id r = i) (eb_outbox d)"

definition insert_outbox :: "SqliteBusConfig \<Rightarrow> EventEnvelope \<Rightarrow> ('w, unit) dbop" where
  "insert_outbox cfg e = modifyE (\<lambda>d.
     if exists_where (\<lambda>r. ob_event_id r = ev_id e) (eb_outbox d)
     then d\<lparr> eb_sequence := eb_sequence d + (if bc_gaps cfg then 1 else 0) \<rparr>
     else d\<lparr> eb_sequence := eb_sequence d + 1, eb_outbox := eb_outbox d @
       [\<lparr> ob_cursor = eb_sequence d + 1, ob_event_id = ev_id e, ob_type = ev_type e,
          ob_envelope = Some (persisted_envelope e) \<rparr>] \<rparr>)"

definition inbox_add :: "string \<Rightarrow> string \<Rightarrow> ('w, unit) dbop" where
  "inbox_add c i = modifyE (\<lambda>d. if (c, i) \<in> set (eb_inbox d) then d else d\<lparr> eb_inbox := eb_inbox d @ [(c, i)] \<rparr>)"

definition retry_key :: "string \<Rightarrow> int \<Rightarrow> RetryRow \<Rightarrow> bool" where
  "retry_key c n r \<longleftrightarrow> rt_consumer r = c \<and> rt_cursor r = n"

definition clear_retry :: "string \<Rightarrow> int \<Rightarrow> ('w, unit) dbop" where
  "clear_retry c n = modifyE (\<lambda>d. d\<lparr> eb_retries := delete_where (retry_key c n) (eb_retries d) \<rparr>)"

definition count_retry :: "string \<Rightarrow> int \<Rightarrow> string \<Rightarrow> ('w, unit) dbop" where
  "count_retry c n msg = modifyE (\<lambda>d. d\<lparr> eb_retries :=
     if exists_where (retry_key c n) (eb_retries d)
     then update_where (retry_key c n) (\<lambda>r. r\<lparr> rt_attempts := rt_attempts r + 1, rt_last_error := msg \<rparr>) (eb_retries d)
     else eb_retries d @ [\<lparr> rt_consumer = c, rt_cursor = n, rt_attempts = 1, rt_last_error = msg \<rparr>] \<rparr>)"

definition attempts_made :: "string \<Rightarrow> int \<Rightarrow> 'w EventDb \<Rightarrow> int" where
  "attempts_made c n d = (case find_where (retry_key c n) (eb_retries d) of None \<Rightarrow> 0 | Some r \<Rightarrow> rt_attempts r)"

definition bury :: "string \<Rightarrow> int \<Rightarrow> string \<Rightarrow> string \<Rightarrow> ('w, unit) dbop" where
  "bury c n i msg = modifyE (\<lambda>d.
     if exists_where (\<lambda>r. dl_consumer r = c \<and> dl_cursor r = n) (eb_dead d) then d
     else d\<lparr> eb_dead := eb_dead d @ [\<lparr> dl_consumer = c, dl_cursor = n, dl_event_id = i, dl_error = msg \<rparr>] \<rparr>)"

definition process_commit :: "'w EventSub \<Rightarrow> StoredEvent \<Rightarrow> ('w, unit) dbop" where
  "process_commit s x =
     seqE (whenE (sub_matches s (se_envelope x)) (su_handler s (se_envelope x)))
    (seqE (inbox_add (su_name s) (ev_id (se_envelope x)))
    (seqE (set_offset (su_name s) (se_cursor x))
          (clear_retry (su_name s) (se_cursor x))))"

definition process_failed :: "SqliteBusConfig \<Rightarrow> 'w EventSub \<Rightarrow> StoredEvent \<Rightarrow> string \<Rightarrow> ('w, unit) dbop" where
  "process_failed cfg s x msg =
     seqE (count_retry (su_name s) (se_cursor x) msg)
    (bindE (getE (attempts_made (su_name s) (se_cursor x))) (\<lambda>n.
     if n \<ge> bc_maxAttempts cfg then
       transactionE (seqE (bury (su_name s) (se_cursor x) (ev_id (se_envelope x)) msg)
                          (set_offset (su_name s) (se_cursor x)))
     else throwE msg))"

definition process_event :: "SqliteBusConfig \<Rightarrow> 'w EventSub \<Rightarrow> StoredEvent \<Rightarrow> ('w, unit) dbop" where
  "process_event cfg s x =
     bindE (getE (offset_of (su_name s))) (\<lambda>o'.
     if se_cursor x \<le> o' then returnE ()
     else catchE (transactionE (process_commit s x)) (process_failed cfg s x))"

definition busE :: "('w, 'a) dbop \<Rightarrow> ('w SqliteBus, string, 'a) eff" where
  "busE m = (\<lambda>b. case m (bu_db b) of (r, d) \<Rightarrow> (r, b\<lparr> bu_db := d \<rparr>))"

definition publish :: "SqliteBusConfig \<Rightarrow> EventEnvelope \<Rightarrow> ('w SqliteBus, string, StoredEvent) eff" where
  "publish cfg input =
     bindE (liftE (normalize cfg input)) (\<lambda>e.
     seqE (busE (insert_outbox cfg e))
    (bindE (getE (\<lambda>b. outbox_row (ev_id e) (bu_db b))) (\<lambda>row. case row of
        None \<Rightarrow> throwE ''TypeError''
      | Some r \<Rightarrow>
          bindE (getE bu_subs) (\<lambda>subs.
          seqE (forE subs (\<lambda>s. catchE (busE (process_event cfg s \<lparr> se_cursor = ob_cursor r, se_envelope = e \<rparr>)) (\<lambda>_. returnE ())))
               (returnE \<lparr> se_cursor = ob_cursor r, se_envelope = e \<rparr>)))))"

text \<open>A row that cannot be read back, or that its schema refuses, is left out of a replay.\<close>

definition read_row :: "SqliteBusConfig \<Rightarrow> OutboxRow \<Rightarrow> StoredEvent option" where
  "read_row cfg r =
     (case ob_envelope r of
        None \<Rightarrow> None
      | Some p \<Rightarrow> (case revived_envelope p of
          None \<Rightarrow> None
        | Some e \<Rightarrow> (case normalize cfg e of Inl _ \<Rightarrow> None | Inr e' \<Rightarrow> Some \<lparr> se_cursor = ob_cursor r, se_envelope = e' \<rparr>)))"

definition replay_limit :: "SqliteBusConfig \<Rightarrow> int option \<Rightarrow> nat" where
  "replay_limit cfg limit = nat (max 1 (min (case limit of None \<Rightarrow> bc_batchSize cfg | Some n \<Rightarrow> n) 1000))"

definition replay :: "SqliteBusConfig \<Rightarrow> int \<Rightarrow> int option \<Rightarrow> string list option \<Rightarrow> (EventEnvelope \<Rightarrow> bool) option \<Rightarrow> 'w EventDb \<Rightarrow> StoredEvent list" where
  "replay cfg cursor limit types flt d =
     filter (\<lambda>x. matches types flt (se_envelope x)) (List.map_filter (read_row cfg)
       (take (replay_limit cfg limit) (sort_key ob_cursor (filter (\<lambda>r. ob_cursor r > cursor) (eb_outbox d)))))"

text \<open>The loop of \<open>deliver\<close> for one consumer; \<open>False\<close> means that the fuel ran out.\<close>

fun deliver_to :: "nat \<Rightarrow> SqliteBusConfig \<Rightarrow> 'w EventSub \<Rightarrow> ('w, bool) dbop" where
  "deliver_to 0 cfg s = returnE False"
| "deliver_to (Suc n) cfg s =
     bindE (getE (\<lambda>d. replay cfg (offset_of (su_name s) d) (Some (bc_batchSize cfg)) None None d)) (\<lambda>rows.
     if rows = [] then returnE True
     else seqE (forE rows (process_event cfg s))
            (if int (length rows) < bc_batchSize cfg then returnE True else deliver_to n cfg s))"

fun deliver_all :: "nat \<Rightarrow> SqliteBusConfig \<Rightarrow> 'w EventSub list \<Rightarrow> ('w, bool) dbop" where
  "deliver_all n cfg [] = returnE True"
| "deliver_all n cfg (s # ss) = bindE (deliver_to n cfg s) (\<lambda>b. bindE (deliver_all n cfg ss) (\<lambda>c. returnE (b \<and> c)))"

definition deliver :: "nat \<Rightarrow> SqliteBusConfig \<Rightarrow> ('w SqliteBus, string, bool) eff" where
  "deliver n cfg = bindE (getE bu_subs) (\<lambda>subs. busE (deliver_all n cfg subs))"

text \<open>Ordered by cursor, or by consumer and cursor.\<close>

definition deadLetters :: "string option \<Rightarrow> 'w EventDb \<Rightarrow> DeadLetter list" where
  "deadLetters c d =
     (case c of
        Some n \<Rightarrow> if n = [] then sort_key dl_consumer (sort_key dl_cursor (eb_dead d))
          else sort_key dl_cursor (filter (\<lambda>r. dl_consumer r = n) (eb_dead d))
      | None \<Rightarrow> sort_key dl_consumer (sort_key dl_cursor (eb_dead d)))"

section \<open>The bus in memory\<close>

record 'w MemorySub =
  ms_name :: string
  ms_handler :: "EventEnvelope \<Rightarrow> ('w, string, unit) eff"
  ms_types :: "string list option"
  ms_filter :: "(EventEnvelope \<Rightarrow> bool) option"

record 'w MemoryBus =
  mb_events :: "StoredEvent list"
  mb_subs :: "'w MemorySub list"
  mb_offsets :: "(string \<times> int) list"
  mb_world :: 'w

definition memory_subscribe :: "'w MemorySub \<Rightarrow> ('w MemoryBus, string, unit) eff" where
  "memory_subscribe s = bindE (getE mb_subs) (\<lambda>subs.
     seqE (guardE (list_ex (\<lambda>x. ms_name x = ms_name s) subs) (''duplicate consumer '' @ ms_name s))
          (modifyE (\<lambda>b. b\<lparr> mb_subs := mb_subs b @ [s] \<rparr>)))"

definition memory_offset :: "string \<Rightarrow> 'w MemoryBus \<Rightarrow> int" where
  "memory_offset c b = (case map_of (mb_offsets b) c of None \<Rightarrow> 0 | Some n \<Rightarrow> n)"

definition worldE :: "('w, string, 'a) eff \<Rightarrow> ('w MemoryBus, string, 'a) eff" where
  "worldE m = (\<lambda>b. case m (mb_world b) of (r, w) \<Rightarrow> (r, b\<lparr> mb_world := w \<rparr>))"

definition memory_process :: "'w MemorySub \<Rightarrow> StoredEvent \<Rightarrow> ('w MemoryBus, string, unit) eff" where
  "memory_process s x = bindE (getE (memory_offset (ms_name s))) (\<lambda>o'.
     if se_cursor x \<le> o' then returnE ()
     else seqE (whenE (matches (ms_types s) (ms_filter s) (se_envelope x)) (worldE (ms_handler s (se_envelope x))))
            (modifyE (\<lambda>b. b\<lparr> mb_offsets := upsert (ms_name s) (se_cursor x) (mb_offsets b) \<rparr>)))"

definition memory_publish :: "EventEnvelope \<Rightarrow> ('w MemoryBus, string, StoredEvent) eff" where
  "memory_publish e =
     bindE (getE (\<lambda>b. \<lparr> se_cursor = int (length (mb_events b)) + 1, se_envelope = e \<rparr>)) (\<lambda>x.
     seqE (modifyE (\<lambda>b. b\<lparr> mb_events := mb_events b @ [x] \<rparr>))
    (bindE (getE mb_subs) (\<lambda>subs.
     seqE (forE subs (\<lambda>s. catchE (memory_process s x) (\<lambda>_. returnE ()))) (returnE x))))"

definition memory_deliver :: "('w MemoryBus, string, unit) eff" where
  "memory_deliver = bindE (getE mb_subs) (\<lambda>subs. bindE (getE mb_events) (\<lambda>events.
     forE subs (\<lambda>s. forE events (memory_process s))))"

definition memory_replay :: "int \<Rightarrow> int option \<Rightarrow> string list option \<Rightarrow> (EventEnvelope \<Rightarrow> bool) option \<Rightarrow> 'w MemoryBus \<Rightarrow> StoredEvent list" where
  "memory_replay cursor limit types flt b =
     (let rows = filter (\<lambda>x. se_cursor x > cursor \<and> matches types flt (se_envelope x)) (mb_events b);
          n = (case limit of None \<Rightarrow> 1000 | Some n \<Rightarrow> n)
      in take (nat (if n < 0 then int (length rows) + n else n)) rows)"

end
