(* ===== verification/EventDelivery.thy ===== *)
theory EventDelivery
  imports EventBus
begin

text \<open>
  What the event bus guarantees: an envelope is read back as it was written, a consumer handles a
  cursor at most once, a failing event is buried after its attempts, a delivery without failures
  works off the backlog in order; and where events are lost.
\<close>

section \<open>Writing and reading an envelope\<close>

text \<open>Values the persistence is meant for: finite numbers, and no object that looks like a written \<open>bigint\<close>.\<close>

fun plain :: "jvalue \<Rightarrow> bool" where
  "plain (Jv_number x) = js_isFinite x"
| "plain (Jv_array l) = list_all plain l"
| "plain (Jv_object fs) = (list_all (\<lambda>(k, v). plain v) fs \<and>
     (case fs of [(k, Jv_string s)] \<Rightarrow> k \<noteq> ''$bigint'' | _ \<Rightarrow> True))"
| "plain v = True"

lemma radix_digit_digit: "is_digit c \<Longrightarrow> radix_digit c = digit_val c"
  by (simp add: radix_digit_def digit_val_def is_digit_def Let_def)

lemma foldl_digits: "list_all is_digit s \<Longrightarrow>
    foldl (\<lambda>a c. int 10 * a + int (radix_digit c)) (int n) s = int (foldl (\<lambda>a c. 10 * a + digit_val c) n s)"
proof (induction s arbitrary: n)
  case (Cons c s)
  then show ?case using Cons.IH [of "10 * n + digit_val c"] by (simp add: radix_digit_digit)
qed simp

lemma radix_value_digits: "list_all is_digit s \<Longrightarrow> s \<noteq> [] \<Longrightarrow> radix_value 10 s = Some (int (parse_digits s))"
  using foldl_digits [of s 0]
  by (auto simp: radix_value_def parse_digits_def list_all_iff radix_digit_def is_digit_def Let_def)

lemma digits_no_space: "is_digit c \<Longrightarrow> \<not> js_space c"
  by (auto simp: is_digit_def js_space_def)

lemma trim_solid: "list_all (\<lambda>c. \<not> js_space c) s \<Longrightarrow> js_trim s = s"
proof -
  assume "list_all (\<lambda>c. \<not> js_space c) s"
  then have none: "\<forall>c \<in> set s. \<not> js_space c" by (simp add: list_all_iff)
  have drop: "\<forall>c \<in> set t. \<not> js_space c \<Longrightarrow> dropWhile js_space t = t" for t by (cases t) auto
  have "dropWhile js_space s = s" "dropWhile js_space (rev s) = rev s"
    using none by (auto intro: drop)
  then show ?thesis by (simp add: js_trim_def)
qed

lemma BigInt_show_int: "js_BigInt_string (show_int n) = Some n"
proof -
  have dig: "list_all is_digit (show_digits m)" for m by (rule show_digits_digits)
  have space: "list_all (\<lambda>c. \<not> js_space c) (show_int n)"
    using dig digits_no_space by (auto simp: show_int_def list_all_iff js_space_def)
  show ?thesis
  proof (cases "n < 0")
    case True
    then show ?thesis using trim_solid [OF space] dig
      by (simp add: js_BigInt_string_def show_int_def radix_value_digits)
  next
    case False
    then have s: "show_int n = show_digits (nat n)" by (simp add: show_int_def)
    obtain c t where ct: "show_digits (nat n) = c # t" by (cases "show_digits (nat n)") auto
    then have c: "is_digit c" "list_all is_digit t" using dig [of "nat n"] by simp_all
    then have "c \<noteq> CHR ''-''" "c \<noteq> CHR ''+''" "t \<noteq> [] \<Longrightarrow> hd t \<notin> {CHR ''x'', CHR ''X'', CHR ''o'', CHR ''O'', CHR ''b'', CHR ''B''}"
      by (auto simp: is_digit_def list_all_iff dest!: hd_in_set)
    then have "js_BigInt_string (show_int n) = radix_value 10 (c # t)"
      using trim_solid [OF space] s ct by (auto simp: js_BigInt_string_def)
    also have "\<dots> = Some n" using radix_value_digits [OF dig [of "nat n"]] False by (simp add: ct [symmetric])
    finally show ?thesis .
  qed
qed

lemma traverse_map_Some: "(\<And>x. x \<in> set l \<Longrightarrow> f x = Some (g x)) \<Longrightarrow> traverse (map f l) = Some (map g l)"
  by (induction l) auto

lemma persisted_string [simp]: "persisted v = Jv_string s \<longleftrightarrow> v = Jv_string s"
  by (cases v) auto

text \<open>C29: what the outbox holds of a plain value is read back as the value, with its \<open>bigint\<close>s.\<close>

theorem payload_roundtrip: "if plain v then revived (persisted v) = Some v else True"
proof -
  have "plain v \<Longrightarrow> revived (persisted v) = Some v"
  proof (induction v rule: plain.induct)
    case (2 l)
    then have "traverse (map (\<lambda>x. revived (persisted x)) l) = Some (map id l)"
      by (intro traverse_map_Some) (simp add: list_all_iff)
    then show ?case by (simp add: comp_def decode_def)
  next
    case (3 fs)
    then have "traverse (map (\<lambda>(k, v). map_option (Pair k) (revived (persisted v))) fs) = Some (map id fs)"
      by (intro traverse_map_Some) (fastforce simp: list_all_iff)
    moreover have "decode (Jv_object fs) = Some (Jv_object fs)"
      using "3.prems" by (auto simp: decode_def split: list.splits jvalue.splits)
    ultimately show ?case by (simp add: comp_def split_def)
  qed (auto simp: decode_def BigInt_show_int)
  then show ?thesis by simp
qed

section \<open>A consumer handles a cursor once\<close>

lemma offset_upsert [simp]:
  "offset_of c (d\<lparr> eb_offsets := upsert k n (eb_offsets d) \<rparr>) = (if c = k then n else offset_of c d)"
  by (simp add: offset_of_def)

definition keeps_offsets :: "'w EventSub \<Rightarrow> bool" where
  "keeps_offsets s \<longleftrightarrow> (\<forall>e d. eb_offsets (snd (su_handler s e d)) = eb_offsets d)"

text \<open>
  \<open>process\<close> calls the consumer's handler: were it one that always fails, a failure would be counted.
  \<open>handled\<close>: it does, and the handler succeeds.
\<close>

definition calls_handler :: "SqliteBusConfig \<Rightarrow> 'w EventSub \<Rightarrow> StoredEvent \<Rightarrow> 'w EventDb \<Rightarrow> bool" where
  "calls_handler cfg s x d \<longleftrightarrow>
     (case find_where (retry_key (su_name s) (se_cursor x))
         (eb_retries (snd (process_event cfg (s\<lparr> su_handler := (\<lambda>_. throwE []) \<rparr>) x d))) of
        None \<Rightarrow> False | Some r \<Rightarrow> rt_attempts r > attempts_made (su_name s) (se_cursor x) d)"

definition handled :: "SqliteBusConfig \<Rightarrow> 'w EventSub \<Rightarrow> StoredEvent \<Rightarrow> 'w EventDb \<Rightarrow> bool" where
  "handled cfg s x d \<longleftrightarrow> calls_handler cfg s x d \<and>
     (case su_handler s (se_envelope x) d of (Inl _, _) \<Rightarrow> False | (Inr _, _) \<Rightarrow> True)"

lemma find_delete_where: "find_where P (delete_where P t) = None"
  by (auto simp: find_where_None exists_where_iff delete_where_def)

lemma calls_handler_only:
  assumes "calls_handler cfg s x d"
  shows "offset_of (su_name s) d < se_cursor x" "sub_matches s (se_envelope x)"
proof -
  show off: "offset_of (su_name s) d < se_cursor x"
    using assms
    by (auto simp: calls_handler_def process_event_def bindE_def getE_def returnE_def attempts_made_def split: if_splits option.splits)
  show "sub_matches s (se_envelope x)"
  proof (rule ccontr)
    assume "\<not> sub_matches s (se_envelope x)"
    then have "find_where (retry_key (su_name s) (se_cursor x)) (eb_retries (snd (process_event cfg (s\<lparr> su_handler := (\<lambda>_. throwE []) \<rparr>) x d))) = None"
      using off by (simp add: process_event_def process_commit_def eff_defs inbox_add_def set_offset_def clear_retry_def find_delete_where)
    then show False using assms by (simp add: calls_handler_def)
  qed
qed

lemma process_event_offsets:
  assumes h: "keeps_offsets s" and p: "process_event cfg s x d = (r, d')"
  shows "\<forall>c. c \<noteq> su_name s \<longrightarrow> offset_of c d' = offset_of c d"
    and "offset_of (su_name s) d' = offset_of (su_name s) d \<or> (offset_of (su_name s) d < se_cursor x \<and> offset_of (su_name s) d' = se_cursor x)"
    and "handled cfg s x d \<Longrightarrow> offset_of (su_name s) d < se_cursor x \<and> offset_of (su_name s) d' = se_cursor x"
proof -
  obtain q d1 where hd: "su_handler s (se_envelope x) d = (q, d1)" by fastforce
  then have o1: "eb_offsets d1 = eb_offsets d" using h unfolding keeps_offsets_def by (metis snd_conv)
  note defs = process_event_def process_commit_def process_failed_def eff_defs inbox_add_def set_offset_def clear_retry_def
    count_retry_def bury_def
  show "\<forall>c. c \<noteq> su_name s \<longrightarrow> offset_of c d' = offset_of c d"
    using p hd o1 by (auto simp: defs offset_of_def split: if_splits sum.splits prod.splits)
  show "offset_of (su_name s) d' = offset_of (su_name s) d \<or> (offset_of (su_name s) d < se_cursor x \<and> offset_of (su_name s) d' = se_cursor x)"
    using p hd o1 by (auto simp: defs offset_of_def split: if_splits sum.splits prod.splits)
  show "offset_of (su_name s) d < se_cursor x \<and> offset_of (su_name s) d' = se_cursor x" if "handled cfg s x d"
    using p hd o1 that calls_handler_only [of cfg s x d] by (auto simp: defs handled_def offset_of_def split: if_splits sum.splits prod.splits)
qed

text \<open>
  A history of one database: \<open>process\<close> calls of any consumers on any stored events, with handlers of
  any behaviour, and anything else that leaves the offsets alone: publications, subscriptions and
  the application's own statements. The list holds the consumer and the cursor of each handler run
  that was committed.
\<close>

inductive bus_history :: "SqliteBusConfig \<Rightarrow> 'w EventDb \<Rightarrow> 'w EventDb \<Rightarrow> (string \<times> int) list \<Rightarrow> bool" for cfg d0 where
  start: "bus_history cfg d0 d0 []"
| process: "bus_history cfg d0 d l \<Longrightarrow> keeps_offsets s \<Longrightarrow> process_event cfg s x d = (r, d') \<Longrightarrow>
    bus_history cfg d0 d' (if handled cfg s x d then l @ [(su_name s, se_cursor x)] else l)"
| other: "bus_history cfg d0 d l \<Longrightarrow> eb_offsets d' = eb_offsets d \<Longrightarrow> bus_history cfg d0 d' l"

definition cursors_of :: "string \<Rightarrow> (string \<times> int) list \<Rightarrow> int list" where
  "cursors_of c l = map snd (filter (\<lambda>e. fst e = c) l)"

lemma cursors_of_simps [simp]:
  "cursors_of c [] = []" "cursors_of c (l @ [(k, n)]) = (if k = c then cursors_of c l @ [n] else cursors_of c l)"
  by (simp_all add: cursors_of_def)

text \<open>
  C23: along every history of the database a consumer's committed handler runs are for strictly
  increasing cursors, none beyond its offset: no event takes effect twice for a consumer, whatever
  the handlers do to anything but the offsets table, however often \<open>publish\<close> and \<open>deliver\<close> offer it.
\<close>

theorem handled_once:
  assumes "bus_history cfg d0 d l"
  shows "sorted_wrt (<) (cursors_of c l) \<and> list_all (\<lambda>n. n \<le> offset_of c d) (cursors_of c l)"
  using assms
proof (induction rule: bus_history.induct)
  case (process d l s x r d')
  note off = process_event_offsets [OF process.hyps(2,3)]
  show ?case
  proof (cases "c = su_name s")
    case True
    then show ?thesis using off process.IH by (auto simp: sorted_wrt_append list_all_iff)
  next
    case False
    then show ?thesis using off(1) process.IH by auto
  qed
next
  case (other d l d')
  then show ?case by (simp add: offset_of_def)
qed simp

text \<open>Publications and deliveries are such histories.\<close>

lemma forE_history:
  assumes "\<And>x d l. x \<in> set xs \<Longrightarrow> bus_history cfg d0 d l \<Longrightarrow> \<exists>l'. bus_history cfg d0 (snd (f x d)) (l @ l')"
    and "bus_history cfg d0 d l"
  shows "\<exists>l'. bus_history cfg d0 (snd (forE xs f d)) (l @ l')"
  using assms
proof (induction xs arbitrary: d l)
  case Nil
  then show ?case by (auto simp: returnE_def intro: exI [of _ "[]"])
next
  case (Cons x xs)
  obtain r d' where fx: "f x d = (r, d')" by fastforce
  obtain l' where l': "bus_history cfg d0 d' (l @ l')" using Cons.prems(1) [of x, OF _ Cons.prems(2)] fx by auto
  show ?case
  proof (cases r)
    case (Inl e)
    then show ?thesis using fx l' by (auto simp: seqE_def bindE_def)
  next
    case (Inr u)
    obtain l'' where "bus_history cfg d0 (snd (forE xs f d')) ((l @ l') @ l'')"
      using Cons.IH [OF Cons.prems(1) l'] by auto
    then show ?thesis using fx Inr by (auto simp: seqE_def bindE_def)
  qed
qed

lemma process_history:
  assumes "bus_history cfg d0 d l" "keeps_offsets s"
  shows "\<exists>l'. bus_history cfg d0 (snd (process_event cfg s x d)) (l @ l')"
proof -
  obtain r d' where "process_event cfg s x d = (r, d')" by fastforce
  from bus_history.process [OF assms this] this show ?thesis
    by (cases "handled cfg s x d") (auto intro: exI [of _ "[]"])
qed

lemma deliver_to_Suc:
  "deliver_to (Suc n) cfg s d =
     (let rows = replay cfg (offset_of (su_name s) d) (Some (bc_batchSize cfg)) None None d in
      if rows = [] then (Inr True, d)
      else case forE rows (process_event cfg s) d of
          (Inl e, t) \<Rightarrow> (Inl e, t)
        | (Inr _, t) \<Rightarrow> if int (length rows) < bc_batchSize cfg then (Inr True, t) else deliver_to n cfg s t)"
  by (simp add: bindE_def getE_def seqE_def returnE_def Let_def split: prod.split sum.split)

lemma deliver_history:
  assumes "bus_history cfg d0 d l" "keeps_offsets s"
  shows "\<exists>l'. bus_history cfg d0 (snd (deliver_to n cfg s d)) (l @ l')"
  using assms(1)
proof (induction n arbitrary: d l)
  case 0
  then show ?case by (auto simp: returnE_def intro: exI [of _ "[]"])
next
  case (Suc n)
  define rows where "rows = replay cfg (offset_of (su_name s) d) (Some (bc_batchSize cfg)) None None d"
  obtain r d' where f: "forE rows (process_event cfg s) d = (r, d')" by fastforce
  obtain l' where l': "bus_history cfg d0 d' (l @ l')"
    using forE_history [of rows cfg d0 "process_event cfg s" d l, OF process_history Suc.prems] assms(2) f by auto
  obtain l'' where "bus_history cfg d0 (snd (deliver_to n cfg s d')) ((l @ l') @ l'')" using Suc.IH [OF l'] by blast
  then show ?case using f l' Suc.prems
    by (cases r) (auto simp: deliver_to_Suc rows_def Let_def simp del: deliver_to.simps intro: exI [of _ "[]"])
qed

definition quietly :: "('w, unit) dbop \<Rightarrow> ('w SqliteBus, string, unit) eff" where
  "quietly m = catchE (busE m) (\<lambda>_. returnE ())"

lemma publish_history:
  assumes "bus_history cfg d0 (bu_db b) l" "list_all keeps_offsets (bu_subs b)"
  shows "\<exists>l'. bus_history cfg d0 (bu_db (snd (publish cfg e b))) (l @ l')"
proof -
  have step: "\<exists>l'. bus_history cfg d0 (bu_db (snd (quietly (process_event cfg s x) b'))) (l @ l')"
    if "bus_history cfg d0 (bu_db b') l" "keeps_offsets s" for s x and b' :: "'a SqliteBus" and l
    using process_history [OF that, of x]
    by (auto simp: quietly_def catchE_def busE_def returnE_def split: prod.split sum.split)
  have loop: "\<exists>l'. bus_history cfg d0 (bu_db (snd (forE ss (\<lambda>s. quietly (process_event cfg s x)) b'))) (l @ l')"
    if "bus_history cfg d0 (bu_db b') l" "list_all keeps_offsets ss" for ss x and b' :: "'a SqliteBus" and l
    using that
  proof (induction ss arbitrary: b' l)
    case Nil
    then show ?case by (auto simp: returnE_def intro: exI [of _ "[]"])
  next
    case (Cons s ss)
    obtain r b1 where c: "quietly (process_event cfg s x) b' = (r, b1)" by fastforce
    then obtain l' where l': "bus_history cfg d0 (bu_db b1) (l @ l')" using step [OF Cons.prems(1), of s x] Cons.prems by auto
    then show ?case using Cons.IH [OF l'] Cons.prems c
      by (cases r) (auto simp: seqE_def bindE_def)
  qed
  have insert: "bus_history cfg d0 (snd (insert_outbox cfg e' d)) l" if "bus_history cfg d0 d l" for e' d l
    using that by (auto simp: insert_outbox_def modifyE_def intro: bus_history.other)
  show ?thesis
  proof (cases "normalize cfg e")
    case (Inl x)
    then show ?thesis using assms(1) by (auto simp: publish_def bindE_def liftE_def intro: exI [of _ "[]"])
  next
    case (Inr e')
    define b' where "b' = snd (busE (insert_outbox cfg e') b)"
    have b': "busE (insert_outbox cfg e') b = (Inr (), b')" "bu_subs b' = bu_subs b" "bus_history cfg d0 (bu_db b') l"
      using insert [OF assms(1), of e'] by (auto simp: b'_def busE_def insert_outbox_def modifyE_def)
    show ?thesis
    proof (cases "outbox_row (ev_id e') (bu_db b')")
      case None
      then show ?thesis using Inr b'
        by (auto simp: publish_def bindE_def liftE_def seqE_def getE_def throwE_def intro: exI [of _ "[]"])
    next
      case (Some row)
      define x where "x = \<lparr> se_cursor = ob_cursor row, se_envelope = e' \<rparr>"
      obtain r b2 where f: "forE (bu_subs b') (\<lambda>s. quietly (process_event cfg s x)) b' = (r, b2)" by fastforce
      obtain l' where "bus_history cfg d0 (bu_db b2) (l @ l')" using loop [OF b'(3) assms(2), of x] f b'(2) by auto
      moreover have "snd (publish cfg e b) = b2"
        using Inr b'(1) Some f
        by (cases r) (simp_all add: publish_def quietly_def x_def [symmetric] bindE_def liftE_def seqE_def
            getE_def returnE_def)
      ultimately show ?thesis by auto
    qed
  qed
qed

section \<open>Retries and dead letters\<close>

text \<open>\<open>k\<close> offers of one event to one consumer, as \<open>publish\<close> and \<open>deliver\<close> make them; an offer that fails is offered again.\<close>

fun offers :: "nat \<Rightarrow> SqliteBusConfig \<Rightarrow> 'w EventSub \<Rightarrow> StoredEvent \<Rightarrow> 'w EventDb \<Rightarrow> 'w EventDb" where
  "offers 0 cfg s x d = d"
| "offers (Suc k) cfg s x d = snd (process_event cfg s x (offers k cfg s x d))"

definition poison :: "'w EventSub \<Rightarrow> StoredEvent \<Rightarrow> string \<Rightarrow> bool" where
  "poison s x msg \<longleftrightarrow> sub_matches s (se_envelope x) \<and> (\<forall>d. fst (su_handler s (se_envelope x) d) = Inl msg)"

lemma attempts_after_count:
  "attempts_made c n (d\<lparr> eb_retries := (if exists_where (retry_key c n) t
     then update_where (retry_key c n) (\<lambda>r. r\<lparr> rt_attempts := rt_attempts r + 1, rt_last_error := msg \<rparr>) t
     else t @ [\<lparr> rt_consumer = c, rt_cursor = n, rt_attempts = 1, rt_last_error = msg \<rparr>]) \<rparr>) =
   (case find_where (retry_key c n) t of None \<Rightarrow> 0 | Some r \<Rightarrow> rt_attempts r) + 1"
proof (induction t)
  case (Cons r t)
  then show ?case by (auto simp: attempts_made_def retry_key_def split: if_splits option.splits)
qed (simp add: attempts_made_def retry_key_def)

text \<open>What a failing offer leaves of the database.\<close>

lemma poison_offer:
  assumes "poison s x msg" "offset_of (su_name s) d < se_cursor x" "process_event cfg s x d = (r, d')"
  shows "attempts_made (su_name s) (se_cursor x) d' = attempts_made (su_name s) (se_cursor x) d + 1"
    and "eb_app d' = eb_app d" "eb_outbox d' = eb_outbox d" "eb_inbox d' = eb_inbox d"
    and "attempts_made (su_name s) (se_cursor x) d + 1 < bc_maxAttempts cfg \<Longrightarrow>
      r = Inl msg \<and> eb_offsets d' = eb_offsets d \<and> eb_dead d' = eb_dead d"
    and "bc_maxAttempts cfg \<le> attempts_made (su_name s) (se_cursor x) d + 1 \<Longrightarrow>
      r = Inr () \<and> offset_of (su_name s) d' = se_cursor x \<and>
      exists_where (\<lambda>l. dl_consumer l = su_name s \<and> dl_cursor l = se_cursor x) (eb_dead d')"
proof -
  define d1 where "d1 = snd (count_retry (su_name s) (se_cursor x) msg d)"
  have d1: "attempts_made (su_name s) (se_cursor x) d1 = attempts_made (su_name s) (se_cursor x) d + 1"
    "eb_app d1 = eb_app d" "eb_outbox d1 = eb_outbox d" "eb_inbox d1 = eb_inbox d" "eb_offsets d1 = eb_offsets d" "eb_dead d1 = eb_dead d"
    using attempts_after_count [where c = "su_name s" and n = "se_cursor x" and d = d and t = "eb_retries d" and msg = msg]
    by (simp_all add: d1_def count_retry_def modifyE_def attempts_made_def)
  obtain t where h: "su_handler s (se_envelope x) d = (Inl msg, t)" and m: "sub_matches s (se_envelope x)"
    using assms(1) unfolding poison_def by (metis prod.collapse)
  have commit: "transactionE (process_commit s x) d = (Inl msg, d)"
    using h m by (simp add: transactionE_def process_commit_def whenE_def seqE_def bindE_def)
  have run: "process_event cfg s x d = process_failed cfg s x msg d"
    using commit assms(2) by (simp add: process_event_def bindE_def getE_def catchE_def)
  have count: "count_retry (su_name s) (se_cursor x) msg d = (Inr (), d1)"
    by (simp add: d1_def count_retry_def modifyE_def)
  have failed: "process_failed cfg s x msg d =
      (if bc_maxAttempts cfg \<le> attempts_made (su_name s) (se_cursor x) d + 1
       then (Inr (), snd (seqE (bury (su_name s) (se_cursor x) (ev_id (se_envelope x)) msg) (set_offset (su_name s) (se_cursor x)) d1))
       else (Inl msg, d1))"
    using count d1(1)
    by (simp add: process_failed_def seqE_def bindE_def getE_def transactionE_def bury_def set_offset_def modifyE_def throwE_def)
  have attempts_bury: "attempts_made c n (snd (seqE (bury a b i msg) (set_offset a b) d1)) = attempts_made c n d1" for a b c n i
    by (simp add: seqE_def bindE_def bury_def set_offset_def modifyE_def attempts_made_def)
  show "attempts_made (su_name s) (se_cursor x) d' = attempts_made (su_name s) (se_cursor x) d + 1"
    using assms(3) d1(1) attempts_bury by (auto simp: run failed split: if_splits)
  show "eb_app d' = eb_app d" "eb_outbox d' = eb_outbox d" "eb_inbox d' = eb_inbox d"
    using assms(3) d1 by (auto simp: run failed seqE_def bindE_def bury_def set_offset_def modifyE_def split: if_splits)
  show "r = Inl msg \<and> eb_offsets d' = eb_offsets d \<and> eb_dead d' = eb_dead d"
    if "attempts_made (su_name s) (se_cursor x) d + 1 < bc_maxAttempts cfg"
    using assms(3) d1 that by (auto simp: run failed split: if_splits)
  show "r = Inr () \<and> offset_of (su_name s) d' = se_cursor x \<and>
      exists_where (\<lambda>l. dl_consumer l = su_name s \<and> dl_cursor l = se_cursor x) (eb_dead d')"
    if "bc_maxAttempts cfg \<le> attempts_made (su_name s) (se_cursor x) d + 1"
    using assms(3) that
    by (auto simp: run failed seqE_def bindE_def bury_def set_offset_def modifyE_def offset_of_def split: if_splits)
qed

text \<open>
  What may happen to the database between two offers: anything that leaves the consumer's retries of the
  event as they are and its offset before it. A publication does, and so does the processing of other
  consumers; a delivery to the consumer itself stops at the failing event. The consumer's processing of a
  later event does not.
\<close>

definition holds_back :: "'w EventSub \<Rightarrow> StoredEvent \<Rightarrow> ('w EventDb \<Rightarrow> 'w EventDb) \<Rightarrow> bool" where
  "holds_back s x f \<longleftrightarrow> (\<forall>d. offset_of (su_name s) d < se_cursor x \<longrightarrow> offset_of (su_name s) (f d) < se_cursor x \<and>
     attempts_made (su_name s) (se_cursor x) (f d) = attempts_made (su_name s) (se_cursor x) d)"

lemma publication_holds_back: "holds_back s x (\<lambda>d. snd (insert_outbox cfg e d))"
  by (simp add: holds_back_def insert_outbox_def modifyE_def offset_of_def attempts_made_def)

lemma find_other_update:
  "(\<And>r. Q r \<Longrightarrow> \<not> P r \<and> \<not> P (f r)) \<Longrightarrow> find_where P (update_where Q f t) = find_where P t"
  by (induction t) auto

lemma find_other_delete: "(\<And>r. Q r \<Longrightarrow> \<not> P r) \<Longrightarrow> find_where P (delete_where Q t) = find_where P t"
  by (induction t) (auto simp: delete_where_def)

lemma find_other_append: "\<not> P r \<Longrightarrow> find_where P (t @ [r]) = find_where P t"
  by (induction t) auto

lemma find_other_consumer:
  assumes "c' \<noteq> c"
  shows "find_where (retry_key c n) (delete_where (retry_key c' m) t) = find_where (retry_key c n) t"
    "find_where (retry_key c n) (update_where (retry_key c' m) (\<lambda>r. r\<lparr> rt_attempts := rt_attempts r + 1, rt_last_error := msg \<rparr>) t) =
       find_where (retry_key c n) t"
    "find_where (retry_key c n) (t @ [\<lparr> rt_consumer = c', rt_cursor = m, rt_attempts = k, rt_last_error = msg \<rparr>]) =
       find_where (retry_key c n) t"
  using assms by (auto intro!: find_other_delete find_other_update find_other_append simp: retry_key_def)

lemma other_consumer_holds_back:
  assumes "su_name q \<noteq> su_name s" "\<And>e d. eb_offsets (snd (su_handler q e d)) = eb_offsets d \<and> eb_retries (snd (su_handler q e d)) = eb_retries d"
  shows "holds_back s x (\<lambda>d. snd (process_event cfg q y d))"
proof -
  have k: "keeps_offsets q" using assms(2) by (simp add: keeps_offsets_def)
  have key: "retry_key (su_name q) n r \<Longrightarrow> \<not> retry_key (su_name s) m r" for n m r using assms(1) by (auto simp: retry_key_def)
  have "attempts_made (su_name s) (se_cursor x) (snd (process_event cfg q y d)) = attempts_made (su_name s) (se_cursor x) d" for d
  proof -
    obtain r d1 where h: "su_handler q (se_envelope y) d = (r, d1)" by fastforce
    then have "eb_retries d1 = eb_retries d" using assms(2) by (metis snd_conv)
    then show ?thesis using h assms(1)
      by (auto simp: process_event_def process_commit_def process_failed_def eff_defs inbox_add_def set_offset_def clear_retry_def
          count_retry_def bury_def attempts_made_def find_other_consumer
          split: sum.splits prod.splits)
  qed
  moreover have "offset_of (su_name s) (snd (process_event cfg q y d)) = offset_of (su_name s) d" for d
    using process_event_offsets(1) [OF k, of cfg y d] assms(1) by (metis prod.collapse)
  ultimately show ?thesis by (simp add: holds_back_def)
qed

lemma delivery_stops:
  assumes "replay cfg (offset_of (su_name s) d) (Some (bc_batchSize cfg)) None None d = x # xs" "process_event cfg s x d = (Inl m, d')"
  shows "deliver_to (Suc n) cfg s d = (Inl m, d')"
  using assms by (simp add: deliver_to_Suc seqE_def bindE_def del: deliver_to.simps)

text \<open>The database just before offer \<open>k\<close> of one event, where \<open>g k\<close> is what happens before it.\<close>

fun before_offer :: "(nat \<Rightarrow> 'w EventDb \<Rightarrow> 'w EventDb) \<Rightarrow> SqliteBusConfig \<Rightarrow> 'w EventSub \<Rightarrow> StoredEvent \<Rightarrow> 'w EventDb \<Rightarrow> nat \<Rightarrow> 'w EventDb" where
  "before_offer g cfg s x d 0 = g 0 d"
| "before_offer g cfg s x d (Suc k) = g (Suc k) (snd (process_event cfg s x (before_offer g cfg s x d k)))"

lemma before_offer_attempts:
  assumes "poison s x msg" "offset_of (su_name s) d < se_cursor x" "attempts_made (su_name s) (se_cursor x) d = 0"
    "\<And>i. holds_back s x (g i)" "int k < bc_maxAttempts cfg"
  shows "offset_of (su_name s) (before_offer g cfg s x d k) < se_cursor x \<and>
    attempts_made (su_name s) (se_cursor x) (before_offer g cfg s x d k) = int k"
  using assms(5)
proof (induction k)
  case 0
  then show ?case using assms(2-4) by (simp add: holds_back_def)
next
  case (Suc k)
  obtain r d' where p: "process_event cfg s x (before_offer g cfg s x d k) = (r, d')" by fastforce
  have IH: "offset_of (su_name s) (before_offer g cfg s x d k) < se_cursor x"
    "attempts_made (su_name s) (se_cursor x) (before_offer g cfg s x d k) = int k" using Suc by simp_all
  note off = poison_offer [OF assms(1) IH(1) p]
  have "eb_offsets d' = eb_offsets (before_offer g cfg s x d k)" using off(5) IH(2) Suc.prems by simp
  then have "offset_of (su_name s) d' < se_cursor x" using IH(1) by (simp add: offset_of_def)
  then show ?case using assms(4) [of "Suc k"] off(1) IH(2) p by (simp add: holds_back_def)
qed

text \<open>
  C28: an event on which a consumer's handler always fails, not yet tried, is offered \<open>maxAttempts\<close> times,
  as long as between the offers nothing moves the consumer's offset to it or touches its retries: each
  offer before the last fails, is counted and leaves the application, the inbox, the offsets and the dead
  letters as it found them; the last one buries the event, passes the offset over it and leaves the
  application and the inbox as it found them; a further offer does nothing.
\<close>

theorem poison_dead_lettered:
  assumes "poison s x msg" "offset_of (su_name s) d < se_cursor x" "attempts_made (su_name s) (se_cursor x) d = 0"
    "1 \<le> bc_maxAttempts cfg" "\<And>i. holds_back s x (g i)"
  shows "list_all (\<lambda>k. case process_event cfg s x (before_offer g cfg s x d k) of (r, t) \<Rightarrow>
       r = Inl msg \<and> attempts_made (su_name s) (se_cursor x) t = int k + 1 \<and>
       eb_app t = eb_app (before_offer g cfg s x d k) \<and> eb_inbox t = eb_inbox (before_offer g cfg s x d k) \<and>
       eb_offsets t = eb_offsets (before_offer g cfg s x d k) \<and> eb_dead t = eb_dead (before_offer g cfg s x d k))
       [0..<nat (bc_maxAttempts cfg) - 1] \<and>
    (let u = before_offer g cfg s x d (nat (bc_maxAttempts cfg) - 1) in
     case process_event cfg s x u of (r, t) \<Rightarrow>
       r = Inr () \<and> exists_where (\<lambda>l. dl_consumer l = su_name s \<and> dl_cursor l = se_cursor x) (eb_dead t) \<and>
       offset_of (su_name s) t = se_cursor x \<and> eb_app t = eb_app u \<and> eb_inbox t = eb_inbox u \<and>
       process_event cfg s x t = (Inr (), t))"
proof
  note before = before_offer_attempts [where cfg = cfg and g = g, OF assms(1-3,5)]
  show "list_all (\<lambda>k. case process_event cfg s x (before_offer g cfg s x d k) of (r, t) \<Rightarrow>
       r = Inl msg \<and> attempts_made (su_name s) (se_cursor x) t = int k + 1 \<and>
       eb_app t = eb_app (before_offer g cfg s x d k) \<and> eb_inbox t = eb_inbox (before_offer g cfg s x d k) \<and>
       eb_offsets t = eb_offsets (before_offer g cfg s x d k) \<and> eb_dead t = eb_dead (before_offer g cfg s x d k))
       [0..<nat (bc_maxAttempts cfg) - 1]"
    unfolding list_all_iff
  proof
    fix k assume k: "k \<in> set [0..<nat (bc_maxAttempts cfg) - 1]"
    obtain r t where p: "process_event cfg s x (before_offer g cfg s x d k) = (r, t)" by fastforce
    have b: "offset_of (su_name s) (before_offer g cfg s x d k) < se_cursor x"
      "attempts_made (su_name s) (se_cursor x) (before_offer g cfg s x d k) = int k" using before [of k] k by auto
    have "int k + 1 < bc_maxAttempts cfg" using k by auto
    then show "case process_event cfg s x (before_offer g cfg s x d k) of (r, t) \<Rightarrow>
       r = Inl msg \<and> attempts_made (su_name s) (se_cursor x) t = int k + 1 \<and>
       eb_app t = eb_app (before_offer g cfg s x d k) \<and> eb_inbox t = eb_inbox (before_offer g cfg s x d k) \<and>
       eb_offsets t = eb_offsets (before_offer g cfg s x d k) \<and> eb_dead t = eb_dead (before_offer g cfg s x d k)"
      using poison_offer [OF assms(1) b(1) p] b(2) p by simp
  qed
  define u where "u = before_offer g cfg s x d (nat (bc_maxAttempts cfg) - 1)"
  obtain r t where p: "process_event cfg s x u = (r, t)" by fastforce
  have b: "offset_of (su_name s) u < se_cursor x" "attempts_made (su_name s) (se_cursor x) u + 1 = bc_maxAttempts cfg"
    using before [of "nat (bc_maxAttempts cfg) - 1"] assms(4) by (simp_all add: u_def)
  note buried = poison_offer [OF assms(1) b(1) p]
  have over: "r = Inr ()" "offset_of (su_name s) t = se_cursor x"
    "exists_where (\<lambda>l. dl_consumer l = su_name s \<and> dl_cursor l = se_cursor x) (eb_dead t)"
    using buried(6) b(2) by simp_all
  have "process_event cfg s x t = (Inr (), t)"
    using over(2) by (simp add: process_event_def bindE_def getE_def returnE_def)
  then show "let u = before_offer g cfg s x d (nat (bc_maxAttempts cfg) - 1) in
     case process_event cfg s x u of (r, t) \<Rightarrow>
       r = Inr () \<and> exists_where (\<lambda>l. dl_consumer l = su_name s \<and> dl_cursor l = se_cursor x) (eb_dead t) \<and>
       offset_of (su_name s) t = se_cursor x \<and> eb_app t = eb_app u \<and> eb_inbox t = eb_inbox u \<and>
       process_event cfg s x t = (Inr (), t)"
    unfolding u_def [symmetric] Let_def using buried(2,4) over p by simp
qed

section \<open>Working off the backlog\<close>

text \<open>A handler that never fails and writes only the application's tables, as \<open>h\<close> says.\<close>

definition clean :: "'w EventSub \<Rightarrow> (EventEnvelope \<Rightarrow> 'w \<Rightarrow> 'w) \<Rightarrow> bool" where
  "clean s h \<longleftrightarrow> (\<forall>e d. su_handler s e d = (Inr (), d\<lparr> eb_app := h e (eb_app d) \<rparr>))"

text \<open>The reference: every matching event applied to the application, in order.\<close>

definition work :: "'w EventSub \<Rightarrow> (EventEnvelope \<Rightarrow> 'w \<Rightarrow> 'w) \<Rightarrow> StoredEvent \<Rightarrow> 'w \<Rightarrow> 'w" where
  "work s h x w = (if sub_matches s (se_envelope x) then h (se_envelope x) w else w)"

definition pending :: "'w EventSub \<Rightarrow> 'w EventDb \<Rightarrow> OutboxRow list" where
  "pending s d = filter (\<lambda>r. ob_cursor r > offset_of (su_name s) d) (eb_outbox d)"

definition outbox_ordered :: "'w EventDb \<Rightarrow> bool" where
  "outbox_ordered d \<longleftrightarrow> sorted_wrt (<) (map ob_cursor (eb_outbox d)) \<and> list_all (\<lambda>r. ob_cursor r \<le> eb_sequence d) (eb_outbox d)"

lemma insert_outbox_ordered: "outbox_ordered d \<Longrightarrow> outbox_ordered (snd (insert_outbox cfg e d))"
  by (auto simp: outbox_ordered_def insert_outbox_def modifyE_def sorted_wrt_append list_all_iff)

text \<open>What the work on some events leaves of the database.\<close>

definition worked :: "'w EventSub \<Rightarrow> (EventEnvelope \<Rightarrow> 'w \<Rightarrow> 'w) \<Rightarrow> StoredEvent list \<Rightarrow> 'w EventDb \<Rightarrow> 'w EventDb \<Rightarrow> bool" where
  "worked s h xs d d' \<longleftrightarrow> eb_app d' = fold (work s h) xs (eb_app d) \<and>
     offset_of (su_name s) d' = (if xs = [] then offset_of (su_name s) d else se_cursor (last xs)) \<and>
     eb_outbox d' = eb_outbox d \<and> eb_sequence d' = eb_sequence d \<and> eb_dead d' = eb_dead d"

lemma worked_append: "worked s h xs d d1 \<Longrightarrow> worked s h ys d1 d2 \<Longrightarrow> worked s h (xs @ ys) d d2"
  by (auto simp: worked_def)

lemma process_clean:
  assumes "clean s h" "offset_of (su_name s) d < se_cursor x"
  shows "\<exists>d'. process_event cfg s x d = (Inr (), d') \<and> worked s h [x] d d'"
  using assms
  by (auto simp: clean_def worked_def work_def process_event_def process_commit_def inbox_add_def set_offset_def clear_retry_def
      eff_defs offset_of_def split: if_splits)

lemma process_all_clean:
  assumes "clean s h" "sorted_wrt (<) (map se_cursor xs)" "list_all (\<lambda>x. offset_of (su_name s) d < se_cursor x) xs"
  shows "\<exists>d'. forE xs (process_event cfg s) d = (Inr (), d') \<and> worked s h xs d d'"
  using assms(2,3)
proof (induction xs arbitrary: d)
  case (Cons x xs)
  obtain d1 where d1: "process_event cfg s x d = (Inr (), d1)" "worked s h [x] d d1"
    using process_clean [OF assms(1)] Cons.prems by fastforce
  then have "list_all (\<lambda>y. offset_of (su_name s) d1 < se_cursor y) xs"
    using Cons.prems by (auto simp: worked_def list_all_iff)
  then obtain d2 where "forE xs (process_event cfg s) d1 = (Inr (), d2)" "worked s h xs d1 d2"
    using Cons.IH Cons.prems by auto
  then show ?case using d1 worked_append [OF d1(2)] by (auto simp: seqE_def bindE_def)
qed (simp add: worked_def returnE_def)

lemma read_row_cursor: "read_row cfg r = Some x \<Longrightarrow> se_cursor x = ob_cursor r"
  by (auto simp: read_row_def split: option.splits sum.splits)

lemma map_filter_readable:
  "list_all (\<lambda>r. f r \<noteq> None) l \<Longrightarrow> List.map_filter f l = map (the \<circ> f) l"
  by (induction l) (auto simp: map_filter_simps split: option.splits)

text \<open>One batch of a delivery, when every pending row can be read.\<close>

lemma replay_pending:
  assumes "outbox_ordered d" "list_all (\<lambda>r. read_row cfg r \<noteq> None) (pending s d)" "1 \<le> bc_batchSize cfg" "bc_batchSize cfg \<le> 1000"
  shows "replay cfg (offset_of (su_name s) d) (Some (bc_batchSize cfg)) None None d =
    take (nat (bc_batchSize cfg)) (map (the \<circ> read_row cfg) (pending s d))"
proof -
  have "sorted (map ob_cursor (pending s d))"
    using assms(1) unfolding outbox_ordered_def pending_def
    by (metis (no_types, lifting) sorted_filter strict_sorted_imp_sorted)
  then have "sort_key ob_cursor (pending s d) = pending s d" by (rule sort_key_id_if_sorted)
  moreover have "replay_limit cfg (Some (bc_batchSize cfg)) = nat (bc_batchSize cfg)" using assms(3,4) by (simp add: replay_limit_def)
  moreover have "list_all (\<lambda>r. read_row cfg r \<noteq> None) (take n (pending s d))" for n
    using assms(2) by (auto simp: list_all_iff dest: in_set_takeD)
  ultimately show ?thesis
    by (simp add: replay_def matches_def pending_def [symmetric] map_filter_readable take_map)
qed

lemma pending_cursors:
  assumes "outbox_ordered d" "list_all (\<lambda>r. read_row cfg r \<noteq> None) (pending s d)"
  shows "map se_cursor (map (the \<circ> read_row cfg) (pending s d)) = map ob_cursor (pending s d)"
    "sorted_wrt (<) (map ob_cursor (pending s d))"
proof -
  show "map se_cursor (map (the \<circ> read_row cfg) (pending s d)) = map ob_cursor (pending s d)"
    using assms(2) by (auto simp: list_all_iff intro!: read_row_cursor)
  show "sorted_wrt (<) (map ob_cursor (pending s d))"
    using assms(1) by (auto simp: outbox_ordered_def pending_def sorted_wrt_map intro: sorted_wrt_filter)
qed

lemma filter_after_prefix:
  fixes f :: "'a \<Rightarrow> int"
  assumes "sorted_wrt (<) (map f (xs @ ys))" "xs \<noteq> []"
  shows "filter (\<lambda>r. f r > f (last xs)) (xs @ ys) = ys"
proof -
  have "\<forall>x \<in> set xs. f x \<le> f (last xs)"
    using assms by (cases xs rule: rev_cases) (auto simp: sorted_wrt_append)
  then have "filter (\<lambda>r. f r > f (last xs)) xs = []" by (auto simp: filter_empty_conv)
  moreover have "\<forall>y \<in> set ys. f y > f (last xs)" using assms by (auto simp: sorted_wrt_append)
  ultimately show ?thesis by simp
qed

lemma pending_after:
  assumes "worked s h (map (the \<circ> read_row cfg) xs) d d1" "pending s d = xs @ ys" "outbox_ordered d"
    "list_all (\<lambda>r. read_row cfg r \<noteq> None) (pending s d)" "xs \<noteq> []"
  shows "pending s d1 = ys"
proof -
  have "last xs \<in> set (pending s d)" using assms(2,5) by simp
  then have cur: "ob_cursor (last xs) > offset_of (su_name s) d" "read_row cfg (last xs) \<noteq> None"
    using assms(4) by (auto simp: pending_def list_all_iff)
  have off: "offset_of (su_name s) d1 = ob_cursor (last xs)"
    using assms(1,5) cur(2) by (auto simp: worked_def last_map read_row_cursor)
  have "pending s d1 = filter (\<lambda>r. ob_cursor r > ob_cursor (last xs)) (pending s d)"
    using off cur(1) assms(1) by (auto simp: pending_def worked_def intro!: filter_cong)
  then show ?thesis
    using filter_after_prefix [of ob_cursor xs ys] pending_cursors(2) [OF assms(3,4)] assms(2,5) by simp
qed

text \<open>
  C24: when a consumer's handler never fails and writes only the application's tables, every pending row of
  the ordered outbox can be read, and the batch size is from 1 to 1000, a delivery to it ends within one
  round per pending event and leaves the application as applying every matching pending event once, in the
  order of the outbox, leaves it; no event is left pending and no dead letter is written. Unreadable rows
  and larger batches do end a delivery early (\<open>unreadable_batch_stalls\<close>, \<open>large_batches_stop_early\<close>).
\<close>

theorem backlog_in_order:
  assumes "clean s h" "outbox_ordered d" "list_all (\<lambda>r. read_row cfg r \<noteq> None) (pending s d)"
    "1 \<le> bc_batchSize cfg" "bc_batchSize cfg \<le> 1000" "length (pending s d) < n"
  shows "case deliver_to n cfg s d of (r, d') \<Rightarrow> r = Inr True \<and> pending s d' = [] \<and> eb_dead d' = eb_dead d \<and>
    eb_app d' = fold (work s h) (map (the \<circ> read_row cfg) (pending s d)) (eb_app d)"
  using assms(2,3,6)
proof (induction n arbitrary: d)
  case (Suc n)
  define b where "b = nat (bc_batchSize cfg)"
  define xs where "xs = take b (pending s d)"
  define ys where "ys = drop b (pending s d)"
  have split: "pending s d = xs @ ys" by (simp add: xs_def ys_def)
  have rows: "replay cfg (offset_of (su_name s) d) (Some (bc_batchSize cfg)) None None d = map (the \<circ> read_row cfg) xs"
    using replay_pending [OF Suc.prems(1,2) assms(4,5)] by (simp add: xs_def b_def take_map)
  show ?case
  proof (cases "xs = []")
    case True
    then have "pending s d = []" using assms(4) by (auto simp: xs_def b_def)
    then show ?thesis using True rows by (simp add: deliver_to_Suc comp_def del: deliver_to.simps)
  next
    case False
    have cursors: "map (se_cursor \<circ> (the \<circ> read_row cfg)) xs = map ob_cursor xs"
      using Suc.prems(2) by (auto simp: split list_all_iff intro!: read_row_cursor)
    have up: "sorted_wrt (<) (map ob_cursor xs)"
      using pending_cursors(2) [OF Suc.prems(1,2)] by (simp add: split sorted_wrt_append)
    have above: "\<forall>r \<in> set xs. offset_of (su_name s) d < ob_cursor r"
    proof
      fix r assume "r \<in> set xs"
      then have "r \<in> set (pending s d)" by (simp add: split)
      then show "offset_of (su_name s) d < ob_cursor r" by (simp add: pending_def)
    qed
    have "list_all (\<lambda>x. offset_of (su_name s) d < se_cursor x) (map (the \<circ> read_row cfg) xs)"
      using above cursors by (auto simp: list_all_iff)
    then obtain d1 where d1: "forE (map (the \<circ> read_row cfg) xs) (process_event cfg s) d = (Inr (), d1)"
        "worked s h (map (the \<circ> read_row cfg) xs) d d1"
      using process_all_clean [OF assms(1), of "map (the \<circ> read_row cfg) xs" d cfg] up cursors by auto
    have p1: "pending s d1 = ys" by (rule pending_after [OF d1(2) split Suc.prems(1,2) False])
    have out: "outbox_ordered d1" using d1(2) Suc.prems(1) by (simp add: worked_def outbox_ordered_def)
    have dead: "eb_dead d1 = eb_dead d" "eb_app d1 = fold (work s h) (map (the \<circ> read_row cfg) xs) (eb_app d)"
      using d1(2) by (simp_all add: worked_def)
    show ?thesis
    proof (cases "int (length xs) < bc_batchSize cfg")
      case True
      then have "ys = []" using assms(4) by (auto simp: xs_def ys_def b_def)
      then show ?thesis using True False rows d1(1) p1 dead split
        by (simp add: deliver_to_Suc comp_def del: deliver_to.simps)
    next
      case False': False
      have "length (pending s d1) < n" "list_all (\<lambda>r. read_row cfg r \<noteq> None) (pending s d1)"
        using Suc.prems(2,3) False by (cases xs; simp add: p1 split)+
      note rest = Suc.IH [OF out this(2,1)]
      then show ?thesis using False False' rows d1(1) p1 dead split
        by (simp add: deliver_to_Suc comp_def del: deliver_to.simps split: prod.splits)
    qed
  qed
qed simp

section \<open>Where events are lost\<close>

lemma process_success_offset:
  assumes "keeps_offsets s" "process_event cfg s y d = (Inr u, d')"
  shows "se_cursor y \<le> offset_of (su_name s) d'"
proof -
  obtain q d1 where hd: "su_handler s (se_envelope y) d = (q, d1)" by fastforce
  then have "eb_offsets d1 = eb_offsets d" using assms(1) unfolding keeps_offsets_def by (metis snd_conv)
  then show ?thesis using assms(2) hd
    by (auto simp: process_event_def process_commit_def process_failed_def eff_defs inbox_add_def set_offset_def clear_retry_def
        count_retry_def bury_def offset_of_def split: if_splits sum.splits prod.splits)
qed

lemma failure_keeps_dead:
  assumes "process_event cfg s x d = (Inl m, d')"
  shows "eb_dead d' = eb_dead d"
  using assms
  by (auto simp: process_event_def process_failed_def eff_defs count_retry_def bury_def set_offset_def
      split: if_splits sum.splits prod.splits)

text \<open>
  C26: an event whose handler failed, leaving the offsets table alone, is neither retried nor buried once the consumer got past a later
  event: \<open>publish\<close> offers each event at once and ignores a failure, so the next published event moves the
  offset over the failed one, and every later offer of it does nothing.
\<close>

theorem overtaken_event_lost:
  assumes "keeps_offsets s" "process_event cfg s x d = (Inl m, d1)" "process_event cfg s y d1 = (Inr u, d2)"
    "se_cursor x < se_cursor y"
  shows "eb_dead d1 = eb_dead d \<and> offers k cfg s x d2 = d2 \<and>
    list_all (\<lambda>r. ob_cursor r \<noteq> se_cursor x) (pending s d2)"
proof -
  have past: "se_cursor x < offset_of (su_name s) d2" using process_success_offset [OF assms(1,3)] assms(4) by simp
  have "offers k cfg s x d2 = d2"
    using past by (induction k) (simp_all add: process_event_def bindE_def getE_def returnE_def)
  then show ?thesis using failure_keeps_dead [OF assms(2)] past by (auto simp: pending_def list_all_iff)
qed

text \<open>
  A publication made while a handler of the same bus is awaited joins the handler's transaction: when
  the handler then fails, the row is rolled back and its number goes to the next event.
\<close>

lemma publication_rolled_back:
  assumes "su_handler s (se_envelope x) = seqE (insert_outbox cfg e) (throwE msg)" "sub_matches s (se_envelope x)"
    "process_event cfg s x d = (r, d')"
  shows "eb_outbox d' = eb_outbox d" "eb_sequence d' = eb_sequence d"
  using assms
  by (auto simp: process_event_def process_commit_def process_failed_def eff_defs count_retry_def bury_def set_offset_def
      insert_outbox_def split: if_splits)

text \<open>Rows that cannot be read fill a batch: the delivery takes the empty batch for the end of the outbox.\<close>

lemma unreadable_batch_stalls:
  assumes "list_all (\<lambda>r. read_row cfg r = None)
    (take (replay_limit cfg (Some (bc_batchSize cfg))) (sort_key ob_cursor (pending s d)))"
  shows "deliver_to (Suc n) cfg s d = (Inr True, d)"
proof -
  have "List.map_filter f l = []" if "list_all (\<lambda>r. f r = None) l" for f :: "OutboxRow \<Rightarrow> StoredEvent option" and l
    using that by (induction l) (auto simp: map_filter_simps)
  then have "replay cfg (offset_of (su_name s) d) (Some (bc_batchSize cfg)) None None d = []"
    using assms by (simp add: replay_def pending_def)
  then show ?thesis by (simp add: deliver_to_Suc del: deliver_to.simps)
qed

text \<open>A batch holds at most 1000 rows, and one that is shorter than asked for is the last.\<close>

lemma replay_at_most: "length (replay cfg c l t f d) \<le> 1000"
proof -
  have "length (List.map_filter g l) \<le> length l" for g :: "OutboxRow \<Rightarrow> StoredEvent option" and l
    by (induction l) (auto simp: map_filter_simps split: option.splits)
  note shorter = this
  have "length (replay cfg c l t f d) \<le> replay_limit cfg l"
    unfolding replay_def by (rule order.trans [OF length_filter_le order.trans [OF shorter]]) simp
  also have "\<dots> \<le> 1000" by (simp add: replay_limit_def)
  finally show ?thesis .
qed

lemma large_batches_stop_early:
  assumes "1000 < bc_batchSize cfg" "forE (replay cfg (offset_of (su_name s) d) (Some (bc_batchSize cfg)) None None d) (process_event cfg s) d = (Inr u, d')"
  shows "deliver_to (Suc n) cfg s d = (Inr True, d')"
  using assms replay_at_most [of cfg "offset_of (su_name s) d" "Some (bc_batchSize cfg)" None None d]
  by (auto simp: deliver_to_Suc Let_def returnE_def simp del: deliver_to.simps)

text \<open>A consumer that fails ends the delivery: those after it get nothing.\<close>

lemma failing_consumer_starves:
  "deliver_to n cfg s d = (Inl e, d') \<Longrightarrow> deliver_all n cfg (s # ss) d = (Inl e, d')"
  by (simp add: bindE_def)

section \<open>An example\<close>

definition ex_cfg :: SqliteBusConfig where
  "ex_cfg = \<lparr> bc_maxAttempts = 3, bc_batchSize = 1, bc_schemas = (\<lambda>_. None), bc_gaps = False \<rparr>"

definition ex_event :: "string \<Rightarrow> EventEnvelope" where
  "ex_event i = \<lparr> ev_id = i, ev_type = ''t'', ev_version = 1, ev_source = ''s'', ev_correlationId = i, ev_causationId = None,
     ev_occurredAt = ''2026'', ev_block = None, ev_provenance = None, ev_payload = Jv_bigint 7 \<rparr>"

text \<open>A consumer that notes the identities, and one that fails on \<open>a\<close>.\<close>

definition ex_note :: "EventEnvelope \<Rightarrow> string list \<Rightarrow> string list" where
  "ex_note e w = w @ [ev_id e]"

definition ex_sub :: "string list EventSub" where
  "ex_sub = \<lparr> su_name = ''c'', su_handler = (\<lambda>e. modifyE (\<lambda>d. d\<lparr> eb_app := ex_note e (eb_app d) \<rparr>)),
     su_types = None, su_filter = None, su_version = None \<rparr>"

definition ex_failing :: "string list EventSub" where
  "ex_failing = ex_sub\<lparr> su_handler := (\<lambda>e. if ev_id e = ''a'' then throwE ''boom''
     else modifyE (\<lambda>d. d\<lparr> eb_app := ex_note e (eb_app d) \<rparr>)) \<rparr>"

definition ex_bus :: "string list EventSub list \<Rightarrow> string list SqliteBus" where
  "ex_bus subs = snd (seqE (publish ex_cfg (ex_event ''a'')) (publish ex_cfg (ex_event ''b'')) \<lparr> bu_db = empty_event_db [], bu_subs = subs \<rparr>)"

lemmas ex_simps = ex_cfg_def ex_event_def ex_note_def ex_sub_def ex_failing_def ex_bus_def empty_event_db_def
lemmas bus_defs = publish_def quietly_def busE_def liftE_def insert_outbox_def outbox_row_def process_event_def process_commit_def
  process_failed_def inbox_add_def set_offset_def clear_retry_def count_retry_def bury_def offset_of_def attempts_made_def
  EventBus.normalize_def matches_def upsert_def retry_key_def eff_defs

lemma ex_publish: "eb_app (bu_db (ex_bus [ex_sub])) = [''a'', ''b'']" "offset_of ''c'' (bu_db (ex_bus [ex_sub])) = 2"
  by (simp_all add: ex_simps bus_defs)

text \<open>The event \<open>a\<close> fails once and is gone: nothing is pending and no dead letter written.\<close>

lemma ex_lost: "eb_app (bu_db (ex_bus [ex_failing])) = [''b'']" "eb_dead (bu_db (ex_bus [ex_failing])) = []"
    "pending ex_failing (bu_db (ex_bus [ex_failing])) = []"
  by (simp_all add: ex_simps bus_defs pending_def)

text \<open>The instances of the properties on the example.\<close>

lemma ex_keeps: "keeps_offsets ex_sub" "keeps_offsets ex_failing"
  by (simp_all add: keeps_offsets_def ex_simps modifyE_def throwE_def)

definition ex_stored :: "string \<Rightarrow> int \<Rightarrow> StoredEvent" where
  "ex_stored i n = \<lparr> se_cursor = n, se_envelope = ex_event i \<rparr>"

definition ex_after :: "string list EventDb" where
  "ex_after = snd (process_event ex_cfg ex_sub (ex_stored ''a'' 1) (empty_event_db []))"

lemma ex_history: "bus_history ex_cfg (empty_event_db []) ex_after [(''c'', 1)]"
proof -
  obtain r where p: "process_event ex_cfg ex_sub (ex_stored ''a'' 1) (empty_event_db []) = (r, ex_after)"
    by (metis ex_after_def prod.collapse)
  have "handled ex_cfg ex_sub (ex_stored ''a'' 1) (empty_event_db [])"
    by (simp add: handled_def calls_handler_def bus_defs ex_simps ex_stored_def offset_of_def matches_def modifyE_def)
  then show ?thesis
    using bus_history.process [OF bus_history.start ex_keeps(1) p] by (simp add: ex_stored_def ex_sub_def)
qed

theorem handled_once_witness:
  "sorted_wrt (<) (cursors_of ''c'' [(''c'', 1)]) \<and> list_all (\<lambda>n. n \<le> offset_of ''c'' ex_after) (cursors_of ''c'' [(''c'', 1)])"
  by (rule handled_once [OF ex_history])

text \<open>Before every offer of \<open>a\<close>, \<open>b\<close> is published without being offered.\<close>

definition ex_between :: "nat \<Rightarrow> string list EventDb \<Rightarrow> string list EventDb" where
  "ex_between i d = snd (insert_outbox ex_cfg (ex_event ''b'') d)"

theorem poison_dead_lettered_witness:
  "let u = before_offer ex_between ex_cfg ex_failing (ex_stored ''a'' 1) (empty_event_db []) 2 in
   case process_event ex_cfg ex_failing (ex_stored ''a'' 1) u of (r, t) \<Rightarrow>
     r = Inr () \<and> exists_where (\<lambda>l. dl_consumer l = ''c'' \<and> dl_cursor l = 1) (eb_dead t) \<and> offset_of ''c'' t = 1 \<and>
     eb_app t = eb_app u \<and> eb_inbox t = eb_inbox u \<and> process_event ex_cfg ex_failing (ex_stored ''a'' 1) t = (Inr (), t)"
proof -
  have "poison ex_failing (ex_stored ''a'' 1) ''boom''"
    by (simp add: poison_def ex_simps ex_stored_def matches_def throwE_def)
  moreover have "holds_back ex_failing (ex_stored ''a'' 1) (ex_between i)" for i
    using publication_holds_back [of ex_failing "ex_stored ''a'' 1" ex_cfg "ex_event ''b''"] by (simp add: ex_between_def [abs_def])
  ultimately show ?thesis
    using poison_dead_lettered [of ex_failing "ex_stored ''a'' 1" "''boom''" "empty_event_db []" ex_cfg ex_between]
    by (simp add: ex_simps ex_stored_def offset_of_def attempts_made_def)
qed

lemma ex_backlog:
  "clean ex_sub ex_note" "outbox_ordered (bu_db (ex_bus []))" "length (pending ex_sub (bu_db (ex_bus []))) < 3"
  "list_all (\<lambda>r. read_row ex_cfg r \<noteq> None) (pending ex_sub (bu_db (ex_bus [])))"
  by (simp_all add: clean_def ex_simps modifyE_def bus_defs pending_def outbox_ordered_def read_row_def persisted_envelope_def
      revived_envelope_def decode_def BigInt_show_int)

theorem backlog_in_order_witness:
  "case deliver_to 3 ex_cfg ex_sub (bu_db (ex_bus [])) of (r, d') \<Rightarrow> r = Inr True \<and> pending ex_sub d' = [] \<and>
    eb_dead d' = eb_dead (bu_db (ex_bus [])) \<and>
    eb_app d' = fold (work ex_sub ex_note) (map (the \<circ> read_row ex_cfg) (pending ex_sub (bu_db (ex_bus [])))) (eb_app (bu_db (ex_bus [])))"
  by (rule backlog_in_order [OF ex_backlog(1,2,4) _ _ ex_backlog(3)]) (simp_all add: ex_cfg_def)

definition ex_failed :: "string list EventDb" where
  "ex_failed = snd (process_event ex_cfg ex_failing (ex_stored ''a'' 1) (empty_event_db []))"

definition ex_passed :: "string list EventDb" where
  "ex_passed = snd (process_event ex_cfg ex_failing (ex_stored ''b'' 2) ex_failed)"

lemma ex_overtaken:
  "process_event ex_cfg ex_failing (ex_stored ''a'' 1) (empty_event_db []) = (Inl ''boom'', ex_failed)"
  "process_event ex_cfg ex_failing (ex_stored ''b'' 2) ex_failed = (Inr (), ex_passed)"
  by (simp_all add: ex_failed_def ex_passed_def ex_simps bus_defs ex_stored_def)

theorem overtaken_event_lost_witness:
  "eb_dead ex_failed = eb_dead (empty_event_db ([] :: string list)) \<and> offers 5 ex_cfg ex_failing (ex_stored ''a'' 1) ex_passed = ex_passed \<and>
    list_all (\<lambda>r. ob_cursor r \<noteq> se_cursor (ex_stored ''a'' 1)) (pending ex_failing ex_passed)"
  by (rule overtaken_event_lost [OF ex_keeps(2) ex_overtaken]) (simp add: ex_stored_def)

end
