(* ===== verification/MarketTriggers.thy ===== *)
theory MarketTriggers
  imports EventBus Doubles
begin

text \<open>
  The market triggers of \<open>src/src/autonomy/events/index.ts\<close>, in memory or over SQLite: which events
  become triggers, the debouncing and the cooldown per key, and that every event triggers at most
  once. The readings of the clock and the identities of the envelopes are sequences of the ports, of
  which the engine counts how many it used.
\<close>

record TriggerConfig =
  tc_cooldownMs :: "jsnum option"
  tc_debounceMs :: "jsnum option"
  tc_priceAbove :: "jsnum option"
  tc_volumeAbove :: "jsnum option"
  tc_liquidityAbove :: "jsnum option"
  tc_statePath :: bool

record TriggerPorts =
  tp_now :: "nat \<Rightarrow> int"
  tp_id :: "nat \<Rightarrow> string"
  tp_time :: "nat \<Rightarrow> string"
  tp_number_text :: "jsnum \<Rightarrow> string"

record Pending =
  pn_key :: string
  pn_start :: int
  pn_event :: EventEnvelope
  pn_type :: string

record TriggerEngine =
  te_pending :: "Pending list"
  te_fired :: "(string \<times> int) list"
  te_ids :: "string list"
  te_readings :: nat
  te_made :: nat

type_synonym 'a trigger = "(TriggerEngine, string, 'a) eff"

definition engine_started :: TriggerEngine where
  "engine_started = \<lparr> te_pending = [], te_fired = [], te_ids = [], te_readings = 0, te_made = 0 \<rparr>"

definition cooldown :: "TriggerConfig \<Rightarrow> jsnum" where
  "cooldown cfg = (case tc_cooldownMs cfg of None \<Rightarrow> JNum 0 | Some n \<Rightarrow> n)"

definition debounce :: "TriggerConfig \<Rightarrow> jsnum" where
  "debounce cfg = (case tc_debounceMs cfg of None \<Rightarrow> JNum 0 | Some n \<Rightarrow> n)"

definition trigger_engine :: "TriggerConfig \<Rightarrow> string + TriggerEngine" where
  "trigger_engine cfg =
     (if list_ex (\<lambda>n. case n of None \<Rightarrow> False | Some x \<Rightarrow> \<not> js_isFinite x \<or> js_lt x (JNum 0))
           [Some (cooldown cfg), Some (debounce cfg), tc_priceAbove cfg, tc_volumeAbove cfg, tc_liquidityAbove cfg]
      then Inl ''invalid trigger configuration'' else Inr engine_started)"

definition trigger_now :: "TriggerPorts \<Rightarrow> int trigger" where
  "trigger_now w = (\<lambda>E. (Inr (tp_now w (te_readings E)), E\<lparr> te_readings := te_readings E + 1 \<rparr>))"

definition seen :: "string \<Rightarrow> bool trigger" where
  "seen i = (\<lambda>E. if i \<in> set (te_ids E) then (Inr True, E) else (Inr False, E\<lparr> te_ids := te_ids E @ [i] \<rparr>))"

definition trigger_input :: "Pending \<Rightarrow> EnvelopeInput" where
  "trigger_input p = \<lparr> in_type = pn_type p,
     in_payload = Jv_object [(''trigger'', Jv_string (ev_type (pn_event p))), (''input'', ev_payload (pn_event p))],
     in_source = ''market-trigger'', in_version = None, in_correlationId = Some (ev_correlationId (pn_event p)),
     in_causationId = Some (ev_id (pn_event p)), in_block = None, in_provenance = None \<rparr>"

text \<open>Times are whole milliseconds, whose differences are exact.\<close>

definition cooling :: "TriggerConfig \<Rightarrow> string \<Rightarrow> int \<Rightarrow> TriggerEngine \<Rightarrow> bool" where
  "cooling cfg k now E \<longleftrightarrow> (case map_of (te_fired E) k of
      None \<Rightarrow> False | Some n \<Rightarrow> js_lt (JNum (of_int (now - n))) (cooldown cfg))"

definition emit :: "TriggerConfig \<Rightarrow> TriggerPorts \<Rightarrow> Pending \<Rightarrow> EventEnvelope list trigger" where
  "emit cfg w p =
     bindE (trigger_now w) (\<lambda>now.
     bindE (getE (cooling cfg (pn_key p) now)) (\<lambda>c.
     if c then returnE []
     else seqE (modifyE (\<lambda>E. E\<lparr> te_fired := upsert (pn_key p) now (te_fired E) \<rparr>))
         (bindE (getE te_made) (\<lambda>n.
          seqE (modifyE (\<lambda>E. E\<lparr> te_made := n + 1 \<rparr>))
               (bindE (liftE (createEnvelope (trigger_input p) (tp_id w n) (tp_time w n))) (\<lambda>e. returnE [e]))))))"

fun emit_all :: "TriggerConfig \<Rightarrow> TriggerPorts \<Rightarrow> Pending list \<Rightarrow> EventEnvelope list trigger" where
  "emit_all cfg w [] = returnE []"
| "emit_all cfg w (p # ps) = bindE (emit cfg w p) (\<lambda>es. bindE (emit_all cfg w ps) (\<lambda>fs. returnE (es @ fs)))"

definition is_due :: "TriggerConfig \<Rightarrow> int \<Rightarrow> Pending \<Rightarrow> bool" where
  "is_due cfg now p = (if tc_statePath cfg then js_le (JNum (of_int (pn_start p))) (fl_sub (JNum (of_int now)) (debounce cfg))
     else js_ge (JNum (of_int (now - pn_start p))) (debounce cfg))"

text \<open>What is read back of a stored event; without a state path the event itself is kept.\<close>

definition read_pending :: "TriggerConfig \<Rightarrow> Pending \<Rightarrow> Pending option" where
  "read_pending cfg p = (if tc_statePath cfg then map_option (\<lambda>e. p\<lparr> pn_event := e \<rparr>) (revived_envelope (pn_event p)) else Some p)"

definition flush :: "TriggerConfig \<Rightarrow> TriggerPorts \<Rightarrow> EventEnvelope list trigger" where
  "flush cfg w =
     bindE (trigger_now w) (\<lambda>now.
     bindE (getE (\<lambda>E. traverse (map (read_pending cfg) (filter (is_due cfg now) (te_pending E))))) (\<lambda>due.
     case due of
       None \<Rightarrow> throwE ''SyntaxError''
     | Some ps \<Rightarrow> seqE (modifyE (\<lambda>E. E\<lparr> te_pending := filter (\<lambda>p. \<not> is_due cfg now p) (te_pending E) \<rparr>)) (emit_all cfg w ps)))"

text \<open>A property of the payload; reading one of \<open>null\<close> is a \<open>TypeError\<close>.\<close>

definition payload_field :: "string \<Rightarrow> EventEnvelope \<Rightarrow> string + jvalue option" where
  "payload_field k e = (case ev_payload e of
      Jv_null \<Rightarrow> Inl ''TypeError'' | Jv_object fs \<Rightarrow> Inr (map_of fs k) | _ \<Rightarrow> Inr None)"

definition over :: "jsnum option \<Rightarrow> jvalue option \<Rightarrow> bool" where
  "over limit v = (case v of
      Some (Jv_number x) \<Rightarrow> js_isFinite x \<and> js_ge x (case limit of None \<Rightarrow> JInf False | Some l \<Rightarrow> l) | _ \<Rightarrow> False)"

definition trigger_type :: "TriggerConfig \<Rightarrow> EventEnvelope \<Rightarrow> string + string option" where
  "trigger_type cfg e =
     (let threshold = (\<lambda>limit t. case payload_field ''value'' e of
            Inl x \<Rightarrow> Inl x | Inr v \<Rightarrow> Inr (if over limit v then Some t else None)) in
      if ev_type e = ''market.token.launch'' then
        (case payload_field ''token'' e of
           Inl x \<Rightarrow> Inl x
         | Inr (Some (Jv_string t)) \<Rightarrow> Inr (if t \<noteq> [] then Some ''trigger.token.launch'' else None)
         | Inr _ \<Rightarrow> Inr None)
      else if ev_type e = ''market.liquidity'' then threshold (tc_liquidityAbove cfg) ''trigger.liquidity.threshold''
      else if ev_type e = ''market.price'' then threshold (tc_priceAbove cfg) ''trigger.price.threshold''
      else if ev_type e = ''market.volume'' then threshold (tc_volumeAbove cfg) ''trigger.volume.threshold''
      else if ev_type e = ''risk.alert'' then Inr (Some ''trigger.risk.alert'')
      else if ev_type e = ''policy.alert'' then Inr (Some ''trigger.policy.alert'')
      else Inr None)"

text \<open>\<open>String(v)\<close>.\<close>

fun joined :: "string list \<Rightarrow> string" where
  "joined [] = []"
| "joined [x] = x"
| "joined (x # y # xs) = x @ '','' @ joined (y # xs)"

fun js_String :: "(jsnum \<Rightarrow> string) \<Rightarrow> jvalue \<Rightarrow> string" where
  "js_String f Jv_null = ''null''"
| "js_String f (Jv_bool b) = (if b then ''true'' else ''false'')"
| "js_String f (Jv_number x) = f x"
| "js_String f (Jv_bigint n) = show_int n"
| "js_String f (Jv_string s) = s"
| "js_String f (Jv_array l) = joined (map (\<lambda>v. if v = Jv_null then [] else js_String f v) l)"
| "js_String f (Jv_object fs) = ''[object Object]''"

definition trigger_key :: "TriggerPorts \<Rightarrow> string \<Rightarrow> EventEnvelope \<Rightarrow> string + string" where
  "trigger_key w t e =
     (case payload_field ''symbol'' e of
        Inl x \<Rightarrow> Inl x
      | Inr s \<Rightarrow>
          (case payload_field ''token'' e of
             Inl x \<Rightarrow> Inl x
           | Inr k \<Rightarrow> Inr (t @ '':'' @
               (if s \<noteq> None \<and> s \<noteq> Some Jv_null then js_String (tp_number_text w) (the s)
                else if k \<noteq> None \<and> k \<noteq> Some Jv_null then js_String (tp_number_text w) (the k) else []))))"

definition hold_pending :: "TriggerConfig \<Rightarrow> Pending \<Rightarrow> unit trigger" where
  "hold_pending cfg p = modifyE (\<lambda>E. if exists_where (\<lambda>q. pn_key q = pn_key p) (te_pending E) then E
     else E\<lparr> te_pending := te_pending E @ [if tc_statePath cfg then p\<lparr> pn_event := persisted_envelope (pn_event p) \<rparr> else p] \<rparr>)"

definition evaluate :: "TriggerConfig \<Rightarrow> TriggerPorts \<Rightarrow> EventEnvelope \<Rightarrow> EventEnvelope list trigger" where
  "evaluate cfg w e =
     bindE (seen (ev_id e)) (\<lambda>old.
     if old then returnE []
     else bindE (liftE (trigger_type cfg e)) (\<lambda>t. case t of
         None \<Rightarrow> returnE []
       | Some t \<Rightarrow>
           bindE (liftE (trigger_key w t e)) (\<lambda>k.
           bindE (trigger_now w) (\<lambda>start.
           if js_gt (debounce cfg) (JNum 0)
           then seqE (hold_pending cfg \<lparr> pn_key = k, pn_start = start, pn_event = e, pn_type = t \<rparr>) (flush cfg w)
           else emit cfg w \<lparr> pn_key = k, pn_start = start, pn_event = e, pn_type = t \<rparr>))))"

section \<open>One trigger per event, spaced by the cooldown\<close>

definition valid_type :: "Pending \<Rightarrow> bool" where
  "valid_type p \<longleftrightarrow> nonempty (pn_type p)"

lemma trigger_envelope: "valid_type p \<Longrightarrow> \<exists>e. createEnvelope (trigger_input p) i t = Inr e"
  by (simp add: valid_type_def createEnvelope_def trigger_input_def nonempty_def Let_def js_trim_def js_space_def js_safe_integer_def max_safe_integer_def)

text \<open>The key, the time and the causing event of every trigger that \<open>emit\<close> lets through.\<close>

fun fired_by :: "TriggerConfig \<Rightarrow> TriggerPorts \<Rightarrow> Pending list \<Rightarrow> TriggerEngine \<Rightarrow> (string \<times> int \<times> string) list" where
  "fired_by cfg w [] E = []"
| "fired_by cfg w (p # ps) E =
     (if cooling cfg (pn_key p) (tp_now w (te_readings E)) E then []
      else [(pn_key p, tp_now w (te_readings E), ev_id (pn_event p))]) @ fired_by cfg w ps (snd (emit cfg w p E))"

text \<open>The triggers of a history, and what is still on its way: the events taken from the pending ones.\<close>

type_synonym fired_log = "(string \<times> int \<times> string) list"

definition times_of :: "string \<Rightarrow> fired_log \<Rightarrow> int list" where
  "times_of k l = map (fst \<circ> snd) (filter (\<lambda>e. fst e = k) l)"

definition causes_of :: "fired_log \<Rightarrow> string list" where
  "causes_of l = map (snd \<circ> snd) l"

definition event_ids :: "Pending list \<Rightarrow> string list" where
  "event_ids ps = map (\<lambda>p. ev_id (pn_event p)) ps"

definition spaced :: "TriggerConfig \<Rightarrow> int list \<Rightarrow> bool" where
  "spaced cfg ts \<longleftrightarrow> sorted_wrt (\<lambda>a b. \<not> js_lt (JNum (of_int (b - a))) (cooldown cfg)) ts"

definition trigger_inv :: "TriggerConfig \<Rightarrow> fired_log \<Rightarrow> Pending list \<Rightarrow> TriggerEngine \<Rightarrow> bool" where
  "trigger_inv cfg l flight E \<longleftrightarrow>
     distinct (causes_of l @ event_ids flight @ event_ids (te_pending E)) \<and>
     set (causes_of l @ event_ids flight @ event_ids (te_pending E)) \<subseteq> set (te_ids E) \<and>
     (\<forall>k. spaced cfg (times_of k l)) \<and>
     (\<forall>k. map_of (te_fired E) k = (if times_of k l = [] then None else Some (last (times_of k l)))) \<and>
     (\<forall>k. sorted (times_of k l)) \<and> list_all valid_type (flight @ te_pending E)"

definition valid_cooldown :: "TriggerConfig \<Rightarrow> bool" where
  "valid_cooldown cfg \<longleftrightarrow> js_isFinite (cooldown cfg) \<and> \<not> js_lt (cooldown cfg) (JNum 0)"

lemma log_simps [simp]:
  "times_of k [] = []" "causes_of [] = []" "event_ids [] = []"
  "times_of k (l @ [(k', t, i)]) = (if k' = k then times_of k l @ [t] else times_of k l)"
  "causes_of (l @ [(k', t, i)]) = causes_of l @ [i]" "event_ids (p # ps) = ev_id (pn_event p) # event_ids ps"
  by (simp_all add: times_of_def causes_of_def event_ids_def)

lemma spaced_snoc:
  assumes "valid_cooldown cfg" "spaced cfg ts" "sorted ts" "ts \<noteq> [] \<Longrightarrow> \<not> js_lt (JNum (of_int (t - last ts))) (cooldown cfg)"
  shows "spaced cfg (ts @ [t]) \<and> sorted (ts @ [t])"
proof -
  obtain c where c: "cooldown cfg = JNum c" "0 \<le> c"
    using assms(1) by (cases "cooldown cfg") (auto simp: valid_cooldown_def)
  have below: "\<forall>a \<in> set ts. a \<le> last ts"
    using assms(3) by (cases ts rule: rev_cases) (auto simp: sorted_append)
  have "c \<le> of_int (t - a) \<and> a \<le> t" if a: "a \<in> set ts" for a
  proof -
    have "c \<le> of_int (t - last ts)" using assms(4) a c(1) by (cases ts) auto
    moreover have "a \<le> last ts" using below a by blast
    ultimately have "c \<le> of_int (t - a)" using of_int_le_iff [of "t - last ts" "t - a", where 'a = rat] by linarith
    moreover from this c(2) have "(0::rat) \<le> of_int (t - a)" by linarith
    ultimately show ?thesis by simp
  qed
  then have "\<forall>a \<in> set ts. \<not> js_lt (JNum (of_int (t - a))) (cooldown cfg)" "\<forall>a \<in> set ts. a \<le> t"
    by (auto simp: c(1) not_less)
  then show ?thesis using assms(2,3) by (simp add: spaced_def sorted_wrt_append sorted_append)
qed

lemma emit_state:
  "snd (emit cfg w p E) =
     (let now = tp_now w (te_readings E); E1 = E\<lparr> te_readings := te_readings E + 1 \<rparr> in
      if cooling cfg (pn_key p) now E then E1
      else E1\<lparr> te_fired := upsert (pn_key p) now (te_fired E), te_made := te_made E + 1 \<rparr>)"
  by (simp add: emit_def trigger_now_def eff_defs liftE_def cooling_def Let_def split: sum.split)

lemma emit_inv:
  assumes "valid_cooldown cfg" "trigger_inv cfg l (p # ps) E"
  shows "trigger_inv cfg (l @ fired_by cfg w [p] E) ps (snd (emit cfg w p E))"
proof (cases "cooling cfg (pn_key p) (tp_now w (te_readings E)) E")
  case True
  then show ?thesis using assms(2) by (auto simp: emit_state trigger_inv_def Let_def)
next
  case False
  let ?now = "tp_now w (te_readings E)"
  have "times_of (pn_key p) l \<noteq> [] \<Longrightarrow> \<not> js_lt (JNum (of_int (?now - last (times_of (pn_key p) l)))) (cooldown cfg)"
    using False assms(2) by (simp add: cooling_def trigger_inv_def)
  then have "spaced cfg (times_of (pn_key p) l @ [?now]) \<and> sorted (times_of (pn_key p) l @ [?now])"
    using spaced_snoc [OF assms(1)] assms(2) unfolding trigger_inv_def by blast
  then show ?thesis using False assms(2) by (auto simp: emit_state trigger_inv_def Let_def)
qed

lemma emit_result:
  assumes "valid_type p"
  shows "fst (emit cfg w p E) = Inr [] \<or> (\<exists>e. fst (emit cfg w p E) = Inr [e])"
  using trigger_envelope [OF assms, of "tp_id w (te_made E)" "tp_time w (te_made E)"]
  by (auto simp: emit_def trigger_now_def eff_defs liftE_def)

lemma emit_all_inv:
  assumes "valid_cooldown cfg" "trigger_inv cfg l (ps @ qs) E"
  shows "trigger_inv cfg (l @ fired_by cfg w ps E) qs (snd (emit_all cfg w ps E))"
  using assms(2)
proof (induction ps arbitrary: l E)
  case (Cons p ps)
  have "valid_type p" using Cons.prems by (simp add: trigger_inv_def)
  then obtain es where r: "fst (emit cfg w p E) = Inr es" using emit_result by blast
  have "trigger_inv cfg (l @ fired_by cfg w [p] E) (ps @ qs) (snd (emit cfg w p E))"
    using emit_inv [OF assms(1)] Cons.prems by simp
  from Cons.IH [OF this] r show ?case
    by (cases "emit cfg w p E") (auto simp: bindE_def returnE_def split: prod.split sum.split)
qed (simp add: returnE_def)

text \<open>The events that are due leave the pending ones and are on their way.\<close>

definition due_events :: "TriggerConfig \<Rightarrow> TriggerPorts \<Rightarrow> TriggerEngine \<Rightarrow> Pending list option" where
  "due_events cfg w E = traverse (map (read_pending cfg) (filter (is_due cfg (tp_now w (te_readings E))) (te_pending E)))"

definition without_due :: "TriggerConfig \<Rightarrow> TriggerPorts \<Rightarrow> TriggerEngine \<Rightarrow> TriggerEngine" where
  "without_due cfg w E = E\<lparr> te_readings := te_readings E + 1,
     te_pending := filter (\<lambda>p. \<not> is_due cfg (tp_now w (te_readings E)) p) (te_pending E) \<rparr>"

lemma flush_eq:
  "flush cfg w E = (case due_events cfg w E of
      None \<Rightarrow> (Inl ''SyntaxError'', E\<lparr> te_readings := te_readings E + 1 \<rparr>)
    | Some ps \<Rightarrow> emit_all cfg w ps (without_due cfg w E))"
  by (simp add: flush_def trigger_now_def eff_defs due_events_def without_due_def split: option.split)

lemma revived_envelope_id: "revived_envelope e = Some e' \<Longrightarrow> ev_id e' = ev_id e"
  by (auto simp: revived_envelope_def split: option.splits)

lemma read_pending_ids:
  "traverse (map (read_pending cfg) l) = Some ps \<Longrightarrow> event_ids ps = event_ids l \<and> (list_all valid_type l \<longrightarrow> list_all valid_type ps)"
proof (induction l arbitrary: ps)
  case (Cons p l)
  then show ?case
    by (auto simp: read_pending_def valid_type_def dest!: revived_envelope_id split: option.splits if_splits)
qed simp

lemma flush_inv:
  assumes "valid_cooldown cfg" "trigger_inv cfg l [] E"
  shows "case due_events cfg w E of
      None \<Rightarrow> trigger_inv cfg l [] (snd (flush cfg w E))
    | Some ps \<Rightarrow> trigger_inv cfg (l @ fired_by cfg w ps (without_due cfg w E)) [] (snd (flush cfg w E))"
proof (cases "due_events cfg w E")
  case None
  then show ?thesis using assms(2) by (simp add: flush_eq trigger_inv_def)
next
  case (Some ps)
  have ids: "event_ids ps = event_ids (filter (is_due cfg (tp_now w (te_readings E))) (te_pending E))"
    "list_all valid_type ps"
    using read_pending_ids [OF Some [unfolded due_events_def]] assms(2) by (auto simp: trigger_inv_def list_all_iff)
  have part: "distinct (event_ids (filter P t) @ event_ids (filter (\<lambda>p. \<not> P p) t)) \<and>
      set (event_ids (filter P t)) \<union> set (event_ids (filter (\<lambda>p. \<not> P p) t)) = set (event_ids t)" if "distinct (event_ids t)" for P t
    using that by (induction t) (auto simp: event_ids_def)
  have "trigger_inv cfg l (ps @ []) (without_due cfg w E)"
    using assms(2) part [of "te_pending E" "is_due cfg (tp_now w (te_readings E))"] ids
    by (auto simp: trigger_inv_def without_due_def list_all_iff)
  from emit_all_inv [OF assms(1) this] Some show ?thesis by (simp add: flush_eq)
qed

text \<open>The calls of an engine, with what they return (an exception returns no trigger) and the log of what they let through.\<close>

datatype trigger_call = Evaluate EventEnvelope | Flush

definition eval_item :: "TriggerConfig \<Rightarrow> TriggerPorts \<Rightarrow> EventEnvelope \<Rightarrow> TriggerEngine \<Rightarrow> Pending option" where
  "eval_item cfg w e E =
     (case trigger_type cfg e of
        Inr (Some t) \<Rightarrow>
          (case trigger_key w t e of
             Inl _ \<Rightarrow> None
           | Inr k \<Rightarrow> Some \<lparr> pn_key = k, pn_start = tp_now w (te_readings E), pn_event = e, pn_type = t \<rparr>)
      | _ \<Rightarrow> None)"

definition noted :: "EventEnvelope \<Rightarrow> TriggerEngine \<Rightarrow> TriggerEngine" where
  "noted e E = E\<lparr> te_ids := te_ids E @ [ev_id e] \<rparr>"

definition timed :: "TriggerEngine \<Rightarrow> TriggerEngine" where
  "timed E = E\<lparr> te_readings := te_readings E + 1 \<rparr>"

definition held :: "TriggerConfig \<Rightarrow> Pending \<Rightarrow> TriggerEngine \<Rightarrow> TriggerEngine" where
  "held cfg p E = snd (hold_pending cfg p E)"

fun call_trigger :: "TriggerConfig \<Rightarrow> TriggerPorts \<Rightarrow> trigger_call \<Rightarrow> EventEnvelope list trigger" where
  "call_trigger cfg w (Evaluate e) = evaluate cfg w e"
| "call_trigger cfg w Flush = flush cfg w"

definition flush_log :: "TriggerConfig \<Rightarrow> TriggerPorts \<Rightarrow> TriggerEngine \<Rightarrow> fired_log" where
  "flush_log cfg w E = (case due_events cfg w E of None \<Rightarrow> [] | Some ps \<Rightarrow> fired_by cfg w ps (without_due cfg w E))"

fun call_log :: "TriggerConfig \<Rightarrow> TriggerPorts \<Rightarrow> trigger_call \<Rightarrow> TriggerEngine \<Rightarrow> fired_log" where
  "call_log cfg w (Evaluate e) E =
     (if ev_id e \<in> set (te_ids E) then [] else
      case eval_item cfg w e E of
        None \<Rightarrow> []
      | Some p \<Rightarrow> if js_gt (debounce cfg) (JNum 0) then flush_log cfg w (held cfg p (timed (noted e E)))
          else fired_by cfg w [p] (timed (noted e E)))"
| "call_log cfg w Flush E = flush_log cfg w E"

lemma evaluate_eq:
  "evaluate cfg w e E =
     (if ev_id e \<in> set (te_ids E) then (Inr [], E) else
      case eval_item cfg w e E of
        Some p \<Rightarrow> if js_gt (debounce cfg) (JNum 0) then flush cfg w (held cfg p (timed (noted e E))) else emit cfg w p (timed (noted e E))
      | None \<Rightarrow> (case trigger_type cfg e of Inl x \<Rightarrow> Inl x | Inr None \<Rightarrow> Inr []
          | Inr (Some t) \<Rightarrow> (case trigger_key w t e of Inl x \<Rightarrow> Inl x | Inr _ \<Rightarrow> Inr []), noted e E))"
  by (simp add: evaluate_def seen_def eval_item_def noted_def timed_def held_def hold_pending_def trigger_now_def eff_defs liftE_def
      split: sum.split option.split)

lemma trigger_types:
  "trigger_type cfg e = Inr (Some t) \<Longrightarrow> t \<in> {''trigger.token.launch'', ''trigger.liquidity.threshold'',
     ''trigger.price.threshold'', ''trigger.volume.threshold'', ''trigger.risk.alert'', ''trigger.policy.alert''}"
  unfolding trigger_type_def Let_def by (simp split: sum.splits option.splits if_splits jvalue.splits)

lemma eval_item_fields: "eval_item cfg w e E = Some p \<Longrightarrow> pn_event p = e \<and> valid_type p"
  by (auto simp: eval_item_def valid_type_def nonempty_def js_trim_def js_space_def
      dest!: trigger_types split: sum.splits option.splits)

lemma noted_inv:
  assumes "trigger_inv cfg l [] E" "ev_id e \<notin> set (te_ids E)"
  shows "trigger_inv cfg l [] (noted e E)" "trigger_inv cfg l [] (timed (noted e E))"
    "pn_event p = e \<Longrightarrow> valid_type p \<Longrightarrow> trigger_inv cfg l [p] (timed (noted e E))"
    "pn_event p = e \<Longrightarrow> valid_type p \<Longrightarrow> trigger_inv cfg l [] (held cfg p (timed (noted e E)))"
  using assms
  by (auto simp: trigger_inv_def noted_def timed_def held_def hold_pending_def modifyE_def event_ids_def persisted_envelope_def valid_type_def)

lemma flush_log_inv:
  assumes "valid_cooldown cfg" "trigger_inv cfg l [] E"
  shows "trigger_inv cfg (l @ flush_log cfg w E) [] (snd (flush cfg w E))"
  using flush_inv [OF assms, of w] by (simp add: flush_log_def split: option.splits)

lemma call_inv:
  assumes "valid_cooldown cfg" "trigger_inv cfg l [] E"
  shows "trigger_inv cfg (l @ call_log cfg w c E) [] (snd (call_trigger cfg w c E))"
proof (cases c)
  case (Evaluate e)
  show ?thesis
  proof (cases "ev_id e \<in> set (te_ids E)")
    case True
    then show ?thesis using Evaluate assms(2) by (simp add: evaluate_eq)
  next
    case new: False
    note inv = noted_inv [OF assms(2) new]
    show ?thesis
    proof (cases "eval_item cfg w e E")
      case None
      then show ?thesis using Evaluate new inv(1) by (simp add: evaluate_eq)
    next
      case (Some p)
      note f = eval_item_fields [OF Some]
      show ?thesis
        using Evaluate new Some flush_log_inv [OF assms(1) inv(4), of p w] emit_inv [OF assms(1) inv(3), of p w] f
        by (simp add: evaluate_eq del: fired_by.simps)
    qed
  qed
next
  case Flush
  then show ?thesis using flush_log_inv [OF assms] by simp
qed

text \<open>What is returned is what the log says.\<close>

definition caused :: "string \<times> int \<times> string \<Rightarrow> string option" where
  "caused x = (case x of (k, t, i) \<Rightarrow> if i = [] then None else Some i)"

definition returned :: "string + EventEnvelope list \<Rightarrow> EventEnvelope list" where
  "returned r = (case r of Inl _ \<Rightarrow> [] | Inr es \<Rightarrow> es)"

lemma emit_out:
  assumes "valid_type p"
  shows "\<exists>es. fst (emit cfg w p E) = Inr es \<and> map ev_causationId es = map caused (fired_by cfg w [p] E)"
proof -
  obtain e where e: "createEnvelope (trigger_input p) (tp_id w (te_made E)) (tp_time w (te_made E)) = Inr e"
    using trigger_envelope [OF assms] by blast
  then have "ev_causationId e = (if ev_id (pn_event p) = [] then None else Some (ev_id (pn_event p)))"
    by (auto simp: createEnvelope_def trigger_input_def Let_def split: if_splits)
  then show ?thesis using e by (simp add: emit_def trigger_now_def eff_defs liftE_def cooling_def caused_def)
qed

lemma emit_all_out:
  assumes "list_all valid_type ps"
  shows "\<exists>es. fst (emit_all cfg w ps E) = Inr es \<and> map ev_causationId es = map caused (fired_by cfg w ps E)"
  using assms
proof (induction ps arbitrary: E)
  case (Cons p ps)
  obtain r E' where em: "emit cfg w p E = (r, E')" by fastforce
  then obtain es where es: "r = Inr es" "map ev_causationId es = map caused (fired_by cfg w [p] E)"
    using emit_out [of p cfg w E] Cons.prems by auto
  obtain q E'' where all: "emit_all cfg w ps E' = (q, E'')" by fastforce
  then obtain fs where "q = Inr fs" "map ev_causationId fs = map caused (fired_by cfg w ps E')"
    using Cons.IH [of E'] Cons.prems by auto
  then show ?case using em es all by (auto simp: bindE_def returnE_def)
qed (simp add: returnE_def)

lemma flush_out:
  assumes "trigger_inv cfg l [] E"
  shows "map ev_causationId (returned (fst (flush cfg w E))) = map caused (flush_log cfg w E)"
proof (cases "due_events cfg w E")
  case None
  then show ?thesis by (simp add: flush_eq flush_log_def returned_def)
next
  case (Some ps)
  then have "list_all valid_type ps"
    using read_pending_ids [OF Some [unfolded due_events_def]] assms by (auto simp: trigger_inv_def list_all_iff)
  from emit_all_out [OF this, of cfg w "without_due cfg w E"] Some show ?thesis
    by (auto simp: flush_eq flush_log_def returned_def)
qed

lemma call_out:
  assumes "trigger_inv cfg l [] E"
  shows "map ev_causationId (returned (fst (call_trigger cfg w c E))) = map caused (call_log cfg w c E)"
proof (cases c)
  case (Evaluate e)
  show ?thesis
  proof (cases "ev_id e \<in> set (te_ids E)")
    case True
    then show ?thesis using Evaluate by (simp add: evaluate_eq returned_def)
  next
    case new: False
    show ?thesis
    proof (cases "eval_item cfg w e E")
      case None
      then show ?thesis using Evaluate new by (simp add: evaluate_eq returned_def split: sum.split option.split)
    next
      case (Some p)
      note f = eval_item_fields [OF Some]
      have fl: "map ev_causationId (returned (fst (flush cfg w (held cfg p (timed (noted e E)))))) =
          map caused (flush_log cfg w (held cfg p (timed (noted e E))))"
        using flush_out [OF noted_inv(4) [OF assms new]] f by blast
      have em: "map ev_causationId (returned (fst (emit cfg w p (timed (noted e E))))) =
          map caused (fired_by cfg w [p] (timed (noted e E)))"
        using emit_out [of p cfg w "timed (noted e E)"] f by (auto simp: returned_def simp del: fired_by.simps)
      show ?thesis using Evaluate new Some fl em by (simp add: evaluate_eq del: fired_by.simps)
    qed
  qed
next
  case Flush
  then show ?thesis using flush_out [OF assms] by simp
qed

fun run_log :: "TriggerConfig \<Rightarrow> TriggerPorts \<Rightarrow> trigger_call list \<Rightarrow> TriggerEngine \<Rightarrow> fired_log" where
  "run_log cfg w [] E = []"
| "run_log cfg w (c # cs) E = call_log cfg w c E @ run_log cfg w cs (snd (call_trigger cfg w c E))"

fun run_out :: "TriggerConfig \<Rightarrow> TriggerPorts \<Rightarrow> trigger_call list \<Rightarrow> TriggerEngine \<Rightarrow> EventEnvelope list" where
  "run_out cfg w [] E = []"
| "run_out cfg w (c # cs) E = returned (fst (call_trigger cfg w c E)) @ run_out cfg w cs (snd (call_trigger cfg w c E))"

lemma run_inv:
  assumes "valid_cooldown cfg" "trigger_inv cfg l [] E"
  shows "(\<exists>E'. trigger_inv cfg (l @ run_log cfg w cs E) [] E') \<and>
    map ev_causationId (run_out cfg w cs E) = map caused (run_log cfg w cs E)"
  using assms(2)
proof (induction cs arbitrary: l E)
  case (Cons c cs)
  from Cons.IH [OF call_inv [OF assms(1) Cons.prems, of w c]] call_out [OF Cons.prems, of w c] show ?case by simp
qed auto

text \<open>
  C27: whatever sequence of evaluations and flushes an engine with a valid configuration goes through,
  with whatever readings of the clock, no event triggers twice, two triggers of one key are the
  cooldown apart and in order, and the triggers returned are those of the log, in its order.
\<close>

theorem triggers_once_spaced:
  "case trigger_engine cfg of
     Inl x \<Rightarrow> x = ''invalid trigger configuration''
   | Inr E \<Rightarrow> distinct (causes_of (run_log cfg w cs E)) \<and>
       sorted (times_of k (run_log cfg w cs E)) \<and> spaced cfg (times_of k (run_log cfg w cs E)) \<and>
       map ev_causationId (run_out cfg w cs E) = map caused (run_log cfg w cs E)"
proof (cases "trigger_engine cfg")
  case (Inl x)
  then show ?thesis by (simp add: trigger_engine_def split: if_splits)
next
  case (Inr E)
  then have v: "valid_cooldown cfg" and E: "E = engine_started"
    by (auto simp: trigger_engine_def valid_cooldown_def split: if_splits)
  have "trigger_inv cfg [] [] E" by (simp add: E trigger_inv_def engine_started_def spaced_def)
  from run_inv [OF v this, of w cs] Inr show ?thesis by (auto simp: trigger_inv_def)
qed

text \<open>
  With a state path, an event stored with an object that only looks like a written \<open>bigint\<close> makes every
  flush that finds it due fail, and it stays.
\<close>

lemma unreadable_pending_blocks:
  assumes "tc_statePath cfg" "p \<in> set (te_pending E)" "is_due cfg (tp_now w (te_readings E)) p" "revived_envelope (pn_event p) = None"
  shows "flush cfg w E = (Inl ''SyntaxError'', timed E)"
proof -
  have "traverse (map f l) = None" if "x \<in> set l" "f x = None" for f :: "Pending \<Rightarrow> Pending option" and l x
    using that by (induction l) (auto split: option.splits)
  then have "due_events cfg w E = None" using assms unfolding due_events_def by (fastforce simp: read_pending_def)
  then show ?thesis by (simp add: flush_eq timed_def)
qed

lemma looks_like_bigint_unreadable:
  "revived (persisted (Jv_object [(''$bigint'', Jv_string ''x'')])) = None"
  by (simp add: decode_def js_BigInt_string_def js_trim_def js_space_def radix_value_def radix_digit_def)

text \<open>Three prices over the threshold, the second inside the cooldown.\<close>

definition ex_trigger_config :: TriggerConfig where
  "ex_trigger_config = \<lparr> tc_cooldownMs = Some (JNum 1000), tc_debounceMs = None, tc_priceAbove = Some (JNum 10), tc_volumeAbove = None,
     tc_liquidityAbove = None, tc_statePath = True \<rparr>"

definition ex_trigger_ports :: TriggerPorts where
  "ex_trigger_ports = \<lparr> tp_now = (\<lambda>n. 400 * int n), tp_id = (\<lambda>_. ''i''), tp_time = (\<lambda>_. ''t''), tp_number_text = (\<lambda>_. ''n'') \<rparr>"

definition ex_price :: "string \<Rightarrow> EventEnvelope" where
  "ex_price i = \<lparr> ev_id = i, ev_type = ''market.price'', ev_version = 1, ev_source = ''feed'', ev_correlationId = i, ev_causationId = None,
     ev_occurredAt = ''2026'', ev_block = None, ev_provenance = None,
     ev_payload = Jv_object [(''symbol'', Jv_string ''SOL''), (''value'', Jv_number (JNum 12))] \<rparr>"

lemma ex_triggers:
  "run_log ex_trigger_config ex_trigger_ports [Evaluate (ex_price ''a''), Evaluate (ex_price ''a''), Evaluate (ex_price ''b''), Evaluate (ex_price ''c'')]
     engine_started = [(''trigger.price.threshold:SOL'', 400, ''a''), (''trigger.price.threshold:SOL'', 2000, ''c'')]"
  by (simp add: evaluate_eq eval_item_def trigger_type_def over_def payload_field_def trigger_key_def ex_trigger_config_def
      ex_trigger_ports_def ex_price_def engine_started_def noted_def timed_def debounce_def emit_state cooling_def cooldown_def js_le_def Let_def)

end
