(* ===== verification/AgentTools.thy ===== *)
theory AgentTools
  imports EventBus
begin

text \<open>
  \<open>src/src/agent/tools/registry.ts\<close> and the dispatcher of \<open>src/src/app/adapters.ts\<close>: the registry of tools,
  the checks before a tool is executed, and how the runtime sees its tools. The availability check,
  the schemas and the execution of a tool are ports on the world \<open>'w\<close>; descriptions and the JSON schemas
  for the model are left out. \<open>undefined\<close> is \<open>None\<close>.
\<close>

datatype ToolEffect = Eff_read | Eff_write | Eff_trade | Eff_admin

datatype ToolErrorCode =
    T_unknown_tool | T_capability_denied | T_unavailable | T_invalid_input | T_invalid_output
  | T_timeout | T_cancelled | T_execution_error

text \<open>
  What became of an execution that raced with the timer and the caller's signal: its value, or an
  error with whether the signal was raised and whether the timer raised it.
\<close>

datatype tool_outcome = Tool_value "jvalue option" | Tool_threw string bool bool

record 'w ToolDefinition =
  td_name :: string
  td_capabilities :: "string list"
  td_effect :: ToolEffect
  td_parallelSafe :: bool
  td_availability :: "('w, string, (bool \<times> string option)) eff option"
  td_input :: "jvalue option \<Rightarrow> jvalue + jvalue option"
  td_output :: "jvalue option \<Rightarrow> jvalue + jvalue option"
  td_execute :: "jvalue option \<Rightarrow> string \<Rightarrow> string list \<Rightarrow> 'w \<Rightarrow> tool_outcome \<times> 'w"

record ToolError =
  te_code :: ToolErrorCode
  te_message :: string
  te_details :: "jvalue option"

datatype ToolResult = Tool_ok string string "jvalue option" | Tool_failed string string ToolError

record ToolAuditEvent =
  ta_phase :: string
  ta_invocationId :: string
  ta_tool :: string
  ta_effect :: ToolEffect
  ta_parallelSafe :: bool
  ta_ok :: "bool option"
  ta_errorCode :: "ToolErrorCode option"

text \<open>\<open>rg_audit\<close>: the observer, whose exceptions are swallowed; the order of names is a port, as \<open>localeCompare\<close> is.\<close>

record 'w ToolRegistry =
  rg_tools :: "'w ToolDefinition list"
  rg_toolsets :: "(string \<times> string list) list"
  rg_sequence :: int
  rg_world :: 'w

record 'w RegistryOptions =
  ro_audit :: "ToolAuditEvent \<Rightarrow> 'w \<Rightarrow> 'w"
  ro_collate :: "string \<Rightarrow> rat"

type_synonym ('w, 'a) registry = "('w ToolRegistry, string, 'a) eff"

definition worldR :: "('w, 'e, 'a) eff \<Rightarrow> ('w ToolRegistry, 'e, 'a) eff" where
  "worldR m = (\<lambda>g. case m (rg_world g) of (r, w) \<Rightarrow> (r, g\<lparr> rg_world := w \<rparr>))"

definition tool_of :: "string \<Rightarrow> 'w ToolRegistry \<Rightarrow> 'w ToolDefinition option" where
  "tool_of n g = find_where (\<lambda>t. td_name t = n) (rg_tools g)"

definition register_tool :: "'w ToolDefinition \<Rightarrow> ('w, unit) registry" where
  "register_tool t =
     bindE (getE (tool_of (td_name t))) (\<lambda>old.
     seqE (guardE (old \<noteq> None) (''Tool already registered: '' @ td_name t))
          (modifyE (\<lambda>g. g\<lparr> rg_tools := rg_tools g @ [t] \<rparr>)))"

definition defineToolset :: "string \<Rightarrow> string list \<Rightarrow> ('w, unit) registry" where
  "defineToolset name tools =
     bindE (getE (\<lambda>g. find_where (\<lambda>t. tool_of t g = None) tools)) (\<lambda>u. case u of
         Some t \<Rightarrow> throwE (''Unknown tool: '' @ t)
       | None \<Rightarrow> modifyE (\<lambda>g. g\<lparr> rg_toolsets := upsert name tools (rg_toolsets g) \<rparr>))"

definition tool_granted :: "string list \<Rightarrow> 'w ToolDefinition \<Rightarrow> bool" where
  "tool_granted caps t \<longleftrightarrow> list_all (\<lambda>c. c \<in> set caps) (td_capabilities t)"

definition select_tools :: "'w RegistryOptions \<Rightarrow> string option \<Rightarrow> string list \<Rightarrow> bool \<Rightarrow> 'w ToolRegistry \<Rightarrow> 'w ToolDefinition list" where
  "select_tools ro toolset caps privileged g =
     (let names = (case toolset of
            None \<Rightarrow> None
          | Some s \<Rightarrow> if s = [] then None else Some (case map_of (rg_toolsets g) s of None \<Rightarrow> [] | Some l \<Rightarrow> l))
      in sort_key (\<lambda>t. ro_collate ro (td_name t))
           (filter (\<lambda>t. (case names of None \<Rightarrow> True | Some l \<Rightarrow> td_name t \<in> set l) \<and> (privileged \<or> caps \<noteq> [] \<and> tool_granted caps t)) (rg_tools g)))"

definition list_tools :: "'w RegistryOptions \<Rightarrow> string option \<Rightarrow> string list \<Rightarrow> 'w ToolRegistry \<Rightarrow> 'w ToolDefinition list" where
  "list_tools ro toolset caps = select_tools ro toolset caps False"

definition listPrivileged :: "'w RegistryOptions \<Rightarrow> string option \<Rightarrow> 'w ToolRegistry \<Rightarrow> 'w ToolDefinition list" where
  "listPrivileged ro toolset = select_tools ro toolset [] True"

definition require_tool :: "string \<Rightarrow> 'w ToolRegistry \<Rightarrow> string + 'w ToolDefinition" where
  "require_tool n g = (case tool_of n g of None \<Rightarrow> Inl (''Unknown tool: '' @ n) | Some t \<Rightarrow> Inr t)"

definition classify_tool :: "string \<Rightarrow> 'w ToolRegistry \<Rightarrow> string + ToolEffect \<times> bool" where
  "classify_tool n g = (case require_tool n g of Inl x \<Rightarrow> Inl x | Inr t \<Rightarrow> Inr (td_effect t, td_parallelSafe t))"

definition emit_audit :: "'w RegistryOptions \<Rightarrow> ToolAuditEvent \<Rightarrow> ('w, unit) registry" where
  "emit_audit ro e = modifyE (\<lambda>g. g\<lparr> rg_world := ro_audit ro e (rg_world g) \<rparr>)"

definition invocation_id :: "string option \<Rightarrow> ('w, string) registry" where
  "invocation_id i = (case i of
      Some x \<Rightarrow> returnE x
    | None \<Rightarrow> seqE (modifyE (\<lambda>g. g\<lparr> rg_sequence := rg_sequence g + 1 \<rparr>)) (getE (\<lambda>g. ''tool-'' @ show_int (rg_sequence g))))"

definition tool_failure :: "string \<Rightarrow> string \<Rightarrow> ToolErrorCode \<Rightarrow> string \<Rightarrow> jvalue option \<Rightarrow> ToolResult" where
  "tool_failure name i code msg details = Tool_failed i name \<lparr> te_code = code, te_message = msg, te_details = details \<rparr>"

definition reject_tool :: "'w RegistryOptions \<Rightarrow> string \<Rightarrow> string \<Rightarrow> 'w ToolDefinition option \<Rightarrow> ToolErrorCode \<Rightarrow> string \<Rightarrow> jvalue option \<Rightarrow> ('w, ToolResult) registry" where
  "reject_tool ro name i t code msg details =
     seqE (emit_audit ro \<lparr> ta_phase = ''finish'', ta_invocationId = i, ta_tool = name,
             ta_effect = (case t of None \<Rightarrow> Eff_admin | Some d \<Rightarrow> td_effect d),
             ta_parallelSafe = (case t of None \<Rightarrow> False | Some d \<Rightarrow> td_parallelSafe d), ta_ok = Some False, ta_errorCode = Some code \<rparr>)
          (returnE (tool_failure name i code msg details))"

definition tool_status :: "'w ToolDefinition \<Rightarrow> ('w, string, (bool \<times> string option)) eff" where
  "tool_status t = (case td_availability t of None \<Rightarrow> returnE (True, None) | Some m \<Rightarrow> m)"

definition outcome_result :: "'w ToolDefinition \<Rightarrow> string \<Rightarrow> string \<Rightarrow> tool_outcome \<Rightarrow> ToolResult" where
  "outcome_result t name i v =
     (case v of
        Tool_value d \<Rightarrow>
          (case td_output t d of
             Inr x \<Rightarrow> Tool_ok i name x
           | Inl details \<Rightarrow> tool_failure name i T_invalid_output ''Output validation failed'' (Some details))
      | Tool_threw msg aborted timeout \<Rightarrow>
          tool_failure name i (if aborted then if timeout then T_timeout else T_cancelled else T_execution_error) msg None)"

definition execute_tool :: "'w RegistryOptions \<Rightarrow> 'w ToolDefinition \<Rightarrow> string \<Rightarrow> string \<Rightarrow> string list \<Rightarrow> jvalue option \<Rightarrow> ('w, ToolResult) registry" where
  "execute_tool ro t name i caps x =
     seqE (emit_audit ro \<lparr> ta_phase = ''start'', ta_invocationId = i, ta_tool = name, ta_effect = td_effect t,
             ta_parallelSafe = td_parallelSafe t, ta_ok = None, ta_errorCode = None \<rparr>)
    (bindE (worldR (\<lambda>w. case td_execute t x i caps w of (v, w') \<Rightarrow> (Inr v, w'))) (\<lambda>v.
     let r = outcome_result t name i v in
     seqE (emit_audit ro \<lparr> ta_phase = ''finish'', ta_invocationId = i, ta_tool = name, ta_effect = td_effect t,
             ta_parallelSafe = td_parallelSafe t, ta_ok = Some (case r of Tool_ok _ _ _ \<Rightarrow> True | Tool_failed _ _ _ \<Rightarrow> False),
             ta_errorCode = (case r of Tool_ok _ _ _ \<Rightarrow> None | Tool_failed _ _ e \<Rightarrow> Some (te_code e)) \<rparr>)
          (returnE r)))"

definition invoke_found :: "'w RegistryOptions \<Rightarrow> string \<Rightarrow> jvalue option \<Rightarrow> string list \<Rightarrow> string \<Rightarrow> 'w ToolDefinition option \<Rightarrow> ('w, ToolResult) registry" where
  "invoke_found ro name input caps i found =
     (case found of
        None \<Rightarrow> reject_tool ro name i None T_unknown_tool (''Unknown tool: '' @ name) None
      | Some t \<Rightarrow>
          if \<not> tool_granted caps t
          then reject_tool ro name i (Some t) T_capability_denied ''Required capability not granted'' None
          else bindE (catchE (bindE (worldR (tool_status t)) (\<lambda>s. returnE (Inr s))) (\<lambda>msg. returnE (Inl msg))) (\<lambda>status.
            case status of
              Inl msg \<Rightarrow> reject_tool ro name i (Some t) T_unavailable msg None
            | Inr (ok, reason) \<Rightarrow>
                if \<not> ok
                then reject_tool ro name i (Some t) T_unavailable (case reason of None \<Rightarrow> ''Tool unavailable'' | Some x \<Rightarrow> x) None
                else (case td_input t input of
                    Inl details \<Rightarrow> reject_tool ro name i (Some t) T_invalid_input ''Input validation failed'' (Some details)
                  | Inr x \<Rightarrow> execute_tool ro t name i caps x)))"

definition invoke :: "'w RegistryOptions \<Rightarrow> string \<Rightarrow> jvalue option \<Rightarrow> string list \<Rightarrow> string option \<Rightarrow> ('w, ToolResult) registry" where
  "invoke ro name input caps given =
     bindE (invocation_id given) (\<lambda>i. bindE (getE (tool_of name)) (invoke_found ro name input caps i))"

section \<open>What the checks guarantee\<close>

text \<open>A world property that everything but the execution of tools keeps.\<close>

definition registry_quiet :: "'w RegistryOptions \<Rightarrow> ('w \<Rightarrow> bool) \<Rightarrow> 'w ToolRegistry \<Rightarrow> bool" where
  "registry_quiet ro I g \<longleftrightarrow> (\<forall>e w. I w \<longrightarrow> I (ro_audit ro e w)) \<and>
     (\<forall>t \<in> set (rg_tools g). \<forall>w. I w \<longrightarrow> I (snd (tool_status t w)))"

definition executes_safely :: "('w \<Rightarrow> bool) \<Rightarrow> 'w ToolDefinition \<Rightarrow> bool" where
  "executes_safely I t \<longleftrightarrow> (\<forall>x i caps w. I w \<longrightarrow> I (snd (td_execute t x i caps w)))"

lemma tool_of_member: "tool_of n g = Some t \<Longrightarrow> t \<in> set (rg_tools g) \<and> td_name t = n"
  unfolding tool_of_def by (rule find_where_Some)

text \<open>An invocation touches the world only through the availability check and the execution of a tool that is registered under the name and granted.\<close>

definition registry_after :: "('w \<Rightarrow> bool) \<Rightarrow> 'w ToolRegistry \<Rightarrow> 'w ToolRegistry \<Rightarrow> bool" where
  "registry_after I g g' \<longleftrightarrow> I (rg_world g') \<and> rg_tools g' = rg_tools g"

lemma wp_audit: "registry_quiet ro I g \<Longrightarrow> registry_after I g h \<Longrightarrow> (\<And>h'. registry_after I g h' \<Longrightarrow> Q () h') \<Longrightarrow> wp (emit_audit ro e) Q E h"
  by (simp add: emit_audit_def wp_modifyE registry_after_def registry_quiet_def)

lemma wp_reject:
  "registry_quiet ro I g \<Longrightarrow> registry_after I g h \<Longrightarrow> (\<And>r h'. registry_after I g h' \<Longrightarrow> Q r h') \<Longrightarrow> wp (reject_tool ro n i t c m d) Q E h"
  unfolding reject_tool_def wp_seqE by (rule wp_audit [of ro I g]) (simp_all add: wp_returnE)

lemma wp_worldR: "wp (worldR m) Q E h = wp m (\<lambda>x w. Q x (h\<lparr> rg_world := w \<rparr>)) (\<lambda>x w. E x (h\<lparr> rg_world := w \<rparr>)) (rg_world h)"
  by (auto simp: wp_def worldR_def split: prod.split sum.split)

lemma wp_execute:
  assumes "registry_quiet ro I g" "registry_after I g h" "executes_safely I t" "\<And>r h'. registry_after I g h' \<Longrightarrow> Q r h'"
  shows "wp (execute_tool ro t n i caps x) Q E h"
  unfolding execute_tool_def wp_seqE
proof (rule wp_audit [OF assms(1,2)])
  fix h1 :: "'a ToolRegistry" assume h1: "registry_after I g h1"
  obtain v w where v: "td_execute t x i caps (rg_world h1) = (v, w)" by fastforce
  then have "registry_after I g (h1\<lparr> rg_world := w \<rparr>)"
    using assms(3) h1 unfolding executes_safely_def registry_after_def by (simp, metis snd_conv)
  then show "wp (bindE (worldR (\<lambda>w. case td_execute t x i caps w of (v, w') \<Rightarrow> (Inr v, w')))
     (\<lambda>v. let r = outcome_result t n i v in
       seqE (emit_audit ro \<lparr>ta_phase = ''finish'', ta_invocationId = i, ta_tool = n, ta_effect = td_effect t, ta_parallelSafe = td_parallelSafe t,
             ta_ok = Some (case r of Tool_ok x xa xb \<Rightarrow> True | Tool_failed x xa xb \<Rightarrow> False),
             ta_errorCode = case r of Tool_ok x xa xb \<Rightarrow> None | Tool_failed x xa e \<Rightarrow> Some (te_code e)\<rparr>) (returnE r))) Q E h1"
    using v by (auto simp: wp_bindE wp_worldR wp_def [of "\<lambda>w. case td_execute t x i caps w of (v, w') \<Rightarrow> (Inr v, w')"] Let_def wp_seqE wp_returnE
        intro!: wp_audit [OF assms(1)] assms(4))
qed

lemma wp_invoke:
  assumes "registry_quiet ro I g" "registry_after I g h" "\<And>r h'. registry_after I g h' \<Longrightarrow> Q r h'"
    "\<And>t. tool_of name g = Some t \<Longrightarrow> tool_granted caps t \<Longrightarrow> executes_safely I t"
  shows "wp (invoke ro name input caps given) Q E h"
proof -
  note reject = wp_reject [OF assms(1) _ assms(3)]
  have same: "tool_of name h' = tool_of name g" if "registry_after I g h'" for h'
    using that by (simp add: tool_of_def registry_after_def)
  have body: "wp (invoke_found ro name input caps i (tool_of name g)) Q E h1" if h1: "registry_after I g h1" for h1 i
  proof (cases "tool_of name g")
    case None
    then show ?thesis using reject [OF h1] by (simp add: invoke_found_def)
  next
    case (Some t)
    then have t: "t \<in> set (rg_tools g)" using tool_of_member by blast
    obtain q w where q: "tool_status t (rg_world h1) = (q, w)" by fastforce
    then have after: "registry_after I g (h1\<lparr> rg_world := w \<rparr>)"
      using assms(1) t h1 unfolding registry_quiet_def registry_after_def by (simp, metis snd_conv)
    show ?thesis
    proof (cases "tool_granted caps t")
      case False
      then show ?thesis using Some reject [OF h1] by (simp add: invoke_found_def)
    next
      case True
      note exec = wp_execute [OF assms(1) after assms(4) [OF Some True] assms(3)]
      show ?thesis
        using Some True q reject [OF after] exec
        by (auto simp: invoke_found_def wp_simps wp_worldR wp_def [of "tool_status t"] split: sum.split prod.split)
    qed
  qed
  show ?thesis unfolding invoke_def invocation_id_def
    using assms(2) by (auto simp: wp_simps same registry_after_def split: option.split intro!: body)
qed

end
