(* ===== verification/AgentRuntime.thy ===== *)
theory AgentRuntime
  imports AgentTools
begin

text \<open>
  \<open>src/src/agent/runtime/index.ts\<close>: the loop between a language model and the tools. The providers, the
  dispatcher, the persistence and the consumer of the events are ports on the world \<open>'w\<close>, which also holds
  the signals: the caller's, the timer's and the controller's. The consumer takes every event; a run it
  abandons stops at some event.
\<close>

datatype tool_effect = Effect_read | Effect_proposal | Effect_write

text \<open>A call as the model sent it: an identity or a name that is not a string, or a call that is none, is \<open>None\<close>.\<close>

record ToolCall =
  tc_id :: "string option"
  tc_name :: "string option"
  tc_arguments :: "jvalue option"

datatype tool_calls = No_calls | Calls "ToolCall list" | Not_a_list

record AssistantMessage =
  am_role :: string
  am_content :: "string option"
  am_toolCalls :: tool_calls

text \<open>The answer of a model; \<open>None\<close> has no message.\<close>

type_synonym ModelResponse = "AssistantMessage option"

datatype AgentMessage =
    Msg_text string string
  | Msg_assistant AssistantMessage
  | Msg_tool string string string

record ToolDispatchResult =
  dr_ok :: bool
  dr_toolCallId :: "string option"
  dr_name :: "string option"
  dr_data :: "jvalue option"
  dr_error :: "jvalue option"

datatype RuntimeErrorCode =
    ITERATION_BUDGET_EXCEEDED | TOOL_BUDGET_EXCEEDED | LOOP_DETECTED | DEADLINE_EXCEEDED
  | MODEL_ERROR | UNSAFE_TOOL | NO_TOOL_DISPATCHER | RECONCILIATION_REQUIRED

text \<open>What is thrown: an error of the runtime, any other, or the reason of the signal.\<close>

datatype agent_error = Runtime_error RuntimeErrorCode string | Plain_error string | Signal_reason

datatype agent_event =
    Run_started
  | Iteration_started nat
  | Model_requested string nat
  | Provider_failed string string
  | Model_responded string ModelResponse
  | Tool_started ToolCall
  | Tool_completed ToolCall ToolDispatchResult
  | Run_completed AssistantMessage nat nat
  | Run_failed RuntimeErrorCode string
  | Run_cancelled "string option"

datatype lifecycle =
    Planned ToolCall | Started ToolCall | Succeeded ToolCall ToolDispatchResult
  | Failed ToolCall agent_error | Reconcile ToolCall ToolDispatchResult string

text \<open>
  Limits as numbers and the ports. A pending model or tool call gives \<open>None\<close> when the signal is raised
  before it settles. The order of \<open>localeCompare\<close> and the text of a number are ports.
\<close>

record RuntimeLimits =
  rl_maxIterations :: "jsnum option"
  rl_maxToolCalls :: "jsnum option"
  rl_maxRepeatedToolCalls :: "jsnum option"

record 'w AgentPorts =
  ap_providers :: "string list"
  ap_tools :: bool
  ap_maxIterations :: nat
  ap_maxToolCalls :: nat
  ap_maxRepeated :: nat
  ap_now :: "'w \<Rightarrow> int"
  ap_aborted :: "'w \<Rightarrow> bool"
  ap_timedOut :: "'w \<Rightarrow> bool"
  ap_reason :: "'w \<Rightarrow> string option"
  ap_consume :: "agent_event \<Rightarrow> 'w \<Rightarrow> 'w"
  ap_complete :: "nat \<Rightarrow> AgentMessage list \<Rightarrow> 'w \<Rightarrow> (string + ModelResponse) option \<times> 'w"
  ap_classify :: "string \<Rightarrow> string + tool_effect option"
  ap_dispatch :: "ToolCall \<Rightarrow> 'w \<Rightarrow> (string + ToolDispatchResult) option \<times> 'w"
  ap_persistMessage :: "AgentMessage \<Rightarrow> ('w, string, unit) eff"
  ap_persistLifecycle :: "lifecycle \<Rightarrow> ('w, string, unit) eff"
  ap_collate :: "string \<Rightarrow> rat"
  ap_number_text :: "jsnum \<Rightarrow> string"

text \<open>The constructor: at least one provider, and limits that are positive whole numbers.\<close>

fun limit_ok :: "jsnum \<Rightarrow> bool" where
  "limit_ok (JNum q) = (of_int \<lfloor>q\<rfloor> = q \<and> q > 0)"
| "limit_ok _ = False"

definition limit_nat :: "jsnum \<Rightarrow> nat" where
  "limit_nat x = (case x of JNum q \<Rightarrow> nat \<lfloor>q\<rfloor> | _ \<Rightarrow> 0)"

definition agent_runtime :: "RuntimeLimits \<Rightarrow> 'w AgentPorts \<Rightarrow> agent_error + 'w AgentPorts" where
  "agent_runtime l d =
     (let iterations = (case rl_maxIterations l of None \<Rightarrow> JNum 8 | Some x \<Rightarrow> x);
          calls = (case rl_maxToolCalls l of None \<Rightarrow> JNum 16 | Some x \<Rightarrow> x);
          repeated = (case rl_maxRepeatedToolCalls l of None \<Rightarrow> JNum 3 | Some x \<Rightarrow> x) in
      if ap_providers d = [] then Inl (Runtime_error MODEL_ERROR ''At least one provider is required'')
      else if \<not> limit_ok iterations then Inl (Runtime_error MODEL_ERROR ''maxIterations must be a positive integer'')
      else if \<not> limit_ok calls then Inl (Runtime_error MODEL_ERROR ''maxToolCalls must be a positive integer'')
      else if \<not> limit_ok repeated then Inl (Runtime_error MODEL_ERROR ''maxRepeatedToolCalls must be a positive integer'')
      else Inr (d\<lparr> ap_maxIterations := limit_nat iterations, ap_maxToolCalls := limit_nat calls,
        ap_maxRepeated := limit_nat repeated \<rparr>))"

record 'w AgentRun =
  ag_world :: 'w
  ag_events :: "(int \<times> agent_event) list"
  ag_messages :: "AgentMessage list"
  ag_toolCount :: nat
  ag_sideEffects :: bool
  ag_activeProvider :: nat
  ag_repeated :: "(string \<times> nat) list"

type_synonym ('w, 'a) agent = "('w AgentRun, agent_error, 'a) eff"

definition agent_start :: "AgentMessage list \<Rightarrow> 'w \<Rightarrow> 'w AgentRun" where
  "agent_start ms w = \<lparr> ag_world = w, ag_events = [], ag_messages = ms, ag_toolCount = 0, ag_sideEffects = False,
     ag_activeProvider = 0, ag_repeated = [] \<rparr>"

definition yieldE :: "'w AgentPorts \<Rightarrow> agent_event \<Rightarrow> ('w, unit) agent" where
  "yieldE d e = modifyE (\<lambda>s. s\<lparr> ag_events := ag_events s @ [(ap_now d (ag_world s), e)], ag_world := ap_consume d e (ag_world s) \<rparr>)"

definition is_aborted :: "'w AgentPorts \<Rightarrow> ('w, bool) agent" where
  "is_aborted d = getE (\<lambda>s. ap_aborted d (ag_world s))"

definition port :: "('w, string, 'a) eff \<Rightarrow> ('w, 'a) agent" where
  "port m = (\<lambda>s. case m (ag_world s) of
      (Inl x, w) \<Rightarrow> (Inl (Plain_error x), s\<lparr> ag_world := w \<rparr>) | (Inr x, w) \<Rightarrow> (Inr x, s\<lparr> ag_world := w \<rparr>))"

text \<open>The call is made before the signal is looked at.\<close>

definition abortable :: "'w AgentPorts \<Rightarrow> ('w \<Rightarrow> (string + 'a) option \<times> 'w) \<Rightarrow> ('w, 'a) agent" where
  "abortable d m = (\<lambda>s. case m (ag_world s) of (r, w) \<Rightarrow>
     (if ap_aborted d (ag_world s) then Inl Signal_reason
      else case r of None \<Rightarrow> Inl Signal_reason | Some (Inl x) \<Rightarrow> Inl (Plain_error x) | Some (Inr x) \<Rightarrow> Inr x,
      s\<lparr> ag_world := w \<rparr>))"

definition error_text :: "agent_error \<Rightarrow> string" where
  "error_text e = (case e of Runtime_error _ m \<Rightarrow> m | Plain_error m \<Rightarrow> m | Signal_reason \<Rightarrow> ''aborted'')"

section \<open>Text and names\<close>

text \<open>\<open>stableStringify\<close>; \<open>None\<close> is the \<open>TypeError\<close> of \<open>JSON.stringify\<close> on a \<open>bigint\<close>.\<close>

fun stable_text :: "(string \<Rightarrow> rat) \<Rightarrow> (jsnum \<Rightarrow> string) \<Rightarrow> jvalue \<Rightarrow> string option" where
  "stable_text c f Jv_null = Some ''null''"
| "stable_text c f (Jv_bool b) = Some (if b then ''true'' else ''false'')"
| "stable_text c f (Jv_number x) = Some (if js_isFinite x then f x else ''null'')"
| "stable_text c f (Jv_bigint n) = None"
| "stable_text c f (Jv_string s) = Some (json_quote s)"
| "stable_text c f (Jv_array l) = map_option (\<lambda>ts. ''['' @ join ts @ '']'') (traverse (map (stable_text c f) l))"
| "stable_text c f (Jv_object fs) = map_option (\<lambda>ts. CHR ''{'' # join (map (\<lambda>(k, t). json_quote k @ '':'' @ t) (sort_key (\<lambda>e. c (fst e)) ts)) @ ''}'')
     (traverse (map (\<lambda>(k, v). map_option (Pair k) (stable_text c f v)) fs))"

definition stableStringify :: "'w AgentPorts \<Rightarrow> jvalue option \<Rightarrow> agent_error + string" where
  "stableStringify d v = (case v of
      None \<Rightarrow> Inr ''undefined''
    | Some x \<Rightarrow> (case stable_text (ap_collate d) (ap_number_text d) x of
        None \<Rightarrow> Inl (Plain_error ''Do not know how to serialize a BigInt'') | Some t \<Rightarrow> Inr t))"

text \<open>The members of a dispatch result; one that is \<open>undefined\<close> counts as absent.\<close>

definition result_value :: "ToolDispatchResult \<Rightarrow> jvalue" where
  "result_value r = Jv_object (
     [(''ok'', Jv_bool (dr_ok r))] @
     (case dr_toolCallId r of None \<Rightarrow> [] | Some x \<Rightarrow> [(''toolCallId'', Jv_string x)]) @
     (case dr_name r of None \<Rightarrow> [] | Some x \<Rightarrow> [(''name'', Jv_string x)]) @
     (case dr_data r of None \<Rightarrow> [] | Some x \<Rightarrow> [(''data'', x)]) @
     (case dr_error r of None \<Rightarrow> [] | Some x \<Rightarrow> [(''error'', x)]))"

text \<open>The pattern of \<open>deniedTool\<close>: a denied word between separators, or \<open>wallet\<close> anywhere, in any case.\<close>

definition lower :: "char \<Rightarrow> char" where
  "lower c = (let n = of_char c :: nat in if 65 \<le> n \<and> n \<le> 90 then char_of (n + 32) else c)"

fun words_of :: "string \<Rightarrow> string list" where
  "words_of [] = [[]]"
| "words_of (c # s) = (if c \<in> {CHR ''.'', CHR ''_'', CHR ''-''} then [] # words_of s
     else (case words_of s of w # ws \<Rightarrow> (c # w) # ws | [] \<Rightarrow> [[c]]))"

fun occurs_in :: "string \<Rightarrow> string \<Rightarrow> bool" where
  "occurs_in p [] = (p = [])"
| "occurs_in p (c # s) = (take (length p) (c # s) = p \<or> occurs_in p s)"

definition deniedTool :: "string \<Rightarrow> bool" where
  "deniedTool name \<longleftrightarrow> list_ex (\<lambda>w. w \<in> {''sign'', ''signer'', ''send'', ''broadcast'', ''write'', ''execute''}) (words_of (map lower name)) \<or>
     occurs_in ''wallet'' (map lower name)"

section \<open>The stages of a run\<close>

definition valid_response :: "ModelResponse \<Rightarrow> bool" where
  "valid_response r = (case r of None \<Rightarrow> False
     | Some m \<Rightarrow> am_role m = ''assistant'' \<and> am_content m \<noteq> None \<and> am_toolCalls m \<noteq> Not_a_list)"

definition calls_of :: "AssistantMessage \<Rightarrow> ToolCall list" where
  "calls_of m = (case am_toolCalls m of Calls cs \<Rightarrow> cs | _ \<Rightarrow> [])"

definition ask_provider :: "'w AgentPorts \<Rightarrow> nat \<Rightarrow> ('w, AssistantMessage) agent" where
  "ask_provider d i =
     bindE (getE ag_messages) (\<lambda>ms.
     bindE (abortable d (ap_complete d i ms)) (\<lambda>r.
     seqE (guardE (\<not> valid_response r) (Runtime_error MODEL_ERROR ''Malformed model response''))
    (seqE (modifyE (\<lambda>s. s\<lparr> ag_activeProvider := i \<rparr>))
    (seqE (yieldE d (Model_responded (ap_providers d ! i) r))
          (case r of None \<Rightarrow> throwE (Runtime_error MODEL_ERROR ''Malformed model response'') | Some m \<Rightarrow> returnE m)))))"

text \<open>One provider that fails: the next is asked, unless a proposal was made or there is none.\<close>

definition provider_failed :: "'w AgentPorts \<Rightarrow> nat \<Rightarrow> bool \<Rightarrow> agent_error \<Rightarrow> ('w, AssistantMessage option) agent" where
  "provider_failed d i is_last e =
     bindE (is_aborted d) (\<lambda>a.
     if a then throwE e
     else seqE (yieldE d (Provider_failed (ap_providers d ! i) (error_text e)))
            (bindE (getE ag_sideEffects) (\<lambda>effects.
             if effects \<or> is_last then throwE (Runtime_error MODEL_ERROR (error_text e)) else returnE None)))"

text \<open>The providers from the active one on, \<open>n\<close> of which are left.\<close>

fun ask_model :: "'w AgentPorts \<Rightarrow> nat \<Rightarrow> nat \<Rightarrow> nat \<Rightarrow> ('w, AssistantMessage) agent" where
  "ask_model d iteration i 0 = throwE (Runtime_error MODEL_ERROR ''No model response'')"
| "ask_model d iteration i (Suc n) =
     seqE (yieldE d (Model_requested (ap_providers d ! i) iteration))
    (bindE (catchE (bindE (ask_provider d i) (\<lambda>m. returnE (Some m))) (provider_failed d i (n = 0))) (\<lambda>r.
     case r of Some m \<Rightarrow> returnE m | None \<Rightarrow> ask_model d iteration (i + 1) n))"

definition repeated_calls :: "string \<Rightarrow> (string \<times> nat) list \<Rightarrow> nat" where
  "repeated_calls g t = (case map_of t g of None \<Rightarrow> 0 | Some n \<Rightarrow> n)"

definition check_call :: "'w AgentPorts \<Rightarrow> (string \<times> nat) list \<Rightarrow> string set \<Rightarrow> ToolCall \<Rightarrow> agent_error + string \<times> string \<times> tool_effect" where
  "check_call d repeated seen c =
     (case (tc_id c, tc_name c) of
        (Some i, Some name) \<Rightarrow>
          if \<not> nonempty i \<or> i \<in> seen \<or> \<not> nonempty name then Inl (Runtime_error MODEL_ERROR ''Malformed or duplicate tool call'')
          else (case stableStringify d (tc_arguments c) of
              Inl e \<Rightarrow> Inl e
            | Inr t \<Rightarrow>
                if repeated_calls (name @ '':'' @ t) repeated + 1 > ap_maxRepeated d
                then Inl (Runtime_error LOOP_DETECTED (''Repeated tool call detected: '' @ name))
                else (case ap_classify d name of
                    Inl x \<Rightarrow> Inl (Plain_error x)
                  | Inr eff \<Rightarrow>
                      if eff \<notin> {Some Effect_read, Some Effect_proposal} \<or> deniedTool name
                      then Inl (Runtime_error UNSAFE_TOOL (''Runtime cannot execute tool: '' @ name))
                      else Inr (i, name @ '':'' @ t, the eff)))
      | _ \<Rightarrow> Inl (Runtime_error MODEL_ERROR ''Malformed or duplicate tool call''))"

fun check_calls :: "'w AgentPorts \<Rightarrow> (string \<times> nat) list \<Rightarrow> string set \<Rightarrow> ToolCall list \<Rightarrow> agent_error + (ToolCall \<times> string \<times> tool_effect) list" where
  "check_calls d repeated seen [] = Inr []"
| "check_calls d repeated seen (c # cs) =
     (case check_call d repeated seen c of
        Inl e \<Rightarrow> Inl e
      | Inr (i, g, eff) \<Rightarrow>
          (case check_calls d repeated (insert i seen) cs of Inl e \<Rightarrow> Inl e | Inr vs \<Rightarrow> Inr ((c, g, eff) # vs)))"

definition push_message :: "AgentMessage \<Rightarrow> ('w, unit) agent" where
  "push_message m = modifyE (\<lambda>s. s\<lparr> ag_messages := ag_messages s @ [m] \<rparr>)"

definition count_call :: "string \<Rightarrow> ('w, unit) agent" where
  "count_call g = modifyE (\<lambda>s. s\<lparr> ag_repeated := upsert g (repeated_calls g (ag_repeated s) + 1) (ag_repeated s) \<rparr>)"

definition dispatch_call :: "'w AgentPorts \<Rightarrow> ToolCall \<Rightarrow> tool_effect \<Rightarrow> ('w, ToolDispatchResult) agent" where
  "dispatch_call d c eff =
     catchE (bindE (abortable d (ap_dispatch d c)) (\<lambda>r.
             seqE (modifyE (\<lambda>s. s\<lparr> ag_toolCount := ag_toolCount s + 1, ag_sideEffects := (ag_sideEffects s \<or> eff = Effect_proposal) \<rparr>))
            (seqE (port (ap_persistLifecycle d (Succeeded c r))) (returnE r))))
       (\<lambda>e. bindE (is_aborted d) (\<lambda>a. seqE (whenE (\<not> a) (port (ap_persistLifecycle d (Failed c e)))) (throwE e)))"

definition tool_message :: "ToolCall \<Rightarrow> string \<Rightarrow> AgentMessage" where
  "tool_message c t = Msg_tool t (the (tc_id c)) (the (tc_name c))"

definition keep_result :: "'w AgentPorts \<Rightarrow> ToolCall \<Rightarrow> ToolDispatchResult \<Rightarrow> ('w, unit) agent" where
  "keep_result d c r =
     bindE (liftE (stableStringify d (Some (result_value r)))) (\<lambda>t.
     catchE (seqE (port (ap_persistMessage d (tool_message c t))) (push_message (tool_message c t)))
       (\<lambda>e. seqE (port (ap_persistLifecycle d (Reconcile c r (error_text e))))
              (throwE (Runtime_error RECONCILIATION_REQUIRED ''Tool executed but result persistence failed''))))"

definition call_tool :: "'w AgentPorts \<Rightarrow> ToolCall \<times> string \<times> tool_effect \<Rightarrow> ('w, unit) agent" where
  "call_tool d v = (case v of (c, g, eff) \<Rightarrow>
     seqE (count_call g)
    (seqE (port (ap_persistLifecycle d (Planned c)))
    (seqE (yieldE d (Tool_started c))
    (seqE (port (ap_persistLifecycle d (Started c)))
    (bindE (dispatch_call d c eff) (\<lambda>r.
     seqE (yieldE d (Tool_completed c r)) (keep_result d c r)))))))"

definition use_tools :: "'w AgentPorts \<Rightarrow> nat \<Rightarrow> AssistantMessage \<Rightarrow> ('w, unit) agent" where
  "use_tools d iteration m =
     seqE (guardE (iteration = ap_maxIterations d) (Runtime_error ITERATION_BUDGET_EXCEEDED ''Iteration budget exceeded''))
    (bindE (getE ag_toolCount) (\<lambda>n.
     seqE (guardE (n + length (calls_of m) > ap_maxToolCalls d) (Runtime_error TOOL_BUDGET_EXCEEDED ''Tool-call budget exceeded''))
    (seqE (guardE (\<not> ap_tools d) (Runtime_error NO_TOOL_DISPATCHER ''Model requested tools but no dispatcher is configured''))
    (bindE (getE ag_repeated) (\<lambda>repeated.
     bindE (liftE (check_calls d repeated {} (calls_of m))) (\<lambda>vs.
     seqE (port (ap_persistMessage d (Msg_assistant m)))
    (seqE (push_message (Msg_assistant m))
          (forE vs (call_tool d)))))))))"

text \<open>One iteration; \<open>True\<close> when the run is complete.\<close>

definition take_turn :: "'w AgentPorts \<Rightarrow> nat \<Rightarrow> ('w, bool) agent" where
  "take_turn d iteration =
     bindE (is_aborted d) (\<lambda>a.
     seqE (guardE a Signal_reason)
    (seqE (yieldE d (Iteration_started iteration))
    (bindE (getE ag_activeProvider) (\<lambda>i.
     bindE (ask_model d iteration i (length (ap_providers d) - i)) (\<lambda>m.
     if calls_of m = []
     then seqE (port (ap_persistMessage d (Msg_assistant m)))
         (bindE (getE ag_toolCount) (\<lambda>n.
          seqE (yieldE d (Run_completed m iteration n)) (returnE True)))
     else seqE (use_tools d iteration m) (returnE False))))))"

fun take_turns :: "'w AgentPorts \<Rightarrow> nat \<Rightarrow> ('w, unit) agent" where
  "take_turns d 0 = throwE (Runtime_error ITERATION_BUDGET_EXCEEDED ''Iteration budget exceeded'')"
| "take_turns d (Suc n) =
     bindE (take_turn d (ap_maxIterations d - n)) (\<lambda>complete. if complete then returnE () else take_turns d n)"

definition run_failed :: "'w AgentPorts \<Rightarrow> agent_error \<Rightarrow> ('w, unit) agent" where
  "run_failed d e =
     bindE (getE ag_world) (\<lambda>w.
     if ap_aborted d w
     then if ap_timedOut d w then yieldE d (Run_failed DEADLINE_EXCEEDED ''Run deadline exceeded'')
          else yieldE d (Run_cancelled (ap_reason d w))
     else yieldE d (case e of Runtime_error c m \<Rightarrow> Run_failed c m | _ \<Rightarrow> Run_failed MODEL_ERROR (error_text e)))"

definition run_agent :: "'w AgentPorts \<Rightarrow> AgentMessage list \<Rightarrow> 'w \<Rightarrow> 'w AgentRun" where
  "run_agent d ms w =
     snd (seqE (yieldE d Run_started) (catchE (take_turns d (ap_maxIterations d)) (run_failed d)) (agent_start ms w))"

section \<open>The registry as the dispatcher\<close>

text \<open>\<open>RegistryDispatcher\<close>, for a world that holds the registry.\<close>

definition registry_classify :: "string \<Rightarrow> 'w ToolRegistry \<Rightarrow> string + tool_effect option" where
  "registry_classify n g = (case classify_tool n g of
      Inl x \<Rightarrow> Inl x
    | Inr (eff, _) \<Rightarrow> Inr (Some (if eff = Eff_read then Effect_read else if eff = Eff_trade then Effect_proposal else Effect_write)))"

definition error_value :: "ToolErrorCode \<Rightarrow> string" where
  "error_value c = (case c of T_unknown_tool \<Rightarrow> ''UNKNOWN_TOOL'' | T_capability_denied \<Rightarrow> ''CAPABILITY_DENIED''
     | T_unavailable \<Rightarrow> ''UNAVAILABLE'' | T_invalid_input \<Rightarrow> ''INVALID_INPUT'' | T_invalid_output \<Rightarrow> ''INVALID_OUTPUT''
     | T_timeout \<Rightarrow> ''TIMEOUT'' | T_cancelled \<Rightarrow> ''CANCELLED'' | T_execution_error \<Rightarrow> ''EXECUTION_ERROR'')"

definition dispatch_result :: "ToolCall \<Rightarrow> ToolResult \<Rightarrow> ToolDispatchResult" where
  "dispatch_result c r = (case r of
      Tool_ok _ _ x \<Rightarrow> \<lparr> dr_ok = True, dr_toolCallId = tc_id c, dr_name = tc_name c, dr_data = x, dr_error = None \<rparr>
    | Tool_failed _ _ e \<Rightarrow> \<lparr> dr_ok = False, dr_toolCallId = tc_id c, dr_name = tc_name c, dr_data = None,
        dr_error = Some (Jv_object ([(''code'', Jv_string (error_value (te_code e))), (''message'', Jv_string (te_message e))] @
          (case te_details e of None \<Rightarrow> [] | Some x \<Rightarrow> [(''details'', x)]))) \<rparr>)"

definition registry_dispatch :: "'w RegistryOptions \<Rightarrow> string list \<Rightarrow> ToolCall \<Rightarrow> ('w, ToolDispatchResult) registry" where
  "registry_dispatch ro caps c = bindE (invoke ro (the (tc_name c)) (tc_arguments c) caps (tc_id c)) (\<lambda>r. returnE (dispatch_result c r))"

end
