(* ===== verification/AgentProtocol.thy ===== *)
theory AgentProtocol
  imports AgentRuntime
begin

text \<open>
  The protocol of a run: an automaton over the events that says which may come next. Every run follows it
  to its end, whatever the models, the tools, the signals and the persistence do; the budgets, the tools
  that are called and the provider that is asked after a proposal are read off the automaton.
\<close>

section \<open>The automaton\<close>

datatype phase =
    At_start | Between | Asking nat | Waiting nat | Decided AssistantMessage
  | Batch "ToolCall list" | Running ToolCall "ToolCall list" | Stopped | Finished

record protocol =
  pr_phase :: phase
  pr_iteration :: nat
  pr_provider :: nat
  pr_calls :: nat
  pr_effects :: bool

definition protocol_start :: protocol where
  "protocol_start = \<lparr> pr_phase = At_start, pr_iteration = 0, pr_provider = 0, pr_calls = 0, pr_effects = False \<rparr>"

definition allowed_call :: "'w AgentPorts \<Rightarrow> ToolCall \<Rightarrow> bool" where
  "allowed_call d c = (case (tc_id c, tc_name c) of
      (Some i, Some n) \<Rightarrow> nonempty i \<and> nonempty n \<and> \<not> deniedTool n \<and>
        ap_classify d n \<in> {Inr (Some Effect_read), Inr (Some Effect_proposal)}
    | _ \<Rightarrow> False)"

definition is_proposal :: "'w AgentPorts \<Rightarrow> ToolCall \<Rightarrow> bool" where
  "is_proposal d c = (case tc_name c of None \<Rightarrow> False | Some n \<Rightarrow> ap_classify d n = Inr (Some Effect_proposal))"

definition batch_ok :: "'w AgentPorts \<Rightarrow> nat \<Rightarrow> nat \<Rightarrow> ToolCall list \<Rightarrow> bool" where
  "batch_ok d it n cs \<longleftrightarrow> list_all (allowed_call d) cs \<and> distinct (map tc_id cs) \<and>
     n + length cs \<le> ap_maxToolCalls d \<and> it < ap_maxIterations d"

definition start_call :: "ToolCall \<Rightarrow> ToolCall list \<Rightarrow> protocol \<Rightarrow> protocol" where
  "start_call c cs p = p\<lparr> pr_phase := Running c cs, pr_calls := pr_calls p + 1 \<rparr>"

definition after_calls :: "ToolCall list \<Rightarrow> phase" where
  "after_calls cs = (if cs = [] then Between else Batch cs)"

fun event_step :: "'w AgentPorts \<Rightarrow> protocol \<Rightarrow> agent_event \<Rightarrow> protocol option" where
  "event_step d p Run_started = (if pr_phase p = At_start then Some (p\<lparr> pr_phase := Between \<rparr>) else None)"
| "event_step d p (Iteration_started n) =
     (if pr_phase p = Between \<and> n = pr_iteration p + 1 \<and> n \<le> ap_maxIterations d
      then Some (p\<lparr> pr_phase := Asking (pr_provider p), pr_iteration := n \<rparr>) else None)"
| "event_step d p (Model_requested x n) =
     (case pr_phase p of
        Asking i \<Rightarrow> if i < length (ap_providers d) \<and> x = ap_providers d ! i \<and> n = pr_iteration p
          then Some (p\<lparr> pr_phase := Waiting i \<rparr>) else None
      | _ \<Rightarrow> None)"
| "event_step d p (Provider_failed x m) =
     (case pr_phase p of
        Waiting i \<Rightarrow> if x = ap_providers d ! i
          then Some (p\<lparr> pr_phase := if pr_effects p \<or> i + 1 = length (ap_providers d) then Stopped else Asking (i + 1) \<rparr>) else None
      | _ \<Rightarrow> None)"
| "event_step d p (Model_responded x r) =
     (case pr_phase p of
        Waiting i \<Rightarrow> if x = ap_providers d ! i \<and> valid_response r
          then Some (p\<lparr> pr_phase := Decided (the r), pr_provider := i \<rparr>) else None
      | _ \<Rightarrow> None)"
| "event_step d p (Tool_started c) =
     (case pr_phase p of
        Decided m \<Rightarrow> (case calls_of m of
            c' # cs \<Rightarrow> if c = c' \<and> batch_ok d (pr_iteration p) (pr_calls p) (c' # cs) then Some (start_call c cs p) else None | [] \<Rightarrow> None)
      | Batch (c' # cs) \<Rightarrow> if c = c' \<and> batch_ok d (pr_iteration p) (pr_calls p) (c' # cs) then Some (start_call c cs p) else None
      | _ \<Rightarrow> None)"
| "event_step d p (Tool_completed c r) =
     (case pr_phase p of
        Running c' cs \<Rightarrow> if c = c' then Some (p\<lparr> pr_phase := after_calls cs, pr_effects := (pr_effects p \<or> is_proposal d c) \<rparr>) else None
      | _ \<Rightarrow> None)"
| "event_step d p (Run_completed m i n) =
     (if pr_phase p = Decided m \<and> calls_of m = [] \<and> i = pr_iteration p \<and> n = pr_calls p
      then Some (p\<lparr> pr_phase := Finished \<rparr>) else None)"
| "event_step d p (Run_failed c m) = (if pr_phase p \<in> {At_start, Finished} then None else Some (p\<lparr> pr_phase := Finished \<rparr>))"
| "event_step d p (Run_cancelled r) = (if pr_phase p \<in> {At_start, Finished} then None else Some (p\<lparr> pr_phase := Finished \<rparr>))"

fun follow :: "'w AgentPorts \<Rightarrow> protocol \<Rightarrow> agent_event list \<Rightarrow> protocol option" where
  "follow d p [] = Some p"
| "follow d p (e # es) = (case event_step d p e of None \<Rightarrow> None | Some q \<Rightarrow> follow d q es)"

lemma follow_append: "follow d p (es @ fs) = (case follow d p es of None \<Rightarrow> None | Some q \<Rightarrow> follow d q fs)"
  by (induction es arbitrary: p) (auto split: option.split)

section \<open>A run follows it\<close>

text \<open>The events of a run so far lead to a phase, in which the counters are those of the run.\<close>

definition here :: "'w AgentPorts \<Rightarrow> phase \<Rightarrow> nat \<Rightarrow> nat \<Rightarrow> 'w AgentRun \<Rightarrow> bool" where
  "here d ph it n s \<longleftrightarrow> follow d protocol_start (map snd (ag_events s)) =
     Some \<lparr> pr_phase = ph, pr_iteration = it, pr_provider = ag_activeProvider s, pr_calls = n, pr_effects = ag_sideEffects s \<rparr>"

definition unfinished :: "'w AgentPorts \<Rightarrow> 'w AgentRun \<Rightarrow> bool" where
  "unfinished d s = (case follow d protocol_start (map snd (ag_events s)) of
      None \<Rightarrow> False | Some p \<Rightarrow> pr_phase p \<notin> {At_start, Finished})"

lemma here_unfinished: "here d ph it n s \<Longrightarrow> ph \<notin> {At_start, Finished} \<Longrightarrow> unfinished d s"
  by (simp add: here_def unfinished_def)

text \<open>The world, the messages and the counts of repeated calls are out of the protocol's sight.\<close>

lemma here_simps [simp]:
  "here d ph it n (s\<lparr> ag_world := w \<rparr>) = here d ph it n s" "here d ph it n (s\<lparr> ag_messages := ms \<rparr>) = here d ph it n s"
  "here d ph it n (s\<lparr> ag_repeated := t \<rparr>) = here d ph it n s" "here d ph it n (s\<lparr> ag_toolCount := k \<rparr>) = here d ph it n s"
  by (simp_all add: here_def)

lemma unfinished_simps [simp]:
  "unfinished d (s\<lparr> ag_world := w \<rparr>) = unfinished d s" "unfinished d (s\<lparr> ag_messages := ms \<rparr>) = unfinished d s"
  "unfinished d (s\<lparr> ag_repeated := t \<rparr>) = unfinished d s" "unfinished d (s\<lparr> ag_toolCount := k \<rparr>) = unfinished d s"
  "unfinished d (s\<lparr> ag_sideEffects := b \<rparr>) = unfinished d s"
  by (simp_all add: unfinished_def)

lemma wp_yieldE: "wp (yieldE d e) Q E s = Q () (s\<lparr> ag_events := ag_events s @ [(ap_now d (ag_world s), e)], ag_world := ap_consume d e (ag_world s) \<rparr>)"
  by (simp add: yieldE_def wp_modifyE)

lemma wp_is_aborted: "wp (is_aborted d) Q E s = Q (ap_aborted d (ag_world s)) s"
  by (simp add: is_aborted_def wp_getE)

lemma wp_port:
  assumes "\<And>x w. Q x (s\<lparr> ag_world := w \<rparr>)" "\<And>x w. E x (s\<lparr> ag_world := w \<rparr>)"
  shows "wp (port m) Q E s"
  using assms by (auto simp: wp_def port_def split: prod.split sum.split)

lemma wp_abortable:
  assumes "\<And>x w. Q x (s\<lparr> ag_world := w \<rparr>)" "\<And>x w. E x (s\<lparr> ag_world := w \<rparr>)"
  shows "wp (abortable d m) Q E s"
  using assms by (auto simp: wp_def abortable_def split: prod.split sum.split option.split)

text \<open>One event: the phase it leads to.\<close>

lemma here_event:
  assumes "here d ph it n s"
    "event_step d \<lparr> pr_phase = ph, pr_iteration = it, pr_provider = ag_activeProvider s, pr_calls = n, pr_effects = ag_sideEffects s \<rparr> e =
      Some \<lparr> pr_phase = ph', pr_iteration = it', pr_provider = a, pr_calls = n', pr_effects = eff \<rparr>"
    "ag_events t = ag_events s @ [(now, e)]" "ag_activeProvider t = a" "ag_sideEffects t = eff"
  shows "here d ph' it' n' t"
  using assms by (simp add: here_def follow_append)

text \<open>An event that leaves the provider and the effects as they are.\<close>

definition same_counts :: "'w AgentRun \<Rightarrow> 'w AgentRun \<Rightarrow> bool" where
  "same_counts s t \<longleftrightarrow> ag_activeProvider t = ag_activeProvider s \<and> ag_toolCount t = ag_toolCount s \<and> ag_sideEffects t = ag_sideEffects s"

lemma same_counts_simps [simp]:
  "same_counts s s" "same_counts s (t\<lparr> ag_world := w \<rparr>) = same_counts s t" "same_counts (s\<lparr> ag_world := w \<rparr>) t = same_counts s t"
  "same_counts (s\<lparr> ag_repeated := r \<rparr>) t = same_counts s t"
  by (simp_all add: same_counts_def)

lemma yield_follows:
  assumes "here d ph it n s"
    "event_step d \<lparr> pr_phase = ph, pr_iteration = it, pr_provider = ag_activeProvider s, pr_calls = n, pr_effects = ag_sideEffects s \<rparr> e =
      Some \<lparr> pr_phase = ph', pr_iteration = it', pr_provider = ag_activeProvider s, pr_calls = n', pr_effects = ag_sideEffects s \<rparr>"
    "\<And>t. here d ph' it' n' t \<Longrightarrow> same_counts s t \<Longrightarrow> Q () t"
  shows "wp (yieldE d e) Q E s"
  unfolding wp_yieldE by (rule assms(3), rule here_event [OF assms(1,2)]) (simp_all add: same_counts_def)

lemma ask_provider_follows:
  assumes "here d (Waiting i) it n s"
    "\<And>m t. here d (Decided m) it n t \<Longrightarrow> ag_toolCount t = ag_toolCount s \<Longrightarrow> Q m t"
    "\<And>x t. here d (Waiting i) it n t \<Longrightarrow> same_counts s t \<Longrightarrow> E x t"
  shows "wp (ask_provider d i) Q E s"
proof -
  have err: "E x (s\<lparr> ag_world := w \<rparr>)" for x w
    by (rule assms(3)) (use assms(1) in simp_all)
  have ok: "wp (case r of None \<Rightarrow> throwE (Runtime_error MODEL_ERROR ''Malformed model response'') | Some m \<Rightarrow> returnE m) Q E
      (s\<lparr> ag_activeProvider := i, ag_events := ag_events s @ [(now, Model_responded (ap_providers d ! i) r)], ag_world := w' \<rparr>)"
    if r: "valid_response r" for r w' now
  proof -
    obtain m where m: "r = Some m" using r by (cases r) (auto simp: valid_response_def)
    have "here d (Decided m) it n
        (s\<lparr> ag_activeProvider := i, ag_events := ag_events s @ [(now, Model_responded (ap_providers d ! i) r)], ag_world := w' \<rparr>)"
      by (rule here_event [OF assms(1), of "Model_responded (ap_providers d ! i) r"]) (use r m in simp_all)
    then show ?thesis using assms(2) m by (simp add: wp_returnE)
  qed
  show ?thesis
    unfolding ask_provider_def
    by (auto simp: wp_simps wp_yieldE intro!: wp_abortable err ok)
qed

lemma provider_failed_follows:
  assumes "here d (Waiting i) it n s" "fin \<longleftrightarrow> i + 1 = length (ap_providers d)"
    "\<And>t. here d (Asking (i + 1)) it n t \<Longrightarrow> \<not> fin \<Longrightarrow> same_counts s t \<Longrightarrow> Q None t" "\<And>x t. unfinished d t \<Longrightarrow> E x t"
  shows "wp (provider_failed d i fin e) Q E s"
proof -
  have "wp (seqE (yieldE d (Provider_failed (ap_providers d ! i) (error_text e)))
      (bindE (getE ag_sideEffects) (\<lambda>effects. if effects \<or> fin then throwE (Runtime_error MODEL_ERROR (error_text e)) else returnE None))) Q E s"
    unfolding wp_seqE
  proof (rule yield_follows [OF assms(1)])
    fix t assume t: "here d (if ag_sideEffects s \<or> i + 1 = length (ap_providers d) then Stopped else Asking (i + 1)) it n t" "same_counts s t"
    then show "wp (bindE (getE ag_sideEffects) (\<lambda>effects. if effects \<or> fin then throwE (Runtime_error MODEL_ERROR (error_text e)) else returnE None)) Q E t"
      using assms(2-4) by (auto simp: wp_simps same_counts_def split: if_splits intro: here_unfinished)
  qed simp
  then show ?thesis
    using assms(1,4) by (auto simp: provider_failed_def wp_simps wp_is_aborted dest: here_unfinished)
qed

lemma ask_model_follows:
  assumes "here d (Asking i) it n s" "k = 0 \<or> i + k = length (ap_providers d)" "n = ag_toolCount s"
    "\<And>m t. here d (Decided m) it (ag_toolCount t) t \<Longrightarrow> Q m t" "\<And>x t. unfinished d t \<Longrightarrow> E x t"
  shows "wp (ask_model d it i k) Q E s"
  using assms(1-3)
proof (induction k arbitrary: i s)
  case 0
  then show ?case using assms(5) by (auto simp: wp_throwE dest: here_unfinished)
next
  case (Suc k)
  have rest: "wp (case r of None \<Rightarrow> ask_model d it (i + 1) k | Some m \<Rightarrow> returnE m) Q E t"
    if "case r of None \<Rightarrow> here d (Asking (i + 1)) it n t \<and> ag_toolCount t = n | Some m \<Rightarrow> here d (Decided m) it n t \<and> ag_toolCount t = n" for r t
  proof (cases r)
    case None
    then have "wp (ask_model d it (i + 1) k) Q E t" using that Suc.prems(2) by (intro Suc.IH) simp_all
    then show ?thesis using None by simp
  next
    case (Some m)
    then have "Q m t" using that by (intro assms(4)) simp
    then show ?thesis using Some by (simp add: wp_returnE)
  qed
  show ?case
    unfolding ask_model.simps wp_seqE
  proof (rule yield_follows [OF Suc.prems(1)])
    fix t assume t: "here d (Waiting i) it n t" "same_counts s t"
    show "wp (bindE (catchE (bindE (ask_provider d i) (\<lambda>m. returnE (Some m))) (provider_failed d i (k = 0)))
        (\<lambda>r. case r of None \<Rightarrow> ask_model d it (i + 1) k | Some m \<Rightarrow> returnE m)) Q E t"
      unfolding wp_bindE wp_catchE
    proof (rule ask_provider_follows [OF t(1)])
      fix m u assume "here d (Decided m) it n u" "ag_toolCount u = ag_toolCount t"
      then show "wp (returnE (Some m)) (\<lambda>x. wp (case x of None \<Rightarrow> ask_model d it (i + 1) k | Some m \<Rightarrow> returnE m) Q E)
          (\<lambda>e. wp (provider_failed d i (k = 0) e) (\<lambda>x. wp (case x of None \<Rightarrow> ask_model d it (i + 1) k | Some m \<Rightarrow> returnE m) Q E) E) u"
        using t Suc.prems(3) rest [where r = "Some m" and t = u] by (simp add: wp_returnE same_counts_def)
    next
      fix x u assume u: "here d (Waiting i) it n u" "same_counts t u"
      show "wp (provider_failed d i (k = 0) x) (\<lambda>x. wp (case x of None \<Rightarrow> ask_model d it (i + 1) k | Some m \<Rightarrow> returnE m) Q E) E u"
        by (rule provider_failed_follows [OF u(1)])
          (use Suc.prems(2,3) t(2) u(2) assms(5) rest [where r = None] in \<open>auto simp: same_counts_def\<close>)
    qed
  qed (use Suc.prems(2) in simp)
qed

section \<open>Calling the tools\<close>

text \<open>The calls \<open>cs\<close> of a checked batch are still to be made.\<close>

definition calls_left :: "'w AgentPorts \<Rightarrow> nat \<Rightarrow> ToolCall list \<Rightarrow> 'w AgentRun \<Rightarrow> bool" where
  "calls_left d it cs s \<longleftrightarrow> (if cs = [] then here d Between it (ag_toolCount s) s
     else batch_ok d it (ag_toolCount s) cs \<and>
       (here d (Batch cs) it (ag_toolCount s) s \<or> (\<exists>m. here d (Decided m) it (ag_toolCount s) s \<and> calls_of m = cs)))"

lemma calls_left_simps [simp]:
  "calls_left d it cs (s\<lparr> ag_world := w \<rparr>) = calls_left d it cs s" "calls_left d it cs (s\<lparr> ag_messages := ms \<rparr>) = calls_left d it cs s"
  "calls_left d it cs (s\<lparr> ag_repeated := t \<rparr>) = calls_left d it cs s"
  by (simp_all add: calls_left_def)

lemma calls_left_unfinished: "calls_left d it cs s \<Longrightarrow> unfinished d s"
  by (auto simp: calls_left_def intro: here_unfinished split: if_splits)

definition calling :: "'w AgentPorts \<Rightarrow> ToolCall \<Rightarrow> ToolCall list \<Rightarrow> nat \<Rightarrow> nat \<Rightarrow> bool \<Rightarrow> 'w AgentRun \<Rightarrow> bool" where
  "calling d c cs it n eff s \<longleftrightarrow> follow d protocol_start (map snd (ag_events s)) =
     Some \<lparr> pr_phase = Running c cs, pr_iteration = it, pr_provider = ag_activeProvider s, pr_calls = n, pr_effects = eff \<rparr>"

lemma calling_simps [simp]:
  "calling d c cs it n eff (s\<lparr> ag_world := w \<rparr>) = calling d c cs it n eff s"
  "calling d c cs it n eff (s\<lparr> ag_toolCount := k \<rparr>) = calling d c cs it n eff s"
  "calling d c cs it n eff (s\<lparr> ag_sideEffects := b \<rparr>) = calling d c cs it n eff s"
  by (simp_all add: calling_def)

lemma calling_unfinished: "calling d c cs it n eff s \<Longrightarrow> unfinished d s"
  by (simp add: calling_def unfinished_def)

lemma start_follows:
  assumes "calls_left d it (c # cs) s"
    "\<And>t. calling d c cs it (Suc (ag_toolCount s)) (ag_sideEffects s) t \<Longrightarrow> same_counts s t \<Longrightarrow> Q () t"
  shows "wp (yieldE d (Tool_started c)) Q E s"
proof -
  have ok: "batch_ok d it (ag_toolCount s) (c # cs)" using assms(1) by (simp add: calls_left_def)
  have "follow d protocol_start (map snd (ag_events s) @ [Tool_started c]) =
      Some \<lparr> pr_phase = Running c cs, pr_iteration = it, pr_provider = ag_activeProvider s, pr_calls = Suc (ag_toolCount s),
        pr_effects = ag_sideEffects s \<rparr>"
    using assms(1) ok by (auto simp: calls_left_def here_def follow_append start_call_def)
  then show ?thesis unfolding wp_yieldE by (intro assms(2)) (simp_all add: calling_def same_counts_def)
qed

lemma dispatch_follows:
  assumes "calling d c cs it n b s"
    "\<And>r t. calling d c cs it n b t \<Longrightarrow> ag_toolCount t = ag_toolCount s + 1 \<Longrightarrow>
      ag_sideEffects t = (ag_sideEffects s \<or> eff = Effect_proposal) \<Longrightarrow> Q r t"
    "\<And>x t. unfinished d t \<Longrightarrow> E x t"
  shows "wp (dispatch_call d c eff) Q E s"
proof -
  have fail: "wp (bindE (is_aborted d) (\<lambda>a. seqE (whenE (\<not> a) (port (ap_persistLifecycle d (Failed c e)))) (throwE e))) Q E t"
    if "unfinished d t" for e t
    using that assms(3) by (auto simp: wp_simps wp_is_aborted intro!: wp_port)
  show ?thesis
    unfolding dispatch_call_def wp_catchE wp_bindE
    using assms(1) calling_unfinished [OF assms(1)]
    by (auto simp: wp_simps intro!: wp_abortable wp_port fail [unfolded wp_bindE] assms(2))
qed

lemma keep_result_wp:
  assumes "\<And>w ms. Q () (s\<lparr> ag_world := w, ag_messages := ms \<rparr>)" "\<And>x w. E x (s\<lparr> ag_world := w \<rparr>)" "\<And>x. E x s"
  shows "wp (keep_result d c r) Q E s"
  unfolding keep_result_def using assms by (auto simp: wp_simps push_message_def split: sum.split intro!: wp_port)

lemma call_tool_follows:
  assumes "calls_left d it (c # cs) s" "eff = Effect_proposal \<longleftrightarrow> is_proposal d c"
    "\<And>t. calls_left d it cs t \<Longrightarrow> Q () t" "\<And>x t. unfinished d t \<Longrightarrow> E x t"
  shows "wp (call_tool d (c, g, eff)) Q E s"
proof -
  have finish: "wp (seqE (yieldE d (Tool_completed c r)) (keep_result d c r)) Q E u"
    if u: "calling d c cs it (ag_toolCount u) b u" "ag_sideEffects u = (b \<or> eff = Effect_proposal)"
      "cs \<noteq> [] \<Longrightarrow> batch_ok d it (ag_toolCount u) cs" for u b r
  proof -
    define v where "v = u\<lparr> ag_events := ag_events u @ [(ap_now d (ag_world u), Tool_completed c r)], ag_world := ap_consume d (Tool_completed c r) (ag_world u) \<rparr>"
    have "here d (after_calls cs) it (ag_toolCount v) v"
      using u(1,2) assms(2) by (simp add: here_def calling_def v_def follow_append)
    then have "calls_left d it cs v" using u(3) by (simp add: calls_left_def after_calls_def v_def split: if_splits)
    then show ?thesis
      unfolding wp_seqE wp_yieldE v_def [symmetric]
      by (intro keep_result_wp assms(3,4)) (simp_all add: calls_left_unfinished)
  qed
  have batch: "cs \<noteq> [] \<Longrightarrow> batch_ok d it (Suc (ag_toolCount s)) cs" using assms(1) by (simp add: calls_left_def batch_ok_def)
  have run: "wp (seqE (port (ap_persistLifecycle d (Started c)))
      (bindE (dispatch_call d c eff) (\<lambda>r. seqE (yieldE d (Tool_completed c r)) (keep_result d c r)))) Q E t"
    if t: "calling d c cs it (Suc (ag_toolCount s)) (ag_sideEffects s) t" "same_counts s t" for t
  proof -
    have "wp (dispatch_call d c eff) (\<lambda>r. wp (seqE (yieldE d (Tool_completed c r)) (keep_result d c r)) Q E) E (t\<lparr> ag_world := w \<rparr>)" for w
    proof (rule dispatch_follows [where n = "Suc (ag_toolCount s)" and b = "ag_sideEffects s"])
      fix r u
      assume "calling d c cs it (Suc (ag_toolCount s)) (ag_sideEffects s) u" "ag_toolCount u = ag_toolCount (t\<lparr>ag_world := w\<rparr>) + 1"
        "ag_sideEffects u = (ag_sideEffects (t\<lparr>ag_world := w\<rparr>) \<or> eff = Effect_proposal)"
      then show "wp (seqE (yieldE d (Tool_completed c r)) (keep_result d c r)) Q E u"
        using t(2) batch by (intro finish [where b = "ag_sideEffects s"]) (simp_all add: same_counts_def)
    qed (use t(1) assms(4) in simp_all)
    then show ?thesis
      unfolding wp_seqE wp_bindE using t(1) assms(4) by (intro wp_port) (simp_all add: calling_unfinished)
  qed
  show ?thesis
    unfolding call_tool_def count_call_def prod.case wp_seqE wp_modifyE
  proof (rule wp_port, goal_cases)
    case (1 x w)
    show ?case
      by (rule start_follows [where c = c and cs = cs and it = it]) (use assms(1) run [unfolded wp_seqE] in auto)
  next
    case (2 x w)
    then show ?case using assms(1,4) by (auto dest: calls_left_unfinished)
  qed
qed

lemma call_all_follows:
  assumes "calls_left d it (map fst vs) s" "list_all (\<lambda>(c, g, eff). eff = Effect_proposal \<longleftrightarrow> is_proposal d c) vs"
    "\<And>t. calls_left d it [] t \<Longrightarrow> Q () t" "\<And>x t. unfinished d t \<Longrightarrow> E x t"
  shows "wp (forE vs (call_tool d)) Q E s"
  using assms(1,2)
proof (induction vs arbitrary: s)
  case Nil
  then show ?case using assms(3) by (simp add: wp_returnE)
next
  case (Cons v vs)
  obtain c g eff where v: "v = (c, g, eff)" by (cases v)
  show ?case
    unfolding forE.simps wp_seqE v
    by (rule call_tool_follows [where it = it and cs = "map fst vs"]) (use Cons v assms(4) in auto)
qed

lemma check_call_allowed: "check_call d repeated seen c = Inr (i, g, eff) \<Longrightarrow>
    allowed_call d c \<and> tc_id c = Some i \<and> i \<notin> seen \<and> (eff = Effect_proposal \<longleftrightarrow> is_proposal d c)"
  by (auto simp: check_call_def allowed_call_def is_proposal_def split: option.splits sum.splits if_splits)

lemma check_calls_ok:
  "check_calls d repeated seen cs = Inr vs \<Longrightarrow>
     map fst vs = cs \<and> list_all (allowed_call d) cs \<and> distinct (map tc_id cs) \<and> Some ` seen \<inter> tc_id ` set cs = {} \<and>
     list_all (\<lambda>(c, g, eff). eff = Effect_proposal \<longleftrightarrow> is_proposal d c) vs"
proof (induction cs arbitrary: seen vs)
  case (Cons c cs)
  obtain i g eff where c: "check_call d repeated seen c = Inr (i, g, eff)"
    using Cons.prems by (auto split: sum.splits)
  then obtain ws where ws: "check_calls d repeated (insert i seen) cs = Inr ws" "vs = (c, g, eff) # ws"
    using Cons.prems by (auto split: sum.splits)
  show ?case using Cons.IH [OF ws(1)] check_call_allowed [OF c] ws(2) by auto
qed simp

lemma use_tools_follows:
  assumes "here d (Decided m) it (ag_toolCount s) s" "calls_of m \<noteq> []" "it \<le> ap_maxIterations d"
    "\<And>t. calls_left d it [] t \<Longrightarrow> Q () t" "\<And>x t. unfinished d t \<Longrightarrow> E x t"
  shows "wp (use_tools d it m) Q E s"
proof -
  have open': "unfinished d s" using assms(1) by (auto intro: here_unfinished)
  have go: "wp (forE vs (call_tool d)) Q E (s\<lparr> ag_world := w, ag_messages := ms \<rparr>)"
    if "check_calls d (ag_repeated s) {} (calls_of m) = Inr vs" "it \<noteq> ap_maxIterations d" "\<not> ag_toolCount s + length (calls_of m) > ap_maxToolCalls d" for vs w ms
  proof (rule call_all_follows)
    show "calls_left d it (map fst vs) (s\<lparr> ag_world := w, ag_messages := ms \<rparr>)"
      using check_calls_ok [OF that(1)] that(2,3) assms(1-3) by (auto simp: calls_left_def batch_ok_def)
    show "list_all (\<lambda>(c, g, eff). eff = Effect_proposal \<longleftrightarrow> is_proposal d c) vs" using check_calls_ok [OF that(1)] by simp
  qed (use assms(4,5) in auto)
  show ?thesis
    unfolding use_tools_def
    by (auto simp: wp_simps push_message_def open' split: sum.split intro!: assms(5) wp_port go)
qed

section \<open>The run\<close>

lemma take_turn_follows:
  assumes "here d Between it (ag_toolCount s) s" "it < ap_maxIterations d"
    "\<And>t. here d Between (Suc it) (ag_toolCount t) t \<Longrightarrow> Q False t"
    "\<And>t. here d Finished (Suc it) (ag_toolCount t) t \<Longrightarrow> Q True t" "\<And>x t. unfinished d t \<Longrightarrow> E x t"
  shows "wp (take_turn d (Suc it)) Q E s"
proof -
  have complete: "wp (bindE (getE ag_toolCount) (\<lambda>n. seqE (yieldE d (Run_completed m (Suc it) n)) (returnE True))) Q E (t\<lparr> ag_world := w \<rparr>)"
    if t: "here d (Decided m) (Suc it) (ag_toolCount t) t" "calls_of m = []" for m t w
    unfolding wp_bindE wp_getE wp_seqE
  proof (rule yield_follows)
    show "here d (Decided m) (Suc it) (ag_toolCount t) (t\<lparr>ag_world := w\<rparr>)" using t(1) by simp
  qed (use t assms(4) in \<open>auto simp: wp_returnE same_counts_def\<close>)
  have decided: "wp (if calls_of m = []
     then seqE (port (ap_persistMessage d (Msg_assistant m)))
         (bindE (getE ag_toolCount) (\<lambda>n. seqE (yieldE d (Run_completed m (Suc it) n)) (returnE True)))
     else seqE (use_tools d (Suc it) m) (returnE False)) Q E t" if t: "here d (Decided m) (Suc it) (ag_toolCount t) t" for m t
  proof (cases "calls_of m = []")
    case True
    have "wp (port (ap_persistMessage d (Msg_assistant m)))
        (\<lambda>_. wp (bindE (getE ag_toolCount) (\<lambda>n. seqE (yieldE d (Run_completed m (Suc it) n)) (returnE True))) Q E) E t"
      by (rule wp_port) (use complete [OF t True] t assms(5) here_unfinished in fastforce)+
    then show ?thesis using True by (simp add: wp_seqE)
  next
    case False
    have "wp (use_tools d (Suc it) m) (\<lambda>_. wp (returnE False) Q E) E t"
      by (rule use_tools_follows [OF t False]) (use assms(2,3,5) in \<open>auto simp: calls_left_def wp_returnE\<close>)
    then show ?thesis using False by (simp add: wp_seqE)
  qed
  have ask: "wp (seqE (yieldE d (Iteration_started (Suc it)))
      (bindE (getE ag_activeProvider) (\<lambda>i. bindE (ask_model d (Suc it) i (length (ap_providers d) - i)) (\<lambda>m.
     if calls_of m = []
     then seqE (port (ap_persistMessage d (Msg_assistant m)))
         (bindE (getE ag_toolCount) (\<lambda>n. seqE (yieldE d (Run_completed m (Suc it) n)) (returnE True)))
     else seqE (use_tools d (Suc it) m) (returnE False))))) Q E s"
    unfolding wp_seqE
  proof (rule yield_follows [OF assms(1)])
    fix t assume t: "here d (Asking (ag_activeProvider s)) (Suc it) (ag_toolCount s) t" "same_counts s t"
    show "wp (bindE (getE ag_activeProvider) (\<lambda>i. bindE (ask_model d (Suc it) i (length (ap_providers d) - i)) (\<lambda>m.
     if calls_of m = []
     then seqE (port (ap_persistMessage d (Msg_assistant m)))
         (bindE (getE ag_toolCount) (\<lambda>n. seqE (yieldE d (Run_completed m (Suc it) n)) (returnE True)))
     else seqE (use_tools d (Suc it) m) (returnE False)))) Q E t"
      unfolding wp_bindE wp_getE
    proof (rule ask_model_follows)
      show "here d (Asking (ag_activeProvider t)) (Suc it) (ag_toolCount t) t" using t by (simp add: same_counts_def)
    qed (use decided assms(5) in auto)
  qed (use assms(2) in simp)
  have "unfinished d s" using assms(1) by (auto intro: here_unfinished)
  then show ?thesis unfolding take_turn_def using ask assms(5) by (simp add: wp_bindE wp_is_aborted wp_seqE wp_guardE)
qed

lemma take_turns_follow:
  assumes "here d Between it (ag_toolCount s) s" "it + k = ap_maxIterations d"
    "\<And>t it. here d Finished it (ag_toolCount t) t \<Longrightarrow> Q () t" "\<And>x t. unfinished d t \<Longrightarrow> E x t"
  shows "wp (take_turns d k) Q E s"
  using assms(1,2)
proof (induction k arbitrary: it s)
  case 0
  then show ?case using assms(4) by (auto simp: wp_throwE intro: here_unfinished)
next
  case (Suc k)
  have n: "ap_maxIterations d - k = Suc it" using Suc.prems(2) by simp
  show ?case
    unfolding take_turns.simps n wp_bindE
    by (rule take_turn_follows [OF Suc.prems(1)]) (use Suc.prems(2) Suc.IH assms(3,4) in \<open>auto simp: wp_returnE\<close>)
qed

lemma unfinished_end:
  assumes "unfinished d s" "\<And>p. event_step d p e = (if pr_phase p \<in> {At_start, Finished} then None else Some (p\<lparr> pr_phase := Finished \<rparr>))"
  shows "case follow d protocol_start (map snd (ag_events s) @ [e]) of None \<Rightarrow> False | Some p \<Rightarrow> pr_phase p = Finished"
  using assms by (auto simp: unfinished_def follow_append split: option.splits)

lemma follows_to_end:
  "case follow d protocol_start (map snd (ag_events (run_agent d ms w))) of None \<Rightarrow> False | Some p \<Rightarrow> pr_phase p = Finished"
proof -
  let ?P = "\<lambda>t. case follow d protocol_start (map snd (ag_events t)) of None \<Rightarrow> False | Some p \<Rightarrow> pr_phase p = Finished"
  define s where "s = (agent_start ms w)\<lparr> ag_events := [(ap_now d w, Run_started)], ag_world := ap_consume d Run_started w \<rparr>"
  have "here d Between 0 (ag_toolCount s) s" by (simp add: here_def s_def agent_start_def protocol_start_def)
  then have "wp (take_turns d (ap_maxIterations d)) (\<lambda>_. ?P) (\<lambda>e t. wp (run_failed d e) (\<lambda>_. ?P) (\<lambda>_. ?P) t) s"
  proof (rule take_turns_follow)
    fix t :: "'a AgentRun" and it assume "here d Finished it (ag_toolCount t) t"
    then show "?P t" by (simp add: here_def)
  next
    fix e and t :: "'a AgentRun" assume t: "unfinished d t"
    note ended = unfinished_end [OF t]
    show "wp (run_failed d e) (\<lambda>_. ?P) (\<lambda>_. ?P) t"
      by (auto simp: run_failed_def wp_simps wp_yieldE ended simp del: follow.simps split: agent_error.split)
  qed simp
  then have "wp (catchE (take_turns d (ap_maxIterations d)) (run_failed d)) (\<lambda>_. ?P) (\<lambda>_. ?P) s" by (simp add: wp_catchE)
  then have "?P (snd (catchE (take_turns d (ap_maxIterations d)) (run_failed d) s))"
    by (simp add: wp_def split: prod.splits sum.splits)
  moreover have "run_agent d ms w = snd (catchE (take_turns d (ap_maxIterations d)) (run_failed d) s)"
    by (simp add: run_agent_def yieldE_def seqE_def bindE_def modifyE_def s_def agent_start_def)
  ultimately show ?thesis by simp
qed

text \<open>
  C19: the events of every run follow the protocol to its end: the run starts, asks the providers in turn,
  calls the tools of a checked batch one after the other and ends with one closing event, whatever the
  models answer, the tools and the persistence do, and whenever a signal is raised.
\<close>

theorem run_follows_protocol:
  "case follow d protocol_start (map snd (ag_events (run_agent d ms w))) of None \<Rightarrow> False | Some p \<Rightarrow> pr_phase p = Finished"
  by (rule follows_to_end)

section \<open>What the protocol guarantees\<close>

definition closes :: "agent_event \<Rightarrow> bool" where
  "closes e = (case e of Run_completed _ _ _ \<Rightarrow> True | Run_failed _ _ \<Rightarrow> True | Run_cancelled _ \<Rightarrow> True | _ \<Rightarrow> False)"

definition starts_tool :: "agent_event \<Rightarrow> bool" where
  "starts_tool e = (case e of Tool_started _ \<Rightarrow> True | _ \<Rightarrow> False)"

definition starts_iteration :: "agent_event \<Rightarrow> bool" where
  "starts_iteration e = (case e of Iteration_started _ \<Rightarrow> True | _ \<Rightarrow> False)"

definition count_events :: "(agent_event \<Rightarrow> bool) \<Rightarrow> agent_event list \<Rightarrow> nat" where
  "count_events P es = length (filter P es)"

definition harmless :: "'w AgentPorts \<Rightarrow> agent_event \<Rightarrow> bool" where
  "harmless d e = (case e of Tool_started c \<Rightarrow> allowed_call d c | _ \<Rightarrow> True)"

lemma count_events_simps [simp]:
  "count_events P [] = 0" "count_events P (e # es) = (if P e then Suc (count_events P es) else count_events P es)"
  by (simp_all add: count_events_def)

lemma step_counts:
  assumes "event_step d p e = Some q"
  shows "pr_calls q = pr_calls p + (if starts_tool e then 1 else 0)"
    "pr_iteration q = pr_iteration p + (if starts_iteration e then 1 else 0)"
    "pr_calls p \<le> ap_maxToolCalls d \<Longrightarrow> pr_calls q \<le> ap_maxToolCalls d"
    "pr_iteration p \<le> ap_maxIterations d \<Longrightarrow> pr_iteration q \<le> ap_maxIterations d"
    "harmless d e" "pr_phase q = Finished \<longleftrightarrow> closes e" "pr_phase p \<noteq> Finished"
  using assms
  by (cases e; auto simp: starts_tool_def starts_iteration_def harmless_def closes_def start_call_def batch_ok_def after_calls_def
      split: if_splits phase.splits list.splits)+

lemma follow_counts:
  "follow d p es = Some q \<Longrightarrow>
     pr_calls q = pr_calls p + count_events starts_tool es \<and> pr_iteration q = pr_iteration p + count_events starts_iteration es \<and>
     (pr_calls p \<le> ap_maxToolCalls d \<longrightarrow> pr_calls q \<le> ap_maxToolCalls d) \<and>
     (pr_iteration p \<le> ap_maxIterations d \<longrightarrow> pr_iteration q \<le> ap_maxIterations d) \<and> list_all (harmless d) es"
proof (induction es arbitrary: p)
  case (Cons e es)
  then obtain r where r: "event_step d p e = Some r" "follow d r es = Some q" by (auto split: option.splits)
  show ?case using Cons.IH [OF r(2)] step_counts [OF r(1)] by auto
qed simp

lemma follow_closes:
  "follow d p es = Some q \<Longrightarrow> pr_phase q = Finished \<Longrightarrow> pr_phase p \<noteq> Finished \<Longrightarrow> es \<noteq> [] \<and> closes (last es) \<and> count_events closes es = 1"
proof (induction es arbitrary: p)
  case (Cons e es)
  then obtain r where r: "event_step d p e = Some r" "follow d r es = Some q" by (auto split: option.splits)
  show ?case
  proof (cases "pr_phase r = Finished")
    case True
    then have "es = []" using r(2) step_counts(7) by (cases es) (auto split: option.splits)
    then show ?thesis using True step_counts(6) [OF r(1)] by simp
  next
    case False
    then show ?thesis using Cons.IH [OF r(2) Cons.prems(2)] step_counts(6) [OF r(1)] by simp
  qed
qed simp

text \<open>
  C21: a run starts at most \<open>maxToolCalls\<close> tool calls in at most \<open>maxIterations\<close> iterations, every call it starts
  has an identity, a name that is not denied and a tool that reads or proposes, and it announces its end
  exactly once, as its last event.
\<close>

theorem budgets_hold:
  "let es = map snd (ag_events (run_agent d ms w)) in
     count_events starts_tool es \<le> ap_maxToolCalls d \<and> count_events starts_iteration es \<le> ap_maxIterations d \<and>
     list_all (harmless d) es \<and> es \<noteq> [] \<and> closes (last es) \<and> count_events closes es = 1"
proof -
  obtain q where q: "follow d protocol_start (map snd (ag_events (run_agent d ms w))) = Some q" "pr_phase q = Finished"
    using follows_to_end [of d ms w] by (auto split: option.splits)
  show ?thesis
    using follow_counts [OF q(1)] follow_closes [OF q] by (simp add: protocol_start_def Let_def)
qed

text \<open>After a completed proposal, only the provider that answered last is asked.\<close>

fun pinned :: "'w AgentPorts \<Rightarrow> string \<Rightarrow> bool \<Rightarrow> agent_event list \<Rightarrow> bool" where
  "pinned d x eff [] = True"
| "pinned d x eff (Model_responded y r # es) = pinned d y eff es"
| "pinned d x eff (Tool_completed c r # es) = pinned d x (eff \<or> is_proposal d c) es"
| "pinned d x eff (Model_requested y n # es) = ((eff \<longrightarrow> y = x) \<and> pinned d x eff es)"
| "pinned d x eff (e # es) = pinned d x eff es"

definition on_provider :: "'w AgentPorts \<Rightarrow> string \<Rightarrow> protocol \<Rightarrow> bool" where
  "on_provider d x p \<longleftrightarrow> (pr_effects p \<longrightarrow> x = ap_providers d ! pr_provider p) \<and>
     (case pr_phase p of
        Asking i \<Rightarrow> pr_effects p \<longrightarrow> i = pr_provider p
      | Waiting i \<Rightarrow> pr_effects p \<longrightarrow> i = pr_provider p
      | Decided m \<Rightarrow> x = ap_providers d ! pr_provider p
      | Batch cs \<Rightarrow> x = ap_providers d ! pr_provider p
      | Running c cs \<Rightarrow> x = ap_providers d ! pr_provider p
      | _ \<Rightarrow> True)"

lemma follow_pinned: "follow d p es = Some q \<Longrightarrow> on_provider d x p \<Longrightarrow> pinned d x (pr_effects p) es"
proof (induction es arbitrary: p x)
  case (Cons e es)
  then obtain r where r: "event_step d p e = Some r" "follow d r es = Some q" by (auto split: option.splits)
  show ?case
    using Cons.IH [OF r(2)] r(1) Cons.prems(2)
    by (cases e) (fastforce simp: on_provider_def start_call_def after_calls_def split: if_splits phase.splits list.splits)+
qed simp

text \<open>
  C22: once a proposal was made, the run asks no other provider than the one that answered last: a failing
  model never hands a conversation that had effects to another model.
\<close>

theorem no_failover_after_proposal: "pinned d [] False (map snd (ag_events (run_agent d ms w)))"
proof -
  obtain q where "follow d protocol_start (map snd (ag_events (run_agent d ms w))) = Some q"
    using follows_to_end [of d ms w] by (auto split: option.splits)
  from follow_pinned [OF this, of "[]"] show ?thesis by (simp add: on_provider_def protocol_start_def)
qed

end
