(* ===== verification/AgentSafety.thy ===== *)
theory AgentSafety
  imports AgentProtocol
begin

text \<open>
  What a run can do to the world, in general and with the registry as its dispatcher; and what the runtime
  leaves unrecorded.
\<close>

section \<open>What a run can do\<close>

text \<open>A property of the world that every port keeps, the dispatcher for the calls of \<open>A\<close>.\<close>

definition agent_ports_keep :: "'w AgentPorts \<Rightarrow> (ToolCall \<Rightarrow> bool) \<Rightarrow> ('w \<Rightarrow> bool) \<Rightarrow> bool" where
  "agent_ports_keep d A I \<longleftrightarrow> (\<forall>e w. I w \<longrightarrow> I (ap_consume d e w)) \<and> (\<forall>i ms w. I w \<longrightarrow> I (snd (ap_complete d i ms w))) \<and>
     (\<forall>m w. I w \<longrightarrow> I (snd (ap_persistMessage d m w))) \<and> (\<forall>l w. I w \<longrightarrow> I (snd (ap_persistLifecycle d l w))) \<and>
     (\<forall>c w. A c \<longrightarrow> I w \<longrightarrow> I (snd (ap_dispatch d c w)))"

definition keeps_world :: "('w \<Rightarrow> bool) \<Rightarrow> ('w, 'a) agent \<Rightarrow> bool" where
  "keeps_world I m \<longleftrightarrow> (\<forall>s. I (ag_world s) \<longrightarrow> I (ag_world (snd (m s))))"

lemma keepsD: "keeps_world I m \<Longrightarrow> m s = (r, t) \<Longrightarrow> I (ag_world s) \<Longrightarrow> I (ag_world t)"
  unfolding keeps_world_def by (metis snd_conv)

lemma keeps_simple [intro]:
  "keeps_world I (returnE x)" "keeps_world I (throwE e)" "keeps_world I (getE f)" "keeps_world I (guardE b e)" "keeps_world I (liftE r)" "keeps_world I (is_aborted d)"
  by (simp_all add: keeps_world_def eff_defs is_aborted_def)

lemma keeps_bind [intro]:
  assumes "keeps_world I m" "\<And>x. keeps_world I (f x)"
  shows "keeps_world I (bindE m f)"
  unfolding keeps_world_def
proof (intro allI impI)
  fix s :: "'a AgentRun" assume "I (ag_world s)"
  moreover obtain r t where "m s = (r, t)" by fastforce
  ultimately show "I (ag_world (snd (bindE m f s)))"
    using keepsD [OF assms(1)] assms(2) by (cases r) (auto simp: bindE_def keeps_world_def)
qed

lemma keeps_seq [intro]: "keeps_world I m \<Longrightarrow> keeps_world I n \<Longrightarrow> keeps_world I (seqE m n)"
  by (auto simp: seqE_def)

lemma keeps_catch [intro]:
  assumes "keeps_world I m" "\<And>e. keeps_world I (h e)"
  shows "keeps_world I (catchE m h)"
  unfolding keeps_world_def
proof (intro allI impI)
  fix s :: "'a AgentRun" assume "I (ag_world s)"
  moreover obtain r t where "m s = (r, t)" by fastforce
  ultimately show "I (ag_world (snd (catchE m h s)))"
    using keepsD [OF assms(1)] assms(2) by (cases r) (auto simp: catchE_def keeps_world_def)
qed

lemma keeps_if [intro]: "keeps_world I m \<Longrightarrow> keeps_world I n \<Longrightarrow> keeps_world I (if b then m else n)"
  by simp

lemma keeps_when [intro]: "keeps_world I m \<Longrightarrow> keeps_world I (whenE b m)"
  by (auto simp: whenE_def)

lemma keeps_modify [intro]: "(\<And>s. ag_world (f s) = ag_world s) \<Longrightarrow> keeps_world I (modifyE f)"
  by (simp add: keeps_world_def modifyE_def)

lemma keeps_for [intro]: "(\<And>x. x \<in> set xs \<Longrightarrow> keeps_world I (f x)) \<Longrightarrow> keeps_world I (forE xs f)"
  by (induction xs) auto

lemma keeps_port [intro]:
  assumes "\<And>w. I w \<Longrightarrow> I (snd (m w))"
  shows "keeps_world I (port m)"
  using assms by (fastforce simp: keeps_world_def port_def split: prod.split sum.split)

lemma keeps_abortable [intro]:
  assumes "\<And>w. I w \<Longrightarrow> I (snd (m w))"
  shows "keeps_world I (abortable d m)"
  using assms by (fastforce simp: keeps_world_def abortable_def split: prod.split)

lemma keeps_yield: "agent_ports_keep d A I \<Longrightarrow> keeps_world I (yieldE d e)"
  by (simp add: agent_ports_keep_def keeps_world_def yieldE_def modifyE_def)

lemma keeps_ask_provider: "agent_ports_keep d A I \<Longrightarrow> keeps_world I (ask_provider d i)"
  unfolding ask_provider_def by (intro keeps_bind keeps_seq keeps_abortable keeps_modify keeps_simple keeps_yield) (auto simp: agent_ports_keep_def split: option.split)

lemma keeps_provider_failed: "agent_ports_keep d A I \<Longrightarrow> keeps_world I (provider_failed d i b e)"
  unfolding provider_failed_def by (intro keeps_bind keeps_seq keeps_if keeps_simple keeps_yield)

lemma keeps_ask_model: "agent_ports_keep d A I \<Longrightarrow> keeps_world I (ask_model d it i k)"
proof (induction k arbitrary: i)
  case (Suc k)
  then show ?case unfolding ask_model.simps
    by (intro keeps_bind keeps_seq keeps_catch keeps_yield keeps_ask_provider keeps_provider_failed) (auto split: option.split)
qed auto

lemma keeps_call_tool:
  assumes "agent_ports_keep d A I" "A c"
  shows "keeps_world I (call_tool d (c, g, eff))"
  unfolding call_tool_def prod.case count_call_def dispatch_call_def keep_result_def push_message_def
  by (intro keeps_bind keeps_seq keeps_catch keeps_when keeps_port keeps_abortable keeps_modify keeps_simple keeps_yield [OF assms(1)])
    (use assms in \<open>auto simp: agent_ports_keep_def\<close>)

lemma keeps_use_tools:
  assumes "agent_ports_keep d (allowed_call d) I"
  shows "keeps_world I (use_tools d it m)"
proof -
  have "keeps_world I (bindE (liftE (check_calls d rep {} (calls_of m))) (\<lambda>vs.
     seqE (port (ap_persistMessage d (Msg_assistant m))) (seqE (push_message (Msg_assistant m)) (forE vs (call_tool d)))))" for rep
  proof (cases "check_calls d rep {} (calls_of m)")
    case (Inl e)
    then show ?thesis by (simp add: keeps_world_def bindE_def liftE_def)
  next
    case (Inr vs)
    have "keeps_world I (call_tool d v)" if "v \<in> set vs" for v
    proof -
      have "fst v \<in> set (calls_of m)" using check_calls_ok [OF Inr] that by (metis image_eqI image_set)
      then have "allowed_call d (fst v)" using check_calls_ok [OF Inr] by (simp add: list_all_iff)
      then show ?thesis using keeps_call_tool [OF assms] by (cases v) simp
    qed
    then have "keeps_world I (seqE (port (ap_persistMessage d (Msg_assistant m))) (seqE (push_message (Msg_assistant m)) (forE vs (call_tool d))))"
      unfolding push_message_def using assms by (intro keeps_seq keeps_port keeps_modify keeps_for) (auto simp: agent_ports_keep_def)
    then show ?thesis using Inr by (simp add: bindE_def liftE_def keeps_world_def)
  qed
  note rest = this
  show ?thesis unfolding use_tools_def by (rule rest keeps_simple | rule keeps_seq | rule keeps_bind)+
qed

lemma keeps_take_turn:
  assumes "agent_ports_keep d (allowed_call d) I"
  shows "keeps_world I (take_turn d it)"
  unfolding take_turn_def
  by (intro keeps_bind keeps_seq keeps_if keeps_simple keeps_port keeps_yield [OF assms] keeps_ask_model [OF assms] keeps_use_tools [OF assms])
    (use assms in \<open>simp add: agent_ports_keep_def\<close>)

lemma keeps_take_turns: "agent_ports_keep d (allowed_call d) I \<Longrightarrow> keeps_world I (take_turns d k)"
  by (induction k) (auto intro!: keeps_bind keeps_take_turn)

lemma run_keeps:
  assumes "agent_ports_keep d (allowed_call d) I" "I w"
  shows "I (ag_world (run_agent d ms w))"
proof -
  have "keeps_world I (run_failed d e)" for e
    unfolding run_failed_def by (intro keeps_bind keeps_if keeps_simple keeps_yield [OF assms(1)])
  then have "keeps_world I (seqE (yieldE d Run_started) (catchE (take_turns d (ap_maxIterations d)) (run_failed d)))"
    by (intro keeps_seq keeps_catch keeps_yield [OF assms(1)] keeps_take_turns [OF assms(1)])
  then show ?thesis using assms(2) by (simp add: keeps_world_def run_agent_def agent_start_def)
qed

section \<open>With the registry\<close>

text \<open>The runtime of the composition: the registry classifies and executes, with the capabilities of the composition.\<close>

definition with_registry :: "'w RegistryOptions \<Rightarrow> string list \<Rightarrow> ('w ToolRegistry \<Rightarrow> bool) \<Rightarrow> 'w ToolRegistry \<Rightarrow> 'w ToolRegistry AgentPorts \<Rightarrow> 'w ToolRegistry AgentPorts" where
  "with_registry ro caps lost g d = d\<lparr> ap_tools := True, ap_classify := (\<lambda>n. registry_classify n g),
     ap_dispatch := (\<lambda>c h. case registry_dispatch ro caps c h of (r, h') \<Rightarrow> (if lost h' then None else Some r, h')) \<rparr>"

text \<open>What the model can have executed: a granted tool that reads or trades, under a name that is not denied.\<close>

definition reachable_tool :: "string list \<Rightarrow> 'w ToolDefinition \<Rightarrow> bool" where
  "reachable_tool caps t \<longleftrightarrow> td_effect t \<in> {Eff_read, Eff_trade} \<and> tool_granted caps t \<and> \<not> deniedTool (td_name t)"

lemma allowed_reachable:
  assumes "allowed_call (with_registry ro caps lost g d) c" "tool_of (the (tc_name c)) g = Some t" "tool_granted caps t"
  shows "reachable_tool caps t"
  using assms tool_of_member [OF assms(2)]
  by (auto simp: allowed_call_def with_registry_def reachable_tool_def registry_classify_def classify_tool_def require_tool_def
      split: option.splits if_splits)

text \<open>
  C20: whatever the model asks for, a run over the registry changes of the world only what its own ports
  and the executions of granted, reading or trading tools under undenied names change: a property that
  those keep holds after every run, so administrative and writing tools and tools without the
  capability never act.
\<close>

theorem only_reachable_tools_act:
  assumes "registry_quiet ro I g" "I (rg_world g)"
    "agent_ports_keep d (\<lambda>_. False) (registry_after I g)"
    "list_all (\<lambda>t. if reachable_tool caps t then executes_safely I t else True) (rg_tools g)"
  shows "I (rg_world (ag_world (run_agent (with_registry ro caps lost g d) ms g)))"
proof -
  let ?d = "with_registry ro caps lost g d"
  have dispatch: "registry_after I g (snd (ap_dispatch ?d c h))" if c: "allowed_call ?d c" and h: "registry_after I g h" for c h
  proof -
    have "wp (invoke ro (the (tc_name c)) (tc_arguments c) caps (tc_id c)) (\<lambda>_. registry_after I g) (\<lambda>_. registry_after I g) h"
    proof (rule wp_invoke [OF assms(1) h])
      fix t assume t: "tool_of (the (tc_name c)) g = Some t" "tool_granted caps t"
      then have "reachable_tool caps t" using allowed_reachable c by blast
      then show "executes_safely I t" using assms(4) tool_of_member [OF t(1)] by (auto simp: list_all_iff)
    qed
    then show ?thesis
      by (auto simp: with_registry_def registry_dispatch_def bindE_def returnE_def wp_def split: prod.splits sum.splits)
  qed
  have "agent_ports_keep ?d (allowed_call ?d) (registry_after I g)"
    using assms(3) dispatch by (auto simp: agent_ports_keep_def with_registry_def)
  from run_keeps [OF this, of g ms] assms(2) show ?thesis by (simp add: registry_after_def)
qed

section \<open>What goes unrecorded\<close>

text \<open>
  A call is dispatched although the signal is already raised: its effects happen, its result is dropped and
  the lifecycle is left at \<open>started\<close>.
\<close>

lemma aborted_call_dispatched:
  assumes "ap_dispatch d c (ag_world s) = (r, w)" "ap_aborted d (ag_world s)" "ap_aborted d w"
  shows "dispatch_call d c eff s = (Inl Signal_reason, s\<lparr> ag_world := w \<rparr>)"
  using assms by (simp add: dispatch_call_def abortable_def is_aborted_def eff_defs)

text \<open>A call that succeeded is recorded as failed when recording its success fails.\<close>

lemma success_recorded_as_failure:
  assumes "ap_dispatch d c (ag_world s) = (Some (Inr r), w)" "\<not> ap_aborted d (ag_world s)"
    "ap_persistLifecycle d (Succeeded c r) w = (Inl x, w1)" "\<not> ap_aborted d w1"
  shows "ag_world (snd (dispatch_call d c eff s)) = snd (ap_persistLifecycle d (Failed c (Plain_error x)) w1)"
  using assms by (simp add: dispatch_call_def abortable_def is_aborted_def port_def eff_defs split: prod.splits sum.splits)

text \<open>A result that holds a \<open>bigint\<close> cannot be written: the tool ran, no message is kept and no reconciliation asked for.\<close>

lemma bigint_result_unrecorded:
  assumes "dr_data r = Some (Jv_bigint n)"
  shows "keep_result d c r s = (Inl (Plain_error ''Do not know how to serialize a BigInt''), s)"
proof -
  have "traverse (map f (xs @ x # ys)) = None" if "f x = None" for f :: "string \<times> jvalue \<Rightarrow> (string \<times> string) option" and xs x ys
    using that by (induction xs) (auto split: option.splits)
  note none = this [of _ "(''data'', Jv_bigint n)"]
  have "\<exists>xs ys. result_value r = Jv_object (xs @ (''data'', Jv_bigint n) # ys)"
    unfolding result_value_def assms
    by (rule exI [of _ "[(''ok'', Jv_bool (dr_ok r))] @ (case dr_toolCallId r of None \<Rightarrow> [] | Some x \<Rightarrow> [(''toolCallId'', Jv_string x)]) @
        (case dr_name r of None \<Rightarrow> [] | Some x \<Rightarrow> [(''name'', Jv_string x)])"], rule exI) simp
  then obtain xs ys where "result_value r = Jv_object (xs @ (''data'', Jv_bigint n) # ys)" by blast
  then have "stable_text (ap_collate d) (ap_number_text d) (result_value r) = None"
    using none [of "\<lambda>(k, v). map_option (Pair k) (stable_text (ap_collate d) (ap_number_text d) v)" xs ys] by simp
  then show ?thesis by (simp add: keep_result_def stableStringify_def bindE_def liftE_def)
qed

text \<open>The calls of one batch are compared with the earlier batches only: any number of identical calls passes together.\<close>

definition same_call :: "string \<Rightarrow> nat \<Rightarrow> ToolCall" where
  "same_call name k = \<lparr> tc_id = Some (CHR ''c'' # show_int (int k)), tc_name = Some name, tc_arguments = Some Jv_null \<rparr>"

lemma identical_calls_pass:
  assumes "allowed_call d (same_call name 0)" "1 \<le> ap_maxRepeated d" "distinct ks" "\<And>k. k \<in> set ks \<Longrightarrow> CHR ''c'' # show_int (int k) \<notin> seen"
  shows "\<exists>vs. check_calls d [] seen (map (same_call name) ks) = Inr vs"
  using assms(3,4)
proof (induction ks arbitrary: seen)
  case (Cons k ks)
  have "\<exists>eff. check_call d [] seen (same_call name k) = Inr (CHR ''c'' # show_int (int k), name @ '':'' @ ''null'', eff)"
    using assms(1,2) Cons.prems(2) [of k]
    by (auto simp: check_call_def allowed_call_def same_call_def repeated_calls_def stableStringify_def nonempty_def js_trim_def js_space_def)
  moreover have "\<exists>vs. check_calls d [] (insert (CHR ''c'' # show_int (int k)) seen) (map (same_call name) ks) = Inr vs"
    using Cons.prems by (intro Cons.IH) auto
  ultimately show ?case by auto
qed simp

section \<open>An example\<close>

text \<open>A registry with a tool that reads and one that stops the system; the world is whether it was stopped.\<close>

definition ex_tool :: "string \<Rightarrow> ToolEffect \<Rightarrow> (bool \<Rightarrow> bool) \<Rightarrow> bool ToolDefinition" where
  "ex_tool n eff act = \<lparr> td_name = n, td_capabilities = [''ops''], td_effect = eff, td_parallelSafe = True, td_availability = None,
     td_input = Inr, td_output = Inr, td_execute = (\<lambda>x i caps w. (Tool_value (Some (Jv_bool w)), act w)) \<rparr>"

definition ex_registry :: "bool ToolRegistry" where
  "ex_registry = \<lparr> rg_tools = [ex_tool ''status'' Eff_read id, ex_tool ''stop'' Eff_admin (\<lambda>_. True)], rg_toolsets = [], rg_sequence = 0, rg_world = False \<rparr>"

definition ex_registry_options :: "bool RegistryOptions" where
  "ex_registry_options = \<lparr> ro_audit = (\<lambda>e w. w), ro_collate = (\<lambda>_. 0) \<rparr>"

definition ex_message :: "string list \<Rightarrow> AssistantMessage" where
  "ex_message names = \<lparr> am_role = ''assistant'', am_content = Some [],
     am_toolCalls = Calls (map (\<lambda>n. \<lparr> tc_id = Some n, tc_name = Some n, tc_arguments = None \<rparr>) names) \<rparr>"

text \<open>A model that asks for the status first and then for the stop.\<close>

definition ex_agent :: "bool ToolRegistry AgentPorts" where
  "ex_agent = \<lparr> ap_providers = [''m''], ap_tools = True, ap_maxIterations = 8, ap_maxToolCalls = 16, ap_maxRepeated = 3,
     ap_now = (\<lambda>_. 0), ap_aborted = (\<lambda>_. False), ap_timedOut = (\<lambda>_. False), ap_reason = (\<lambda>_. None), ap_consume = (\<lambda>e w. w),
     ap_complete = (\<lambda>i ms w. (Some (Inr (Some (ex_message (if length ms < 2 then [''status''] else [''stop''])))), w)),
     ap_classify = (\<lambda>_. Inr None), ap_dispatch = (\<lambda>c w. (None, w)), ap_persistMessage = (\<lambda>m. returnE ()),
     ap_persistLifecycle = (\<lambda>l. returnE ()), ap_collate = (\<lambda>k. of_nat (length k)), ap_number_text = (\<lambda>_. ''1'') \<rparr>"

abbreviation ex_composed :: "bool ToolRegistry AgentPorts" where
  "ex_composed \<equiv> with_registry ex_registry_options [''ops''] (\<lambda>_. False) ex_registry ex_agent"

theorem only_reachable_tools_act_witness:
  "\<not> rg_world (ag_world (run_agent ex_composed [Msg_text ''user'' ''stop''] ex_registry))"
proof (rule only_reachable_tools_act [where I = Not])
  show "registry_quiet ex_registry_options Not ex_registry"
    by (simp add: registry_quiet_def ex_registry_options_def ex_registry_def ex_tool_def tool_status_def returnE_def)
  show "\<not> rg_world ex_registry" by (simp add: ex_registry_def)
  show "agent_ports_keep ex_agent (\<lambda>_. False) (registry_after Not ex_registry)"
    by (simp add: agent_ports_keep_def ex_agent_def returnE_def)
  show "list_all (\<lambda>t. if reachable_tool [''ops''] t then executes_safely Not t else True) (rg_tools ex_registry)"
    by (simp add: ex_registry_def ex_tool_def reachable_tool_def executes_safely_def)
qed

lemma ex_run: "map snd (ag_events (run_agent ex_composed [Msg_text ''user'' ''stop''] ex_registry)) =
   (let status = \<lparr> tc_id = Some ''status'', tc_name = Some ''status'', tc_arguments = None \<rparr> in
   [Run_started, Iteration_started 1, Model_requested ''m'' 1, Model_responded ''m'' (Some (ex_message [''status''])),
    Tool_started status,
    Tool_completed status \<lparr> dr_ok = True, dr_toolCallId = Some ''status'', dr_name = Some ''status'', dr_data = Some (Jv_bool False), dr_error = None \<rparr>,
    Iteration_started 2, Model_requested ''m'' 2, Model_responded ''m'' (Some (ex_message [''stop''])),
    Run_failed UNSAFE_TOOL ''Runtime cannot execute tool: stop''])"
  by code_simp

end
