(* ===== verification/Spec2Isabelle.thy ===== *)
theory Spec2Isabelle
  imports Reconciler ProcessLock ControlLedger Approvals AuthIssuer Frames JobLeases PumpCurve PerpSafety PoolSafety RebalanceRate DelegationSafety LiveSafety StrategyGateway EventDelivery MarketTriggers AgentSafety
begin

text \<open>
  A verification development for RatifyOS: the parts of \<open>src/src\<close> that decide whether value moves, and the queues,
  ledgers and managers those decisions rest on.

  How the program fits together. A tool proposes a \<open>TradeIntent\<close>; the perp and pool packages first run their own
  guards on it. The kernel's gateway re-validates the intent, reserves its input leg against rolling caps, signs,
  persists, broadcasts, confirms and settles it, and a recovery resolves what a crash left. The live path adds a
  control ledger with a kill switch, approvals by a quorum, simulation evidence, an authorization issued by a key
  the host holds, and an isolated signer that decodes the transaction again and signs one authorization once.
  Background work runs from a leased job queue; delegated child runs from a manager with limits.

  \<^bold>\<open>Foundations\<close>
  \<^item> \<open>Prelude\<close>: JavaScript numbers and \<open>BigInt\<close>; the effect monad (state, thrown errors, transactions) with its
    weakest preconditions; tables of rows; the contracts shared by several components as locales: \<open>rolling_cap\<close> (a
    ledger whose windows never exceed a cap), interpreted by the kernel's store and the control ledger, and
    \<open>claim_once\<close> (a key claimed at most once), interpreted by the idempotency fence, the approvals and the replay stores.
  \<^item> \<open>Doubles\<close>: binary64 as rounded rationals with the operations the code applies, unbounded exponents apart from
    overflow to infinity. \<open>Json\<close>: JSON values, canonical serialization and its injectivity, decimal printing.

  \<^bold>\<open>Kernel\<close> (\<open>kernel/\<close>)
  \<^item> \<open>Money\<close>, \<open>Contracts\<close>, \<open>PolicyEngine\<close>: \<open>money.ts\<close>, \<open>contracts.ts\<close>, \<open>errors.ts\<close>, \<open>policy-engine.ts\<close>, \<open>defaults.ts\<close>;
    every static guard, in the code's order, and what an accepted intent satisfies.
  \<^item> \<open>KernelStore\<close>: \<open>store.ts\<close>. The idempotency fence, the append-only journal and the spend caps under any
    interleaving of the store's operations.
  \<^item> \<open>TradeGateway\<close>: \<open>trade-gateway.ts\<close>, one definition per stage of \<open>#live\<close>. The ports are parameters on a world of
    any type; \<open>held\<close>, \<open>owns\<close> and \<open>resolved\<close> say which rows a call owns at each stage, and the properties of \<open>execute\<close>
    follow from the stages' lemmas.
  \<^item> \<open>Reconciler\<close>: \<open>reconciler.ts\<close>, and what it does to a call that crashed after its broadcast. \<open>ProcessLock\<close>: \<open>lock.ts\<close>,
    one system call at a time, with the race of two boots.

  \<^bold>\<open>Execution\<close> (\<open>execution/\<close>)
  \<^item> \<open>ControlLedger\<close>: \<open>control/index.ts\<close>, limits, windows, kill switch and tenants. \<open>Approvals\<close>: \<open>approvals/index.ts\<close>, requests,
    votes, the quorum and consumption. \<open>AuthIssuer\<close>: \<open>simulation.ts\<close>, \<open>authorization/\<close> and \<open>gateway.ts\<close>: what an accepted
    simulation, an issued authorization and a signed execution are bound to. Digests and signatures are parameters.

  \<^bold>\<open>Signer\<close> (\<open>signer/\<close>)
  \<^item> \<open>SignerTx\<close>: \<open>transaction.ts\<close>, the decoder with its canonical encoding. \<open>SignerPolicy\<close>: \<open>policy.ts\<close>. \<open>SignerAuth\<close>:
    \<open>authorization.ts\<close> and \<open>replay.ts\<close>, with the two replay stores shown to agree through the locale \<open>replay_store\<close>.
    \<open>SignerService\<close>: \<open>index.ts\<close>, the state machine of an authorization. \<open>SignerExample\<close>: concrete runs. \<open>Frames\<close>: the framing of
    the socket protocol.

  \<^bold>\<open>Autonomy\<close> (\<open>autonomy/\<close>)
  \<^item> \<open>Jobs\<close>, \<open>JobLeases\<close>: \<open>jobs/index.ts\<close>: claiming, leases with fencing tokens (locale \<open>fence\<close>), retries with backoff,
    recovery, draining, and an invariant of every history of the queue.
  \<^item> \<open>Delegation\<close>, \<open>DelegationSafety\<close>: \<open>delegation/index.ts\<close> as a transition system whose steps are the stretches of
    code between awaits; its limits, its queue, and what settles a child.

  \<^bold>\<open>Venues\<close> (\<open>perps/\<close>, \<open>pools/\<close>)
  \<^item> \<open>Perps\<close>, \<open>PerpGuards\<close>, \<open>PerpSafety\<close>: policy, exposure, liquidation, the seventeen rules, the advisory evaluation and the
    bridge of a perp intent to the kernel.
  \<^item> \<open>PumpCurve\<close>: \<open>pumpfun/math.ts\<close>. \<open>Bins\<close>: \<open>meteora/bins.ts\<close>; logarithm, exponential, square root and power of doubles are
    a parameter. \<open>PoolGuards\<close>, \<open>PoolSafety\<close>: \<open>guards.ts\<close>, \<open>intent.ts\<close>, and how a withdrawal meets the kernel's fee guard.
    \<open>Rebalance\<close>, \<open>RebalanceRate\<close>: \<open>rebalance/\<close>, and the rate of rebalances in any sequence of calls.

  \<^bold>\<open>Live trading\<close> (\<open>live-trading/\<close>)
  \<^item> \<open>LiveTrading\<close>: \<open>index.ts\<close>, the store of executions and the orchestrator that takes a quote through simulation,
    approval (the engine of \<open>Approvals\<close>), authorization, signing, broadcast and recovery. Each awaited call is a port that
    may change the whole state. \<open>LiveMachine\<close>: the machine of single transitions, its invariant, and the rules by which a
    call is shown to be a run of it; \<open>LiveCalls\<close>: that every call is; \<open>LiveExample\<close>: one trade from quote to broadcast;
    \<open>LiveSafety\<close>: the properties.

  \<^bold>\<open>Strategies\<close> (\<open>strategy/\<close>)
  \<^item> \<open>Strategies\<close>: \<open>store.ts\<close> and \<open>runner.ts\<close>, the table and one definition per stage of \<open>#step\<close>; ports may change the table
    while a step waits. \<open>StrategyRuns\<close>: the locale \<open>strategy_invariant\<close>, whose laws an invariant of one strategy has to
    satisfy to hold over every history, interpreted for TWAPs and DCAs. \<open>StrategyGateway\<close>: \<open>executor.ts\<close> on the kernel's
    \<open>execute\<close>; the caps over autonomous trading, unpinned mints, and what a replay after a crash does.

  \<^bold>\<open>Events\<close> (\<open>autonomy/events/index.ts\<close>)
  \<^item> \<open>EventBus\<close>: envelopes, their persistence with \<open>bigint\<close>s, the bus in memory and the bus over SQLite. A handler is an
    effect on the whole database inside the transaction of \<open>process\<close>; \<open>deliver_to\<close> has fuel, and one round per pending
    event is enough (\<open>backlog_in_order\<close>). \<open>EventDelivery\<close>: at most once per consumer and cursor, dead letters, the order of
    the backlog, and where events are lost. \<open>MarketTriggers\<close>: the trigger engine; once per event, spaced by the cooldown.

  \<^bold>\<open>Agent\<close> (\<open>agent/runtime\<close>, \<open>agent/tools\<close>, the dispatcher of \<open>app/adapters.ts\<close>)
  \<^item> \<open>AgentTools\<close>: the registry and \<open>invoke\<close> with its refusals. \<open>AgentRuntime\<close>: the loop between model and tools, one
    definition per stage; ports may change the world, raise signals and fail at every step. \<open>AgentProtocol\<close>: the automaton
    over the events of a run, the rule by which each stage follows it, and what is read off it. \<open>AgentSafety\<close>: what a run over
    the registry can change of the world, and what the runtime leaves unrecorded.

  \<^bold>\<open>Bounds\<close>. Amounts are \<open>BigInt\<close> and unbounded, as in the code; loops are structural recursions, or functions with a
  measure (the descent over child sessions, the shrinking of a bin range, the wire decoder), so every
  definition is total. Only \<open>deliver_to\<close>, whose handlers may publish without end, has fuel (see Events). Times are epoch milliseconds as integers.

  \<^bold>\<open>Not modelled\<close>. Cryptography (hashes, signatures, key derivation), SQLite's file format, the network, RPC nodes and venue
  SDKs are parameters, constrained only by named hypotheses where a property needs them. Texts of errors and summaries
  are left out unless the code branches on them. The HTTP, HTML, messaging and command-line layers, the language-model
  providers, configuration parsing, key stores and the compiled output under \<open>dist\<close> are outside the
  development; the manifest lists each with its reason.
\<close>

end
